(* ===== verification/Prelude.thy ===== *)
theory Prelude
  imports Main "HOL-Library.Sublist" "HOL-Library.Char_ord" "HOL-Library.List_Lexorder"
    "HOL-Library.Product_Lexorder"
begin

text \<open>
  Shared vocabulary of the development: the error values of the backend
  (\<^verbatim>\<open>storage_errors.go\<close>, \<^verbatim>\<open>domain/repository/errors.go\<close>), the Go string functions the
  code uses, 64-bit integer arithmetic, an error-state monad for handlers and a Hoare
  triple with one postcondition for success and one for an error. Go strings are byte
  sequences, so they are \<^typ>\<open>string\<close> (a list of bytes).
\<close>

named_theorems go_string \<open>definitions of the Go string functions\<close>
named_theorems wp \<open>weakest-precondition style rules for handlers\<close>

section \<open>Errors\<close>

text \<open>
  \<open>Sentinel\<close> carries the text of an \<^verbatim>\<open>errors.New\<close> value of the backend (the texts are
  pairwise different, so comparing texts is comparing the values), \<open>StdErr\<close> that of an
  \<^verbatim>\<open>io/fs\<close> error; \<open>ErrOther\<close> stands for an error value
  the code only passes on (a driver or database failure), \<open>ErrJoin\<close> for
  \<^verbatim>\<open>errors.Join\<close> and \<^verbatim>\<open>fmt.Errorf("%w: %w")\<close>.
\<close>

datatype app_error =
    Sentinel string
  | StdErr string
  | ErrOther string
  | ErrJoin app_error app_error

abbreviation "ErrSourceDriverUnsupported \<equiv> Sentinel ''source driver unsupported''"
abbreviation "ErrConfigInvalid \<equiv> Sentinel ''config invalid''"
abbreviation "ErrSourceOperationUnsupported \<equiv> Sentinel ''source operation unsupported''"
abbreviation "ErrCloudAuthFailed \<equiv> Sentinel ''cloud auth failed''"
abbreviation "ErrCloudTokenInvalid \<equiv> Sentinel ''cloud token invalid''"
abbreviation "ErrCloudCaptchaRequired \<equiv> Sentinel ''cloud captcha required''"
abbreviation "ErrCloudCaptchaExpired \<equiv> Sentinel ''cloud captcha expired''"
abbreviation "ErrCloudRateLimited \<equiv> Sentinel ''cloud rate limited''"
abbreviation "ErrCloudRegionBlocked \<equiv> Sentinel ''cloud region blocked''"
abbreviation "ErrCloudProviderUnavailable \<equiv> Sentinel ''cloud provider unavailable''"
abbreviation "ErrSourceNameConflict \<equiv> Sentinel ''source name conflict''"
abbreviation "ErrSourceMountPathConflict \<equiv> Sentinel ''source mount path conflict''"
abbreviation "ErrSourceConnectionFailed \<equiv> Sentinel ''source connection failed''"
abbreviation "ErrSourceReadOnly \<equiv> Sentinel ''source read only''"
abbreviation "ErrSourceInUse \<equiv> Sentinel ''source in use''"
abbreviation "ErrPathInvalid \<equiv> Sentinel ''path invalid''"
abbreviation "ErrNoBackingStorage \<equiv> Sentinel ''no backing storage''"
abbreviation "ErrNameConflict \<equiv> Sentinel ''name conflict''"
abbreviation "ErrVFSSyncConflict \<equiv> Sentinel ''vfs sync conflict''"
abbreviation "ErrMetadataVFSCommitFailed \<equiv> Sentinel ''metadata vfs commit failed''"
abbreviation "ErrMetadataVFSMountSyncFailed \<equiv> Sentinel ''metadata vfs mount sync failed''"
abbreviation "ErrMetadataVFSMutationSyncFailed \<equiv> Sentinel ''metadata vfs mutation sync failed''"
abbreviation "ErrTagInvalid \<equiv> Sentinel ''tag invalid''"
abbreviation "ErrTagForbidden \<equiv> Sentinel ''tag forbidden''"
abbreviation "ErrTagBindingNotFound \<equiv> Sentinel ''tag binding not found''"
abbreviation "ErrFileNotFound \<equiv> Sentinel ''file not found''"
abbreviation "ErrFileAlreadyExists \<equiv> Sentinel ''file already exists''"
abbreviation "ErrFileNameInvalid \<equiv> Sentinel ''file name invalid''"
abbreviation "ErrFileIsDirectory \<equiv> Sentinel ''file is directory''"
abbreviation "ErrFileMoveConflict \<equiv> Sentinel ''file move conflict''"
abbreviation "ErrFileCopyConflict \<equiv> Sentinel ''file copy conflict''"
abbreviation "ErrUploadSessionNotFound \<equiv> Sentinel ''upload session not found''"
abbreviation "ErrUploadChunkConflict \<equiv> Sentinel ''upload chunk conflict''"
abbreviation "ErrUploadFinishIncomplete \<equiv> Sentinel ''upload finish incomplete''"
abbreviation "ErrUploadHashMismatch \<equiv> Sentinel ''upload hash mismatch''"
abbreviation "ErrUploadInvalidState \<equiv> Sentinel ''upload invalid state''"
abbreviation "ErrUploadTooLarge \<equiv> Sentinel ''upload too large''"
abbreviation "ErrTaskInvalidState \<equiv> Sentinel ''task invalid state''"
abbreviation "ErrDownloadLinkUnsupported \<equiv> Sentinel ''download link unsupported''"
abbreviation "ErrDownloaderUnavailable \<equiv> Sentinel ''downloader unavailable''"
abbreviation "ErrDownloaderAuthFailed \<equiv> Sentinel ''downloader auth failed''"
abbreviation "ErrRSSRegexInvalid \<equiv> Sentinel ''rss regex invalid''"
abbreviation "ErrUserNameConflict \<equiv> Sentinel ''user name conflict''"
abbreviation "ErrUserRoleInvalid \<equiv> Sentinel ''user role invalid''"
abbreviation "ErrUserStatusInvalid \<equiv> Sentinel ''user status invalid''"
abbreviation "ErrRoleAssignmentForbidden \<equiv> Sentinel ''role assignment forbidden''"
abbreviation "ErrLastSuperAdminForbidden \<equiv> Sentinel ''last super admin forbidden''"
abbreviation "ErrACLSubjectTypeInvalid \<equiv> Sentinel ''acl subject type invalid''"
abbreviation "ErrACLEffectInvalid \<equiv> Sentinel ''acl effect invalid''"
abbreviation "ErrACLPermissionsInvalid \<equiv> Sentinel ''acl permissions invalid''"
abbreviation "ErrACLDenied \<equiv> Sentinel ''acl denied''"
abbreviation "ErrPermissionDenied \<equiv> Sentinel ''permission denied''"
abbreviation "ErrShareExpired \<equiv> Sentinel ''share expired''"
abbreviation "ErrSharePasswordRequired \<equiv> Sentinel ''share password required''"
abbreviation "ErrSharePasswordInvalid \<equiv> Sentinel ''share password invalid''"
abbreviation "ErrSetupAlreadyCompleted \<equiv> Sentinel ''setup already completed''"
abbreviation "ErrInvalidCredentials \<equiv> Sentinel ''invalid credentials''"
abbreviation "ErrRefreshTokenInvalid \<equiv> Sentinel ''refresh token invalid''"
abbreviation "ErrAccountLocked \<equiv> Sentinel ''account locked''"
abbreviation "ErrNotFound \<equiv> Sentinel ''resource not found''"
abbreviation "ErrConflict \<equiv> Sentinel ''resource conflict''"
abbreviation "ErrConstraintViolation \<equiv> Sentinel ''resource constraint violation''"
abbreviation "ErrNotExist \<equiv> StdErr ''file does not exist''"
abbreviation "ErrExist \<equiv> StdErr ''file already exists''"
abbreviation "ErrInvalid \<equiv> StdErr ''invalid argument''"
abbreviation "ErrPermission \<equiv> StdErr ''permission denied''"

type_synonym 'a result = "app_error + 'a"

text \<open>\<^verbatim>\<open>errors.Is\<close>: the error itself or one it wraps.\<close>

fun errors_Is :: "app_error \<Rightarrow> app_error \<Rightarrow> bool" where
  "errors_Is (ErrJoin a b) t = (ErrJoin a b = t \<or> errors_Is a t \<or> errors_Is b t)"
| "errors_Is e t = (e = t)"

lemma errors_Is_refl [simp]: "errors_Is e e"
  by (cases e) auto

section \<open>Machine integers\<close>

text \<open>Go's \<^verbatim>\<open>int\<close> and \<^verbatim>\<open>int64\<close> are 64-bit two's complement; arithmetic wraps around and
  division truncates towards zero.\<close>

definition wrap64 :: "int \<Rightarrow> int" where
  "wrap64 x = (x + 2 ^ 63) mod 2 ^ 64 - 2 ^ 63"

definition go_div :: "int \<Rightarrow> int \<Rightarrow> int" where
  "go_div a b = wrap64 (sgn a * sgn b * (\<bar>a\<bar> div \<bar>b\<bar>))"

lemma wrap64_id: "- (2 ^ 63) \<le> x \<Longrightarrow> x < 2 ^ 63 \<Longrightarrow> wrap64 x = x"
  by (simp add: wrap64_def)

lemma wrap64_range: "- (2 ^ 63) \<le> wrap64 x \<and> wrap64 x < 2 ^ 63"
  using pos_mod_bound [of "2 ^ 64" "x + 2 ^ 63"] pos_mod_sign [of "2 ^ 64" "x + 2 ^ 63"]
  by (simp add: wrap64_def)

section \<open>Go strings\<close>

definition HasPrefix :: "string \<Rightarrow> string \<Rightarrow> bool" where
  [go_string]: "HasPrefix s p \<longleftrightarrow> prefix p s"

definition HasSuffix :: "string \<Rightarrow> string \<Rightarrow> bool" where
  [go_string]: "HasSuffix s p \<longleftrightarrow> suffix p s"

definition TrimPrefix :: "string \<Rightarrow> string \<Rightarrow> string" where
  [go_string]: "TrimPrefix s p = (if prefix p s then drop (length p) s else s)"

definition TrimSuffix :: "string \<Rightarrow> string \<Rightarrow> string" where
  [go_string]: "TrimSuffix s p = (if suffix p s then take (length s - length p) s else s)"

definition Contains :: "string \<Rightarrow> string \<Rightarrow> bool" where
  [go_string]: "Contains s p \<longleftrightarrow> sublist p s"

text \<open>\<^verbatim>\<open>strings.Split\<close> on a one-byte separator, and \<^verbatim>\<open>strings.Join\<close>.\<close>

fun Split :: "string \<Rightarrow> char \<Rightarrow> string list" where
  "Split [] c = [[]]"
| "Split (x # xs) c =
     (if x = c then [] # Split xs c
      else (case Split xs c of [] \<Rightarrow> [[x]] | w # ws \<Rightarrow> (x # w) # ws))"

fun Join :: "string list \<Rightarrow> string \<Rightarrow> string" where
  "Join [] sep = []"
| "Join [w] sep = w"
| "Join (w # ws) sep = w @ sep @ Join ws sep"

text \<open>\<^verbatim>\<open>strings.TrimRight\<close> and \<^verbatim>\<open>strings.Trim\<close> with a one-byte cutset.\<close>

definition TrimRight :: "string \<Rightarrow> char \<Rightarrow> string" where
  [go_string]: "TrimRight s c = rev (dropWhile (\<lambda>x. x = c) (rev s))"

definition TrimCut :: "string \<Rightarrow> char \<Rightarrow> string" where
  [go_string]: "TrimCut s c = TrimRight (dropWhile (\<lambda>x. x = c) s) c"

text \<open>
  \<^verbatim>\<open>strings.TrimSpace\<close> removes leading and trailing white space as Unicode defines it. In
  UTF-8 the white-space code points are the byte sequences below; UTF-8 is
  self-synchronising, so removing them as bytes is removing them as code points.
\<close>

definition space_seqs :: "string list" where
  "space_seqs =
     [[CHR 0x09], [CHR 0x0A], [CHR 0x0B], [CHR 0x0C], [CHR 0x0D], [CHR 0x20],
      [CHR 0xC2, CHR 0x85], [CHR 0xC2, CHR 0xA0], [CHR 0xE1, CHR 0x9A, CHR 0x80],
      [CHR 0xE2, CHR 0x80, CHR 0x80], [CHR 0xE2, CHR 0x80, CHR 0x81],
      [CHR 0xE2, CHR 0x80, CHR 0x82], [CHR 0xE2, CHR 0x80, CHR 0x83],
      [CHR 0xE2, CHR 0x80, CHR 0x84], [CHR 0xE2, CHR 0x80, CHR 0x85],
      [CHR 0xE2, CHR 0x80, CHR 0x86], [CHR 0xE2, CHR 0x80, CHR 0x87],
      [CHR 0xE2, CHR 0x80, CHR 0x88], [CHR 0xE2, CHR 0x80, CHR 0x89],
      [CHR 0xE2, CHR 0x80, CHR 0x8A], [CHR 0xE2, CHR 0x80, CHR 0xA8],
      [CHR 0xE2, CHR 0x80, CHR 0xA9], [CHR 0xE2, CHR 0x80, CHR 0xAF],
      [CHR 0xE2, CHR 0x81, CHR 0x9F], [CHR 0xE3, CHR 0x80, CHR 0x80]]"

function trim_seqs :: "string list \<Rightarrow> string \<Rightarrow> string" where
  "trim_seqs ws s =
     (case find (\<lambda>w. w \<noteq> [] \<and> prefix w s) ws of
        None \<Rightarrow> s
      | Some w \<Rightarrow> trim_seqs ws (drop (length w) s))"
  by pat_completeness auto
termination
proof (relation "measure (\<lambda>(ws, s). length s)", simp)
  fix ws :: "string list" and s w :: string
  assume "find (\<lambda>w. w \<noteq> [] \<and> prefix w s) ws = Some w"
  then have "w \<noteq> []" "prefix w s"
    by (auto simp: find_Some_iff)
  then show "((ws, drop (length w) s), ws, s) \<in> measure (\<lambda>(ws, s). length s)"
    by (cases s) auto
qed

declare trim_seqs.simps [simp del]

definition TrimSpace :: "string \<Rightarrow> string" where
  "TrimSpace s = rev (trim_seqs (map rev space_seqs) (rev (trim_seqs space_seqs s)))"

lemma trim_seqs_suffix: "suffix (trim_seqs ws s) s"
proof (induction ws s rule: trim_seqs.induct)
  case (1 ws s)
  show ?case
  proof (cases "find (\<lambda>w. w \<noteq> [] \<and> prefix w s) ws")
    case None
    then show ?thesis by (subst trim_seqs.simps) simp
  next
    case (Some w)
    then have "suffix (trim_seqs ws (drop (length w) s)) (drop (length w) s)"
      by (rule 1)
    then have "suffix (trim_seqs ws (drop (length w) s)) s"
      by (meson suffix_drop suffix_order.trans)
    with Some show ?thesis by (subst trim_seqs.simps) simp
  qed
qed

text \<open>A string that neither starts nor ends with white space is left alone.\<close>

lemma trim_seqs_id: "\<forall>w \<in> set ws. w = [] \<or> \<not> prefix w s \<Longrightarrow> trim_seqs ws s = s"
proof -
  assume "\<forall>w \<in> set ws. w = [] \<or> \<not> prefix w s"
  then have "find (\<lambda>w. w \<noteq> [] \<and> prefix w s) ws = None"
    by (auto simp: find_None_iff)
  then show ?thesis by (subst trim_seqs.simps) simp
qed

lemma trim_seqs_stop: "w \<in> set ws \<Longrightarrow> w \<noteq> [] \<Longrightarrow> \<not> prefix w (trim_seqs ws s)"
proof (induction ws s rule: trim_seqs.induct)
  case (1 ws s)
  show ?case
  proof (cases "find (\<lambda>w. w \<noteq> [] \<and> prefix w s) ws")
    case None
    then have "\<not> prefix w s"
      using "1.prems" by (auto simp: find_None_iff)
    with None show ?thesis by (subst trim_seqs.simps) simp
  next
    case (Some v)
    then have "\<not> prefix w (trim_seqs ws (drop (length v) s))"
      using "1.IH" "1.prems" by blast
    with Some show ?thesis by (subst trim_seqs.simps) simp
  qed
qed

lemma TrimSpace_Nil [simp]: "TrimSpace [] = []"
  by (simp add: TrimSpace_def trim_seqs_id prefix_Nil)

lemma TrimSpace_eq_self:
  assumes "\<forall>w \<in> set space_seqs. \<not> prefix w s" and "\<forall>w \<in> set space_seqs. \<not> suffix w s"
  shows "TrimSpace s = s"
proof -
  have "trim_seqs space_seqs s = s"
    using assms(1) by (intro trim_seqs_id) auto
  moreover have "trim_seqs (map rev space_seqs) (rev s) = rev s"
    using assms(2) by (intro trim_seqs_id) (auto simp: suffix_to_prefix)
  ultimately show ?thesis by (simp add: TrimSpace_def)
qed

text \<open>
  Letter case: \<^verbatim>\<open>strings.ToLower\<close> maps a string of ASCII bytes byte by byte; on other
  strings it uses the Unicode case tables, which are the parameter \<open>uni\<close>.
\<close>

definition lower_byte :: "char \<Rightarrow> char" where
  "lower_byte c = (if 65 \<le> (of_char c :: nat) \<and> of_char c \<le> (90 :: nat)
                   then char_of (of_char c + 32 :: nat) else c)"

definition ToLower :: "(string \<Rightarrow> string) \<Rightarrow> string \<Rightarrow> string" where
  "ToLower uni s = (if \<forall>c \<in> set s. (of_char c :: nat) < 128 then map lower_byte s else uni s)"

subsection \<open>Facts on splitting and joining\<close>

lemma Split_neq_Nil [simp]: "Split s c \<noteq> []"
  by (cases s) (auto split: list.split)

lemma Split_Cons: "x \<noteq> c \<Longrightarrow> Split (x # xs) c = (x # hd (Split xs c)) # tl (Split xs c)"
  by (cases "Split xs c") auto

lemma Split_no_sep: "w \<in> set (Split s c) \<Longrightarrow> c \<notin> set w"
proof (induction s arbitrary: w)
  case (Cons x s)
  show ?case
  proof (cases "x = c")
    case False
    then have "w = x # hd (Split s c) \<or> w \<in> set (tl (Split s c))"
      using Cons.prems by (simp add: Split_Cons del: Split.simps)
    moreover have "set (tl (Split s c)) \<subseteq> set (Split s c)"
      by (cases "Split s c") auto
    ultimately show ?thesis
      using Cons.IH False by (auto simp: subset_iff)
  qed (use Cons in auto)
qed simp

lemma Split_plain: "c \<notin> set s \<Longrightarrow> Split s c = [s]"
  by (induction s) auto

lemma Split_append: "c \<notin> set w \<Longrightarrow> Split (w @ c # s) c = w # Split s c"
  by (induction w) auto

lemma Split_append_sep: "Split (s @ c # t) c = Split s c @ Split t c"
proof (induction s)
  case (Cons a s)
  then show ?case by (cases "a = c"; cases "Split s c") auto
qed simp

lemma HasPrefix_TrimPrefix: "HasPrefix s p \<Longrightarrow> p @ TrimPrefix s p = s"
  by (auto simp: go_string prefix_def)

lemma TrimPrefix_append [simp]: "TrimPrefix (p @ s) p = s"
  by (simp add: TrimPrefix_def)

text \<open>The width of the UTF-8 sequence some bytes start with; 0 when they start with none.\<close>

definition rune_width :: "nat list \<Rightarrow> nat" where
  "rune_width bs =
     (let b0 = (case bs of b # _ \<Rightarrow> b | [] \<Rightarrow> 0);
          cont = (\<lambda>lo hi i. i < length bs \<and> lo \<le> bs ! i \<and> bs ! i \<le> hi)
      in if b0 < 0x80 then 1
         else if 0xC2 \<le> b0 \<and> b0 \<le> 0xDF \<and> cont 0x80 0xBF 1 then 2
         else if 0xE0 \<le> b0 \<and> b0 \<le> 0xEF \<and>
                 cont (if b0 = 0xE0 then 0xA0 else 0x80) (if b0 = 0xED then 0x9F else 0xBF) 1 \<and>
                 cont 0x80 0xBF 2 then 3
         else if 0xF0 \<le> b0 \<and> b0 \<le> 0xF4 \<and>
                 cont (if b0 = 0xF0 then 0x90 else 0x80) (if b0 = 0xF4 then 0x8F else 0xBF) 1 \<and>
                 cont 0x80 0xBF 2 \<and> cont 0x80 0xBF 3 then 4
         else 0)"

section \<open>Handlers: state, result and error\<close>

text \<open>
  A handler maps the state to its result (or the error it returns) and the new state. The
  Go pattern \<^verbatim>\<open>x, err := m(); if err != nil { h(err) }; f(x)\<close> is \<open>if_err m h f\<close>;
  \<open>tryM m f\<close> is the case where the error is returned as it is.
\<close>

type_synonym ('s, 'a) handler = "'s \<Rightarrow> 'a result \<times> 's"

definition ret :: "'a \<Rightarrow> ('s, 'a) handler" where
  "ret x = (\<lambda>s. (Inr x, s))"

definition throw :: "app_error \<Rightarrow> ('s, 'a) handler" where
  "throw e = (\<lambda>s. (Inl e, s))"

definition if_err ::
  "('s, 'a) handler \<Rightarrow> (app_error \<Rightarrow> ('s, 'b) handler) \<Rightarrow> ('a \<Rightarrow> ('s, 'b) handler) \<Rightarrow> ('s, 'b) handler" where
  "if_err m h f = (\<lambda>s. case m s of (Inl e, s') \<Rightarrow> h e s' | (Inr x, s') \<Rightarrow> f x s')"

abbreviation tryM :: "('s, 'a) handler \<Rightarrow> ('a \<Rightarrow> ('s, 'b) handler) \<Rightarrow> ('s, 'b) handler" where
  "tryM m f \<equiv> if_err m throw f"

text \<open>A pure computation inside a handler.\<close>

definition lift :: "'a result \<Rightarrow> ('s, 'a) handler" where
  "lift r = (\<lambda>s. (r, s))"

definition gets :: "('s \<Rightarrow> 'a) \<Rightarrow> ('s, 'a) handler" where
  "gets f = (\<lambda>s. (Inr (f s), s))"

definition modify :: "('s \<Rightarrow> 's) \<Rightarrow> ('s, unit) handler" where
  "modify f = (\<lambda>s. (Inr (), f s))"

text \<open>The same pattern on pure results.\<close>

definition if_errp :: "'a result \<Rightarrow> (app_error \<Rightarrow> 'b) \<Rightarrow> ('a \<Rightarrow> 'b) \<Rightarrow> 'b" where
  "if_errp r h f = (case r of Inl e \<Rightarrow> h e | Inr x \<Rightarrow> f x)"

abbreviation tryp :: "'a result \<Rightarrow> ('a \<Rightarrow> 'b result) \<Rightarrow> 'b result" where
  "tryp r f \<equiv> if_errp r Inl f"

lemmas handler_defs = ret_def throw_def if_err_def lift_def gets_def modify_def

lemma if_errp_simps [simp]:
  "if_errp (Inl e) h f = h e" "if_errp (Inr x) h f = f x"
  by (simp_all add: if_errp_def)

lemma tryp_Inr: "tryp r f = Inr y \<longleftrightarrow> (\<exists>x. r = Inr x \<and> f x = Inr y)"
  by (cases r) auto

lemma if_err_simps [simp]:
  "m s = (Inl e, s') \<Longrightarrow> if_err m h f s = h e s'"
  "m s = (Inr x, s') \<Longrightarrow> if_err m h f s = f x s'"
  by (simp_all add: if_err_def)

text \<open>A success passes through every step.\<close>

lemma tryE:
  assumes "if_err m (\<lambda>e. throw (g e)) f s = (Inr y, s')"
  obtains x s1 where "m s = (Inr x, s1)" "f x s1 = (Inr y, s')"
  using assms that by (cases "m s"; cases "fst (m s)") (auto simp: throw_def)

lemma try_retE:
  assumes "if_err m (\<lambda>e. throw (g e)) ret s = (Inr y, s')"
  shows "m s = (Inr y, s')"
  using assms by (rule tryE) (simp add: ret_def)

lemma tryM_liftE:
  assumes "tryM (lift r) f s = (Inr y, s')"
  obtains x where "r = Inr x" "f x s = (Inr y, s')"
  using assms that by (cases r) (auto simp: throw_def lift_def if_err_def)

subsection \<open>Triples\<close>

text \<open>
  \<open>triple P m Q R\<close>: started in a state with \<open>P\<close>, a handler that succeeds with \<open>x\<close> ends
  in a state with \<open>Q x\<close> and one that fails with \<open>e\<close> in a state with \<open>R e\<close>. Handlers
  are total functions, so this is total correctness.
\<close>

definition triple ::
  "('s \<Rightarrow> bool) \<Rightarrow> ('s, 'a) handler \<Rightarrow> ('a \<Rightarrow> 's \<Rightarrow> bool) \<Rightarrow> (app_error \<Rightarrow> 's \<Rightarrow> bool) \<Rightarrow> bool" where
  "triple P m Q R \<longleftrightarrow>
     (\<forall>s. P s \<longrightarrow> (case m s of (Inl e, s') \<Rightarrow> R e s' | (Inr x, s') \<Rightarrow> Q x s'))"

lemma tripleI:
  assumes "\<And>s e s'. P s \<Longrightarrow> m s = (Inl e, s') \<Longrightarrow> R e s'"
    and "\<And>s x s'. P s \<Longrightarrow> m s = (Inr x, s') \<Longrightarrow> Q x s'"
  shows "triple P m Q R"
  unfolding triple_def using assms by (auto split: prod.split sum.split)

lemma tripleD_ok: "triple P m Q R \<Longrightarrow> P s \<Longrightarrow> m s = (Inr x, s') \<Longrightarrow> Q x s'"
  by (fastforce simp: triple_def)

lemma tripleD_err: "triple P m Q R \<Longrightarrow> P s \<Longrightarrow> m s = (Inl e, s') \<Longrightarrow> R e s'"
  by (fastforce simp: triple_def)

lemma triple_ret [wp]: "triple (Q x) (ret x) Q R"
  by (simp add: triple_def ret_def)

lemma triple_throw [wp]: "triple (R e) (throw e) Q R"
  by (simp add: triple_def throw_def)

lemma triple_lift [wp]:
  "triple (\<lambda>s. case r of Inl e \<Rightarrow> R e s | Inr x \<Rightarrow> Q x s) (lift r) Q R"
  by (simp add: triple_def lift_def split: sum.split)

lemma triple_gets [wp]: "triple (\<lambda>s. Q (f s) s) (gets f) Q R"
  by (simp add: triple_def gets_def)

lemma triple_modify [wp]: "triple (\<lambda>s. Q () (f s)) (modify f) Q R"
  by (simp add: triple_def modify_def)

lemma triple_if_err [wp]:
  assumes "\<And>x. triple (Q' x) (f x) Q R" and "\<And>e. triple (R' e) (h e) Q R"
    and "triple P m Q' R'"
  shows "triple P (if_err m h f) Q R"
  unfolding triple_def if_err_def
proof (intro allI impI)
  fix s assume "P s"
  with assms(3) have "case m s of (Inl e, s') \<Rightarrow> R' e s' | (Inr x, s') \<Rightarrow> Q' x s'"
    by (simp add: triple_def)
  then show "case (case m s of (Inl e, s') \<Rightarrow> h e s' | (Inr x, s') \<Rightarrow> f x s') of
      (Inl e, s') \<Rightarrow> R e s' | (Inr x, s') \<Rightarrow> Q x s'"
    using assms(1,2) by (cases "m s"; cases "fst (m s)") (auto simp: triple_def)
qed

lemma triple_pre: "triple P m Q R \<Longrightarrow> (\<And>s. P' s \<Longrightarrow> P s) \<Longrightarrow> triple P' m Q R"
  by (simp add: triple_def)

lemma triple_pure: "(A \<Longrightarrow> triple P m Q R) \<Longrightarrow> triple (\<lambda>s. A \<and> P s) m Q R"
  by (simp add: triple_def)

lemma triple_ex:
  assumes "\<And>i. triple (P i) m Q R"
  shows "triple (\<lambda>s. \<exists>i. P i s) m Q R"
  unfolding triple_def
proof (intro allI impI, elim exE)
  fix s i assume "P i s"
  then show "case m s of (Inl e, s') \<Rightarrow> R e s' | (Inr x, s') \<Rightarrow> Q x s'"
    using assms [of i] by (simp add: triple_def)
qed

lemma triple_if: "triple P1 m Q R \<Longrightarrow> triple P2 m' Q R \<Longrightarrow>
  triple (\<lambda>s. if b then P1 s else P2 s) (if b then m else m') Q R"
  by (simp add: triple_def)

end
