(* ===== verification/Paths.thy ===== *)
theory Paths
  imports Prelude
begin

text \<open>
  Virtual paths: the functions of Go's \<^verbatim>\<open>path\<close> package the backend uses, the path
  normaliser and file-name check of \<^verbatim>\<open>local_storage_helpers.go\<close> and the path algebra of
  \<^verbatim>\<open>vfs_path.go\<close>. The string functions are refined to operations on lists of segments:
  \<open>render\<close> and \<open>segs_of\<close> relate the two views, and every lemma the components use is
  stated on segments.
\<close>

named_theorems paths \<open>facts relating path strings and segment lists\<close>

section \<open>Go's path package\<close>

text \<open>
  \<^verbatim>\<open>path.Clean\<close>: empty and \<^verbatim>\<open>.\<close> elements disappear, \<^verbatim>\<open>..\<close> removes the element before it
  and, at the start of a rooted path, disappears; the empty result is \<^verbatim>\<open>.\<close>. The stack
  holds the elements kept so far, last one first.
\<close>

fun clean_step :: "bool \<Rightarrow> string \<Rightarrow> string list \<Rightarrow> string list" where
  "clean_step rooted w st =
     (if w = [] \<or> w = ''.'' then st
      else if w = ''..'' then
        (case st of
           [] \<Rightarrow> if rooted then [] else [w]
         | v # st' \<Rightarrow> if v = ''..'' then w # st else st')
      else w # st)"

definition path_Clean :: "string \<Rightarrow> string" where
  "path_Clean s =
     (if s = [] then ''.''
      else
        let rooted = HasPrefix s ''/'';
            ws = rev (fold (clean_step rooted) (Split s CHR ''/'') [])
        in if rooted then CHR ''/'' # Join ws ''/''
           else if ws = [] then ''.'' else Join ws ''/'')"

text \<open>\<^verbatim>\<open>path.Split\<close> cuts after the last slash.\<close>

definition path_Split :: "string \<Rightarrow> string \<times> string" where
  "path_Split s =
     (rev (dropWhile (\<lambda>c. c \<noteq> CHR ''/'') (rev s)), rev (takeWhile (\<lambda>c. c \<noteq> CHR ''/'') (rev s)))"

definition path_Dir :: "string \<Rightarrow> string" where
  "path_Dir s = path_Clean (fst (path_Split s))"

definition path_Base :: "string \<Rightarrow> string" where
  "path_Base s =
     (if s = [] then ''.''
      else
        let t = snd (path_Split (TrimRight s CHR ''/''))
        in if t = [] then ''/'' else t)"

definition path_Join :: "string list \<Rightarrow> string" where
  "path_Join es =
     (let ne = filter (\<lambda>e. e \<noteq> []) es
      in if ne = [] then [] else path_Clean (Join ne ''/''))"

section \<open>The code's path functions\<close>

definition normalizeVirtualPath :: "string \<Rightarrow> string result" where
  "normalizeVirtualPath inp =
     (let input = (if inp = [] then ''/'' else inp)
      in if \<not> HasPrefix input ''/'' then Inl ErrPathInvalid
         else
           let cleaned0 = path_Clean input;
               cleaned = (if \<not> HasPrefix cleaned0 ''/'' then CHR ''/'' # cleaned0 else cleaned0)
           in if Contains cleaned ''..'' then Inl ErrPathInvalid else Inr cleaned)"

definition validateFileName :: "string \<Rightarrow> unit result" where
  "validateFileName name =
     (if name = [] \<or> Contains name ''/'' \<or> Contains name [CHR 0x5C] \<or> name = ''.'' \<or> name = ''..''
      then Inl ErrFileNameInvalid else Inr ())"

definition normalizeMountPath :: "string \<Rightarrow> string result" where
  "normalizeMountPath inp = normalizeVirtualPath inp"

definition splitParentName :: "string \<Rightarrow> (string \<times> string) result" where
  "splitParentName inp =
     tryp (normalizeVirtualPath inp) (\<lambda>p.
       if p = ''/'' then Inr (''/'', []) else Inr (path_Dir p, path_Base p))"

definition joinVirtualPath :: "string \<Rightarrow> string \<Rightarrow> string" where
  "joinVirtualPath parentPath name =
     (if parentPath = ''/'' then ''/'' @ TrimPrefix name ''/''
      else parentPath @ ''/'' @ TrimPrefix name ''/'')"

definition mergeMountAndInnerPath :: "string \<Rightarrow> string \<Rightarrow> string" where
  "mergeMountAndInnerPath mountPath innerPath =
     if_errp (normalizeMountPath mountPath) (\<lambda>_. []) (\<lambda>m.
     if_errp (normalizeVirtualPath innerPath) (\<lambda>_. []) (\<lambda>i.
       if i = ''/'' then m else if m = ''/'' then i else m @ i))"

definition isSubPath :: "string \<Rightarrow> string \<Rightarrow> bool" where
  "isSubPath base target =
     if_errp (normalizeVirtualPath base) (\<lambda>_. False) (\<lambda>b.
     if_errp (normalizeVirtualPath target) (\<lambda>_. False) (\<lambda>t.
       if b = ''/'' then HasPrefix t ''/''
       else t = b \<or> HasPrefix t (b @ ''/'')))"

text \<open>\<^verbatim>\<open>vfs_service.go\<close>: the parent of a virtual path, with \<^verbatim>\<open>/\<close> for \<^verbatim>\<open>.\<close>.\<close>

definition parentVirtualPath :: "string \<Rightarrow> string" where
  "parentVirtualPath itemPath =
     (let parentPath = path_Dir itemPath in if parentPath = ''.'' then ''/'' else parentPath)"

section \<open>Segments\<close>

definition render :: "string list \<Rightarrow> string" where
  "render ws = (if ws = [] then ''/'' else concat (map (\<lambda>w. CHR ''/'' # w) ws))"

definition segs_of :: "string \<Rightarrow> string list" where
  "segs_of p = filter (\<lambda>w. w \<noteq> []) (Split p CHR ''/'')"

text \<open>A segment of a normalised path.\<close>

definition nseg :: "string \<Rightarrow> bool" where
  "nseg w \<longleftrightarrow> w \<noteq> [] \<and> CHR ''/'' \<notin> set w \<and> w \<noteq> ''.'' \<and> \<not> Contains w ''..''"

abbreviation nsegs :: "string list \<Rightarrow> bool" where
  "nsegs ws \<equiv> \<forall>w \<in> set ws. nseg w"

definition normal :: "string \<Rightarrow> bool" where
  "normal p \<longleftrightarrow> normalizeVirtualPath p = Inr p"

subsection \<open>Rendering\<close>

abbreviation body :: "string list \<Rightarrow> string" where
  "body ws \<equiv> concat (map (\<lambda>w. CHR ''/'' # w) ws)"

lemma Join_slash: "CHR ''/'' # Join ws ''/'' = render ws"
proof (induction ws rule: induct_list012)
  case (3 v w ws)
  then show ?case by (simp add: render_def split: if_splits)
qed (simp_all add: render_def)

lemma Split_body: "\<forall>w \<in> set ws. CHR ''/'' \<notin> set w \<Longrightarrow> Split (body ws) CHR ''/'' = [] # ws"
proof (induction ws)
  case (Cons w ws)
  then have IH: "Split (body ws) CHR ''/'' = [] # ws" by simp
  have w: "CHR ''/'' \<notin> set w" using Cons.prems by simp
  have "Split (w @ body ws) CHR ''/'' = w # ws"
  proof (cases ws)
    case Nil
    with w show ?thesis by (simp add: Split_plain)
  next
    case (Cons v vs)
    with w IH show ?thesis by (simp add: Split_append)
  qed
  then show ?case by simp
qed simp

lemma segs_of_render [paths]: "nsegs ws \<Longrightarrow> segs_of (render ws) = ws"
proof (cases "ws = []")
  case False
  moreover assume "nsegs ws"
  ultimately have "Split (render ws) CHR ''/'' = [] # ws"
    using Split_body [of ws] by (auto simp: render_def nseg_def)
  with \<open>nsegs ws\<close> show ?thesis
    by (simp add: segs_of_def filter_id_conv nseg_def)
qed (simp add: render_def segs_of_def)

lemma render_inj: "nsegs xs \<Longrightarrow> nsegs ys \<Longrightarrow> render xs = render ys \<Longrightarrow> xs = ys"
  by (metis segs_of_render)

lemma render_HasPrefix [simp]: "HasPrefix (render ws) ''/''"
  by (cases ws) (simp_all add: render_def HasPrefix_def)

lemma render_eq_root [simp]: "nsegs ws \<Longrightarrow> render ws = ''/'' \<longleftrightarrow> ws = []"
  by (cases ws) (auto simp: render_def nseg_def)

lemma render_neq_Nil [simp]: "render ws \<noteq> []"
  by (cases ws) (simp_all add: render_def)

lemma Contains_dots_body:
  "\<forall>w \<in> set ws. CHR ''/'' \<notin> set w \<Longrightarrow> sublist ''..'' (body ws) \<longleftrightarrow> (\<exists>w \<in> set ws. sublist ''..'' w)"
proof (induction ws)
  case (Cons w ws)
  have "\<not> prefix ''.'' (body ws)"
    by (cases ws) simp_all
  then have "sublist ''..'' (w @ body ws) \<longleftrightarrow> sublist ''..'' w \<or> sublist ''..'' (body ws)"
    by (auto simp: sublist_append Cons_eq_append_conv)
  then show ?case using Cons by (simp add: sublist_Cons_right)
qed simp

lemma Contains_dots_render:
  "\<forall>w \<in> set ws. CHR ''/'' \<notin> set w \<Longrightarrow> Contains (render ws) ''..'' \<longleftrightarrow> (\<exists>w \<in> set ws. Contains w ''..'')"
  using Contains_dots_body [of ws]
  by (cases "ws = []") (auto simp: render_def Contains_def sublist_Cons_right)

subsection \<open>Cleaning\<close>

lemma clean_step_plain: "nseg w \<Longrightarrow> clean_step r w st = w # st"
  by (auto simp: nseg_def Contains_def)

lemma fold_clean_plain: "nsegs ws \<Longrightarrow> fold (clean_step r) ws st = rev ws @ st"
  by (induction ws arbitrary: st) (simp_all add: clean_step_plain del: clean_step.simps)

text \<open>What cleaning a rooted path can leave: no empty, dot or dot-dot element.\<close>

definition kept :: "string \<Rightarrow> bool" where
  "kept w \<longleftrightarrow> w \<noteq> [] \<and> CHR ''/'' \<notin> set w \<and> w \<noteq> ''.'' \<and> w \<noteq> ''..''"

lemma clean_step_kept:
  "CHR ''/'' \<notin> set w \<Longrightarrow> \<forall>v \<in> set st. kept v \<Longrightarrow> \<forall>v \<in> set (clean_step True w st). kept v"
  by (cases st) (simp_all add: kept_def)

lemma fold_clean_kept:
  "\<forall>w \<in> set ws. CHR ''/'' \<notin> set w \<Longrightarrow> \<forall>v \<in> set st. kept v \<Longrightarrow>
   \<forall>v \<in> set (fold (clean_step True) ws st). kept v"
proof (induction ws arbitrary: st)
  case (Cons w ws)
  have "\<forall>v \<in> set (clean_step True w st). kept v"
    using Cons.prems by (intro clean_step_kept) auto
  then show ?case using Cons by (simp del: clean_step.simps)
qed simp

lemma Clean_rooted:
  assumes "HasPrefix s ''/''"
  obtains ws where "path_Clean s = render ws" "\<forall>w \<in> set ws. kept w"
    "ws = rev (fold (clean_step True) (Split s CHR ''/'') [])"
proof
  let ?ws = "rev (fold (clean_step True) (Split s CHR ''/'') [])"
  have "s \<noteq> []" using assms by (auto simp: HasPrefix_def)
  then show "path_Clean s = render ?ws"
    using assms by (simp add: path_Clean_def Let_def Join_slash)
  show "\<forall>w \<in> set ?ws. kept w"
    using fold_clean_kept [of "Split s CHR ''/''" "[]"] by (simp add: Split_no_sep)
qed simp

lemma Split_render: "nsegs ws \<Longrightarrow> Split (render ws) CHR ''/'' = [] # (if ws = [] then [[]] else ws)"
  using Split_body [of ws] by (auto simp: render_def nseg_def)

lemma Clean_render [paths]:
  assumes "nsegs ws"
  shows "path_Clean (render ws) = render ws"
proof -
  have "fold (clean_step True) (Split (render ws) CHR ''/'') [] = rev ws"
    by (simp add: Split_render [OF assms] fold_clean_plain [OF assms])
  then show ?thesis
    using Clean_rooted [OF render_HasPrefix, of ws] by (metis rev_rev_ident)
qed

subsection \<open>Normalised paths are exactly the rendered segment lists\<close>

lemma normalize_render [paths]: "nsegs ws \<Longrightarrow> normalizeVirtualPath (render ws) = Inr (render ws)"
  by (simp add: normalizeVirtualPath_def Clean_render Contains_dots_render nseg_def Let_def)

lemma normalize_Inr:
  assumes "normalizeVirtualPath s = Inr p"
  obtains ws where "nsegs ws" "p = render ws"
proof -
  let ?s = "if s = [] then ''/'' else s"
  have s: "HasPrefix ?s ''/''"
    using assms by (auto simp: normalizeVirtualPath_def Let_def split: if_splits)
  obtain ws where ws: "path_Clean ?s = render ws" "\<forall>w \<in> set ws. kept w"
    using Clean_rooted [OF s] by blast
  have "p = render ws \<and> \<not> Contains (render ws) ''..''"
    using assms s ws(1) unfolding normalizeVirtualPath_def Let_def
    by (simp split: if_split_asm)
  moreover from this have "nsegs ws"
    using ws(2) Contains_dots_render [of ws] by (auto simp: kept_def nseg_def)
  ultimately show ?thesis using that by blast
qed

lemma normal_iff: "normal p \<longleftrightarrow> (\<exists>ws. nsegs ws \<and> p = render ws)"
  by (auto simp: normal_def normalize_render elim: normalize_Inr)

lemma normal_render [simp, intro]: "nsegs ws \<Longrightarrow> normal (render ws)"
  by (auto simp: normal_iff)

lemma normalize_normal: "normalizeVirtualPath s = Inr p \<Longrightarrow> normal p"
  by (auto elim: normalize_Inr)

lemma normal_segs: "normal p \<Longrightarrow> nsegs (segs_of p) \<and> render (segs_of p) = p"
  by (auto simp: normal_iff segs_of_render)

lemma normalE:
  assumes "normal p"
  obtains ws where "nsegs ws" "p = render ws" "segs_of p = ws"
  using assms that by (auto simp: normal_iff segs_of_render)

lemma segs_of_inj: "normal p \<Longrightarrow> normal q \<Longrightarrow> segs_of p = segs_of q \<longleftrightarrow> p = q"
  using normal_segs by metis

lemma normal_root [simp]: "normal ''/''"
  using normal_render [of "[]"] by (simp add: render_def)

lemma segs_of_root [simp]: "segs_of ''/'' = []"
  by (simp add: segs_of_def)

subsection \<open>The path algebra on segments\<close>

lemma render_snoc: "render (ws @ [w]) = (if ws = [] then CHR ''/'' # w else render ws @ CHR ''/'' # w)"
  by (auto simp: render_def)

lemma render_append: "render (xs @ ys) = (if ys = [] then render xs else if xs = [] then render ys else render xs @ render ys)"
  by (auto simp: render_def)

lemma TrimPrefix_slash_nseg: "CHR ''/'' \<notin> set w \<Longrightarrow> TrimPrefix w ''/'' = w"
  by (cases w) (auto simp: TrimPrefix_def)

lemma join_render [paths]:
  "nsegs ws \<Longrightarrow> CHR ''/'' \<notin> set w \<Longrightarrow> joinVirtualPath (render ws) w = render (ws @ [w])"
  by (simp add: joinVirtualPath_def TrimPrefix_slash_nseg render_snoc)

lemma merge_render [paths]:
  "nsegs ms \<Longrightarrow> nsegs is \<Longrightarrow> mergeMountAndInnerPath (render ms) (render is) = render (ms @ is)"
  by (simp add: mergeMountAndInnerPath_def normalizeMountPath_def normalize_render render_append)

lemma body_head: "body ws = [] \<or> (\<exists>t. body ws = CHR ''/'' # t)"
  by (cases ws) simp_all

lemma takeWhile_slash:
  "CHR ''/'' \<notin> set x \<Longrightarrow> t = [] \<or> (\<exists>t'. t = CHR ''/'' # t') \<Longrightarrow>
   takeWhile (\<lambda>c. c \<noteq> CHR ''/'') (x @ t) = x"
  by (induction x) auto

lemma slash_free_prefix:
  assumes x: "CHR ''/'' \<notin> set x" and y: "CHR ''/'' \<notin> set y"
    and t: "t = [] \<or> (\<exists>t'. t = CHR ''/'' # t')"
    and pre: "prefix (x @ CHR ''/'' # s) (y @ t)"
  shows "x = y \<and> prefix (CHR ''/'' # s) t"
proof -
  from pre obtain u where u: "y @ t = x @ CHR ''/'' # s @ u"
    by (auto simp: prefix_def)
  then have "takeWhile (\<lambda>c. c \<noteq> CHR ''/'') (y @ t) = takeWhile (\<lambda>c. c \<noteq> CHR ''/'') (x @ CHR ''/'' # s @ u)"
    by simp
  then have "y = x"
    using takeWhile_slash [OF y t] takeWhile_slash [OF x, of "CHR ''/'' # s @ u"] by simp
  with u show ?thesis by (simp add: prefix_def)
qed

lemma body_prefix:
  "nsegs xs \<Longrightarrow> nsegs ys \<Longrightarrow> prefix (body xs @ ''/'') (body ys) \<longleftrightarrow> strict_prefix xs ys"
proof (induction xs arbitrary: ys)
  case Nil
  show ?case using body_head [of ys] by (cases ys) auto
next
  case (Cons x xs)
  show ?case
  proof (cases ys)
    case (Cons y zs)
    have sf: "CHR ''/'' \<notin> set x" "CHR ''/'' \<notin> set y"
      using Cons Cons.prems by (auto simp: nseg_def)
    obtain s where s: "body xs @ ''/'' = CHR ''/'' # s"
      by (cases xs) auto
    have "prefix (x @ body xs @ ''/'') (y @ body zs) \<longleftrightarrow> x = y \<and> prefix (body xs @ ''/'') (body zs)"
      using slash_free_prefix [OF sf body_head, of s zs] by (auto simp: s)
    then show ?thesis
      using Cons Cons.IH [of zs] Cons.prems by (auto simp: strict_prefix_def)
  qed simp
qed

lemma isSubPath_render [paths]:
  assumes "nsegs xs" "nsegs ys"
  shows "isSubPath (render xs) (render ys) \<longleftrightarrow> prefix xs ys"
proof (cases "xs = []")
  case True
  then show ?thesis
    using assms normalize_render [of "[]"] by (simp add: isSubPath_def normalize_render)
next
  case False
  have "prefix (render xs @ ''/'') (render ys) \<longleftrightarrow> strict_prefix xs ys"
  proof (cases "ys = []")
    case True
    with False show ?thesis by (cases xs) (auto simp: render_def prefix_def)
  next
    case ys: False
    with False show ?thesis using body_prefix [OF assms] by (simp add: render_def)
  qed
  then show ?thesis
    using assms False render_inj [OF assms(2) assms(1)]
    by (auto simp: isSubPath_def normalize_render HasPrefix_def strict_prefix_def)
qed

lemma isSubPath_normal [paths]:
  "normal a \<Longrightarrow> normal b \<Longrightarrow> isSubPath a b \<longleftrightarrow> prefix (segs_of a) (segs_of b)"
  by (metis isSubPath_render normal_segs)

lemma isSubPath_normalized: "isSubPath a b \<Longrightarrow>
   \<exists>p q. normalizeVirtualPath a = Inr p \<and> normalizeVirtualPath b = Inr q \<and> isSubPath p q"
proof -
  assume a: "isSubPath a b"
  then obtain p q where pq: "normalizeVirtualPath a = Inr p" "normalizeVirtualPath b = Inr q"
    by (cases "normalizeVirtualPath a"; cases "normalizeVirtualPath b") (auto simp: isSubPath_def)
  then have "normalizeVirtualPath p = Inr p" "normalizeVirtualPath q = Inr q"
    using normalize_normal normal_def by blast+
  then have "isSubPath p q = isSubPath a b"
    using pq by (simp add: isSubPath_def)
  with a pq show ?thesis by blast
qed

subsection \<open>Parents and names\<close>

lemma path_Split_snoc: "CHR ''/'' \<notin> set w \<Longrightarrow> path_Split (s @ CHR ''/'' # w) = (s @ ''/'', w)"
proof -
  assume w: "CHR ''/'' \<notin> set w"
  then have "\<forall>c \<in> set (rev w). c \<noteq> CHR ''/''" by auto
  then have "dropWhile (\<lambda>c. c \<noteq> CHR ''/'') (rev w @ CHR ''/'' # rev s) = CHR ''/'' # rev s"
    and "takeWhile (\<lambda>c. c \<noteq> CHR ''/'') (rev w @ CHR ''/'' # rev s) = rev w"
    by (simp_all add: dropWhile_append3 takeWhile_slash w)
  then show ?thesis by (simp add: path_Split_def)
qed

lemma render_snoc': "render (ws @ [w]) = (if ws = [] then [] else render ws) @ CHR ''/'' # w"
  by (simp add: render_snoc)

lemma Clean_render_slash:
  assumes "nsegs ws"
  shows "path_Clean ((if ws = [] then [] else render ws) @ ''/'') = render ws"
proof (cases "ws = []")
  case False
  let ?s = "render ws @ ''/''"
  have pre: "HasPrefix ?s ''/''" by (cases ws) (auto simp: HasPrefix_def render_def)
  have "Split ?s CHR ''/'' = [] # ws @ [[]]"
    using False Split_append_sep [of "render ws" "CHR ''/''" "[]"] by (simp add: Split_render [OF assms])
  then have "fold (clean_step True) (Split ?s CHR ''/'') [] = rev ws"
    by (simp add: fold_clean_plain [OF assms])
  then show ?thesis
    using Clean_rooted [OF pre] False by (metis rev_rev_ident)
qed (simp add: Clean_render [of "[]", unfolded render_def, simplified] render_def)

lemma Dir_render [paths]:
  assumes "nsegs (ws @ [w])"
  shows "path_Dir (render (ws @ [w])) = render ws"
proof -
  have w: "CHR ''/'' \<notin> set w" and ws: "nsegs ws" using assms by (auto simp: nseg_def)
  show ?thesis
    using Clean_render_slash [OF ws]
    by (simp add: path_Dir_def render_snoc' path_Split_snoc [OF w] del: append_Cons split: if_splits)
qed

lemma TrimRight_id: "s \<noteq> [] \<Longrightarrow> last s \<noteq> c \<Longrightarrow> TrimRight s c = s"
proof -
  assume "s \<noteq> []" "last s \<noteq> c"
  then show ?thesis by (cases s rule: rev_cases) (simp_all add: TrimRight_def)
qed

lemma Base_render [paths]:
  assumes "nsegs (ws @ [w])"
  shows "path_Base (render (ws @ [w])) = w"
proof -
  have w: "CHR ''/'' \<notin> set w" "w \<noteq> []" using assms by (auto simp: nseg_def)
  then have "last (render (ws @ [w])) \<noteq> CHR ''/''"
    by (metis last_ConsR last_appendR last_in_set list.distinct(1) render_snoc')
  then show ?thesis
    using w by (simp add: path_Base_def TrimRight_id render_snoc' path_Split_snoc)
qed

lemma Dir_root [simp]: "path_Dir ''/'' = ''/''"
  by (simp add: path_Dir_def path_Split_def path_Clean_def HasPrefix_def)

lemma splitParentName_render [paths]:
  "nsegs (ws @ [w]) \<Longrightarrow> splitParentName (render (ws @ [w])) = Inr (render ws, w)"
  by (subst splitParentName_def) (simp add: normalize_render Dir_render Base_render)

lemma parentVirtualPath_render [paths]:
  "nsegs (ws @ [w]) \<Longrightarrow> parentVirtualPath (render (ws @ [w])) = render ws"
proof -
  assume "nsegs (ws @ [w])"
  moreover have "render ws \<noteq> ''.''" by (cases ws) (simp_all add: render_def)
  ultimately show ?thesis by (simp add: parentVirtualPath_def Dir_render Let_def)
qed

text \<open>A file name the check accepts, without two dots in a row, is a segment.\<close>

lemma validateFileName_nseg:
  "validateFileName name = Inr () \<Longrightarrow> \<not> Contains name ''..'' \<Longrightarrow> nseg name"
proof -
  assume a: "validateFileName name = Inr ()" "\<not> Contains name ''..''"
  have "sublist ''/'' name" if "CHR ''/'' \<in> set name"
    using that by (auto dest!: split_list simp: sublist_append)
  with a show ?thesis by (auto simp: validateFileName_def nseg_def Contains_def split: if_splits)
qed

section \<open>Properties\<close>

text \<open>C40: The normaliser's result is canonical: it is the rendering of its own segments, none of
  which is empty, a dot, contains a slash or two dots in a row, and normalising it again
  changes nothing.\<close>

theorem normalize_canonical:
  assumes "normalizeVirtualPath s = Inr p"
  shows "p = render (segs_of p) \<and> nsegs (segs_of p) \<and> normalizeVirtualPath p = Inr p"
  using normalize_normal [OF assms] normal_segs by (simp add: normal_def)

theorem normalize_canonical_witness:
  "''/a/c'' = render (segs_of ''/a/c'') \<and> normalizeVirtualPath ''/a/c'' = Inr ''/a/c''"
proof -
  have "normalizeVirtualPath ''/a//./b/../c/'' = Inr ''/a/c''" by code_simp
  from normalize_canonical [OF this] show ?thesis by simp
qed

text \<open>C39: The sub-path test is containment of segment lists: it holds exactly when both
  arguments normalise and the segments of the base are a prefix of those of the target, so
  that no sibling whose name merely starts with the same characters is taken for a child.\<close>

theorem isSubPath_iff_prefix:
  "isSubPath a b \<longleftrightarrow>
     (\<exists>p q. normalizeVirtualPath a = Inr p \<and> normalizeVirtualPath b = Inr q \<and>
            prefix (segs_of p) (segs_of q))"
proof -
  have "isSubPath a b \<longleftrightarrow> prefix (segs_of p) (segs_of q)"
    if "normalizeVirtualPath a = Inr p" "normalizeVirtualPath b = Inr q" for p q
  proof -
    have n: "normal p" "normal q" using that normalize_normal by blast+
    then have "isSubPath a b = isSubPath p q" using that by (simp add: isSubPath_def normal_def)
    with n show ?thesis by (simp add: isSubPath_normal)
  qed
  then show ?thesis using isSubPath_normalized by blast
qed

text \<open>Joining a parent and a name and splitting the result gives them back, for every
  normalised parent and every accepted file name without two dots in a row; the joined path
  lies below the parent.\<close>

lemma split_join_roundtrip:
  assumes "normalizeVirtualPath p = Inr p" and "validateFileName name = Inr ()"
    and "\<not> Contains name ''..''"
  shows "splitParentName (joinVirtualPath p name) = Inr (p, name) \<and>
         isSubPath p (joinVirtualPath p name)"
proof -
  obtain ws where ws: "nsegs ws" "p = render ws"
    using assms(1) by (rule normalize_Inr)
  have w: "nseg name" using assms(2,3) by (rule validateFileName_nseg)
  then have "CHR ''/'' \<notin> set name" by (simp add: nseg_def)
  with ws w show ?thesis
    using isSubPath_render [of ws "ws @ [name]"]
    by (simp add: join_render splitParentName_render)
qed

lemma split_join_roundtrip_witness:
  "splitParentName (joinVirtualPath ''/a/b'' ''c d.txt'') = Inr (''/a/b'', ''c d.txt'') \<and>
   isSubPath ''/a/b'' (joinVirtualPath ''/a/b'' ''c d.txt'')"
proof -
  have "normalizeVirtualPath ''/a/b'' = Inr ''/a/b''" "validateFileName ''c d.txt'' = Inr ()"
    "\<not> Contains ''c d.txt'' ''..''"
    by code_simp+
  from split_join_roundtrip [OF this] show ?thesis .
qed

end
