(* ===== verification/Entities.thy ===== *)
theory Entities
  imports Prelude
begin

text \<open>
  The entities of \<^verbatim>\<open>internal/domain/entity\<close> and the directory items of
  \<^verbatim>\<open>application/dto\<close> as records, one field per struct field (the
  field names carry a prefix, since several structs share names), and their string
  constants. \<^verbatim>\<open>uint\<close> identifiers are \<^typ>\<open>nat\<close>, a pointer that may be nil is an
  \<open>option\<close>, and a \<^verbatim>\<open>time.Time\<close> is its distance in nanoseconds from the zero time.
\<close>

type_synonym gotime = int

record StorageSource =
  src_ID :: nat
  src_Name :: string
  src_DriverType :: string
  src_Status :: string
  src_IsEnabled :: bool
  src_IsWebDAVExposed :: bool
  src_WebDAVReadOnly :: bool
  src_WebDAVSlug :: string
  src_MountPath :: string
  src_RootPath :: string
  src_SortOrder :: int
  src_ConfigJSON :: string
  src_LastCheckedAt :: "gotime option"
  src_CreatedAt :: gotime
  src_UpdatedAt :: gotime

record VFSNode =
  node_ID :: nat
  node_ParentID :: "nat option"
  node_Name :: string
  node_Path :: string
  node_Kind :: string
  node_MountID :: "nat option"
  node_ObjectID :: "nat option"
  node_SourceID :: "nat option"
  node_ProviderItemID :: "string option"
  node_ProviderParentID :: "string option"
  node_Size :: int
  node_MimeType :: string
  node_ETag :: string
  node_Checksum :: string
  node_SyncState :: string
  node_IsDeleted :: bool
  node_CreatedBy :: "nat option"
  node_UpdatedBy :: "nat option"
  node_CreatedAt :: gotime
  node_UpdatedAt :: gotime
  node_IndexedAt :: "gotime option"
  node_LastSeenAt :: "gotime option"

record StorageObject =
  obj_ID :: nat
  obj_SourceID :: nat
  obj_DriverType :: string
  obj_LocatorType :: string
  obj_LocatorJSON :: string
  obj_Size :: int
  obj_ETag :: string
  obj_Checksum :: string
  obj_MimeType :: string
  obj_Status :: string
  obj_CreatedAt :: gotime
  obj_UpdatedAt :: gotime

record VFSMount =
  mnt_ID :: nat
  mnt_SourceID :: nat
  mnt_NodeID :: nat
  mnt_MountPath :: string
  mnt_RootLocatorJSON :: string
  mnt_Mode :: string
  mnt_IsEnabled :: bool
  mnt_SortOrder :: int
  mnt_CreatedAt :: gotime
  mnt_UpdatedAt :: gotime

record VFSTag =
  tag_ID :: nat
  tag_OwnerUserID :: nat
  tag_Name :: string
  tag_Color :: string
  tag_CreatedAt :: gotime
  tag_UpdatedAt :: gotime

record VFSNodeTag =
  nt_NodeID :: nat
  nt_TagID :: nat
  nt_CreatedBy :: "nat option"
  nt_CreatedAt :: gotime

record TrashItem =
  trash_ID :: nat
  trash_SourceID :: nat
  trash_OriginalPath :: string
  trash_OriginalVirtualPath :: string
  trash_TrashPath :: string
  trash_Name :: string
  trash_IsDir :: bool
  trash_Size :: int
  trash_DeletedAt :: gotime
  trash_ExpiresAt :: gotime
  trash_CreatedAt :: gotime
  trash_UpdatedAt :: gotime

text \<open>
  The progress of a task is a floating-point percentage; only whether it is complete matters
  to the code, so it is kept as the number of its hundredths.
\<close>

record DownloadTask =
  task_ID :: nat
  task_UserID :: nat
  task_Type :: string
  task_DownloaderType :: string
  task_Status :: string
  task_SourceID :: nat
  task_SavePath :: string
  task_TargetVFSParentNodeID :: nat
  task_TargetVirtualParentPath :: string
  task_TargetFilename :: string
  task_SaveVirtualPath :: string
  task_ResolvedSourceID :: nat
  task_ResolvedInnerSavePath :: string
  task_ResultVFSNodeID :: nat
  task_StagingDir :: string
  task_DisplayName :: string
  task_SourceURL :: string
  task_ExternalID :: string
  task_Progress :: int
  task_DownloadedBytes :: int
  task_TotalBytes :: "int option"
  task_SpeedBytes :: int
  task_ETASeconds :: "int option"
  task_ErrorMessage :: "string option"
  task_FinishedAt :: "gotime option"
  task_CreatedAt :: gotime
  task_UpdatedAt :: gotime

record ACLRule =
  rule_ID :: nat
  rule_SourceID :: nat
  rule_VFSNodeID :: "nat option"
  rule_Path :: string
  rule_VirtualPath :: string
  rule_SubjectType :: string
  rule_SubjectID :: nat
  rule_Effect :: string
  rule_Priority :: int
  rule_Read :: bool
  rule_Write :: bool
  rule_Delete :: bool
  rule_Share :: bool
  rule_InheritToChildren :: bool
  rule_CreatedAt :: gotime
  rule_UpdatedAt :: gotime

record User =
  user_ID :: nat
  user_Username :: string
  user_Email :: string
  user_PasswordHash :: string
  user_RoleKey :: string
  user_Status :: string
  user_TokenVersion :: int
  user_CreatedAt :: gotime
  user_UpdatedAt :: gotime

record RefreshToken =
  tok_ID :: nat
  tok_UserID :: nat
  tok_TokenHash :: string
  tok_ExpiresAt :: gotime
  tok_RevokedAt :: "gotime option"
  tok_CreatedAt :: gotime
  tok_UpdatedAt :: gotime

record ShareLink =
  share_ID :: nat
  share_UserID :: nat
  share_SourceID :: nat
  share_Path :: string
  share_TargetVFSNodeID :: nat
  share_TargetVirtualPath :: string
  share_ResolvedSourceID :: nat
  share_ResolvedInnerPath :: string
  share_Name :: string
  share_IsDir :: bool
  share_Token :: string
  share_PasswordHash :: "string option"
  share_ExpiresAt :: "gotime option"
  share_CreatedAt :: gotime
  share_UpdatedAt :: gotime

record UploadSession =
  up_UploadID :: string
  up_UserID :: nat
  up_SourceID :: nat
  up_Path :: string
  up_TargetVFSParentNodeID :: nat
  up_TargetVirtualParentPath :: string
  up_ResolvedSourceID :: nat
  up_ResolvedInnerParentPath :: string
  up_ResultVFSNodeID :: nat
  up_Filename :: string
  up_FileSize :: int
  up_FileHash :: string
  up_ChunkSize :: int
  up_TotalChunks :: int
  up_UploadedChunks :: "int list"
  up_StorageDataJSON :: string
  up_Status :: string
  up_IsFastUpload :: bool
  up_ExpiresAt :: gotime
  up_CreatedAt :: gotime
  up_UpdatedAt :: gotime

record VFSOperation =
  op_ID :: nat
  op_OperationType :: string
  op_Status :: string
  op_SourceNodeID :: "nat option"
  op_TargetParentNodeID :: "nat option"
  op_ResultNodeID :: "nat option"
  op_SourcePathSnapshot :: string
  op_TargetPathSnapshot :: string
  op_SourceIDSnapshot :: "nat option"
  op_DriverTypeSnapshot :: string
  op_PayloadJSON :: string
  op_ErrorCode :: string
  op_ErrorMessage :: string
  op_RetryCount :: int
  op_NextRetryAt :: "gotime option"
  op_LockedBy :: string
  op_LockedUntil :: "gotime option"
  op_CreatedBy :: "nat option"
  op_CreatedAt :: gotime
  op_UpdatedAt :: gotime

record SystemConfig =
  cfg_ID :: nat
  cfg_SiteName :: string
  cfg_MultiUserEnabled :: bool
  cfg_DefaultSourceID :: "nat option"
  cfg_MaxUploadSize :: int
  cfg_DefaultChunkSize :: int
  cfg_WebDAVEnabled :: bool
  cfg_WebDAVPrefix :: string
  cfg_Theme :: string
  cfg_Language :: string
  cfg_TimeZone :: string
  cfg_CreatedAt :: gotime
  cfg_UpdatedAt :: gotime

record RequestAuth =
  auth_UserID :: nat
  auth_Username :: string
  auth_RoleKey :: string
  auth_Status :: string
  auth_Capabilities :: "string list"

record AuditLog =
  al_ID :: nat
  al_OccurredAt :: gotime
  al_RequestID :: string
  al_EntryPoint :: string
  al_ActorUserID :: "nat option"
  al_ActorUsername :: string
  al_ActorRoleKey :: string
  al_ClientIP :: string
  al_UserAgent :: string
  al_Method :: string
  al_Path :: string
  al_ResourceType :: string
  al_Action :: string
  al_Result :: string
  al_ErrorCode :: string
  al_ResourceID :: string
  al_SourceID :: "nat option"
  al_VirtualPath :: string
  al_ResolvedSourceID :: "nat option"
  al_ResolvedPath :: string
  al_BeforeJSON :: string
  al_AfterJSON :: string
  al_DetailJSON :: string
  al_CreatedAt :: gotime

section \<open>Items of directory listings (\<^verbatim>\<open>application/dto\<close>)\<close>

record FileItem =
  fi_Name :: string
  fi_Path :: string
  fi_ParentPath :: string
  fi_SourceID :: nat
  fi_IsDir :: bool
  fi_Size :: int
  fi_MimeType :: string
  fi_Extension :: string
  fi_Etag :: string
  fi_ModifiedAt :: string
  fi_CreatedAt :: string
  fi_CanPreview :: bool
  fi_CanDownload :: bool
  fi_CanDelete :: bool
  fi_ThumbnailURL :: "string option"

record VFSItem =
  vi_ID :: nat
  vi_Name :: string
  vi_Path :: string
  vi_ParentPath :: string
  vi_SourceID :: "nat option"
  vi_EntryKind :: string
  vi_IsVirtual :: bool
  vi_IsMountPoint :: bool
  vi_SyncState :: string
  vi_Size :: int
  vi_MimeType :: string
  vi_Extension :: string
  vi_ModifiedAt :: string
  vi_CreatedAt :: string
  vi_Etag :: string
  vi_CanPreview :: bool
  vi_CanDownload :: bool
  vi_CanDelete :: bool

section \<open>String constants\<close>

abbreviation "VFSNodeKindRoot \<equiv> ''root''"
abbreviation "VFSNodeKindVirtualDir \<equiv> ''virtual_dir''"
abbreviation "VFSNodeKindMount \<equiv> ''mount''"
abbreviation "VFSNodeKindDir \<equiv> ''dir''"
abbreviation "VFSNodeKindFile \<equiv> ''file''"
abbreviation "VFSNodeSyncStateIndexed \<equiv> ''indexed''"
abbreviation "VFSNodeSyncStatePending \<equiv> ''pending''"
abbreviation "VFSNodeSyncStateSyncing \<equiv> ''syncing''"
abbreviation "VFSNodeSyncStateStale \<equiv> ''stale''"
abbreviation "VFSNodeSyncStateMissing \<equiv> ''missing''"
abbreviation "VFSNodeSyncStateConflict \<equiv> ''conflict''"
abbreviation "VFSNodeSyncStateError \<equiv> ''error''"
abbreviation "VFSOperationTypeMkdir \<equiv> ''mkdir''"
abbreviation "VFSOperationTypeRename \<equiv> ''rename''"
abbreviation "VFSOperationTypeMove \<equiv> ''move''"
abbreviation "VFSOperationTypeCopy \<equiv> ''copy''"
abbreviation "VFSOperationTypeDelete \<equiv> ''delete''"
abbreviation "VFSOperationTypeImport \<equiv> ''import''"
abbreviation "VFSOperationTypeUploadCommit \<equiv> ''upload_commit''"
abbreviation "VFSOperationTypeTaskCommit \<equiv> ''task_commit''"
abbreviation "VFSOperationTypeRefresh \<equiv> ''refresh''"
abbreviation "VFSOperationStatusPending \<equiv> ''pending''"
abbreviation "VFSOperationStatusRunning \<equiv> ''running''"
abbreviation "VFSOperationStatusSucceeded \<equiv> ''succeeded''"
abbreviation "VFSOperationStatusFailed \<equiv> ''failed''"
abbreviation "VFSOperationStatusCompensating \<equiv> ''compensating''"
abbreviation "VFSOperationStatusCanceled \<equiv> ''canceled''"

definition cloneUintPtr :: "nat option \<Rightarrow> nat option" where
  "cloneUintPtr value = (case value of None \<Rightarrow> None | Some v \<Rightarrow> Some v)"

definition sameUintPtr :: "nat option \<Rightarrow> nat option \<Rightarrow> bool" where
  "sameUintPtr left right =
     (case (left, right) of (Some l, Some r) \<Rightarrow> l = r | _ \<Rightarrow> left = None \<and> right = None)"

lemma cloneUintPtr_id [simp]: "cloneUintPtr p = p"
  by (simp add: cloneUintPtr_def split: option.split)

lemma sameUintPtr_eq [simp]: "sameUintPtr a b \<longleftrightarrow> a = b"
  by (auto simp: sameUintPtr_def split: option.split)

end
