(* ===== verification/Mounts.thy ===== *)
theory Mounts
  imports Paths Entities "HOL-Library.AList"
begin

text \<open>
  Mounts of the virtual tree: the types of \<^verbatim>\<open>vfs_types.go\<close>, the longest-prefix resolution
  of \<^verbatim>\<open>vfs_path.go\<close>, the mount registry (\<^verbatim>\<open>vfs_registry.go\<close>) and the name checks of
  \<^verbatim>\<open>vfs_conflict.go\<close>. Resolution is shown to choose the deepest mount that contains a
  path and to be undone by \<open>mergeMountAndInnerPath\<close>; the projection of mounts into a
  directory is shown to list exactly the next segments of the mounts below it.
\<close>

record MountEntry =
  me_MountPath :: string
  me_Source :: "StorageSource option"

record ResolvedPath =
  rp_VirtualPath :: string
  rp_MatchedMountPath :: string
  rp_InnerPath :: string
  rp_Source :: "StorageSource option"
  rp_IsRealMount :: bool
  rp_IsPureVirtual :: bool

record ProjectedVirtualDir =
  pvd_Name :: string
  pvd_Path :: string
  pvd_IsMountPoint :: bool

section \<open>Longest-prefix resolution\<close>

text \<open>The first loop of the resolver: index and path of the best mount so far.\<close>

fun best_loop ::
  "string \<Rightarrow> MountEntry list \<Rightarrow> nat \<Rightarrow> nat option \<Rightarrow> string \<Rightarrow> (nat option \<times> string) result" where
  "best_loop p [] i bestIndex bestMountPath = Inr (bestIndex, bestMountPath)"
| "best_loop p (m # ms) i bestIndex bestMountPath =
     tryp (normalizeMountPath (me_MountPath m)) (\<lambda>nm.
       if \<not> isSubPath nm p then best_loop p ms (Suc i) bestIndex bestMountPath
       else if length nm > length bestMountPath then best_loop p ms (Suc i) (Some i) nm
       else best_loop p ms (Suc i) bestIndex bestMountPath)"

text \<open>The second loop: is some mount strictly below the path?\<close>

fun virtual_loop :: "string \<Rightarrow> MountEntry list \<Rightarrow> bool result" where
  "virtual_loop p [] = Inr False"
| "virtual_loop p (m # ms) =
     tryp (normalizeMountPath (me_MountPath m)) (\<lambda>nm.
       if nm \<noteq> p \<and> isSubPath p nm then Inr True else virtual_loop p ms)"

definition resolveVirtualPathByLongestPrefix :: "string \<Rightarrow> MountEntry list \<Rightarrow> ResolvedPath result" where
  "resolveVirtualPathByLongestPrefix virtualPath mounts =
     tryp (normalizeVirtualPath virtualPath) (\<lambda>p.
       let resolved = \<lparr>rp_VirtualPath = p, rp_MatchedMountPath = [], rp_InnerPath = [],
                       rp_Source = None, rp_IsRealMount = False, rp_IsPureVirtual = False\<rparr>
       in tryp (best_loop p mounts 0 None []) (\<lambda>(bestIndex, bestMountPath).
            case bestIndex of
              Some k \<Rightarrow>
                let inner0 = TrimPrefix p bestMountPath;
                    inner = (if inner0 = [] then ''/''
                             else if \<not> HasPrefix inner0 ''/'' then CHR ''/'' # inner0 else inner0)
                in Inr (resolved\<lparr>rp_MatchedMountPath := bestMountPath,
                                 rp_Source := me_Source (mounts ! k),
                                 rp_IsRealMount := True, rp_InnerPath := inner\<rparr>)
            | None \<Rightarrow>
                tryp (virtual_loop p mounts) (\<lambda>v. Inr (resolved\<lparr>rp_IsPureVirtual := v\<rparr>))))"

section \<open>Mount registry\<close>

fun buildMountEntries :: "StorageSource list \<Rightarrow> MountEntry list result" where
  "buildMountEntries [] = Inr []"
| "buildMountEntries (source # sources) =
     (let mountPath0 = src_MountPath source;
          mountPath = (if mountPath0 = [] \<and> src_WebDAVSlug source \<noteq> []
                       then CHR ''/'' # src_WebDAVSlug source else mountPath0)
      in if mountPath = [] then buildMountEntries sources
         else tryp (normalizeMountPath mountPath) (\<lambda>nm.
              tryp (buildMountEntries sources) (\<lambda>items.
                Inr (\<lparr>me_MountPath = nm, me_Source = Some source\<rparr> # items))))"

text \<open>The source rows, as \<^verbatim>\<open>source_repo_impl.go\<close> lists them.\<close>

definition ListAll :: "StorageSource list \<Rightarrow> StorageSource list" where
  "ListAll rows = sort_key (\<lambda>s. (src_SortOrder s, src_ID s)) rows"

definition ListEnabled :: "StorageSource list \<Rightarrow> StorageSource list" where
  "ListEnabled rows = sort_key (\<lambda>s. (src_SortOrder s, src_ID s)) (filter src_IsEnabled rows)"

definition ListAllMounts :: "StorageSource list \<Rightarrow> MountEntry list result" where
  "ListAllMounts rows = buildMountEntries (ListAll rows)"

definition ListEnabledMounts :: "StorageSource list \<Rightarrow> MountEntry list result" where
  "ListEnabledMounts rows = buildMountEntries (ListEnabled rows)"

fun mount_path_taken :: "string \<Rightarrow> nat \<Rightarrow> MountEntry list \<Rightarrow> bool" where
  "mount_path_taken p excludeID [] = False"
| "mount_path_taken p excludeID (m # ms) =
     (if (case me_Source m of Some s \<Rightarrow> src_ID s = excludeID | None \<Rightarrow> False)
      then mount_path_taken p excludeID ms
      else if me_MountPath m = p then True
      else mount_path_taken p excludeID ms)"

definition HasMountPathConflict :: "StorageSource list \<Rightarrow> string \<Rightarrow> nat \<Rightarrow> bool result" where
  "HasMountPathConflict rows mountPath excludeID =
     tryp (normalizeMountPath mountPath) (\<lambda>p.
     tryp (ListAllMounts rows) (\<lambda>mounts.
       Inr (mount_path_taken p excludeID mounts)))"

text \<open>One iteration of the projection loop, on the children found so far.\<close>

definition project_step ::
  "string \<Rightarrow> MountEntry \<Rightarrow> (string \<times> ProjectedVirtualDir) list \<Rightarrow> (string \<times> ProjectedVirtualDir) list" where
  "project_step pre mount children =
     (if me_MountPath mount = pre then children
      else if \<not> isSubPath pre (me_MountPath mount) then children
      else
        let relative = TrimPrefix (TrimPrefix (me_MountPath mount) pre) ''/''
        in if relative = [] then children
           else
             let name = hd (Split relative CHR ''/'')
             in if name = [] then children
                else
                  let childPath = joinVirtualPath pre name
                  in (case map_of children name of
                        Some existing \<Rightarrow>
                          if pvd_IsMountPoint existing then children
                          else AList.update name
                                 \<lparr>pvd_Name = name, pvd_Path = childPath,
                                  pvd_IsMountPoint = (childPath = me_MountPath mount)\<rparr> children
                      | None \<Rightarrow>
                          AList.update name
                            \<lparr>pvd_Name = name, pvd_Path = childPath,
                             pvd_IsMountPoint = (childPath = me_MountPath mount)\<rparr> children))"

definition projectVirtualDirsFromMounts :: "string \<Rightarrow> MountEntry list \<Rightarrow> ProjectedVirtualDir list result" where
  "projectVirtualDirsFromMounts pathPrefix mounts =
     tryp (normalizeVirtualPath pathPrefix) (\<lambda>pre.
       Inr (sort_key pvd_Name (map snd (fold (project_step pre) mounts []))))"

definition ProjectVirtualDirs :: "StorageSource list \<Rightarrow> string \<Rightarrow> ProjectedVirtualDir list result" where
  "ProjectVirtualDirs rows pathPrefix =
     tryp (ListEnabledMounts rows) (\<lambda>mounts. projectVirtualDirsFromMounts pathPrefix mounts)"

definition ProjectVirtualChildren :: "StorageSource list \<Rightarrow> string \<Rightarrow> string list result" where
  "ProjectVirtualChildren rows pathPrefix =
     tryp (ProjectVirtualDirs rows pathPrefix) (\<lambda>projected. Inr (map pvd_Name projected))"

section \<open>Name conflicts\<close>

fun conflict_loop :: "string \<Rightarrow> MountEntry list \<Rightarrow> bool result" where
  "conflict_loop t [] = Inr False"
| "conflict_loop t (m # ms) =
     tryp (normalizeMountPath (me_MountPath m)) (\<lambda>nm.
       if nm = t then Inr True
       else if isSubPath t nm then Inr True
       else conflict_loop t ms)"

definition hasMountNameConflict :: "string \<Rightarrow> MountEntry list \<Rightarrow> bool result" where
  "hasMountNameConflict targetPath mounts =
     tryp (normalizeVirtualPath targetPath) (\<lambda>t.
       if t = ''/'' then Inr False else conflict_loop t mounts)"

text \<open>\<open>exists\<close> stands for \<^verbatim>\<open>sourcePathExists\<close> on the source's driver.\<close>

definition ensureWritableNameAvailable ::
  "(StorageSource \<Rightarrow> string \<Rightarrow> bool result) \<Rightarrow> string \<Rightarrow> MountEntry list \<Rightarrow> unit result" where
  "ensureWritableNameAvailable sourcePathExists targetPath mounts =
     tryp (hasMountNameConflict targetPath mounts) (\<lambda>conflict.
       if conflict then Inl ErrNameConflict
       else tryp (resolveVirtualPathByLongestPrefix targetPath mounts) (\<lambda>resolved.
         case rp_Source resolved of
           None \<Rightarrow> Inr ()
         | Some source \<Rightarrow>
             if \<not> rp_IsRealMount resolved then Inr ()
             else tryp (sourcePathExists source (rp_InnerPath resolved)) (\<lambda>ex.
               if ex then Inl ErrNameConflict else Inr ())))"

text \<open>\<^verbatim>\<open>VFSService.ResolveWritableTarget\<close> and \<^verbatim>\<open>VFSService.ResolvePath\<close>.\<close>

definition ResolveWritableTarget ::
  "(StorageSource \<Rightarrow> string \<Rightarrow> bool result) \<Rightarrow> StorageSource list \<Rightarrow> string \<Rightarrow> ResolvedPath result" where
  "ResolveWritableTarget sourcePathExists rows virtualPath =
     tryp (ListEnabledMounts rows) (\<lambda>mounts.
     tryp (ensureWritableNameAvailable sourcePathExists virtualPath mounts) (\<lambda>_.
     tryp (resolveVirtualPathByLongestPrefix virtualPath mounts) (\<lambda>resolved.
       if \<not> rp_IsRealMount resolved then Inl ErrNoBackingStorage else Inr resolved)))"

definition ResolvePath :: "StorageSource list \<Rightarrow> string \<Rightarrow> ResolvedPath result" where
  "ResolvePath rows virtualPath =
     tryp (ListEnabledMounts rows) (\<lambda>mounts.
     tryp (resolveVirtualPathByLongestPrefix virtualPath mounts) (\<lambda>resolved.
       if \<not> rp_IsRealMount resolved then Inl ErrFileNotFound else Inr resolved))"

section \<open>Resolution picks the deepest mount\<close>

text \<open>The mount \<open>m\<close> contains the path: its path normalises to \<open>nm\<close>, an ancestor of \<open>p\<close>.\<close>

definition mounted_at :: "MountEntry \<Rightarrow> string \<Rightarrow> bool" where
  "mounted_at m nm \<longleftrightarrow> normalizeMountPath (me_MountPath m) = Inr nm"

lemma mounted_at_normal: "mounted_at m nm \<Longrightarrow> normal nm"
  by (auto simp: mounted_at_def normalizeMountPath_def intro: normalize_normal)

lemma best_loop_ok:
  "best_loop p ms i bi bm = Inr r \<Longrightarrow> m \<in> set ms \<Longrightarrow> \<exists>nm. mounted_at m nm"
  by (induction p ms i bi bm rule: best_loop.induct)
     (auto simp: mounted_at_def tryp_Inr split: if_splits)

lemma best_loop_choice:
  "best_loop p ms i bi bm = Inr (bi', bm') \<Longrightarrow>
     bi' = bi \<and> bm' = bm \<or>
     (\<exists>j < length ms. bi' = Some (i + j) \<and> mounted_at (ms ! j) bm' \<and> isSubPath bm' p)"
proof (induction p ms i bi bm rule: best_loop.induct)
  case (2 p m ms i bi bm)
  then obtain nm where nm: "mounted_at m nm"
    by (auto simp: tryp_Inr mounted_at_def)
  have shift: "\<exists>j < length (m # ms). bi' = Some (i + j) \<and> mounted_at ((m # ms) ! j) bm' \<and> isSubPath bm' p"
    if "j < length ms" "bi' = Some (Suc i + j)" "mounted_at (ms ! j) bm'" "isSubPath bm' p" for j
    using that by (intro exI [of _ "Suc j"]) auto
  show ?case
  proof (cases "isSubPath nm p \<and> length bm < length nm")
    case True
    then have "best_loop p ms (Suc i) (Some i) nm = Inr (bi', bm')"
      using 2 nm by (simp add: mounted_at_def)
    then have "bi' = Some i \<and> bm' = nm \<or>
        (\<exists>j < length ms. bi' = Some (Suc i + j) \<and> mounted_at (ms ! j) bm' \<and> isSubPath bm' p)"
      using 2 nm True by (auto simp: mounted_at_def)
    then show ?thesis using nm True shift by auto
  next
    case False
    then have "best_loop p ms (Suc i) bi bm = Inr (bi', bm')"
      using 2 nm by (simp add: mounted_at_def split: if_splits)
    then have "bi' = bi \<and> bm' = bm \<or>
        (\<exists>j < length ms. bi' = Some (Suc i + j) \<and> mounted_at (ms ! j) bm' \<and> isSubPath bm' p)"
      using 2 nm False by (auto simp: mounted_at_def)
    then show ?thesis using shift by auto
  qed
qed simp

lemma best_loop_longest:
  "best_loop p ms i bi bm = Inr (bi', bm') \<Longrightarrow>
     length bm \<le> length bm' \<and>
     (\<forall>m \<in> set ms. \<forall>nm. mounted_at m nm \<and> isSubPath nm p \<longrightarrow> length nm \<le> length bm')"
  by (induction p ms i bi bm rule: best_loop.induct)
     (fastforce simp: tryp_Inr mounted_at_def split: if_splits)+

lemma length_render_strict: "nsegs ys \<Longrightarrow> strict_prefix xs ys \<Longrightarrow> length (render xs) < length (render ys)"
proof -
  assume ns: "nsegs ys" and "strict_prefix xs ys"
  then obtain z zs where ys: "ys = xs @ z # zs" "z \<noteq> []"
    by (auto simp: nseg_def elim!: strict_prefixE')
  then show ?thesis by (cases "xs = []") (auto simp: render_def)
qed

text \<open>Of two ancestors of a path, the one with the longer string is the deeper one.\<close>

lemma longer_is_deeper:
  assumes "normal a" "normal b" "normal p" "isSubPath a p" "isSubPath b p" "length a \<le> length b"
  shows "isSubPath a b"
proof -
  have pre: "prefix (segs_of a) (segs_of p)" "prefix (segs_of b) (segs_of p)"
    using assms by (simp_all add: isSubPath_normal)
  show ?thesis
  proof (rule ccontr)
    assume "\<not> isSubPath a b"
    then have "strict_prefix (segs_of b) (segs_of a)"
      using pre assms prefix_same_cases by (fastforce simp: isSubPath_normal strict_prefix_def)
    then have "length b < length a"
      using length_render_strict [of "segs_of a" "segs_of b"] assms normal_segs by metis
    with assms(6) show False by simp
  qed
qed

lemma inner_path_render:
  assumes "nsegs (ms @ is)"
  shows "(let i0 = TrimPrefix (render (ms @ is)) (render ms)
          in if i0 = [] then ''/'' else if \<not> HasPrefix i0 ''/'' then CHR ''/'' # i0 else i0) = render is"
proof (cases "is = []")
  case True
  then show ?thesis by (simp add: TrimPrefix_def render_def)
next
  case False
  show ?thesis
  proof (cases "ms = []")
    case True
    obtain w ws where w: "is = w # ws" using False by (cases "is") auto
    then have "CHR ''/'' \<notin> set w" "w \<noteq> []" using assms by (auto simp: nseg_def)
    then have "\<not> HasPrefix (w @ body ws) ''/''"
      by (cases w) (auto simp: HasPrefix_def)
    then show ?thesis using True w \<open>w \<noteq> []\<close> by (simp add: TrimPrefix_def render_def)
  next
    case ms: False
    then have "render (ms @ is) = render ms @ render is"
      using False by (simp add: render_append)
    then show ?thesis using render_HasPrefix [of "is"] by (simp add: HasPrefix_def)
  qed
qed

text \<open>What the resolver returns when some mount contains the path, and when none does.\<close>

lemma resolve_cases:
  assumes res: "resolveVirtualPathByLongestPrefix vp mounts = Inr r"
  obtains
    (real) m nm where "m \<in> set mounts" "mounted_at m nm" "isSubPath nm (rp_VirtualPath r)"
      "rp_MatchedMountPath r = nm" "rp_Source r = me_Source m" "rp_IsRealMount r"
      "\<not> rp_IsPureVirtual r" "normal (rp_InnerPath r)"
      "segs_of (rp_VirtualPath r) = segs_of nm @ segs_of (rp_InnerPath r)"
      "\<forall>m' \<in> set mounts. \<forall>nm'. mounted_at m' nm' \<and> isSubPath nm' (rp_VirtualPath r) \<longrightarrow> isSubPath nm' nm"
  | (none) "\<not> rp_IsRealMount r" "rp_Source r = None"
      "\<forall>m \<in> set mounts. \<forall>nm. mounted_at m nm \<longrightarrow> \<not> isSubPath nm (rp_VirtualPath r)"
      "virtual_loop (rp_VirtualPath r) mounts = Inr (rp_IsPureVirtual r)"
proof -
  from res obtain p bi bm where p: "normalizeVirtualPath vp = Inr p"
    and bl: "best_loop p mounts 0 None [] = Inr (bi, bm)"
    unfolding resolveVirtualPathByLongestPrefix_def
    by (auto simp: tryp_Inr Let_def split: prod.splits)
  have pn: "normal p" using p by (rule normalize_normal)
  note ch = best_loop_choice [OF bl] and lo = best_loop_longest [OF bl]
  show thesis
  proof (cases bi)
    case (Some k)
    then have k: "k < length mounts" "mounted_at (mounts ! k) bm" "isSubPath bm p"
      using ch by auto
    have bn: "normal bm" using k(2) by (rule mounted_at_normal)
    obtain es where es: "segs_of p = segs_of bm @ es"
      using k(3) bn pn by (auto simp: isSubPath_normal prefix_def)
    have ns: "nsegs (segs_of bm @ es)" using pn normal_segs es by metis
    have "(let i0 = TrimPrefix p bm in if i0 = [] then ''/''
            else if \<not> HasPrefix i0 ''/'' then CHR ''/'' # i0 else i0) = render es"
      using inner_path_render [OF ns] es normal_segs [OF pn] normal_segs [OF bn] by simp
    then have r: "r = \<lparr>rp_VirtualPath = p, rp_MatchedMountPath = bm, rp_InnerPath = render es,
        rp_Source = me_Source (mounts ! k), rp_IsRealMount = True, rp_IsPureVirtual = False\<rparr>"
      using res p bl Some by (simp add: resolveVirtualPathByLongestPrefix_def Let_def)
    have deepest: "isSubPath nm' bm" if "m' \<in> set mounts" "mounted_at m' nm'" "isSubPath nm' p" for m' nm'
      using that lo longer_is_deeper [OF mounted_at_normal bn pn] k(3) by blast
    have "segs_of (render es) = es" using ns by (simp add: segs_of_render)
    then show thesis
      using k ns deepest es by (intro real [of "mounts ! k" bm]) (auto simp: r)
  next
    case None
    then have "bm = []" using ch by simp
    then have no: "\<not> isSubPath nm p" if "m \<in> set mounts" "mounted_at m nm" for m nm
      using lo that mounted_at_normal normal_segs render_neq_Nil by fastforce
    obtain v where "virtual_loop p mounts = Inr v" "r = \<lparr>rp_VirtualPath = p, rp_MatchedMountPath = [],
        rp_InnerPath = [], rp_Source = None, rp_IsRealMount = False, rp_IsPureVirtual = v\<rparr>"
      using res p bl None by (auto simp: resolveVirtualPathByLongestPrefix_def Let_def tryp_Inr)
    then show thesis using no by (intro none) auto
  qed
qed

lemma virtual_loop_iff:
  "virtual_loop p ms = Inr v \<Longrightarrow> \<forall>m \<in> set ms. \<exists>nm. mounted_at m nm \<Longrightarrow>
     v \<longleftrightarrow> (\<exists>m \<in> set ms. \<exists>nm. mounted_at m nm \<and> nm \<noteq> p \<and> isSubPath p nm)"
  by (induction p ms rule: virtual_loop.induct)
     (auto simp: mounted_at_def tryp_Inr split: if_splits)

lemma resolve_mounts_ok:
  "resolveVirtualPathByLongestPrefix vp mounts = Inr r \<Longrightarrow> \<forall>m \<in> set mounts. \<exists>nm. mounted_at m nm"
  unfolding resolveVirtualPathByLongestPrefix_def
  by (auto simp: tryp_Inr Let_def split: prod.splits dest: best_loop_ok)

lemma resolve_virtual_path:
  "resolveVirtualPathByLongestPrefix vp mounts = Inr r \<Longrightarrow> normalizeVirtualPath vp = Inr (rp_VirtualPath r)"
  unfolding resolveVirtualPathByLongestPrefix_def
  by (auto simp: tryp_Inr Let_def split: prod.splits option.splits)

section \<open>Registry and projection\<close>

lemma buildMountEntries_normal:
  "buildMountEntries sources = Inr mounts \<Longrightarrow> m \<in> set mounts \<Longrightarrow>
     normal (me_MountPath m) \<and> (\<exists>s \<in> set sources. me_Source m = Some s)"
proof (induction sources arbitrary: mounts)
  case (Cons a sources)
  define mp where "mp = (if src_MountPath a = [] \<and> src_WebDAVSlug a \<noteq> []
    then CHR ''/'' # src_WebDAVSlug a else src_MountPath a)"
  show ?case
  proof (cases "mp = []")
    case True
    then have "buildMountEntries sources = Inr mounts"
      using Cons.prems(1) by (simp add: Let_def mp_def [symmetric])
    then show ?thesis using Cons.IH Cons.prems(2) by auto
  next
    case False
    then obtain nm ms where nm: "normalizeMountPath mp = Inr nm"
      and ms: "buildMountEntries sources = Inr ms"
      and mounts: "mounts = \<lparr>me_MountPath = nm, me_Source = Some a\<rparr> # ms"
      using Cons.prems(1) by (auto simp: Let_def tryp_Inr mp_def [symmetric])
    have "normal nm"
      using nm unfolding normalizeMountPath_def by (blast intro: normalize_normal)
    then show ?thesis using Cons.IH [OF ms] Cons.prems(2) mounts by auto
  qed
qed simp

lemma normal_mounted_at [simp]: "normal (me_MountPath m) \<Longrightarrow> mounted_at m nm \<longleftrightarrow> nm = me_MountPath m"
  by (auto simp: mounted_at_def normalizeMountPath_def normal_def)

lemma Split_seg_body:
  "CHR ''/'' \<notin> set w \<Longrightarrow> \<forall>v \<in> set ws. CHR ''/'' \<notin> set v \<Longrightarrow> Split (w @ body ws) CHR ''/'' = w # ws"
  using Split_body [of "w # ws"] by simp

lemma relative_name:
  assumes "nsegs (ps @ w # rest)"
  shows "TrimPrefix (TrimPrefix (render (ps @ w # rest)) (render ps)) ''/'' = w @ body rest"
    and "hd (Split (w @ body rest) CHR ''/'') = w"
proof -
  have w: "CHR ''/'' \<notin> set w" "w \<noteq> []" and rest: "\<forall>v \<in> set rest. CHR ''/'' \<notin> set v"
    using assms by (auto simp: nseg_def)
  have 1: "TrimPrefix (w @ body rest) ''/'' = w @ body rest"
    using w by (cases w) (auto simp: TrimPrefix_def)
  show "TrimPrefix (TrimPrefix (render (ps @ w # rest)) (render ps)) ''/'' = w @ body rest"
  proof (cases "ps = []")
    case True
    then show ?thesis using 1 by (simp add: render_def TrimPrefix_def)
  next
    case False
    then have "render (ps @ w # rest) = render ps @ CHR ''/'' # w @ body rest"
      by (simp add: render_def)
    then show ?thesis by (simp add: TrimPrefix_def)
  qed
  show "hd (Split (w @ body rest) CHR ''/'') = w"
    using w rest by (simp add: Split_seg_body)
qed

abbreviation projected :: "string list \<Rightarrow> string \<Rightarrow> bool \<Rightarrow> ProjectedVirtualDir" where
  "projected ps w mp \<equiv> \<lparr>pvd_Name = w, pvd_Path = render (ps @ [w]), pvd_IsMountPoint = mp\<rparr>"

lemma project_step_child:
  assumes m: "normal (me_MountPath m)" and ps: "nsegs ps"
    and seg: "segs_of (me_MountPath m) = ps @ w # rest"
  shows "project_step (render ps) m ch =
     (if \<exists>d. map_of ch w = Some d \<and> pvd_IsMountPoint d then ch
      else AList.update w (projected ps w (rest = [])) ch)"
proof -
  have ns: "nsegs (ps @ w # rest)" and path: "me_MountPath m = render (ps @ w # rest)"
    using normal_segs [OF m] seg by auto
  have w: "CHR ''/'' \<notin> set w" "w \<noteq> []" using ns by (auto simp: nseg_def)
  have neq: "render (ps @ w # rest) \<noteq> render ps"
    using render_inj [OF ns ps] by auto
  have mp: "render (ps @ [w]) = render (ps @ w # rest) \<longleftrightarrow> rest = []"
    using render_inj [of "ps @ [w]" "ps @ w # rest"] ns by auto
  have sub: "isSubPath (render ps) (render (ps @ w # rest))"
    using isSubPath_render [OF ps ns] by simp
  show ?thesis
    unfolding project_step_def path Let_def
    using neq sub w mp
    by (simp add: relative_name [OF ns] join_render [OF ps] split: option.split)
qed

lemma project_step_other:
  assumes "normal (me_MountPath m)" "nsegs ps" "\<nexists>w rest. segs_of (me_MountPath m) = ps @ w # rest"
  shows "project_step (render ps) m ch = ch"
proof -
  obtain qs where q: "nsegs qs" "me_MountPath m = render qs" "segs_of (me_MountPath m) = qs"
    using assms(1) by (rule normalE)
  have "\<not> prefix ps qs \<or> qs = ps"
    using assms(3) q(3) by (auto simp: prefix_def neq_Nil_conv)
  then show ?thesis
    using q assms(2) by (auto simp: project_step_def isSubPath_render)
qed

text \<open>The children collected from the mounts seen so far.\<close>

definition children_inv :: "string list \<Rightarrow> MountEntry list \<Rightarrow> (string \<times> ProjectedVirtualDir) list \<Rightarrow> bool" where
  "children_inv ps ms ch \<longleftrightarrow> distinct (map fst ch) \<and>
     (\<forall>w. map_of ch w =
       (if \<exists>m \<in> set ms. \<exists>rest. segs_of (me_MountPath m) = ps @ w # rest
        then Some (projected ps w (\<exists>m \<in> set ms. segs_of (me_MountPath m) = ps @ [w]))
        else None))"

lemma children_inv_step:
  assumes inv: "children_inv ps ms ch" and m: "normal (me_MountPath m)" and ps: "nsegs ps"
  shows "children_inv ps (ms @ [m]) (project_step (render ps) m ch)"
proof (cases "\<exists>w rest. segs_of (me_MountPath m) = ps @ w # rest")
  case False
  then show ?thesis
    using inv project_step_other [OF m ps] by (auto simp: children_inv_def)
next
  case True
  then obtain w rest where seg: "segs_of (me_MountPath m) = ps @ w # rest" by blast
  note step = project_step_child [OF m ps seg, of ch]
  from inv show ?thesis
    unfolding children_inv_def step
    by (auto simp: seg update_conv' distinct_update split: if_splits)
qed

lemma children_inv_fold:
  assumes "\<forall>m \<in> set ms. normal (me_MountPath m)" "nsegs ps"
  shows "children_inv ps ms (fold (project_step (render ps)) ms [])"
  using assms(1)
proof (induction ms rule: rev_induct)
  case Nil
  show ?case by (simp add: children_inv_def)
next
  case (snoc m ms)
  then show ?case using children_inv_step [OF _ _ assms(2)] by simp
qed

section \<open>Properties\<close>

definition example_source :: "nat \<Rightarrow> string \<Rightarrow> StorageSource" where
  "example_source i p = \<lparr>src_ID = i, src_Name = ''s'', src_DriverType = ''local'',
     src_Status = ''ok'', src_IsEnabled = True, src_IsWebDAVExposed = False,
     src_WebDAVReadOnly = False, src_WebDAVSlug = [], src_MountPath = p, src_RootPath = ''/'',
     src_SortOrder = 0, src_ConfigJSON = [], src_LastCheckedAt = None, src_CreatedAt = 0,
     src_UpdatedAt = 0\<rparr>"

definition example_sources :: "StorageSource list" where
  "example_sources = [example_source 1 ''/a'', example_source 2 ''/a/b'']"

text \<open>C36: The resolver picks the deepest mount. If it resolves a path to a real mount, the
  matched mount path is that of one of the mounts (whose source is returned), contains the
  path, and lies below every other mount that contains the path; merging the matched mount
  path and the inner path gives the normalised path back. If it does not, no mount contains
  the path, and it is reported as pure virtual exactly when a mount lies strictly below it.\<close>

theorem resolve_longest_prefix:
  assumes "resolveVirtualPathByLongestPrefix vp mounts = Inr r"
  shows "if rp_IsRealMount r
     then (\<exists>m \<in> set mounts. mounted_at m (rp_MatchedMountPath r) \<and> rp_Source r = me_Source m) \<and>
          isSubPath (rp_MatchedMountPath r) vp \<and>
          (\<forall>m \<in> set mounts. \<forall>nm. mounted_at m nm \<and> isSubPath nm vp \<longrightarrow> isSubPath nm (rp_MatchedMountPath r)) \<and>
          Inr (mergeMountAndInnerPath (rp_MatchedMountPath r) (rp_InnerPath r)) = normalizeVirtualPath vp
     else (\<forall>m \<in> set mounts. \<forall>nm. mounted_at m nm \<longrightarrow> \<not> isSubPath nm vp) \<and>
          (rp_IsPureVirtual r \<longleftrightarrow>
             (\<exists>m \<in> set mounts. \<exists>nm. mounted_at m nm \<and> nm \<noteq> rp_VirtualPath r \<and> isSubPath vp nm))"
proof -
  have vp: "normalizeVirtualPath vp = Inr (rp_VirtualPath r)"
    using assms by (rule resolve_virtual_path)
  then have same: "isSubPath a vp = isSubPath a (rp_VirtualPath r)"
    "isSubPath vp a = isSubPath (rp_VirtualPath r) a" for a
    using normalize_normal [OF vp] by (simp_all add: isSubPath_def normal_def)
  from assms show ?thesis
  proof (cases rule: resolve_cases)
    case (real m nm)
    have "normal nm" using real(2) by (rule mounted_at_normal)
    then have "mergeMountAndInnerPath nm (rp_InnerPath r) = rp_VirtualPath r"
      using real(8,9) normal_segs normalize_normal [OF vp] merge_render by metis
    then show ?thesis using real vp by (auto simp: same)
  next
    case none
    then show ?thesis
      using virtual_loop_iff [OF none(4)] resolve_mounts_ok [OF assms] by (simp add: same)
  qed
qed

theorem resolve_longest_prefix_witness:
  "\<exists>r. resolveVirtualPathByLongestPrefix ''/a/b/../b/c''
        [\<lparr>me_MountPath = ''/a'', me_Source = None\<rparr>, \<lparr>me_MountPath = ''/a/b/'', me_Source = None\<rparr>] = Inr r \<and>
     rp_MatchedMountPath r = ''/a/b'' \<and> rp_InnerPath r = ''/c'' \<and>
     isSubPath (rp_MatchedMountPath r) ''/a/b/../b/c''"
proof -
  let ?ms = "[\<lparr>me_MountPath = ''/a'', me_Source = None\<rparr>, \<lparr>me_MountPath = ''/a/b/'', me_Source = None\<rparr>]"
  have r: "resolveVirtualPathByLongestPrefix ''/a/b/../b/c'' ?ms =
    Inr \<lparr>rp_VirtualPath = ''/a/b/c'', rp_MatchedMountPath = ''/a/b'', rp_InnerPath = ''/c'',
         rp_Source = None, rp_IsRealMount = True, rp_IsPureVirtual = False\<rparr>"
    by code_simp
  show ?thesis using resolve_longest_prefix [OF r] r by simp
qed

text \<open>The projection of the enabled mounts into a directory lists, sorted by name and
  without duplicates, exactly the names that follow the directory's path in some mount path,
  each with the child path, and marks a child as a mount point exactly when a mount sits at
  that child.\<close>

lemma projected_dirs_spec:
  assumes "ListEnabledMounts rows = Inr mounts" and "ProjectVirtualDirs rows dir = Inr ds"
    and "normalizeVirtualPath dir = Inr p"
  shows "sorted_wrt (\<lambda>a b. pvd_Name a < pvd_Name b) ds \<and>
    (\<forall>d. d \<in> set ds \<longleftrightarrow>
       (\<exists>m \<in> set mounts. \<exists>rest. segs_of (me_MountPath m) = segs_of p @ pvd_Name d # rest) \<and>
       pvd_Path d = render (segs_of p @ [pvd_Name d]) \<and>
       (pvd_IsMountPoint d \<longleftrightarrow> (\<exists>m \<in> set mounts. me_MountPath m = pvd_Path d)))"
proof -
  define ps where "ps = segs_of p"
  have ps: "nsegs ps" "p = render ps"
    using normal_segs [OF normalize_normal [OF assms(3)]] by (simp_all add: ps_def)
  have ms: "\<forall>m \<in> set mounts. normal (me_MountPath m)"
    using assms(1) buildMountEntries_normal by (auto simp: ListEnabledMounts_def)
  define ch where "ch = fold (project_step (render ps)) mounts []"
  have inv: "children_inv ps mounts ch"
    unfolding ch_def by (rule children_inv_fold [OF ms ps(1)])
  have ds: "ds = sort_key pvd_Name (map snd ch)"
    using assms by (simp add: ProjectVirtualDirs_def projectVirtualDirsFromMounts_def ps(2) ch_def)
  have dist: "distinct (map fst ch)" using inv by (simp add: children_inv_def)
  then have entry: "(w, d) \<in> set ch \<longleftrightarrow> map_of ch w = Some d" for w d
    using map_of_eq_Some_iff by metis
  have name: "pvd_Name d = w" if "(w, d) \<in> set ch" for w d
  proof -
    have "map_of ch w = Some d" using that entry by simp
    then show ?thesis using inv by (auto simp: children_inv_def split: if_splits)
  qed
  then have "map pvd_Name (map snd ch) = map fst ch"
    by (auto simp: split_def)
  then have "distinct (map pvd_Name (map snd ch))" using dist by metis
  then have "distinct (map pvd_Name ds)"
    unfolding ds distinct_map [of pvd_Name] distinct_sort set_sort by simp
  moreover have "sorted (map pvd_Name ds)" by (simp add: ds)
  ultimately have "sorted_wrt (<) (map pvd_Name ds)"
    unfolding strict_sorted_iff by simp
  then have sorted: "sorted_wrt (\<lambda>a b. pvd_Name a < pvd_Name b) ds"
    by (simp add: sorted_wrt_map)
  have mem: "d \<in> set ds \<longleftrightarrow> map_of ch (pvd_Name d) = Some d" for d
  proof -
    have "d \<in> set ds \<longleftrightarrow> (\<exists>w. (w, d) \<in> set ch)" unfolding ds by force
    then show ?thesis using name entry by metis
  qed
  have eq: "segs_of (me_MountPath m) = ps @ [w] \<longleftrightarrow> me_MountPath m = render (ps @ [w])"
    if "m \<in> set mounts" "nseg w" for m w
    using that ms ps normal_segs segs_of_render [of "ps @ [w]"] by fastforce
  have seg: "nseg w" if "m \<in> set mounts" "segs_of (me_MountPath m) = ps @ w # rest" for m w rest
    using that ms normal_segs by (metis in_set_conv_decomp)
  have main: "d \<in> set ds \<longleftrightarrow>
       (\<exists>m \<in> set mounts. \<exists>rest. segs_of (me_MountPath m) = ps @ pvd_Name d # rest) \<and>
       pvd_Path d = render (ps @ [pvd_Name d]) \<and>
       (pvd_IsMountPoint d \<longleftrightarrow> (\<exists>m \<in> set mounts. me_MountPath m = pvd_Path d))" for d
  proof -
    let ?w = "pvd_Name d"
    let ?M = "\<exists>m \<in> set mounts. segs_of (me_MountPath m) = ps @ [?w]"
    have proj: "projected ps ?w b = d \<longleftrightarrow> pvd_Path d = render (ps @ [?w]) \<and> pvd_IsMountPoint d = b" for b
      by (cases d) auto
    have lookup: "map_of ch ?w = (if \<exists>m \<in> set mounts. \<exists>rest. segs_of (me_MountPath m) = ps @ ?w # rest
        then Some (projected ps ?w ?M) else None)"
      using inv unfolding children_inv_def by blast
    show ?thesis
    proof (cases "\<exists>m \<in> set mounts. \<exists>rest. segs_of (me_MountPath m) = ps @ ?w # rest")
      case True
      then have "nseg ?w" using seg by metis
      then have "?M \<longleftrightarrow> (\<exists>m \<in> set mounts. me_MountPath m = render (ps @ [?w]))"
        using eq by simp
      moreover have "d \<in> set ds \<longleftrightarrow> projected ps ?w ?M = d"
        using mem [of d] lookup True by simp
      ultimately show ?thesis using True unfolding proj by metis
    next
      case False
      then show ?thesis using mem [of d] lookup by simp
    qed
  qed
  show ?thesis using sorted main unfolding ps_def [symmetric] by blast
qed

lemma projected_dirs_spec_witness:
  "ProjectVirtualDirs example_sources ''/'' = Inr [projected [] ''a'' True] \<and>
   sorted_wrt (\<lambda>a b. pvd_Name a < pvd_Name b) [projected [] ''a'' True]"
proof -
  have m: "ListEnabledMounts example_sources =
    Inr [\<lparr>me_MountPath = ''/a'', me_Source = Some (example_source 1 ''/a'')\<rparr>,
         \<lparr>me_MountPath = ''/a/b'', me_Source = Some (example_source 2 ''/a/b'')\<rparr>]"
    by code_simp
  have p: "ProjectVirtualDirs example_sources ''/'' = Inr [projected [] ''a'' True]"
    by code_simp
  have n: "normalizeVirtualPath ''/'' = Inr ''/''" by code_simp
  show ?thesis using conjI [OF p conjunct1 [OF projected_dirs_spec [OF m p n]]] .
qed

end
