(* ===== verification/Local_Paths.thy ===== *)
theory Local_Paths
  imports Paths Entities
begin

text \<open>
  Physical paths of a local source (\<^verbatim>\<open>local_storage_helpers.go\<close>): the base directory of the
  source, its root path and the virtual path are joined to the path of a file on the
  server. \<^verbatim>\<open>filepath\<close> is \<^verbatim>\<open>path\<close> on the systems the server runs on. The JSON decoder is the
  parameter \<open>unmarshal\<close>: the \<^verbatim>\<open>base_path\<close> field of the text, or its error.
\<close>

section \<open>Definitions\<close>

definition parseLocalSourceConfig :: "(string \<Rightarrow> string result) \<Rightarrow> StorageSource \<Rightarrow> string result" where
  "parseLocalSourceConfig unmarshal source =
     tryp (unmarshal (src_ConfigJSON source)) (\<lambda>basePath.
       if basePath = [] then Inl ErrPathInvalid else Inr basePath)"

definition resolvePhysicalPath ::
  "(string \<Rightarrow> string result) \<Rightarrow> StorageSource \<Rightarrow> string \<Rightarrow> (string \<times> string) result" where
  "resolvePhysicalPath unmarshal source virtualPath =
     tryp (parseLocalSourceConfig unmarshal source) (\<lambda>basePath.
     tryp (normalizeVirtualPath (src_RootPath source)) (\<lambda>normalizedRoot.
     tryp (normalizeVirtualPath virtualPath) (\<lambda>normalizedPath.
       let baseRoot = path_Join [path_Clean basePath, TrimPrefix normalizedRoot ''/''];
           target = path_Join [baseRoot, TrimPrefix normalizedPath ''/''];
           cleanBase = path_Clean baseRoot;
           cleanTarget = path_Clean target
       in if \<not> HasPrefix cleanTarget cleanBase then Inl ErrPathInvalid
          else Inr (cleanBase, cleanTarget))))"

section \<open>Cleaning joined paths\<close>

abbreviation kepts :: "string list \<Rightarrow> bool" where
  "kepts ws \<equiv> \<forall>w \<in> set ws. kept w"

lemma nseg_kept: "nseg w \<Longrightarrow> kept w"
  by (auto simp: nseg_def kept_def Contains_def)

lemma fold_clean_segs:
  "\<forall>w \<in> set ws. w = [] \<or> kept w \<Longrightarrow>
   fold (clean_step True) ws st = rev (filter (\<lambda>w. w \<noteq> []) ws) @ st"
  by (induction ws arbitrary: st) (auto simp: kept_def)

lemma Clean_segs:
  assumes "HasPrefix s ''/''" "kepts (segs_of s)"
  shows "path_Clean s = render (segs_of s)"
proof -
  have "\<forall>w \<in> set (Split s CHR ''/''). w = [] \<or> kept w"
    using assms(2) by (auto simp: segs_of_def)
  then have "rev (fold (clean_step True) (Split s CHR ''/'') []) = segs_of s"
    by (simp add: fold_clean_segs segs_of_def)
  with Clean_rooted [OF assms(1)] show ?thesis by metis
qed

lemma segs_of_append: "segs_of (a @ CHR ''/'' # b) = segs_of a @ segs_of b"
  by (simp add: segs_of_def Split_append_sep)

lemma segs_of_render_kept: "kepts ws \<Longrightarrow> segs_of (render ws) = ws"
proof (cases "ws = []")
  case False
  assume "kepts ws"
  then have "\<forall>w \<in> set ws. CHR ''/'' \<notin> set w" "filter (\<lambda>w. w \<noteq> []) ws = ws"
    by (auto simp: kept_def filter_id_conv)
  then show ?thesis
    using False Split_body [of ws] by (simp add: segs_of_def render_def)
qed (simp add: render_def)

lemma Clean_render_kept: "kepts ws \<Longrightarrow> path_Clean (render ws) = render ws"
  using Clean_segs [of "render ws"] by (simp add: segs_of_render_kept)

lemma segs_of_rel: "segs_of (CHR ''/'' # s) = segs_of s"
  by (simp add: segs_of_def)

lemma join_kept:
  assumes "kepts bs" "nsegs rs"
  shows "path_Join [render bs, TrimPrefix (render rs) ''/''] = render (bs @ rs)"
proof -
  have rel: "TrimPrefix (render rs) ''/'' = Join rs ''/''"
    using Join_slash [of rs] by (metis TrimPrefix_append append_Cons append_Nil)
  show ?thesis
  proof (cases "Join rs ''/'' = []")
    case True
    then have "render rs = ''/''" using Join_slash [of rs] by simp
    then have "rs = []" using assms(2) by simp
    then show ?thesis using assms(1) True rel by (simp add: path_Join_def Clean_render_kept)
  next
    case False
    let ?s = "render bs @ CHR ''/'' # Join rs ''/''"
    have "segs_of (Join rs ''/'') = rs"
      using segs_of_rel [of "Join rs ''/''"] assms(2) by (simp add: Join_slash segs_of_render)
    then have "segs_of ?s = bs @ rs"
      using assms by (simp add: segs_of_append segs_of_render_kept)
    moreover have "HasPrefix ?s ''/''"
      using render_HasPrefix [of bs] by (simp add: HasPrefix_def prefix_append del: render_HasPrefix)
    moreover have "kepts (bs @ rs)" using assms nseg_kept by auto
    ultimately have "path_Clean ?s = render (bs @ rs)" using Clean_segs by metis
    then show ?thesis using False by (simp add: rel path_Join_def)
  qed
qed

lemma body_append_prefix: "prefix (render bs) (render (bs @ rs))"
  by (cases bs; cases rs) (auto simp: render_def)

text \<open>Joining one element to a rooted path.\<close>

lemma join_seg:
  assumes "HasPrefix d ''/''" "kept w"
  obtains ws where "kepts ws" "path_Clean d = render ws" "path_Join [d, w] = render (ws @ [w])"
proof -
  obtain ws where ws: "path_Clean d = render ws" "kepts ws"
    "ws = rev (fold (clean_step True) (Split d CHR ''/'') [])"
    using Clean_rooted [OF assms(1)] .
  have d: "d \<noteq> []" using assms(1) by (auto simp: HasPrefix_def)
  let ?s = "d @ CHR ''/'' # w"
  have "Split ?s CHR ''/'' = Split d CHR ''/'' @ [w]"
    using assms(2) by (simp add: Split_append_sep Split_plain kept_def)
  then have "rev (fold (clean_step True) (Split ?s CHR ''/'') []) = ws @ [w]"
    using assms(2) ws(3) by (simp add: kept_def)
  moreover have "HasPrefix ?s ''/''" using assms(1) by (simp add: HasPrefix_def prefix_append)
  ultimately have "path_Clean ?s = render (ws @ [w])" using Clean_rooted [of ?s] by metis
  moreover have "path_Join [d, w] = path_Clean ?s" using assms(2) d by (simp add: path_Join_def kept_def)
  ultimately show thesis using that [OF ws(2,1)] by simp
qed

section \<open>Properties\<close>

lemma resolvePhysicalPath_shape:
  assumes "parseLocalSourceConfig unmarshal source = Inr base" and "HasPrefix base ''/''"
  shows "case resolvePhysicalPath unmarshal source vp of
      Inl e \<Rightarrow> e = ErrPathInvalid \<and>
        (normalizeVirtualPath (src_RootPath source) = Inl e \<or> normalizeVirtualPath vp = Inl e)
    | Inr (dir, target) \<Rightarrow> \<exists>ds p. normalizeVirtualPath vp = Inr p \<and> kepts ds \<and> dir = render ds \<and>
        target = render (ds @ segs_of p) \<and> kepts (ds @ segs_of p)"
proof (cases "normalizeVirtualPath (src_RootPath source)")
  case (Inl e)
  then have "e = ErrPathInvalid" by (auto simp: normalizeVirtualPath_def Let_def split: if_splits)
  with Inl show ?thesis using assms(1) by (simp add: resolvePhysicalPath_def)
next
  case root: (Inr r)
  show ?thesis
  proof (cases "normalizeVirtualPath vp")
    case (Inl e)
    then have "e = ErrPathInvalid" by (auto simp: normalizeVirtualPath_def Let_def split: if_splits)
    with Inl show ?thesis using assms(1) root by (simp add: resolvePhysicalPath_def)
  next
    case (Inr p)
    obtain rs where rs: "nsegs rs" "r = render rs" using root by (rule normalize_Inr)
    obtain ps where ps: "nsegs ps" "p = render ps" using Inr by (rule normalize_Inr)
    obtain bs where bs: "path_Clean base = render bs" "kepts bs"
      using Clean_rooted [OF assms(2)] by blast
    have k: "kepts (bs @ rs)" "kepts (bs @ rs @ ps)" using bs rs ps nseg_kept by auto
    have "resolvePhysicalPath unmarshal source vp = Inr (render (bs @ rs), render ((bs @ rs) @ ps))"
      unfolding resolvePhysicalPath_def assms(1) root Inr if_errp_simps Let_def bs(1) rs(2) ps(2)
        join_kept [OF bs(2) rs(1)] join_kept [OF k(1) ps(1)] Clean_render_kept [OF k(1)]
      using Clean_render_kept [OF k(2)] body_append_prefix [of "bs @ rs" ps]
      by (simp add: HasPrefix_def)
    then show ?thesis using Inr k ps by (auto simp: segs_of_render intro!: exI [of _ "bs @ rs"])
  qed
qed

text \<open>C37: A path never leaves its source's directory. With an absolute base path, the resolved
  directory of the source and the resolved file are rendered segment lists without empty, dot
  and dot-dot elements, the file's segments are those of the directory followed by those of
  the normalised virtual path, and resolution fails only if the root path or the virtual path
  does not normalise.\<close>

theorem physical_path_contained:
  assumes "parseLocalSourceConfig unmarshal source = Inr base" and "HasPrefix base ''/''"
  shows "case resolvePhysicalPath unmarshal source vp of
      Inl e \<Rightarrow> e = ErrPathInvalid \<and>
        (normalizeVirtualPath (src_RootPath source) = Inl e \<or> normalizeVirtualPath vp = Inl e)
    | Inr (dir, target) \<Rightarrow> \<exists>ds p. normalizeVirtualPath vp = Inr p \<and> kepts ds \<and> dir = render ds \<and>
        target = render (ds @ segs_of p) \<and> kepts (ds @ segs_of p)"
  by (rule resolvePhysicalPath_shape [OF assms])

definition local_source :: StorageSource where
  "local_source = \<lparr>src_ID = 1, src_Name = ''s'', src_DriverType = ''local'',
     src_Status = ''ok'', src_IsEnabled = True, src_IsWebDAVExposed = False,
     src_WebDAVReadOnly = False, src_WebDAVSlug = [], src_MountPath = ''/m'', src_RootPath = ''/r'',
     src_SortOrder = 0, src_ConfigJSON = ''/data/x'', src_LastCheckedAt = None, src_CreatedAt = 0,
     src_UpdatedAt = 0\<rparr>"

theorem physical_path_contained_witness:
  "resolvePhysicalPath Inr local_source ''/a/../../b'' = Inr (''/data/x/r'', ''/data/x/r/b'') \<and>
   (\<exists>ds p. normalizeVirtualPath ''/a/../../b'' = Inr p \<and> ''/data/x/r'' = render ds \<and>
        ''/data/x/r/b'' = render (ds @ segs_of p))"
proof -
  have c: "parseLocalSourceConfig Inr local_source = Inr ''/data/x''" "HasPrefix ''/data/x'' ''/''"
    by code_simp+
  have r: "resolvePhysicalPath Inr local_source ''/a/../../b'' = Inr (''/data/x/r'', ''/data/x/r/b'')"
    by code_simp
  show ?thesis using physical_path_contained [OF c, of "''/a/../../b''"] unfolding r by auto
qed

end
