(* ===== verification/Permission.thy ===== *)
theory Permission
  imports Prelude
begin

text \<open>
  Roles, account states, capabilities and the ownership checks of
  \<^verbatim>\<open>internal/domain/permission\<close>. The properties relate the three tables the package keeps
  apart: which roles exist, which capabilities a role has, and which roles a role may assign.
\<close>

section \<open>Roles and states\<close>

abbreviation "RoleSuperAdmin \<equiv> ''super_admin''"
abbreviation "RoleAdmin \<equiv> ''admin''"
abbreviation "RoleOperator \<equiv> ''operator''"
abbreviation "RoleUser \<equiv> ''user''"

definition IsValidRole :: "string \<Rightarrow> bool" where
  "IsValidRole roleKey \<longleftrightarrow> roleKey \<in> set [RoleSuperAdmin, RoleAdmin, RoleOperator, RoleUser]"

abbreviation "StatusActive \<equiv> ''active''"
abbreviation "StatusLocked \<equiv> ''locked''"

definition IsValidStatus :: "string \<Rightarrow> bool" where
  "IsValidStatus status \<longleftrightarrow> status \<in> set [StatusActive, StatusLocked]"

section \<open>Capabilities\<close>

abbreviation "CapabilitySystemStatsRead \<equiv> ''system.stats.read''"
abbreviation "CapabilitySystemConfigRead \<equiv> ''system.config.read''"
abbreviation "CapabilitySystemConfigWrite \<equiv> ''system.config.write''"
abbreviation "CapabilityUserRead \<equiv> ''user.read''"
abbreviation "CapabilityUserCreate \<equiv> ''user.create''"
abbreviation "CapabilityUserUpdate \<equiv> ''user.update''"
abbreviation "CapabilityUserLock \<equiv> ''user.lock''"
abbreviation "CapabilityUserPasswordReset \<equiv> ''user.password.reset''"
abbreviation "CapabilityUserTokensRevoke \<equiv> ''user.tokens.revoke''"
abbreviation "CapabilityUserRoleAssign \<equiv> ''user.role.assign''"
abbreviation "CapabilityACLRead \<equiv> ''acl.read''"
abbreviation "CapabilityACLManage \<equiv> ''acl.manage''"
abbreviation "CapabilitySourceRead \<equiv> ''source.read''"
abbreviation "CapabilitySourceTest \<equiv> ''source.test''"
abbreviation "CapabilitySourceCreate \<equiv> ''source.create''"
abbreviation "CapabilitySourceUpdate \<equiv> ''source.update''"
abbreviation "CapabilitySourceDelete \<equiv> ''source.delete''"
abbreviation "CapabilitySourceSecretRead \<equiv> ''source.secret.read''"
abbreviation "CapabilityTaskReadAll \<equiv> ''task.read_all''"
abbreviation "CapabilityTaskManageAll \<equiv> ''task.manage_all''"
abbreviation "CapabilityShareReadAll \<equiv> ''share.read_all''"
abbreviation "CapabilityShareManageAll \<equiv> ''share.manage_all''"
abbreviation "CapabilityRSSRead \<equiv> ''rss.read''"
abbreviation "CapabilityRSSManage \<equiv> ''rss.manage''"
abbreviation "CapabilityNotificationRead \<equiv> ''notification.read''"
abbreviation "CapabilityNotificationManage \<equiv> ''notification.manage''"
abbreviation "CapabilityAuditRead \<equiv> ''audit.read''"
abbreviation "CapabilityAuditReadSensitive \<equiv> ''audit.read_sensitive''"

definition AllCapabilities :: "string list" where
  "AllCapabilities =
     [CapabilitySystemStatsRead, CapabilitySystemConfigRead, CapabilitySystemConfigWrite,
      CapabilityUserRead, CapabilityUserCreate, CapabilityUserUpdate, CapabilityUserLock,
      CapabilityUserPasswordReset, CapabilityUserTokensRevoke, CapabilityUserRoleAssign,
      CapabilityACLRead, CapabilityACLManage, CapabilitySourceRead, CapabilitySourceTest,
      CapabilitySourceCreate, CapabilitySourceUpdate, CapabilitySourceDelete,
      CapabilitySourceSecretRead, CapabilityTaskReadAll, CapabilityTaskManageAll,
      CapabilityShareReadAll, CapabilityShareManageAll, CapabilityRSSRead, CapabilityRSSManage,
      CapabilityNotificationRead, CapabilityNotificationManage, CapabilityAuditRead,
      CapabilityAuditReadSensitive]"

definition ResolveCapabilities :: "string \<Rightarrow> string list result" where
  "ResolveCapabilities roleKey =
     (if roleKey = RoleSuperAdmin then Inr AllCapabilities
      else if roleKey = RoleAdmin then Inr
        [CapabilitySystemStatsRead, CapabilitySystemConfigRead, CapabilitySystemConfigWrite,
         CapabilityUserRead, CapabilityUserCreate, CapabilityUserUpdate, CapabilityUserLock,
         CapabilityUserPasswordReset, CapabilityUserTokensRevoke, CapabilityUserRoleAssign,
         CapabilityACLRead, CapabilityACLManage, CapabilitySourceRead, CapabilitySourceTest,
         CapabilitySourceCreate, CapabilitySourceUpdate, CapabilitySourceDelete,
         CapabilityTaskReadAll, CapabilityTaskManageAll, CapabilityShareReadAll,
         CapabilityShareManageAll, CapabilityRSSRead, CapabilityRSSManage,
         CapabilityNotificationRead, CapabilityNotificationManage, CapabilityAuditRead]
      else if roleKey = RoleOperator then Inr
        [CapabilitySystemStatsRead, CapabilitySourceRead, CapabilitySourceTest,
         CapabilityTaskReadAll, CapabilityTaskManageAll, CapabilityRSSRead,
         CapabilityNotificationRead]
      else if roleKey = RoleUser then Inr []
      else Inl (ErrOther (''invalid role_key: '' @ roleKey)))"

section \<open>Checks\<close>

fun HasCapability :: "string list \<Rightarrow> string \<Rightarrow> bool" where
  "HasCapability [] target = False"
| "HasCapability (item # capabilities) target = (if item = target then True else HasCapability capabilities target)"

definition CanAssignRole :: "string \<Rightarrow> string \<Rightarrow> bool" where
  "CanAssignRole actorRoleKey targetRoleKey =
     (if actorRoleKey = RoleSuperAdmin then IsValidRole targetRoleKey
      else if actorRoleKey = RoleAdmin then targetRoleKey = RoleOperator \<or> targetRoleKey = RoleUser
      else False)"

definition CanManageTargetRole :: "string \<Rightarrow> string \<Rightarrow> bool" where
  "CanManageTargetRole actorRoleKey targetRoleKey =
     (if actorRoleKey = RoleSuperAdmin then IsValidRole targetRoleKey
      else if actorRoleKey = RoleAdmin then targetRoleKey = RoleOperator \<or> targetRoleKey = RoleUser
      else False)"

definition CanReadTask :: "nat \<Rightarrow> nat \<Rightarrow> string list \<Rightarrow> bool" where
  "CanReadTask actorUserID ownerID caps \<longleftrightarrow>
     actorUserID = ownerID \<or> HasCapability caps CapabilityTaskReadAll"

definition CanManageTask :: "nat \<Rightarrow> nat \<Rightarrow> string list \<Rightarrow> bool" where
  "CanManageTask actorUserID ownerID caps \<longleftrightarrow>
     actorUserID = ownerID \<or> HasCapability caps CapabilityTaskManageAll"

definition CanReadShare :: "nat \<Rightarrow> nat \<Rightarrow> string list \<Rightarrow> bool" where
  "CanReadShare actorUserID ownerID caps \<longleftrightarrow>
     actorUserID = ownerID \<or> HasCapability caps CapabilityShareReadAll"

definition CanManageShare :: "nat \<Rightarrow> nat \<Rightarrow> string list \<Rightarrow> bool" where
  "CanManageShare actorUserID ownerID caps \<longleftrightarrow>
     actorUserID = ownerID \<or> HasCapability caps CapabilityShareManageAll"

section \<open>Facts\<close>

lemma HasCapability_iff [simp]: "HasCapability caps c \<longleftrightarrow> c \<in> set caps"
  by (induction caps) auto

lemma ResolveCapabilities_valid: "(\<exists>caps. ResolveCapabilities r = Inr caps) \<longleftrightarrow> IsValidRole r"
  by (auto simp: ResolveCapabilities_def IsValidRole_def)

lemma CanAssignRole_valid: "CanAssignRole a t \<Longrightarrow> IsValidRole a \<and> IsValidRole t"
  by (auto simp: CanAssignRole_def IsValidRole_def split: if_splits)

text \<open>The capabilities of a role, as a set.\<close>

definition caps_of :: "string \<Rightarrow> string set" where
  "caps_of r = (case ResolveCapabilities r of Inl _ \<Rightarrow> {} | Inr cs \<Rightarrow> set cs)"

lemma caps_chain:
  "caps_of RoleUser \<subseteq> caps_of RoleOperator" "caps_of RoleOperator \<subseteq> caps_of RoleAdmin"
  "caps_of RoleAdmin \<subseteq> caps_of RoleSuperAdmin"
  by (simp_all add: caps_of_def ResolveCapabilities_def AllCapabilities_def)

section \<open>Properties\<close>

text \<open>Role assignment cannot escalate privileges: a role that may assign another one holds
  every capability of the role it assigns; no role but the super admin can assign its own
  role, and only roles that hold the capability to assign roles can assign any.\<close>

lemma assign_no_escalation:
  assumes "CanAssignRole actor target"
  shows "caps_of target \<subseteq> caps_of actor \<and> CapabilityUserRoleAssign \<in> caps_of actor \<and>
         (actor = target \<longrightarrow> actor = RoleSuperAdmin)"
proof -
  have "actor = RoleSuperAdmin \<and> IsValidRole target \<or>
        actor = RoleAdmin \<and> (target = RoleOperator \<or> target = RoleUser)"
    using assms by (auto simp: CanAssignRole_def split: if_splits)
  moreover have "CapabilityUserRoleAssign \<in> caps_of RoleSuperAdmin" "CapabilityUserRoleAssign \<in> caps_of RoleAdmin"
    by (simp_all add: caps_of_def ResolveCapabilities_def AllCapabilities_def)
  ultimately show ?thesis
    using caps_chain by (auto simp: IsValidRole_def)
qed

lemma assign_no_escalation_witness:
  "caps_of RoleOperator \<subseteq> caps_of RoleAdmin"
proof -
  have "CanAssignRole RoleAdmin RoleOperator" by code_simp
  from assign_no_escalation [OF this] show ?thesis by simp
qed

end
