(* ===== verification/ACL.thy ===== *)
theory ACL
  imports Paths Entities Permission
begin

text \<open>
  The run-time access check of \<^verbatim>\<open>acl_authorizer.go\<close>. The authorizer's collaborators (the
  repositories and the metadata reader, all of them Go interfaces that may be nil) are
  optional functions in the record \<open>ACLAuthorizer\<close>; the request's identity is a
  \<^typ>\<open>RequestAuth option\<close>. The evaluator carries its node cache, so every operation of it
  returns the evaluator with the new cache. Rules and nodes returned by a repository are
  never nil, so they are plain records.

  The specification at the end is declarative: among the rules of the user that match the
  target and contain the action, those of the highest priority decide, a deny overrides an
  allow, and without such a rule the access is denied.
\<close>

section \<open>Data\<close>

type_synonym ACLAction = string

abbreviation "ACLActionRead \<equiv> ''read''"
abbreviation "ACLActionWrite \<equiv> ''write''"
abbreviation "ACLActionDelete \<equiv> ''delete''"
abbreviation "ACLActionShare \<equiv> ''share''"

record ACLRuleFilter =
  flt_SourceID :: nat
  flt_Path :: string
  flt_VFSNodeID :: "nat option"
  flt_IncludeGlobal :: bool
  flt_AnySource :: bool

text \<open>The two operations of \<^verbatim>\<open>metadataVFSReader\<close> the authorizer calls.\<close>

record MetadataReader =
  rd_ResolveNode :: "string \<Rightarrow> VFSNode option result"
  rd_ResolveNodeByID :: "nat \<Rightarrow> VFSNode option result"

record ACLAuthorizer =
  az_systemConfigRepo :: "SystemConfig result option"
  az_aclRepo :: "(ACLRuleFilter \<Rightarrow> ACLRule list result) option"
  az_sourceRepo :: "(nat \<Rightarrow> StorageSource result) option"
  az_metadataReader :: "MetadataReader option"

record aclEvaluator =
  ev_bypass :: bool
  ev_userID :: nat
  ev_sourceID :: nat
  ev_rules :: "ACLRule list"
  ev_mountPath :: string
  ev_metadataReader :: "MetadataReader option"
  ev_nodeCache :: "nat \<rightharpoonup> VFSNode option"

section \<open>The rule repository's query\<close>

text \<open>
  \<^verbatim>\<open>ACLRuleRepository.List\<close> over the rows of the table.
\<close>

definition rule_selected :: "ACLRuleFilter \<Rightarrow> ACLRule \<Rightarrow> bool" where
  "rule_selected filt r \<longleftrightarrow>
     (if flt_AnySource filt then True
      else if flt_IncludeGlobal filt \<and> flt_SourceID filt \<noteq> 0
           then rule_SourceID r = flt_SourceID filt \<or> rule_SourceID r = 0
      else rule_SourceID r = flt_SourceID filt) \<and>
     (let p = TrimSpace (flt_Path filt) in p \<noteq> [] \<longrightarrow> rule_Path r = p) \<and>
     (case flt_VFSNodeID filt of None \<Rightarrow> True | Some n \<Rightarrow> rule_VFSNodeID r = Some n)"

definition ACLRule_List :: "ACLRule list \<Rightarrow> ACLRuleFilter \<Rightarrow> ACLRule list" where
  "ACLRule_List rows filt =
     sort_key (\<lambda>r. (- rule_Priority r, rule_ID r)) (filter (rule_selected filt) rows)"

section \<open>Matching rules\<close>

definition ruleMatchesNode :: "ACLRule \<Rightarrow> VFSNode \<Rightarrow> VFSNode \<Rightarrow> bool" where
  "ruleMatchesNode rule ruleNode targetNode =
     (if node_ID ruleNode = node_ID targetNode then True
      else if \<not> rule_InheritToChildren rule then False
      else isSubPath (node_Path ruleNode) (node_Path targetNode))"

definition ruleMatchesNodePath :: "ACLRule \<Rightarrow> VFSNode \<Rightarrow> string \<Rightarrow> bool" where
  "ruleMatchesNodePath rule ruleNode targetVirtualPath =
     (if node_Path ruleNode = targetVirtualPath then True
      else if \<not> rule_InheritToChildren rule then False
      else isSubPath (node_Path ruleNode) targetVirtualPath)"

definition ruleMatchesPath :: "ACLRule \<Rightarrow> string \<Rightarrow> string \<Rightarrow> bool" where
  "ruleMatchesPath rule targetPath targetVirtualPath =
     (let rulePath0 = TrimSpace (rule_VirtualPath rule);
          rulePath = (if rulePath0 = [] then TrimSpace (rule_Path rule) else rulePath0);
          target = (if rulePath0 = [] then targetPath else targetVirtualPath)
      in if rulePath = target then True
         else if \<not> rule_InheritToChildren rule then False
         else if rulePath = ''/'' then HasPrefix target ''/''
         else HasPrefix target (TrimSuffix rulePath ''/'' @ ''/''))"

definition ruleContainsAction :: "ACLRule \<Rightarrow> ACLAction \<Rightarrow> bool" where
  "ruleContainsAction rule action =
     (if action = ACLActionRead then rule_Read rule
      else if action = ACLActionWrite then rule_Write rule
      else if action = ACLActionDelete then rule_Delete rule
      else if action = ACLActionShare then rule_Share rule
      else False)"

definition aclActionsForRule :: "ACLRule \<Rightarrow> ACLAction list" where
  "aclActionsForRule rule =
     (if rule_Read rule then [ACLActionRead] else []) @
     (if rule_Write rule then [ACLActionWrite] else []) @
     (if rule_Delete rule then [ACLActionDelete] else []) @
     (if rule_Share rule then [ACLActionShare] else [])"

definition resolveRuleNode :: "nat \<Rightarrow> aclEvaluator \<Rightarrow> VFSNode option \<times> aclEvaluator" where
  "resolveRuleNode nodeID e =
     (case ev_metadataReader e of
        None \<Rightarrow> (None, e)
      | Some rd \<Rightarrow>
          if nodeID = 0 then (None, e)
          else (case ev_nodeCache e nodeID of
              Some cached \<Rightarrow> (cached, e)
            | None \<Rightarrow>
                (let node = (case rd_ResolveNodeByID rd nodeID of
                     Inr (Some n) \<Rightarrow> if node_IsDeleted n then None else Some n
                   | _ \<Rightarrow> None)
                 in (node, e\<lparr>ev_nodeCache := (ev_nodeCache e)(nodeID \<mapsto> node)\<rparr>))))"

definition resolveTargetNodeBestEffort :: "string \<Rightarrow> nat \<Rightarrow> aclEvaluator \<Rightarrow> VFSNode option \<times> aclEvaluator" where
  "resolveTargetNodeBestEffort virtualPath nodeID e =
     (case ev_metadataReader e of
        None \<Rightarrow> (None, e)
      | Some rd \<Rightarrow>
          if nodeID \<noteq> 0 then resolveRuleNode nodeID e
          else if_errp (normalizeVirtualPath virtualPath) (\<lambda>_. (None, e)) (\<lambda>p.
            ((case rd_ResolveNode rd p of
                Inr (Some n) \<Rightarrow> if node_IsDeleted n then None else Some n
              | _ \<Rightarrow> None), e)))"

definition ruleMatchesTarget ::
  "ACLRule \<Rightarrow> string \<Rightarrow> string \<Rightarrow> VFSNode option \<Rightarrow> aclEvaluator \<Rightarrow> bool \<times> aclEvaluator" where
  "ruleMatchesTarget rule targetPath targetVirtualPath targetNode e =
     (case rule_VFSNodeID rule of
        Some nodeID \<Rightarrow>
          (if ev_metadataReader e = None then (ruleMatchesPath rule targetPath targetVirtualPath, e)
           else
             (case resolveRuleNode nodeID e of
                (None, e') \<Rightarrow> (False, e')
              | (Some ruleNode, e') \<Rightarrow>
                  (case targetNode of
                     Some t \<Rightarrow> (ruleMatchesNode rule ruleNode t, e')
                   | None \<Rightarrow> (ruleMatchesNodePath rule ruleNode targetVirtualPath, e'))))
      | None \<Rightarrow> (ruleMatchesPath rule targetPath targetVirtualPath, e))"

section \<open>The decision\<close>

text \<open>The loop of \<^verbatim>\<open>allowTarget\<close>, with its variables \<^verbatim>\<open>matchedPriority\<close> and \<^verbatim>\<open>allowMatched\<close>.\<close>

fun allow_loop ::
  "string \<Rightarrow> string \<Rightarrow> VFSNode option \<Rightarrow> ACLAction \<Rightarrow> ACLRule list \<Rightarrow> int option \<Rightarrow> bool \<Rightarrow>
   aclEvaluator \<Rightarrow> bool \<times> aclEvaluator" where
  "allow_loop tp tvp tn action [] matchedPriority allowMatched e = (allowMatched, e)"
| "allow_loop tp tvp tn action (rule # rules) matchedPriority allowMatched e =
     (if rule_SubjectType rule \<noteq> ''user'' \<or> rule_SubjectID rule \<noteq> ev_userID e
      then allow_loop tp tvp tn action rules matchedPriority allowMatched e
      else
        case ruleMatchesTarget rule tp tvp tn e of (matches, e') \<Rightarrow>
          if \<not> matches then allow_loop tp tvp tn action rules matchedPriority allowMatched e'
          else if \<not> ruleContainsAction rule action
               then allow_loop tp tvp tn action rules matchedPriority allowMatched e'
          else if (case matchedPriority of Some p \<Rightarrow> rule_Priority rule < p | None \<Rightarrow> False)
               then (allowMatched, e')
          else
            let mp = (case matchedPriority of None \<Rightarrow> Some (rule_Priority rule) | Some p \<Rightarrow> Some p)
            in if TrimSpace (rule_Effect rule) = ''deny'' then (False, e')
               else if TrimSpace (rule_Effect rule) = ''allow''
                    then allow_loop tp tvp tn action rules mp True e'
               else allow_loop tp tvp tn action rules mp allowMatched e')"

text \<open>\<^verbatim>\<open>allowTarget\<close> never returns an error.\<close>

definition allowTarget ::
  "string \<Rightarrow> string \<Rightarrow> VFSNode option \<Rightarrow> ACLAction \<Rightarrow> aclEvaluator \<Rightarrow> bool \<times> aclEvaluator" where
  "allowTarget targetPath targetVirtualPath targetNode action e =
     allow_loop targetPath targetVirtualPath targetNode action (ev_rules e) None False e"

definition allowPath :: "string \<Rightarrow> ACLAction \<Rightarrow> (aclEvaluator, bool) handler" where
  "allowPath pathValue action e =
     (if ev_bypass e then (Inr True, e)
      else if_errp (normalizeVirtualPath pathValue) (\<lambda>_. (Inl ErrPathInvalid, e)) (\<lambda>normalizedPath.
        let merged = mergeMountAndInnerPath (ev_mountPath e) normalizedPath;
            targetVirtualPath = (if merged = [] then normalizedPath else merged)
        in case resolveTargetNodeBestEffort targetVirtualPath 0 e of (targetNode, e') \<Rightarrow>
           case allowTarget normalizedPath targetVirtualPath targetNode action e' of (b, e'') \<Rightarrow>
             (Inr b, e'')))"

definition allowVirtualPathWithNodeID :: "string \<Rightarrow> nat \<Rightarrow> ACLAction \<Rightarrow> (aclEvaluator, bool) handler" where
  "allowVirtualPathWithNodeID virtualPath nodeID action e =
     (if ev_bypass e then (Inr True, e)
      else if_errp (normalizeVirtualPath virtualPath) (\<lambda>_. (Inl ErrPathInvalid, e)) (\<lambda>normalizedVirtualPath.
        let mount = (case normalizeMountPath (ev_mountPath e) of
                       Inr m \<Rightarrow> if m \<noteq> ''/'' then Some m else None | Inl _ \<Rightarrow> None)
        in case mount of
             Some m \<Rightarrow>
               (if \<not> isSubPath m normalizedVirtualPath then (Inr False, e)
                else
                  let inner0 = TrimPrefix normalizedVirtualPath m;
                      innerPath = (if inner0 = [] then ''/'' else inner0)
                  in case resolveTargetNodeBestEffort normalizedVirtualPath nodeID e of (targetNode, e') \<Rightarrow>
                     case allowTarget innerPath normalizedVirtualPath targetNode action e' of (b, e'') \<Rightarrow>
                       (Inr b, e''))
           | None \<Rightarrow>
               (case resolveTargetNodeBestEffort normalizedVirtualPath nodeID e of (targetNode, e') \<Rightarrow>
                case allowTarget normalizedVirtualPath normalizedVirtualPath targetNode action e' of (b, e'') \<Rightarrow>
                  (Inr b, e''))))"

definition allowVirtualPath :: "string \<Rightarrow> ACLAction \<Rightarrow> (aclEvaluator, bool) handler" where
  "allowVirtualPath virtualPath action = allowVirtualPathWithNodeID virtualPath 0 action"

section \<open>Building the evaluator\<close>

definition zeroEvaluator :: aclEvaluator where
  "zeroEvaluator = \<lparr>ev_bypass = False, ev_userID = 0, ev_sourceID = 0, ev_rules = [],
     ev_mountPath = [], ev_metadataReader = None, ev_nodeCache = Map.empty\<rparr>"

definition evaluatorMountPath :: "ACLAuthorizer \<Rightarrow> nat \<Rightarrow> string result" where
  "evaluatorMountPath a sourceID =
     (case az_sourceRepo a of
        Some FindByID \<Rightarrow>
          (if sourceID \<noteq> 0 then
             tryp (FindByID sourceID) (\<lambda>source.
               Inr (if src_MountPath source \<noteq> [] then src_MountPath source else ''/''))
           else Inr ''/'')
      | None \<Rightarrow> Inr ''/'')"

definition newEvaluator :: "ACLAuthorizer option \<Rightarrow> RequestAuth option \<Rightarrow> nat \<Rightarrow> aclEvaluator result" where
  "newEvaluator az ctx sourceID =
     (case az of
        None \<Rightarrow> Inr (zeroEvaluator\<lparr>ev_bypass := True\<rparr>)
      | Some a \<Rightarrow>
          (case (az_systemConfigRepo a, az_aclRepo a) of
             (Some getConfig, Some listRules) \<Rightarrow>
               (case ctx of
                  None \<Rightarrow> Inr (zeroEvaluator\<lparr>ev_bypass := True\<rparr>)
                | Some auth \<Rightarrow>
                    if auth_RoleKey auth = RoleSuperAdmin then Inr (zeroEvaluator\<lparr>ev_bypass := True\<rparr>)
                    else
                      tryp (listRules \<lparr>flt_SourceID = sourceID, flt_Path = [], flt_VFSNodeID = None,
                                       flt_IncludeGlobal = True, flt_AnySource = False\<rparr>) (\<lambda>rules.
                      if_errp getConfig
                        (\<lambda>err. if errors_Is err ErrNotFound
                               then Inr (zeroEvaluator\<lparr>ev_bypass := (rules = [])\<rparr>) else Inl err)
                        (\<lambda>cfg.
                           if \<not> cfg_MultiUserEnabled cfg \<and> rules = []
                           then Inr (zeroEvaluator\<lparr>ev_bypass := True\<rparr>)
                           else
                             tryp (evaluatorMountPath a sourceID) (\<lambda>mountPath.
                               Inr \<lparr>ev_bypass = False, ev_userID = auth_UserID auth,
                                    ev_sourceID = sourceID, ev_rules = rules, ev_mountPath = mountPath,
                                    ev_metadataReader = az_metadataReader a,
                                    ev_nodeCache = Map.empty\<rparr>))))
           | _ \<Rightarrow> Inr (zeroEvaluator\<lparr>ev_bypass := True\<rparr>)))"

definition AuthorizePath ::
  "ACLAuthorizer option \<Rightarrow> RequestAuth option \<Rightarrow> nat \<Rightarrow> string \<Rightarrow> ACLAction \<Rightarrow> unit result" where
  "AuthorizePath az ctx sourceID pathValue action =
     tryp (newEvaluator az ctx sourceID) (\<lambda>e.
     tryp (fst (allowPath pathValue action e)) (\<lambda>allowed.
       if \<not> allowed then Inl ErrACLDenied else Inr ()))"

definition AuthorizeVirtualPath ::
  "ACLAuthorizer option \<Rightarrow> RequestAuth option \<Rightarrow> nat \<Rightarrow> string \<Rightarrow> nat \<Rightarrow> ACLAction \<Rightarrow> unit result" where
  "AuthorizeVirtualPath az ctx sourceID virtualPath nodeID action =
     tryp (newEvaluator az ctx sourceID) (\<lambda>e.
     tryp (fst (allowVirtualPathWithNodeID virtualPath nodeID action e)) (\<lambda>allowed.
       if \<not> allowed then Inl ErrACLDenied else Inr ()))"

section \<open>Filtering listings\<close>

fun filter_file_loop :: "FileItem list \<Rightarrow> (aclEvaluator, FileItem list) handler" where
  "filter_file_loop [] = ret []"
| "filter_file_loop (item # items) =
     tryM (allowPath (fi_Path item) ACLActionRead) (\<lambda>allowed.
       if \<not> allowed then filter_file_loop items
       else
         tryM (allowPath (fi_Path item) ACLActionDelete) (\<lambda>deleteAllowed.
         tryM (filter_file_loop items) (\<lambda>filtered.
           ret (item\<lparr>fi_CanDelete := fi_CanDelete item \<and> deleteAllowed,
                     fi_CanDownload := fi_CanDownload item \<and> \<not> fi_IsDir item\<rparr> # filtered))))"

definition FilterFileItems ::
  "ACLAuthorizer option \<Rightarrow> RequestAuth option \<Rightarrow> nat \<Rightarrow> FileItem list \<Rightarrow> FileItem list result" where
  "FilterFileItems az ctx sourceID items =
     tryp (newEvaluator az ctx sourceID) (\<lambda>e.
       if ev_bypass e then Inr items else fst (filter_file_loop items e))"

abbreviation "VirtualEntryKindFile \<equiv> ''file''"

fun filter_vfs_loop :: "VFSItem list \<Rightarrow> (aclEvaluator, VFSItem list) handler" where
  "filter_vfs_loop [] = ret []"
| "filter_vfs_loop (item # items) =
     tryM (allowVirtualPathWithNodeID (vi_Path item) (vi_ID item) ACLActionRead) (\<lambda>allowed.
       if \<not> allowed then filter_vfs_loop items
       else
         tryM (allowVirtualPathWithNodeID (vi_Path item) (vi_ID item) ACLActionDelete) (\<lambda>deleteAllowed.
         tryM (filter_vfs_loop items) (\<lambda>filtered.
           ret (item\<lparr>vi_CanDelete := vi_CanDelete item \<and> deleteAllowed,
                     vi_CanDownload := vi_CanDownload item \<and> vi_EntryKind item = VirtualEntryKindFile\<rparr> # filtered))))"

definition FilterVFSItems ::
  "ACLAuthorizer option \<Rightarrow> RequestAuth option \<Rightarrow> nat \<Rightarrow> VFSItem list \<Rightarrow> VFSItem list result" where
  "FilterVFSItems az ctx sourceID items =
     tryp (newEvaluator az ctx sourceID) (\<lambda>e.
       if ev_bypass e then Inr items else fst (filter_vfs_loop items e))"

section \<open>Source visibility\<close>

definition innerPathForVirtualPath :: "aclEvaluator \<Rightarrow> string \<Rightarrow> string" where
  "innerPathForVirtualPath e virtualPath =
     if_errp (normalizeVirtualPath virtualPath) (\<lambda>_. virtualPath) (\<lambda>normalizedPath.
       if_errp (normalizeMountPath (ev_mountPath e)) (\<lambda>_. normalizedPath) (\<lambda>m.
         if m \<noteq> ''/'' \<and> isSubPath m normalizedPath then
           let innerPath = TrimPrefix normalizedPath m
           in if innerPath = [] then ''/''
              else if \<not> HasPrefix innerPath ''/'' then ''/'' @ innerPath
              else innerPath
         else normalizedPath))"

definition currentRuleVirtualPath :: "ACLRule \<Rightarrow> aclEvaluator \<Rightarrow> string \<times> aclEvaluator" where
  "currentRuleVirtualPath rule e =
     (let fallback = (\<lambda>e'.
            if TrimSpace (rule_VirtualPath rule) \<noteq> [] then TrimSpace (rule_VirtualPath rule)
            else
              let rulePath = TrimSpace (rule_Path rule);
                  merged = mergeMountAndInnerPath (ev_mountPath e') rulePath
              in if rule_SourceID rule \<noteq> 0 \<and> rule_SourceID rule = ev_sourceID e' \<and> merged \<noteq> []
                 then merged else rulePath)
      in case rule_VFSNodeID rule of
           Some nodeID \<Rightarrow>
             (case resolveRuleNode nodeID e of
                (Some node, e') \<Rightarrow> (node_Path node, e')
              | (None, e') \<Rightarrow> (fallback e', e'))
         | None \<Rightarrow> (fallback e, e))"

definition sourceExposureVirtualPath :: "ACLRule \<Rightarrow> aclEvaluator \<Rightarrow> string \<times> aclEvaluator" where
  "sourceExposureVirtualPath rule e =
     (case currentRuleVirtualPath rule e of (rulePath, e') \<Rightarrow>
        if rulePath = [] then ([], e')
        else
          let mountPath = (if ev_mountPath e' = [] then ''/'' else ev_mountPath e')
          in if isSubPath rulePath mountPath then (mountPath, e')
             else if isSubPath mountPath rulePath then (rulePath, e')
             else ([], e'))"

definition ruleCanExposeSource :: "ACLRule \<Rightarrow> aclEvaluator \<Rightarrow> bool \<times> aclEvaluator" where
  "ruleCanExposeSource rule e =
     (if rule_SourceID rule \<noteq> 0 \<and> rule_SourceID rule \<noteq> ev_sourceID e then (False, e)
      else case sourceExposureVirtualPath rule e of (p, e') \<Rightarrow> (p \<noteq> [], e'))"

fun any_action_allowed ::
  "string \<Rightarrow> string \<Rightarrow> VFSNode option \<Rightarrow> ACLAction list \<Rightarrow> aclEvaluator \<Rightarrow> bool \<times> aclEvaluator" where
  "any_action_allowed tp tvp tn [] e = (False, e)"
| "any_action_allowed tp tvp tn (action # actions) e =
     (case allowTarget tp tvp tn action e of (allowed, e') \<Rightarrow>
        if allowed then (True, e') else any_action_allowed tp tvp tn actions e')"

definition ruleEffectivelyAllowsSourceExposure :: "ACLRule \<Rightarrow> aclEvaluator \<Rightarrow> bool \<times> aclEvaluator" where
  "ruleEffectivelyAllowsSourceExposure rule e =
     (case ruleCanExposeSource rule e of (can, e1) \<Rightarrow>
        if \<not> can then (False, e1)
        else case sourceExposureVirtualPath rule e1 of (exposurePath, e2) \<Rightarrow>
          if exposurePath = [] then (False, e2)
          else
            let targetPath = innerPathForVirtualPath e2 exposurePath
            in case resolveTargetNodeBestEffort exposurePath 0 e2 of (targetNode, e3) \<Rightarrow>
                 any_action_allowed targetPath exposurePath targetNode (aclActionsForRule rule) e3)"

fun see_source_loop :: "ACLRule list \<Rightarrow> aclEvaluator \<Rightarrow> bool \<times> aclEvaluator" where
  "see_source_loop [] e = (False, e)"
| "see_source_loop (rule # rules) e =
     (if rule_SubjectType rule \<noteq> ''user'' \<or> rule_SubjectID rule \<noteq> ev_userID e then see_source_loop rules e
      else if TrimSpace (rule_Effect rule) \<noteq> ''allow'' then see_source_loop rules e
      else if \<not> (rule_Read rule \<or> rule_Write rule \<or> rule_Delete rule \<or> rule_Share rule)
           then see_source_loop rules e
      else case ruleEffectivelyAllowsSourceExposure rule e of (b, e') \<Rightarrow>
             if b then (True, e') else see_source_loop rules e')"

definition CanSeeSource :: "ACLAuthorizer option \<Rightarrow> RequestAuth option \<Rightarrow> nat \<Rightarrow> bool result" where
  "CanSeeSource az ctx sourceID =
     tryp (newEvaluator az ctx sourceID) (\<lambda>e.
       if ev_bypass e then Inr True else Inr (fst (see_source_loop (ev_rules e) e)))"

section \<open>The node cache is transparent\<close>

text \<open>What the reader says about a node, without the cache.\<close>

definition rule_node :: "MetadataReader option \<Rightarrow> nat \<Rightarrow> VFSNode option" where
  "rule_node rd nodeID =
     (case rd of
        None \<Rightarrow> None
      | Some r \<Rightarrow> if nodeID = 0 then None
          else (case rd_ResolveNodeByID r nodeID of
                  Inr (Some n) \<Rightarrow> if node_IsDeleted n then None else Some n
                | _ \<Rightarrow> None))"

definition target_node :: "MetadataReader option \<Rightarrow> string \<Rightarrow> nat \<Rightarrow> VFSNode option" where
  "target_node rd virtualPath nodeID =
     (case rd of
        None \<Rightarrow> None
      | Some r \<Rightarrow> if nodeID \<noteq> 0 then rule_node rd nodeID
          else if_errp (normalizeVirtualPath virtualPath) (\<lambda>_. None) (\<lambda>p.
            case rd_ResolveNode r p of
              Inr (Some n) \<Rightarrow> if node_IsDeleted n then None else Some n
            | _ \<Rightarrow> None))"

definition rule_matches ::
  "MetadataReader option \<Rightarrow> string \<Rightarrow> string \<Rightarrow> VFSNode option \<Rightarrow> ACLRule \<Rightarrow> bool" where
  "rule_matches rd targetPath targetVirtualPath targetNode rule \<longleftrightarrow>
     (case (rule_VFSNodeID rule, rd) of
        (Some nodeID, Some _) \<Rightarrow>
          (case (rule_node rd nodeID, targetNode) of
             (None, _) \<Rightarrow> False
           | (Some n, Some t) \<Rightarrow> ruleMatchesNode rule n t
           | (Some n, None) \<Rightarrow> ruleMatchesNodePath rule n targetVirtualPath)
      | _ \<Rightarrow> ruleMatchesPath rule targetPath targetVirtualPath)"

definition cache_ok :: "aclEvaluator \<Rightarrow> bool" where
  "cache_ok e \<longleftrightarrow> (\<forall>i v. ev_nodeCache e i = Some v \<longrightarrow> v = rule_node (ev_metadataReader e) i)"

text \<open>\<open>e'\<close> is \<open>e\<close> up to what its cache has learnt.\<close>

definition same_env :: "aclEvaluator \<Rightarrow> aclEvaluator \<Rightarrow> bool" where
  "same_env e e' \<longleftrightarrow> cache_ok e' \<and> (\<exists>c. e' = e\<lparr>ev_nodeCache := c\<rparr>)"

lemma same_env_refl [simp]: "same_env e e \<longleftrightarrow> cache_ok e"
  by (auto simp: same_env_def intro: exI [of _ "ev_nodeCache e"])

lemma same_env_trans: "same_env e e' \<Longrightarrow> same_env e' e'' \<Longrightarrow> same_env e e''"
  by (auto simp: same_env_def)

lemma same_env_cache_ok: "same_env e e' \<Longrightarrow> cache_ok e'"
  by (simp add: same_env_def)

lemma same_env_fields:
  assumes "same_env e e'"
  shows "ev_bypass e' = ev_bypass e" "ev_userID e' = ev_userID e" "ev_sourceID e' = ev_sourceID e"
    "ev_rules e' = ev_rules e" "ev_mountPath e' = ev_mountPath e"
    "ev_metadataReader e' = ev_metadataReader e"
  using assms by (auto simp: same_env_def)

lemmas same_env_facts = same_env_cache_ok same_env_fields same_env_trans

lemma resolveRuleNode_pure:
  assumes "cache_ok e"
  shows "fst (resolveRuleNode i e) = rule_node (ev_metadataReader e) i \<and> same_env e (snd (resolveRuleNode i e))"
proof (cases "ev_metadataReader e")
  case (Some rd)
  show ?thesis
  proof (cases "ev_nodeCache e i")
    case None
    then have "resolveRuleNode i e = (rule_node (ev_metadataReader e) i,
        if i = 0 then e else e\<lparr>ev_nodeCache := (ev_nodeCache e)(i \<mapsto> rule_node (ev_metadataReader e) i)\<rparr>)"
      using Some by (simp add: resolveRuleNode_def rule_node_def Let_def)
    then show ?thesis
      using assms same_env_refl [of e] by (cases "i = 0") (auto simp: same_env_def cache_ok_def)
  next
    case (Some v)
    then have "v = rule_node (ev_metadataReader e) i" using assms by (simp add: cache_ok_def)
    then show ?thesis
      using assms Some by (auto simp: resolveRuleNode_def rule_node_def split: option.split)
  qed
qed (use assms in \<open>simp add: resolveRuleNode_def rule_node_def\<close>)

lemma resolveTargetNode_pure:
  assumes "cache_ok e"
  shows "fst (resolveTargetNodeBestEffort p i e) = target_node (ev_metadataReader e) p i \<and>
         same_env e (snd (resolveTargetNodeBestEffort p i e))"
  using assms resolveRuleNode_pure [OF assms, of i]
  by (cases "ev_metadataReader e"; cases "normalizeVirtualPath p")
     (simp_all add: resolveTargetNodeBestEffort_def target_node_def)

lemma ruleMatchesTarget_pure:
  assumes "cache_ok e"
  shows "fst (ruleMatchesTarget rule tp tvp tn e) = rule_matches (ev_metadataReader e) tp tvp tn rule \<and>
         same_env e (snd (ruleMatchesTarget rule tp tvp tn e))"
  using assms resolveRuleNode_pure [OF assms, of "the (rule_VFSNodeID rule)"]
  by (auto simp: ruleMatchesTarget_def rule_matches_def split: option.splits prod.splits)

section \<open>The decision, declaratively\<close>

text \<open>The rules that take part: of the user, matching the target, for the action.\<close>

definition applies :: "nat \<Rightarrow> ACLAction \<Rightarrow> (ACLRule \<Rightarrow> bool) \<Rightarrow> ACLRule \<Rightarrow> bool" where
  "applies uid action matches rule \<longleftrightarrow>
     rule_SubjectType rule = ''user'' \<and> rule_SubjectID rule = uid \<and> matches rule \<and>
     ruleContainsAction rule action"

abbreviation denies :: "ACLRule \<Rightarrow> bool" where
  "denies r \<equiv> TrimSpace (rule_Effect r) = ''deny''"

abbreviation allows :: "ACLRule \<Rightarrow> bool" where
  "allows r \<equiv> TrimSpace (rule_Effect r) = ''allow''"

definition acl_decision :: "(ACLRule \<Rightarrow> bool) \<Rightarrow> ACLRule set \<Rightarrow> bool" where
  "acl_decision app R \<longleftrightarrow>
     (\<exists>r \<in> R. app r \<and> allows r \<and>
        (\<forall>r' \<in> R. app r' \<longrightarrow>
           rule_Priority r' < rule_Priority r \<or> rule_Priority r' = rule_Priority r \<and> \<not> denies r'))"

lemma acl_decision_top:
  assumes "t \<in> R" "app t" "\<forall>r \<in> R. rule_Priority r \<le> rule_Priority t"
  shows "acl_decision app R \<longleftrightarrow>
     (\<forall>r \<in> R. app r \<and> rule_Priority r = rule_Priority t \<longrightarrow> \<not> denies r) \<and>
     (\<exists>r \<in> R. app r \<and> rule_Priority r = rule_Priority t \<and> allows r)" (is "?l \<longleftrightarrow> ?r")
proof
  assume ?l
  then obtain r where r: "r \<in> R" "app r" "allows r" and
    other: "\<forall>r' \<in> R. app r' \<longrightarrow>
      rule_Priority r' < rule_Priority r \<or> rule_Priority r' = rule_Priority r \<and> \<not> denies r'"
    unfolding acl_decision_def by blast
  have eq: "rule_Priority r = rule_Priority t" using assms r(1) other by fastforce
  show ?r
  proof (intro conjI ballI impI)
    fix r' assume "r' \<in> R" "app r' \<and> rule_Priority r' = rule_Priority t"
    then show "\<not> denies r'" using other eq by force
  next
    show "\<exists>r \<in> R. app r \<and> rule_Priority r = rule_Priority t \<and> allows r" using r eq by blast
  qed
next
  assume r: ?r
  then obtain r where "r \<in> R" "app r" "rule_Priority r = rule_Priority t" "allows r" by blast
  moreover have "rule_Priority r' < rule_Priority t \<or> rule_Priority r' = rule_Priority t \<and> \<not> denies r'"
    if "r' \<in> R" "app r'" for r'
    using r that assms(3) by (meson order_le_less)
  ultimately show ?l unfolding acl_decision_def by metis
qed

lemma allow_loop_env:
  "cache_ok e \<Longrightarrow> same_env e (snd (allow_loop tp tvp tn action rules mp am e))"
proof (induction rules arbitrary: mp am e)
  case (Cons rule rules)
  obtain b e' where m: "ruleMatchesTarget rule tp tvp tn e = (b, e')" by force
  have e': "same_env e e'" using ruleMatchesTarget_pure [OF Cons.prems, of rule tp tvp tn] m by simp
  have "same_env e (snd (allow_loop tp tvp tn action rules mp' am' e'))" for mp' am'
    using Cons.IH [of e'] e' same_env_facts by blast
  then show ?case using Cons m e' by (simp add: Let_def)
qed simp

text \<open>Once a priority \<open>p\<close> has matched, only the rules of that priority matter.\<close>

lemma allow_loop_Some:
  assumes "cache_ok e" "sorted_wrt (\<lambda>a b. rule_Priority b \<le> rule_Priority a) rules"
    and "\<forall>r \<in> set rules. rule_Priority r \<le> p"
  shows "fst (allow_loop tp tvp tn action rules (Some p) am e) \<longleftrightarrow>
     (\<forall>r \<in> set rules. applies (ev_userID e) action (rule_matches (ev_metadataReader e) tp tvp tn) r \<and>
        rule_Priority r = p \<longrightarrow> \<not> denies r) \<and>
     (am \<or> (\<exists>r \<in> set rules. applies (ev_userID e) action (rule_matches (ev_metadataReader e) tp tvp tn) r \<and>
        rule_Priority r = p \<and> allows r))"
  using assms
proof (induction rules arbitrary: am e)
  case (Cons rule rules)
  let ?app = "applies (ev_userID e) action (rule_matches (ev_metadataReader e) tp tvp tn)"
  obtain b e' where m: "ruleMatchesTarget rule tp tvp tn e = (b, e')" by force
  have b: "b = rule_matches (ev_metadataReader e) tp tvp tn rule" and e': "same_env e e'"
    using ruleMatchesTarget_pure [OF Cons.prems(1), of rule tp tvp tn] m by simp_all
  note IH = Cons.IH [of e] Cons.IH [of e', unfolded same_env_fields [OF e']]
  have low: "\<forall>r \<in> set rules. rule_Priority r < p" if "rule_Priority rule < p"
    using Cons.prems(2) that by fastforce
  show ?case
  proof (cases "?app rule")
    case False
    then show ?thesis
      using IH Cons.prems e' b m
      by (auto simp: applies_def same_env_cache_ok)
  next
    case True
    then show ?thesis
      using IH Cons.prems e' b m low
      by (cases "rule_Priority rule < p"; cases "denies rule")
         (auto simp: applies_def same_env_cache_ok Let_def)
  qed
qed simp

lemma allow_loop_None:
  assumes "cache_ok e" "sorted_wrt (\<lambda>a b. rule_Priority b \<le> rule_Priority a) rules"
  shows "fst (allow_loop tp tvp tn action rules None False e) \<longleftrightarrow>
     acl_decision (applies (ev_userID e) action (rule_matches (ev_metadataReader e) tp tvp tn)) (set rules)"
  using assms
proof (induction rules arbitrary: e)
  case (Cons rule rules)
  let ?app = "applies (ev_userID e) action (rule_matches (ev_metadataReader e) tp tvp tn)"
  obtain b e' where m: "ruleMatchesTarget rule tp tvp tn e = (b, e')" by force
  have b: "b = rule_matches (ev_metadataReader e) tp tvp tn rule" and e': "same_env e e'"
    using ruleMatchesTarget_pure [OF Cons.prems(1), of rule tp tvp tn] m by simp_all
  note IH = Cons.IH [of e] Cons.IH [of e', unfolded same_env_fields [OF e']]
  show ?case
  proof (cases "?app rule")
    case False
    then have skip: "acl_decision ?app (set (rule # rules)) = acl_decision ?app (set rules)"
      by (auto simp: acl_decision_def)
    have sorted: "sorted_wrt (\<lambda>a b. rule_Priority b \<le> rule_Priority a) rules"
      using Cons.prems(2) by simp
    have "fst (allow_loop tp tvp tn action (rule # rules) None False e) =
        fst (allow_loop tp tvp tn action rules None False e) \<or>
      fst (allow_loop tp tvp tn action (rule # rules) None False e) =
        fst (allow_loop tp tvp tn action rules None False e')"
      using False b m by (auto simp: applies_def)
    then show ?thesis
      unfolding skip
      using IH(1) [OF Cons.prems(1) sorted] IH(2) [OF same_env_cache_ok [OF e'] sorted] by metis
  next
    case True
    let ?p = "rule_Priority rule"
    have le: "\<forall>r \<in> set rules. rule_Priority r \<le> ?p" using Cons.prems(2) by simp
    have rest: "fst (allow_loop tp tvp tn action rules (Some ?p) am e') \<longleftrightarrow>
        (\<forall>r \<in> set rules. ?app r \<and> rule_Priority r = ?p \<longrightarrow> \<not> denies r) \<and>
        (am \<or> (\<exists>r \<in> set rules. ?app r \<and> rule_Priority r = ?p \<and> allows r))" for am
      using allow_loop_Some [OF same_env_cache_ok [OF e'] _ le] Cons.prems(2)
      by (simp add: same_env_fields [OF e'])
    have dec: "acl_decision ?app (set (rule # rules)) \<longleftrightarrow> \<not> denies rule \<and>
        (\<forall>r \<in> set rules. ?app r \<and> rule_Priority r = ?p \<longrightarrow> \<not> denies r) \<and>
        (allows rule \<or> (\<exists>r \<in> set rules. ?app r \<and> rule_Priority r = ?p \<and> allows r))"
    proof -
      have "acl_decision ?app (set (rule # rules)) \<longleftrightarrow>
          (\<forall>r \<in> set (rule # rules). ?app r \<and> rule_Priority r = ?p \<longrightarrow> \<not> denies r) \<and>
          (\<exists>r \<in> set (rule # rules). ?app r \<and> rule_Priority r = ?p \<and> allows r)"
        by (rule acl_decision_top) (use True le in simp_all)
      then show ?thesis using True by (simp only: list.set(2) ball_simps bex_simps insert_iff) blast
    qed
    show ?thesis
      unfolding dec using True b m rest by (auto simp: applies_def Let_def)
  qed
qed (simp add: acl_decision_def)

lemma allowTarget_pure:
  assumes "cache_ok e" "sorted_wrt (\<lambda>a b. rule_Priority b \<le> rule_Priority a) (ev_rules e)"
  shows "fst (allowTarget tp tvp tn action e) \<longleftrightarrow>
     acl_decision (applies (ev_userID e) action (rule_matches (ev_metadataReader e) tp tvp tn)) (set (ev_rules e))"
    and "same_env e (snd (allowTarget tp tvp tn action e))"
  using assms allow_loop_None allow_loop_env by (simp_all add: allowTarget_def)

section \<open>Whole checks without the cache\<close>

definition decision :: "aclEvaluator \<Rightarrow> string \<Rightarrow> string \<Rightarrow> VFSNode option \<Rightarrow> ACLAction \<Rightarrow> bool" where
  "decision e tp tvp tn action \<longleftrightarrow>
     acl_decision (applies (ev_userID e) action (rule_matches (ev_metadataReader e) tp tvp tn)) (set (ev_rules e))"

definition path_decision :: "aclEvaluator \<Rightarrow> string \<Rightarrow> ACLAction \<Rightarrow> bool" where
  "path_decision e p action \<longleftrightarrow>
     (let merged = mergeMountAndInnerPath (ev_mountPath e) p;
          vp = (if merged = [] then p else merged)
      in decision e p vp (target_node (ev_metadataReader e) vp 0) action)"

definition virtual_decision :: "aclEvaluator \<Rightarrow> string \<Rightarrow> nat \<Rightarrow> ACLAction \<Rightarrow> bool" where
  "virtual_decision e p nodeID action \<longleftrightarrow>
     (case normalizeMountPath (ev_mountPath e) of
        Inr m \<Rightarrow>
          if m = ''/'' then decision e p p (target_node (ev_metadataReader e) p nodeID) action
          else isSubPath m p \<and>
            decision e (let i = TrimPrefix p m in if i = [] then ''/'' else i) p
              (target_node (ev_metadataReader e) p nodeID) action
      | Inl _ \<Rightarrow> decision e p p (target_node (ev_metadataReader e) p nodeID) action)"

definition ev_ok :: "aclEvaluator \<Rightarrow> bool" where
  "ev_ok e \<longleftrightarrow> cache_ok e \<and> sorted_wrt (\<lambda>a b. rule_Priority b \<le> rule_Priority a) (ev_rules e)"

lemma ev_ok_env: "ev_ok e \<Longrightarrow> same_env e e' \<Longrightarrow> ev_ok e'"
  by (simp add: ev_ok_def same_env_fields same_env_cache_ok)

lemma decision_env: "same_env e e' \<Longrightarrow> decision e' tp tvp tn action = decision e tp tvp tn action"
  by (simp add: decision_def same_env_fields)

lemma allowTarget_decision:
  assumes "ev_ok e" "same_env e e'" "allowTarget tp tvp tn action e' = (b, e'')"
  shows "b = decision e tp tvp tn action \<and> same_env e e''"
proof -
  have "ev_ok e'" using assms(1,2) by (rule ev_ok_env)
  then show ?thesis
    using allowTarget_pure [of e' tp tvp tn action] assms decision_env [OF assms(2)] same_env_trans
    by (simp add: ev_ok_def decision_def)
qed

lemma resolve_allow:
  assumes "ev_ok e"
  shows "\<exists>e'. (case resolveTargetNodeBestEffort vp i e of (tn, e') \<Rightarrow>
      case allowTarget tp tvp tn action e' of (b, e'') \<Rightarrow> (Inr b :: bool result, e'')) =
    (Inr (decision e tp tvp (target_node (ev_metadataReader e) vp i) action), e') \<and> same_env e e'"
proof -
  obtain tn e1 where 1: "resolveTargetNodeBestEffort vp i e = (tn, e1)" by force
  obtain b e2 where 2: "allowTarget tp tvp tn action e1 = (b, e2)" by force
  have tn: "tn = target_node (ev_metadataReader e) vp i" "same_env e e1"
    using resolveTargetNode_pure [of e vp i] assms 1 by (simp_all add: ev_ok_def)
  show ?thesis using allowTarget_decision [OF assms tn(2) 2] 1 2 tn(1) by simp
qed

lemma allowPath_eq:
  assumes "ev_ok e" "\<not> ev_bypass e"
  shows "\<exists>e'. allowPath p action e =
     (if_errp (normalizeVirtualPath p) (\<lambda>_. Inl ErrPathInvalid) (\<lambda>np. Inr (path_decision e np action)), e') \<and>
     same_env e e'"
proof (cases "normalizeVirtualPath p")
  case (Inl err)
  then show ?thesis using assms by (simp add: allowPath_def ev_ok_def)
next
  case (Inr np)
  then show ?thesis
    using assms(2) resolve_allow [OF assms(1)]
    by (simp add: allowPath_def path_decision_def Let_def)
qed

lemma allowVirtualPath_eq:
  assumes "ev_ok e" "\<not> ev_bypass e"
  shows "\<exists>e'. allowVirtualPathWithNodeID p i action e =
     (if_errp (normalizeVirtualPath p) (\<lambda>_. Inl ErrPathInvalid) (\<lambda>np. Inr (virtual_decision e np i action)), e') \<and>
     same_env e e'"
proof (cases "normalizeVirtualPath p")
  case (Inl err)
  then show ?thesis using assms by (simp add: allowVirtualPathWithNodeID_def ev_ok_def)
next
  case (Inr np)
  have refl: "same_env e e" using assms(1) by (simp add: ev_ok_def)
  show ?thesis
    using assms(2) resolve_allow [OF assms(1)] Inr refl
    by (auto simp add: allowVirtualPathWithNodeID_def virtual_decision_def Let_def split: sum.split)
qed

lemma path_decision_env: "same_env e e' \<Longrightarrow> path_decision e' = path_decision e"
  by (intro ext) (simp add: path_decision_def decision_def same_env_fields)

lemma virtual_decision_env: "same_env e e' \<Longrightarrow> virtual_decision e' = virtual_decision e"
  by (intro ext) (simp add: virtual_decision_def decision_env same_env_fields split: sum.split)

text \<open>The listing filters, given the decisions.\<close>

abbreviation ok_path :: "string \<Rightarrow> bool" where
  "ok_path p \<equiv> \<exists>q. normalizeVirtualPath p = Inr q"

definition vfs_allowed :: "aclEvaluator \<Rightarrow> VFSItem \<Rightarrow> ACLAction \<Rightarrow> bool" where
  "vfs_allowed e i action =
     if_errp (normalizeVirtualPath (vi_Path i)) (\<lambda>_. False) (\<lambda>p. virtual_decision e p (vi_ID i) action)"

definition file_allowed :: "aclEvaluator \<Rightarrow> FileItem \<Rightarrow> ACLAction \<Rightarrow> bool" where
  "file_allowed e i action =
     if_errp (normalizeVirtualPath (fi_Path i)) (\<lambda>_. False) (\<lambda>p. path_decision e p action)"

lemma filter_vfs_loop_eq:
  assumes "ev_ok e" "\<not> ev_bypass e"
  shows "fst (filter_vfs_loop items e) =
     (if \<forall>i \<in> set items. ok_path (vi_Path i)
      then Inr (map (\<lambda>i. i\<lparr>vi_CanDelete := vi_CanDelete i \<and> vfs_allowed e i ACLActionDelete,
                           vi_CanDownload := vi_CanDownload i \<and> vi_EntryKind i = VirtualEntryKindFile\<rparr>)
                  (filter (\<lambda>i. vfs_allowed e i ACLActionRead) items))
      else Inl ErrPathInvalid)"
  using assms
proof (induction items arbitrary: e)
  case (Cons i items)
  obtain e1 where 1: "allowVirtualPathWithNodeID (vi_Path i) (vi_ID i) ACLActionRead e =
      (if_errp (normalizeVirtualPath (vi_Path i)) (\<lambda>_. Inl ErrPathInvalid)
         (\<lambda>np. Inr (virtual_decision e np (vi_ID i) ACLActionRead)), e1)" and e1: "same_env e e1"
    using allowVirtualPath_eq [OF Cons.prems] by blast
  have ok1: "ev_ok e1" "\<not> ev_bypass e1" using Cons.prems e1 ev_ok_env same_env_fields by auto
  obtain e2 where 2: "allowVirtualPathWithNodeID (vi_Path i) (vi_ID i) ACLActionDelete e1 =
      (if_errp (normalizeVirtualPath (vi_Path i)) (\<lambda>_. Inl ErrPathInvalid)
         (\<lambda>np. Inr (virtual_decision e np (vi_ID i) ACLActionDelete)), e2)" and e2: "same_env e1 e2"
    using allowVirtualPath_eq [OF ok1] virtual_decision_env [OF e1] by metis
  have ok2: "ev_ok e2" "\<not> ev_bypass e2" using ok1 e2 ev_ok_env same_env_fields by auto
  have env: "vfs_allowed e1 = vfs_allowed e" "vfs_allowed e2 = vfs_allowed e"
    using virtual_decision_env [OF e1] virtual_decision_env [OF e2]
    by (auto simp: vfs_allowed_def fun_eq_iff)
  show ?case
  proof (cases "normalizeVirtualPath (vi_Path i)")
    case (Inl err)
    then show ?thesis using 1 by (simp add: if_err_def throw_def)
  next
    case (Inr p)
    show ?thesis
      using 1 2 Inr Cons.IH [OF ok1] Cons.IH [OF ok2]
      by (cases "\<forall>i \<in> set items. ok_path (vi_Path i)")
         (auto simp: if_err_def throw_def ret_def env vfs_allowed_def [of e i] split: prod.split)
  qed
qed (simp add: ret_def)

lemma filter_file_loop_eq:
  assumes "ev_ok e" "\<not> ev_bypass e"
  shows "fst (filter_file_loop items e) =
     (if \<forall>i \<in> set items. ok_path (fi_Path i)
      then Inr (map (\<lambda>i. i\<lparr>fi_CanDelete := fi_CanDelete i \<and> file_allowed e i ACLActionDelete,
                           fi_CanDownload := fi_CanDownload i \<and> \<not> fi_IsDir i\<rparr>)
                  (filter (\<lambda>i. file_allowed e i ACLActionRead) items))
      else Inl ErrPathInvalid)"
  using assms
proof (induction items arbitrary: e)
  case (Cons i items)
  obtain e1 where 1: "allowPath (fi_Path i) ACLActionRead e =
      (if_errp (normalizeVirtualPath (fi_Path i)) (\<lambda>_. Inl ErrPathInvalid)
         (\<lambda>np. Inr (path_decision e np ACLActionRead)), e1)" and e1: "same_env e e1"
    using allowPath_eq [OF Cons.prems] by blast
  have ok1: "ev_ok e1" "\<not> ev_bypass e1" using Cons.prems e1 ev_ok_env same_env_fields by auto
  obtain e2 where 2: "allowPath (fi_Path i) ACLActionDelete e1 =
      (if_errp (normalizeVirtualPath (fi_Path i)) (\<lambda>_. Inl ErrPathInvalid)
         (\<lambda>np. Inr (path_decision e np ACLActionDelete)), e2)" and e2: "same_env e1 e2"
    using allowPath_eq [OF ok1] path_decision_env [OF e1] by metis
  have ok2: "ev_ok e2" "\<not> ev_bypass e2" using ok1 e2 ev_ok_env same_env_fields by auto
  have env: "file_allowed e1 = file_allowed e" "file_allowed e2 = file_allowed e"
    using path_decision_env [OF e1] path_decision_env [OF e2]
    by (auto simp: file_allowed_def fun_eq_iff)
  show ?case
  proof (cases "normalizeVirtualPath (fi_Path i)")
    case (Inl err)
    then show ?thesis using 1 by (simp add: if_err_def throw_def)
  next
    case (Inr p)
    show ?thesis
      using 1 2 Inr Cons.IH [OF ok1] Cons.IH [OF ok2]
      by (cases "\<forall>i \<in> set items. ok_path (fi_Path i)")
         (auto simp: if_err_def throw_def ret_def env file_allowed_def [of e i] split: prod.split)
  qed
qed (simp add: ret_def)

section \<open>The interface of the rule repository\<close>

text \<open>
  What the authorizer relies on: the repository returns the rules in descending priority,
  and only rules of the source asked for or global ones.
\<close>

locale rule_repository =
  fixes listRules :: "ACLRuleFilter \<Rightarrow> ACLRule list result"
  assumes by_priority: "listRules f = Inr rs \<Longrightarrow>
      sorted_wrt (\<lambda>a b. rule_Priority b \<le> rule_Priority a) rs"
    and of_source: "listRules f = Inr rs \<Longrightarrow> \<not> flt_AnySource f \<Longrightarrow> r \<in> set rs \<Longrightarrow>
      rule_SourceID r = flt_SourceID f \<or> rule_SourceID r = 0"
begin

lemma newEvaluator_ok:
  assumes "az_aclRepo a = Some listRules" "newEvaluator (Some a) ctx sid = Inr e"
  shows "ev_ok e" and "\<forall>r \<in> set (ev_rules e). rule_SourceID r = sid \<or> rule_SourceID r = 0"
proof -
  have "ev_ok e \<and> (\<forall>r \<in> set (ev_rules e). rule_SourceID r = sid \<or> rule_SourceID r = 0)"
    using assms by_priority of_source
    by (fastforce simp: newEvaluator_def zeroEvaluator_def ev_ok_def cache_ok_def if_errp_def
        split: option.splits if_splits sum.splits)
  then show "ev_ok e" "\<forall>r \<in> set (ev_rules e). rule_SourceID r = sid \<or> rule_SourceID r = 0" by auto
qed

lemma authorizePath_decides:
  assumes "az_aclRepo a = Some listRules" "newEvaluator (Some a) ctx sid = Inr e" "\<not> ev_bypass e"
  shows "AuthorizePath (Some a) ctx sid p action =
     (case normalizeVirtualPath p of
        Inl _ \<Rightarrow> Inl ErrPathInvalid
      | Inr np \<Rightarrow> if path_decision e np action then Inr () else Inl ErrACLDenied)"
  using allowPath_eq [OF newEvaluator_ok(1) [OF assms(1,2)] assms(3), of p action] assms(2)
  by (auto simp: AuthorizePath_def if_errp_def split: sum.split)

lemma authorizeVirtualPath_decides:
  assumes "az_aclRepo a = Some listRules" "newEvaluator (Some a) ctx sid = Inr e" "\<not> ev_bypass e"
  shows "AuthorizeVirtualPath (Some a) ctx sid p i action =
     (case normalizeVirtualPath p of
        Inl _ \<Rightarrow> Inl ErrPathInvalid
      | Inr np \<Rightarrow> if virtual_decision e np i action then Inr () else Inl ErrACLDenied)"
  using allowVirtualPath_eq [OF newEvaluator_ok(1) [OF assms(1,2)] assms(3), of p i action] assms(2)
  by (auto simp: AuthorizeVirtualPath_def if_errp_def split: sum.split)

lemma filterVFS_agrees:
  assumes "az_aclRepo a = Some listRules" "newEvaluator (Some a) ctx sid = Inr e" "\<not> ev_bypass e"
  shows "FilterVFSItems (Some a) ctx sid items =
     (if \<forall>i \<in> set items. ok_path (vi_Path i)
      then Inr (map (\<lambda>i. i\<lparr>vi_CanDelete := vi_CanDelete i \<and>
               AuthorizeVirtualPath (Some a) ctx sid (vi_Path i) (vi_ID i) ACLActionDelete = Inr (),
               vi_CanDownload := vi_CanDownload i \<and> vi_EntryKind i = VirtualEntryKindFile\<rparr>)
             (filter (\<lambda>i. AuthorizeVirtualPath (Some a) ctx sid (vi_Path i) (vi_ID i) ACLActionRead = Inr ()) items))
      else Inl ErrPathInvalid)"
proof -
  have "AuthorizeVirtualPath (Some a) ctx sid (vi_Path i) (vi_ID i) action = Inr () \<longleftrightarrow> vfs_allowed e i action"
    for i action
    by (simp add: authorizeVirtualPath_decides [OF assms] vfs_allowed_def if_errp_def split: sum.split)
  then show ?thesis
    using filter_vfs_loop_eq [OF newEvaluator_ok(1) [OF assms(1,2)] assms(3)] assms(2,3)
    by (simp add: FilterVFSItems_def)
qed

lemma filterFile_agrees:
  assumes "az_aclRepo a = Some listRules" "newEvaluator (Some a) ctx sid = Inr e" "\<not> ev_bypass e"
  shows "FilterFileItems (Some a) ctx sid items =
     (if \<forall>i \<in> set items. ok_path (fi_Path i)
      then Inr (map (\<lambda>i. i\<lparr>fi_CanDelete := fi_CanDelete i \<and>
               AuthorizePath (Some a) ctx sid (fi_Path i) ACLActionDelete = Inr (),
               fi_CanDownload := fi_CanDownload i \<and> \<not> fi_IsDir i\<rparr>)
             (filter (\<lambda>i. AuthorizePath (Some a) ctx sid (fi_Path i) ACLActionRead = Inr ()) items))
      else Inl ErrPathInvalid)"
proof -
  have "AuthorizePath (Some a) ctx sid (fi_Path i) action = Inr () \<longleftrightarrow> file_allowed e i action"
    for i action
    by (simp add: authorizePath_decides [OF assms] file_allowed_def if_errp_def split: sum.split)
  then show ?thesis
    using filter_file_loop_eq [OF newEvaluator_ok(1) [OF assms(1,2)] assms(3)] assms(2,3)
    by (simp add: FilterFileItems_def)
qed

end

interpretation rules: rule_repository "\<lambda>f. Inr (ACLRule_List rows f)" for rows
proof
  fix f rs
  assume "Inr (ACLRule_List rows f) = (Inr rs :: ACLRule list result)"
  then have rs: "rs = ACLRule_List rows f" by simp
  have "sorted (map (\<lambda>r. (- rule_Priority r, rule_ID r)) rs)"
    unfolding rs ACLRule_List_def by (rule sorted_sort_key)
  then show "sorted_wrt (\<lambda>a b. rule_Priority b \<le> rule_Priority a) rs"
    unfolding sorted_map by (rule sorted_wrt_mono_rel [rotated]) auto
  fix r
  assume "\<not> flt_AnySource f" "r \<in> set rs"
  then show "rule_SourceID r = flt_SourceID f \<or> rule_SourceID r = 0"
    unfolding rs ACLRule_List_def by (auto simp: rule_selected_def split: if_splits)
qed

section \<open>Properties\<close>

lemma newEvaluator_multi_user:
  assumes "az_aclRepo a = Some (\<lambda>f. Inr (ACLRule_List rows f))"
    and "az_systemConfigRepo a = Some (Inr cfg)" and "cfg_MultiUserEnabled cfg"
    and "auth_RoleKey auth \<noteq> RoleSuperAdmin" and "evaluatorMountPath a sid = Inr mount"
  obtains e where "newEvaluator (Some a) (Some auth) sid = Inr e" "\<not> ev_bypass e"
    "ev_userID e = auth_UserID auth" "ev_mountPath e = mount" "ev_metadataReader e = az_metadataReader a"
    "ev_sourceID e = sid"
    "set (ev_rules e) = {r \<in> set rows. rule_SourceID r = sid \<or> rule_SourceID r = 0}"
proof -
  let ?f = "\<lparr>flt_SourceID = sid, flt_Path = [], flt_VFSNodeID = None,
             flt_IncludeGlobal = True, flt_AnySource = False\<rparr>"
  let ?e = "\<lparr>ev_bypass = False, ev_userID = auth_UserID auth, ev_sourceID = sid,
     ev_rules = ACLRule_List rows ?f, ev_mountPath = mount,
     ev_metadataReader = az_metadataReader a, ev_nodeCache = Map.empty\<rparr>"
  have "set (ev_rules ?e) = {r \<in> set rows. rule_SourceID r = sid \<or> rule_SourceID r = 0}"
    by (auto simp: ACLRule_List_def rule_selected_def)
  moreover have "newEvaluator (Some a) (Some auth) sid = Inr ?e"
    using assms by (simp add: newEvaluator_def)
  ultimately show thesis using that [of ?e] by simp
qed


definition example_rule :: "nat \<Rightarrow> int \<Rightarrow> string \<Rightarrow> string \<Rightarrow> ACLRule" where
  "example_rule i prio p eff = \<lparr>rule_ID = i, rule_SourceID = 0, rule_VFSNodeID = None, rule_Path = p,
     rule_VirtualPath = [], rule_SubjectType = ''user'', rule_SubjectID = 7, rule_Effect = eff,
     rule_Priority = prio, rule_Read = True, rule_Write = False, rule_Delete = False,
     rule_Share = False, rule_InheritToChildren = True, rule_CreatedAt = 0, rule_UpdatedAt = 0\<rparr>"

definition example_config :: SystemConfig where
  "example_config = \<lparr>cfg_ID = 1, cfg_SiteName = [], cfg_MultiUserEnabled = True,
     cfg_DefaultSourceID = None, cfg_MaxUploadSize = 0, cfg_DefaultChunkSize = 0,
     cfg_WebDAVEnabled = False, cfg_WebDAVPrefix = [], cfg_Theme = [], cfg_Language = [],
     cfg_TimeZone = [], cfg_CreatedAt = 0, cfg_UpdatedAt = 0\<rparr>"

definition example_rules :: "ACLRule list" where
  "example_rules = [example_rule 1 0 ''/'' ''allow'', example_rule 2 5 ''/private'' ''deny'']"

definition example_authorizer :: ACLAuthorizer where
  "example_authorizer = \<lparr>az_systemConfigRepo = Some (Inr example_config),
     az_aclRepo = Some (\<lambda>f. Inr (ACLRule_List example_rules f)), az_sourceRepo = None,
     az_metadataReader = None\<rparr>"

definition example_auth :: RequestAuth where
  "example_auth = \<lparr>auth_UserID = 7, auth_Username = ''u'', auth_RoleKey = RoleUser,
     auth_Status = ''active'', auth_Capabilities = []\<rparr>"

lemma example_authorizer_facts:
  "az_aclRepo example_authorizer = Some (\<lambda>f. Inr (ACLRule_List example_rules f))"
  "az_systemConfigRepo example_authorizer = Some (Inr example_config)"
  "cfg_MultiUserEnabled example_config" "auth_RoleKey example_auth \<noteq> RoleSuperAdmin"
  "evaluatorMountPath example_authorizer 0 = Inr ''/''"
  by (simp_all add: example_authorizer_def example_config_def example_auth_def evaluatorMountPath_def)


text \<open>C35: The listing filter and the access check agree: a listing keeps exactly the items the
  check lets the user read, in their order, an item stays deletable exactly when it was and
  the check lets the user delete it, and only files stay downloadable. A path that does not
  normalise fails the whole listing, as it fails the check.\<close>

theorem filter_agrees_with_authorize:
  assumes "az_aclRepo a = Some (\<lambda>f. Inr (ACLRule_List rows f))"
    and "newEvaluator (Some a) ctx sid = Inr e" and "\<not> ev_bypass e"
  shows "FilterVFSItems (Some a) ctx sid items =
     (if \<forall>i \<in> set items. \<exists>q. normalizeVirtualPath (vi_Path i) = Inr q
      then Inr (map (\<lambda>i. i\<lparr>vi_CanDelete := vi_CanDelete i \<and>
               AuthorizeVirtualPath (Some a) ctx sid (vi_Path i) (vi_ID i) ACLActionDelete = Inr (),
               vi_CanDownload := vi_CanDownload i \<and> vi_EntryKind i = VirtualEntryKindFile\<rparr>)
             (filter (\<lambda>i. AuthorizeVirtualPath (Some a) ctx sid (vi_Path i) (vi_ID i) ACLActionRead = Inr ()) items))
      else Inl ErrPathInvalid)"
  using assms by (rule rules.filterVFS_agrees)

definition example_item :: "string \<Rightarrow> VFSItem" where
  "example_item p = \<lparr>vi_ID = 0, vi_Name = [], vi_Path = p, vi_ParentPath = [], vi_SourceID = None,
     vi_EntryKind = ''file'', vi_IsVirtual = False, vi_IsMountPoint = False, vi_SyncState = [],
     vi_Size = 0, vi_MimeType = [], vi_Extension = [], vi_ModifiedAt = [], vi_CreatedAt = [],
     vi_Etag = [], vi_CanPreview = False, vi_CanDownload = True, vi_CanDelete = True\<rparr>"

theorem filter_agrees_with_authorize_witness:
  "FilterVFSItems (Some example_authorizer) (Some example_auth) 0
     [example_item ''/private/x'', example_item ''/open''] =
   Inr [(example_item ''/open'')\<lparr>vi_CanDelete := False\<rparr>]"
proof -
  have n: "\<exists>e. newEvaluator (Some example_authorizer) (Some example_auth) 0 = Inr e \<and> \<not> ev_bypass e"
    using newEvaluator_multi_user [OF example_authorizer_facts] by metis
  have dec: "AuthorizeVirtualPath (Some example_authorizer) (Some example_auth) 0 ''/private/x'' 0 ACLActionRead = Inl ErrACLDenied"
    "AuthorizeVirtualPath (Some example_authorizer) (Some example_auth) 0 ''/open'' 0 ACLActionRead = Inr ()"
    "AuthorizeVirtualPath (Some example_authorizer) (Some example_auth) 0 ''/open'' 0 ACLActionDelete = Inl ErrACLDenied"
    "normalizeVirtualPath ''/private/x'' = Inr ''/private/x''" "normalizeVirtualPath ''/open'' = Inr ''/open''"
    by code_simp+
  obtain e where e: "newEvaluator (Some example_authorizer) (Some example_auth) 0 = Inr e" "\<not> ev_bypass e"
    using n by blast
  show ?thesis
    unfolding filter_agrees_with_authorize [OF example_authorizer_facts(1) e]
    using dec by (simp add: example_item_def)
qed

end
