(* ===== verification/Database.thy ===== *)
theory Database
  imports Entities
begin

text \<open>
  The database under the repositories of \<^verbatim>\<open>infrastructure/persistence/gorm\<close>: a record of
  tables, the identifier sequences, and what the environment contributes: the current time,
  the database's text order and JSON normalisation, and a list of faults. Every SQL statement
  consumes one entry of the fault list; \<open>Some msg\<close> makes it fail without an effect, so
  theorems on handlers hold for every pattern of failing statements. A transaction restores the
  tables when its body or its commit fails; sequences and faults are not restored. One call of a
  handler sees one instant as the current time.

  GORM, the PostgreSQL driver and the server are not part of the repository; what is modelled
  of them is the meaning of the statements the repositories build: insert, update by key with
  the automatic \<^verbatim>\<open>updated_at\<close>, delete by key, select, unique indexes.
\<close>

section \<open>State\<close>

record DB =
  db_users :: "User list"
  db_tokens :: "RefreshToken list"
  db_sources :: "StorageSource list"
  db_nodes :: "VFSNode list"
  db_objects :: "StorageObject list"
  db_rules :: "ACLRule list"
  db_ops :: "VFSOperation list"
  db_uploads :: "UploadSession list"
  db_shares :: "ShareLink list"
  db_config :: "SystemConfig list"
  db_audits :: "AuditLog list"
  db_mounts :: "VFSMount list"
  db_tags :: "VFSTag list"
  db_nodetags :: "VFSNodeTag list"
  db_trash :: "TrashItem list"
  db_tasks :: "DownloadTask list"
  db_seq :: "string \<Rightarrow> nat"
  db_faults :: "string option list"
  db_now :: gotime
  db_collate :: "string \<Rightarrow> string"
  db_jsonb :: "string \<Rightarrow> string result"

definition emptyDB :: DB where
  "emptyDB = \<lparr>db_users = [], db_tokens = [], db_sources = [], db_nodes = [], db_objects = [],
     db_rules = [], db_ops = [], db_uploads = [], db_shares = [], db_config = [], db_audits = [],
     db_mounts = [], db_tags = [], db_nodetags = [], db_trash = [], db_tasks = [],
     db_seq = (\<lambda>_. 0), db_faults = [], db_now = 1, db_collate = id, db_jsonb = Inr\<rparr>"

section \<open>Statements\<close>

definition stmt :: "(DB, 'a) handler \<Rightarrow> (DB, 'a) handler" where
  "stmt f db =
     (case db_faults db of
        [] \<Rightarrow> f db
      | None # fs \<Rightarrow> f (db\<lparr>db_faults := fs\<rparr>)
      | Some msg # fs \<Rightarrow> (Inl (ErrOther msg), db\<lparr>db_faults := fs\<rparr>))"

text \<open>\<^verbatim>\<open>INSERT\<close>: a row without an identifier gets the next one of the table's sequence.\<close>

definition insert_row ::
  "string \<Rightarrow> (DB \<Rightarrow> 'e list) \<Rightarrow> (('e list \<Rightarrow> 'e list) \<Rightarrow> DB \<Rightarrow> DB) \<Rightarrow> ('e \<Rightarrow> nat) \<Rightarrow>
   (nat \<Rightarrow> 'e \<Rightarrow> 'e) \<Rightarrow> ('e \<Rightarrow> 'e \<Rightarrow> bool) \<Rightarrow> 'e \<Rightarrow> (DB, 'e) handler" where
  "insert_row t tbl upd key setkey uniq r =
     stmt (\<lambda>db.
       let i = (if key r = 0 then db_seq db t + 1 else key r);
           db1 = (if key r = 0 then db\<lparr>db_seq := (db_seq db)(t := i)\<rparr> else db);
           r' = setkey i r
       in if \<exists>x \<in> set (tbl db). key x = i \<or> uniq x r' then (Inl ErrConflict, db1)
          else (Inr r', upd (\<lambda>rows. rows @ [r']) db1))"

text \<open>\<^verbatim>\<open>UPDATE ... WHERE id = ?\<close> of all columns; \<open>merge now old new\<close> is the stored row.\<close>

definition update_row ::
  "(DB \<Rightarrow> 'e list) \<Rightarrow> (('e list \<Rightarrow> 'e list) \<Rightarrow> DB \<Rightarrow> DB) \<Rightarrow> ('e \<Rightarrow> nat) \<Rightarrow>
   (gotime \<Rightarrow> 'e \<Rightarrow> 'e \<Rightarrow> 'e) \<Rightarrow> ('e \<Rightarrow> 'e \<Rightarrow> bool) \<Rightarrow> 'e \<Rightarrow> (DB, unit) handler" where
  "update_row tbl upd key merge uniq r =
     stmt (\<lambda>db.
       if \<forall>x \<in> set (tbl db). key x \<noteq> key r then (Inl ErrNotFound, db)
       else if \<exists>x \<in> set (tbl db). key x \<noteq> key r \<and> uniq x r then (Inl ErrConflict, db)
       else (Inr (), upd (map (\<lambda>x. if key x = key r then merge (db_now db) x r else x)) db))"

definition delete_row ::
  "(DB \<Rightarrow> 'e list) \<Rightarrow> (('e list \<Rightarrow> 'e list) \<Rightarrow> DB \<Rightarrow> DB) \<Rightarrow> ('e \<Rightarrow> nat) \<Rightarrow> nat \<Rightarrow> (DB, unit) handler" where
  "delete_row tbl upd key i =
     stmt (\<lambda>db.
       if \<forall>x \<in> set (tbl db). key x \<noteq> i then (Inl ErrNotFound, db)
       else (Inr (), upd (filter (\<lambda>x. key x \<noteq> i)) db))"

text \<open>\<^verbatim>\<open>First\<close> with a condition that at most one row satisfies.\<close>

definition find_row :: "(DB \<Rightarrow> 'e list) \<Rightarrow> ('e \<Rightarrow> bool) \<Rightarrow> (DB, 'e) handler" where
  "find_row tbl p =
     stmt (\<lambda>db. case find p (tbl db) of None \<Rightarrow> (Inl ErrNotFound, db) | Some x \<Rightarrow> (Inr x, db))"

definition select_rows :: "(DB \<Rightarrow> 'e list) \<Rightarrow> (DB, 'e list) handler" where
  "select_rows q = stmt (gets q)"

text \<open>Tables and sequences: what a rollback restores is everything but the sequences and faults.\<close>

definition rollback :: "DB \<Rightarrow> DB \<Rightarrow> DB" where
  "rollback db db' = db\<lparr>db_seq := db_seq db', db_faults := db_faults db'\<rparr>"

text \<open>\<^verbatim>\<open>Transactor.WithinTx\<close> and \<^verbatim>\<open>gorm.DB.Transaction\<close>: begin, body, commit.\<close>

definition WithinTx :: "(DB, 'a) handler \<Rightarrow> (DB, 'a) handler" where
  "WithinTx body db =
     (case stmt (ret ()) db of
        (Inl e, db0) \<Rightarrow> (Inl e, db0)
      | (Inr _, db0) \<Rightarrow>
          (case body db0 of
             (Inl e, db') \<Rightarrow> (Inl e, rollback db0 db')
           | (Inr x, db') \<Rightarrow>
               (case stmt (ret ()) db' of
                  (Inl e, db'') \<Rightarrow> (Inl e, rollback db0 db'')
                | (Inr _, db'') \<Rightarrow> (Inr x, db''))))"

section \<open>LIKE patterns\<close>

text \<open>
  \<^verbatim>\<open>s LIKE p\<close>; the default escape character is the backslash. An unescaped \<^verbatim>\<open>_\<close> stands for one
  code point (one byte where the bytes are not valid UTF-8).
\<close>

function like :: "string \<Rightarrow> string \<Rightarrow> bool" where
  "like [] s = (s = [])"
| "like (c # p) s =
     (if c = CHR ''%'' then like p s \<or> (case s of [] \<Rightarrow> False | _ # s' \<Rightarrow> like (c # p) s')
      else if c = CHR ''_'' then (case s of [] \<Rightarrow> False | _ # s' \<Rightarrow> like p (drop (rune_width (map of_char (take 4 s)) - 1) s'))
      else if c = CHR 0x5C then
        (case p of [] \<Rightarrow> False | e # p' \<Rightarrow> (case s of [] \<Rightarrow> False | x # s' \<Rightarrow> x = e \<and> like p' s'))
      else (case s of [] \<Rightarrow> False | x # s' \<Rightarrow> x = c \<and> like p s'))"
  by pat_completeness auto
termination by (relation "measure (\<lambda>(p, s). length p + length s)") auto

declare like.simps(2) [simp del]

section \<open>JSON\<close>

text \<open>The Go values of a JSON payload; \<open>PayloadOther\<close> is a value of any other type, with its JSON encoding if it has one.\<close>

datatype payload_value =
    PayloadNil
  | PayloadBool bool
  | PayloadNumber string
  | PayloadString string
  | PayloadList "payload_value list"
  | PayloadMap "(string \<times> payload_value) list"
  | PayloadOther "string option"

record JSONCodec =
  json_Marshal :: "(string \<times> payload_value) list \<Rightarrow> string result"
  json_Valid :: "string \<Rightarrow> bool"
  json_Unmarshal :: "string \<Rightarrow> (string \<times> payload_value) list result"

text \<open>\<^verbatim>\<open>strings.EqualFold(s, "null")\<close>: no code point outside ASCII folds to one of the letters.\<close>

definition EqualFold_null :: "string \<Rightarrow> bool" where
  "EqualFold_null s \<longleftrightarrow> map lower_byte s = ''null''"

definition normalizeJSON :: "string \<Rightarrow> string \<Rightarrow> string" where
  "normalizeJSON raw fallback =
     (let trimmed = TrimSpace raw in if trimmed = [] \<or> EqualFold_null trimmed then fallback else raw)"

definition jsonObject :: "string \<Rightarrow> string" where
  "jsonObject raw = normalizeJSON raw ''{}''"

text \<open>A value of a \<^verbatim>\<open>jsonb\<close> column: the server stores the normalised text and refuses invalid JSON.\<close>

definition with_jsonb :: "string \<Rightarrow> (string \<Rightarrow> (DB, 'a) handler) \<Rightarrow> (DB, 'a) handler" where
  "with_jsonb raw k db =
     (case db_jsonb db raw of Inl e \<Rightarrow> stmt (throw e) db | Inr canon \<Rightarrow> k canon db)"

section \<open>What statements keep\<close>

text \<open>\<open>db'\<close> is \<open>db\<close> up to faults and sequences.\<close>

definition core :: "DB \<Rightarrow> DB" where
  "core db = db\<lparr>db_faults := [], db_seq := (\<lambda>_. 0)\<rparr>"

definition same_tables :: "DB \<Rightarrow> DB \<Rightarrow> bool" where
  "same_tables db db' \<longleftrightarrow> core db' = core db"

lemma same_tables_refl [simp]: "same_tables db db"
  by (simp add: same_tables_def)

lemma same_tables_trans [trans]: "same_tables a b \<Longrightarrow> same_tables b c \<Longrightarrow> same_tables a c"
  by (simp add: same_tables_def)

lemma same_tables_sym: "same_tables a b \<Longrightarrow> same_tables b a"
  by (simp add: same_tables_def)

lemma same_tables_env [simp]:
  "same_tables db (db'\<lparr>db_faults := f\<rparr>) \<longleftrightarrow> same_tables db db'"
  "same_tables db (db'\<lparr>db_seq := q\<rparr>) \<longleftrightarrow> same_tables db db'"
  "same_tables db (rollback db' db'') \<longleftrightarrow> same_tables db db'"
  by (simp_all add: same_tables_def core_def rollback_def)

lemma same_tables_fields:
  assumes "same_tables db db'"
  shows "db_users db' = db_users db" "db_tokens db' = db_tokens db" "db_sources db' = db_sources db"
    "db_nodes db' = db_nodes db" "db_objects db' = db_objects db" "db_rules db' = db_rules db"
    "db_ops db' = db_ops db" "db_uploads db' = db_uploads db" "db_shares db' = db_shares db"
    "db_config db' = db_config db" "db_now db' = db_now db" "db_collate db' = db_collate db"
    "db_jsonb db' = db_jsonb db" "db_audits db' = db_audits db"
    "db_mounts db' = db_mounts db" "db_tags db' = db_tags db" "db_nodetags db' = db_nodetags db" "db_trash db' = db_trash db" "db_tasks db' = db_tasks db"
proof -
  have c: "core db' = core db" using assms by (simp add: same_tables_def)
  show "db_users db' = db_users db" using arg_cong [OF c, of db_users] by (simp add: core_def)
  show "db_tokens db' = db_tokens db" using arg_cong [OF c, of db_tokens] by (simp add: core_def)
  show "db_sources db' = db_sources db" using arg_cong [OF c, of db_sources] by (simp add: core_def)
  show "db_nodes db' = db_nodes db" using arg_cong [OF c, of db_nodes] by (simp add: core_def)
  show "db_objects db' = db_objects db" using arg_cong [OF c, of db_objects] by (simp add: core_def)
  show "db_rules db' = db_rules db" using arg_cong [OF c, of db_rules] by (simp add: core_def)
  show "db_ops db' = db_ops db" using arg_cong [OF c, of db_ops] by (simp add: core_def)
  show "db_uploads db' = db_uploads db" using arg_cong [OF c, of db_uploads] by (simp add: core_def)
  show "db_shares db' = db_shares db" using arg_cong [OF c, of db_shares] by (simp add: core_def)
  show "db_config db' = db_config db" using arg_cong [OF c, of db_config] by (simp add: core_def)
  show "db_now db' = db_now db" using arg_cong [OF c, of db_now] by (simp add: core_def)
  show "db_collate db' = db_collate db" using arg_cong [OF c, of db_collate] by (simp add: core_def)
  show "db_jsonb db' = db_jsonb db" using arg_cong [OF c, of db_jsonb] by (simp add: core_def)
  show "db_audits db' = db_audits db" using arg_cong [OF c, of db_audits] by (simp add: core_def)
  show "db_mounts db' = db_mounts db" using arg_cong [OF c, of db_mounts] by (simp add: core_def)
  show "db_tags db' = db_tags db" using arg_cong [OF c, of db_tags] by (simp add: core_def)
  show "db_nodetags db' = db_nodetags db" using arg_cong [OF c, of db_nodetags] by (simp add: core_def)
  show "db_trash db' = db_trash db" using arg_cong [OF c, of db_trash] by (simp add: core_def)
  show "db_tasks db' = db_tasks db" using arg_cong [OF c, of db_tasks] by (simp add: core_def)
qed

text \<open>A query that only depends on the tables.\<close>

definition table_query :: "(DB \<Rightarrow> 'a) \<Rightarrow> bool" where
  "table_query q \<longleftrightarrow> (\<forall>db db'. same_tables db db' \<longrightarrow> q db' = q db)"

lemma table_queryD: "table_query q \<Longrightarrow> same_tables db db' \<Longrightarrow> q db' = q db"
  by (simp add: table_query_def)

lemma table_query_tables [simp, intro]:
  "table_query db_users" "table_query db_tokens" "table_query db_sources" "table_query db_nodes"
  "table_query db_objects" "table_query db_rules" "table_query db_ops" "table_query db_uploads"
  "table_query db_shares" "table_query db_config" "table_query db_now" "table_query db_audits"
  "table_query db_mounts" "table_query db_tags" "table_query db_nodetags" "table_query db_trash" "table_query db_tasks"
  by (auto simp: table_query_def same_tables_fields)

lemma stmt_cases:
  assumes "stmt f db = (r, db')"
  obtains (fault) msg where "r = Inl (ErrOther msg)" "same_tables db db'"
    | (run) db0 where "same_tables db db0" "db_seq db0 = db_seq db" "f db0 = (r, db')"
proof (cases "db_faults db")
  case Nil
  then show thesis using assms run [of db] by (simp add: stmt_def)
next
  case (Cons a fs)
  then show thesis
    using assms fault run [of "db\<lparr>db_faults := fs\<rparr>"]
    by (cases a) (auto simp: stmt_def)
qed

lemma stmt_throw_Inr: "stmt (throw e) db \<noteq> (Inr x, db')"
  by (auto simp: stmt_def throw_def split: list.splits option.splits)

lemma find_row_cases:
  assumes "find_row tbl p db = (r, db')"
    and "table_query tbl"
  obtains (found) x where "r = Inr x" "find p (tbl db) = Some x" "same_tables db db'"
    | (missing) "r = Inl ErrNotFound" "\<forall>x \<in> set (tbl db). \<not> p x" "same_tables db db'"
    | (fault) msg where "r = Inl (ErrOther msg)" "same_tables db db'"
proof -
  from assms(1) have "stmt (\<lambda>db. case find p (tbl db) of None \<Rightarrow> (Inl ErrNotFound, db) | Some x \<Rightarrow> (Inr x, db)) db = (r, db')"
    by (simp add: find_row_def)
  then show thesis
  proof (cases rule: stmt_cases)
    case (run db0)
    then show ?thesis
      using found missing table_queryD [OF assms(2) run(1)] by (auto simp: find_None_iff split: option.splits)
  qed (rule fault)
qed

lemma update_row_cases:
  assumes "update_row tbl upd key merge uniq e db = (r, db')"
    and "table_query tbl"
  obtains (updated) db0 where "r = Inr ()" "same_tables db db0" "\<exists>x \<in> set (tbl db). key x = key e"
        "\<forall>x \<in> set (tbl db). key x \<noteq> key e \<longrightarrow> \<not> uniq x e"
        "db' = upd (map (\<lambda>x. if key x = key e then merge (db_now db) x e else x)) db0"
    | (missing) "r = Inl ErrNotFound" "\<forall>x \<in> set (tbl db). key x \<noteq> key e" "same_tables db db'"
    | (conflict) "r = Inl ErrConflict" "\<exists>x \<in> set (tbl db). key x \<noteq> key e \<and> uniq x e" "same_tables db db'"
    | (fault) msg where "r = Inl (ErrOther msg)" "same_tables db db'"
proof -
  from assms(1) have "stmt (\<lambda>db.
       if \<forall>x \<in> set (tbl db). key x \<noteq> key e then (Inl ErrNotFound, db)
       else if \<exists>x \<in> set (tbl db). key x \<noteq> key e \<and> uniq x e then (Inl ErrConflict, db)
       else (Inr (), upd (map (\<lambda>x. if key x = key e then merge (db_now db) x e else x)) db)) db = (r, db')"
    by (simp add: update_row_def)
  then show thesis
  proof (cases rule: stmt_cases)
    case (run db0)
    note t = table_queryD [OF assms(2) run(1)] same_tables_fields(11) [OF run(1)]
    show ?thesis
    proof (cases "\<forall>x \<in> set (tbl db). key x \<noteq> key e")
      case True
      then show ?thesis using missing run t by simp
    next
      case found: False
      show ?thesis
      proof (cases "\<exists>x \<in> set (tbl db). key x \<noteq> key e \<and> uniq x e")
        case True
        have "(r, db') = (Inl ErrConflict, db0)"
          using run(3) unfolding t if_not_P [OF found] if_P [OF True] by simp
        then show ?thesis using conflict True run(1) by simp
      next
        case False
        have "(r, db') = (Inr (), upd (map (\<lambda>x. if key x = key e then merge (db_now db) x e else x)) db0)"
          using run(3) unfolding t if_not_P [OF found] if_not_P [OF False] by simp
        then show ?thesis using updated [of db0] found False run(1) by blast
      qed
    qed
  qed (rule fault)
qed

lemma select_rows_cases:
  assumes "select_rows q db = (r, db')" "table_query q"
  shows "same_tables db db' \<and> (r = Inr (q db) \<or> (\<exists>e. r = Inl (ErrOther e)))"
proof -
  have "stmt (gets q) db = (r, db')" using assms(1) by (simp add: select_rows_def)
  then show ?thesis
    by (cases rule: stmt_cases) (auto simp: gets_def table_queryD [OF assms(2)])
qed

lemma insert_row_cases:
  assumes "insert_row t tbl upd key setkey uniq e db = (r, db')"
    and "table_query tbl"
  obtains (inserted) i db0 where "r = Inr (setkey i e)" "same_tables db db0"
        "i = (if key e = 0 then db_seq db t + 1 else key e)"
        "\<forall>x \<in> set (tbl db). key x \<noteq> i \<and> \<not> uniq x (setkey i e)"
        "db' = upd (\<lambda>rows. rows @ [setkey i e]) db0"
        "db_seq db0 = (if key e = 0 then (db_seq db)(t := i) else db_seq db)"
    | (conflict) i where "r = Inl ErrConflict" "\<exists>x \<in> set (tbl db). key x = i \<or> uniq x (setkey i e)"
        "i = (if key e = 0 then db_seq db t + 1 else key e)" "same_tables db db'"
    | (fault) msg where "r = Inl (ErrOther msg)" "same_tables db db'"
proof -
  from assms(1) have "stmt (\<lambda>db.
       let i = (if key e = 0 then db_seq db t + 1 else key e);
           db1 = (if key e = 0 then db\<lparr>db_seq := (db_seq db)(t := i)\<rparr> else db);
           r' = setkey i e
       in if \<exists>x \<in> set (tbl db). key x = i \<or> uniq x r' then (Inl ErrConflict, db1)
          else (Inr r', upd (\<lambda>rows. rows @ [r']) db1)) db = (r, db')"
    by (simp add: insert_row_def)
  then show thesis
  proof (cases rule: stmt_cases)
    case (run db0)
    define i where "i = (if key e = 0 then db_seq db t + 1 else key e)"
    define db1 where "db1 = (if key e = 0 then db0\<lparr>db_seq := (db_seq db0)(t := i)\<rparr> else db0)"
    have s: "same_tables db db1"
      using run(1) by (simp add: db1_def)
    have q: "db_seq db1 = (if key e = 0 then (db_seq db)(t := i) else db_seq db)"
      using run(2) by (simp add: db1_def)
    have res: "(if \<exists>x \<in> set (tbl db). key x = i \<or> uniq x (setkey i e) then (Inl ErrConflict, db1)
        else (Inr (setkey i e), upd (\<lambda>rows. rows @ [setkey i e]) db1)) = (r, db')"
      using run(2,3) table_queryD [OF assms(2) run(1)] by (simp add: Let_def i_def db1_def cong: if_cong)
    show ?thesis
    proof (cases "\<exists>x \<in> set (tbl db). key x = i \<or> uniq x (setkey i e)")
      case True
      then show ?thesis using res s conflict [OF _ True i_def] by simp
    next
      case False
      then show ?thesis using res q inserted [OF _ s i_def] by simp
    qed
  qed (rule fault)
qed

lemma WithinTx_cases:
  assumes "WithinTx body db = (r, db')"
  obtains (commit) x db0 db1 where "r = Inr x" "same_tables db db0" "body db0 = (Inr x, db1)" "same_tables db1 db'"
    | (abort) e where "r = Inl e" "same_tables db db'"
proof -
  obtain r0 db0 where b: "stmt (ret ()) db = (r0, db0)" by force
  then have s0: "same_tables db db0"
    by (cases rule: stmt_cases) (auto simp: ret_def)
  show thesis
  proof (cases r0)
    case (Inl e)
    then have "r = Inl e" "db' = db0" using assms b by (simp_all add: WithinTx_def)
    then show thesis using s0 abort by blast
  next
    case (Inr u)
    obtain r1 db1 where body: "body db0 = (r1, db1)" by force
    show thesis
    proof (cases r1)
      case (Inl e)
      then have "r = Inl e" "db' = rollback db0 db1" using assms b body Inr by (simp_all add: WithinTx_def)
      then show thesis using s0 abort by simp
    next
      case x: (Inr x)
      obtain r2 db2 where c: "stmt (ret ()) db1 = (r2, db2)" by force
      then have s2: "same_tables db1 db2"
        by (cases rule: stmt_cases) (auto simp: ret_def)
      show thesis
      proof (cases r2)
        case (Inl e)
        then have "r = Inl e" "db' = rollback db0 db2"
          using assms b body \<open>r0 = Inr u\<close> x c by (simp_all add: WithinTx_def)
        then show thesis using s0 abort by simp
      next
        case (Inr v)
        then have "r = Inr x" "db' = db2"
          using assms b body \<open>r0 = Inr u\<close> x c by (simp_all add: WithinTx_def)
        then show thesis using s0 s2 body x commit by blast
      qed
    qed
  qed
qed

text \<open>A row of a table with unique keys is the one its key finds.\<close>

lemma find_key: "x \<in> set xs \<Longrightarrow> distinct (map k xs) \<Longrightarrow> find (\<lambda>z. k z = k x) xs = Some x"
  by (induction xs) (auto simp: image_iff)

lemma key_unique: "distinct (map k xs) \<Longrightarrow> x \<in> set xs \<Longrightarrow> y \<in> set xs \<Longrightarrow> k y = k x \<Longrightarrow> y = x"
  by (auto simp: distinct_map dest: inj_onD)

text \<open>Without faults statements run.\<close>

lemma stmt_no_fault [simp]: "db_faults db = [] \<Longrightarrow> stmt f db = f db"
  by (simp add: stmt_def)

lemma WithinTx_no_fault:
  "db_faults db = [] \<Longrightarrow> body db = (Inr x, db') \<Longrightarrow> db_faults db' = [] \<Longrightarrow> WithinTx body db = (Inr x, db')"
  by (simp add: WithinTx_def ret_def)

section \<open>The contract of a table\<close>

text \<open>
  What the services rely on: reading a row by its key leaves the tables alone, and an update
  either leaves them alone and fails or merges the new values into the row with that key.
\<close>

locale row_store =
  fixes tbl :: "DB \<Rightarrow> 'e list"
    and key :: "'e \<Rightarrow> nat"
    and Find :: "nat \<Rightarrow> (DB, 'e) handler"
    and Update :: "'e \<Rightarrow> (DB, unit) handler"
    and merge :: "DB \<Rightarrow> 'e \<Rightarrow> 'e \<Rightarrow> 'e"
  assumes query: "table_query tbl" and merge_query: "table_query merge"
    and find_reads: "Find i db = (r, db') \<Longrightarrow>
      same_tables db db' \<and> (\<forall>x. r = Inr x \<longrightarrow> x \<in> set (tbl db) \<and> key x = i)"
    and update_writes: "Update e db = (u, db') \<Longrightarrow>
      (\<exists>err. u = Inl err) \<and> same_tables db db' \<or>
      u = Inr () \<and> db_now db' = db_now db \<and>
      tbl db' = map (\<lambda>x. if key x = key e then merge db x e else x) (tbl db)"
    and merge_key: "key x = key e \<Longrightarrow> key (merge db x e) = key x"
begin

lemmas stable = table_queryD [OF query]

lemma Update_keys:
  assumes "Update e db = (r, db')"
  shows "map key (tbl db') = map key (tbl db)"
  using update_writes [OF assms] stable merge_key by auto

text \<open>The services' read, modify, write, read.\<close>

lemma read_modify_write:
  assumes "tryM (Find i) (\<lambda>e. if skip e then ret e else tryM (Update (f e)) (\<lambda>_. Find i)) db = (r, db')"
    and dist: "distinct (map key (tbl db))" and f: "\<And>e. key (f e) = key e"
  obtains (modified) x where "x \<in> set (tbl db)" "key x = i" "\<not> skip x"
      "tbl db' = map (\<lambda>y. if key y = i then merge db y (f y) else y) (tbl db)"
      "db_now db' = db_now db" "\<And>y. r = Inr y \<Longrightarrow> y = merge db x (f x)"
    | (kept) "same_tables db db'"
      "\<And>y. r = Inr y \<Longrightarrow> y \<in> set (tbl db) \<and> key y = i \<and> skip y"
proof -
  obtain r1 db1 where 1: "Find i db = (r1, db1)" by force
  note s1 = conjunct1 [OF find_reads [OF 1]] and found = conjunct2 [OF find_reads [OF 1]]
  have only: "y = x" if "x \<in> set (tbl db)" "y \<in> set (tbl db)" "key x = key y" for x y
    using that dist by (auto simp: distinct_map dest: inj_onD)
  show thesis
  proof (cases r1)
    case (Inl err)
    then show thesis using assms(1) 1 kept s1 by (auto simp: throw_def)
  next
    case (Inr x)
    then have x: "x \<in> set (tbl db)" "key x = i" using found by auto
    show thesis
    proof (cases "skip x")
      case True
      then show thesis using assms(1) 1 Inr x kept s1 by (auto simp: ret_def)
    next
      case False
      obtain r2 db2 where 2: "Update (f x) db1 = (r2, db2)" by force
      show thesis
      proof (cases r2)
        case (Inl err)
        then have "same_tables db1 db2" using update_writes [OF 2] by auto
        then show thesis
          using assms(1) 1 2 \<open>r1 = Inr x\<close> False Inl kept same_tables_trans [OF s1]
          by (auto simp: throw_def)
      next
        case Inr2: (Inr u)
        then have upd: "db_now db2 = db_now db1"
          "tbl db2 = map (\<lambda>y. if key y = key (f x) then merge db1 y (f x) else y) (tbl db1)"
          using update_writes [OF 2] by auto
        obtain r3 db3 where 3: "Find i db2 = (r3, db3)" by force
        then have res: "r = r3" "db' = db3"
          using assms(1) 1 2 \<open>r1 = Inr x\<close> Inr2 False by (auto simp: throw_def)
        note s3 = find_reads [OF 3]
        have m: "tbl db2 = map (\<lambda>y. if key y = i then merge db y (f y) else y) (tbl db)"
          unfolding upd(2) stable [OF s1] table_queryD [OF merge_query s1] f x(2)
          using only [OF x(1)] x(2) by (intro map_cong) auto
        have val: "y = merge db x (f x)" if y: "r = Inr y" for y
        proof -
          have ym: "y \<in> set (tbl db2)" "key y = i" using s3 y [unfolded res(1)] by blast+
          obtain z where z: "y = (if key z = i then merge db z (f z) else z)" "z \<in> set (tbl db)"
            using ym(1) unfolding m set_map by (rule imageE)
          then have "key z = i" using ym(2) by (auto split: if_splits)
          then show ?thesis using z only [OF x(1) z(2)] x(2) by simp
        qed
        have t3: "tbl db' = tbl db2" "db_now db' = db_now db2"
          using s3 stable same_tables_fields(11) unfolding res(2) by blast+
        show thesis
        proof (rule modified [OF x False])
          show "tbl db' = map (\<lambda>y. if key y = i then merge db y (f y) else y) (tbl db)"
            unfolding t3 by (rule m)
          show "db_now db' = db_now db"
            unfolding t3 upd(1) by (rule same_tables_fields(11) [OF s1])
        qed (rule val)
      qed
    qed
  qed
qed

end

text \<open>The statements above meet the contract.\<close>

lemma find_row_reads:
  assumes "find_row tbl p db = (r, db')" "table_query tbl"
  shows "same_tables db db' \<and> (\<forall>x. r = Inr x \<longrightarrow> x \<in> set (tbl db) \<and> p x)"
  using assms by (cases rule: find_row_cases) (auto simp: find_Some_iff)

lemma update_row_writes:
  assumes "update_row tbl upd key merge uniq e db = (r, db')" "table_query tbl"
    and "\<And>f db. tbl (upd f db) = f (tbl db) \<and> db_now (upd f db) = db_now db"
  shows "(\<exists>err. r = Inl err) \<and> same_tables db db' \<or>
      r = Inr () \<and> db_now db' = db_now db \<and>
      tbl db' = map (\<lambda>x. if key x = key e then merge (db_now db) x e else x) (tbl db)"
  using assms(1,2)
proof (cases rule: update_row_cases)
  case (updated db0)
  then show ?thesis
    using assms(3) table_queryD [OF assms(2) updated(2)] same_tables_fields(11) [OF updated(2)] by auto
qed auto


section \<open>Parts of the database a handler leaves alone\<close>

text \<open>
  A part \<open>q\<close> of the tables that does not depend on faults and sequences; \<open>keeps m\<close> says that
  the handler \<open>m\<close> never changes it, whatever its result.
\<close>

locale kept_part =
  fixes q :: "DB \<Rightarrow> 'q"
  assumes stable: "table_query q"
begin

definition keeps :: "(DB, 'a) handler \<Rightarrow> bool" where
  "keeps m \<longleftrightarrow> (\<forall>db r db'. m db = (r, db') \<longrightarrow> q db' = q db)"

lemma keepsD: "keeps m \<Longrightarrow> m db = (r, db') \<Longrightarrow> q db' = q db"
  by (simp add: keeps_def)

lemma keeps_basic [intro, simp]: "keeps (ret x)" "keeps (throw e)" "keeps (lift y)" "keeps (gets g)"
  by (simp_all add: keeps_def handler_defs)

lemma keeps_if_err [intro]:
  assumes "keeps m" "\<And>e. keeps (h e)" "\<And>x. keeps (f x)"
  shows "keeps (if_err m h f)"
  unfolding keeps_def
proof (intro allI impI)
  fix db r db'
  assume a: "if_err m h f db = (r, db')"
  obtain r1 db1 where 1: "m db = (r1, db1)" by force
  then have "q db' = q db1" using a assms(2,3) by (cases r1) (auto dest: keepsD)
  then show "q db' = q db" using keepsD [OF assms(1) 1] by simp
qed

lemma keeps_if [intro]: "keeps m \<Longrightarrow> keeps m' \<Longrightarrow> keeps (if b then m else m')"
  by simp

lemma keeps_if_app: "keeps m \<Longrightarrow> keeps m' \<Longrightarrow> keeps (\<lambda>db. if b then m db else m' db)"
  by (cases b) simp_all

lemma keeps_prod: "(\<And>a b. keeps (f a b)) \<Longrightarrow> keeps (case x of (a, b) \<Rightarrow> f a b)"
  by (cases x) simp

lemma keeps_option: "keeps m \<Longrightarrow> (\<And>y. keeps (f y)) \<Longrightarrow> keeps (case x of None \<Rightarrow> m | Some y \<Rightarrow> f y)"
  by (cases x) simp_all

text \<open>A handler that looks at the database it starts in.\<close>

lemma keeps_env: "(\<And>d. keeps (m d)) \<Longrightarrow> keeps (\<lambda>db. m db db)"
  by (auto simp: keeps_def)

lemma keeps_reads: "(\<And>db r db'. m db = (r, db') \<Longrightarrow> same_tables db db') \<Longrightarrow> keeps m"
  using table_queryD [OF stable] by (auto simp: keeps_def)

lemma keeps_stmt [intro]: "keeps f \<Longrightarrow> keeps (stmt f)"
  unfolding keeps_def
proof (intro allI impI)
  fix db r db'
  assume f: "\<forall>db r db'. f db = (r, db') \<longrightarrow> q db' = q db" and "stmt f db = (r, db')"
  from this(2) show "q db' = q db"
    by (cases rule: stmt_cases) (use f table_queryD [OF stable] in \<open>metis+\<close>)
qed

lemma keeps_find_row [intro]: "table_query tbl \<Longrightarrow> keeps (find_row tbl p)"
  using find_row_reads by (intro keeps_reads) blast

lemma keeps_select_rows [intro]: "keeps (select_rows g)"
  unfolding select_rows_def by (rule keeps_stmt) simp

lemma keeps_insert_row [intro]:
  assumes "\<And>f db. q (upd f db) = q db"
  shows "keeps (insert_row t tbl upd key setkey uniq e)"
proof -
  have "q (db\<lparr>db_seq := s\<rparr>) = q db" for db s by (rule table_queryD [OF stable]) simp
  then show ?thesis
    unfolding insert_row_def by (intro keeps_stmt) (auto simp: keeps_def Let_def assms split: if_splits)
qed

lemma keeps_update_row [intro]:
  assumes "\<And>f db. q (upd f db) = q db"
  shows "keeps (update_row tbl upd key merge uniq e)"
  unfolding update_row_def by (intro keeps_stmt) (auto simp: keeps_def assms split: if_splits)

lemma keeps_with_jsonb [intro]:
  assumes "\<And>c. keeps (k c)"
  shows "keeps (with_jsonb raw k)"
  unfolding keeps_def
proof (intro allI impI)
  fix db r db'
  assume a: "with_jsonb raw k db = (r, db')"
  show "q db' = q db"
  proof (cases "db_jsonb db raw")
    case (Inl e)
    then have "stmt (throw e) db = (r, db')" using a by (simp add: with_jsonb_def)
    then show ?thesis by (rule keepsD [OF keeps_stmt [OF keeps_basic(2)]])
  next
    case (Inr c)
    then show ?thesis using a keepsD [OF assms] by (simp add: with_jsonb_def)
  qed
qed

lemma keeps_WithinTx [intro]:
  assumes "keeps m"
  shows "keeps (WithinTx m)"
  unfolding keeps_def
proof (intro allI impI)
  fix db r db'
  assume "WithinTx m db = (r, db')"
  then show "q db' = q db"
  proof (cases rule: WithinTx_cases)
    case (commit x db0 db1)
    then show ?thesis using keepsD [OF assms commit(3)] table_queryD [OF stable] by metis
  qed (rule table_queryD [OF stable])
qed

lemmas keeps_rules = keeps_basic keeps_if_err keeps_if keeps_prod keeps_option keeps_select_rows keeps_with_jsonb
  keeps_WithinTx

end


text \<open>The handlers that only read.\<close>

interpretation tables: kept_part core
  by unfold_locales (simp add: table_query_def same_tables_def)

lemma tables_keepsD: "tables.keeps m \<Longrightarrow> m db = (r, db') \<Longrightarrow> same_tables db db'"
  by (simp add: same_tables_def tables.keepsD)

lemma tables_keepsI: "(\<And>db r db'. m db = (r, db') \<Longrightarrow> same_tables db db') \<Longrightarrow> tables.keeps m"
  by (rule tables.keeps_reads)

end
