(* ===== verification/Journal.thy ===== *)
theory Journal
  imports Database
begin

text \<open>
  The operation journal: \<^verbatim>\<open>vfs_operation_journal_service.go\<close> and its repository
  \<^verbatim>\<open>vfs_operation_repo_impl.go\<close>. Operations are recorded, leased to workers, and marked as
  succeeded or failed; payloads and messages are stripped of secrets before they are stored.
  JSON encoding and decoding is a parameter (\<open>JSONCodec\<close>); a payload value is one of
  the Go values the code distinguishes (theory Database). The clock of the service is the current time of the
  database state.
\<close>

section \<open>Repository\<close>

record VFSOperationDueFilter =
  due_OperationType :: string
  due_Statuses :: "string list"
  due_DueBefore :: gotime
  due_Limit :: int
  due_IncludeLocked :: bool

record VFSOperationLock =
  lock_WorkerID :: string
  lock_LockedUntil :: gotime

text \<open>
  Rows of the journal. \<^verbatim>\<open>payload_json\<close> is a \<^verbatim>\<open>jsonb\<close> column: the server stores the normalised
  text and refuses invalid JSON.
\<close>

definition op_setID :: "nat \<Rightarrow> VFSOperation \<Rightarrow> VFSOperation" where
  "op_setID i o1 = o1\<lparr>op_ID := i\<rparr>"

definition op_merge :: "gotime \<Rightarrow> VFSOperation \<Rightarrow> VFSOperation \<Rightarrow> VFSOperation" where
  "op_merge now old new = new\<lparr>op_ID := op_ID old, op_CreatedAt := op_CreatedAt old, op_UpdatedAt := now\<rparr>"

text \<open>GORM fills zero time stamps of a new row.\<close>

definition op_stamp :: "gotime \<Rightarrow> VFSOperation \<Rightarrow> VFSOperation" where
  "op_stamp now o1 =
     o1\<lparr>op_CreatedAt := (if op_CreatedAt o1 = 0 then now else op_CreatedAt o1),
        op_UpdatedAt := (if op_UpdatedAt o1 = 0 then now else op_UpdatedAt o1)\<rparr>"

definition op_Create :: "VFSOperation \<Rightarrow> (DB, VFSOperation) handler" where
  "op_Create operation db =
     (let payload = jsonObject (op_PayloadJSON operation) in
      with_jsonb payload (\<lambda>canon.
        tryM (insert_row ''vfs_operations'' db_ops db_ops_update op_ID op_setID (\<lambda>_ _. False)
                (op_stamp (db_now db) (operation\<lparr>op_PayloadJSON := canon\<rparr>))) (\<lambda>row.
          ret (row\<lparr>op_PayloadJSON := payload\<rparr>))) db)"

definition op_Update :: "VFSOperation \<Rightarrow> (DB, unit) handler" where
  "op_Update operation =
     with_jsonb (jsonObject (op_PayloadJSON operation)) (\<lambda>canon.
       update_row db_ops db_ops_update op_ID op_merge (\<lambda>_ _. False) (operation\<lparr>op_PayloadJSON := canon\<rparr>))"

definition op_FindByID :: "nat \<Rightarrow> (DB, VFSOperation) handler" where
  "op_FindByID i = find_row db_ops (\<lambda>x. op_ID x = i)"

definition due :: "gotime \<Rightarrow> VFSOperationDueFilter \<Rightarrow> VFSOperation \<Rightarrow> bool" where
  "due now filt x \<longleftrightarrow>
     (let statuses = (if due_Statuses filt = []
              then [VFSOperationStatusPending, VFSOperationStatusFailed, VFSOperationStatusRunning]
              else due_Statuses filt);
          dueBefore = (if due_DueBefore filt = 0 then now else due_DueBefore filt)
      in op_Status x \<in> set statuses \<and>
         (due_OperationType filt \<noteq> [] \<longrightarrow> op_OperationType x = due_OperationType filt) \<and>
         (case op_NextRetryAt x of None \<Rightarrow> True | Some t \<Rightarrow> t \<le> dueBefore) \<and>
         (due_IncludeLocked filt \<or> (case op_LockedUntil x of None \<Rightarrow> True | Some t \<Rightarrow> t \<le> dueBefore)))"

definition due_limit :: "VFSOperationDueFilter \<Rightarrow> nat" where
  "due_limit filt = (if due_Limit filt \<le> 0 \<or> due_Limit filt > 200 then 100 else nat (due_Limit filt))"

text \<open>\<^verbatim>\<open>ORDER BY next_retry_at ASC NULLS FIRST, id ASC\<close>\<close>

definition due_key :: "VFSOperation \<Rightarrow> int \<times> int \<times> nat" where
  "due_key x = (case op_NextRetryAt x of None \<Rightarrow> (0, 0, op_ID x) | Some t \<Rightarrow> (1, t, op_ID x))"

definition op_ListDue :: "VFSOperationDueFilter \<Rightarrow> (DB, VFSOperation list) handler" where
  "op_ListDue filt =
     select_rows (\<lambda>db. take (due_limit filt) (sort_key due_key (filter (due (db_now db) filt) (db_ops db))))"

text \<open>
  \<^verbatim>\<open>AcquireDue\<close> selects with \<^verbatim>\<open>FOR UPDATE SKIP LOCKED\<close>: rows another running transaction
  has locked, the argument \<open>locked\<close>, are left out before the limit applies.
\<close>

definition op_AcquireDue ::
  "nat list \<Rightarrow> VFSOperationDueFilter \<Rightarrow> VFSOperationLock \<Rightarrow> (DB, VFSOperation list) handler" where
  "op_AcquireDue locked filt lock db =
     (let worker = (if lock_WorkerID lock = [] then ''vfs-operation-worker'' else lock_WorkerID lock);
          lockedUntil = (if lock_LockedUntil lock = 0 then db_now db + 5 * 60 * 10 ^ 9 else lock_LockedUntil lock)
      in WithinTx
           (tryM (select_rows (\<lambda>db. take (due_limit filt)
                    (sort_key due_key (filter (\<lambda>x. due (db_now db) filt x \<and> op_ID x \<notin> set locked) (db_ops db)))))
              (\<lambda>models.
                 if models = [] then ret []
                 else
                   let ids = map op_ID models
                   in tryM (stmt (modify (\<lambda>db. db_ops_update (map (\<lambda>x.
                          if op_ID x \<in> set ids
                          then x\<lparr>op_Status := VFSOperationStatusRunning, op_LockedBy := worker,
                                 op_LockedUntil := Some lockedUntil, op_UpdatedAt := db_now db\<rparr>
                          else x)) db))) (\<lambda>_.
                      select_rows (\<lambda>db. sort_key due_key (filter (\<lambda>x. op_ID x \<in> set ids) (db_ops db)))))) db)"

section \<open>Redaction\<close>

abbreviation "vfsOperationRedactedValue \<equiv> ''[redacted]''"

definition looksLikeWindowsPhysicalPath :: "string \<Rightarrow> bool" where
  "looksLikeWindowsPhysicalPath value =
     (if HasPrefix value [CHR 0x5C, CHR 0x5C] then True
      else if length value < 3 then False
      else
        let drive = (of_char (value ! 0) :: nat)
        in (65 \<le> drive \<and> drive \<le> 90 \<or> 97 \<le> drive \<and> drive \<le> 122) \<and> value ! 1 = CHR '':'' \<and>
           (value ! 2 = CHR 0x5C \<or> value ! 2 = CHR ''/''))"

definition looksLikeUnixPhysicalPath :: "(string \<Rightarrow> string) \<Rightarrow> string \<Rightarrow> bool" where
  "looksLikeUnixPhysicalPath uni value =
     (let lower = ToLower uni value
      in list_ex (HasPrefix lower)
        [''/mnt/'', ''/var/'', ''/tmp/'', ''/home/'', ''/root/'', ''/data/'', ''/opt/'', ''/etc/'',
         ''/srv/'', ''/usr/'', ''/volumes/'', ''/users/''])"

definition isSensitiveVFSOperationPayloadKey :: "(string \<Rightarrow> string) \<Rightarrow> string \<Rightarrow> bool" where
  "isSensitiveVFSOperationPayloadKey uni key =
     (let normalized = ToLower uni (TrimSpace key)
      in list_ex (Contains normalized)
        [''payload'', ''provider'', ''token'', ''secret'', ''password'', ''credential'', ''config'',
         ''dsn'', ''sql'', ''query'', ''locator'', ''path'', ''file_id'', ''object_key'', ''oss''])"

definition containsSensitiveVFSOperationText :: "(string \<Rightarrow> string) \<Rightarrow> string \<Rightarrow> bool" where
  "containsSensitiveVFSOperationText uni value =
     (let trimmed = TrimSpace value in
      if trimmed = [] then False
      else
        let lower = ToLower uni trimmed
        in if list_ex (Contains lower)
             [''sql:'', ''select '', ''insert '', ''update '', ''delete '', ''duplicate key'',
              ''provider payload'', ''provider-payload'', ''access_token'', ''refresh_token'',
              ''secret'', ''password'', ''credential'', ''private_key'']
           then True
           else looksLikeWindowsPhysicalPath trimmed \<or> looksLikeUnixPhysicalPath uni trimmed)"

fun sanitizeVFSOperationPayloadValue :: "(string \<Rightarrow> string) \<Rightarrow> payload_value \<Rightarrow> payload_value" where
  "sanitizeVFSOperationPayloadValue uni (PayloadString s) =
     (if containsSensitiveVFSOperationText uni s then PayloadString vfsOperationRedactedValue else PayloadString s)"
| "sanitizeVFSOperationPayloadValue uni (PayloadList items) =
     PayloadList (map (sanitizeVFSOperationPayloadValue uni) items)"
| "sanitizeVFSOperationPayloadValue uni (PayloadMap m) =
     PayloadMap (map (\<lambda>(k, v). (k, if isSensitiveVFSOperationPayloadKey uni k
                       then PayloadString vfsOperationRedactedValue
                       else sanitizeVFSOperationPayloadValue uni v)) m)"
| "sanitizeVFSOperationPayloadValue uni (PayloadOther enc) =
     (case enc of
        None \<Rightarrow> PayloadString vfsOperationRedactedValue
      | Some text \<Rightarrow> if containsSensitiveVFSOperationText uni text
          then PayloadString vfsOperationRedactedValue else PayloadOther enc)"
| "sanitizeVFSOperationPayloadValue uni v = v"

definition sanitizeVFSOperationPayloadMap ::
  "(string \<Rightarrow> string) \<Rightarrow> (string \<times> payload_value) list \<Rightarrow> (string \<times> payload_value) list" where
  "sanitizeVFSOperationPayloadMap uni payload =
     map (\<lambda>(k, v). (k, if isSensitiveVFSOperationPayloadKey uni k
                       then PayloadString vfsOperationRedactedValue
                       else sanitizeVFSOperationPayloadValue uni v)) payload"

definition normalizeVFSOperationPayload ::
  "(string \<Rightarrow> string) \<Rightarrow> JSONCodec \<Rightarrow> (string \<times> payload_value) list option \<Rightarrow> string \<Rightarrow> string result" where
  "normalizeVFSOperationPayload uni json payload raw =
     (let encode = (\<lambda>m. tryp (json_Marshal json (sanitizeVFSOperationPayloadMap uni m)) (\<lambda>data.
             if length data > 4096 then Inr ''{\"omitted\":true}'' else Inr data))
      in case payload of
           Some m \<Rightarrow> encode m
         | None \<Rightarrow>
             (let trimmed = TrimSpace raw
              in if trimmed = [] \<or> EqualFold_null trimmed then Inr ''{}''
                 else if length trimmed > 4096 then Inr ''{\"omitted\":true}''
                 else if \<not> json_Valid json trimmed then Inr ''{}''
                 else if_errp (json_Unmarshal json trimmed) (\<lambda>_. Inr ''{}'') encode))"

definition stableVFSOperationErrorCode :: "string \<Rightarrow> app_error option \<Rightarrow> string" where
  "stableVFSOperationErrorCode preferred err =
     (let code = TrimSpace preferred
      in if code \<noteq> [] then code
         else case err of
             None \<Rightarrow> []
           | Some e \<Rightarrow>
               if errors_Is e ErrMetadataVFSMutationSyncFailed then ''METADATA_VFS_MUTATION_SYNC_FAILED''
               else if errors_Is e ErrMetadataVFSCommitFailed then ''METADATA_VFS_COMMIT_FAILED''
               else if errors_Is e ErrVFSSyncConflict then ''VFS_SYNC_CONFLICT''
               else if errors_Is e ErrSourceOperationUnsupported \<or> errors_Is e ErrSourceDriverUnsupported
                    then ''SOURCE_OPERATION_UNSUPPORTED''
               else ''VFS_OPERATION_FAILED'')"

definition sanitizeVFSOperationErrorMessage :: "string \<Rightarrow> app_error option \<Rightarrow> string" where
  "sanitizeVFSOperationErrorMessage errorCode err =
     (case err of
        None \<Rightarrow> []
      | Some _ \<Rightarrow>
          if errorCode = ''METADATA_VFS_MUTATION_SYNC_FAILED'' then ''metadata vfs mutation sync failed''
          else if errorCode = ''METADATA_VFS_COMMIT_FAILED'' then ''metadata vfs commit failed''
          else if errorCode = ''VFS_SYNC_CONFLICT'' then ''vfs sync conflict''
          else if errorCode = ''SOURCE_OPERATION_UNSUPPORTED'' then ''source operation unsupported''
          else ''vfs operation failed'')"

definition sanitizedVFSOperationReturnedError :: "app_error \<Rightarrow> app_error" where
  "sanitizedVFSOperationReturnedError err =
     ErrOther (sanitizeVFSOperationErrorMessage (stableVFSOperationErrorCode [] (Some err)) (Some err))"

text \<open>
  \<^verbatim>\<open>[]rune(s)\<close> and back: the UTF-8 sequences of a string; a byte that does not start a valid
  sequence becomes the replacement character.
\<close>

function runes :: "string \<Rightarrow> string list" where
  "runes s =
     (if s = [] then []
      else
        let w = rune_width (map of_char (take 4 s))
        in if w = 0 then [CHR 0xEF, CHR 0xBF, CHR 0xBD] # runes (tl s)
           else take w s # runes (drop w s))"
  by pat_completeness auto
termination by (relation "measure length") auto

declare runes.simps [simp del]

definition containsSensitiveVFSOperationSnapshot :: "(string \<Rightarrow> string) \<Rightarrow> string \<Rightarrow> bool" where
  "containsSensitiveVFSOperationSnapshot uni value =
     (let lower = ToLower uni (TrimSpace value)
      in if lower = [] then False
         else looksLikeWindowsPhysicalPath value \<or>
              list_ex (Contains lower)
                [''sql:'', ''duplicate key'', ''provider payload'', ''provider-payload'',
                 ''access_token'', ''refresh_token''])"

definition normalizeVFSOperationSnapshot :: "(string \<Rightarrow> string) \<Rightarrow> string \<Rightarrow> string" where
  "normalizeVFSOperationSnapshot uni value =
     (let trimmed = TrimSpace value
      in if containsSensitiveVFSOperationSnapshot uni trimmed then []
         else
           let rs = runes trimmed
           in if length rs \<le> 1024 then trimmed else concat (take 1024 rs))"

section \<open>Service\<close>

record VFSOperationRecordInput =
  in_OperationType :: string
  in_SourceNodeID :: "nat option"
  in_TargetParentNodeID :: "nat option"
  in_ResultNodeID :: "nat option"
  in_SourcePathSnapshot :: string
  in_TargetPathSnapshot :: string
  in_SourceIDSnapshot :: "nat option"
  in_DriverTypeSnapshot :: string
  in_Payload :: "(string \<times> payload_value) list option"
  in_PayloadJSON :: string
  in_ErrorCode :: string
  in_Error :: "app_error option"
  in_CreatedBy :: "nat option"
  in_NextRetryAt :: "gotime option"

text \<open>
  The service; a missing repository is \<open>svc_repo = False\<close>. \<open>svc_uni\<close> is the Unicode lower-case
  table and \<open>svc_json\<close> the JSON package.
\<close>

record VFSOperationJournalService =
  svc_repo :: bool
  svc_lockDuration :: int
  svc_uni :: "string \<Rightarrow> string"
  svc_json :: JSONCodec

abbreviation minute :: int where
  "minute \<equiv> 60 * 10 ^ 9"

definition vfsOperationRetryBackoff :: "int \<Rightarrow> int" where
  "vfsOperationRetryBackoff retryCount =
     (if retryCount \<le> 1 then minute
      else if retryCount = 2 then 5 * minute
      else if retryCount = 3 then 30 * minute
      else 120 * minute)"

definition isValidVFSOperationType :: "string \<Rightarrow> bool" where
  "isValidVFSOperationType operationType \<longleftrightarrow>
     TrimSpace operationType \<in> set [VFSOperationTypeMkdir, VFSOperationTypeRename, VFSOperationTypeMove,
       VFSOperationTypeCopy, VFSOperationTypeDelete, VFSOperationTypeImport,
       VFSOperationTypeUploadCommit, VFSOperationTypeTaskCommit, VFSOperationTypeRefresh]"

definition record_op ::
  "VFSOperationJournalService \<Rightarrow> VFSOperationRecordInput \<Rightarrow> string \<Rightarrow> (DB, VFSOperation) handler" where
  "record_op s input status db =
     (if \<not> svc_repo s then throw ErrSourceDriverUnsupported db
      else if \<not> isValidVFSOperationType (in_OperationType input) then throw ErrConfigInvalid db
      else
        tryM (lift (normalizeVFSOperationPayload (svc_uni s) (svc_json s) (in_Payload input) (in_PayloadJSON input)))
          (\<lambda>payloadJSON.
             let errorCode = stableVFSOperationErrorCode (in_ErrorCode input) (in_Error input)
             in op_Create
                  \<lparr>op_ID = 0, op_OperationType = in_OperationType input, op_Status = status,
                   op_SourceNodeID = in_SourceNodeID input,
                   op_TargetParentNodeID = in_TargetParentNodeID input,
                   op_ResultNodeID = in_ResultNodeID input,
                   op_SourcePathSnapshot = normalizeVFSOperationSnapshot (svc_uni s) (in_SourcePathSnapshot input),
                   op_TargetPathSnapshot = normalizeVFSOperationSnapshot (svc_uni s) (in_TargetPathSnapshot input),
                   op_SourceIDSnapshot = in_SourceIDSnapshot input,
                   op_DriverTypeSnapshot = TrimSpace (in_DriverTypeSnapshot input),
                   op_PayloadJSON = payloadJSON, op_ErrorCode = errorCode,
                   op_ErrorMessage = sanitizeVFSOperationErrorMessage errorCode (in_Error input),
                   op_RetryCount = 0, op_NextRetryAt = in_NextRetryAt input, op_LockedBy = [],
                   op_LockedUntil = None, op_CreatedBy = in_CreatedBy input,
                   op_CreatedAt = db_now db, op_UpdatedAt = db_now db\<rparr>) db)"

definition RecordPending ::
  "VFSOperationJournalService \<Rightarrow> VFSOperationRecordInput \<Rightarrow> (DB, VFSOperation) handler" where
  "RecordPending s input = record_op s input VFSOperationStatusPending"

definition RecordFailure ::
  "VFSOperationJournalService \<Rightarrow> VFSOperationRecordInput \<Rightarrow> (DB, VFSOperation) handler" where
  "RecordFailure s input db =
     record_op s
       (if in_NextRetryAt input = None
        then input\<lparr>in_NextRetryAt := Some (db_now db + vfsOperationRetryBackoff 1)\<rparr> else input)
       VFSOperationStatusFailed db"

text \<open>The read, modify, write, read of the three marking operations.\<close>

definition mark_op ::
  "VFSOperationJournalService \<Rightarrow> nat \<Rightarrow> (VFSOperation \<Rightarrow> bool) \<Rightarrow> (VFSOperation \<Rightarrow> VFSOperation) \<Rightarrow> (DB, VFSOperation) handler" where
  "mark_op s i terminal change =
     (if \<not> svc_repo s then throw ErrSourceDriverUnsupported
      else tryM (op_FindByID i) (\<lambda>operation.
        if terminal operation then ret operation
        else tryM (op_Update (change operation)) (\<lambda>_. op_FindByID i)))"

definition MarkRunning :: "VFSOperationJournalService \<Rightarrow> nat \<Rightarrow> string \<Rightarrow> (DB, VFSOperation) handler" where
  "MarkRunning s i workerID db =
     mark_op s i
       (\<lambda>x. op_Status x = VFSOperationStatusSucceeded \<or> op_Status x = VFSOperationStatusCanceled)
       (\<lambda>x. x\<lparr>op_Status := VFSOperationStatusRunning,
              op_LockedBy := (if workerID = [] then ''vfs-operation-worker'' else workerID),
              op_LockedUntil := Some (db_now db + svc_lockDuration s), op_UpdatedAt := db_now db\<rparr>) db"

definition MarkSucceeded :: "VFSOperationJournalService \<Rightarrow> nat \<Rightarrow> (DB, VFSOperation) handler" where
  "MarkSucceeded s i db =
     mark_op s i
       (\<lambda>x. op_Status x = VFSOperationStatusSucceeded)
       (\<lambda>x. x\<lparr>op_Status := VFSOperationStatusSucceeded, op_ErrorCode := [], op_ErrorMessage := [],
              op_NextRetryAt := None, op_LockedBy := [], op_LockedUntil := None,
              op_UpdatedAt := db_now db\<rparr>) db"

definition MarkFailed :: "VFSOperationJournalService \<Rightarrow> nat \<Rightarrow> app_error option \<Rightarrow> (DB, VFSOperation) handler" where
  "MarkFailed s i err db =
     mark_op s i
       (\<lambda>x. op_Status x = VFSOperationStatusSucceeded \<or> op_Status x = VFSOperationStatusCanceled)
       (\<lambda>x. let retryCount = wrap64 (op_RetryCount x + 1);
                code = stableVFSOperationErrorCode [] err
            in x\<lparr>op_Status := VFSOperationStatusFailed, op_ErrorCode := code,
                 op_ErrorMessage := sanitizeVFSOperationErrorMessage code err,
                 op_RetryCount := retryCount,
                 op_NextRetryAt := Some (db_now db + vfsOperationRetryBackoff retryCount),
                 op_LockedBy := [], op_LockedUntil := None, op_UpdatedAt := db_now db\<rparr>) db"

definition ListDue :: "VFSOperationJournalService \<Rightarrow> int \<Rightarrow> (DB, VFSOperation list) handler" where
  "ListDue s limit db =
     (if \<not> svc_repo s then throw ErrSourceDriverUnsupported db
      else op_ListDue \<lparr>due_OperationType = [], due_Statuses = [], due_DueBefore = db_now db,
                       due_Limit = limit, due_IncludeLocked = False\<rparr> db)"

definition AcquireDue ::
  "VFSOperationJournalService \<Rightarrow> nat list \<Rightarrow> string \<Rightarrow> int \<Rightarrow> (DB, VFSOperation list) handler" where
  "AcquireDue s locked workerID limit db =
     (if \<not> svc_repo s then throw ErrSourceDriverUnsupported db
      else op_AcquireDue locked
             \<lparr>due_OperationType = [], due_Statuses = [], due_DueBefore = db_now db,
              due_Limit = limit, due_IncludeLocked = False\<rparr>
             \<lparr>lock_WorkerID = workerID, lock_LockedUntil = db_now db + svc_lockDuration s\<rparr> db)"

text \<open>\<^verbatim>\<open>errors.Join\<close> of an error that may be nil with one that is not.\<close>

definition join_err :: "app_error option \<Rightarrow> app_error \<Rightarrow> app_error option" where
  "join_err joined e = (case joined of None \<Rightarrow> Some e | Some j \<Rightarrow> Some (ErrJoin j e))"

fun process_loop ::
  "VFSOperationJournalService \<Rightarrow> (VFSOperation \<Rightarrow> (DB, unit) handler) \<Rightarrow> VFSOperation list \<Rightarrow>
   app_error option \<Rightarrow> DB \<Rightarrow> app_error option \<times> DB" where
  "process_loop s processor [] joined db = (joined, db)"
| "process_loop s processor (operation # operations) joined db =
     (case processor operation db of
        (Inl processErr, db1) \<Rightarrow>
          (let joined1 = join_err joined (sanitizedVFSOperationReturnedError processErr)
           in case MarkFailed s (op_ID operation) (Some processErr) db1 of
                (Inl markErr, db2) \<Rightarrow>
                  process_loop s processor operations
                    (join_err joined1 (sanitizedVFSOperationReturnedError markErr)) db2
              | (Inr _, db2) \<Rightarrow> process_loop s processor operations joined1 db2)
      | (Inr _, db1) \<Rightarrow>
          (case MarkSucceeded s (op_ID operation) db1 of
             (Inl markErr, db2) \<Rightarrow>
               process_loop s processor operations
                 (join_err joined (sanitizedVFSOperationReturnedError markErr)) db2
           | (Inr _, db2) \<Rightarrow> process_loop s processor operations joined db2))"

text \<open>\<^verbatim>\<open>ProcessDue\<close> returns the number of operations and the joined error.\<close>

definition ProcessDue ::
  "VFSOperationJournalService \<Rightarrow> nat list \<Rightarrow> string \<Rightarrow> int \<Rightarrow> (VFSOperation \<Rightarrow> (DB, unit) handler) option \<Rightarrow>
   DB \<Rightarrow> (nat \<times> app_error option) \<times> DB" where
  "ProcessDue s locked workerID limit processor db =
     (case processor of
        None \<Rightarrow> ((0, Some ErrSourceOperationUnsupported), db)
      | Some run \<Rightarrow>
          (case AcquireDue s locked workerID limit db of
             (Inl err, db1) \<Rightarrow> ((0, Some err), db1)
           | (Inr operations, db1) \<Rightarrow>
               (case process_loop s run operations None db1 of
                  (joined, db2) \<Rightarrow> ((length operations, joined), db2))))"

section \<open>The journal table meets the contract of a table\<close>

definition op_stored :: "DB \<Rightarrow> VFSOperation \<Rightarrow> VFSOperation \<Rightarrow> VFSOperation" where
  "op_stored db old new =
     op_merge (db_now db) old
       (new\<lparr>op_PayloadJSON := (case db_jsonb db (jsonObject (op_PayloadJSON new)) of
          Inr canon \<Rightarrow> canon | Inl _ \<Rightarrow> op_PayloadJSON new)\<rparr>)"

lemma op_Update_cases:
  assumes "op_Update e db = (r, db')"
  shows "(\<exists>err. r = Inl err) \<and> same_tables db db' \<or>
      r = Inr () \<and> db_now db' = db_now db \<and>
      db_ops db' = map (\<lambda>x. if op_ID x = op_ID e then op_stored db x e else x) (db_ops db)"
proof (cases "db_jsonb db (jsonObject (op_PayloadJSON e))")
  case (Inl err)
  then have "stmt (throw err) db = (r, db')" using assms by (simp add: op_Update_def with_jsonb_def)
  then show ?thesis by (cases rule: stmt_cases) (auto simp: throw_def)
next
  case (Inr canon)
  then have "update_row db_ops db_ops_update op_ID op_merge (\<lambda>_ _. False) (e\<lparr>op_PayloadJSON := canon\<rparr>) db = (r, db')"
    using assms by (simp add: op_Update_def with_jsonb_def)
  moreover have "op_merge (db_now db) x (e\<lparr>op_PayloadJSON := canon\<rparr>) = op_stored db x e" for x
    using Inr by (simp add: op_stored_def)
  ultimately show ?thesis using update_row_writes [of db_ops db_ops_update op_ID op_merge] by fastforce
qed

interpretation journal: row_store db_ops op_ID op_FindByID op_Update op_stored
proof
  show "table_query op_stored"
    by (auto simp: table_query_def op_stored_def same_tables_fields fun_eq_iff)
  show "same_tables db db' \<and> (\<forall>x. r = Inr x \<longrightarrow> x \<in> set (db_ops db) \<and> op_ID x = i)"
    if "op_FindByID i db = (r, db')" for i db r db'
    using find_row_reads [OF that [unfolded op_FindByID_def]] by simp
  show "op_ID (op_stored db x e) = op_ID x" if "op_ID x = op_ID e" for db x e
    by (simp add: op_stored_def op_merge_def)
qed (simp, rule op_Update_cases)

text \<open>Effect of the three marking operations on the table.\<close>

lemma mark_op_cases:
  assumes "mark_op s i terminal change db = (r, db')"
    and "distinct (map op_ID (db_ops db))" and "\<And>e. op_ID (change e) = op_ID e"
  obtains (modified) x where "x \<in> set (db_ops db)" "op_ID x = i" "\<not> terminal x"
      "db_ops db' = map (\<lambda>y. if op_ID y = i then op_stored db y (change y) else y) (db_ops db)"
      "db_now db' = db_now db" "\<And>y. r = Inr y \<Longrightarrow> y = op_stored db x (change x)"
    | (kept) "same_tables db db'"
      "\<And>y. r = Inr y \<Longrightarrow> y \<in> set (db_ops db) \<and> op_ID y = i \<and> terminal y"
proof (cases "svc_repo s")
  case False
  then show ?thesis using assms(1) kept by (auto simp: mark_op_def throw_def)
next
  case True
  then have "tryM (op_FindByID i) (\<lambda>e. if terminal e then ret e
      else tryM (op_Update (change e)) (\<lambda>_. op_FindByID i)) db = (r, db')"
    using assms(1) by (simp add: mark_op_def)
  from journal.read_modify_write [OF this assms(2,3)] show ?thesis using modified kept by blast
qed

lemma op_stored_fields [simp]:
  "op_Status (op_stored db x e) = op_Status e" "op_ID (op_stored db x e) = op_ID x"
  "op_LockedUntil (op_stored db x e) = op_LockedUntil e" "op_LockedBy (op_stored db x e) = op_LockedBy e"
  "op_RetryCount (op_stored db x e) = op_RetryCount e" "op_NextRetryAt (op_stored db x e) = op_NextRetryAt e"
  "op_ErrorCode (op_stored db x e) = op_ErrorCode e"
  by (simp_all add: op_stored_def op_merge_def)

section \<open>Acquiring leases\<close>

definition leased :: "string \<Rightarrow> gotime \<Rightarrow> gotime \<Rightarrow> VFSOperation \<Rightarrow> VFSOperation" where
  "leased worker until now x =
     x\<lparr>op_Status := VFSOperationStatusRunning, op_LockedBy := worker, op_LockedUntil := Some until,
       op_UpdatedAt := now\<rparr>"

definition due_now :: "gotime \<Rightarrow> VFSOperation \<Rightarrow> bool" where
  "due_now now x \<longleftrightarrow>
     op_Status x \<in> {VFSOperationStatusPending, VFSOperationStatusFailed, VFSOperationStatusRunning} \<and>
     (case op_NextRetryAt x of None \<Rightarrow> True | Some t \<Rightarrow> t \<le> now) \<and>
     (case op_LockedUntil x of None \<Rightarrow> True | Some t \<Rightarrow> t \<le> now)"

text \<open>What a worker gets: the first due operations in the order of their retry time.\<close>

definition batch :: "nat list \<Rightarrow> int \<Rightarrow> gotime \<Rightarrow> VFSOperation list \<Rightarrow> VFSOperation list" where
  "batch locked limit now rows =
     take (if limit \<le> 0 \<or> limit > 200 then 100 else nat limit)
       (sort_key due_key (filter (\<lambda>x. due_now now x \<and> op_ID x \<notin> set locked) rows))"

lemma due_default:
  "due now \<lparr>due_OperationType = [], due_Statuses = [], due_DueBefore = now, due_Limit = l, due_IncludeLocked = False\<rparr>
     = due_now now"
  by (auto simp: due_def due_now_def fun_eq_iff split: option.splits)

lemma batch_sub: "x \<in> set (batch locked limit now rows) \<Longrightarrow>
    x \<in> set rows \<and> due_now now x \<and> op_ID x \<notin> set locked"
  by (auto simp: batch_def dest: in_set_takeD)

abbreviation lease_rows :: "string \<Rightarrow> gotime \<Rightarrow> nat set \<Rightarrow> gotime \<Rightarrow> VFSOperation list \<Rightarrow> VFSOperation list" where
  "lease_rows w until ids now \<equiv> map (\<lambda>x. if op_ID x \<in> ids then leased w until now x else x)"

abbreviation rows_in_order :: "nat set \<Rightarrow> VFSOperation list \<Rightarrow> VFSOperation list" where
  "rows_in_order ids rows \<equiv> sort_key due_key (filter (\<lambda>x. op_ID x \<in> ids) rows)"

lemma acquire_body:
  assumes "tryM (select_rows q) (\<lambda>models. if models = [] then ret []
      else let ids = map op_ID models in
        tryM (stmt (modify (\<lambda>d. db_ops_update (lease_rows w until (set ids) (db_now d)) d)))
          (\<lambda>_. select_rows (\<lambda>d. rows_in_order (set ids) (db_ops d)))) db = (Inr x, db')"
    and q: "table_query q"
  defines "ids \<equiv> op_ID ` set (q db)"
  shows "db_ops db' = lease_rows w until ids (db_now db) (db_ops db) \<and>
    x = rows_in_order ids (db_ops db') \<and> db_now db' = db_now db"
proof -
  obtain r1 d1 where 1: "select_rows q db = (r1, d1)" by force
  then have s1: "same_tables db d1" and r1: "r1 = Inr (q db)"
    using select_rows_cases [OF 1 q] assms(1) by (auto simp: throw_def)
  show ?thesis
  proof (cases "q db = []")
    case True
    then show ?thesis
      using assms(1) 1 r1 same_tables_fields [OF s1] by (auto simp: ret_def ids_def)
  next
    case False
    have ids: "set (map op_ID (q db)) = ids" by (simp add: ids_def)
    let ?lease = "stmt (modify (\<lambda>d. db_ops_update (lease_rows w until ids (db_now d)) d))"
    obtain r2 d2 where 2: "?lease d1 = (r2, d2)" by force
    obtain r3 d3 where 3: "select_rows (\<lambda>d. rows_in_order ids (db_ops d)) d2 = (r3, d3)" by force
    have run: "tryM ?lease (\<lambda>_. select_rows (\<lambda>d. rows_in_order ids (db_ops d))) d1 = (Inr x, db')"
      using assms(1) 1 r1 False by (simp add: ids_def)
    from 2 have "\<exists>d. r2 = Inr () \<and> same_tables d1 d \<and> d2 = db_ops_update (lease_rows w until ids (db_now d)) d"
    proof (cases rule: stmt_cases)
      case (fault msg)
      then show ?thesis using run 2 by (simp add: throw_def)
    qed (auto simp: modify_def)
    then obtain d where d: "r2 = Inr ()" "same_tables d1 d"
      "d2 = db_ops_update (lease_rows w until ids (db_now d)) d" by blast
    have st: "same_tables db d" using s1 d(2) by (rule same_tables_trans)
    have "r3 = Inr x" "d3 = db'" using run 2 3 d(1) by auto
    moreover have "table_query (\<lambda>d. rows_in_order ids (db_ops d))"
      by (auto simp: table_query_def same_tables_fields)
    ultimately have x: "x = rows_in_order ids (db_ops d2)" and s3: "same_tables d2 db'"
      using select_rows_cases [OF 3] by auto
    have "db_ops d2 = lease_rows w until ids (db_now db) (db_ops db)" "db_now d2 = db_now db"
      using d(3) same_tables_fields [OF st] by simp_all
    then show ?thesis using x same_tables_fields [OF s3] by simp
  qed
qed

lemma acquire_cases:
  assumes "AcquireDue s locked worker limit db = (r, db')" and "0 < db_now db" and "0 < svc_lockDuration s"
  defines "ids \<equiv> op_ID ` set (batch locked limit (db_now db) (db_ops db))"
    and "w \<equiv> (if worker = [] then ''vfs-operation-worker'' else worker)"
  obtains (acquired) "db_ops db' = lease_rows w (db_now db + svc_lockDuration s) ids (db_now db) (db_ops db)"
      "r = Inr (rows_in_order ids (db_ops db'))" "db_now db' = db_now db"
    | (failed) err where "r = Inl err" "same_tables db db'"
proof (cases "svc_repo s")
  case False
  then show ?thesis using assms(1) failed by (auto simp: AcquireDue_def throw_def)
next
  case True
  let ?f = "\<lparr>due_OperationType = [], due_Statuses = [], due_DueBefore = db_now db, due_Limit = limit,
     due_IncludeLocked = False\<rparr>"
  let ?q = "\<lambda>d. take (due_limit ?f) (sort_key due_key
      (filter (\<lambda>x. due (db_now d) ?f x \<and> op_ID x \<notin> set locked) (db_ops d)))"
  let ?until = "db_now db + svc_lockDuration s"
  have tx: "WithinTx (tryM (select_rows ?q) (\<lambda>models. if models = [] then ret []
      else let ids = map op_ID models in
        tryM (stmt (modify (\<lambda>d. db_ops_update (lease_rows w ?until (set ids) (db_now d)) d)))
          (\<lambda>_. select_rows (\<lambda>d. rows_in_order (set ids) (db_ops d))))) db = (r, db')"
    using assms(1-3) True by (simp add: AcquireDue_def op_AcquireDue_def w_def leased_def cong: if_cong)
  have q: "table_query ?q" by (auto simp: table_query_def same_tables_fields)
  have got: "?q db = batch locked limit (db_now db) (db_ops db)"
    unfolding batch_def due_default due_limit_def by simp
  from tx show ?thesis
  proof (cases rule: WithinTx_cases)
    case (abort e)
    then show ?thesis using failed by blast
  next
    case (commit x db0 db1)
    have ids: "op_ID ` set (?q db0) = ids" by (simp add: table_queryD [OF q commit(2)] got ids_def)
    show ?thesis
      using acquire_body [OF commit(3) q] same_tables_fields [OF commit(2)]
        same_tables_fields [OF commit(4)] commit(1)
      unfolding ids by (intro acquired) simp_all
  qed
qed

section \<open>Invariant and state machine\<close>

text \<open>Keys are unique, and the clock has been set.\<close>

definition journal_ok :: "DB \<Rightarrow> bool" where
  "journal_ok db \<longleftrightarrow> distinct (map op_ID (db_ops db)) \<and> 0 < db_now db"

lemma map_ID_cong:
  assumes "\<And>x. op_ID (f x) = op_ID x"
  shows "map op_ID (map f rows) = map op_ID rows"
  using assms by (simp add: comp_def)

text \<open>
  The steps of the journal: any worker records, marks or acquires, statements fail as they
  please, and time goes on.
\<close>

inductive journal_step :: "VFSOperationJournalService \<Rightarrow> DB \<Rightarrow> DB \<Rightarrow> bool" for s where
  pending: "RecordPending s input db = (r, db') \<Longrightarrow> journal_step s db db'"
| failure: "RecordFailure s input db = (r, db') \<Longrightarrow> journal_step s db db'"
| running: "MarkRunning s i worker db = (r, db') \<Longrightarrow> journal_step s db db'"
| succeeded: "MarkSucceeded s i db = (r, db') \<Longrightarrow> journal_step s db db'"
| failed: "MarkFailed s i err db = (r, db') \<Longrightarrow> journal_step s db db'"
| acquire: "AcquireDue s locked worker limit db = (acq, db') \<Longrightarrow> journal_step s db db'"
| clock: "db_now db \<le> t \<Longrightarrow> journal_step s db (db\<lparr>db_now := t\<rparr>)"
| faults: "journal_step s db (db\<lparr>db_faults := fs\<rparr>)"


text \<open>
  \<open>keeps K db db'\<close>: the step leaves the invariant intact, does not turn back the clock, and
  keeps every row that satisfies \<open>K\<close>.
\<close>

definition keeps :: "(VFSOperation \<Rightarrow> bool) \<Rightarrow> DB \<Rightarrow> DB \<Rightarrow> bool" where
  "keeps K db db' \<longleftrightarrow> journal_ok db' \<and> db_now db \<le> db_now db' \<and>
     (\<forall>x \<in> set (db_ops db). K x \<longrightarrow> x \<in> set (db_ops db'))"

lemma keeps_same_tables: "journal_ok db \<Longrightarrow> same_tables db db' \<Longrightarrow> keeps K db db'"
  by (simp add: keeps_def journal_ok_def same_tables_fields)

lemma op_Create_keeps:
  assumes "op_Create e db = (r, db')" "journal_ok db"
  shows "keeps K db db'"
proof (cases "db_jsonb db (jsonObject (op_PayloadJSON e))")
  case (Inl err)
  then have "stmt (throw err) db = (r, db')" using assms by (simp add: op_Create_def with_jsonb_def)
  then have "same_tables db db'" by (cases rule: stmt_cases) (auto simp: throw_def)
  then show ?thesis using assms(2) keeps_same_tables by blast
next
  case (Inr canon)
  let ?row = "op_stamp (db_now db) (e\<lparr>op_PayloadJSON := canon\<rparr>)"
  obtain r1 d1 where 1: "insert_row ''vfs_operations'' db_ops db_ops_update op_ID op_setID (\<lambda>_ _. False) ?row db = (r1, d1)"
    by force
  then have d1: "db' = d1"
    using assms(1) Inr by (cases r1) (auto simp: op_Create_def with_jsonb_def throw_def ret_def)
  from 1 table_query_tables(7) have "keeps K db d1"
  proof (cases rule: insert_row_cases)
    case (inserted i db0)
    have "db_ops d1 = db_ops db @ [op_setID i ?row]" "db_now d1 = db_now db"
      using inserted(5) same_tables_fields [OF inserted(2)] by simp_all
    then show ?thesis
      using assms(2) inserted(4) by (auto simp: keeps_def journal_ok_def op_setID_def)
  qed (use assms(2) keeps_same_tables in auto)
  then show ?thesis by (simp add: d1)
qed

lemma record_op_keeps:
  assumes "record_op s input status db = (r, db')" "journal_ok db"
  shows "keeps K db db'"
proof -
  have "(\<exists>e. op_Create e db = (r, db')) \<or> db' = db"
    using assms(1)
    by (auto simp: record_op_def throw_def lift_def if_err_def Let_def split: if_splits sum.splits)
  then show ?thesis using assms(2) op_Create_keeps keeps_same_tables same_tables_refl by blast
qed

lemma RecordPending_keeps:
  "RecordPending s input db = (r, db') \<Longrightarrow> journal_ok db \<Longrightarrow> keeps K db db'"
  by (simp add: RecordPending_def record_op_keeps)

lemma RecordFailure_keeps:
  "RecordFailure s input db = (r, db') \<Longrightarrow> journal_ok db \<Longrightarrow> keeps K db db'"
  by (auto simp: RecordFailure_def record_op_keeps split: if_splits)

lemma mark_op_keeps:
  assumes "mark_op s i terminal change db = (r, db')" "journal_ok db" "\<And>e. op_ID (change e) = op_ID e"
    and "\<And>x. K x \<Longrightarrow> terminal x \<or> op_ID x \<noteq> i"
  shows "keeps K db db'"
proof -
  have dist: "distinct (map op_ID (db_ops db))" using assms(2) by (simp add: journal_ok_def)
  from assms(1) dist assms(3) show ?thesis
  proof (cases rule: mark_op_cases)
    case (modified x)
    have "y = x" if "y \<in> set (db_ops db)" "op_ID y = i" for y
      using that modified(1,2) dist by (auto simp: distinct_map dest: inj_onD)
    then have "op_ID y \<noteq> i" if "y \<in> set (db_ops db)" "K y" for y
      using assms(4) that modified(3) by metis
    moreover have "distinct (map op_ID (db_ops db'))"
      unfolding modified(4) by (subst map_ID_cong) (auto simp: dist)
    ultimately show ?thesis
      using modified(4,5) assms(2) by (auto simp: keeps_def journal_ok_def image_iff)
  next
    case kept
    then show ?thesis using assms(2) keeps_same_tables by blast
  qed
qed

lemma AcquireDue_keeps:
  assumes "AcquireDue s locked worker limit db = (r, db')" "journal_ok db" "0 < svc_lockDuration s"
    and "\<And>x. x \<in> set (db_ops db) \<Longrightarrow> K x \<Longrightarrow> \<not> due_now (db_now db) x"
  shows "keeps K db db'"
proof -
  have now: "0 < db_now db" and dist: "distinct (map op_ID (db_ops db))"
    using assms(2) by (simp_all add: journal_ok_def)
  from assms(1) now assms(3) show ?thesis
  proof (cases rule: acquire_cases)
    case acquired
    let ?ids = "op_ID ` set (batch locked limit (db_now db) (db_ops db))"
    have "op_ID x \<notin> ?ids" if "x \<in> set (db_ops db)" "K x" for x
    proof
      assume "op_ID x \<in> ?ids"
      then obtain y where y: "y \<in> set (batch locked limit (db_now db) (db_ops db))" "op_ID x = op_ID y" by blast
      then have "y \<in> set (db_ops db)" "due_now (db_now db) y" using batch_sub by blast+
      moreover have "x = y" using that(1) y(2) calculation(1) dist by (auto simp: distinct_map dest: inj_onD)
      ultimately show False using assms(4) that by blast
    qed
    moreover have "distinct (map op_ID (db_ops db'))"
      unfolding acquired(1) by (subst map_ID_cong) (auto simp: dist leased_def)
    ultimately show ?thesis
      using acquired assms(2) by (auto simp: keeps_def journal_ok_def image_iff)
  next
    case (failed err)
    then show ?thesis using assms(2) keeps_same_tables by blast
  qed
qed

lemmas mark_defs = MarkRunning_def MarkSucceeded_def MarkFailed_def

lemma journal_step_keeps_succeeded:
  assumes "journal_step s db db'" "journal_ok db" "0 < svc_lockDuration s"
  shows "keeps (\<lambda>x. op_Status x = VFSOperationStatusSucceeded) db db'"
  using assms
proof (cases rule: journal_step.cases)
  case (acquire locked worker limit acq)
  then show ?thesis by (rule AcquireDue_keeps [OF _ assms(2,3)]) (auto simp: due_now_def)
next
  case (running i worker r)
  then show ?thesis
    using mark_op_keeps [OF running [unfolded MarkRunning_def] assms(2)] by simp
next
  case (succeeded i r)
  then show ?thesis
    using mark_op_keeps [OF succeeded [unfolded MarkSucceeded_def] assms(2)] by simp
next
  case (failed i err r)
  then show ?thesis
    using mark_op_keeps [OF failed [unfolded MarkFailed_def] assms(2)] by (simp add: Let_def)
next
  case (clock t)
  then show ?thesis using assms(2) by (simp add: keeps_def journal_ok_def)
next
  case (faults fs)
  then show ?thesis using assms(2) by (simp add: keeps_def journal_ok_def)
qed (use assms(2) RecordPending_keeps RecordFailure_keeps in blast)+


lemma journal_steps_keep_succeeded:
  assumes "(journal_step s)\<^sup>*\<^sup>* db db'" "journal_ok db" "0 < svc_lockDuration s"
  shows "keeps (\<lambda>x. op_Status x = VFSOperationStatusSucceeded) db db'"
  using assms(1)
proof (induction rule: rtranclp_induct)
  case base
  show ?case using assms(2) by (simp add: keeps_def)
next
  case (step db1 db2)
  then have "journal_ok db1" by (simp add: keeps_def)
  then have "keeps (\<lambda>x. op_Status x = VFSOperationStatusSucceeded) db1 db2"
    using step.hyps(2) assms(3) journal_step_keeps_succeeded by blast
  with step.IH show ?case by (auto simp: keeps_def)
qed

text \<open>Steps that do not mark anything: what other workers do while one works on its lease.\<close>

inductive other_step :: "VFSOperationJournalService \<Rightarrow> DB \<Rightarrow> DB \<Rightarrow> bool" for s where
  pending: "RecordPending s input db = (r, db') \<Longrightarrow> other_step s db db'"
| failure: "RecordFailure s input db = (r, db') \<Longrightarrow> other_step s db db'"
| acquire: "AcquireDue s locked worker limit db = (acq, db') \<Longrightarrow> other_step s db db'"
| clock: "db_now db \<le> t \<Longrightarrow> other_step s db (db\<lparr>db_now := t\<rparr>)"
| faults: "other_step s db (db\<lparr>db_faults := fs\<rparr>)"

lemma other_step_keeps_lease:
  assumes "other_step s db db'" "journal_ok db" "0 < svc_lockDuration s" "db_now db < L"
  shows "keeps (\<lambda>x. op_LockedUntil x = Some L) db db'"
  using assms(1)
proof (cases rule: other_step.cases)
  case (acquire locked worker limit acq)
  then show ?thesis
    by (rule AcquireDue_keeps [OF _ assms(2,3)]) (use assms(4) in \<open>auto simp: due_now_def\<close>)
qed (use assms(2) RecordPending_keeps RecordFailure_keeps in \<open>auto simp: keeps_def journal_ok_def\<close>)

lemma other_steps_keep_lease:
  assumes "(other_step s)\<^sup>*\<^sup>* db db'" "journal_ok db" "0 < svc_lockDuration s"
  shows "journal_ok db' \<and> (db_now db' < L \<longrightarrow> keeps (\<lambda>x. op_LockedUntil x = Some L) db db')"
  using assms(1)
proof (induction rule: rtranclp_induct)
  case base
  show ?case using assms(2) by (simp add: keeps_def)
next
  case (step db1 db2)
  have ok: "keeps (\<lambda>x. op_LockedUntil x = Some (db_now db1 + 1)) db1 db2"
    using other_step_keeps_lease [OF step.hyps(2) _ assms(3)] step.IH by simp
  then have mono: "db_now db1 \<le> db_now db2" "journal_ok db2" by (simp_all add: keeps_def)
  show ?case
  proof (intro conjI impI)
    assume L: "db_now db2 < L"
    then have "db_now db1 < L" using mono by simp
    then have "keeps (\<lambda>x. op_LockedUntil x = Some L) db1 db2"
      using other_step_keeps_lease [OF step.hyps(2) _ assms(3)] step.IH by simp
    then show "keeps (\<lambda>x. op_LockedUntil x = Some L) db db2"
      using step.IH \<open>db_now db1 < L\<close> by (auto simp: keeps_def)
  qed (rule mono(2))
qed

section \<open>Processing without faults\<close>

text \<open>The stored payloads are what the database normalises to.\<close>

definition payloads_ok :: "DB \<Rightarrow> bool" where
  "payloads_ok db \<longleftrightarrow>
     (\<forall>x \<in> set (db_ops db). db_jsonb db (jsonObject (op_PayloadJSON x)) = Inr (op_PayloadJSON x))"

text \<open>\<open>db'\<close> has the environment of \<open>db\<close> and its journal.\<close>

definition same_journal :: "DB \<Rightarrow> DB \<Rightarrow> bool" where
  "same_journal db db' \<longleftrightarrow> db_ops db' = db_ops db \<and> db_faults db' = db_faults db \<and>
     db_now db' = db_now db \<and> db_jsonb db' = db_jsonb db"

lemma mark_no_fault:
  assumes "svc_repo s" "db_faults db = []" "distinct (map op_ID (db_ops db))"
    and x: "x \<in> set (db_ops db)" "\<not> terminal x" and f: "op_ID (change x) = op_ID x"
    and json: "db_jsonb db (jsonObject (op_PayloadJSON (change x))) = Inr (op_PayloadJSON (change x))"
  shows "\<exists>y. mark_op s (op_ID x) terminal change db =
     (Inr y, db_ops_update (map (\<lambda>z. if op_ID z = op_ID x then op_merge (db_now db) z (change x) else z)) db)"
proof -
  have "find (\<lambda>z. op_ID z = op_ID x) (db_ops db) = Some x"
    using x(1) assms(3) by (rule find_key)
  then have 1: "op_FindByID (op_ID x) db = (Inr x, db)"
    using assms(2) by (simp add: op_FindByID_def find_row_def)
  let ?rows = "map (\<lambda>z. if op_ID z = op_ID x then op_merge (db_now db) z (change x) else z)"
  have 2: "op_Update (change x) db = (Inr (), db_ops_update ?rows db)"
    using assms(2) x(1) f json
    by (auto simp: op_Update_def with_jsonb_def update_row_def)
  have "\<exists>z \<in> set (?rows (db_ops db)). op_ID z = op_ID x"
  proof (rule bexI [of _ "op_merge (db_now db) x (change x)"])
    show "op_merge (db_now db) x (change x) \<in> set (?rows (db_ops db))"
      using x(1) by (auto intro!: image_eqI [of _ _ x])
  qed (simp add: op_merge_def)
  then obtain y where "find (\<lambda>z. op_ID z = op_ID x) (?rows (db_ops db)) = Some y"
    by (cases "find (\<lambda>z. op_ID z = op_ID x) (?rows (db_ops db))") (auto simp: find_None_iff)
  then have 3: "op_FindByID (op_ID x) (db_ops_update ?rows db) = (Inr y, db_ops_update ?rows db)"
    using assms(2) by (simp add: op_FindByID_def find_row_def)
  show ?thesis using 1 2 3 assms(1) x(2) by (auto simp: mark_op_def)
qed

text \<open>What becomes of an operation: it succeeds, or fails and is scheduled again.\<close>

definition settled :: "gotime \<Rightarrow> app_error option \<Rightarrow> VFSOperation \<Rightarrow> VFSOperation \<Rightarrow> bool" where
  "settled now outcome x y \<longleftrightarrow> op_ID y = op_ID x \<and> op_LockedBy y = [] \<and> op_LockedUntil y = None \<and>
     (case outcome of
        None \<Rightarrow> op_Status y = VFSOperationStatusSucceeded \<and> op_NextRetryAt y = None
      | Some e \<Rightarrow> op_Status y = VFSOperationStatusFailed \<and> op_RetryCount y = wrap64 (op_RetryCount x + 1) \<and>
          op_NextRetryAt y = Some (now + vfsOperationRetryBackoff (wrap64 (op_RetryCount x + 1))) \<and>
          op_ErrorCode y = stableVFSOperationErrorCode [] (Some e))"

text \<open>One operation of the loop replaces its row by a settled one and keeps the others.\<close>

definition settles :: "gotime \<Rightarrow> app_error option \<Rightarrow> VFSOperation \<Rightarrow> DB \<Rightarrow> DB \<Rightarrow> bool" where
  "settles now outcome x db db' \<longleftrightarrow>
     (\<exists>y. settled now outcome x y \<and> op_PayloadJSON y = op_PayloadJSON x \<and>
       db_ops db' = map (\<lambda>z. if op_ID z = op_ID x then y else z) (db_ops db)) \<and>
     db_faults db' = [] \<and> db_now db' = db_now db \<and> db_jsonb db' = db_jsonb db"

lemma mark_op_settles:
  assumes "svc_repo s" "db_faults db = []" "distinct (map op_ID (db_ops db))" "payloads_ok db"
    and x: "x \<in> set (db_ops db)" "\<not> terminal x"
    and f: "op_ID (change x) = op_ID x" "op_PayloadJSON (change x) = op_PayloadJSON x"
      "settled (db_now db) outcome x (op_merge (db_now db) x (change x))"
  shows "\<exists>y db'. mark_op s (op_ID x) terminal change db = (Inr y, db') \<and> settles (db_now db) outcome x db db'"
proof -
  have json: "db_jsonb db (jsonObject (op_PayloadJSON x)) = Inr (op_PayloadJSON x)"
    using assms(4) x(1) by (simp add: payloads_ok_def)
  let ?new = "op_merge (db_now db) x (change x)"
  let ?db = "db_ops_update (map (\<lambda>z. if op_ID z = op_ID x then op_merge (db_now db) z (change x) else z)) db"
  obtain y where y: "mark_op s (op_ID x) terminal change db = (Inr y, ?db)"
    using mark_no_fault [OF assms(1-3) x(1), of terminal change] x(2) f(1,2) json by auto
  have "db_ops ?db = map (\<lambda>z. if op_ID z = op_ID x then ?new else z) (db_ops db)"
    using key_unique [OF assms(3) x(1)] by (auto intro!: map_cong)
  moreover have "op_PayloadJSON ?new = op_PayloadJSON x" using f(2) by (simp add: op_merge_def)
  ultimately have "settles (db_now db) outcome x db ?db"
    using f(3) assms(2) unfolding settles_def by auto
  with y show ?thesis by blast
qed

lemma mark_settles:
  assumes "svc_repo s" "db_faults db = []" "distinct (map op_ID (db_ops db))" "payloads_ok db"
    and x: "x \<in> set (db_ops db)" "op_Status x = VFSOperationStatusRunning"
  shows "\<exists>y db'. MarkFailed s (op_ID x) (Some e) db = (Inr y, db') \<and> settles (db_now db) (Some e) x db db'"
    and "\<exists>y db'. MarkSucceeded s (op_ID x) db = (Inr y, db') \<and> settles (db_now db) None x db db'"
  unfolding MarkFailed_def MarkSucceeded_def
  by (rule mark_op_settles [OF assms(1-4) x(1)]; simp add: x(2) Let_def settled_def op_merge_def)+

lemma settles_inv:
  assumes "settles now outcome x db db'" "distinct (map op_ID (db_ops db))" "payloads_ok db" "x \<in> set (db_ops db)"
  shows "distinct (map op_ID (db_ops db')) \<and> payloads_ok db'"
proof -
  obtain y where y: "op_ID y = op_ID x" "op_PayloadJSON y = op_PayloadJSON x"
    "db_ops db' = map (\<lambda>z. if op_ID z = op_ID x then y else z) (db_ops db)" "db_jsonb db' = db_jsonb db"
    using assms(1) by (auto simp: settles_def settled_def)
  have "map op_ID (db_ops db') = map op_ID (db_ops db)" using y(1) unfolding y(3) by simp
  moreover have "payloads_ok db'" using assms(3,4) y by (auto simp: payloads_ok_def)
  ultimately show ?thesis using assms(2) by metis
qed

text \<open>The loop of \<^verbatim>\<open>ProcessDue\<close> settles every operation of its list.\<close>

lemma process_loop_settles:
  assumes run: "\<And>x d. \<exists>d'. processor x d = (case outcome x of None \<Rightarrow> (Inr (), d') | Some e \<Rightarrow> (Inl e, d')) \<and> same_journal d d'"
    and "svc_repo s" "db_faults db = []" "distinct (map op_ID (db_ops db))" "payloads_ok db"
    and "\<forall>x \<in> set xs. x \<in> set (db_ops db) \<and> op_Status x = VFSOperationStatusRunning" "distinct (map op_ID xs)"
  shows "\<exists>joined' db'. process_loop s processor xs joined db = (joined', db') \<and>
     (joined' = None \<longleftrightarrow> joined = None \<and> (\<forall>x \<in> set xs. outcome x = None)) \<and>
     (\<forall>x \<in> set xs. \<exists>y \<in> set (db_ops db'). settled (db_now db) (outcome x) x y) \<and>
     (\<forall>z \<in> set (db_ops db). op_ID z \<notin> op_ID ` set xs \<longrightarrow> z \<in> set (db_ops db'))"
  using assms(3-)
proof (induction xs arbitrary: joined db)
  case (Cons x xs)
  obtain d where d: "processor x db = (case outcome x of None \<Rightarrow> (Inr (), d) | Some e \<Rightarrow> (Inl e, d))" "same_journal db d"
    using run by blast
  have pre: "db_faults d = []" "distinct (map op_ID (db_ops d))" "payloads_ok d"
    "x \<in> set (db_ops d)" "op_Status x = VFSOperationStatusRunning" "db_now d = db_now db" "db_ops d = db_ops db"
    using Cons.prems d(2) by (auto simp: same_journal_def payloads_ok_def)
  obtain joined1 db1 where step: "process_loop s processor (x # xs) joined db = process_loop s processor xs joined1 db1"
    and s1: "settles (db_now d) (outcome x) x d db1" and j1: "joined1 = None \<longleftrightarrow> joined = None \<and> outcome x = None"
  proof (cases "outcome x")
    case None
    then show thesis
      using mark_settles(2) [OF assms(2) pre(1-5)] d(1) that by fastforce
  next
    case (Some e)
    then show thesis
      using mark_settles(1) [OF assms(2) pre(1-5), of e] d(1)
        that [of "join_err joined (sanitizedVFSOperationReturnedError e)"]
      by (fastforce simp: join_err_def split: option.splits)
  qed
  have inv: "distinct (map op_ID (db_ops db1))" "payloads_ok db1" "db_faults db1 = []" "db_now db1 = db_now db"
    using settles_inv [OF s1 pre(2-4)] s1 pre(6) by (auto simp: settles_def)
  obtain y where y: "settled (db_now db) (outcome x) x y"
    "db_ops db1 = map (\<lambda>z. if op_ID z = op_ID x then y else z) (db_ops db)"
    using s1 pre(6,7) by (auto simp: settles_def)
  have keep: "z \<in> set (db_ops db1)" if "z \<in> set (db_ops db)" "op_ID z \<noteq> op_ID x" for z
    using that y(2) by (auto simp: image_iff)
  have rest: "\<forall>z \<in> set xs. z \<in> set (db_ops db1) \<and> op_Status z = VFSOperationStatusRunning" "distinct (map op_ID xs)"
    using Cons.prems keep by (auto simp: image_iff)
  obtain joined' db' where IH: "process_loop s processor xs joined1 db1 = (joined', db')"
    "joined' = None \<longleftrightarrow> joined1 = None \<and> (\<forall>x \<in> set xs. outcome x = None)"
    "\<forall>x \<in> set xs. \<exists>y \<in> set (db_ops db'). settled (db_now db) (outcome x) x y"
    "\<forall>z \<in> set (db_ops db1). op_ID z \<notin> op_ID ` set xs \<longrightarrow> z \<in> set (db_ops db')"
    using Cons.IH [OF inv(3,1,2) rest] inv(4) by metis
  have "y \<in> set (db_ops db')"
  proof -
    have "y \<in> set (db_ops db1)" using y(2) pre(4,7) by (auto simp: image_iff intro!: bexI [of _ x])
    moreover have "op_ID y \<notin> op_ID ` set xs" using Cons.prems(5) y(1) by (simp add: settled_def)
    ultimately show ?thesis using IH(4) by blast
  qed
  then show ?case using step IH j1 y(1) keep by (auto simp: image_iff)
qed simp

lemma acquire_no_fault:
  assumes "svc_repo s" "db_faults db = []" "journal_ok db" "0 < svc_lockDuration s"
  shows "\<exists>ops db'. AcquireDue s locked worker limit db = (Inr ops, db') \<and> db_faults db' = [] \<and>
    db_jsonb db' = db_jsonb db"
  using assms
  by (auto simp: AcquireDue_def op_AcquireDue_def WithinTx_def select_rows_def if_err_def gets_def
      modify_def ret_def Let_def journal_ok_def)

section \<open>Properties\<close>

text \<open>C6: A succeeded operation is final: whatever the workers do afterwards (record, mark,
  acquire, in any interleaving, with any failing statements and any passage of time), the row
  of an operation that has succeeded stays exactly as it is.\<close>

theorem succeeded_is_final:
  assumes "(journal_step s)\<^sup>*\<^sup>* db db'" and "journal_ok db" and "0 < svc_lockDuration s"
    and "x \<in> set (db_ops db)" and "op_Status x = VFSOperationStatusSucceeded"
  shows "x \<in> set (db_ops db')"
  using journal_steps_keep_succeeded [OF assms(1-3)] assms(4,5) by (auto simp: keeps_def)

definition example_codec :: JSONCodec where
  "example_codec = \<lparr>json_Marshal = (\<lambda>_. Inr ''{}''), json_Valid = (\<lambda>_. True), json_Unmarshal = (\<lambda>_. Inr [])\<rparr>"

definition example_journal :: VFSOperationJournalService where
  "example_journal = \<lparr>svc_repo = True, svc_lockDuration = 5 * minute, svc_uni = id, svc_json = example_codec\<rparr>"

definition example_op :: "nat \<Rightarrow> string \<Rightarrow> VFSOperation" where
  "example_op i status = \<lparr>op_ID = i, op_OperationType = ''move'', op_Status = status, op_SourceNodeID = None,
     op_TargetParentNodeID = None, op_ResultNodeID = None, op_SourcePathSnapshot = [],
     op_TargetPathSnapshot = [], op_SourceIDSnapshot = None, op_DriverTypeSnapshot = [],
     op_PayloadJSON = ''{}'', op_ErrorCode = [], op_ErrorMessage = [], op_RetryCount = 0,
     op_NextRetryAt = None, op_LockedBy = [], op_LockedUntil = None, op_CreatedBy = None,
     op_CreatedAt = 1, op_UpdatedAt = 1\<rparr>"

definition example_db :: DB where
  "example_db = emptyDB\<lparr>db_ops := [example_op 1 VFSOperationStatusPending, example_op 2 VFSOperationStatusSucceeded],
     db_now := 1000\<rparr>"

lemma example_db_ok: "journal_ok example_db" "0 < svc_lockDuration example_journal" "db_now example_db = 1000"
  by (simp_all add: journal_ok_def example_db_def example_op_def example_journal_def)

theorem succeeded_is_final_witness:
  "example_op 2 VFSOperationStatusSucceeded
     \<in> set (db_ops (snd (MarkFailed example_journal 2 None example_db)))"
proof -
  have "(journal_step example_journal)\<^sup>*\<^sup>* example_db (snd (MarkFailed example_journal 2 None example_db))"
    by (rule r_into_rtranclp, rule journal_step.failed) (rule prod.collapse [symmetric])
  moreover have "example_op 2 VFSOperationStatusSucceeded \<in> set (db_ops example_db)"
    by (simp add: example_db_def)
  ultimately show ?thesis
    using succeeded_is_final example_db_ok by (simp add: example_op_def)
qed

text \<open>C4: Leases exclude each other: an operation one worker has acquired is not handed to any
  worker again before the lease ends, whatever operations other workers record and acquire in
  between, as long as it is not marked.\<close>

theorem acquire_exclusive:
  assumes "journal_ok db" and "0 < svc_lockDuration s"
    and "AcquireDue s locked worker limit db = (Inr ops, db1)"
    and "(other_step s)\<^sup>*\<^sup>* db1 db2" and "db_now db2 < db_now db + svc_lockDuration s"
    and "AcquireDue s locked' worker' limit' db2 = (Inr ops', db3)"
  shows "op_ID ` set ops \<inter> op_ID ` set ops' = {}"
proof -
  let ?L = "db_now db + svc_lockDuration s"
  have now: "0 < db_now db" using assms(1) by (simp add: journal_ok_def)
  have ok1: "journal_ok db1" and held: "\<forall>x \<in> set ops. x \<in> set (db_ops db1) \<and> op_LockedUntil x = Some ?L"
  proof -
    have "keeps (\<lambda>_. False) db db1" by (rule AcquireDue_keeps [OF assms(3,1,2)]) simp
    then show "journal_ok db1" by (simp add: keeps_def)
    show "\<forall>x \<in> set ops. x \<in> set (db_ops db1) \<and> op_LockedUntil x = Some ?L"
      using assms(3) now assms(2)
    proof (cases rule: acquire_cases)
      case acquired
      then show ?thesis by (auto simp: leased_def)
    qed simp
  qed
  have later: "journal_ok db2" "keeps (\<lambda>x. op_LockedUntil x = Some ?L) db1 db2"
    using other_steps_keep_lease [OF assms(4) ok1 assms(2)] assms(5) by auto
  have now2: "0 < db_now db2" and dist: "distinct (map op_ID (db_ops db2))"
    using later(1) by (simp_all add: journal_ok_def)
  have ids: "op_ID ` set ops' \<subseteq> op_ID ` set (batch locked' limit' (db_now db2) (db_ops db2))"
    using assms(6) now2 assms(2)
  proof (cases rule: acquire_cases)
    case acquired
    then show ?thesis by auto
  qed simp
  have "x \<noteq> y" if "x \<in> set ops" "y \<in> set (batch locked' limit' (db_now db2) (db_ops db2))" for x y
    using batch_sub [OF that(2)] held that(1) assms(5) by (auto simp: due_now_def)
  moreover have "x \<in> set (db_ops db2)" if "x \<in> set ops" for x
    using held later(2) that by (auto simp: keeps_def)
  ultimately have "op_ID x \<noteq> op_ID y"
    if "x \<in> set ops" "y \<in> set (batch locked' limit' (db_now db2) (db_ops db2))" for x y
    using that batch_sub dist by (metis distinct_map inj_on_eq_iff)
  then show ?thesis using ids by blast
qed

theorem acquire_exclusive_witness:
  "\<exists>ops db1 ops' db2. AcquireDue example_journal [] ''w1'' 10 example_db = (Inr ops, db1) \<and>
     AcquireDue example_journal [] ''w2'' 10 (db1\<lparr>db_now := 2000\<rparr>) = (Inr ops', db2) \<and>
     op_ID ` set ops \<inter> op_ID ` set ops' = {}"
proof -
  let ?db1 = "snd (AcquireDue example_journal [] ''w1'' 10 example_db)"
  have "\<not> isl (fst (AcquireDue example_journal [] ''w1'' 10 example_db))" by code_simp
  then obtain ops where a: "AcquireDue example_journal [] ''w1'' 10 example_db = (Inr ops, ?db1)"
    by (metis isl_def old.sum.exhaust prod.collapse)
  have now: "db_now ?db1 = 1000" by code_simp
  have "\<not> isl (fst (AcquireDue example_journal [] ''w2'' 10 (?db1\<lparr>db_now := 2000\<rparr>)))" by code_simp
  then obtain ops' db2 where b: "AcquireDue example_journal [] ''w2'' 10 (?db1\<lparr>db_now := 2000\<rparr>) = (Inr ops', db2)"
    by (metis isl_def old.sum.exhaust prod.collapse)
  have st: "(other_step example_journal)\<^sup>*\<^sup>* ?db1 (?db1\<lparr>db_now := 2000\<rparr>)"
    by (rule r_into_rtranclp, rule other_step.clock) (simp add: now)
  have "op_ID ` set ops \<inter> op_ID ` set ops' = {}"
    by (rule acquire_exclusive [OF example_db_ok(1,2) a st _ b])
       (simp add: example_db_ok(3) example_journal_def)
  then show ?thesis using a b by metis
qed

text \<open>The operations a worker gets, with their lease.\<close>

definition worker_batch ::
  "VFSOperationJournalService \<Rightarrow> nat list \<Rightarrow> string \<Rightarrow> int \<Rightarrow> DB \<Rightarrow> VFSOperation list" where
  "worker_batch s locked worker limit db =
     map (leased (if worker = [] then ''vfs-operation-worker'' else worker)
            (db_now db + svc_lockDuration s) (db_now db))
       (batch locked limit (db_now db) (db_ops db))"

lemma worker_batch_ids:
  "op_ID ` set (worker_batch s locked worker limit db) = op_ID ` set (batch locked limit (db_now db) (db_ops db))"
  by (simp add: worker_batch_def image_image leased_def)

lemma distinct_batch: "distinct (map op_ID rows) \<Longrightarrow> distinct (map op_ID (batch locked limit now rows))"
proof -
  assume d: "distinct (map op_ID rows)"
  let ?xs = "sort_key due_key (filter (\<lambda>x. due_now now x \<and> op_ID x \<notin> set locked) rows)"
  have "distinct ?xs" "inj_on op_ID (set ?xs)"
    using d by (auto simp: distinct_map distinct_sort intro: inj_on_subset)
  then have "distinct (map op_ID ?xs)" by (simp add: distinct_map)
  then show ?thesis unfolding batch_def take_map [symmetric] by (rule distinct_take)
qed

lemma acquired_rows:
  assumes "AcquireDue s locked worker limit db = (Inr ops, db1)" "journal_ok db" "0 < svc_lockDuration s"
  defines "got \<equiv> worker_batch s locked worker limit db"
  shows "set ops = set got" "length ops = length got" "set ops \<subseteq> set (db_ops db1)" "distinct (map op_ID ops)"
    "\<forall>z \<in> set (db_ops db). op_ID z \<notin> op_ID ` set got \<longrightarrow> z \<in> set (db_ops db1)"
    "map op_ID (db_ops db1) = map op_ID (db_ops db)" "map op_PayloadJSON (db_ops db1) = map op_PayloadJSON (db_ops db)"
    "db_now db1 = db_now db"
proof -
  let ?b = "batch locked limit (db_now db) (db_ops db)"
  let ?w = "if worker = [] then ''vfs-operation-worker'' else worker"
  have now: "0 < db_now db" and dist: "distinct (map op_ID (db_ops db))"
    using assms(2) by (simp_all add: journal_ok_def)
  have acq: "db_ops db1 = lease_rows ?w (db_now db + svc_lockDuration s) (op_ID ` set ?b) (db_now db) (db_ops db)
      \<and> ops = rows_in_order (op_ID ` set ?b) (db_ops db1) \<and> db_now db1 = db_now db"
    using assms(1) now assms(3) by (cases rule: acquire_cases) auto
  then have rows: "db_ops db1 = lease_rows ?w (db_now db + svc_lockDuration s) (op_ID ` set ?b) (db_now db) (db_ops db)"
    and ops: "ops = rows_in_order (op_ID ` set ?b) (db_ops db1)" and "db_now db1 = db_now db"
    by blast+
  show "db_now db1 = db_now db" by fact
  show ids1: "map op_ID (db_ops db1) = map op_ID (db_ops db)"
    unfolding rows by (rule map_ID_cong) (simp add: leased_def)
  show "map op_PayloadJSON (db_ops db1) = map op_PayloadJSON (db_ops db)"
    unfolding rows by (simp add: leased_def)
  show "set ops \<subseteq> set (db_ops db1)" unfolding ops by auto
  have d1: "distinct (map op_ID (db_ops db1))" using dist ids1 by simp
  then show dops: "distinct (map op_ID ops)"
    unfolding ops by (auto simp: distinct_map distinct_sort intro: inj_on_subset)
  let ?L = "leased ?w (db_now db + svc_lockDuration s) (db_now db)"
  have "{x \<in> set (db_ops db). op_ID x \<in> op_ID ` set ?b} = set ?b"
  proof (intro equalityI subsetI)
    fix x assume "x \<in> {x \<in> set (db_ops db). op_ID x \<in> op_ID ` set ?b}"
    then obtain y where "x \<in> set (db_ops db)" "y \<in> set ?b" "op_ID x = op_ID y" by blast
    then show "x \<in> set ?b" using key_unique [OF dist, of y x] batch_sub by blast
  qed (use batch_sub in blast)
  moreover have "set ops = ?L ` {x \<in> set (db_ops db). op_ID x \<in> op_ID ` set ?b}"
  proof -
    have "op_ID (?L x) = op_ID x" for x by (simp add: leased_def)
    then show ?thesis unfolding ops rows by (auto split: if_splits)
  qed
  ultimately show eq: "set ops = set got" by (simp add: got_def worker_batch_def)
  have "distinct (map op_ID got)"
    using distinct_batch [OF dist] by (simp add: got_def worker_batch_def leased_def comp_def)
  then have "distinct got" "distinct ops" using dops by (simp_all add: distinct_map)
  then show "length ops = length got" using eq by (metis distinct_card)
  show "\<forall>z \<in> set (db_ops db). op_ID z \<notin> op_ID ` set got \<longrightarrow> z \<in> set (db_ops db1)"
    unfolding rows got_def worker_batch_ids by (auto simp: image_iff)
qed



text \<open>No secret is left in a value: neither a sensitive text at any depth, nor anything but the
  marker under a sensitive key.\<close>

fun redacted :: "(string \<Rightarrow> string) \<Rightarrow> payload_value \<Rightarrow> bool" where
  "redacted uni (PayloadString s) = (\<not> containsSensitiveVFSOperationText uni s)"
| "redacted uni (PayloadList items) = (\<forall>v \<in> set items. redacted uni v)"
| "redacted uni (PayloadMap m) =
     (\<forall>(k, v) \<in> set m. if isSensitiveVFSOperationPayloadKey uni k
        then v = PayloadString vfsOperationRedactedValue else redacted uni v)"
| "redacted uni (PayloadOther enc) =
     (case enc of None \<Rightarrow> False | Some text \<Rightarrow> \<not> containsSensitiveVFSOperationText uni text)"
| "redacted uni v = True"

lemma marker_not_sensitive: "\<not> containsSensitiveVFSOperationText uni vfsOperationRedactedValue"
proof -
  have "TrimSpace vfsOperationRedactedValue = vfsOperationRedactedValue" by code_simp
  moreover have "ToLower uni vfsOperationRedactedValue = vfsOperationRedactedValue"
  proof -
    have "\<forall>c \<in> set vfsOperationRedactedValue. (of_char c :: nat) < 128"
      "map lower_byte vfsOperationRedactedValue = vfsOperationRedactedValue" by code_simp+
    then show ?thesis by (simp add: ToLower_def)
  qed
  moreover have "\<not> list_ex (Contains vfsOperationRedactedValue)
             [''sql:'', ''select '', ''insert '', ''update '', ''delete '', ''duplicate key'',
              ''provider payload'', ''provider-payload'', ''access_token'', ''refresh_token'',
              ''secret'', ''password'', ''credential'', ''private_key'']"
    "\<not> looksLikeWindowsPhysicalPath vfsOperationRedactedValue"
    "\<not> list_ex (HasPrefix vfsOperationRedactedValue)
        [''/mnt/'', ''/var/'', ''/tmp/'', ''/home/'', ''/root/'', ''/data/'', ''/opt/'', ''/etc/'',
         ''/srv/'', ''/usr/'', ''/volumes/'', ''/users/'']"
    by code_simp+
  ultimately show ?thesis
    by (simp add: containsSensitiveVFSOperationText_def looksLikeUnixPhysicalPath_def Let_def)
qed

lemma sanitize_redacted: "redacted uni (sanitizeVFSOperationPayloadValue uni v)"
  by (induction uni v rule: sanitizeVFSOperationPayloadValue.induct)
     (auto simp: marker_not_sensitive split: option.split)

lemma redacted_sanitize: "redacted uni v \<Longrightarrow> sanitizeVFSOperationPayloadValue uni v = v"
  by (induction uni v rule: sanitizeVFSOperationPayloadValue.induct)
     (auto intro!: map_idI split: option.splits if_splits)

text \<open>C32: Redaction is complete and stable: the map that is stored has the keys of the input,
  no sensitive text at any depth and only the marker under a sensitive key, and redacting it
  again changes nothing.\<close>

theorem payload_redaction:
  "map fst (sanitizeVFSOperationPayloadMap uni m) = map fst m \<and>
   redacted uni (PayloadMap (sanitizeVFSOperationPayloadMap uni m)) \<and>
   sanitizeVFSOperationPayloadMap uni (sanitizeVFSOperationPayloadMap uni m) =
     sanitizeVFSOperationPayloadMap uni m"
proof -
  have eq: "PayloadMap (sanitizeVFSOperationPayloadMap uni m) = sanitizeVFSOperationPayloadValue uni (PayloadMap m)" for m
    by (simp add: sanitizeVFSOperationPayloadMap_def)
  have "redacted uni (PayloadMap (sanitizeVFSOperationPayloadMap uni m))"
    unfolding eq by (rule sanitize_redacted)
  moreover from redacted_sanitize [OF this]
  have "sanitizeVFSOperationPayloadMap uni (sanitizeVFSOperationPayloadMap uni m) =
     sanitizeVFSOperationPayloadMap uni m"
    by (simp only: eq [symmetric] payload_value.inject)
  moreover have "map fst (sanitizeVFSOperationPayloadMap uni m) = map fst m"
    by (simp add: sanitizeVFSOperationPayloadMap_def split_def)
  ultimately show ?thesis by blast
qed

end
