(* ===== verification/Metadata_Repo.thy ===== *)
theory Metadata_Repo
  imports Paths Database
begin

text \<open>
  The node repository of \<^verbatim>\<open>vfs_metadata_repo_impl.go\<close>: rows of the metadata tree, selected by
  identifier, by path, by parent and by path prefix. Prefix queries use the SQL \<^verbatim>\<open>LIKE\<close>
  operator on an escaped pattern; the pattern is shown to select exactly the subtree of a path.
  The two partial unique indexes (path, and parent with name, over rows that are not deleted)
  are part of every insert and update.
\<close>

section \<open>Patterns\<close>

definition escapeLikePattern :: "string \<Rightarrow> string" where
  "escapeLikePattern value =
     concat (map (\<lambda>c. if c = CHR 0x5C \<or> c = CHR ''%'' \<or> c = CHR ''_'' then [CHR 0x5C, c] else [c]) value)"

definition normalizeVFSPathPrefix :: "string \<Rightarrow> string" where
  "normalizeVFSPathPrefix pathPrefix =
     (let prefix = TrimRight (TrimSpace pathPrefix) CHR ''/''
      in if prefix = [] then ''/'' else prefix)"

definition pathChildrenLikePattern :: "string \<Rightarrow> string" where
  "pathChildrenLikePattern path =
     (let prefix = normalizeVFSPathPrefix path
      in if prefix = ''/'' then ''/%'' else escapeLikePattern prefix @ ''/%'')"

section \<open>Rows\<close>

definition node_setID :: "nat \<Rightarrow> VFSNode \<Rightarrow> VFSNode" where
  "node_setID i n = n\<lparr>node_ID := i\<rparr>"

definition node_merge :: "gotime \<Rightarrow> VFSNode \<Rightarrow> VFSNode \<Rightarrow> VFSNode" where
  "node_merge now old new =
     new\<lparr>node_ID := node_ID old, node_CreatedAt := node_CreatedAt old, node_UpdatedAt := now\<rparr>"

definition node_stamp :: "gotime \<Rightarrow> VFSNode \<Rightarrow> VFSNode" where
  "node_stamp now n =
     n\<lparr>node_CreatedAt := (if node_CreatedAt n = 0 then now else node_CreatedAt n),
       node_UpdatedAt := (if node_UpdatedAt n = 0 then now else node_UpdatedAt n)\<rparr>"

text \<open>
  The indexes \<^verbatim>\<open>idx_vfs_node_path_active\<close> and \<^verbatim>\<open>idx_vfs_node_parent_name_active\<close>; rows
  without a parent never clash in the second one.
\<close>

definition node_path_clash :: "VFSNode \<Rightarrow> VFSNode \<Rightarrow> bool" where
  "node_path_clash x y \<longleftrightarrow> \<not> node_IsDeleted x \<and> \<not> node_IsDeleted y \<and> node_Path x = node_Path y"

definition node_name_clash :: "VFSNode \<Rightarrow> VFSNode \<Rightarrow> bool" where
  "node_name_clash x y \<longleftrightarrow> \<not> node_IsDeleted x \<and> \<not> node_IsDeleted y \<and>
     node_ParentID x \<noteq> None \<and> node_ParentID x = node_ParentID y \<and> node_Name x = node_Name y"

abbreviation node_clash :: "VFSNode \<Rightarrow> VFSNode \<Rightarrow> bool" where
  "node_clash x y \<equiv> node_path_clash x y \<or> node_name_clash x y"

section \<open>Repository\<close>

record VFSNodeListFilter =
  nlf_Kind :: string
  nlf_MountID :: "nat option"
  nlf_SourceID :: "nat option"
  nlf_SyncState :: string
  nlf_IncludeDeleted :: bool
  nlf_Limit :: int

definition noFilter :: VFSNodeListFilter where
  "noFilter = \<lparr>nlf_Kind = [], nlf_MountID = None, nlf_SourceID = None, nlf_SyncState = [],
     nlf_IncludeDeleted = False, nlf_Limit = 0\<rparr>"

definition node_selected :: "VFSNodeListFilter \<Rightarrow> VFSNode \<Rightarrow> bool" where
  "node_selected filt n \<longleftrightarrow>
     (nlf_IncludeDeleted filt \<or> \<not> node_IsDeleted n) \<and>
     (nlf_Kind filt \<noteq> [] \<longrightarrow> node_Kind n = nlf_Kind filt) \<and>
     (case nlf_MountID filt of None \<Rightarrow> True | Some m \<Rightarrow> node_MountID n = Some m) \<and>
     (case nlf_SourceID filt of None \<Rightarrow> True | Some m \<Rightarrow> node_SourceID n = Some m) \<and>
     (nlf_SyncState filt \<noteq> [] \<longrightarrow> node_SyncState n = nlf_SyncState filt)"

definition node_limit :: "VFSNodeListFilter \<Rightarrow> 'a list \<Rightarrow> 'a list" where
  "node_limit filt rows = (if nlf_Limit filt > 0 then take (nat (nlf_Limit filt)) rows else rows)"

definition node_Create :: "VFSNode \<Rightarrow> (DB, VFSNode) handler" where
  "node_Create node db =
     insert_row ''vfs_nodes'' db_nodes db_nodes_update node_ID node_setID node_clash
       (node_stamp (db_now db) node) db"

definition node_Update :: "VFSNode \<Rightarrow> (DB, unit) handler" where
  "node_Update node = update_row db_nodes db_nodes_update node_ID node_merge node_clash node"

definition node_FindByID :: "nat \<Rightarrow> (DB, VFSNode) handler" where
  "node_FindByID i = find_row db_nodes (\<lambda>n. node_ID n = i)"

definition node_FindByPath :: "string \<Rightarrow> (DB, VFSNode) handler" where
  "node_FindByPath p = find_row db_nodes (\<lambda>n. node_Path n = p \<and> \<not> node_IsDeleted n)"

definition node_Delete :: "nat \<Rightarrow> (DB, unit) handler" where
  "node_Delete i =
     WithinTx
       (tryM (find_row db_nodes (\<lambda>n. node_ID n = i \<and> \<not> node_IsDeleted n)) (\<lambda>model.
          let pattern = (if node_Path model = ''/'' then ''/%'' else pathChildrenLikePattern (node_Path model));
              hit = (\<lambda>n. \<not> node_IsDeleted n \<and> (node_Path n = node_Path model \<or> like pattern (node_Path n)))
          in stmt (\<lambda>db.
               if \<forall>n \<in> set (db_nodes db). \<not> hit n then (Inl ErrNotFound, db)
               else (Inr (), db_nodes_update (map (\<lambda>n.
                      if hit n then n\<lparr>node_IsDeleted := True, node_UpdatedAt := db_now db\<rparr> else n)) db))))"

definition node_ListChildren :: "nat option \<Rightarrow> VFSNodeListFilter \<Rightarrow> (DB, VFSNode list) handler" where
  "node_ListChildren parentID filt =
     select_rows (\<lambda>db. node_limit filt
       (sort_key (\<lambda>n. (db_collate db (node_Name n), node_ID n))
          (filter (\<lambda>n. node_ParentID n = parentID \<and> node_selected filt n) (db_nodes db))))"

definition node_ListByPathPrefix :: "string \<Rightarrow> VFSNodeListFilter \<Rightarrow> (DB, VFSNode list) handler" where
  "node_ListByPathPrefix pathPrefix filt =
     (let prefix = normalizeVFSPathPrefix pathPrefix
      in select_rows (\<lambda>db. node_limit filt
           (sort_key (\<lambda>n. (db_collate db (node_Path n), node_ID n))
              (filter (\<lambda>n. (prefix \<noteq> ''/'' \<longrightarrow>
                              node_Path n = prefix \<or> like (pathChildrenLikePattern prefix) (node_Path n)) \<and>
                           node_selected filt n) (db_nodes db)))))"

text \<open>
  \<^verbatim>\<open>INSERT ... ON CONFLICT (path) WHERE is_deleted = false DO UPDATE\<close>: the row at the path
  keeps its identifier, path and creation fields and takes the other columns.
\<close>

definition node_overwrite :: "VFSNode \<Rightarrow> VFSNode \<Rightarrow> VFSNode" where
  "node_overwrite old new =
     new\<lparr>node_ID := node_ID old, node_Path := node_Path old, node_CreatedBy := node_CreatedBy old,
         node_CreatedAt := node_CreatedAt old\<rparr>"

definition node_upsert :: "VFSNode \<Rightarrow> (DB, unit) handler" where
  "node_upsert node = stmt (\<lambda>db.
     let new = node_stamp (db_now db) (node\<lparr>node_IsDeleted := False\<rparr>);
         i = (if node_ID new = 0 then db_seq db ''vfs_nodes'' + 1 else node_ID new);
         db1 = (if node_ID new = 0 then db\<lparr>db_seq := (db_seq db)(''vfs_nodes'' := i)\<rparr> else db)
     in case find (\<lambda>n. node_Path n = node_Path new \<and> \<not> node_IsDeleted n) (db_nodes db) of
          Some old \<Rightarrow>
            (let row = node_overwrite old new
             in if \<exists>x \<in> set (db_nodes db). node_ID x \<noteq> node_ID old \<and> node_clash x row then (Inl ErrConflict, db1)
                else (Inr (), db_nodes_update (map (\<lambda>n. if node_ID n = node_ID old then row else n)) db1))
        | None \<Rightarrow>
            (if \<exists>x \<in> set (db_nodes db). node_ID x = i \<or> node_clash x (node_setID i new) then (Inl ErrConflict, db1)
             else (Inr (), db_nodes_update (\<lambda>rows. rows @ [node_setID i new]) db1)))"

definition node_UpsertByPath :: "VFSNode \<Rightarrow> (DB, VFSNode) handler" where
  "node_UpsertByPath node = tryM (node_upsert node) (\<lambda>_. node_FindByPath (node_Path node))"

section \<open>What the pattern selects\<close>

lemma escape_Cons: "escapeLikePattern (c # s) =
    (if c = CHR 0x5C \<or> c = CHR ''%'' \<or> c = CHR ''_'' then [CHR 0x5C, c] else [c]) @ escapeLikePattern s"
  by (simp add: escapeLikePattern_def)

lemma like_escape: "like (escapeLikePattern p @ q) s \<longleftrightarrow> (\<exists>t. s = p @ t \<and> like q t)"
proof (induction p arbitrary: s)
  case Nil
  show ?case by (simp add: escapeLikePattern_def)
next
  case (Cons c p)
  show ?case
    by (cases s) (auto simp: escape_Cons like.simps(2) Cons.IH split: if_splits)
qed

lemma like_any: "like ''%'' s"
  by (induction s) (simp_all add: like.simps(2))

lemma like_children: "like (escapeLikePattern p @ ''/%'') s \<longleftrightarrow> prefix (p @ ''/'') s"
proof -
  have "like ''/%'' t \<longleftrightarrow> (\<exists>u. t = CHR ''/'' # u)" for t
    by (cases t) (auto simp: like.simps(2) [of "CHR ''/''"] like_any)
  then show ?thesis by (auto simp: like_escape prefix_def)
qed

text \<open>A path that does not end in white space is its own prefix.\<close>

definition trimmed :: "string \<Rightarrow> bool" where
  "trimmed p \<longleftrightarrow> TrimSpace p = p"

lemma render_last: "nsegs ws \<Longrightarrow> ws \<noteq> [] \<Longrightarrow> last (render ws) \<noteq> CHR ''/''"
proof -
  assume a: "nsegs ws" "ws \<noteq> []"
  then obtain xs w where ws: "ws = xs @ [w]" by (metis rev_exhaust)
  then have "w \<noteq> []" "CHR ''/'' \<notin> set w" using a(1) by (auto simp: nseg_def)
  then show ?thesis by (simp add: ws render_snoc') (metis last_in_set)
qed

lemma normalizePrefix_render:
  assumes "nsegs ws" "ws \<noteq> []" "trimmed (render ws)"
  shows "normalizeVFSPathPrefix (render ws) = render ws"
  using assms render_last [OF assms(1,2)]
  by (simp add: normalizeVFSPathPrefix_def trimmed_def TrimRight_id)

lemma childrenPattern_render:
  assumes "nsegs ws" "ws \<noteq> []" "trimmed (render ws)" "nsegs vs"
  shows "like (pathChildrenLikePattern (render ws)) (render vs) \<longleftrightarrow> strict_prefix ws vs"
proof -
  have "render ws \<noteq> ''/''" using assms(1,2) by simp
  then have "like (pathChildrenLikePattern (render ws)) (render vs) \<longleftrightarrow> prefix (render ws @ ''/'') (render vs)"
    by (simp add: pathChildrenLikePattern_def normalizePrefix_render [OF assms(1-3)] like_children)
  also have "\<dots> \<longleftrightarrow> strict_prefix ws vs"
  proof (cases "vs = []")
    case True
    then show ?thesis using assms(2) by (cases ws) (auto simp: render_def prefix_def)
  next
    case False
    then show ?thesis using body_prefix [OF assms(1,4)] assms(2) by (simp add: render_def)
  qed
  finally show ?thesis .
qed



end
