(* ===== verification/Metadata_VFS.thy ===== *)
theory Metadata_VFS
  imports Metadata_Repo
begin

text \<open>
  The metadata tree service \<^verbatim>\<open>metadata_vfs_service.go\<close>: resolving, listing and searching nodes,
  and the mutations of the tree (mkdir, rename, move, delete) with the rewriting of the paths
  of a subtree inside a transaction. The optional dependencies of the service are flags of its
  record; the tag operations are not modelled. What the standard library reads from tables of
  the system (Unicode lower case, MIME types, time formatting, JSON encoding) are fields of
  the environment record.
\<close>

section \<open>Service and requests\<close>

record MetadataVFSService =
  mvs_nodeRepo :: bool
  mvs_objectRepo :: bool
  mvs_sourceRepo :: bool
  mvs_transactor :: bool
  mvs_uni :: "string \<Rightarrow> string"
  mvs_mimeByExt :: "string \<Rightarrow> string"
  mvs_rfc3339 :: "gotime \<Rightarrow> string"
  mvs_json :: JSONCodec

record MetadataVFSMkdirRequest =
  mk_ParentPath :: string
  mk_Name :: string
  mk_ActorID :: "nat option"

record MetadataVFSRenameRequest =
  rn_Path :: string
  rn_NewName :: string
  rn_ActorID :: "nat option"

record MetadataVFSMoveRequest =
  mo_Path :: string
  mo_TargetParentPath :: string
  mo_ActorID :: "nat option"

record VFSListResponse =
  vl_Items :: "VFSItem list"
  vl_CurrentPath :: string

record VFSSearchResponse =
  vs_Items :: "VFSItem list"
  vs_PathPrefix :: string
  vs_Keyword :: string

section \<open>Helpers\<close>

definition normalizeMetadataVFSError :: "app_error \<Rightarrow> app_error" where
  "normalizeMetadataVFSError err =
     (if errors_Is err ErrNotFound then ErrFileNotFound
      else if errors_Is err ErrConflict \<or> errors_Is err ErrConstraintViolation then ErrNameConflict
      else err)"

text \<open>\<^verbatim>\<open>if err := m(); err != nil { return normalizeMetadataVFSError(err) }\<close>\<close>

abbreviation tryN :: "('s, 'a) handler \<Rightarrow> ('a \<Rightarrow> ('s, 'b) handler) \<Rightarrow> ('s, 'b) handler" where
  "tryN m f \<equiv> if_err m (\<lambda>e. throw (normalizeMetadataVFSError e)) f"

definition metadataVFSNodeIsDirectory :: "VFSNode \<Rightarrow> bool" where
  "metadataVFSNodeIsDirectory node \<longleftrightarrow>
     node_Kind node = VFSNodeKindRoot \<or> node_Kind node = VFSNodeKindVirtualDir \<or>
     node_Kind node = VFSNodeKindMount \<or> node_Kind node = VFSNodeKindDir"

definition metadataVFSChildDirKind :: "VFSNode \<Rightarrow> string" where
  "metadataVFSChildDirKind parent =
     (if node_Kind parent = VFSNodeKindMount \<or> node_SourceID parent \<noteq> None \<or> node_MountID parent \<noteq> None
      then VFSNodeKindDir else VFSNodeKindVirtualDir)"

definition metadataVFSNodeMatchesKeyword :: "(string \<Rightarrow> string) \<Rightarrow> VFSNode \<Rightarrow> string \<Rightarrow> bool" where
  "metadataVFSNodeMatchesKeyword uni node keyword \<longleftrightarrow>
     Contains (ToLower uni (node_Name node)) keyword \<or> Contains (ToLower uni (node_Path node)) keyword"

definition metadataVFSNodeUnavailable :: "VFSNode \<Rightarrow> bool" where
  "metadataVFSNodeUnavailable node \<longleftrightarrow>
     node_SyncState node = VFSNodeSyncStateMissing \<or> node_SyncState node = VFSNodeSyncStateError \<or>
     node_SyncState node = VFSNodeSyncStatePending \<or> node_SyncState node = VFSNodeSyncStateSyncing \<or>
     node_SyncState node = VFSNodeSyncStateConflict \<or> node_IsDeleted node"

definition canPreviewMIME :: "string \<Rightarrow> bool" where
  "canPreviewMIME mimeType \<longleftrightarrow>
     HasPrefix mimeType ''image/'' \<or> HasPrefix mimeType ''video/'' \<or> HasPrefix mimeType ''audio/'' \<or>
     HasPrefix mimeType ''text/'' \<or> mimeType = ''application/pdf'' \<or> HasSuffix mimeType ''json''"

text \<open>\<^verbatim>\<open>filepath.Ext\<close>: from the last dot of the last path element on.\<close>

definition filepath_Ext :: "string \<Rightarrow> string" where
  "filepath_Ext p =
     (let base = rev (takeWhile (\<lambda>c. c \<noteq> CHR ''/'') (rev p));
          ext = rev (takeWhile (\<lambda>c. c \<noteq> CHR ''.'') (rev base))
      in if CHR ''.'' \<in> set base then CHR ''.'' # ext else [])"

definition metadataVFSItemFromNode :: "MetadataVFSService \<Rightarrow> VFSNode \<Rightarrow> VFSItem" where
  "metadataVFSItemFromNode s node =
     (let isDir = metadataVFSNodeIsDirectory node;
          ext = ToLower (mvs_uni s) (filepath_Ext (node_Name node));
          detected = mvs_mimeByExt s ext;
          mime = (if node_MimeType node \<noteq> [] then node_MimeType node
                  else if detected \<noteq> [] then detected else ''application/octet-stream'')
      in \<lparr>vi_ID = node_ID node, vi_Name = node_Name node, vi_Path = node_Path node,
          vi_ParentPath = parentVirtualPath (node_Path node),
          vi_SourceID = cloneUintPtr (node_SourceID node),
          vi_EntryKind = (if isDir then ''directory'' else ''file''),
          vi_IsVirtual = (node_Kind node = VFSNodeKindRoot \<or> node_Kind node = VFSNodeKindVirtualDir \<or>
                          node_Kind node = VFSNodeKindMount),
          vi_IsMountPoint = (node_Kind node = VFSNodeKindMount),
          vi_SyncState = node_SyncState node,
          vi_Size = (if isDir then 0 else node_Size node),
          vi_MimeType = (if isDir then ''inode/directory'' else mime),
          vi_Extension = (if isDir then [] else ext),
          vi_ModifiedAt = mvs_rfc3339 s (node_UpdatedAt node),
          vi_CreatedAt = mvs_rfc3339 s (node_CreatedAt node),
          vi_Etag = node_ETag node,
          vi_CanPreview = (\<not> isDir \<and> canPreviewMIME mime),
          vi_CanDownload = (\<not> isDir \<and> \<not> metadataVFSNodeUnavailable node),
          vi_CanDelete = (node_Kind node \<noteq> VFSNodeKindRoot \<and> node_Kind node \<noteq> VFSNodeKindMount)\<rparr>)"

text \<open>Directories first, then by lower-case name; the sort is stable.\<close>

definition sortMetadataVFSItems :: "(string \<Rightarrow> string) \<Rightarrow> VFSItem list \<Rightarrow> VFSItem list" where
  "sortMetadataVFSItems uni items =
     sort_key (\<lambda>i. (if vi_EntryKind i = ''directory'' then 0 else 1 :: nat, ToLower uni (vi_Name i))) items"

definition rewriteMetadataSubtreePath :: "string \<Rightarrow> string \<Rightarrow> string \<Rightarrow> string" where
  "rewriteMetadataSubtreePath currentPath oldPrefix newPrefix =
     (if currentPath = oldPrefix then newPrefix
      else
        let suffix = TrimPrefix currentPath oldPrefix
        in if suffix = [] then newPrefix
           else newPrefix @ (if \<not> HasPrefix suffix ''/'' then ''/'' @ suffix else suffix))"

section \<open>Object locators\<close>

definition metadataVFSObjectLocatorPathBased :: "StorageObject \<Rightarrow> bool" where
  "metadataVFSObjectLocatorPathBased object \<longleftrightarrow>
     TrimSpace (obj_LocatorType object) \<in> set [''local_path'', ''driver_path'', ''provider_path'']"

text \<open>\<^verbatim>\<open>strings.NewReplacer("-", "_", " ", "_")\<close> and lower case\<close>

definition locator_key :: "(string \<Rightarrow> string) \<Rightarrow> string \<Rightarrow> string" where
  "locator_key uni key =
     ToLower uni (map (\<lambda>c. if c = CHR ''-'' \<or> c = CHR '' '' then CHR ''_'' else c) (TrimSpace key))"

definition metadataCommitLocatorKeyIsSensitive :: "(string \<Rightarrow> string) \<Rightarrow> string \<Rightarrow> bool" where
  "metadataCommitLocatorKeyIsSensitive uni key =
     (let normalized = locator_key uni key
      in normalized \<in> set [''access_token'', ''refresh_token'', ''id_token'', ''auth_token'', ''token'',
           ''password'', ''passwd'', ''secret'', ''client_secret'', ''secret_key'', ''api_key'',
           ''private_key'', ''credential'', ''credentials'', ''authorization'', ''cookie'',
           ''session'', ''session_id''] \<or>
         HasSuffix normalized ''_secret'' \<or> HasSuffix normalized ''_token'' \<or> HasSuffix normalized ''_password'')"

definition metadataCommitLocatorKeyIsPhysical :: "(string \<Rightarrow> string) \<Rightarrow> string \<Rightarrow> bool" where
  "metadataCommitLocatorKeyIsPhysical uni key =
     (let normalized = locator_key uni key
      in normalized \<in> set [''physical_path'', ''absolute_path'', ''base_path'', ''filesystem_path'', ''fs_path''] \<or>
         HasSuffix normalized ''_physical_path'' \<or> HasSuffix normalized ''_absolute_path'')"

fun metadataCommitSanitizeLocatorValue :: "(string \<Rightarrow> string) \<Rightarrow> payload_value \<Rightarrow> payload_value" where
  "metadataCommitSanitizeLocatorValue uni (PayloadMap m) =
     PayloadMap (map (\<lambda>(k, v). (k,
       if metadataCommitLocatorKeyIsSensitive uni k \<or> metadataCommitLocatorKeyIsPhysical uni k
       then PayloadString ''[redacted]'' else metadataCommitSanitizeLocatorValue uni v)) m)"
| "metadataCommitSanitizeLocatorValue uni (PayloadList items) =
     PayloadList (map (metadataCommitSanitizeLocatorValue uni) items)"
| "metadataCommitSanitizeLocatorValue uni v = v"

definition metadataCommitMarshalLocatorJSON ::
  "(string \<Rightarrow> string) \<Rightarrow> JSONCodec \<Rightarrow> (string \<times> payload_value) list \<Rightarrow> string result" where
  "metadataCommitMarshalLocatorJSON uni json value =
     (case metadataCommitSanitizeLocatorValue uni (PayloadMap value) of
        PayloadMap m \<Rightarrow> json_Marshal json m | _ \<Rightarrow> Inl ErrInvalid)"

definition obj_merge :: "gotime \<Rightarrow> StorageObject \<Rightarrow> StorageObject \<Rightarrow> StorageObject" where
  "obj_merge now old new =
     new\<lparr>obj_ID := obj_ID old, obj_CreatedAt := obj_CreatedAt old, obj_UpdatedAt := now\<rparr>"

text \<open>The unique index \<^verbatim>\<open>idx_storage_object_locator\<close>\<close>

definition obj_clash :: "StorageObject \<Rightarrow> StorageObject \<Rightarrow> bool" where
  "obj_clash x y \<longleftrightarrow> obj_SourceID x = obj_SourceID y \<and> obj_DriverType x = obj_DriverType y \<and>
     obj_LocatorType x = obj_LocatorType y \<and> obj_LocatorJSON x = obj_LocatorJSON y"

definition obj_FindByID :: "nat \<Rightarrow> (DB, StorageObject) handler" where
  "obj_FindByID i = find_row db_objects (\<lambda>x. obj_ID x = i)"

definition obj_Update :: "StorageObject \<Rightarrow> (DB, unit) handler" where
  "obj_Update object =
     with_jsonb (jsonObject (obj_LocatorJSON object)) (\<lambda>canon.
       update_row db_objects db_objects_update obj_ID obj_merge obj_clash (object\<lparr>obj_LocatorJSON := canon\<rparr>))"

definition src_FindByID :: "nat \<Rightarrow> (DB, StorageSource) handler" where
  "src_FindByID i = find_row db_sources (\<lambda>x. src_ID x = i)"

definition metadataNodeInnerPath :: "nat \<Rightarrow> string \<Rightarrow> (DB, string) handler" where
  "metadataNodeInnerPath sourceID virtualPath =
     tryN (src_FindByID sourceID) (\<lambda>source.
       if TrimSpace (src_MountPath source) = [] then lift (normalizeVirtualPath virtualPath)
       else
         tryM (lift (normalizeMountPath (src_MountPath source))) (\<lambda>mountPath.
         tryM (lift (normalizeVirtualPath virtualPath)) (\<lambda>normalizedPath.
           if \<not> isSubPath mountPath normalizedPath then throw ErrPathInvalid
           else
             let inner0 = TrimPrefix normalizedPath mountPath;
                 inner1 = (if inner0 = [] then ''/'' else inner0);
                 inner = (if \<not> HasPrefix inner1 ''/'' then ''/'' @ inner1 else inner1)
             in lift (normalizeVirtualPath inner))))"

definition syncPathBasedObjectLocator :: "MetadataVFSService \<Rightarrow> VFSNode \<Rightarrow> (DB, unit) handler" where
  "syncPathBasedObjectLocator s node =
     (if \<not> mvs_objectRepo s \<or> \<not> mvs_sourceRepo s \<or> node_Kind node \<noteq> VFSNodeKindFile then ret ()
      else case (node_ObjectID node, node_SourceID node) of
          (Some objectID, Some sourceID) \<Rightarrow>
            if_err (obj_FindByID objectID)
              (\<lambda>err. if errors_Is err ErrNotFound then ret () else throw (normalizeMetadataVFSError err))
              (\<lambda>object.
                 if \<not> metadataVFSObjectLocatorPathBased object then ret ()
                 else
                   tryM (metadataNodeInnerPath sourceID (node_Path node)) (\<lambda>innerPath.
                   tryM (lift (metadataCommitMarshalLocatorJSON (mvs_uni s) (mvs_json s)
                           [(''path'', PayloadString innerPath)])) (\<lambda>locatorJSON.
                   tryM (gets db_now) (\<lambda>now.
                   tryN (obj_Update (object\<lparr>obj_LocatorJSON := locatorJSON, obj_UpdatedAt := now\<rparr>)) ret))))
        | _ \<Rightarrow> ret ())"

section \<open>Reading\<close>

definition EnsureRoot :: "MetadataVFSService \<Rightarrow> (DB, VFSNode) handler" where
  "EnsureRoot s db =
     (if \<not> mvs_nodeRepo s then throw ErrSourceDriverUnsupported db
      else
        tryN (node_UpsertByPath
          \<lparr>node_ID = 0, node_ParentID = None, node_Name = [], node_Path = ''/'',
           node_Kind = VFSNodeKindRoot, node_MountID = None, node_ObjectID = None,
           node_SourceID = None, node_ProviderItemID = None, node_ProviderParentID = None,
           node_Size = 0, node_MimeType = [], node_ETag = [], node_Checksum = [],
           node_SyncState = VFSNodeSyncStateIndexed, node_IsDeleted = False,
           node_CreatedBy = None, node_UpdatedBy = None, node_CreatedAt = db_now db,
           node_UpdatedAt = db_now db, node_IndexedAt = Some (db_now db), node_LastSeenAt = None\<rparr>) ret db)"

definition ResolveNode :: "MetadataVFSService \<Rightarrow> string \<Rightarrow> (DB, VFSNode) handler" where
  "ResolveNode s virtualPath =
     (if \<not> mvs_nodeRepo s then throw ErrSourceDriverUnsupported
      else
        tryM (lift (normalizeVirtualPath virtualPath)) (\<lambda>normalizedPath.
        tryN (node_FindByPath normalizedPath) ret))"

definition ResolveNodeByID :: "MetadataVFSService \<Rightarrow> nat \<Rightarrow> (DB, VFSNode) handler" where
  "ResolveNodeByID s i =
     (if \<not> mvs_nodeRepo s then throw ErrSourceDriverUnsupported
      else
        tryN (node_FindByID i) (\<lambda>node.
          if node_IsDeleted node then throw ErrFileNotFound else ret node))"

definition resolveMetadataVFSNodeID :: "MetadataVFSService option \<Rightarrow> string \<Rightarrow> (DB, nat) handler" where
  "resolveMetadataVFSNodeID reader virtualPath =
     (case reader of
        None \<Rightarrow> ret 0
      | Some rd \<Rightarrow>
          if TrimSpace virtualPath = [] then ret 0
          else case normalizeVirtualPath virtualPath of
              Inl _ \<Rightarrow> ret 0
            | Inr normalizedPath \<Rightarrow> if_err (ResolveNode rd normalizedPath) (\<lambda>_. ret 0) (\<lambda>node. ret (node_ID node)))"

definition optionalUintPtr :: "nat \<Rightarrow> nat option" where
  "optionalUintPtr value = (if value = 0 then None else Some value)"

definition ListChildren :: "MetadataVFSService \<Rightarrow> string \<Rightarrow> (DB, VFSListResponse) handler" where
  "ListChildren s currentPath =
     tryM (ResolveNode s currentPath) (\<lambda>parent.
       if \<not> metadataVFSNodeIsDirectory parent then throw ErrPathInvalid
       else
         tryN (node_ListChildren (Some (node_ID parent)) noFilter) (\<lambda>children.
           ret \<lparr>vl_Items = sortMetadataVFSItems (mvs_uni s) (map (metadataVFSItemFromNode s) children),
                vl_CurrentPath = node_Path parent\<rparr>))"

definition Search :: "MetadataVFSService \<Rightarrow> string \<Rightarrow> string \<Rightarrow> (DB, VFSSearchResponse) handler" where
  "Search s pathPrefix keyword =
     tryM (lift (normalizeVirtualPath pathPrefix)) (\<lambda>normalizedPrefix.
       let rawKeyword = TrimSpace keyword;
           normalizedKeyword = ToLower (mvs_uni s) rawKeyword
       in if normalizedKeyword = [] then throw ErrPathInvalid
          else
            tryM (ResolveNode s normalizedPrefix) (\<lambda>prefixNode.
            tryN (node_ListByPathPrefix (node_Path prefixNode) noFilter) (\<lambda>nodes.
              let matching = filter (\<lambda>n. node_ID n \<noteq> node_ID prefixNode \<and>
                    metadataVFSNodeMatchesKeyword (mvs_uni s) n normalizedKeyword) nodes
              in ret \<lparr>vs_Items = sortMetadataVFSItems (mvs_uni s) (map (metadataVFSItemFromNode s) matching),
                      vs_PathPrefix = node_Path prefixNode, vs_Keyword = rawKeyword\<rparr>)))"

section \<open>Mutations\<close>

definition ensureMetadataNameAvailable :: "string \<Rightarrow> (DB, unit) handler" where
  "ensureMetadataNameAvailable targetPath =
     tryM (lift (normalizeVirtualPath targetPath)) (\<lambda>normalizedPath.
       if normalizedPath = ''/'' then throw ErrNameConflict
       else
         if_err (node_FindByPath normalizedPath)
           (\<lambda>err. if errors_Is err ErrNotFound then ret () else throw (normalizeMetadataVFSError err))
           (\<lambda>_. throw ErrNameConflict))"

definition Mkdir :: "MetadataVFSService \<Rightarrow> MetadataVFSMkdirRequest \<Rightarrow> (DB, VFSItem) handler" where
  "Mkdir s req =
     tryM (lift (validateFileName (mk_Name req))) (\<lambda>_.
     tryM (ResolveNode s (mk_ParentPath req)) (\<lambda>parent.
       if \<not> metadataVFSNodeIsDirectory parent then throw ErrPathInvalid
       else
         let targetPath = joinVirtualPath (node_Path parent) (mk_Name req)
         in tryM (ensureMetadataNameAvailable targetPath) (\<lambda>_.
            tryM (gets db_now) (\<lambda>now.
            tryN (node_Create
              \<lparr>node_ID = 0, node_ParentID = Some (node_ID parent), node_Name = mk_Name req,
               node_Path = targetPath, node_Kind = metadataVFSChildDirKind parent,
               node_MountID = cloneUintPtr (node_MountID parent), node_ObjectID = None,
               node_SourceID = cloneUintPtr (node_SourceID parent), node_ProviderItemID = None,
               node_ProviderParentID = None, node_Size = 0, node_MimeType = [], node_ETag = [],
               node_Checksum = [], node_SyncState = VFSNodeSyncStateIndexed, node_IsDeleted = False,
               node_CreatedBy = cloneUintPtr (mk_ActorID req), node_UpdatedBy = cloneUintPtr (mk_ActorID req),
               node_CreatedAt = now, node_UpdatedAt = now, node_IndexedAt = Some now,
               node_LastSeenAt = None\<rparr>) (\<lambda>node.
              ret (metadataVFSItemFromNode s node))))))"

text \<open>The two loops of the path rewriting.\<close>

fun subtree_target_loop :: "nat list \<Rightarrow> string \<Rightarrow> string \<Rightarrow> VFSNode list \<Rightarrow> (DB, unit) handler" where
  "subtree_target_loop ids oldPrefix newPrefix [] = ret ()"
| "subtree_target_loop ids oldPrefix newPrefix (item # items) =
     if_err (node_FindByPath (rewriteMetadataSubtreePath (node_Path item) oldPrefix newPrefix))
       (\<lambda>err. if \<not> errors_Is err ErrNotFound then throw (normalizeMetadataVFSError err)
              else subtree_target_loop ids oldPrefix newPrefix items)
       (\<lambda>existing. if node_ID existing \<in> set ids then subtree_target_loop ids oldPrefix newPrefix items
                   else throw ErrNameConflict)"

definition ensureMetadataSubtreeTargetAvailable :: "VFSNode list \<Rightarrow> string \<Rightarrow> string \<Rightarrow> (DB, unit) handler" where
  "ensureMetadataSubtreeTargetAvailable subtree oldPrefix newPrefix =
     subtree_target_loop (map node_ID subtree) oldPrefix newPrefix subtree"

definition relocated :: "VFSNode \<Rightarrow> nat \<Rightarrow> string \<Rightarrow> string \<Rightarrow> nat option \<Rightarrow> gotime \<Rightarrow> VFSNode \<Rightarrow> VFSNode" where
  "relocated node newParentID newName newPath actorID now item =
     (let moved = (if node_ID item = node_ID node
            then item\<lparr>node_ParentID := Some newParentID, node_Name := newName, node_Path := newPath\<rparr>
            else item\<lparr>node_Path := rewriteMetadataSubtreePath (node_Path item) (node_Path node) newPath\<rparr>)
      in moved\<lparr>node_UpdatedBy := cloneUintPtr actorID, node_UpdatedAt := now\<rparr>)"

fun relocate_loop ::
  "MetadataVFSService \<Rightarrow> VFSNode \<Rightarrow> nat \<Rightarrow> string \<Rightarrow> string \<Rightarrow> nat option \<Rightarrow> gotime \<Rightarrow> VFSNode list \<Rightarrow> (DB, unit) handler" where
  "relocate_loop s node newParentID newName newPath actorID now [] = ret ()"
| "relocate_loop s node newParentID newName newPath actorID now (item # items) =
     (let item' = relocated node newParentID newName newPath actorID now item
      in tryM (syncPathBasedObjectLocator s item') (\<lambda>_.
         tryN (node_Update item') (\<lambda>_.
           relocate_loop s node newParentID newName newPath actorID now items)))"

definition withinTx :: "MetadataVFSService \<Rightarrow> (DB, 'a) handler \<Rightarrow> (DB, 'a) handler" where
  "withinTx s fn = (if \<not> mvs_transactor s then fn else WithinTx fn)"

definition updateMetadataSubtreePath ::
  "MetadataVFSService \<Rightarrow> VFSNode \<Rightarrow> nat \<Rightarrow> string \<Rightarrow> string \<Rightarrow> nat option \<Rightarrow> (DB, unit) handler" where
  "updateMetadataSubtreePath s node newParentID newName newPath actorID =
     withinTx s
       (tryN (node_ListByPathPrefix (node_Path node) noFilter) (\<lambda>subtree0.
          if subtree0 = [] then throw ErrFileNotFound
          else
            let subtree = sort_key (\<lambda>n. length (node_Path n)) subtree0
            in tryM (ensureMetadataSubtreeTargetAvailable subtree (node_Path node) newPath) (\<lambda>_.
               tryM (gets db_now) (\<lambda>now.
                 relocate_loop s node newParentID newName newPath actorID now subtree))))"

definition Rename :: "MetadataVFSService \<Rightarrow> MetadataVFSRenameRequest \<Rightarrow> (DB, string \<times> VFSItem) handler" where
  "Rename s req =
     tryM (lift (validateFileName (rn_NewName req))) (\<lambda>_.
     tryM (ResolveNode s (rn_Path req)) (\<lambda>node.
       case node_ParentID node of
         None \<Rightarrow> throw ErrPathInvalid
       | Some parentID \<Rightarrow>
           if node_Kind node = VFSNodeKindRoot then throw ErrPathInvalid
           else if node_Kind node = VFSNodeKindMount then throw ErrSourceOperationUnsupported
           else if node_Name node = rn_NewName req then ret (node_Path node, metadataVFSItemFromNode s node)
           else
             let newPath = joinVirtualPath (parentVirtualPath (node_Path node)) (rn_NewName req)
             in tryM (ensureMetadataNameAvailable newPath) (\<lambda>_.
                tryM (updateMetadataSubtreePath s node parentID (rn_NewName req) newPath (rn_ActorID req)) (\<lambda>_.
                tryM (ResolveNode s newPath) (\<lambda>updated.
                  ret (node_Path node, metadataVFSItemFromNode s updated))))))"

definition Move :: "MetadataVFSService \<Rightarrow> MetadataVFSMoveRequest \<Rightarrow> (DB, string \<times> VFSItem) handler" where
  "Move s req =
     tryM (ResolveNode s (mo_Path req)) (\<lambda>node.
       case node_ParentID node of
         None \<Rightarrow> throw ErrPathInvalid
       | Some parentID \<Rightarrow>
           if node_Kind node = VFSNodeKindRoot then throw ErrPathInvalid
           else if node_Kind node = VFSNodeKindMount then throw ErrSourceOperationUnsupported
           else
             tryM (ResolveNode s (mo_TargetParentPath req)) (\<lambda>targetParent.
               if \<not> metadataVFSNodeIsDirectory targetParent then throw ErrPathInvalid
               else if isSubPath (node_Path node) (node_Path targetParent) then throw ErrPathInvalid
               else if \<not> sameUintPtr (node_MountID node) (node_MountID targetParent) \<or>
                       \<not> sameUintPtr (node_SourceID node) (node_SourceID targetParent)
                    then throw ErrSourceOperationUnsupported
               else if parentID = node_ID targetParent then ret (node_Path node, metadataVFSItemFromNode s node)
               else
                 let newPath = joinVirtualPath (node_Path targetParent) (node_Name node)
                 in tryM (ensureMetadataNameAvailable newPath) (\<lambda>_.
                    tryM (updateMetadataSubtreePath s node (node_ID targetParent) (node_Name node) newPath (mo_ActorID req)) (\<lambda>_.
                    tryM (ResolveNode s newPath) (\<lambda>updated.
                      ret (node_Path node, metadataVFSItemFromNode s updated))))))"

definition Delete :: "MetadataVFSService \<Rightarrow> string \<Rightarrow> (DB, gotime) handler" where
  "Delete s virtualPath =
     tryM (ResolveNode s virtualPath) (\<lambda>node.
       if node_Kind node = VFSNodeKindRoot then throw ErrPathInvalid
       else if node_Kind node = VFSNodeKindMount then throw ErrSourceOperationUnsupported
       else
         tryM (gets db_now) (\<lambda>deletedAt.
         tryN (node_Delete (node_ID node)) (\<lambda>_. ret deletedAt)))"

end
