(* ===== verification/Metadata_Tree.thy ===== *)
theory Metadata_Tree
  imports Metadata_VFS
begin

text \<open>
  The invariant of the metadata tree and its preservation. The rows that are not deleted form
  a tree: paths are normalised and unique, and every node but the root has a live parent whose
  path, extended by the node's name, is the node's path. The mutations are first described by
  what they do to the list of rows (insertion, relocation and removal of a subtree); the
  description is shown to keep the invariant, and then to be what the service does under any
  pattern of failing statements.
\<close>

section \<open>The invariant\<close>

abbreviation segs :: "VFSNode \<Rightarrow> string list" where
  "segs x \<equiv> segs_of (node_Path x)"

definition live :: "VFSNode list \<Rightarrow> VFSNode \<Rightarrow> bool" where
  "live rows x \<longleftrightarrow> x \<in> set rows \<and> \<not> node_IsDeleted x"

text \<open>A name without trailing white space.\<close>

definition no_trail :: "string \<Rightarrow> bool" where
  "no_trail w \<longleftrightarrow> (\<forall>sp \<in> set space_seqs. \<not> suffix sp w)"

definition attached :: "VFSNode list \<Rightarrow> VFSNode \<Rightarrow> bool" where
  "attached rows x \<longleftrightarrow> segs x = [] \<and> node_ParentID x = None \<or>
     (\<exists>p. live rows p \<and> node_ParentID x = Some (node_ID p) \<and> segs x = segs p @ [node_Name x] \<and>
          no_trail (node_Name x))"

definition tree_ok :: "VFSNode list \<Rightarrow> bool" where
  "tree_ok rows \<longleftrightarrow> distinct (map node_ID rows) \<and>
     (\<forall>x. live rows x \<longrightarrow> normal (node_Path x) \<and> attached rows x) \<and>
     (\<forall>x y. live rows x \<and> live rows y \<and> segs x = segs y \<longrightarrow> x = y)"

text \<open>Both are finite checks on the rows.\<close>

abbreviation live_rows :: "VFSNode list \<Rightarrow> VFSNode list" where
  "live_rows rows \<equiv> filter (\<lambda>x. \<not> node_IsDeleted x) rows"

lemma attached_code [code]:
  "attached rows x \<longleftrightarrow> segs x = [] \<and> node_ParentID x = None \<or>
     (\<exists>p \<in> set (live_rows rows). node_ParentID x = Some (node_ID p) \<and> segs x = segs p @ [node_Name x] \<and>
          no_trail (node_Name x))"
  by (auto simp: attached_def live_def)

lemma tree_ok_code [code]:
  "tree_ok rows \<longleftrightarrow> distinct (map node_ID rows) \<and>
     (\<forall>x \<in> set (live_rows rows). normal (node_Path x) \<and> attached rows x) \<and>
     (\<forall>x \<in> set (live_rows rows). \<forall>y \<in> set (live_rows rows). segs x = segs y \<longrightarrow> x = y)"
  by (auto simp: tree_ok_def live_def)

lemma tree_okD:
  assumes "tree_ok rows"
  shows "distinct (map node_ID rows)" "live rows x \<Longrightarrow> normal (node_Path x)" "live rows x \<Longrightarrow> attached rows x"
    "live rows x \<Longrightarrow> live rows y \<Longrightarrow> segs x = segs y \<Longrightarrow> x = y"
  using assms by (auto simp: tree_ok_def)

lemma live_nsegs: "tree_ok rows \<Longrightarrow> live rows x \<Longrightarrow> nsegs (segs x)"
  using normal_segs tree_okD(2) by blast

lemma live_path: "tree_ok rows \<Longrightarrow> live rows x \<Longrightarrow> node_Path x = render (segs x)"
  using normal_segs tree_okD(2) by metis

lemma live_path_eq: "tree_ok rows \<Longrightarrow> live rows x \<Longrightarrow> live rows y \<Longrightarrow> node_Path x = node_Path y \<Longrightarrow> x = y"
  using tree_okD(4) by metis

text \<open>Every ancestor of a live node is live.\<close>

lemma ancestors_live:
  assumes "tree_ok rows" "live rows x" "prefix vs (segs x)"
  shows "\<exists>y. live rows y \<and> segs y = vs"
  using assms(2,3)
proof (induction "length (segs x)" arbitrary: x)
  case 0
  then show ?case by auto
next
  case (Suc k)
  show ?case
  proof (cases "vs = segs x")
    case False
    have "attached rows x" using assms(1) Suc.prems(1) by (rule tree_okD)
    moreover have "segs x \<noteq> []" using Suc.hyps(2) by auto
    ultimately obtain p where p: "live rows p" "segs x = segs p @ [node_Name x]"
      by (auto simp: attached_def)
    then have "prefix vs (segs p)" using Suc.prems(2) False by (auto simp: prefix_snoc)
    moreover have "k = length (segs p)" using Suc.hyps(2) p(2) by simp
    ultimately show ?thesis using Suc.hyps(1) p(1) by blast
  qed (use Suc.prems in auto)
qed

text \<open>The parent of a node outside a subtree is outside too.\<close>

lemma attached_outside:
  assumes "attached rows x" "\<not> prefix ws (segs x)" "ws \<noteq> []"
  shows "segs x = [] \<and> node_ParentID x = None \<or>
    (\<exists>p. live rows p \<and> \<not> prefix ws (segs p) \<and> node_ParentID x = Some (node_ID p) \<and>
         segs x = segs p @ [node_Name x] \<and> no_trail (node_Name x))"
  using assms by (auto simp: attached_def prefix_snoc)

subsection \<open>Insertion\<close>

lemma insert_tree_ok:
  assumes ok: "tree_ok rows" and p: "live rows p" and w: "nseg w" "no_trail w"
    and n: "node_ParentID n = Some (node_ID p)" "node_Name n = w" "node_Path n = render (segs p @ [w])"
      "\<not> node_IsDeleted n" "\<forall>x \<in> set rows. node_ID x \<noteq> node_ID n"
    and free: "\<forall>x. live rows x \<longrightarrow> node_Path x \<noteq> node_Path n"
  shows "tree_ok (rows @ [n])"
proof -
  have ns: "nsegs (segs p @ [w])" using live_nsegs [OF ok p] w by auto
  then have sn: "segs n = segs p @ [w]" using n(3) segs_of_render by simp
  have live': "live (rows @ [n]) x \<longleftrightarrow> live rows x \<or> x = n" for x using n(4) by (auto simp: live_def)
  have att: "attached (rows @ [n]) x" if "attached rows x" for x
    using that live' by (auto simp: attached_def)
  have new: "attached (rows @ [n]) n" using p n(1,2) sn w(2) live' by (auto simp: attached_def)
  have "x = y" if "live (rows @ [n]) x" "live (rows @ [n]) y" "segs x = segs y" for x y
  proof -
    have "segs z \<noteq> segs n" if "live rows z" for z
      using that free live_path [OF ok that] n(3) sn by metis
    then show ?thesis using that live' tree_okD(4) [OF ok] by metis
  qed
  moreover have "distinct (map node_ID (rows @ [n]))"
    using tree_okD(1) [OF ok] n(5) by auto
  moreover have "normal (node_Path n)" using ns n(3) normal_render by metis
  ultimately show ?thesis
    using att new live' tree_okD(2,3) [OF ok] unfolding tree_ok_def by blast
qed

subsection \<open>Removal of a subtree\<close>

lemma remove_tree_ok:
  assumes ok: "tree_ok rows" and ws: "ws \<noteq> []"
    and f: "\<And>x. live rows x \<Longrightarrow> prefix ws (segs x) \<Longrightarrow> node_IsDeleted (f x)"
      "\<And>x. x \<in> set rows \<Longrightarrow> \<not> (live rows x \<and> prefix ws (segs x)) \<Longrightarrow> f x = x"
      "\<And>x. node_ID (f x) = node_ID x"
  shows "tree_ok (map f rows)"
proof -
  have live': "live (map f rows) x \<longleftrightarrow> live rows x \<and> \<not> prefix ws (segs x)" for x
  proof
    assume "live (map f rows) x"
    then obtain z where z: "z \<in> set rows" "x = f z" "\<not> node_IsDeleted (f z)" by (auto simp: live_def)
    then have "\<not> (live rows z \<and> prefix ws (segs z))" using f(1) by blast
    with z f(2) have "f z = z" by blast
    then show "live rows x \<and> \<not> prefix ws (segs x)"
      using z \<open>\<not> (live rows z \<and> prefix ws (segs z))\<close> by (auto simp: live_def)
  next
    assume "live rows x \<and> \<not> prefix ws (segs x)"
    then show "live (map f rows) x" using f(2) by (metis image_eqI live_def set_map)
  qed
  have "attached (map f rows) x" if "live (map f rows) x" for x
    using that attached_outside [OF tree_okD(3) [OF ok] _ ws] live' unfolding attached_def by blast
  moreover have "map node_ID (map f rows) = map node_ID rows" using f(3) by simp
  ultimately show ?thesis
    using tree_okD [OF ok] live' unfolding tree_ok_def by (metis (no_types, lifting))
qed

subsection \<open>Relocation of a subtree\<close>

text \<open>
  \<open>relocation rows n p w f\<close>: the row function \<open>f\<close> moves the subtree of \<open>n\<close> below \<open>p\<close> under the
  name \<open>w\<close>, and changes nothing else of the tree.
\<close>

definition relocation :: "VFSNode list \<Rightarrow> VFSNode \<Rightarrow> VFSNode \<Rightarrow> string \<Rightarrow> (VFSNode \<Rightarrow> VFSNode) \<Rightarrow> bool" where
  "relocation rows n p w f \<longleftrightarrow>
     (\<forall>x \<in> set rows. node_ID (f x) = node_ID x \<and> node_IsDeleted (f x) = node_IsDeleted x \<and>
        (if live rows x \<and> prefix (segs n) (segs x)
         then node_Path (f x) = render (segs p @ w # drop (length (segs n)) (segs x)) \<and>
              (if x = n then node_ParentID (f x) = Some (node_ID p) \<and> node_Name (f x) = w
               else node_ParentID (f x) = node_ParentID x \<and> node_Name (f x) = node_Name x)
         else f x = x))"

definition moving :: "VFSNode list \<Rightarrow> VFSNode \<Rightarrow> VFSNode \<Rightarrow> string \<Rightarrow> (VFSNode \<Rightarrow> VFSNode) \<Rightarrow> bool" where
  "moving rows n p w f \<longleftrightarrow> tree_ok rows \<and> live rows n \<and> segs n \<noteq> [] \<and> live rows p \<and>
     \<not> prefix (segs n) (segs p) \<and> nseg w \<and> no_trail w \<and>
     (\<forall>x. live rows x \<longrightarrow> segs x \<noteq> segs p @ [w]) \<and> relocation rows n p w f"

lemma movingD:
  assumes "moving rows n p w f"
  shows "tree_ok rows" "live rows n" "segs n \<noteq> []" "live rows p" "\<not> prefix (segs n) (segs p)"
    "nseg w" "no_trail w" "\<forall>x. live rows x \<longrightarrow> segs x \<noteq> segs p @ [w]" "relocation rows n p w f"
  using assms by (simp_all add: moving_def)

lemma reloc_in:
  assumes mv: "moving rows n p w f" and "live rows x" "prefix (segs n) (segs x)"
  shows "segs (f x) = segs p @ w # drop (length (segs n)) (segs x)"
    "nsegs (segs p @ w # drop (length (segs n)) (segs x))"
proof -
  note m = movingD [OF mv]
  have "nsegs (segs p)" "nsegs (segs x)" using live_nsegs m(1,4) assms(2) by blast+
  then show ns: "nsegs (segs p @ w # drop (length (segs n)) (segs x))"
    using m(6) by (auto dest: in_set_dropD)
  have "node_Path (f x) = render (segs p @ w # drop (length (segs n)) (segs x))"
    using m(9) assms(2,3) by (auto simp: relocation_def live_def)
  then show "segs (f x) = segs p @ w # drop (length (segs n)) (segs x)"
    using segs_of_render [OF ns] by simp
qed

lemma reloc_out:
  "moving rows n p w f \<Longrightarrow> x \<in> set rows \<Longrightarrow> \<not> (live rows x \<and> prefix (segs n) (segs x)) \<Longrightarrow> f x = x"
  using movingD(9) by (auto simp: relocation_def)

lemma reloc_out_live:
  "moving rows n p w f \<Longrightarrow> live rows x \<Longrightarrow> \<not> prefix (segs n) (segs x) \<Longrightarrow> f x = x"
  using reloc_out by (auto simp: live_def)

lemma reloc_live:
  assumes "moving rows n p w f"
  shows "live (map f rows) y \<longleftrightarrow> (\<exists>x. live rows x \<and> y = f x)"
proof -
  have "node_IsDeleted (f x) = node_IsDeleted x" if "x \<in> set rows" for x
    using movingD(9) [OF assms] that by (auto simp: relocation_def)
  then show ?thesis by (auto simp: live_def)
qed

lemma reloc_ID: "moving rows n p w f \<Longrightarrow> live rows x \<Longrightarrow> node_ID (f x) = node_ID x"
  using movingD(9) by (auto simp: relocation_def live_def)

lemma reloc_no_mix:
  assumes mv: "moving rows n p w f" and "live rows x" "prefix (segs n) (segs x)" "live rows y" "\<not> prefix (segs n) (segs y)"
  shows "segs (f x) \<noteq> segs y"
proof
  assume "segs (f x) = segs y"
  then have "prefix (segs p @ [w]) (segs y)"
    using reloc_in(1) [OF assms(1-3)] by (simp add: prefix_def) metis
  then show False using ancestors_live [OF movingD(1) [OF mv] assms(4)] movingD(8) [OF mv] by blast
qed

lemma reloc_inj:
  assumes mv: "moving rows n p w f" and "live rows x" "live rows y" "segs (f x) = segs (f y)"
  shows "x = y"
proof (cases "prefix (segs n) (segs x)"; cases "prefix (segs n) (segs y)")
  assume "prefix (segs n) (segs x)" "prefix (segs n) (segs y)"
  then have "segs x = segs y"
    using assms reloc_in(1) [OF mv] by (auto simp: prefix_def)
  then show ?thesis using assms tree_okD(4) movingD(1) by blast
next
  assume "prefix (segs n) (segs x)" "\<not> prefix (segs n) (segs y)"
  then show ?thesis
    using assms reloc_no_mix [OF mv] reloc_out_live [OF mv] by metis
next
  assume "\<not> prefix (segs n) (segs x)" "prefix (segs n) (segs y)"
  then show ?thesis
    using assms reloc_no_mix [OF mv] reloc_out_live [OF mv] by metis
next
  assume "\<not> prefix (segs n) (segs x)" "\<not> prefix (segs n) (segs y)"
  then show ?thesis
    using assms reloc_out_live [OF mv] tree_okD(4) movingD(1) by metis
qed

lemma reloc_attached:
  assumes mv: "moving rows n p w f" and x: "live rows x"
  shows "attached (map f rows) (f x)"
proof (cases "prefix (segs n) (segs x)")
  case out: False
  then have "f x = x" using x reloc_out_live [OF mv] by blast
  moreover have "live (map f rows) q" if "live rows q" "\<not> prefix (segs n) (segs q)" for q
    using that reloc_out_live [OF mv] reloc_live [OF mv] by metis
  ultimately show ?thesis
    using attached_outside [OF tree_okD(3) [OF movingD(1) [OF mv] x] out movingD(3) [OF mv]]
    unfolding attached_def by metis
next
  case pre: True
  show ?thesis
  proof (cases "x = n")
    case True
    note m = movingD [OF mv]
    have "live (map f rows) p" using m(4,5) reloc_out_live [OF mv] reloc_live [OF mv] by metis
    moreover have "node_ParentID (f n) = Some (node_ID p)" "node_Name (f n) = w"
      using m(9,2) pre True by (auto simp: relocation_def live_def)
    moreover have "segs (f n) = segs p @ [w]" using reloc_in(1) [OF mv m(2)] by simp
    ultimately show ?thesis using True m(7) by (auto simp: attached_def)
  next
    case False
    have same: "node_ParentID (f x) = node_ParentID x" "node_Name (f x) = node_Name x"
      using movingD(9) [OF mv] x pre False by (auto simp: relocation_def live_def)
    have strict: "segs x \<noteq> segs n" using False x movingD(1,2) [OF mv] tree_okD(4) by blast
    then have "segs x \<noteq> []" using pre movingD(3) [OF mv] by auto
    then obtain q where q: "live rows q" "node_ParentID x = Some (node_ID q)"
      "segs x = segs q @ [node_Name x]" "no_trail (node_Name x)"
      using tree_okD(3) [OF movingD(1) [OF mv] x] by (auto simp: attached_def)
    then have qpre: "prefix (segs n) (segs q)" using pre strict by (auto simp: prefix_snoc)
    have "segs (f x) = segs (f q) @ [node_Name x]"
      using reloc_in(1) [OF mv x pre] reloc_in(1) [OF mv q(1) qpre] q(3) qpre prefix_length_le [OF qpre]
      by simp
    then show ?thesis
      using same q reloc_live [OF mv] reloc_ID [OF mv q(1)] unfolding attached_def by metis
  qed
qed

lemma relocate_tree_ok:
  assumes mv: "moving rows n p w f"
  shows "tree_ok (map f rows)"
proof -
  note f = movingD(9) [OF mv]
  have "map node_ID (map f rows) = map node_ID rows"
    using f by (simp add: relocation_def)
  moreover have "normal (node_Path (f x))" if "live rows x" for x
  proof (cases "prefix (segs n) (segs x)")
    case True
    then have "node_Path (f x) = render (segs p @ w # drop (length (segs n)) (segs x))"
      using f that by (auto simp: relocation_def live_def)
    then show ?thesis using reloc_in(2) [OF mv that True] normal_render by metis
  next
    case False
    then show ?thesis using that reloc_out_live [OF mv] tree_okD(2) [OF movingD(1) [OF mv]] by metis
  qed
  ultimately show ?thesis
    using tree_okD(1) [OF movingD(1) [OF mv]] reloc_live [OF mv] reloc_attached [OF mv] reloc_inj [OF mv]
    unfolding tree_ok_def by metis
qed

end
