(* ===== verification/Metadata_Mutations.thy ===== *)
theory Metadata_Mutations
  imports Metadata_Tree
begin

text \<open>
  What the operations of the metadata service do to the rows of the tree, for every pattern of
  failing statements, and the properties of the service: the tree invariant, atomicity of the
  path rewriting, and the effect of each mutation.
\<close>

section \<open>Names and paths\<close>

lemma space_seq_no_slash: "sp \<in> set space_seqs \<Longrightarrow> CHR ''/'' \<notin> set sp \<and> sp \<noteq> []"
proof -
  have "\<forall>sp \<in> set space_seqs. CHR ''/'' \<notin> set sp \<and> sp \<noteq> []" by code_simp
  then show "sp \<in> set space_seqs \<Longrightarrow> CHR ''/'' \<notin> set sp \<and> sp \<noteq> []" by blast
qed

lemma trimmed_render:
  assumes "no_trail w"
  shows "trimmed (render (ws @ [w]))"
  unfolding trimmed_def
proof (rule TrimSpace_eq_self; rule ballI)
  fix sp assume sp: "sp \<in> set space_seqs"
  note ns = space_seq_no_slash [OF sp]
  let ?x = "if ws = [] then [] else render ws"
  show "\<not> prefix sp (render (ws @ [w]))"
  proof
    assume "prefix sp (render (ws @ [w]))"
    moreover obtain t where "render (ws @ [w]) = CHR ''/'' # t"
      using render_HasPrefix [of "ws @ [w]"] by (auto simp: HasPrefix_def prefix_def)
    ultimately show False using ns by (cases sp) auto
  qed
  show "\<not> suffix sp (render (ws @ [w]))"
  proof
    assume "suffix sp (render (ws @ [w]))"
    then have "suffix sp (?x @ CHR ''/'' # w)" by (simp only: render_snoc')
    then have "suffix sp w"
      using ns by (metis append_Cons suffix_append suffix_Cons in_set_conv_decomp suffix_def)
    then show False using assms sp by (simp add: no_trail_def)
  qed
qed

lemma rewrite_render:
  assumes "nsegs (ws @ rest)" "ws \<noteq> []" "ns \<noteq> []"
  shows "rewriteMetadataSubtreePath (render (ws @ rest)) (render ws) (render ns) = render (ns @ rest)"
proof (cases "rest = []")
  case True
  then show ?thesis by (simp add: rewriteMetadataSubtreePath_def)
next
  case False
  have "render (ws @ rest) \<noteq> render ws"
    using render_inj [of "ws @ rest" ws] assms(1) False by auto
  moreover have "render (ws @ rest) = render ws @ render rest" "render (ns @ rest) = render ns @ render rest"
    using assms(2,3) False by (simp_all add: render_append)
  ultimately show ?thesis by (simp add: rewriteMetadataSubtreePath_def Let_def)
qed

lemma join_normalized_nseg:
  assumes "validateFileName w = Inr ()" "nsegs ps" "normalizeVirtualPath (joinVirtualPath (render ps) w) = Inr q"
  shows "nseg w" "q = render (ps @ [w])" "joinVirtualPath (render ps) w = render (ps @ [w])"
proof -
  have slash: "CHR ''/'' \<notin> set w"
  proof
    assume "CHR ''/'' \<in> set w"
    then have "sublist ''/'' w" by (auto dest!: split_list simp: sublist_append)
    then show False using assms(1) by (simp add: validateFileName_def Contains_def)
  qed
  then show j: "joinVirtualPath (render ps) w = render (ps @ [w])" using assms(2) by (simp add: join_render)
  have ne: "w \<noteq> []" "w \<noteq> ''.''" "w \<noteq> ''..''"
    using assms(1) by (auto simp: validateFileName_def split: if_splits)
  have kept: "\<forall>v \<in> set (ps @ [w]). kept v"
    using assms(2) ne slash by (auto simp: kept_def nseg_def Contains_def)
  have "fold (clean_step True) vs st = rev vs @ st" if "\<forall>v \<in> set vs. kept v" for vs st
    using that by (induction vs arbitrary: st) (auto simp: kept_def)
  moreover have "Split (render (ps @ [w])) CHR ''/'' = [] # ps @ [w]"
    using Split_body [of "ps @ [w]"] kept by (auto simp: render_def kept_def)
  ultimately have clean: "path_Clean (render (ps @ [w])) = render (ps @ [w])"
    using Clean_rooted [OF render_HasPrefix, of "ps @ [w]"] kept by (metis append_Nil2 clean_step.simps fold_simps(2) rev_rev_ident)
  then have q: "q = render (ps @ [w])" and "\<not> Contains (render (ps @ [w])) ''..''"
    using assms(3) unfolding j by (auto simp: normalizeVirtualPath_def Let_def split: if_splits)
  then have "\<not> Contains w ''..''"
    using Contains_dots_render [of "ps @ [w]"] kept by (auto simp: kept_def)
  then show "nseg w" using assms(1) validateFileName_nseg by blast
  show "q = render (ps @ [w])" by (rule q)
qed

lemma join_normalized:
  assumes "validateFileName w = Inr () \<or> nseg w" "nsegs ps" "normalizeVirtualPath (joinVirtualPath (render ps) w) = Inr q"
  shows "nseg w" "q = render (ps @ [w])" "joinVirtualPath (render ps) w = render (ps @ [w])"
proof -
  have "nseg w \<and> q = render (ps @ [w]) \<and> joinVirtualPath (render ps) w = render (ps @ [w])"
  proof (cases "nseg w")
    case True
    then have "joinVirtualPath (render ps) w = render (ps @ [w])" using assms(2) by (simp add: join_render nseg_def)
    moreover have "normalizeVirtualPath (render (ps @ [w])) = Inr (render (ps @ [w]))"
      using True assms(2) by (intro normalize_render) auto
    ultimately show ?thesis using True assms(3) by simp
  next
    case False
    then show ?thesis using join_normalized_nseg [OF _ assms(2,3)] assms(1) by blast
  qed
  then show "nseg w" "q = render (ps @ [w])" "joinVirtualPath (render ps) w = render (ps @ [w])" by simp_all
qed

section \<open>Handlers that leave the nodes alone\<close>

definition keeps_nodes :: "(DB, 'a) handler \<Rightarrow> bool" where
  "keeps_nodes m \<longleftrightarrow> (\<forall>db. db_nodes (snd (m db)) = db_nodes db \<and> db_now (snd (m db)) = db_now db)"

lemma keeps_nodesD:
  assumes "keeps_nodes m" "m db = (r, db')"
  shows "db_nodes db' = db_nodes db" "db_now db' = db_now db"
  using assms by (metis keeps_nodes_def snd_conv)+

lemma keeps_nodes_basic [intro, simp]:
  "keeps_nodes (ret x)" "keeps_nodes (throw e)" "keeps_nodes (lift y)" "keeps_nodes (gets q)"
  by (simp_all add: keeps_nodes_def handler_defs)

lemma keeps_nodes_if_err [intro]:
  assumes "keeps_nodes m" "\<And>e. keeps_nodes (h e)" "\<And>x. keeps_nodes (f x)"
  shows "keeps_nodes (if_err m h f)"
  unfolding keeps_nodes_def
proof
  fix db
  obtain r db1 where 1: "m db = (r, db1)" by force
  note m = keeps_nodesD [OF assms(1) 1]
  show "db_nodes (snd (if_err m h f db)) = db_nodes db \<and> db_now (snd (if_err m h f db)) = db_now db"
    using 1 m assms(2,3) by (cases r) (simp_all add: keeps_nodes_def)
qed

lemma keeps_nodes_if [intro]: "keeps_nodes m \<Longrightarrow> keeps_nodes m' \<Longrightarrow> keeps_nodes (if b then m else m')"
  by simp

lemma keeps_nodes_same_tables: "(\<And>db r db'. m db = (r, db') \<Longrightarrow> same_tables db db') \<Longrightarrow> keeps_nodes m"
  using same_tables_fields(4,11) by (metis keeps_nodes_def prod.collapse)

lemma keeps_nodes_find [intro]: "table_query tbl \<Longrightarrow> keeps_nodes (find_row tbl p)"
  using find_row_reads by (intro keeps_nodes_same_tables) blast

lemma keeps_nodes_obj_Update [intro]: "keeps_nodes (obj_Update e)"
  unfolding keeps_nodes_def
proof
  fix db
  obtain r db' where u: "obj_Update e db = (r, db')" by force
  have "db_nodes db' = db_nodes db \<and> db_now db' = db_now db"
  proof (cases "db_jsonb db (jsonObject (obj_LocatorJSON e))")
    case (Inl err)
    then have "stmt (throw err) db = (r, db')" using u by (simp add: obj_Update_def with_jsonb_def)
    then show ?thesis by (cases rule: stmt_cases) (auto simp: throw_def same_tables_fields)
  next
    case (Inr canon)
    then have "update_row db_objects db_objects_update obj_ID obj_merge obj_clash (e\<lparr>obj_LocatorJSON := canon\<rparr>) db = (r, db')"
      using u by (simp add: obj_Update_def with_jsonb_def)
    from this table_query_tables(5) show ?thesis
      by (cases rule: update_row_cases) (auto simp: same_tables_fields)
  qed
  then show "db_nodes (snd (obj_Update e db)) = db_nodes db \<and> db_now (snd (obj_Update e db)) = db_now db"
    using u by simp
qed

lemma keeps_nodes_sync: "keeps_nodes (syncPathBasedObjectLocator s node)"
  unfolding syncPathBasedObjectLocator_def metadataNodeInnerPath_def obj_FindByID_def src_FindByID_def
  unfolding Let_def
  by (auto intro!: keeps_nodes_if keeps_nodes_if_err keeps_nodes_find keeps_nodes_obj_Update
      split: option.split)

section \<open>Reading nodes\<close>

lemma FindByPath_reads:
  assumes "node_FindByPath p db = (r, db')"
  shows "same_tables db db'" "r = Inr x \<Longrightarrow> live (db_nodes db) x \<and> node_Path x = p"
    "r = Inl e \<Longrightarrow> errors_Is e ErrNotFound \<Longrightarrow> live (db_nodes db) x \<Longrightarrow> node_Path x \<noteq> p"
proof -
  have f: "find_row db_nodes (\<lambda>n. node_Path n = p \<and> \<not> node_IsDeleted n) db = (r, db')"
    using assms by (simp add: node_FindByPath_def)
  show "same_tables db db'" "r = Inr x \<Longrightarrow> live (db_nodes db) x \<and> node_Path x = p"
    using find_row_reads [OF f] by (auto simp: live_def)
  show "r = Inl e \<Longrightarrow> errors_Is e ErrNotFound \<Longrightarrow> live (db_nodes db) x \<Longrightarrow> node_Path x \<noteq> p"
    using f table_query_tables(4) by (cases rule: find_row_cases) (auto simp: live_def)
qed

lemma ResolveNode_reads:
  assumes "ResolveNode s p db = (r, db')"
  shows "same_tables db db'" "r = Inr x \<Longrightarrow> live (db_nodes db) x \<and> normalizeVirtualPath p = Inr (node_Path x)"
proof -
  have "same_tables db db' \<and> (r = Inr x \<longrightarrow> live (db_nodes db) x \<and> normalizeVirtualPath p = Inr (node_Path x))"
  proof (cases "mvs_nodeRepo s \<and> (\<exists>np. normalizeVirtualPath p = Inr np)")
    case False
    then show ?thesis
      using assms by (cases "normalizeVirtualPath p") (auto simp: ResolveNode_def throw_def lift_def if_err_def split: if_splits)
  next
    case True
    then obtain np where np: "normalizeVirtualPath p = Inr np" by blast
    obtain r1 db1 where 1: "node_FindByPath np db = (r1, db1)" by force
    have eq: "(r, db') = ((case r1 of Inl e \<Rightarrow> Inl (normalizeMetadataVFSError e) | Inr n \<Rightarrow> Inr n), db1)"
      using assms True np 1
      by (cases r1) (auto simp: ResolveNode_def throw_def lift_def ret_def if_err_def)
    show ?thesis using eq FindByPath_reads [OF 1] np by (auto split: sum.splits)
  qed
  then show "same_tables db db'" "r = Inr x \<Longrightarrow> live (db_nodes db) x \<and> normalizeVirtualPath p = Inr (node_Path x)"
    by auto
qed

lemma ensureAvailable_reads:
  assumes "ensureMetadataNameAvailable p db = (r, db')"
  shows "same_tables db db'"
    "r = Inr u \<Longrightarrow> \<exists>np. normalizeVirtualPath p = Inr np \<and> (\<forall>x. live (db_nodes db) x \<longrightarrow> node_Path x \<noteq> np)"
proof -
  have "same_tables db db' \<and> (r = Inr u \<longrightarrow> (\<exists>np. normalizeVirtualPath p = Inr np \<and>
      (\<forall>x. live (db_nodes db) x \<longrightarrow> node_Path x \<noteq> np)))"
  proof (cases "\<exists>np. normalizeVirtualPath p = Inr np \<and> np \<noteq> ''/''")
    case False
    then show ?thesis
      using assms by (cases "normalizeVirtualPath p")
        (auto simp: ensureMetadataNameAvailable_def throw_def lift_def if_err_def)
  next
    case True
    then obtain np where np: "normalizeVirtualPath p = Inr np" "np \<noteq> ''/''" by blast
    obtain r1 db1 where 1: "node_FindByPath np db = (r1, db1)" by force
    show ?thesis
      using assms np 1 FindByPath_reads [OF 1]
      by (cases r1) (auto simp: ensureMetadataNameAvailable_def throw_def lift_def ret_def if_err_def split: if_splits)
  qed
  then show "same_tables db db'"
    "r = Inr u \<Longrightarrow> \<exists>np. normalizeVirtualPath p = Inr np \<and> (\<forall>x. live (db_nodes db) x \<longrightarrow> node_Path x \<noteq> np)"
    by auto
qed

section \<open>Rewriting the paths of a subtree\<close>

definition relocate_row :: "VFSNode \<Rightarrow> nat \<Rightarrow> string \<Rightarrow> string \<Rightarrow> nat option \<Rightarrow> gotime \<Rightarrow> VFSNode \<Rightarrow> VFSNode" where
  "relocate_row n pid w newPath actorID now x =
     (if \<not> node_IsDeleted x \<and> prefix (segs n) (segs x)
      then node_merge now x (relocated n pid w newPath actorID now x) else x)"

lemma relocated_ID [simp]:
  "node_ID (relocated n pid w newPath actorID now x) = node_ID x"
  "node_IsDeleted (relocated n pid w newPath actorID now x) = node_IsDeleted x"
  by (simp_all add: relocated_def Let_def)

lemma node_merge_fields [simp]:
  "node_ID (node_merge now x e) = node_ID x" "node_IsDeleted (node_merge now x e) = node_IsDeleted e"
  "node_Path (node_merge now x e) = node_Path e" "node_Name (node_merge now x e) = node_Name e"
  "node_ParentID (node_merge now x e) = node_ParentID e"
  by (simp_all add: node_merge_def)

lemma node_Update_writes:
  assumes "node_Update e db = (Inr u, db')"
  shows "db_now db' = db_now db"
    "db_nodes db' = map (\<lambda>x. if node_ID x = node_ID e then node_merge (db_now db) x e else x) (db_nodes db)"
  using update_row_writes [OF assms [unfolded node_Update_def]] by simp_all

lemma relocate_loop_rows:
  assumes "relocate_loop s n pid w newPath actorID now items db = (Inr u, db')"
    and "distinct (map node_ID (db_nodes db))" "set items \<subseteq> set (db_nodes db)"
    and "distinct (map node_ID items)" "db_now db = now"
  shows "db_nodes db' = map (\<lambda>x. if x \<in> set items
      then node_merge now x (relocated n pid w newPath actorID now x) else x) (db_nodes db) \<and> db_now db' = now"
  using assms
proof (induction items arbitrary: db)
  case Nil
  then show ?case by (simp add: ret_def)
next
  case (Cons i items)
  let ?i = "relocated n pid w newPath actorID now i"
  obtain r1 db1 where 1: "syncPathBasedObjectLocator s ?i db = (r1, db1)" by force
  note k1 = keeps_nodesD [OF keeps_nodes_sync 1]
  obtain r2 db2 where 2: "node_Update ?i db1 = (r2, db2)" by force
  have r: "r1 = Inr ()" "r2 = Inr ()" and rest: "relocate_loop s n pid w newPath actorID now items db2 = (Inr u, db')"
    using Cons.prems(1) 1 2 by (cases r1; cases r2; simp add: throw_def Let_def)+
  note u2 = node_Update_writes [OF 2 [unfolded r]]
  let ?g = "\<lambda>x. if node_ID x = node_ID i then node_merge now x ?i else x"
  have rows: "db_nodes db2 = map ?g (db_nodes db)" "db_now db2 = now"
    using u2 k1 Cons.prems(5) by simp_all
  have uniq: "x = i" if "x \<in> set (db_nodes db)" "node_ID x = node_ID i" for x
    using key_unique [OF Cons.prems(2)] that Cons.prems(3) by simp
  have "set items \<subseteq> set (db_nodes db2)"
  proof
    fix x assume x: "x \<in> set items"
    then have "x \<in> set (db_nodes db)" "node_ID x \<noteq> node_ID i"
      using Cons.prems(3,4) by (auto simp: image_iff)
    then show "x \<in> set (db_nodes db2)" unfolding rows(1) by (auto intro!: image_eqI [of _ _ x])
  qed
  moreover have "distinct (map node_ID (db_nodes db2))"
  proof -
    have "map node_ID (db_nodes db2) = map node_ID (db_nodes db)" unfolding rows(1) by simp
    then show ?thesis using Cons.prems(2) by simp
  qed
  ultimately have IH: "db_nodes db' = map (\<lambda>x. if x \<in> set items
      then node_merge now x (relocated n pid w newPath actorID now x) else x) (db_nodes db2)" "db_now db' = now"
    using Cons.IH [OF rest] Cons.prems(4) rows(2) by simp_all
  have "node_merge now i ?i \<notin> set items"
  proof
    assume "node_merge now i ?i \<in> set items"
    from imageI [OF this, of node_ID] show False using Cons.prems(4) by simp
  qed
  then show ?case
    unfolding IH(1) rows(1) using IH(2) uniq by (auto intro!: map_cong)
qed

text \<open>The pattern of a live node other than the root selects its subtree.\<close>

lemma subtree_pattern:
  assumes ok: "tree_ok rows" and n: "live rows n" "segs n \<noteq> []" and x: "live rows x"
  shows "node_Path x = node_Path n \<or> like (pathChildrenLikePattern (node_Path n)) (node_Path x) \<longleftrightarrow>
      prefix (segs n) (segs x)" "normalizeVFSPathPrefix (node_Path n) = node_Path n" "node_Path n \<noteq> ''/''"
proof -
  let ?p = "node_Path n"
  have ns: "nsegs (segs n)" and pn: "?p = render (segs n)" using live_nsegs live_path ok n(1) by blast+
  obtain vs w where vw: "segs n = vs @ [w]" "no_trail w"
    using tree_okD(3) [OF ok n(1)] n(2) by (auto simp: attached_def)
  have t: "trimmed (render (segs n))" unfolding vw(1) using vw(2) by (rule trimmed_render)
  show "normalizeVFSPathPrefix ?p = ?p" "?p \<noteq> ''/''"
    using normalizePrefix_render [OF ns n(2) t] render_eq_root [OF ns] n(2) by (simp_all only: pn [symmetric] simp_thms)
  have nx: "nsegs (segs x)" "node_Path x = render (segs x)" using live_nsegs live_path ok x by blast+
  have eq: "node_Path x = ?p \<longleftrightarrow> segs x = segs n" using nx(2) pn by metis
  have "like (pathChildrenLikePattern ?p) (node_Path x) \<longleftrightarrow> strict_prefix (segs n) (segs x)"
    using childrenPattern_render [OF ns n(2) t nx(1)] by (simp only: pn [symmetric] nx(2) [symmetric])
  then show "node_Path x = ?p \<or> like (pathChildrenLikePattern ?p) (node_Path x) \<longleftrightarrow> prefix (segs n) (segs x)"
    unfolding eq by (auto simp: strict_prefix_def)
qed

lemma delete_pattern_subtree:
  assumes ok: "tree_ok rows" and n: "live rows n" and x: "live rows x"
  shows "node_Path x = node_Path n \<or>
      like (if node_Path n = ''/'' then ''/%'' else pathChildrenLikePattern (node_Path n)) (node_Path x) \<longleftrightarrow>
      prefix (segs n) (segs x)"
proof (cases "segs n = []")
  case True
  then have "node_Path n = ''/''" using live_path [OF ok n] by (simp add: render_def)
  moreover have "prefix ''/'' (node_Path x)"
    using live_path [OF ok x] render_HasPrefix by (metis HasPrefix_def)
  ultimately show ?thesis using True like_children [of "[]" "node_Path x"] by (simp add: escapeLikePattern_def)
next
  case False
  note h = subtree_pattern [OF ok n False x]
  show ?thesis using h(1) by (simp only: if_not_P [OF h(3)])
qed

text \<open>The rows the prefix query returns are the live rows of the subtree.\<close>

lemma ListByPathPrefix_subtree:
  assumes ok: "tree_ok (db_nodes db)" and n: "live (db_nodes db) n" "segs n \<noteq> []"
    and q: "node_ListByPathPrefix (node_Path n) noFilter db = (Inr xs, db')"
  shows "set xs = {x. live (db_nodes db) x \<and> prefix (segs n) (segs x)}" "distinct (map node_ID xs)" "same_tables db db'"
proof -
  let ?p = "node_Path n"
  note pre = subtree_pattern(2,3) [OF ok n n(1)]
  have hit: "node_Path x = ?p \<or> like (pathChildrenLikePattern ?p) (node_Path x) \<longleftrightarrow> prefix (segs n) (segs x)"
    if "live (db_nodes db) x" for x using subtree_pattern(1) [OF ok n that] .
  let ?q = "\<lambda>db. sort_key (\<lambda>n. (db_collate db (node_Path n), node_ID n))
      (filter (\<lambda>x. (node_Path x = ?p \<or> like (pathChildrenLikePattern ?p) (node_Path x)) \<and> \<not> node_IsDeleted x) (db_nodes db))"
  have "select_rows ?q db = (Inr xs, db')"
    using q pre by (simp add: node_ListByPathPrefix_def node_limit_def noFilter_def node_selected_def Let_def)
  moreover have "table_query ?q" by (auto simp: table_query_def same_tables_fields)
  ultimately have xs: "xs = ?q db" and st: "same_tables db db'"
    using select_rows_cases by fastforce+
  show "same_tables db db'" by (rule st)
  show "set xs = {x. live (db_nodes db) x \<and> prefix (segs n) (segs x)}"
    unfolding xs using hit by (auto simp: live_def)
  show "distinct (map node_ID xs)"
    unfolding xs using tree_okD(1) [OF ok] by (auto simp: distinct_map distinct_sort intro: inj_on_subset)
qed


lemma keeps_nodes_FindByPath [intro]: "keeps_nodes (node_FindByPath p)"
  unfolding node_FindByPath_def by (rule keeps_nodes_find) simp

lemma keeps_nodes_target_loop: "keeps_nodes (subtree_target_loop ids old new items)"
  by (induction items) (auto intro!: keeps_nodes_if keeps_nodes_if_err)

text \<open>What the loop writes is a relocation.\<close>

lemma relocated_relocation:
  assumes ok: "tree_ok rows" and n: "live rows n" "segs n \<noteq> []" and p: "live rows p" and w: "nseg w"
  shows "relocation rows n p w (\<lambda>x. if live rows x \<and> prefix (segs n) (segs x)
      then node_merge now x (relocated n (node_ID p) w (render (segs p @ [w])) actorID now x) else x)"
proof -
  have "node_Path (relocated n pid w (render (segs p @ [w])) actorID now x)
      = render (segs p @ w # drop (length (segs n)) (segs x))"
    if x: "live rows x" "prefix (segs n) (segs x)" for x pid
  proof -
    obtain rest where rest: "segs x = segs n @ rest" using x(2) by (auto simp: prefix_def)
    have paths: "render (segs n @ rest) = node_Path x" "render (segs n) = node_Path n"
      using live_path [OF ok x(1)] live_path [OF ok n(1)] rest by simp_all
    have "nsegs (segs n @ rest)" using live_nsegs [OF ok x(1)] rest by simp
    then have "rewriteMetadataSubtreePath (node_Path x) (node_Path n) (render (segs p @ [w])) = render (segs p @ w # rest)"
      using rewrite_render [of "segs n" rest "segs p @ [w]"] n(2) by (simp add: paths)
    moreover have "x = n \<Longrightarrow> rest = []" using rest by simp
    moreover have "node_ID x = node_ID n \<Longrightarrow> x = n"
      using key_unique [OF tree_okD(1) [OF ok]] x(1) n(1) by (auto simp: live_def)
    ultimately show ?thesis using rest by (auto simp: relocated_def Let_def)
  qed
  moreover have "node_ID x = node_ID n \<longleftrightarrow> x = n" if "live rows x" for x
    using key_unique [OF tree_okD(1) [OF ok]] that n(1) by (auto simp: live_def)
  ultimately show ?thesis by (auto simp: relocation_def relocated_def Let_def)
qed

text \<open>
  \<open>subtree_moved rows rows' n p w\<close>: \<open>rows'\<close> is \<open>rows\<close> with the subtree of the node \<open>n\<close> moved below
  the directory \<open>p\<close> under the name \<open>w\<close>, a name that was free there.
\<close>

definition subtree_moved :: "VFSNode list \<Rightarrow> VFSNode list \<Rightarrow> VFSNode \<Rightarrow> VFSNode \<Rightarrow> string \<Rightarrow> bool" where
  "subtree_moved rows rows' n p w \<longleftrightarrow> (\<exists>f. moving rows n p w f \<and> rows' = map f rows)"

lemma subtree_moved_tree_ok: "subtree_moved rows rows' n p w \<Longrightarrow> tree_ok rows'"
  using relocate_tree_ok by (auto simp: subtree_moved_def)

lemma updateSubtree_effect:
  assumes call: "updateMetadataSubtreePath s n (node_ID p) w (render (segs p @ [w])) actorID db = (r, db')"
    and tx: "mvs_transactor s" and ok: "tree_ok (db_nodes db)"
    and n: "live (db_nodes db) n" "segs n \<noteq> []" and p: "live (db_nodes db) p" "\<not> prefix (segs n) (segs p)"
    and w: "nseg w" "no_trail w" and free: "\<forall>x. live (db_nodes db) x \<longrightarrow> segs x \<noteq> segs p @ [w]"
  shows "db_nodes db' = db_nodes db \<and> (\<exists>e. r = Inl e) \<or> subtree_moved (db_nodes db) (db_nodes db') n p w"
proof -
  let ?new = "render (segs p @ [w])"
  let ?body = "tryN (node_ListByPathPrefix (node_Path n) noFilter) (\<lambda>subtree0.
          if subtree0 = [] then throw ErrFileNotFound
          else let subtree = sort_key (\<lambda>n. length (node_Path n)) subtree0
            in tryM (ensureMetadataSubtreeTargetAvailable subtree (node_Path n) ?new) (\<lambda>_.
               tryM (gets db_now) (\<lambda>now. relocate_loop s n (node_ID p) w ?new actorID now subtree)))"
  have "WithinTx ?body db = (r, db')" using call tx by (simp add: updateMetadataSubtreePath_def withinTx_def)
  then show ?thesis
  proof (cases rule: WithinTx_cases)
    case (abort e)
    then show ?thesis using same_tables_fields(4) by blast
  next
    case (commit u db0 db1)
    note t0 = same_tables_fields(4,11) [OF commit(2)]
    obtain r2 db2 where 2: "node_ListByPathPrefix (node_Path n) noFilter db0 = (r2, db2)" by force
    obtain xs where xs: "r2 = Inr xs" "xs \<noteq> []"
      using commit(3) 2 by (cases r2) (auto simp: throw_def split: if_splits)
    have ok0: "tree_ok (db_nodes db0)" and n0: "live (db_nodes db0) n" using ok n(1) t0 by simp_all
    note sub = ListByPathPrefix_subtree [OF ok0 n0 n(2) 2 [unfolded xs(1)]]
    note t2 = same_tables_fields(4,11) [OF sub(3)]
    let ?st = "sort_key (\<lambda>n. length (node_Path n)) xs"
    obtain r3 db3 where 3: "subtree_target_loop (map node_ID ?st) (node_Path n) ?new ?st db2 = (r3, db3)" by force
    note t3 = keeps_nodesD [OF keeps_nodes_target_loop 3]
    have run: "relocate_loop s n (node_ID p) w ?new actorID (db_now db3) ?st db3 = (Inr u, db1)"
      using commit(3) 2 3 xs
      by (cases r3) (simp_all add: throw_def gets_def Let_def ensureMetadataSubtreeTargetAvailable_def)
    have "distinct (map node_ID (db_nodes db3))" using tree_okD(1) [OF ok] t0 t2 t3 by simp
    moreover have "set ?st \<subseteq> set (db_nodes db3)" using sub(1) t2 t3 by (auto simp: live_def)
    moreover have "distinct (map node_ID ?st)" using sub(2) by (simp add: distinct_map distinct_sort)
    ultimately have "db_nodes db1 = map (\<lambda>x. if x \<in> set ?st
        then node_merge (db_now db3) x (relocated n (node_ID p) w ?new actorID (db_now db3) x) else x) (db_nodes db3)"
      using relocate_loop_rows [OF run] by blast
    then have "db_nodes db' = map (\<lambda>x. if live (db_nodes db) x \<and> prefix (segs n) (segs x)
        then node_merge (db_now db3) x (relocated n (node_ID p) w ?new actorID (db_now db3) x) else x) (db_nodes db)"
      using same_tables_fields(4) [OF commit(4)] sub(1) t0 t2 t3 by simp
    then show ?thesis
      using relocated_relocation [OF ok n p(1) w(1)] ok n p w free
      unfolding subtree_moved_def moving_def by blast
  qed
qed


section \<open>The operations\<close>

lemma keeps_nodes_ResolveNode [intro]: "keeps_nodes (ResolveNode s p)"
  using ResolveNode_reads(1) by (intro keeps_nodes_same_tables) blast

text \<open>The common tail of rename and move: check the target, rewrite the subtree, read it back.\<close>

lemma relocate_tail:
  assumes call: "tryM (ensureMetadataNameAvailable (joinVirtualPath (render (segs p)) w)) (\<lambda>_.
        tryM (updateMetadataSubtreePath s n (node_ID p) w (joinVirtualPath (render (segs p)) w) actorID) (\<lambda>_.
        tryM (ResolveNode s (joinVirtualPath (render (segs p)) w)) (\<lambda>updated. ret (k updated)))) db = (r, db')"
    and tx: "mvs_transactor s" and ok: "tree_ok (db_nodes db)"
    and n: "live (db_nodes db) n" "segs n \<noteq> []" and p: "live (db_nodes db) p" "\<not> prefix (segs n) (segs p)"
    and w: "validateFileName w = Inr () \<or> nseg w" "no_trail w"
  shows "db_nodes db' = db_nodes db \<and> (\<exists>e. r = Inl e) \<or> subtree_moved (db_nodes db) (db_nodes db') n p w"
proof -
  let ?new = "joinVirtualPath (render (segs p)) w"
  obtain r1 db1 where 1: "ensureMetadataNameAvailable ?new db = (r1, db1)" by force
  note a = ensureAvailable_reads [OF 1]
  note t1 = same_tables_fields(4) [OF a(1)]
  show ?thesis
  proof (cases r1)
    case (Inl e)
    then show ?thesis using call 1 t1 by (auto simp: throw_def)
  next
    case (Inr u)
    obtain np where np: "normalizeVirtualPath ?new = Inr np"
      and free: "\<forall>x. live (db_nodes db) x \<longrightarrow> node_Path x \<noteq> np" using a(2) Inr by blast
    have ns: "nsegs (segs p)" using live_nsegs ok p(1) by blast
    note j = join_normalized [OF w(1) ns np]
    have sfree: "\<forall>x. live (db_nodes db1) x \<longrightarrow> segs x \<noteq> segs p @ [w]"
      using free live_path [OF ok] j(2) t1 by metis
    obtain r2 db2 where 2: "updateMetadataSubtreePath s n (node_ID p) w ?new actorID db1 = (r2, db2)" by force
    have eff: "db_nodes db2 = db_nodes db \<and> (\<exists>e. r2 = Inl e) \<or> subtree_moved (db_nodes db) (db_nodes db2) n p w"
      using updateSubtree_effect [OF 2 [unfolded j(3)] tx _ _ n(2) _ p(2) j(1) w(2) sfree] t1 ok n p by simp
    show ?thesis
    proof (cases r2)
      case (Inl e)
      then show ?thesis using call 1 \<open>r1 = Inr u\<close> 2 eff by (auto simp: throw_def)
    next
      case (Inr u2)
      obtain r3 db3 where 3: "ResolveNode s ?new db2 = (r3, db3)" by force
      have "db' = db3" using call 1 \<open>r1 = Inr u\<close> 2 Inr 3 by (cases r3) (simp_all add: throw_def ret_def)
      then show ?thesis using eff Inr keeps_nodesD(1) [OF keeps_nodes_ResolveNode 3] by simp
    qed
  qed
qed

lemma live_parent:
  assumes "tree_ok rows" "live rows n" "node_ParentID n = Some i"
  obtains p where "live rows p" "i = node_ID p" "segs n = segs p @ [node_Name n]"
    "no_trail (node_Name n)" "parentVirtualPath (node_Path n) = render (segs p)" "nseg (node_Name n)"
proof -
  have "attached rows n" using tree_okD(3) assms(1,2) by blast
  then obtain p where p: "live rows p" "i = node_ID p" "segs n = segs p @ [node_Name n]" "no_trail (node_Name n)"
    using assms(3) by (auto simp: attached_def)
  have ns: "nsegs (segs p @ [node_Name n])" using live_nsegs [OF assms(1,2)] p(3) by simp
  have "node_Path n = render (segs p @ [node_Name n])" using live_path [OF assms(1,2)] p(3) by simp
  then have "parentVirtualPath (node_Path n) = render (segs p)"
    using parentVirtualPath_render [of "segs p"] ns by simp
  then show thesis using that p ns by simp
qed

lemma Rename_effect:
  assumes call: "Rename s req db = (r, db')" and tx: "mvs_transactor s" and ok: "tree_ok (db_nodes db)"
    and w: "no_trail (rn_NewName req)"
  shows "db_nodes db' = db_nodes db \<and>
           (\<forall>x. r = Inr x \<longrightarrow> (\<exists>n. live (db_nodes db) n \<and> normalizeVirtualPath (rn_Path req) = Inr (node_Path n) \<and>
                                 node_Name n = rn_NewName req)) \<or>
         (\<exists>n p. normalizeVirtualPath (rn_Path req) = Inr (node_Path n) \<and> node_ParentID n = Some (node_ID p) \<and>
                subtree_moved (db_nodes db) (db_nodes db') n p (rn_NewName req))"
proof (cases "validateFileName (rn_NewName req)")
  case (Inl e)
  then show ?thesis using call by (auto simp: Rename_def lift_def throw_def if_err_def)
next
  case (Inr u)
  obtain r1 db1 where 1: "ResolveNode s (rn_Path req) db = (r1, db1)" by force
  note t1 = same_tables_fields(4) [OF ResolveNode_reads(1) [OF 1]]
  show ?thesis
  proof (cases r1)
    case (Inl e)
    then show ?thesis using call Inr 1 t1 by (auto simp: Rename_def lift_def throw_def if_err_def)
  next
    case n: (Inr n)
    have n1: "live (db_nodes db) n" "normalizeVirtualPath (rn_Path req) = Inr (node_Path n)"
      using ResolveNode_reads(2) [OF 1 n] by auto
    show ?thesis
    proof (cases "node_ParentID n = None \<or> node_Kind n = VFSNodeKindRoot \<or> node_Kind n = VFSNodeKindMount \<or>
        node_Name n = rn_NewName req")
      case True
      then show ?thesis
        using call Inr 1 n t1 n1
        by (auto simp: Rename_def lift_def throw_def ret_def if_err_def split: option.splits if_splits)
    next
      case False
      then obtain i where i: "node_ParentID n = Some i" by auto
      obtain p where p: "live (db_nodes db) p" "i = node_ID p" "segs n = segs p @ [node_Name n]"
        "parentVirtualPath (node_Path n) = render (segs p)"
        using live_parent [OF ok n1(1) i] by metis
      let ?k = "\<lambda>updated. (node_Path n, metadataVFSItemFromNode s updated)"
      have tail: "tryM (ensureMetadataNameAvailable (joinVirtualPath (render (segs p)) (rn_NewName req))) (\<lambda>_.
        tryM (updateMetadataSubtreePath s n (node_ID p) (rn_NewName req)
               (joinVirtualPath (render (segs p)) (rn_NewName req)) (rn_ActorID req)) (\<lambda>_.
        tryM (ResolveNode s (joinVirtualPath (render (segs p)) (rn_NewName req))) (\<lambda>updated. ret (?k updated)))) db1
          = (r, db')"
        using call Inr 1 n i False p(2,4) by (simp add: Rename_def lift_def Let_def)
      have "\<not> prefix (segs n) (segs p)" using p(3) by (auto dest: prefix_length_le)
      then show ?thesis
        using relocate_tail [OF tail tx _ _ _ _ _ _ w] Inr t1 ok n1 p i by auto
    qed
  qed
qed


lemma Move_effect:
  assumes call: "Move s req db = (r, db')" and tx: "mvs_transactor s" and ok: "tree_ok (db_nodes db)"
  shows "db_nodes db' = db_nodes db \<and>
           (\<forall>x. r = Inr x \<longrightarrow> (\<exists>n p. live (db_nodes db) n \<and> live (db_nodes db) p \<and> node_ParentID n = Some (node_ID p) \<and>
              normalizeVirtualPath (mo_Path req) = Inr (node_Path n) \<and>
              normalizeVirtualPath (mo_TargetParentPath req) = Inr (node_Path p))) \<or>
         (\<exists>n p. normalizeVirtualPath (mo_Path req) = Inr (node_Path n) \<and>
                normalizeVirtualPath (mo_TargetParentPath req) = Inr (node_Path p) \<and>
                subtree_moved (db_nodes db) (db_nodes db') n p (node_Name n))"
proof -
  obtain r1 db1 where 1: "ResolveNode s (mo_Path req) db = (r1, db1)" by force
  note t1 = same_tables_fields(4) [OF ResolveNode_reads(1) [OF 1]]
  show ?thesis
  proof (cases r1)
    case (Inl e)
    then show ?thesis using call 1 t1 by (auto simp: Move_def throw_def)
  next
    case n: (Inr n)
    have n1: "live (db_nodes db) n" "normalizeVirtualPath (mo_Path req) = Inr (node_Path n)"
      using ResolveNode_reads(2) [OF 1 n] by auto
    show ?thesis
    proof (cases "node_ParentID n = None \<or> node_Kind n = VFSNodeKindRoot \<or> node_Kind n = VFSNodeKindMount")
      case True
      then show ?thesis
        using call 1 n t1 by (auto simp: Move_def throw_def split: option.splits if_splits)
    next
      case False
      then obtain i where i: "node_ParentID n = Some i" by auto
      obtain q where q: "live (db_nodes db) q" "i = node_ID q" "segs n = segs q @ [node_Name n]"
        "no_trail (node_Name n)" "nseg (node_Name n)"
        using live_parent [OF ok n1(1) i] by metis
      obtain r2 db2 where 2: "ResolveNode s (mo_TargetParentPath req) db1 = (r2, db2)" by force
      note t2 = same_tables_fields(4) [OF ResolveNode_reads(1) [OF 2]]
      show ?thesis
      proof (cases r2)
        case (Inl e)
        then show ?thesis using call 1 2 n i False t1 t2 by (auto simp: Move_def throw_def)
      next
        case p: (Inr p)
        have p1: "live (db_nodes db) p" "normalizeVirtualPath (mo_TargetParentPath req) = Inr (node_Path p)"
          using ResolveNode_reads(2) [OF 2 p] t1 by auto
        show ?thesis
        proof (cases "\<not> metadataVFSNodeIsDirectory p \<or> isSubPath (node_Path n) (node_Path p) \<or>
            \<not> sameUintPtr (node_MountID n) (node_MountID p) \<or> \<not> sameUintPtr (node_SourceID n) (node_SourceID p) \<or>
            i = node_ID p")
          case True
          then show ?thesis
            using call 1 2 n p i False t1 t2 n1 p1 by (auto simp: Move_def throw_def ret_def split: if_splits)
        next
          case go: False
          have pp: "node_Path p = render (segs p)" using live_path ok p1(1) by blast
          have sub: "\<not> prefix (segs n) (segs p)"
            using go isSubPath_normal tree_okD(2) [OF ok] n1(1) p1(1) by metis
          let ?new = "joinVirtualPath (render (segs p)) (node_Name n)"
          let ?k = "\<lambda>updated. (node_Path n, metadataVFSItemFromNode s updated)"
          have tail: "tryM (ensureMetadataNameAvailable ?new) (\<lambda>_.
            tryM (updateMetadataSubtreePath s n (node_ID p) (node_Name n) ?new (mo_ActorID req)) (\<lambda>_.
            tryM (ResolveNode s ?new) (\<lambda>updated. ret (?k updated)))) db2 = (r, db')"
            using call 1 2 n p i False go by (simp add: Move_def pp [symmetric] Let_def)
          show ?thesis
            using relocate_tail [OF tail tx _ _ _ _ sub] t1 t2 ok n1 p1 q by auto
        qed
      qed
    qed
  qed
qed


lemma Mkdir_effect:
  assumes call: "Mkdir s req db = (r, db')" and ok: "tree_ok (db_nodes db)"
  shows "db_nodes db' = db_nodes db \<and> (\<exists>e. r = Inl e) \<or>
         (\<exists>p n. live (db_nodes db) p \<and> normalizeVirtualPath (mk_ParentPath req) = Inr (node_Path p) \<and>
            metadataVFSNodeIsDirectory p \<and> nseg (mk_Name req) \<and> r = Inr (metadataVFSItemFromNode s n) \<and>
            node_ParentID n = Some (node_ID p) \<and> node_Name n = mk_Name req \<and>
            node_Path n = render (segs p @ [mk_Name req]) \<and> \<not> node_IsDeleted n \<and>
            (\<forall>x \<in> set (db_nodes db). node_ID x \<noteq> node_ID n) \<and>
            (\<forall>x. live (db_nodes db) x \<longrightarrow> node_Path x \<noteq> node_Path n) \<and> db_nodes db' = db_nodes db @ [n])"
    (is "?same \<or> ?made")
proof (cases "validateFileName (mk_Name req)")
  case (Inl e)
  then show ?thesis using call by (auto simp: Mkdir_def lift_def throw_def if_err_def)
next
  case (Inr u)
  obtain r1 db1 where 1: "ResolveNode s (mk_ParentPath req) db = (r1, db1)" by force
  note t1 = same_tables_fields(4) [OF ResolveNode_reads(1) [OF 1]]
  show ?thesis
  proof (cases r1)
    case (Inl e)
    then show ?thesis using call Inr 1 t1 by (auto simp: Mkdir_def lift_def throw_def if_err_def)
  next
    case p: (Inr p)
    have p1: "live (db_nodes db) p" "normalizeVirtualPath (mk_ParentPath req) = Inr (node_Path p)"
      using ResolveNode_reads(2) [OF 1 p] by auto
    let ?w = "mk_Name req"
    let ?new = "joinVirtualPath (node_Path p) ?w"
    obtain r2 db2 where 2: "ensureMetadataNameAvailable ?new db1 = (r2, db2)" by force
    note a = ensureAvailable_reads [OF 2]
    note t2 = same_tables_fields(4) [OF a(1)]
    show ?thesis
    proof (cases "\<not> metadataVFSNodeIsDirectory p \<or> (\<exists>e. r2 = Inl e)")
      case True
      then show ?thesis
        using call Inr 1 2 p t1 t2 by (auto simp: Mkdir_def lift_def throw_def if_err_def Let_def split: if_splits)
    next
      case False
      then obtain v where v: "r2 = Inr v" by (cases r2) auto
      obtain np where np: "normalizeVirtualPath ?new = Inr np" "\<forall>x. live (db_nodes db) x \<longrightarrow> node_Path x \<noteq> np"
        using a(2) v t1 by auto
      have ns: "nsegs (segs p)" and pp: "render (segs p) = node_Path p"
        using live_nsegs live_path ok p1(1) by (blast, metis)
      have j: "nseg ?w" "np = render (segs p @ [?w])" "?new = render (segs p @ [?w])"
        using join_normalized [OF _ ns, of ?w np] Inr np(1) by (simp_all add: pp)
      obtain e r3 db3 where e: "node_ID e = 0" "node_ParentID e = Some (node_ID p)" "node_Name e = ?w"
          "node_Path e = ?new" "\<not> node_IsDeleted e"
        and 3: "node_Create e db2 = (r3, db3)"
        and res: "(r, db') = ((case r3 of Inl err \<Rightarrow> Inl (normalizeMetadataVFSError err)
              | Inr n \<Rightarrow> Inr (metadataVFSItemFromNode s n)), db3)"
      proof -
        let ?e = "\<lparr>node_ID = 0, node_ParentID = Some (node_ID p), node_Name = mk_Name req,
               node_Path = ?new, node_Kind = metadataVFSChildDirKind p,
               node_MountID = cloneUintPtr (node_MountID p), node_ObjectID = None,
               node_SourceID = cloneUintPtr (node_SourceID p), node_ProviderItemID = None,
               node_ProviderParentID = None, node_Size = 0, node_MimeType = [], node_ETag = [],
               node_Checksum = [], node_SyncState = VFSNodeSyncStateIndexed, node_IsDeleted = False,
               node_CreatedBy = cloneUintPtr (mk_ActorID req), node_UpdatedBy = cloneUintPtr (mk_ActorID req),
               node_CreatedAt = db_now db2, node_UpdatedAt = db_now db2, node_IndexedAt = Some (db_now db2),
               node_LastSeenAt = None\<rparr>"
        obtain r3 db3 where 3: "node_Create ?e db2 = (r3, db3)" by force
        show thesis
          using that [OF _ _ _ _ _ 3] call Inr 1 2 3 p v False
          by (cases r3) (simp_all add: Mkdir_def lift_def gets_def throw_def ret_def Let_def)
      qed
      have "insert_row ''vfs_nodes'' db_nodes db_nodes_update node_ID node_setID node_clash
          (node_stamp (db_now db2) e) db2 = (r3, db3)" using 3 by (simp add: node_Create_def)
      from this table_query_tables(4) show ?thesis
      proof (cases rule: insert_row_cases)
        case (inserted i db0)
        let ?n = "node_setID i (node_stamp (db_now db2) e)"
        have "node_ParentID ?n = Some (node_ID p)" "node_Name ?n = ?w" "node_Path ?n = np"
          "\<not> node_IsDeleted ?n" "node_ID ?n = i"
          using e j by (simp_all add: node_setID_def node_stamp_def)
        moreover have "db_nodes db' = db_nodes db @ [?n]"
          using res inserted(5) same_tables_fields(4) [OF inserted(2)] t1 t2 by simp
        moreover have "r = Inr (metadataVFSItemFromNode s ?n)" using res inserted(1) by simp
        moreover have "\<forall>x \<in> set (db_nodes db). node_ID x \<noteq> i" using inserted(4) t1 t2 by simp
        ultimately have ?made using p1 np(2) j(1,2) False by (intro exI [of _ p] exI [of _ ?n]) simp
        then show ?thesis by blast
      qed (use res t1 t2 same_tables_fields(4) in auto)
    qed
  qed
qed

lemma node_Delete_effect:
  assumes call: "node_Delete (node_ID n) db = (r, db')" and ok: "tree_ok (db_nodes db)" and n: "live (db_nodes db) n"
  shows "same_tables db db' \<and> (\<exists>e. r = Inl e) \<or> r = Inr () \<and>
     db_nodes db' = map (\<lambda>x. if live (db_nodes db) x \<and> prefix (segs n) (segs x)
        then x\<lparr>node_IsDeleted := True, node_UpdatedAt := db_now db\<rparr> else x) (db_nodes db)"
  using call unfolding node_Delete_def
proof (cases rule: WithinTx_cases)
  case (abort e)
  then show ?thesis by blast
next
  case (commit u db0 db1)
  note t0 = same_tables_fields(4,11) [OF commit(2)]
  let ?p = "\<lambda>x. node_ID x = node_ID n \<and> \<not> node_IsDeleted x"
  obtain r2 db2 where 2: "find_row db_nodes ?p db0 = (r2, db2)" by force
  have f: "same_tables db0 db2" "\<And>x. r2 = Inr x \<Longrightarrow> x \<in> set (db_nodes db0) \<and> ?p x"
    using find_row_reads [OF 2] by auto
  obtain m where m: "r2 = Inr m" using commit(3) 2 by (cases r2) (auto simp: throw_def)
  then have "m = n" using f(2) [OF m] key_unique [OF tree_okD(1) [OF ok]] n t0 by (auto simp: live_def)
  note t2 = same_tables_fields(4,11) [OF f(1)]
  let ?pat = "if node_Path n = ''/'' then ''/%'' else pathChildrenLikePattern (node_Path n)"
  let ?hit = "\<lambda>x. \<not> node_IsDeleted x \<and> (node_Path x = node_Path n \<or> like ?pat (node_Path x))"
  have "stmt (\<lambda>db. if \<forall>n \<in> set (db_nodes db). \<not> ?hit n then (Inl ErrNotFound, db)
               else (Inr (), db_nodes_update (map (\<lambda>n.
                      if ?hit n then n\<lparr>node_IsDeleted := True, node_UpdatedAt := db_now db\<rparr> else n)) db)) db2 = (Inr u, db1)"
    using commit(3) 2 m \<open>m = n\<close> by (simp add: Let_def)
  then have upd: "db_nodes db1 = map (\<lambda>x. if ?hit x then x\<lparr>node_IsDeleted := True, node_UpdatedAt := db_now db\<rparr> else x) (db_nodes db)"
  proof (cases rule: stmt_cases)
    case (run db3)
    note t3 = same_tables_fields(4,11) [OF run(1)]
    show ?thesis using run(3) t0 t2 t3 by (auto split: if_splits)
  qed simp
  have "?hit x \<longleftrightarrow> live (db_nodes db) x \<and> prefix (segs n) (segs x)" if "x \<in> set (db_nodes db)" for x
  proof (cases "node_IsDeleted x")
    case False
    then have "live (db_nodes db) x" using that by (simp add: live_def)
    then show ?thesis using delete_pattern_subtree [OF ok n] False by blast
  qed (simp add: live_def)
  then have "db_nodes db1 = map (\<lambda>x. if live (db_nodes db) x \<and> prefix (segs n) (segs x)
        then x\<lparr>node_IsDeleted := True, node_UpdatedAt := db_now db\<rparr> else x) (db_nodes db)"
    unfolding upd by (intro map_cong) auto
  then show ?thesis using commit(1) same_tables_fields(4) [OF commit(4)] by simp
qed


definition subtree_removed :: "gotime \<Rightarrow> VFSNode list \<Rightarrow> VFSNode \<Rightarrow> VFSNode list" where
  "subtree_removed now rows n = map (\<lambda>x. if live rows x \<and> prefix (segs n) (segs x)
     then x\<lparr>node_IsDeleted := True, node_UpdatedAt := now\<rparr> else x) rows"

lemma subtree_removed_live: "live (subtree_removed now rows n) x \<longleftrightarrow> live rows x \<and> \<not> prefix (segs n) (segs x)"
  by (auto simp: subtree_removed_def live_def image_iff split: if_splits)

lemma subtree_removed_tree_ok:
  assumes ok: "tree_ok rows" and n: "live rows n"
  shows "tree_ok (subtree_removed now rows n)"
proof (cases "segs n = []")
  case True
  have "map node_ID (subtree_removed now rows n) = map node_ID rows" by (simp add: subtree_removed_def)
  then have "distinct (map node_ID (subtree_removed now rows n))" using tree_okD(1) [OF ok] by simp
  then show ?thesis using True subtree_removed_live unfolding tree_ok_def by simp
next
  case False
  show ?thesis
    unfolding subtree_removed_def by (rule remove_tree_ok [OF ok False]) auto
qed

lemma Delete_effect:
  assumes call: "Delete s p db = (r, db')" and ok: "tree_ok (db_nodes db)"
  shows "db_nodes db' = db_nodes db \<and> (\<exists>e. r = Inl e) \<or>
    (\<exists>n. live (db_nodes db) n \<and> normalizeVirtualPath p = Inr (node_Path n) \<and> node_Kind n \<noteq> VFSNodeKindRoot \<and>
         node_Kind n \<noteq> VFSNodeKindMount \<and> r = Inr (db_now db) \<and>
         db_nodes db' = subtree_removed (db_now db) (db_nodes db) n)"
proof -
  obtain r1 db1 where 1: "ResolveNode s p db = (r1, db1)" by force
  note t1 = same_tables_fields(4,11) [OF ResolveNode_reads(1) [OF 1]]
  show ?thesis
  proof (cases r1)
    case (Inl e)
    then show ?thesis using call 1 t1 by (auto simp: Delete_def throw_def)
  next
    case (Inr n)
    have n: "live (db_nodes db) n" "normalizeVirtualPath p = Inr (node_Path n)"
      using ResolveNode_reads(2) [OF 1 Inr] by auto
    show ?thesis
    proof (cases "node_Kind n = VFSNodeKindRoot \<or> node_Kind n = VFSNodeKindMount")
      case True
      then show ?thesis using call 1 Inr t1 by (auto simp: Delete_def throw_def split: if_splits)
    next
      case False
      obtain r2 db2 where 2: "node_Delete (node_ID n) db1 = (r2, db2)" by force
      have "(r, db') = ((case r2 of Inl e \<Rightarrow> Inl (normalizeMetadataVFSError e) | Inr _ \<Rightarrow> Inr (db_now db)), db2)"
        using call 1 Inr 2 False t1 by (cases r2) (auto simp: Delete_def throw_def gets_def ret_def)
      moreover have "tree_ok (db_nodes db1)" "live (db_nodes db1) n" using ok n t1 by simp_all
      ultimately show ?thesis
        using node_Delete_effect [OF 2] t1 n False same_tables_fields(4) [of db1 db2]
        by (auto simp: subtree_removed_def)
    qed
  qed
qed

section \<open>Properties\<close>

text \<open>
  Requests to the service, in any order and under any pattern of failing statements, mixed
  with anything else that leaves the nodes alone.
\<close>

inductive metadata_step :: "MetadataVFSService \<Rightarrow> DB \<Rightarrow> DB \<Rightarrow> bool" for s where
  step_mkdir: "no_trail (mk_Name req) \<Longrightarrow> metadata_step s db (snd (Mkdir s req db))"
| step_rename: "no_trail (rn_NewName req) \<Longrightarrow> metadata_step s db (snd (Rename s req db))"
| step_move: "metadata_step s db (snd (Move s req db))"
| step_delete: "metadata_step s db (snd (Delete s p db))"
| step_other: "db_nodes db' = db_nodes db \<Longrightarrow> metadata_step s db db'"

lemma metadata_step_tree_ok:
  assumes "metadata_step s db db'" "mvs_transactor s" "tree_ok (db_nodes db)"
  shows "tree_ok (db_nodes db')"
  using assms(1)
proof cases
  case (step_mkdir req)
  then show ?thesis
    using Mkdir_effect [OF prod.collapse [symmetric] assms(3), of s req] insert_tree_ok [OF assms(3)] assms(3) by auto
next
  case (step_rename req)
  then show ?thesis
    using Rename_effect [OF prod.collapse [symmetric] assms(2,3), of req] subtree_moved_tree_ok assms(3) by auto
next
  case (step_move req)
  then show ?thesis
    using Move_effect [OF prod.collapse [symmetric] assms(2,3), of req] subtree_moved_tree_ok assms(3) by auto
next
  case (step_delete p)
  then show ?thesis
    using Delete_effect [OF prod.collapse [symmetric] assms(3), of s p] subtree_removed_tree_ok [OF assms(3)] assms(3)
    by auto
qed (use assms(3) in simp)






subsection \<open>Instances\<close>

definition sample_node :: "nat \<Rightarrow> nat option \<Rightarrow> string \<Rightarrow> string \<Rightarrow> string \<Rightarrow> VFSNode" where
  "sample_node i parent name p kind =
     \<lparr>node_ID = i, node_ParentID = parent, node_Name = name, node_Path = p, node_Kind = kind,
      node_MountID = None, node_ObjectID = None, node_SourceID = None, node_ProviderItemID = None,
      node_ProviderParentID = None, node_Size = 0, node_MimeType = [], node_ETag = [],
      node_Checksum = [], node_SyncState = VFSNodeSyncStateIndexed, node_IsDeleted = False,
      node_CreatedBy = None, node_UpdatedBy = None, node_CreatedAt = 1, node_UpdatedAt = 1,
      node_IndexedAt = None, node_LastSeenAt = None\<rparr>"

definition sample_tree :: DB where
  "sample_tree = emptyDB\<lparr>db_now := 7, db_nodes :=
     [sample_node 1 None [] ''/'' VFSNodeKindRoot,
      sample_node 2 (Some 1) ''a'' ''/a'' VFSNodeKindVirtualDir,
      sample_node 3 (Some 2) ''b'' ''/a/b'' VFSNodeKindFile,
      sample_node 4 (Some 1) ''c'' ''/c'' VFSNodeKindVirtualDir]\<rparr>"

definition sample_service :: MetadataVFSService where
  "sample_service = \<lparr>mvs_nodeRepo = True, mvs_objectRepo = True, mvs_sourceRepo = True, mvs_transactor = True,
     mvs_uni = (\<lambda>s. s), mvs_mimeByExt = (\<lambda>_. []), mvs_rfc3339 = (\<lambda>_. []),
     mvs_json = \<lparr>json_Marshal = (\<lambda>_. Inr ''{}''), json_Valid = (\<lambda>_. True), json_Unmarshal = (\<lambda>_. Inr [])\<rparr>\<rparr>"

lemma sample_tree_ok: "tree_ok (db_nodes sample_tree)" "mvs_transactor sample_service"
  by code_simp+






text \<open>
  The restriction on names is needed. The prefix of a query is trimmed, so that deleting the
  node \<^verbatim>\<open>"/a "\<close> also deletes what lies below the node \<^verbatim>\<open>"/a"\<close>, although the service accepts
  the name \<^verbatim>\<open>"a "\<close>.
\<close>

lemma trailing_space_deletes_sibling_subtree:
  "let db = snd (Mkdir sample_service \<lparr>mk_ParentPath = ''/'', mk_Name = ''a '', mk_ActorID = None\<rparr>
         (sample_tree\<lparr>db_seq := (\<lambda>_. 4)\<rparr>));
       db' = snd (Delete sample_service ''/a '' db)
   in map node_Path (live_rows (db_nodes db)) = [''/'', ''/a'', ''/a/b'', ''/c'', ''/a ''] \<and>
      map node_Path (live_rows (db_nodes db')) = [''/'', ''/a'', ''/c'']"
  by code_simp

end
