(* ===== verification/Audit_Log.thy ===== *)
theory Audit_Log
  imports Database
begin

text \<open>
  The audit recorder of \<^verbatim>\<open>internal/application/audit\<close>: a request's context, the event a
  service reports, and the row it becomes. Services record on a best-effort basis: a failing
  insert is only logged, so recording never changes the result of a handler and writes nothing
  but audit rows.
\<close>

section \<open>Request context\<close>

record RequestContext =
  rc_RequestID :: string
  rc_EntryPoint :: string
  rc_ClientIP :: string
  rc_UserAgent :: string
  rc_Method :: string
  rc_Path :: string

text \<open>The values a \<^verbatim>\<open>context.Context\<close> carries: the request and the authenticated identity.\<close>

record Context =
  ctx_request :: "RequestContext option"
  ctx_auth :: "RequestAuth option"

record Snapshot =
  sn_RequestID :: string
  sn_EntryPoint :: string
  sn_ActorUserID :: "nat option"
  sn_ActorUsername :: string
  sn_ActorRoleKey :: string
  sn_ClientIP :: string
  sn_UserAgent :: string
  sn_Method :: string
  sn_Path :: string

definition uintPointerFromValue :: "nat \<Rightarrow> nat option" where
  "uintPointerFromValue v = (if v = 0 then None else Some v)"

definition SnapshotFromContext :: "Context \<Rightarrow> Snapshot" where
  "SnapshotFromContext ctx =
     (let empty = \<lparr>sn_RequestID = [], sn_EntryPoint = [], sn_ActorUserID = None, sn_ActorUsername = [],
            sn_ActorRoleKey = [], sn_ClientIP = [], sn_UserAgent = [], sn_Method = [], sn_Path = []\<rparr>;
          withRequest = (case ctx_request ctx of
              Some r \<Rightarrow> empty\<lparr>sn_RequestID := rc_RequestID r, sn_EntryPoint := rc_EntryPoint r,
                 sn_ClientIP := rc_ClientIP r, sn_UserAgent := rc_UserAgent r,
                 sn_Method := rc_Method r, sn_Path := rc_Path r\<rparr>
            | None \<Rightarrow> empty)
      in case ctx_auth ctx of
           Some a \<Rightarrow> withRequest\<lparr>sn_ActorUserID := uintPointerFromValue (auth_UserID a),
             sn_ActorUsername := auth_Username a, sn_ActorRoleKey := auth_RoleKey a\<rparr>
         | None \<Rightarrow> withRequest)"

section \<open>Events\<close>

abbreviation "ResultSuccess \<equiv> ''success''"
abbreviation "ResultFailed \<equiv> ''failed''"
abbreviation "ResultDenied \<equiv> ''denied''"

record Target =
  tg_ResourceID :: string
  tg_SourceID :: "nat option"
  tg_VirtualPath :: string
  tg_ResolvedSourceID :: "nat option"
  tg_ResolvedPath :: string

type_synonym any_map = "(string \<times> payload_value) list"

record Event =
  ev_ResourceType :: string
  ev_Action :: string
  ev_Result :: string
  ev_ErrorCode :: string
  ev_ResourceID :: string
  ev_SourceID :: "nat option"
  ev_VirtualPath :: string
  ev_Target :: Target
  ev_Before :: any_map
  ev_After :: any_map
  ev_Detail :: any_map

text \<open>An event with the zero value in every other field.\<close>

definition event :: "string \<Rightarrow> string \<Rightarrow> string \<Rightarrow> string \<Rightarrow> Event" where
  "event resourceType action res errorCode =
     \<lparr>ev_ResourceType = resourceType, ev_Action = action, ev_Result = res, ev_ErrorCode = errorCode,
      ev_ResourceID = [], ev_SourceID = None, ev_VirtualPath = [],
      ev_Target = \<lparr>tg_ResourceID = [], tg_SourceID = None, tg_VirtualPath = [],
        tg_ResolvedSourceID = None, tg_ResolvedPath = []\<rparr>,
      ev_Before = [], ev_After = [], ev_Detail = []\<rparr>"

definition normalizeTarget :: "Event \<Rightarrow> Target" where
  "normalizeTarget ev =
     (let target = ev_Target ev;
          target1 = (if tg_ResourceID target = [] then target\<lparr>tg_ResourceID := ev_ResourceID ev\<rparr> else target);
          target2 = (if tg_SourceID target1 = None then target1\<lparr>tg_SourceID := ev_SourceID ev\<rparr> else target1)
      in if tg_VirtualPath target2 = [] then target2\<lparr>tg_VirtualPath := ev_VirtualPath ev\<rparr> else target2)"

definition mustJSON :: "JSONCodec \<Rightarrow> any_map \<Rightarrow> string" where
  "mustJSON json value = (case json_Marshal json value of Inl _ \<Rightarrow> ''{}'' | Inr bytes \<Rightarrow> bytes)"

definition encodeOptionalJSON :: "JSONCodec \<Rightarrow> any_map \<Rightarrow> string" where
  "encodeOptionalJSON json value = (if value = [] then [] else mustJSON json value)"

section \<open>Recorder\<close>

record Recorder =
  rec_repo :: bool
  rec_json :: JSONCodec

definition al_setID :: "nat \<Rightarrow> AuditLog \<Rightarrow> AuditLog" where
  "al_setID i l = l\<lparr>al_ID := i\<rparr>"

definition audit_Create :: "AuditLog \<Rightarrow> (DB, AuditLog) handler" where
  "audit_Create = insert_row ''audit_logs'' db_audits db_audits_update al_ID al_setID (\<lambda>_ _. False)"

definition audit_row :: "JSONCodec \<Rightarrow> gotime \<Rightarrow> Context \<Rightarrow> Event \<Rightarrow> AuditLog" where
  "audit_row json now ctx ev =
     (let snapshot = SnapshotFromContext ctx; target = normalizeTarget ev
      in \<lparr>al_ID = 0, al_OccurredAt = now, al_RequestID = sn_RequestID snapshot,
          al_EntryPoint = sn_EntryPoint snapshot, al_ActorUserID = sn_ActorUserID snapshot,
          al_ActorUsername = sn_ActorUsername snapshot, al_ActorRoleKey = sn_ActorRoleKey snapshot,
          al_ClientIP = sn_ClientIP snapshot, al_UserAgent = sn_UserAgent snapshot,
          al_Method = sn_Method snapshot, al_Path = sn_Path snapshot,
          al_ResourceType = ev_ResourceType ev, al_Action = ev_Action ev, al_Result = ev_Result ev,
          al_ErrorCode = ev_ErrorCode ev, al_ResourceID = tg_ResourceID target,
          al_SourceID = tg_SourceID target, al_VirtualPath = tg_VirtualPath target,
          al_ResolvedSourceID = tg_ResolvedSourceID target, al_ResolvedPath = tg_ResolvedPath target,
          al_BeforeJSON = encodeOptionalJSON json (ev_Before ev),
          al_AfterJSON = encodeOptionalJSON json (ev_After ev),
          al_DetailJSON = encodeOptionalJSON json (ev_Detail ev), al_CreatedAt = now\<rparr>)"

definition Record :: "Recorder option \<Rightarrow> Context \<Rightarrow> Event \<Rightarrow> (DB, unit) handler" where
  "Record r ctx ev =
     (case r of
        None \<Rightarrow> ret ()
      | Some recorder \<Rightarrow>
          if \<not> rec_repo recorder then ret ()
          else
            tryM (gets db_now) (\<lambda>now.
            tryM (audit_Create (audit_row (rec_json recorder) now ctx ev)) (\<lambda>_. ret ())))"

text \<open>The error of a failing write is logged and dropped.\<close>

definition RecordBestEffort :: "Recorder option \<Rightarrow> Context \<Rightarrow> Event \<Rightarrow> (DB, unit) handler" where
  "RecordBestEffort r ctx ev =
     (case r of
        None \<Rightarrow> ret ()
      | Some _ \<Rightarrow> if_err (Record r ctx ev) (\<lambda>_. ret ()) ret)"

definition recordServiceAudit :: "Recorder option \<Rightarrow> Context \<Rightarrow> Event \<Rightarrow> (DB, unit) handler" where
  "recordServiceAudit r ctx ev = RecordBestEffort r ctx ev"

text \<open>\<^verbatim>\<open>strconv.FormatUint(v, 10)\<close>\<close>

fun FormatUint :: "nat \<Rightarrow> string" where
  "FormatUint n = (if n < 10 then [char_of (48 + n)] else FormatUint (n div 10) @ [char_of (48 + n mod 10)])"

declare FormatUint.simps [simp del]

definition encodeUintID :: "nat \<Rightarrow> string" where
  "encodeUintID v = (if v = 0 then [] else FormatUint v)"

text \<open>Record, then go on: the shape of every audited branch.\<close>

abbreviation audited :: "Recorder option \<Rightarrow> Context \<Rightarrow> Event \<Rightarrow> (DB, 'a) handler \<Rightarrow> (DB, 'a) handler" where
  "audited r ctx ev k \<equiv> tryM (recordServiceAudit r ctx ev) (\<lambda>_. k)"

section \<open>Recording writes nothing else\<close>

text \<open>\<open>db'\<close> is \<open>db\<close> up to faults, sequences and audit rows.\<close>

definition audit_only :: "DB \<Rightarrow> DB \<Rightarrow> bool" where
  "audit_only db db' \<longleftrightarrow> same_tables (db\<lparr>db_audits := []\<rparr>) (db'\<lparr>db_audits := []\<rparr>)"

lemma audit_only_refl [simp]: "audit_only db db"
  by (simp add: audit_only_def)

lemma audit_only_trans [trans]: "audit_only a b \<Longrightarrow> audit_only b c \<Longrightarrow> audit_only a c"
  unfolding audit_only_def by (rule same_tables_trans)

lemma same_tables_audit_only: "same_tables db db' \<Longrightarrow> audit_only db db'"
proof -
  have "core (d\<lparr>db_audits := []\<rparr>) = (core d)\<lparr>db_audits := []\<rparr>" for d by (cases d) (simp add: core_def)
  then show "same_tables db db' \<Longrightarrow> audit_only db db'" by (simp add: audit_only_def same_tables_def)
qed

lemma audit_only_fields:
  assumes "audit_only db db'"
  shows "db_users db' = db_users db" "db_tokens db' = db_tokens db" "db_sources db' = db_sources db"
    "db_nodes db' = db_nodes db" "db_objects db' = db_objects db" "db_rules db' = db_rules db"
    "db_ops db' = db_ops db" "db_uploads db' = db_uploads db" "db_shares db' = db_shares db"
    "db_config db' = db_config db" "db_now db' = db_now db"
    "db_mounts db' = db_mounts db" "db_tags db' = db_tags db" "db_nodetags db' = db_nodetags db" "db_trash db' = db_trash db" "db_tasks db' = db_tasks db"
  using same_tables_fields [OF assms [unfolded audit_only_def]] by simp_all


lemma audit_Create_only:
  assumes "audit_Create l db = (r, db')"
  shows "audit_only db db'"
proof -
  from assms [unfolded audit_Create_def] table_query_tables(12) show ?thesis
  proof (cases rule: insert_row_cases)
    case (inserted i db0)
    then have "audit_only db db0" by (intro same_tables_audit_only)
    then show ?thesis using inserted(5) by (simp add: audit_only_def)
  qed (auto intro: same_tables_audit_only)
qed

lemma recordServiceAudit_only:
  assumes "recordServiceAudit r ctx ev db = (x, db')"
  shows "x = Inr () \<and> audit_only db db'"
proof (cases "r = None \<or> (\<exists>recorder. r = Some recorder \<and> \<not> rec_repo recorder)")
  case True
  then show ?thesis
    using assms by (auto simp: recordServiceAudit_def RecordBestEffort_def Record_def ret_def if_err_def)
next
  case False
  then obtain recorder where rec: "r = Some recorder" "rec_repo recorder" by auto
  obtain y db1 where c: "audit_Create (audit_row (rec_json recorder) (db_now db) ctx ev) db = (y, db1)" by force
  have "x = Inr () \<and> db' = db1"
    using assms rec c
    by (cases y) (auto simp: recordServiceAudit_def RecordBestEffort_def Record_def handler_defs)
  then show ?thesis using audit_Create_only [OF c] by simp
qed


lemma audited_throw: "fst (audited r ctx ev (throw e) db) = Inl e"
proof -
  obtain x db1 where a: "recordServiceAudit r ctx ev db = (x, db1)" by force
  then show ?thesis using recordServiceAudit_only [OF a] by (simp add: throw_def)
qed

lemma audited_throw_neq: "audited r ctx ev (throw e) db \<noteq> (Inr x, db')"
proof
  assume "audited r ctx ev (throw e) db = (Inr x, db')"
  then have "fst (audited r ctx ev (throw e) db) = Inr x" by (rule arg_cong [of _ "(Inr x, db')" fst, simplified])
  then show False unfolding audited_throw by simp
qed

end
