(* ===== verification/Users.thy ===== *)
theory Users
  imports Audit_Log Permission
begin

text \<open>
  User administration: the user repository (\<^verbatim>\<open>user_repo_impl.go\<close>) and \<^verbatim>\<open>user_service.go\<close>
  (listing, creating, updating, password reset, token revocation), with the audit events each
  branch records. The password hash (bcrypt) and the time format are fields of the service
  record. The properties: only permitted role changes are written, the last active super
  administrator cannot be removed, and a change of privilege moves the token version on.
\<close>

section \<open>User repository\<close>

record UserListFilter =
  ulf_Keyword :: string
  ulf_Status :: string

definition user_setID :: "nat \<Rightarrow> User \<Rightarrow> User" where
  "user_setID i u = u\<lparr>user_ID := i\<rparr>"

definition user_stamp :: "gotime \<Rightarrow> User \<Rightarrow> User" where
  "user_stamp now u =
     u\<lparr>user_CreatedAt := (if user_CreatedAt u = 0 then now else user_CreatedAt u),
       user_UpdatedAt := (if user_UpdatedAt u = 0 then now else user_UpdatedAt u)\<rparr>"

text \<open>\<^verbatim>\<open>Select("*").Omit("ID", "Username", "CreatedAt")\<close>; the update time is automatic.\<close>

definition user_merge :: "gotime \<Rightarrow> User \<Rightarrow> User \<Rightarrow> User" where
  "user_merge now old new =
     new\<lparr>user_ID := user_ID old, user_Username := user_Username old,
         user_CreatedAt := user_CreatedAt old, user_UpdatedAt := now\<rparr>"

definition user_clash :: "User \<Rightarrow> User \<Rightarrow> bool" where
  "user_clash x y \<longleftrightarrow> user_Username x = user_Username y"

definition user_Create :: "User \<Rightarrow> (DB, User) handler" where
  "user_Create user db =
     insert_row ''users'' db_users db_users_update user_ID user_setID user_clash
       (user_stamp (db_now db) user) db"

definition user_FindByID :: "nat \<Rightarrow> (DB, User) handler" where
  "user_FindByID i = find_row db_users (\<lambda>u. user_ID u = i)"

definition user_FindByUsername :: "string \<Rightarrow> (DB, User) handler" where
  "user_FindByUsername name = find_row db_users (\<lambda>u. user_Username u = name)"

definition user_matches :: "UserListFilter \<Rightarrow> User \<Rightarrow> bool" where
  "user_matches filt u \<longleftrightarrow>
     (let keyword = TrimSpace (ulf_Keyword filt); pattern = ''%'' @ keyword @ ''%''
      in keyword \<noteq> [] \<longrightarrow> like pattern (user_Username u) \<or> like pattern (user_Email u)) \<and>
     (let status = TrimSpace (ulf_Status filt) in status \<noteq> [] \<longrightarrow> user_Status u = status)"

definition user_List :: "UserListFilter \<Rightarrow> (DB, User list) handler" where
  "user_List filt =
     select_rows (\<lambda>db. sort_key (\<lambda>u. (- user_CreatedAt u, - int (user_ID u)))
       (filter (user_matches filt) (db_users db)))"

definition user_Count :: "(DB, int) handler" where
  "user_Count = stmt (gets (\<lambda>db. int (length (db_users db))))"

text \<open>The user name is not among the updated columns, so an update cannot clash.\<close>

definition user_Update :: "User \<Rightarrow> (DB, unit) handler" where
  "user_Update user = update_row db_users db_users_update user_ID user_merge (\<lambda>_ _. False) user"

definition user_UpdateTokenVersion :: "nat \<Rightarrow> int \<Rightarrow> (DB, unit) handler" where
  "user_UpdateTokenVersion i tokenVersion =
     stmt (\<lambda>db.
       if \<forall>u \<in> set (db_users db). user_ID u \<noteq> i then (Inl ErrNotFound, db)
       else (Inr (), db_users_update (map (\<lambda>u. if user_ID u = i
               then u\<lparr>user_TokenVersion := tokenVersion, user_UpdatedAt := db_now db\<rparr> else u)) db))"

section \<open>Requests and views\<close>

record UserListQuery =
  ulq_Page :: int
  ulq_PageSize :: int
  ulq_Keyword :: string
  ulq_Status :: string

record UserAdminView =
  uav_ID :: nat
  uav_Username :: string
  uav_Email :: string
  uav_RoleKey :: string
  uav_Status :: string
  uav_LastLoginAt :: "string option"
  uav_CreatedAt :: string

record CreateUserRequest =
  cur_Username :: string
  cur_Password :: string
  cur_Email :: string
  cur_RoleKey :: string

record UpdateUserRequest =
  uur_Email :: string
  uur_RoleKey :: string
  uur_Status :: string

record UserService =
  us_Hash :: "string \<Rightarrow> string result"
  us_rfc3339 :: "gotime \<Rightarrow> string"
  us_auditRecorder :: "Recorder option"

definition toUserAdminView :: "UserService \<Rightarrow> User \<Rightarrow> UserAdminView" where
  "toUserAdminView s user =
     \<lparr>uav_ID = user_ID user, uav_Username = user_Username user, uav_Email = user_Email user,
      uav_RoleKey = user_RoleKey user, uav_Status = user_Status user, uav_LastLoginAt = None,
      uav_CreatedAt = us_rfc3339 s (user_CreatedAt user)\<rparr>"

definition userAuditView :: "User \<Rightarrow> any_map" where
  "userAuditView user =
     [(''id'', PayloadNumber (FormatUint (user_ID user))),
      (''username'', PayloadString (user_Username user)),
      (''email'', PayloadString (user_Email user)),
      (''role_key'', PayloadString (user_RoleKey user)),
      (''status'', PayloadString (user_Status user))]"

definition normalizeInputRoleKey :: "string \<Rightarrow> string result" where
  "normalizeInputRoleKey roleKey =
     (let r = TrimSpace roleKey in if \<not> IsValidRole r then Inl ErrUserRoleInvalid else Inr r)"

definition normalizeInputStatus :: "string \<Rightarrow> string result" where
  "normalizeInputStatus status =
     (let st = TrimSpace status in if \<not> IsValidStatus st then Inl ErrUserStatusInvalid else Inr st)"

definition currentRequestAuth :: "Context \<Rightarrow> RequestAuth result" where
  "currentRequestAuth ctx = (case ctx_auth ctx of None \<Rightarrow> Inl ErrPermissionDenied | Some auth \<Rightarrow> Inr auth)"

text \<open>
  \<^verbatim>\<open>paginateItems\<close>. Page numbers come from the request; the products wrap at 64 bits, and a
  slice with a negative bound panics, modelled as no result.
\<close>

definition paginateItems :: "'a list \<Rightarrow> int \<Rightarrow> int \<Rightarrow> ('a list \<times> int \<times> int) option" where
  "paginateItems items page0 pageSize0 =
     (let page = (if page0 \<le> 0 then 1 else page0);
          pageSize = (if pageSize0 \<le> 0 then 200 else pageSize0);
          total = int (length items);
          totalPages = (if total > 0 then go_div (wrap64 (wrap64 (total + pageSize) - 1)) pageSize else 0);
          start = wrap64 (wrap64 (page - 1) * pageSize)
      in if start \<ge> total then Some ([], total, totalPages)
         else
           let end0 = wrap64 (start + pageSize);
               end1 = (if end0 > total then total else end0)
           in if 0 \<le> start \<and> start \<le> end1
              then Some (take (nat (end1 - start)) (drop (nat start) items), total, totalPages)
              else None)"

section \<open>User service\<close>

definition UserService_List :: "UserService \<Rightarrow> UserListQuery \<Rightarrow> (DB, UserAdminView list option) handler" where
  "UserService_List s query =
     (if ulq_Status query \<noteq> [] \<and> \<not> IsValidStatus (TrimSpace (ulq_Status query)) then throw ErrUserStatusInvalid
      else
        tryM (user_List \<lparr>ulf_Keyword = TrimSpace (ulq_Keyword query), ulf_Status = TrimSpace (ulq_Status query)\<rparr>)
          (\<lambda>items. ret (map_option fst
             (paginateItems (map (toUserAdminView s) items) (ulq_Page query) (ulq_PageSize query)))))"

definition UserService_Create :: "UserService \<Rightarrow> Context \<Rightarrow> CreateUserRequest \<Rightarrow> (DB, UserAdminView) handler" where
  "UserService_Create s ctx req =
     (let audit = (\<lambda>ev k. audited (us_auditRecorder s) ctx ev k);
          failed = event ''user'' ''create'' ResultFailed
      in if_err (lift (currentRequestAuth ctx)) (\<lambda>_. throw ErrPermissionDenied) (\<lambda>actor.
         if_err (lift (normalizeInputRoleKey (cur_RoleKey req)))
           (\<lambda>err. audit (failed ''USER_ROLE_INVALID'') (throw err)) (\<lambda>roleKey.
         if \<not> CanAssignRole (auth_RoleKey actor) roleKey
         then audit ((event ''user'' ''create'' ResultDenied ''ROLE_ASSIGNMENT_FORBIDDEN'')
                \<lparr>ev_Detail := [(''target_role_key'', PayloadString roleKey)]\<rparr>) (throw ErrRoleAssignmentForbidden)
         else
           if_err (user_FindByUsername (cur_Username req))
             (\<lambda>err. if \<not> errors_Is err ErrNotFound
                    then audit (failed ''INTERNAL_ERROR'') (throw err)
                    else
                      if_err (lift (us_Hash s (cur_Password req)))
                        (\<lambda>err. audit (failed ''INTERNAL_ERROR'') (throw err)) (\<lambda>passwordHash.
                      if_err (user_Create
                          \<lparr>user_ID = 0, user_Username = cur_Username req, user_Email = cur_Email req,
                           user_PasswordHash = passwordHash, user_RoleKey = roleKey,
                           user_Status = StatusActive, user_TokenVersion = 0,
                           user_CreatedAt = 0, user_UpdatedAt = 0\<rparr>)
                        (\<lambda>err. audit (failed ''INTERNAL_ERROR'') (throw err)) (\<lambda>user.
                      audit ((event ''user'' ''create'' ResultSuccess [])
                          \<lparr>ev_ResourceID := encodeUintID (user_ID user), ev_After := userAuditView user\<rparr>)
                        (ret (toUserAdminView s user)))))
             (\<lambda>_. audit (failed ''USER_NAME_CONFLICT'') (throw ErrUserNameConflict)))))"

definition countActiveSuperAdmins :: "(DB, nat) handler" where
  "countActiveSuperAdmins =
     tryM (user_List \<lparr>ulf_Keyword = [], ulf_Status = StatusActive\<rparr>) (\<lambda>users.
       ret (length (filter (\<lambda>item. user_RoleKey item = RoleSuperAdmin) users)))"

text \<open>
  \<^verbatim>\<open>Update\<close> up to the write: the checks, and the changed user it is about to store.
\<close>

definition UserService_Update_check ::
  "UserService \<Rightarrow> Context \<Rightarrow> nat \<Rightarrow> UpdateUserRequest \<Rightarrow> (DB, any_map \<times> User) handler" where
  "UserService_Update_check s ctx i req =
     (let audit = (\<lambda>ev k. audited (us_auditRecorder s) ctx (ev\<lparr>ev_ResourceID := encodeUintID i\<rparr>) k);
          failed = event ''user'' ''update'' ResultFailed
      in if_err (lift (currentRequestAuth ctx)) (\<lambda>_. throw ErrPermissionDenied) (\<lambda>actor.
         if_err (user_FindByID i) (\<lambda>err. audit (failed ''USER_NOT_FOUND'') (throw err)) (\<lambda>user.
         let before = userAuditView user
         in
         if_err (lift (normalizeInputRoleKey (uur_RoleKey req)))
           (\<lambda>err. audit ((failed ''USER_ROLE_INVALID'')\<lparr>ev_Before := before\<rparr>) (throw err)) (\<lambda>nextRoleKey.
         if_err (lift (normalizeInputStatus (uur_Status req)))
           (\<lambda>err. audit ((failed ''USER_STATUS_INVALID'')\<lparr>ev_Before := before\<rparr>) (throw err)) (\<lambda>nextStatus.
         let detail = [(''target_role_key'', PayloadString nextRoleKey), (''target_status'', PayloadString nextStatus)];
             changedPrivilege = (user_RoleKey user \<noteq> nextRoleKey \<or> user_Status user \<noteq> nextStatus);
             changed = user\<lparr>user_Email := uur_Email req, user_RoleKey := nextRoleKey, user_Status := nextStatus,
               user_TokenVersion := (if changedPrivilege then wrap64 (user_TokenVersion user + 1)
                                     else user_TokenVersion user)\<rparr>
         in
         if \<not> CanManageTargetRole (auth_RoleKey actor) (user_RoleKey user) \<or>
            \<not> CanAssignRole (auth_RoleKey actor) nextRoleKey
         then audit ((event ''user'' ''update'' ResultDenied ''ROLE_ASSIGNMENT_FORBIDDEN'')
                \<lparr>ev_Before := before, ev_Detail := detail\<rparr>) (throw ErrRoleAssignmentForbidden)
         else if user_RoleKey user = RoleSuperAdmin \<and> (nextRoleKey \<noteq> RoleSuperAdmin \<or> nextStatus = StatusLocked)
         then
           tryM countActiveSuperAdmins (\<lambda>activeSuperAdmins.
             if activeSuperAdmins = 1
             then audit ((event ''user'' ''update'' ResultDenied ''LAST_SUPER_ADMIN_FORBIDDEN'')
                    \<lparr>ev_Before := before, ev_Detail := detail\<rparr>) (throw ErrLastSuperAdminForbidden)
             else ret (before, changed))
         else ret (before, changed))))))"

definition UserService_Update ::
  "UserService \<Rightarrow> Context \<Rightarrow> nat \<Rightarrow> UpdateUserRequest \<Rightarrow> (DB, UserAdminView) handler" where
  "UserService_Update s ctx i req =
     (let audit = (\<lambda>ev k. audited (us_auditRecorder s) ctx (ev\<lparr>ev_ResourceID := encodeUintID i\<rparr>) k)
      in tryM (UserService_Update_check s ctx i req) (\<lambda>(before, user).
         if_err (user_Update user)
           (\<lambda>err. audit ((event ''user'' ''update'' ResultFailed ''INTERNAL_ERROR'')\<lparr>ev_Before := before\<rparr>) (throw err))
           (\<lambda>_. audit ((event ''user'' ''update'' ResultSuccess [])
                   \<lparr>ev_Before := before, ev_After := userAuditView user\<rparr>)
                 (ret (toUserAdminView s user)))))"

definition ResetPassword :: "UserService \<Rightarrow> Context \<Rightarrow> nat \<Rightarrow> string \<Rightarrow> (DB, unit) handler" where
  "ResetPassword s ctx i newPassword =
     (let audit = (\<lambda>ev k. audited (us_auditRecorder s) ctx (ev\<lparr>ev_ResourceID := encodeUintID i\<rparr>) k);
          failed = event ''user'' ''reset_password'' ResultFailed
      in if_err (user_FindByID i) (\<lambda>err. audit (failed ''USER_NOT_FOUND'') (throw err)) (\<lambda>user.
         if_err (lift (us_Hash s newPassword)) (\<lambda>err. audit (failed ''INTERNAL_ERROR'') (throw err)) (\<lambda>passwordHash.
         if_err (user_Update (user\<lparr>user_PasswordHash := passwordHash\<rparr>))
           (\<lambda>err. audit (failed ''INTERNAL_ERROR'') (throw err)) (\<lambda>_.
         audit ((event ''user'' ''reset_password'' ResultSuccess [])
             \<lparr>ev_Detail := [(''target_user_id'', PayloadNumber (FormatUint i)), (''password_changed'', PayloadBool True)]\<rparr>)
           (ret ())))))"

definition RevokeTokens :: "UserService \<Rightarrow> Context \<Rightarrow> nat \<Rightarrow> (DB, nat \<times> bool) handler" where
  "RevokeTokens s ctx i =
     (let audit = (\<lambda>ev k. audited (us_auditRecorder s) ctx (ev\<lparr>ev_ResourceID := encodeUintID i\<rparr>) k);
          failed = event ''user'' ''revoke_tokens'' ResultFailed
      in if_err (user_FindByID i) (\<lambda>err. audit (failed ''USER_NOT_FOUND'') (throw err)) (\<lambda>user.
         if_err (user_UpdateTokenVersion i (wrap64 (user_TokenVersion user + 1)))
           (\<lambda>err. audit (failed ''INTERNAL_ERROR'') (throw err)) (\<lambda>_.
         audit ((event ''user'' ''revoke_tokens'' ResultSuccess [])
             \<lparr>ev_Detail := [(''target_user_id'', PayloadNumber (FormatUint i)), (''revoked'', PayloadBool True)]\<rparr>)
           (ret (i, True)))))"


section \<open>Reasoning about accounts\<close>

text \<open>
  Assertions on the account tables: users, refresh tokens and the time. Reading and recording
  audit events keeps them, so a handler is walked through statement by statement with only
  its writes showing.
\<close>

definition at :: "User list \<Rightarrow> RefreshToken list \<Rightarrow> gotime \<Rightarrow> DB \<Rightarrow> bool" where
  "at U T n db \<longleftrightarrow> db_users db = U \<and> db_tokens db = T \<and> db_now db = n"

lemma at_self: "at (db_users db) (db_tokens db) (db_now db) db"
  by (simp add: at_def)

lemma at_audit_only: "audit_only db db' \<Longrightarrow> at U T n db' = at U T n db"
  using audit_only_fields by (auto simp: at_def)

lemma at_same_tables: "same_tables db db' \<Longrightarrow> at U T n db' = at U T n db"
  using at_audit_only same_tables_audit_only by blast

named_theorems acct

lemma at_bind:
  assumes "triple (at U T n) m Q' R'" and "\<And>e. triple (R' e) (h e) Q R" and "\<And>x. triple (Q' x) (f x) Q R"
  shows "triple (at U T n) (if_err m h f) Q R"
  using triple_if_err assms by blast

lemma at_ret [acct]: "(\<And>db. at U T n db \<Longrightarrow> Q x db) \<Longrightarrow> triple (at U T n) (ret x) Q R"
  by (simp add: triple_def ret_def)

lemma at_throw [acct]: "(\<And>db. at U T n db \<Longrightarrow> R e db) \<Longrightarrow> triple (at U T n) (throw e) Q R"
  by (simp add: triple_def throw_def)

lemma at_if [acct]:
  "(b \<Longrightarrow> triple P m Q R) \<Longrightarrow> (\<not> b \<Longrightarrow> triple P m' Q R) \<Longrightarrow> triple P (if b then m else m') Q R"
  by simp

lemma at_lift [acct]:
  assumes "\<And>e. r = Inl e \<Longrightarrow> triple (at U T n) (h e) Q R" and "\<And>x. r = Inr x \<Longrightarrow> triple (at U T n) (f x) Q R"
  shows "triple (at U T n) (if_err (lift r) h f) Q R"
proof (cases r)
  case (Inl e)
  then have "if_err (lift r) h f = h e" by (simp add: handler_defs)
  then show ?thesis using assms(1) Inl by simp
next
  case (Inr x)
  then have "if_err (lift r) h f = f x" by (simp add: handler_defs)
  then show ?thesis using assms(2) Inr by simp
qed

lemma at_audit [acct]:
  assumes "triple (at U T n) k Q R"
  shows "triple (at U T n) (audited r ctx ev k) Q R"
proof -
  have "audited r ctx ev k db = k (snd (recordServiceAudit r ctx ev db))" for db
    using recordServiceAudit_only [of r ctx ev db] by (cases "recordServiceAudit r ctx ev db") simp
  moreover have "at U T n db \<Longrightarrow> at U T n (snd (recordServiceAudit r ctx ev db))" for db
    using recordServiceAudit_only [OF prod.collapse [symmetric], of r ctx ev db] at_audit_only by blast
  ultimately show ?thesis using assms by (simp add: triple_def)
qed

lemma at_find:
  assumes "table_query tbl"
    and "\<And>e. triple (at U T n) (h e) Q R" and "\<And>x. triple (\<lambda>db. at U T n db \<and> find p (tbl db) = Some x) (f x) Q R"
  shows "triple (at U T n) (if_err (find_row tbl p) h f) Q R"
proof (rule at_bind)
  show "triple (at U T n) (find_row tbl p) (\<lambda>x db. at U T n db \<and> find p (tbl db) = Some x) (\<lambda>_. at U T n)"
  proof (rule tripleI)
    fix s e s' assume a: "at U T n s" "find_row tbl p s = (Inl e, s')"
    from a(2) assms(1) show "at U T n s'" by (cases rule: find_row_cases) (use a(1) at_same_tables in auto)
  next
    fix s x s' assume a: "at U T n s" "find_row tbl p s = (Inr x, s')"
    from a(2) assms(1) show "at U T n s' \<and> find p (tbl s') = Some x"
      by (cases rule: find_row_cases) (use a(1) at_same_tables table_queryD [OF assms(1)] in auto)
  qed
qed (use assms in blast)+

lemma at_find_user [acct]:
  assumes "\<And>e. triple (at U T n) (h e) Q R" and "\<And>x. find p U = Some x \<Longrightarrow> triple (at U T n) (f x) Q R"
  shows "triple (at U T n) (if_err (find_row db_users p) h f) Q R"
proof (rule at_find)
  show "triple (\<lambda>db. at U T n db \<and> find p (db_users db) = Some x) (f x) Q R" for x
  proof (cases "find p U = Some x")
    case True
    show ?thesis by (rule triple_pre [OF assms(2) [OF True]]) simp
  qed (auto simp: triple_def at_def)
qed (use assms in auto)

lemma at_select [acct]:
  assumes "\<And>e. triple (at U T n) (h e) Q R" and "\<And>x. triple (at U T n) (f (q U)) Q R"
    and "\<And>db. p db = q (db_users db)"
  shows "triple (at U T n) (if_err (select_rows p) h f) Q R"
proof (rule at_bind)
  have tq: "table_query p" using assms(3) same_tables_fields(1) by (simp add: table_query_def)
  show "triple (at U T n) (select_rows p) (\<lambda>x db. at U T n db \<and> x = q U) (\<lambda>_. at U T n)"
  proof (rule tripleI)
    fix s e s' assume "at U T n s" "select_rows p s = (Inl e, s')"
    then show "at U T n s'" using select_rows_cases [OF _ tq] at_same_tables by blast
  next
    fix s x s' assume a: "at U T n s" "select_rows p s = (Inr x, s')"
    then have "same_tables s s'" "x = p s" using select_rows_cases [OF a(2) tq] by auto
    then show "at U T n s' \<and> x = q U" using a(1) assms(3) at_same_tables by (auto simp: at_def)
  qed
  show "triple (\<lambda>db. at U T n db \<and> x = q U) (f x) Q R" for x
    using assms(2) by (auto simp: triple_def)
qed (use assms in blast)

lemma at_user_Update [acct]:
  assumes "\<And>e. triple (at U T n) (h e) Q R"
    and "\<And>x. triple (at (map (\<lambda>x. if user_ID x = user_ID u then user_merge n x u else x) U) T n) (f x) Q R"
  shows "triple (at U T n) (if_err (user_Update u) h f) Q R"
proof (rule at_bind)
  show "triple (at U T n) (user_Update u)
      (\<lambda>_. at (map (\<lambda>x. if user_ID x = user_ID u then user_merge n x u else x) U) T n) (\<lambda>_. at U T n)"
  proof (rule tripleI)
    fix s e s' assume a: "at U T n s" "user_Update u s = (Inl e, s')"
    from a(2) [unfolded user_Update_def] table_query_tables(1) show "at U T n s'"
      by (cases rule: update_row_cases) (use a(1) at_same_tables in auto)
  next
    fix s x s' assume a: "at U T n s" "user_Update u s = (Inr x, s')"
    from a(2) [unfolded user_Update_def] table_query_tables(1)
    show "at (map (\<lambda>x. if user_ID x = user_ID u then user_merge n x u else x) U) T n s'"
      by (cases rule: update_row_cases) (use a(1) same_tables_fields in \<open>auto simp: at_def\<close>)
  qed
qed (use assms in blast)+


lemma at_users_stmt:
  assumes "\<And>s. at U T n s \<Longrightarrow> (case g s of (Inl e, s') \<Rightarrow> at U T n s' | (Inr x, s') \<Rightarrow> at U' T' n s')"
    and "\<And>e. triple (at U T n) (h e) Q R" and "\<And>x. triple (at U' T' n) (f x) Q R"
  shows "triple (at U T n) (if_err (stmt g) h f) Q R"
proof (rule at_bind)
  show "triple (at U T n) (stmt g) (\<lambda>_. at U' T' n) (\<lambda>_. at U T n)"
  proof (rule tripleI)
    fix s e s' assume a: "at U T n s" "stmt g s = (Inl e, s')"
    from a(2) show "at U T n s'"
    proof (cases rule: stmt_cases)
      case (run db0)
      then show ?thesis using assms(1) [of db0] a(1) at_same_tables by fastforce
    qed (use a(1) at_same_tables in blast)
  next
    fix s x s' assume a: "at U T n s" "stmt g s = (Inr x, s')"
    from a(2) show "at U' T' n s'"
    proof (cases rule: stmt_cases)
      case (run db0)
      then show ?thesis using assms(1) [of db0] a(1) at_same_tables by fastforce
    qed simp
  qed
qed (use assms in blast)+

lemma at_UpdateTokenVersion [acct]:
  assumes "\<And>e. triple (at U T n) (h e) Q R"
    and "\<And>x. triple (at (map (\<lambda>u. if user_ID u = i then u\<lparr>user_TokenVersion := v, user_UpdatedAt := n\<rparr> else u) U) T n) (f x) Q R"
  shows "triple (at U T n) (if_err (user_UpdateTokenVersion i v) h f) Q R"
  unfolding user_UpdateTokenVersion_def
  by (rule at_users_stmt) (use assms in \<open>auto simp: at_def\<close>)

lemma at_user_Create [acct]:
  assumes "\<And>e. triple (at U T n) (h e) Q R"
    and "\<And>i. (\<forall>x \<in> set U. user_ID x \<noteq> i \<and> user_Username x \<noteq> user_Username u) \<Longrightarrow>
      triple (at (U @ [user_setID i (user_stamp n u)]) T n) (f (user_setID i (user_stamp n u))) Q R"
  shows "triple (at U T n) (if_err (user_Create u) h f) Q R"
proof (rule at_bind)
  show "triple (at U T n) (user_Create u)
      (\<lambda>x db. \<exists>i. x = user_setID i (user_stamp n u) \<and> (\<forall>y \<in> set U. user_ID y \<noteq> i \<and> user_Username y \<noteq> user_Username u) \<and>
         at (U @ [x]) T n db) (\<lambda>_. at U T n)"
  proof (rule tripleI)
    fix s e s' assume a: "at U T n s" "user_Create u s = (Inl e, s')"
    from a(2) [unfolded user_Create_def] table_query_tables(1) show "at U T n s'"
      by (cases rule: insert_row_cases) (use a(1) at_same_tables in auto)
  next
    fix s x s' assume a: "at U T n s" "user_Create u s = (Inr x, s')"
    from a(2) [unfolded user_Create_def] table_query_tables(1)
    show "\<exists>i. x = user_setID i (user_stamp n u) \<and> (\<forall>y \<in> set U. user_ID y \<noteq> i \<and> user_Username y \<noteq> user_Username u) \<and>
        at (U @ [x]) T n s'"
    proof (cases rule: insert_row_cases)
      case (inserted i db0)
      then show ?thesis
        using a(1) same_tables_fields(1,2,11) [OF inserted(2)]
        by (intro exI [of _ i]) (simp add: at_def user_clash_def user_setID_def user_stamp_def)
    qed auto
  qed
  show "triple (\<lambda>db. \<exists>i. x = user_setID i (user_stamp n u) \<and> (\<forall>y \<in> set U. user_ID y \<noteq> i \<and> user_Username y \<noteq> user_Username u) \<and>
         at (U @ [x]) T n db) (f x) Q R" for x
    by (intro triple_ex triple_pure) (use assms(2) in simp)
qed (use assms in blast)

text \<open>The count is the number of active super administrators.\<close>

definition active_admins :: "User list \<Rightarrow> User list" where
  "active_admins U = filter (\<lambda>u. user_Status u = StatusActive \<and> user_RoleKey u = RoleSuperAdmin) U"

lemma at_countActiveSuperAdmins [acct]:
  assumes "\<And>e. triple (at U T n) (h e) Q R" and "triple (at U T n) (f (length (active_admins U))) Q R"
  shows "triple (at U T n) (if_err countActiveSuperAdmins h f) Q R"
proof -
  let ?filt = "\<lparr>ulf_Keyword = [], ulf_Status = StatusActive\<rparr>"
  have tr: "TrimSpace StatusActive = StatusActive" by code_simp
  have m: "user_matches ?filt u \<longleftrightarrow> user_Status u = StatusActive" for u
    by (simp add: user_matches_def tr Let_def)
  have len: "length (filter (\<lambda>item. user_RoleKey item = RoleSuperAdmin)
      (sort_key (\<lambda>u. (- user_CreatedAt u, - int (user_ID u))) (filter (user_matches ?filt) U))) = length (active_admins U)"
    by (simp add: filter_sort active_admins_def m conj_commute)
  have "triple (at U T n) countActiveSuperAdmins (\<lambda>x db. x = length (active_admins U) \<and> at U T n db) (\<lambda>_. at U T n)"
    unfolding countActiveSuperAdmins_def user_List_def
    by (rule at_select [where q = "\<lambda>U. sort_key (\<lambda>u. (- user_CreatedAt u, - int (user_ID u))) (filter (user_matches ?filt) U)"])
      (auto intro!: acct simp: len)
  then show ?thesis
  proof (rule at_bind)
    show "triple (\<lambda>db. x = length (active_admins U) \<and> at U T n db) (f x) Q R" for x
      by (rule triple_pure) (use assms(2) in simp)
  qed (rule assms(1))
qed

lemmas user_reads = user_FindByID_def user_FindByUsername_def user_List_def


section \<open>What the operations write\<close>

text \<open>The update an actor may make of a user, given all users.\<close>

definition allowed_update :: "RequestAuth \<Rightarrow> User list \<Rightarrow> User \<Rightarrow> User \<Rightarrow> bool" where
  "allowed_update actor U old new \<longleftrightarrow>
     CanManageTargetRole (auth_RoleKey actor) (user_RoleKey old) \<and>
     CanAssignRole (auth_RoleKey actor) (user_RoleKey new) \<and>
     IsValidRole (user_RoleKey new) \<and> IsValidStatus (user_Status new) \<and>
     (user_RoleKey old = RoleSuperAdmin \<and> (user_RoleKey new \<noteq> RoleSuperAdmin \<or> user_Status new = StatusLocked) \<longrightarrow>
        length (active_admins U) \<noteq> 1) \<and>
     user_ID new = user_ID old \<and> user_PasswordHash new = user_PasswordHash old \<and>
     user_TokenVersion new = (if user_RoleKey old \<noteq> user_RoleKey new \<or> user_Status old \<noteq> user_Status new
        then wrap64 (user_TokenVersion old + 1) else user_TokenVersion old)"

definition replace_user :: "gotime \<Rightarrow> User \<Rightarrow> User list \<Rightarrow> User list" where
  "replace_user n u U = map (\<lambda>x. if user_ID x = user_ID u then user_merge n x u else x) U"

lemma normalizeInput_Inr:
  "normalizeInputRoleKey r = Inr x \<longleftrightarrow> x = TrimSpace r \<and> IsValidRole x"
  "normalizeInputStatus st = Inr y \<longleftrightarrow> y = TrimSpace st \<and> IsValidStatus y"
  "currentRequestAuth ctx = Inr a \<longleftrightarrow> ctx_auth ctx = Some a"
  by (auto simp: normalizeInputRoleKey_def normalizeInputStatus_def currentRequestAuth_def Let_def split: option.split)

lemma Update_check_spec:
  "triple (at U T n) (UserService_Update_check s ctx i req)
     (\<lambda>(before, new) db. (\<exists>actor old. ctx_auth ctx = Some actor \<and> find (\<lambda>u. user_ID u = i) U = Some old \<and>
        allowed_update actor U old new \<and> user_RoleKey new = TrimSpace (uur_RoleKey req) \<and>
        user_Status new = TrimSpace (uur_Status req)) \<and> at U T n db)
     (\<lambda>_. at U T n)"
  unfolding UserService_Update_check_def user_reads Let_def
  by (intro acct) (auto simp: normalizeInput_Inr allowed_update_def)

lemma Update_spec:
  "triple (at U T n) (UserService_Update s ctx i req)
     (\<lambda>_ db. \<exists>actor old new. ctx_auth ctx = Some actor \<and> find (\<lambda>u. user_ID u = i) U = Some old \<and>
        allowed_update actor U old new \<and> user_RoleKey new = TrimSpace (uur_RoleKey req) \<and>
        user_Status new = TrimSpace (uur_Status req) \<and> at (replace_user n new U) T n db)
     (\<lambda>_. at U T n)"
  unfolding UserService_Update_def Let_def
proof (rule at_bind [OF Update_check_spec], goal_cases)
  case (2 x)
  obtain before new where x: "x = (before, new)" by force
  show ?case
    unfolding x prod.case by (rule triple_pure) (intro acct; auto simp: replace_user_def)
qed (intro acct; simp)

lemma user_created_fields [simp]:
  "user_ID (user_setID i u) = i" "user_Username (user_setID i u) = user_Username u"
  "user_RoleKey (user_setID i u) = user_RoleKey u" "user_Status (user_setID i u) = user_Status u"
  "user_Username (user_stamp n u) = user_Username u" "user_RoleKey (user_stamp n u) = user_RoleKey u"
  "user_Status (user_stamp n u) = user_Status u"
  by (simp_all add: user_setID_def user_stamp_def)

lemma Create_spec:
  "triple (at U T n) (UserService_Create s ctx req)
     (\<lambda>_ db. \<exists>actor u. ctx_auth ctx = Some actor \<and> CanAssignRole (auth_RoleKey actor) (user_RoleKey u) \<and>
        user_RoleKey u = TrimSpace (cur_RoleKey req) \<and> user_Username u = cur_Username req \<and>
        user_Status u = StatusActive \<and> (\<forall>x \<in> set U. user_ID x \<noteq> user_ID u \<and> user_Username x \<noteq> user_Username u) \<and>
        at (U @ [u]) T n db)
     (\<lambda>_. at U T n)"
  unfolding UserService_Create_def user_reads Let_def
  by (intro acct) (auto simp: normalizeInput_Inr intro!: exI)

lemma ResetPassword_spec:
  "triple (at U T n) (ResetPassword s ctx i pw)
     (\<lambda>_ db. \<exists>u h. find (\<lambda>u. user_ID u = i) U = Some u \<and> us_Hash s pw = Inr h \<and>
        at (replace_user n (u\<lparr>user_PasswordHash := h\<rparr>) U) T n db)
     (\<lambda>_. at U T n)"
  unfolding ResetPassword_def user_reads Let_def
  by (intro acct) (auto simp: replace_user_def)

lemma RevokeTokens_spec:
  "triple (at U T n) (RevokeTokens s ctx i)
     (\<lambda>_ db. \<exists>u. find (\<lambda>u. user_ID u = i) U = Some u \<and>
        at (map (\<lambda>x. if user_ID x = i
               then x\<lparr>user_TokenVersion := wrap64 (user_TokenVersion u + 1), user_UpdatedAt := n\<rparr> else x) U) T n db)
     (\<lambda>_. at U T n)"
  unfolding RevokeTokens_def user_reads Let_def
  by (intro acct) auto


section \<open>The last super administrator\<close>

definition users_ok :: "User list \<Rightarrow> bool" where
  "users_ok U \<longleftrightarrow> distinct (map user_ID U) \<and> active_admins U \<noteq> []"

lemma active_admins_set: "u \<in> set (active_admins U) \<longleftrightarrow>
    u \<in> set U \<and> user_Status u = StatusActive \<and> user_RoleKey u = RoleSuperAdmin"
  by (auto simp: active_admins_def)

lemma replace_user_ID: "map user_ID (replace_user n u U) = map user_ID U"
  by (simp add: replace_user_def user_merge_def)

lemma replace_user_other: "x \<in> set U \<Longrightarrow> user_ID x \<noteq> user_ID u \<Longrightarrow> x \<in> set (replace_user n u U)"
  by (auto simp: replace_user_def image_iff intro!: bexI [of _ x])

lemma replace_user_self: "x \<in> set U \<Longrightarrow> user_ID x = user_ID u \<Longrightarrow> user_merge n x u \<in> set (replace_user n u U)"
  by (auto simp: replace_user_def)

lemma user_merge_fields [simp]:
  "user_ID (user_merge n x u) = user_ID x" "user_RoleKey (user_merge n x u) = user_RoleKey u"
  "user_Status (user_merge n x u) = user_Status u" "user_TokenVersion (user_merge n x u) = user_TokenVersion u"
  by (simp_all add: user_merge_def)

lemma find_SomeD: "find p xs = Some x \<Longrightarrow> x \<in> set xs \<and> p x"
  by (induction xs) (auto split: if_splits)

lemma update_keeps_admin:
  assumes ok: "users_ok U" and old: "old \<in> set U" and up: "allowed_update actor U old new"
  shows "users_ok (replace_user n new U)"
proof -
  have ids: "user_ID new = user_ID old" and st: "user_Status new = StatusActive \<or> user_Status new = StatusLocked"
    using up by (auto simp: allowed_update_def IsValidStatus_def)
  have d: "distinct (map user_ID U)" and ne: "active_admins U \<noteq> []" using ok by (auto simp: users_ok_def)
  have "\<exists>u. u \<in> set (active_admins (replace_user n new U))"
  proof (cases "user_RoleKey new = RoleSuperAdmin \<and> user_Status new = StatusActive")
    case True
    then show ?thesis using replace_user_self [OF old ids [symmetric], of n]
      by (intro exI [of _ "user_merge n old new"]) (simp add: active_admins_set)
  next
    case False
    have "\<exists>u \<in> set (active_admins U). u \<noteq> old"
    proof (cases "old \<in> set (active_admins U)")
      case True
      then have "length (active_admins U) \<noteq> 1" using up st False by (auto simp: allowed_update_def active_admins_set)
      moreover have "distinct (active_admins U)" using d by (auto simp: active_admins_def distinct_map)
      ultimately have "card (set (active_admins U)) \<noteq> 1" by (simp add: distinct_card)
      then have "set (active_admins U) \<noteq> {old}" by (metis is_singletonI is_singleton_altdef)
      then show ?thesis using True by blast
    next
      case False
      then show ?thesis using ne by (metis list.set_sel(1))
    qed
    then obtain u where u: "u \<in> set (active_admins U)" "u \<noteq> old" by blast
    then have "user_ID u \<noteq> user_ID new" using key_unique [OF d old, of u] ids by (auto simp: active_admins_set)
    then show ?thesis using u replace_user_other [of u U new n] by (auto simp: active_admins_set)
  qed
  then show ?thesis using d replace_user_ID [of n new U] by (auto simp: users_ok_def)
qed

lemma users_ok_map:
  assumes "users_ok U"
    and "\<And>x. x \<in> set U \<Longrightarrow> user_ID (f x) = user_ID x \<and> user_Status (f x) = user_Status x \<and> user_RoleKey (f x) = user_RoleKey x"
  shows "users_ok (map f U)"
proof -
  have "map user_ID (map f U) = map user_ID U" using assms(2) by simp
  then have "distinct (map user_ID (map f U))" using assms(1) by (simp only: users_ok_def)
  moreover obtain u where "u \<in> set (active_admins U)" using assms(1) by (cases "active_admins U") (auto simp: users_ok_def)
  then have "f u \<in> set (active_admins (map f U))" using assms(2) by (auto simp: active_admins_set)
  then have "active_admins (map f U) \<noteq> []" by auto
  ultimately show ?thesis by (simp only: users_ok_def simp_thms)
qed

text \<open>
  Requests for user administration, one after the other and under any failing statements,
  mixed with anything that leaves the users alone.
\<close>

inductive account_step :: "UserService \<Rightarrow> DB \<Rightarrow> DB \<Rightarrow> bool" for s where
  create: "account_step s db (snd (UserService_Create s ctx req db))"
| update: "account_step s db (snd (UserService_Update s ctx i ureq db))"
| reset: "account_step s db (snd (ResetPassword s ctx i pw db))"
| revoke: "account_step s db (snd (RevokeTokens s ctx i db))"
| other: "db_users db' = db_users db \<Longrightarrow> account_step s db db'"

lemma at_post:
  assumes "triple (at U T n) m Q R" "at U T n db"
  shows "(\<exists>x. Q x (snd (m db))) \<or> (\<exists>e. R e (snd (m db)))"
  using assms unfolding triple_def by (cases "m db"; cases "fst (m db)") fastforce+

lemma account_step_users_ok:
  assumes "account_step s db db'" "users_ok (db_users db)"
  shows "users_ok (db_users db')"
  using assms(1)
proof cases
  case (create ctx req)
  let ?U = "db_users db"
  consider "db_users db' = ?U" | u where "db_users db' = ?U @ [u]" "\<forall>x \<in> set ?U. user_ID x \<noteq> user_ID u"
    using at_post [OF Create_spec [of _ _ _ s ctx req] at_self [of db]] create by (auto simp: at_def)
  then show ?thesis using assms(2) by cases (auto simp: users_ok_def active_admins_def)
next
  case (update ctx i req)
  let ?U = "db_users db"
  consider "db_users db' = ?U"
    | actor old new where "old \<in> set ?U" "allowed_update actor ?U old new" "db_users db' = replace_user (db_now db) new ?U"
    using at_post [OF Update_spec [of _ _ _ s ctx i req] at_self [of db]] update find_SomeD by (fastforce simp: at_def)
  then show ?thesis using assms(2) update_keeps_admin by cases auto
next
  case (reset ctx i pw)
  let ?U = "db_users db"
  consider "db_users db' = ?U" | u h where "u \<in> set ?U" "db_users db' = replace_user (db_now db) (u\<lparr>user_PasswordHash := h\<rparr>) ?U"
    using at_post [OF ResetPassword_spec [of _ _ _ s ctx i pw] at_self [of db]] reset find_SomeD by (fastforce simp: at_def)
  then show ?thesis
  proof cases
    case 2
    have "x = u" if "x \<in> set ?U" "user_ID x = user_ID u" for x
      using key_unique [of user_ID ?U] assms(2) 2(1) that by (auto simp: users_ok_def)
    then show ?thesis
      unfolding 2(2) replace_user_def using assms(2) by (intro users_ok_map) auto
  qed (use assms(2) in simp)
next
  case (revoke ctx i)
  let ?U = "db_users db"
  consider "db_users db' = ?U" | v where "db_users db' = map (\<lambda>x. if user_ID x = i
       then x\<lparr>user_TokenVersion := v, user_UpdatedAt := db_now db\<rparr> else x) ?U"
    using at_post [OF RevokeTokens_spec [of _ _ _ s ctx i] at_self [of db]] revoke by (auto simp: at_def)
  then show ?thesis using assms(2) by cases (auto intro: users_ok_map)
qed (use assms(2) in simp)


section \<open>Properties\<close>

text \<open>C7: User administration never removes the last active super administrator: starting with
  unique identifiers and at least one active super administrator, every sequence of create,
  update, password-reset and token-revocation requests by whatever actors, one after the other
  and under any failing statements, ends with at least one.\<close>

theorem last_super_admin_kept:
  assumes "(account_step s)\<^sup>*\<^sup>* db db'" and "distinct (map user_ID (db_users db))"
    and "\<exists>u \<in> set (db_users db). user_RoleKey u = RoleSuperAdmin \<and> user_Status u = StatusActive"
  shows "\<exists>u \<in> set (db_users db'). user_RoleKey u = RoleSuperAdmin \<and> user_Status u = StatusActive"
proof -
  have "users_ok (db_users db)"
    using assms(2,3) by (auto simp: users_ok_def active_admins_def filter_empty_conv)
  with assms(1) have "users_ok (db_users db')"
    by (induction rule: rtranclp_induct) (use account_step_users_ok in blast)+
  then show ?thesis by (auto simp: users_ok_def active_admins_def filter_empty_conv)
qed

text \<open>C10: An update of a user is authorised or has no effect. If the handler succeeds, the
  request was authenticated, the actor may manage the user's old role and assign the new one,
  the new role and status are valid and the token version has moved on exactly if one of
  them changed; only that user's row is replaced. If it reports an error, no user changed.\<close>

theorem user_update_authorized:
  assumes "UserService_Update s ctx i req db = (r, db')"
  shows "case r of
      Inl e \<Rightarrow> db_users db' = db_users db
    | Inr view \<Rightarrow> \<exists>actor old new. ctx_auth ctx = Some actor \<and> find (\<lambda>u. user_ID u = i) (db_users db) = Some old \<and>
        allowed_update actor (db_users db) old new \<and> user_RoleKey new = TrimSpace (uur_RoleKey req) \<and>
        user_Status new = TrimSpace (uur_Status req) \<and> db_users db' = replace_user (db_now db) new (db_users db)"
proof (cases r)
  case (Inl e)
  then show ?thesis using tripleD_err [OF Update_spec at_self assms [unfolded Inl]] by (simp add: at_def)
next
  case (Inr view)
  then show ?thesis using tripleD_ok [OF Update_spec at_self assms [unfolded Inr]] by (auto simp: at_def)
qed

subsection \<open>Instances\<close>

definition sample_user :: "nat \<Rightarrow> string \<Rightarrow> string \<Rightarrow> User" where
  "sample_user i name role =
     \<lparr>user_ID = i, user_Username = name, user_Email = [], user_PasswordHash = ''h'', user_RoleKey = role,
      user_Status = StatusActive, user_TokenVersion = 0, user_CreatedAt = 1, user_UpdatedAt = 1\<rparr>"

definition sample_users :: DB where
  "sample_users = emptyDB\<lparr>db_now := 9, db_users :=
     [sample_user 1 ''root'' RoleSuperAdmin, sample_user 2 ''boss'' RoleSuperAdmin, sample_user 3 ''guest'' RoleUser]\<rparr>"

definition sample_user_service :: UserService where
  "sample_user_service = \<lparr>us_Hash = (\<lambda>p. Inr (rev p)), us_rfc3339 = (\<lambda>_. []), us_auditRecorder = None\<rparr>"

definition as_root :: Context where
  "as_root = \<lparr>ctx_request = None, ctx_auth = Some \<lparr>auth_UserID = 1, auth_Username = ''root'',
     auth_RoleKey = RoleSuperAdmin, auth_Status = StatusActive, auth_Capabilities = []\<rparr>\<rparr>"

definition demote :: UpdateUserRequest where
  "demote = \<lparr>uur_Email = [], uur_RoleKey = RoleUser, uur_Status = StatusActive\<rparr>"

lemma sample_users_ok: "distinct (map user_ID (db_users sample_users))"
  "\<exists>u \<in> set (db_users sample_users). user_RoleKey u = RoleSuperAdmin \<and> user_Status u = StatusActive"
  by code_simp+

theorem last_super_admin_kept_witness:
  "let db1 = snd (UserService_Update sample_user_service as_root 2 demote sample_users);
       db2 = snd (UserService_Update sample_user_service as_root 1 demote db1)
   in map user_RoleKey (db_users db1) = [RoleSuperAdmin, RoleUser, RoleUser] \<and>
      fst (UserService_Update sample_user_service as_root 1 demote db1) = Inl ErrLastSuperAdminForbidden \<and>
      (\<exists>u \<in> set (db_users db2). user_RoleKey u = RoleSuperAdmin \<and> user_Status u = StatusActive)"
proof -
  let ?db1 = "snd (UserService_Update sample_user_service as_root 2 demote sample_users)"
  let ?db2 = "snd (UserService_Update sample_user_service as_root 1 demote ?db1)"
  have "(account_step sample_user_service)\<^sup>*\<^sup>* sample_users ?db2"
    by (rule rtranclp.rtrancl_into_rtrancl [OF r_into_rtranclp]) (rule account_step.update)+
  from last_super_admin_kept [OF this sample_users_ok]
  have "\<exists>u \<in> set (db_users ?db2). user_RoleKey u = RoleSuperAdmin \<and> user_Status u = StatusActive" .
  moreover have "map user_RoleKey (db_users ?db1) = [RoleSuperAdmin, RoleUser, RoleUser]"
    "fst (UserService_Update sample_user_service as_root 1 demote ?db1) = Inl ErrLastSuperAdminForbidden"
    by code_simp+
  ultimately show ?thesis unfolding Let_def by blast
qed

theorem user_update_authorized_witness:
  "\<exists>actor old new. ctx_auth as_root = Some actor \<and> allowed_update actor (db_users sample_users) old new \<and>
     db_users (snd (UserService_Update sample_user_service as_root 2 demote sample_users)) =
       replace_user 9 new (db_users sample_users)"
proof -
  obtain r db' where c: "UserService_Update sample_user_service as_root 2 demote sample_users = (r, db')" by force
  have "\<exists>v. fst (UserService_Update sample_user_service as_root 2 demote sample_users) = Inr v" "db_now sample_users = 9"
    by (rule exI [of _ "toUserAdminView sample_user_service ((sample_user 2 ''boss'' RoleSuperAdmin)\<lparr>user_RoleKey := RoleUser\<rparr>)"], code_simp) code_simp
  then obtain v where r: "r = Inr v" and now: "db_now sample_users = 9" using c by auto
  from user_update_authorized [OF c] obtain actor old new where
    "ctx_auth as_root = Some actor" "allowed_update actor (db_users sample_users) old new"
    "db_users db' = replace_user 9 new (db_users sample_users)"
    unfolding r sum.case now by blast
  then show ?thesis unfolding c snd_conv by blast
qed

text \<open>
  The count and the write are separate statements outside a transaction. Two administrators
  who demote each other at the same time both see a count of two, and no super administrator is
  left.
\<close>

lemma concurrent_demotion_leaves_no_admin:
  "let check = (\<lambda>i. fst (UserService_Update_check sample_user_service as_root i demote sample_users))
   in \<exists>b1 u1 b2 u2. check 1 = Inr (b1, u1) \<and> check 2 = Inr (b2, u2) \<and>
        active_admins (db_users (snd (user_Update u2 (snd (user_Update u1 sample_users))))) = []"
proof -
  let ?new = "\<lambda>u. u\<lparr>user_RoleKey := RoleUser, user_TokenVersion := 1\<rparr>"
  let ?u1 = "sample_user 1 ''root'' RoleSuperAdmin" and ?u2 = "sample_user 2 ''boss'' RoleSuperAdmin"
  have "fst (UserService_Update_check sample_user_service as_root 1 demote sample_users) = Inr (userAuditView ?u1, ?new ?u1)"
    "fst (UserService_Update_check sample_user_service as_root 2 demote sample_users) = Inr (userAuditView ?u2, ?new ?u2)"
    "active_admins (db_users (snd (user_Update (?new ?u2) (snd (user_Update (?new ?u1) sample_users))))) = []"
    by code_simp+
  then show ?thesis unfolding Let_def by blast
qed

end
