(* ===== verification/Sessions.thy ===== *)
theory Sessions
  imports Users Mounts
begin

text \<open>
  Sign-in and sessions: the refresh-token repository, the JWT service
  (\<^verbatim>\<open>jwt_token_service.go\<close>), the authentication service and the first-time set-up of
  \<^verbatim>\<open>setup_service.go\<close>, and the middlewares that admit a request. Signing and verifying tokens
  (the JWT package), SHA-256 and the password comparison (bcrypt) are fields of the service
  records; the random identifiers a call draws are its arguments. Times and durations count
  nanoseconds.
\<close>

section \<open>Refresh-token repository\<close>

definition tok_setID :: "nat \<Rightarrow> RefreshToken \<Rightarrow> RefreshToken" where
  "tok_setID i t = t\<lparr>tok_ID := i\<rparr>"

definition tok_stamp :: "gotime \<Rightarrow> RefreshToken \<Rightarrow> RefreshToken" where
  "tok_stamp now t =
     t\<lparr>tok_CreatedAt := (if tok_CreatedAt t = 0 then now else tok_CreatedAt t),
       tok_UpdatedAt := (if tok_UpdatedAt t = 0 then now else tok_UpdatedAt t)\<rparr>"

definition tok_clash :: "RefreshToken \<Rightarrow> RefreshToken \<Rightarrow> bool" where
  "tok_clash x y \<longleftrightarrow> tok_TokenHash x = tok_TokenHash y"

definition tok_Create :: "RefreshToken \<Rightarrow> (DB, RefreshToken) handler" where
  "tok_Create t db =
     insert_row ''refresh_tokens'' db_tokens db_tokens_update tok_ID tok_setID tok_clash
       (tok_stamp (db_now db) t) db"

definition FindByTokenHash :: "string \<Rightarrow> (DB, RefreshToken) handler" where
  "FindByTokenHash h = find_row db_tokens (\<lambda>t. tok_TokenHash t = h)"

definition RevokeByTokenHash :: "string \<Rightarrow> (DB, unit) handler" where
  "RevokeByTokenHash h =
     stmt (\<lambda>db.
       if \<forall>t \<in> set (db_tokens db). tok_TokenHash t \<noteq> h then (Inl ErrNotFound, db)
       else (Inr (), db_tokens_update (map (\<lambda>t. if tok_TokenHash t = h
               then t\<lparr>tok_RevokedAt := Some (db_now db), tok_UpdatedAt := db_now db\<rparr> else t)) db))"

section \<open>JSON web tokens\<close>

abbreviation "TokenTypeAccess \<equiv> ''access''"
abbreviation "TokenTypeRefresh \<equiv> ''refresh''"
abbreviation "ErrTokenExpired \<equiv> StdErr ''token is expired''"

record Claims =
  cl_UserID :: nat
  cl_RoleKey :: string
  cl_TokenVersion :: int
  cl_TokenType :: string
  cl_ExpiresAt :: gotime
  cl_IssuedAt :: gotime
  cl_NotBefore :: gotime
  cl_Subject :: string
  cl_ID :: string

text \<open>
  Of the JWT package: the signer, the decoder (which also gives the algorithm the header
  names), and the check of signature and times.
\<close>

record JWTTokenService =
  jwt_secret :: string
  jwt_accessTTL :: int
  jwt_refreshTTL :: int
  jwt_SignedString :: "string \<Rightarrow> Claims \<Rightarrow> string result"
  jwt_decode :: "string \<Rightarrow> (string \<times> Claims) result"
  jwt_verify :: "string \<Rightarrow> gotime \<Rightarrow> string \<Rightarrow> unit result"

definition issueToken ::
  "JWTTokenService \<Rightarrow> gotime \<Rightarrow> string \<Rightarrow> nat \<Rightarrow> string \<Rightarrow> int \<Rightarrow> string \<Rightarrow> int \<Rightarrow> string result" where
  "issueToken s now uuid userID roleKey tokenVersion tokenType ttl =
     jwt_SignedString s (jwt_secret s)
       \<lparr>cl_UserID = userID, cl_RoleKey = roleKey, cl_TokenVersion = tokenVersion, cl_TokenType = tokenType,
        cl_ExpiresAt = now + ttl, cl_IssuedAt = now, cl_NotBefore = now,
        cl_Subject = FormatUint userID, cl_ID = uuid\<rparr>"

definition IssueAccessToken :: "JWTTokenService \<Rightarrow> gotime \<Rightarrow> string \<Rightarrow> nat \<Rightarrow> string \<Rightarrow> int \<Rightarrow> string result" where
  "IssueAccessToken s now uuid userID roleKey tokenVersion =
     issueToken s now uuid userID roleKey tokenVersion TokenTypeAccess (jwt_accessTTL s)"

definition IssueRefreshToken :: "JWTTokenService \<Rightarrow> gotime \<Rightarrow> string \<Rightarrow> nat \<Rightarrow> string \<Rightarrow> int \<Rightarrow> string result" where
  "IssueRefreshToken s now uuid userID roleKey tokenVersion =
     issueToken s now uuid userID roleKey tokenVersion TokenTypeRefresh (jwt_refreshTTL s)"

definition validateToken :: "JWTTokenService \<Rightarrow> gotime \<Rightarrow> string \<Rightarrow> string \<Rightarrow> Claims result" where
  "validateToken s now raw expected =
     tryp (jwt_decode s raw) (\<lambda>(alg, claims).
       if alg \<noteq> ''HS256'' then Inl (ErrOther (''unexpected signing method: '' @ alg))
       else tryp (jwt_verify s (jwt_secret s) now raw) (\<lambda>_.
         if cl_TokenType claims \<noteq> expected then Inl (Sentinel ''unexpected token type'') else Inr claims))"

definition ValidateAccessToken :: "JWTTokenService \<Rightarrow> gotime \<Rightarrow> string \<Rightarrow> Claims result" where
  "ValidateAccessToken s now token = validateToken s now token TokenTypeAccess"

definition ValidateRefreshToken :: "JWTTokenService \<Rightarrow> gotime \<Rightarrow> string \<Rightarrow> Claims result" where
  "ValidateRefreshToken s now token = validateToken s now token TokenTypeRefresh"

section \<open>Authentication service\<close>

record UserSummary =
  sum_ID :: nat
  sum_Username :: string
  sum_Email :: string
  sum_RoleKey :: string
  sum_Status :: string
  sum_CreatedAt :: string

record TokenPair =
  tp_AccessToken :: string
  tp_RefreshToken :: string
  tp_ExpiresIn :: int
  tp_RefreshExpiresIn :: int
  tp_TokenType :: string

record AuthService =
  as_Compare :: "string \<Rightarrow> string \<Rightarrow> bool"
  as_tokens :: JWTTokenService
  as_sha256hex :: "string \<Rightarrow> string"
  as_rfc3339 :: "gotime \<Rightarrow> string"

definition toUserSummary :: "(gotime \<Rightarrow> string) \<Rightarrow> User \<Rightarrow> UserSummary" where
  "toUserSummary rfc3339 user =
     \<lparr>sum_ID = user_ID user, sum_Username = user_Username user, sum_Email = user_Email user,
      sum_RoleKey = user_RoleKey user, sum_Status = user_Status user,
      sum_CreatedAt = rfc3339 (user_CreatedAt user)\<rparr>"

text \<open>\<^verbatim>\<open>int(d.Seconds())\<close> for the whole-second lifetimes of the configuration.\<close>

definition whole_seconds :: "int \<Rightarrow> int" where
  "whole_seconds d = go_div d (10 ^ 9)"

definition issueAndStoreTokenPair ::
  "JWTTokenService \<Rightarrow> (string \<Rightarrow> string) \<Rightarrow> string \<times> string \<Rightarrow> User \<Rightarrow> (DB, TokenPair) handler" where
  "issueAndStoreTokenPair tokens hashToken uuids user =
     tryM (gets db_now) (\<lambda>now.
     tryM (lift (IssueAccessToken tokens now (fst uuids) (user_ID user) (user_RoleKey user) (user_TokenVersion user))) (\<lambda>accessToken.
     tryM (lift (IssueRefreshToken tokens now (snd uuids) (user_ID user) (user_RoleKey user) (user_TokenVersion user))) (\<lambda>refreshToken.
     tryM (tok_Create \<lparr>tok_ID = 0, tok_UserID = user_ID user, tok_TokenHash = hashToken refreshToken,
             tok_ExpiresAt = now + jwt_refreshTTL tokens, tok_RevokedAt = None,
             tok_CreatedAt = 0, tok_UpdatedAt = 0\<rparr>) (\<lambda>_.
     ret \<lparr>tp_AccessToken = accessToken, tp_RefreshToken = refreshToken,
          tp_ExpiresIn = whole_seconds (jwt_accessTTL tokens),
          tp_RefreshExpiresIn = whole_seconds (jwt_refreshTTL tokens), tp_TokenType = ''Bearer''\<rparr>))))"

definition Login :: "AuthService \<Rightarrow> string \<times> string \<Rightarrow> string \<Rightarrow> string \<Rightarrow> (DB, UserSummary \<times> TokenPair) handler" where
  "Login s uuids username password =
     if_err (user_FindByUsername username)
       (\<lambda>err. if errors_Is err ErrNotFound then throw ErrInvalidCredentials else throw err)
       (\<lambda>user.
          if user_Status user = StatusLocked then throw ErrAccountLocked
          else if \<not> as_Compare s (user_PasswordHash user) password then throw ErrInvalidCredentials
          else
            tryM (issueAndStoreTokenPair (as_tokens s) (as_sha256hex s) uuids user) (\<lambda>tokenPair.
              ret (toUserSummary (as_rfc3339 s) user, tokenPair)))"

definition Refresh :: "AuthService \<Rightarrow> string \<times> string \<Rightarrow> string \<Rightarrow> (DB, TokenPair) handler" where
  "Refresh s uuids refreshToken =
     tryM (gets db_now) (\<lambda>now.
     if_err (lift (ValidateRefreshToken (as_tokens s) now refreshToken)) (\<lambda>_. throw ErrRefreshTokenInvalid) (\<lambda>claims.
     if_err (FindByTokenHash (as_sha256hex s refreshToken))
       (\<lambda>err. if errors_Is err ErrNotFound then throw ErrRefreshTokenInvalid else throw err) (\<lambda>token.
     if tok_RevokedAt token \<noteq> None \<or> now > tok_ExpiresAt token then throw ErrRefreshTokenInvalid
     else
       tryM (user_FindByID (cl_UserID claims)) (\<lambda>user.
       if user_Status user = StatusLocked \<or> user_TokenVersion user \<noteq> cl_TokenVersion claims
       then throw ErrRefreshTokenInvalid
       else
         tryM (RevokeByTokenHash (as_sha256hex s refreshToken)) (\<lambda>_.
         issueAndStoreTokenPair (as_tokens s) (as_sha256hex s) uuids user)))))"

definition Logout :: "AuthService \<Rightarrow> string \<Rightarrow> (DB, unit) handler" where
  "Logout s refreshToken = RevokeByTokenHash (as_sha256hex s refreshToken)"

definition Me :: "AuthService \<Rightarrow> nat \<Rightarrow> (DB, UserSummary \<times> string list) handler" where
  "Me s userID =
     tryM (user_FindByID userID) (\<lambda>user.
     tryM (lift (ResolveCapabilities (user_RoleKey user))) (\<lambda>capabilities.
       ret (toUserSummary (as_rfc3339 s) user, capabilities)))"

section \<open>Middlewares\<close>

text \<open>Either the request is answered with a status and an error code, or it goes on with an identity.\<close>

datatype 'a admission = Abort nat string string | Next 'a

definition RequireAuth :: "JWTTokenService \<Rightarrow> string \<Rightarrow> DB \<Rightarrow> RequestAuth admission \<times> DB" where
  "RequireAuth tokens rawAuth db =
     (if rawAuth = [] \<or> \<not> HasPrefix rawAuth ''Bearer '' then (Abort 401 ''AUTH_TOKEN_MISSING'' ''missing bearer token'', db)
      else
        case ValidateAccessToken tokens (db_now db) (TrimSpace (TrimPrefix rawAuth ''Bearer '')) of
          Inl err \<Rightarrow>
            (if errors_Is err ErrTokenExpired then (Abort 401 ''AUTH_TOKEN_EXPIRED'' ''access token expired'', db)
             else (Abort 401 ''AUTH_TOKEN_INVALID'' ''invalid access token'', db))
        | Inr claims \<Rightarrow>
            (case user_FindByID (cl_UserID claims) db of
               (Inl _, db') \<Rightarrow> (Abort 401 ''AUTH_TOKEN_INVALID'' ''invalid access token'', db')
             | (Inr user, db') \<Rightarrow>
                 if user_TokenVersion user \<noteq> cl_TokenVersion claims
                 then (Abort 401 ''AUTH_TOKEN_INVALID'' ''token version mismatch'', db')
                 else if user_Status user = StatusLocked
                 then (Abort 403 ''AUTH_ACCOUNT_LOCKED'' ''account locked'', db')
                 else
                   case ResolveCapabilities (user_RoleKey user) of
                     Inl _ \<Rightarrow> (Abort 401 ''AUTH_TOKEN_INVALID'' ''invalid role_key'', db')
                   | Inr capabilities \<Rightarrow>
                       (Next \<lparr>auth_UserID = user_ID user, auth_Username = user_Username user,
                              auth_RoleKey = user_RoleKey user, auth_Status = user_Status user,
                              auth_Capabilities = capabilities\<rparr>, db')))"

definition RequireCapability :: "string \<Rightarrow> Context \<Rightarrow> unit admission" where
  "RequireCapability capability ctx =
     (case ctx_auth ctx of
        None \<Rightarrow> Abort 401 ''AUTH_TOKEN_INVALID'' ''missing auth context''
      | Some auth \<Rightarrow>
          if \<not> HasCapability (auth_Capabilities auth) capability
          then Abort 403 ''CAPABILITY_DENIED'' ''capability denied'' else Next ())"

definition RequireCapabilitiesForAction ::
  "Recorder option \<Rightarrow> string \<Rightarrow> string \<Rightarrow> string list \<Rightarrow> Context \<Rightarrow> DB \<Rightarrow> unit admission \<times> DB" where
  "RequireCapabilitiesForAction recorder resourceType action capabilities ctx db =
     (case ctx_auth ctx of
        None \<Rightarrow> (Abort 401 ''AUTH_TOKEN_INVALID'' ''missing auth context'', db)
      | Some auth \<Rightarrow>
          if \<exists>capability \<in> set capabilities. \<not> HasCapability (auth_Capabilities auth) capability
          then (Abort 403 ''CAPABILITY_DENIED'' ''capability denied'',
                snd (RecordBestEffort recorder ctx (event resourceType action ResultDenied ''CAPABILITY_DENIED'') db))
          else (Next (), db))"


section \<open>What the operations do to the tokens\<close>

definition revoke_hash :: "gotime \<Rightarrow> string \<Rightarrow> RefreshToken list \<Rightarrow> RefreshToken list" where
  "revoke_hash n h T = map (\<lambda>t. if tok_TokenHash t = h
     then t\<lparr>tok_RevokedAt := Some n, tok_UpdatedAt := n\<rparr> else t) T"

lemma at_now [acct]:
  "triple (at U T n) (f n) Q R \<Longrightarrow> triple (at U T n) (if_err (gets db_now) h f) Q R"
  by (auto simp: triple_def at_def handler_defs)

lemma at_find_token [acct]:
  assumes "\<And>e. triple (at U T n) (h e) Q R" and "\<And>x. find p T = Some x \<Longrightarrow> triple (at U T n) (f x) Q R"
  shows "triple (at U T n) (if_err (find_row db_tokens p) h f) Q R"
proof (rule at_find)
  show "triple (\<lambda>db. at U T n db \<and> find p (db_tokens db) = Some x) (f x) Q R" for x
  proof (cases "find p T = Some x")
    case True
    show ?thesis by (rule triple_pre [OF assms(2) [OF True]]) simp
  qed (auto simp: triple_def at_def)
qed (use assms in auto)

lemma at_revoke [acct]:
  assumes "\<And>e. triple (at U T n) (h e) Q R"
    and "\<And>x. \<exists>t \<in> set T. tok_TokenHash t = k \<Longrightarrow> triple (at U (revoke_hash n k T) n) (f x) Q R"
  shows "triple (at U T n) (if_err (RevokeByTokenHash k) h f) Q R"
proof (cases "\<exists>t \<in> set T. tok_TokenHash t = k")
  case True
  show ?thesis
    unfolding RevokeByTokenHash_def
    by (rule at_users_stmt [where U' = U and T' = "revoke_hash n k T"])
      (use assms True in \<open>auto simp: at_def revoke_hash_def\<close>)
next
  case False
  have "triple (at U T n) (RevokeByTokenHash k) (\<lambda>_ _. False) (\<lambda>_. at U T n)"
  proof (rule tripleI)
    fix s e s' assume a: "at U T n s" "RevokeByTokenHash k s = (Inl e, s')"
    from a(2) [unfolded RevokeByTokenHash_def] show "at U T n s'"
      by (cases rule: stmt_cases) (use a(1) at_same_tables in \<open>auto split: if_splits\<close>)
  next
    fix s x s' assume a: "at U T n s" "RevokeByTokenHash k s = (Inr x, s')"
    from a(2) [unfolded RevokeByTokenHash_def] show False
    proof (cases rule: stmt_cases)
      case (run db0)
      then have "at U T n db0" using a(1) at_same_tables by blast
      then show False using run(3) False by (auto simp: at_def split: if_splits)
    qed simp
  qed
  then show ?thesis
  proof (rule at_bind)
    show "triple (\<lambda>_. False) (f x) Q R" for x by (simp add: triple_def)
  qed (rule assms(1))
qed

lemma at_tok_Create [acct]:
  assumes "\<And>e. triple (at U T n) (h e) Q R"
    and "\<And>i. (\<forall>x \<in> set T. tok_TokenHash x \<noteq> tok_TokenHash t) \<Longrightarrow>
      triple (at U (T @ [tok_setID i (tok_stamp n t)]) n) (f (tok_setID i (tok_stamp n t))) Q R"
  shows "triple (at U T n) (if_err (tok_Create t) h f) Q R"
proof (rule at_bind)
  show "triple (at U T n) (tok_Create t)
      (\<lambda>x db. \<exists>i. x = tok_setID i (tok_stamp n t) \<and> (\<forall>y \<in> set T. tok_TokenHash y \<noteq> tok_TokenHash t) \<and>
         at U (T @ [x]) n db) (\<lambda>_. at U T n)"
  proof (rule tripleI)
    fix s e s' assume a: "at U T n s" "tok_Create t s = (Inl e, s')"
    from a(2) [unfolded tok_Create_def] table_query_tables(2) show "at U T n s'"
      by (cases rule: insert_row_cases) (use a(1) at_same_tables in auto)
  next
    fix s x s' assume a: "at U T n s" "tok_Create t s = (Inr x, s')"
    from a(2) [unfolded tok_Create_def] table_query_tables(2)
    show "\<exists>i. x = tok_setID i (tok_stamp n t) \<and> (\<forall>y \<in> set T. tok_TokenHash y \<noteq> tok_TokenHash t) \<and> at U (T @ [x]) n s'"
    proof (cases rule: insert_row_cases)
      case (inserted i db0)
      then show ?thesis
        using a(1) same_tables_fields(1,2,11) [OF inserted(2)]
        by (intro exI [of _ i]) (simp add: at_def tok_clash_def tok_setID_def tok_stamp_def)
    qed auto
  qed
  show "triple (\<lambda>db. \<exists>i. x = tok_setID i (tok_stamp n t) \<and> (\<forall>y \<in> set T. tok_TokenHash y \<noteq> tok_TokenHash t) \<and>
         at U (T @ [x]) n db) (f x) Q R" for x
    by (intro triple_ex triple_pure) (use assms(2) in simp)
qed (use assms in blast)

text \<open>The row a new pair of tokens leaves.\<close>

definition fresh_token :: "(string \<Rightarrow> string) \<Rightarrow> User \<Rightarrow> RefreshToken list \<Rightarrow> gotime \<Rightarrow> TokenPair \<Rightarrow> RefreshToken \<Rightarrow> bool" where
  "fresh_token sha user T expires pair t \<longleftrightarrow> tok_UserID t = user_ID user \<and>
     tok_TokenHash t = sha (tp_RefreshToken pair) \<and> tok_RevokedAt t = None \<and> tok_ExpiresAt t = expires \<and>
     (\<forall>x \<in> set T. tok_TokenHash x \<noteq> tok_TokenHash t)"

lemma tok_created_fields [simp]:
  "tok_UserID (tok_setID i t) = tok_UserID t" "tok_TokenHash (tok_setID i t) = tok_TokenHash t"
  "tok_RevokedAt (tok_setID i t) = tok_RevokedAt t" "tok_ExpiresAt (tok_setID i t) = tok_ExpiresAt t"
  "tok_UserID (tok_stamp n t) = tok_UserID t" "tok_TokenHash (tok_stamp n t) = tok_TokenHash t"
  "tok_RevokedAt (tok_stamp n t) = tok_RevokedAt t" "tok_ExpiresAt (tok_stamp n t) = tok_ExpiresAt t"
  by (simp_all add: tok_setID_def tok_stamp_def)

lemma issue_spec:
  "triple (at U T n) (issueAndStoreTokenPair j sha ids user)
     (\<lambda>pair db. \<exists>t. fresh_token sha user T (n + jwt_refreshTTL j) pair t \<and>
        IssueAccessToken j n (fst ids) (user_ID user) (user_RoleKey user) (user_TokenVersion user) = Inr (tp_AccessToken pair) \<and>
        IssueRefreshToken j n (snd ids) (user_ID user) (user_RoleKey user) (user_TokenVersion user) = Inr (tp_RefreshToken pair) \<and>
        at U (T @ [t]) n db)
     (\<lambda>_. at U T n)"
  unfolding issueAndStoreTokenPair_def
  by (intro acct) (auto simp: fresh_token_def intro!: exI)

text \<open>What a pair of tokens stands for.\<close>

definition issued :: "JWTTokenService \<Rightarrow> (string \<Rightarrow> string) \<Rightarrow> string \<times> string \<Rightarrow> User \<Rightarrow> RefreshToken list \<Rightarrow> gotime \<Rightarrow>
    TokenPair \<Rightarrow> RefreshToken \<Rightarrow> bool" where
  "issued j sha ids user T n pair t \<longleftrightarrow> fresh_token sha user T (n + jwt_refreshTTL j) pair t \<and>
     IssueAccessToken j n (fst ids) (user_ID user) (user_RoleKey user) (user_TokenVersion user) = Inr (tp_AccessToken pair) \<and>
     IssueRefreshToken j n (snd ids) (user_ID user) (user_RoleKey user) (user_TokenVersion user) = Inr (tp_RefreshToken pair)"

lemma at_issue_tail [acct]:
  assumes "\<And>pair t db. issued j sha ids user T n pair t \<Longrightarrow> at U (T @ [t]) n db \<Longrightarrow> Q pair db"
    and "\<And>e db. at U T n db \<Longrightarrow> R e db"
  shows "triple (at U T n) (issueAndStoreTokenPair j sha ids user) Q R"
proof (rule tripleI)
  fix s e s' assume "at U T n s" "issueAndStoreTokenPair j sha ids user s = (Inl e, s')"
  then show "R e s'" using assms(2) tripleD_err [OF issue_spec] by blast
next
  fix s x s' assume "at U T n s" "issueAndStoreTokenPair j sha ids user s = (Inr x, s')"
  from tripleD_ok [OF issue_spec this] show "Q x s'" using assms(1) by (auto simp: issued_def)
qed

lemma at_issue [acct]:
  assumes "\<And>e. triple (at U T n) (h e) Q R"
    and "\<And>pair t. issued j sha ids user T n pair t \<Longrightarrow> triple (at U (T @ [t]) n) (f pair) Q R"
  shows "triple (at U T n) (if_err (issueAndStoreTokenPair j sha ids user) h f) Q R"
proof (rule at_bind)
  show "triple (at U T n) (issueAndStoreTokenPair j sha ids user)
      (\<lambda>pair db. \<exists>t. issued j sha ids user T n pair t \<and> at U (T @ [t]) n db) (\<lambda>_. at U T n)"
    by (rule at_issue_tail) auto
  show "triple (\<lambda>db. \<exists>t. issued j sha ids user T n x t \<and> at U (T @ [t]) n db) (f x) Q R" for x
    by (intro triple_ex triple_pure) (use assms(2) in simp)
qed (rule assms(1))

lemma Login_spec:
  "triple (at U T n) (Login s ids name pw)
     (\<lambda>(summary, pair) db. \<exists>u t. find (\<lambda>u. user_Username u = name) U = Some u \<and> user_Status u \<noteq> StatusLocked \<and>
        as_Compare s (user_PasswordHash u) pw \<and> summary = toUserSummary (as_rfc3339 s) u \<and>
        issued (as_tokens s) (as_sha256hex s) ids u T n pair t \<and> at U (T @ [t]) n db)
     (\<lambda>_. at U T n)"
  unfolding Login_def user_reads by (intro acct) (auto intro!: exI)

lemma Refresh_spec:
  "triple (at U T n) (Refresh s ids raw)
     (\<lambda>pair db. \<exists>claims row u t. ValidateRefreshToken (as_tokens s) n raw = Inr claims \<and>
        find (\<lambda>t. tok_TokenHash t = as_sha256hex s raw) T = Some row \<and> tok_RevokedAt row = None \<and> n \<le> tok_ExpiresAt row \<and>
        find (\<lambda>u. user_ID u = cl_UserID claims) U = Some u \<and> user_Status u \<noteq> StatusLocked \<and>
        user_TokenVersion u = cl_TokenVersion claims \<and>
        issued (as_tokens s) (as_sha256hex s) ids u (revoke_hash n (as_sha256hex s raw) T) n pair t \<and>
        at U (revoke_hash n (as_sha256hex s raw) T @ [t]) n db)
     (\<lambda>_ db. at U T n db \<or> at U (revoke_hash n (as_sha256hex s raw) T) n db)"
  unfolding Refresh_def user_reads FindByTokenHash_def by (intro acct) (auto intro!: exI simp: not_less)

lemma Logout_spec:
  "triple (at U T n) (Logout s raw) (\<lambda>_. at U (revoke_hash n (as_sha256hex s raw) T) n) (\<lambda>_. at U T n)"
proof -
  have "Logout s raw = tryM (RevokeByTokenHash (as_sha256hex s raw)) ret"
    by (rule ext) (simp add: Logout_def handler_defs split: prod.split sum.split)
  then show ?thesis by (auto intro!: acct)
qed

section \<open>A refresh token is used at most once\<close>

text \<open>There is a row for the hash, and every such row is revoked.\<close>

definition revoked :: "string \<Rightarrow> RefreshToken list \<Rightarrow> bool" where
  "revoked h T \<longleftrightarrow> h \<in> set (map tok_TokenHash T) \<and> (\<forall>t \<in> set T. tok_TokenHash t = h \<longrightarrow> tok_RevokedAt t \<noteq> None)"

lemma revoke_hash_hashes [simp]: "map tok_TokenHash (revoke_hash n k T) = map tok_TokenHash T"
  by (simp add: revoke_hash_def)

lemma revoke_hash_revokes: "\<exists>t \<in> set T. tok_TokenHash t = h \<Longrightarrow> revoked h (revoke_hash n h T)"
  unfolding revoked_def revoke_hash_hashes by (auto simp: revoke_hash_def)

lemma revoke_hash_mono: "revoked h T \<Longrightarrow> revoked h (revoke_hash n k T)"
  unfolding revoked_def revoke_hash_hashes by (auto simp: revoke_hash_def)

lemma revoked_append: "revoked h T \<Longrightarrow> \<forall>x \<in> set T. tok_TokenHash x \<noteq> tok_TokenHash t \<Longrightarrow> revoked h (T @ [t])"
  by (auto simp: revoked_def)

text \<open>Requests to the authentication service, mixed with anything that leaves the tokens alone.\<close>

inductive session_step :: "AuthService \<Rightarrow> DB \<Rightarrow> DB \<Rightarrow> bool" for s where
  login: "session_step s db (snd (Login s ids name pw db))"
| refresh: "session_step s db (snd (Refresh s ids raw db))"
| logout: "session_step s db (snd (Logout s raw db))"
| other: "db_tokens db' = db_tokens db \<Longrightarrow> session_step s db db'"

lemma session_step_revoked:
  assumes "session_step s db db'" "revoked h (db_tokens db)"
  shows "revoked h (db_tokens db')"
  using assms(1)
proof cases
  case (login ids name pw)
  show ?thesis
    using at_post [OF Login_spec [of _ _ _ s ids name pw] at_self [of db]] assms(2) login revoked_append
    by (auto simp: at_def issued_def fresh_token_def)
next
  case (refresh ids raw)
  show ?thesis
    using at_post [OF Refresh_spec [of _ _ _ s ids raw] at_self [of db]] assms(2) refresh revoked_append revoke_hash_mono
    by (auto simp: at_def issued_def fresh_token_def)
next
  case (logout raw)
  show ?thesis
    using at_post [OF Logout_spec [of _ _ _ s raw] at_self [of db]] assms(2) logout revoke_hash_mono
    by (auto simp: at_def)
qed (use assms(2) in simp)

lemma find_row_exists: "find p xs = Some x \<Longrightarrow> \<exists>y \<in> set xs. p y"
  using find_SomeD by fastforce

lemma Refresh_revoked:
  assumes "revoked (as_sha256hex s raw) (db_tokens db)"
  shows "\<exists>e. fst (Refresh s ids raw db) = Inl e"
proof (cases "Refresh s ids raw db")
  case (Pair r db')
  show ?thesis
  proof (cases r)
    case (Inr x)
    from tripleD_ok [OF Refresh_spec at_self Pair [unfolded Inr]] assms show ?thesis
      by (auto simp: revoked_def dest!: find_SomeD)
  qed (use Pair in simp)
qed

text \<open>C8: A refresh token is used at most once. After a successful refresh with a token, every
  later refresh with it fails, whatever sign-ins, refreshes, sign-outs and other requests
  happen in between, and whatever statements fail.\<close>

theorem refresh_token_single_use:
  assumes "Refresh s ids raw db = (Inr pair, db1)" and "(session_step s)\<^sup>*\<^sup>* db1 db2"
  shows "\<exists>e. fst (Refresh s ids' raw db2) = Inl e"
proof -
  have "revoked (as_sha256hex s raw) (db_tokens db1)"
  proof -
    from tripleD_ok [OF Refresh_spec at_self assms(1)] obtain row t where
      row: "find (\<lambda>t. tok_TokenHash t = as_sha256hex s raw) (db_tokens db) = Some row"
      and db1: "db_tokens db1 = revoke_hash (db_now db) (as_sha256hex s raw) (db_tokens db) @ [t]"
      and fresh: "\<forall>x \<in> set (revoke_hash (db_now db) (as_sha256hex s raw) (db_tokens db)). tok_TokenHash x \<noteq> tok_TokenHash t"
      by (auto simp: at_def issued_def fresh_token_def)
    show ?thesis
      unfolding db1 using revoke_hash_revokes [OF find_row_exists [OF row]] fresh by (rule revoked_append)
  qed
  with assms(2) have "revoked (as_sha256hex s raw) (db_tokens db2)"
    by (induction rule: rtranclp_induct) (use session_step_revoked in blast)+
  then show ?thesis by (rule Refresh_revoked)
qed


section \<open>Access ends with the account\<close>

text \<open>A user row that admits no session with the given token version.\<close>

definition shut :: "int \<Rightarrow> User \<Rightarrow> bool" where
  "shut v u \<longleftrightarrow> user_Status u = StatusLocked \<or> user_TokenVersion u \<noteq> v"

lemma Refresh_shut:
  assumes "ValidateRefreshToken (as_tokens s) (db_now db) raw = Inr claims"
    and "\<And>u. find (\<lambda>u. user_ID u = cl_UserID claims) (db_users db) = Some u \<Longrightarrow> shut (cl_TokenVersion claims) u"
  shows "\<exists>e. fst (Refresh s ids raw db) = Inl e"
proof (cases "Refresh s ids raw db")
  case (Pair r db')
  show ?thesis
  proof (cases r)
    case (Inr x)
    from tripleD_ok [OF Refresh_spec at_self Pair [unfolded Inr]] assms show ?thesis
      by (auto simp: shut_def)
  qed (use Pair in simp)
qed

lemma RequireAuth_shut:
  assumes "ValidateAccessToken j (db_now db) (TrimSpace (TrimPrefix h ''Bearer '')) = Inr claims"
    and "\<And>u. find (\<lambda>u. user_ID u = cl_UserID claims) (db_users db) = Some u \<Longrightarrow> shut (cl_TokenVersion claims) u"
  shows "\<exists>status code msg. fst (RequireAuth j h db) = Abort status code msg"
proof -
  obtain r db' where f: "user_FindByID (cl_UserID claims) db = (r, db')" by force
  have "shut (cl_TokenVersion claims) u" if "r = Inr u" for u
    using f [unfolded user_FindByID_def] table_query_tables(1)
    by (cases rule: find_row_cases) (use that assms(2) in auto)
  then show ?thesis using f assms(1) by (cases r) (auto simp: RequireAuth_def shut_def)
qed

lemma find_map_key:
  "find (\<lambda>u. user_ID u = i) U = Some u \<Longrightarrow> (\<And>x. user_ID (f x) = user_ID x) \<Longrightarrow>
   find (\<lambda>u. user_ID u = i) (map f U) = Some (f u)"
  by (induction U) (auto split: if_splits)

lemma wrap64_Suc_neq: "wrap64 (v + 1) \<noteq> v"
proof
  assume "wrap64 (v + 1) = v"
  then have "(v + 1 + 2 ^ 63) mod 2 ^ 64 = v + 2 ^ 63" unfolding wrap64_def by linarith
  then have "(v + 1 + 2 ^ 63) mod 2 ^ 64 = (v + 2 ^ 63) mod 2 ^ 64" by (metis mod_mod_trivial)
  then have "(2 :: int) ^ 64 dvd (v + 1 + 2 ^ 63) - (v + 2 ^ 63)" by (simp only: mod_eq_dvd_iff)
  then show False by simp
qed

text \<open>C9: Changing a user's role or status, or revoking the tokens, ends the user's sessions at
  once. After a successful update that changes one of them, or a successful revocation, no
  token that carries the token version the user had before is accepted: a refresh with it
  fails, and a request with it is turned away, whatever statements fail.\<close>

theorem privilege_change_ends_sessions:
  assumes "find (\<lambda>u. user_ID u = i) (db_users db) = Some old"
    and "UserService_Update us ctx i req db = (Inr view, db') \<and>
           (TrimSpace (uur_RoleKey req) \<noteq> user_RoleKey old \<or> TrimSpace (uur_Status req) \<noteq> user_Status old) \<or>
         RevokeTokens us ctx i db = (Inr x, db')"
    and "cl_UserID claims = i" and "cl_TokenVersion claims = user_TokenVersion old"
  shows "(ValidateRefreshToken (as_tokens s) (db_now db') raw = Inr claims \<longrightarrow> (\<exists>e. fst (Refresh s ids raw db') = Inl e)) \<and>
    (ValidateAccessToken j (db_now db') (TrimSpace (TrimPrefix h ''Bearer '')) = Inr claims \<longrightarrow>
       (\<exists>status code msg. fst (RequireAuth j h db') = Abort status code msg))"
proof -
  have "shut (user_TokenVersion old) u" if u: "find (\<lambda>u. user_ID u = i) (db_users db') = Some u" for u
    using assms(2)
  proof
    assume up: "UserService_Update us ctx i req db = (Inr view, db') \<and>
      (TrimSpace (uur_RoleKey req) \<noteq> user_RoleKey old \<or> TrimSpace (uur_Status req) \<noteq> user_Status old)"
    obtain actor new where new: "allowed_update actor (db_users db) old new" "user_RoleKey new = TrimSpace (uur_RoleKey req)"
      "user_Status new = TrimSpace (uur_Status req)" "db_users db' = replace_user (db_now db) new (db_users db)"
      using tripleD_ok [OF Update_spec at_self conjunct1 [OF up]] assms(1) by (auto simp: at_def)
    have "user_ID old = i" using find_SomeD [OF assms(1)] by simp
    then have "u = user_merge (db_now db) old new"
      using u new(4) find_map_key [OF assms(1), of "\<lambda>x. if user_ID x = user_ID new then user_merge (db_now db) x new else x"] new(1)
      by (simp add: replace_user_def allowed_update_def)
    then have "user_TokenVersion u = wrap64 (user_TokenVersion old + 1)"
      using new(1-3) up by (auto simp: allowed_update_def)
    then show ?thesis using wrap64_Suc_neq by (simp add: shut_def)
  next
    assume "RevokeTokens us ctx i db = (Inr x, db')"
    from tripleD_ok [OF RevokeTokens_spec at_self this] assms(1)
    have "db_users db' = map (\<lambda>x. if user_ID x = i then x\<lparr>user_TokenVersion := wrap64 (user_TokenVersion old + 1),
        user_UpdatedAt := db_now db\<rparr> else x) (db_users db)" by (auto simp: at_def)
    then have "user_TokenVersion u = wrap64 (user_TokenVersion old + 1)"
      using u find_SomeD [OF assms(1)]
        find_map_key [OF assms(1), of "\<lambda>x. if user_ID x = i then x\<lparr>user_TokenVersion := wrap64 (user_TokenVersion old + 1),
          user_UpdatedAt := db_now db\<rparr> else x"] by auto
    then show ?thesis using wrap64_Suc_neq by (simp add: shut_def)
  qed
  then show ?thesis using Refresh_shut RequireAuth_shut assms(3,4) by metis
qed


section \<open>A session goes on\<close>

text \<open>
  What the code relies on of the JWT package: signing succeeds, and a token the service signed
  is decoded to the claims it was signed with and verified until a second before it expires
  (the times in a token are whole seconds).
\<close>

definition jwt_law :: "JWTTokenService \<Rightarrow> bool" where
  "jwt_law j \<longleftrightarrow> (\<forall>c. \<exists>raw. jwt_SignedString j (jwt_secret j) c = Inr raw \<and>
     (\<exists>c'. jwt_decode j raw = Inr (''HS256'', c') \<and> cl_UserID c' = cl_UserID c \<and>
           cl_TokenVersion c' = cl_TokenVersion c \<and> cl_TokenType c' = cl_TokenType c) \<and>
     (\<forall>now. cl_NotBefore c \<le> now \<and> now + 10 ^ 9 \<le> cl_ExpiresAt c \<longrightarrow> jwt_verify j (jwt_secret j) now raw = Inr ()))"

lemma jwt_law_refresh:
  assumes "jwt_law j" "IssueRefreshToken j n uuid i role v = Inr raw" "n \<le> now" "now + 10 ^ 9 \<le> n + jwt_refreshTTL j"
  obtains c where "ValidateRefreshToken j now raw = Inr c" "cl_UserID c = i" "cl_TokenVersion c = v"
proof -
  let ?c = "\<lparr>cl_UserID = i, cl_RoleKey = role, cl_TokenVersion = v, cl_TokenType = TokenTypeRefresh,
        cl_ExpiresAt = n + jwt_refreshTTL j, cl_IssuedAt = n, cl_NotBefore = n,
        cl_Subject = FormatUint i, cl_ID = uuid\<rparr>"
  obtain c' where "jwt_decode j raw = Inr (''HS256'', c')" "cl_UserID c' = i" "cl_TokenVersion c' = v"
    "cl_TokenType c' = TokenTypeRefresh" "jwt_verify j (jwt_secret j) now raw = Inr ()"
    using assms unfolding jwt_law_def IssueRefreshToken_def issueToken_def by (auto dest!: spec [of _ ?c])
  then show thesis using that [of c'] by (simp add: ValidateRefreshToken_def validateToken_def)
qed

lemma issue_total:
  assumes "jwt_law j" "db_faults db = []"
    and "\<And>raw. IssueRefreshToken j (db_now db) (snd ids) (user_ID u) (user_RoleKey u) (user_TokenVersion u) = Inr raw \<Longrightarrow>
      sha raw \<notin> set (map tok_TokenHash (db_tokens db))"
    and "\<forall>t \<in> set (db_tokens db). tok_ID t \<le> db_seq db ''refresh_tokens''"
  shows "\<exists>pair db'. issueAndStoreTokenPair j sha ids u db = (Inr pair, db')"
proof -
  have sign: "\<exists>raw. jwt_SignedString j (jwt_secret j) c = Inr raw" for c using assms(1) by (auto simp: jwt_law_def)
  obtain a where a: "IssueAccessToken j (db_now db) (fst ids) (user_ID u) (user_RoleKey u) (user_TokenVersion u) = Inr a"
    using sign by (auto simp: IssueAccessToken_def issueToken_def)
  obtain r where r: "IssueRefreshToken j (db_now db) (snd ids) (user_ID u) (user_RoleKey u) (user_TokenVersion u) = Inr r"
    using sign by (auto simp: IssueRefreshToken_def issueToken_def)
  let ?t = "\<lparr>tok_ID = 0, tok_UserID = user_ID u, tok_TokenHash = sha r, tok_ExpiresAt = db_now db + jwt_refreshTTL j,
     tok_RevokedAt = None, tok_CreatedAt = 0, tok_UpdatedAt = 0\<rparr>"
  have "\<exists>x db'. tok_Create ?t db = (Inr x, db')"
  proof -
    obtain x db' where c: "tok_Create ?t db = (x, db')" by force
    have "\<not> (\<exists>x \<in> set (db_tokens db). tok_ID x = Suc (db_seq db ''refresh_tokens'') \<or> tok_TokenHash x = sha r)"
      using assms(3) [OF r] assms(4) by (auto simp: image_iff)
    then have "\<exists>y. x = Inr y"
      using c assms(2) by (auto simp: tok_Create_def insert_row_def Let_def tok_clash_def tok_stamp_def tok_setID_def)
    then show ?thesis using c by auto
  qed
  then obtain x db' where "tok_Create ?t db = (Inr x, db')" by blast
  then show ?thesis using a r by (simp add: issueAndStoreTokenPair_def lift_def gets_def ret_def)
qed



subsection \<open>Instances\<close>

text \<open>A token service that writes the claims in unary.\<close>

definition unary :: "nat \<Rightarrow> string \<Rightarrow> string" where
  "unary k rest = replicate k CHR ''1'' @ CHR ''.'' # rest"

definition read_unary :: "string \<Rightarrow> nat \<times> string" where
  "read_unary s = (length (takeWhile (\<lambda>c. c = CHR ''1'') s), tl (dropWhile (\<lambda>c. c = CHR ''1'') s))"

lemma read_unary [simp]: "read_unary (unary k rest) = (k, rest)"
  unfolding read_unary_def unary_def by (induction k) simp_all

definition sample_jwt :: JWTTokenService where
  "sample_jwt = \<lparr>jwt_secret = ''k'', jwt_accessTTL = 60 * 10 ^ 9, jwt_refreshTTL = 3600 * 10 ^ 9,
     jwt_SignedString = (\<lambda>_ c. Inr (unary (cl_UserID c) (unary (if cl_TokenVersion c < 0 then 1 else 0)
        (unary (nat \<bar>cl_TokenVersion c\<bar>) (unary (length (cl_TokenType c)) (cl_TokenType c @ cl_ID c)))))),
     jwt_decode = (\<lambda>raw. case read_unary raw of (i, r1) \<Rightarrow> case read_unary r1 of (neg, r2) \<Rightarrow>
        case read_unary r2 of (v, r3) \<Rightarrow> case read_unary r3 of (l, r4) \<Rightarrow>
        Inr (''HS256'', \<lparr>cl_UserID = i, cl_RoleKey = [], cl_TokenVersion = (if neg = 1 then - int v else int v),
          cl_TokenType = take l r4, cl_ExpiresAt = 0, cl_IssuedAt = 0, cl_NotBefore = 0, cl_Subject = [], cl_ID = drop l r4\<rparr>)),
     jwt_verify = (\<lambda>_ _ _. Inr ())\<rparr>"

lemma sample_jwt_law: "jwt_law sample_jwt"
  by (simp add: jwt_law_def sample_jwt_def)

definition sample_auth :: AuthService where
  "sample_auth = \<lparr>as_Compare = (\<lambda>h p. h = p), as_tokens = sample_jwt, as_sha256hex = (\<lambda>s. s), as_rfc3339 = (\<lambda>_. [])\<rparr>"

definition signed_in :: "(UserSummary \<times> TokenPair) result \<times> DB" where
  "signed_in = Login sample_auth (''A'', ''B'') ''guest'' ''h'' sample_users"

definition guest_token :: string where
  "guest_token = unary 3 (unary 0 (unary 0 (unary 7 ''refreshB'')))"

lemma signed_in_token:
  "(case signed_in of (Inr (_, pair), _) \<Rightarrow> tp_RefreshToken pair = guest_token | _ \<Rightarrow> False)"
  "(case Refresh sample_auth (''C'', ''D'') guest_token (snd signed_in) of (Inr _, _) \<Rightarrow> True | _ \<Rightarrow> False)"
  by code_simp+

theorem refresh_token_single_use_witness:
  "let db1 = snd (Refresh sample_auth (''C'', ''D'') guest_token (snd signed_in))
   in \<exists>e. fst (Refresh sample_auth (''E'', ''F'') guest_token db1) = Inl e"
proof -
  obtain pair db1 where r: "Refresh sample_auth (''C'', ''D'') guest_token (snd signed_in) = (Inr pair, db1)"
    using signed_in_token(2) by (auto split: prod.splits sum.splits)
  from refresh_token_single_use [OF r rtranclp.rtrancl_refl] show ?thesis
    by (simp add: r)
qed

theorem privilege_change_ends_sessions_witness:
  "\<exists>e. fst (Refresh sample_auth (''C'', ''D'') guest_token
      (snd (RevokeTokens sample_user_service as_root 3 (snd signed_in)))) = Inl e"
proof -
  let ?db = "snd signed_in" and ?db' = "snd (RevokeTokens sample_user_service as_root 3 (snd signed_in))"
  let ?c = "\<lparr>cl_UserID = 3, cl_RoleKey = [], cl_TokenVersion = 0, cl_TokenType = ''refresh'', cl_ExpiresAt = 0,
    cl_IssuedAt = 0, cl_NotBefore = 0, cl_Subject = [], cl_ID = ''B''\<rparr>"
  have old: "find (\<lambda>u. user_ID u = 3) (db_users ?db) = Some (sample_user 3 ''guest'' RoleUser)" by code_simp
  have rev: "RevokeTokens sample_user_service as_root 3 ?db = (Inr (3, True), ?db')"
  proof -
    have "fst (RevokeTokens sample_user_service as_root 3 ?db) = Inr (3, True)" by code_simp
    then show ?thesis by (metis prod.collapse)
  qed
  have val: "ValidateRefreshToken (as_tokens sample_auth) (db_now ?db') guest_token = Inr ?c"
    and ver: "cl_TokenVersion ?c = user_TokenVersion (sample_user 3 ''guest'' RoleUser)" by code_simp+
  have "ValidateRefreshToken (as_tokens sample_auth) (db_now ?db') guest_token = Inr ?c \<longrightarrow>
      (\<exists>e. fst (Refresh sample_auth (''C'', ''D'') guest_token ?db') = Inl e)"
    using privilege_change_ends_sessions [OF old disjI2 [OF rev] _ ver] by simp
  with val show ?thesis by blast
qed


end
