(* ===== verification/Setup.thy ===== *)
theory Setup
  imports Sessions
begin

text \<open>
  First-time set-up and the system configuration: \<^verbatim>\<open>SetupService\<close> and \<^verbatim>\<open>SystemService\<close> of
  \<^verbatim>\<open>setup_service.go\<close>, the default local source of \<^verbatim>\<open>source_service.go\<close> and the
  configuration repository. Creating the directory of the default source is a call of the
  operating system and a field of the environment; the port that synchronises the mount of a
  source is an optional argument.
\<close>

section \<open>Configuration repository\<close>

definition config_Get :: "(DB, SystemConfig) handler" where
  "config_Get = stmt (\<lambda>db. case sort_key cfg_ID (db_config db) of [] \<Rightarrow> (Inl ErrNotFound, db) | c # _ \<Rightarrow> (Inr c, db))"

text \<open>
  \<^verbatim>\<open>INSERT ... ON CONFLICT (id) DO UPDATE\<close> of all columns but the key and the creation time;
  the entity gets the key and the times of the inserted row back.
\<close>

definition config_Upsert :: "SystemConfig \<Rightarrow> (DB, SystemConfig) handler" where
  "config_Upsert cfg =
     stmt (\<lambda>db.
       let now = db_now db;
           model = cfg\<lparr>cfg_ID := (if cfg_ID cfg = 0 then 1 else cfg_ID cfg),
             cfg_CreatedAt := (if cfg_CreatedAt cfg = 0 then now else cfg_CreatedAt cfg),
             cfg_UpdatedAt := (if cfg_UpdatedAt cfg = 0 then now else cfg_UpdatedAt cfg)\<rparr>
       in (Inr model, db_config_update (\<lambda>rows.
            if \<exists>c \<in> set rows. cfg_ID c = cfg_ID model
            then map (\<lambda>c. if cfg_ID c = cfg_ID model
                   then model\<lparr>cfg_CreatedAt := cfg_CreatedAt c, cfg_UpdatedAt := now\<rparr> else c) rows
            else rows @ [model]) db))"

section \<open>Options and views\<close>

record SystemOptions =
  so_SiteName :: string
  so_MultiUserEnabled :: bool
  so_DefaultSourceID :: "nat option"
  so_MaxUploadSize :: int
  so_DefaultChunkSize :: int
  so_WebDAVEnabled :: bool
  so_WebDAVPrefix :: string
  so_Theme :: string
  so_Language :: string
  so_TimeZone :: string
  so_StorageDataDir :: string
  so_TempDir :: string

definition DefaultSystemOptions :: SystemOptions where
  "DefaultSystemOptions =
     \<lparr>so_SiteName = [CHR 0xE4, CHR 0xBA, CHR 0x91, CHR 0xE5, CHR 0x8C, CHR 0xA3],
      so_MultiUserEnabled = False, so_DefaultSourceID = None,
      so_MaxUploadSize = 10 * 1024 * 1024 * 1024, so_DefaultChunkSize = 5 * 1024 * 1024,
      so_WebDAVEnabled = True, so_WebDAVPrefix = ''/dav'', so_Theme = ''system'',
      so_Language = ''zh-CN'', so_TimeZone = ''Asia/Shanghai'',
      so_StorageDataDir = ''./data/storage'', so_TempDir = ''./data/temp''\<rparr>"

definition defaultSystemConfigEntity :: "SystemOptions \<Rightarrow> SystemConfig" where
  "defaultSystemConfigEntity options =
     \<lparr>cfg_ID = 1, cfg_SiteName = so_SiteName options, cfg_MultiUserEnabled = so_MultiUserEnabled options,
      cfg_DefaultSourceID = so_DefaultSourceID options, cfg_MaxUploadSize = so_MaxUploadSize options,
      cfg_DefaultChunkSize = so_DefaultChunkSize options, cfg_WebDAVEnabled = so_WebDAVEnabled options,
      cfg_WebDAVPrefix = so_WebDAVPrefix options, cfg_Theme = so_Theme options,
      cfg_Language = so_Language options, cfg_TimeZone = so_TimeZone options,
      cfg_CreatedAt = 0, cfg_UpdatedAt = 0\<rparr>"

record SystemConfigPublic =
  scp_SiteName :: string
  scp_MultiUserEnabled :: bool
  scp_DefaultSourceID :: "nat option"
  scp_MaxUploadSize :: int
  scp_DefaultChunkSize :: int
  scp_WebDAVEnabled :: bool
  scp_WebDAVPrefix :: string
  scp_Theme :: string
  scp_Language :: string
  scp_TimeZone :: string

text \<open>The update request has the fields of the public view.\<close>

type_synonym UpdateSystemConfigRequest = SystemConfigPublic

definition toSystemConfigPublic :: "SystemConfig \<Rightarrow> SystemConfigPublic" where
  "toSystemConfigPublic cfg =
     \<lparr>scp_SiteName = cfg_SiteName cfg, scp_MultiUserEnabled = cfg_MultiUserEnabled cfg,
      scp_DefaultSourceID = cfg_DefaultSourceID cfg, scp_MaxUploadSize = cfg_MaxUploadSize cfg,
      scp_DefaultChunkSize = cfg_DefaultChunkSize cfg, scp_WebDAVEnabled = cfg_WebDAVEnabled cfg,
      scp_WebDAVPrefix = cfg_WebDAVPrefix cfg, scp_Theme = cfg_Theme cfg,
      scp_Language = cfg_Language cfg, scp_TimeZone = cfg_TimeZone cfg\<rparr>"

text \<open>A pointer to an unsigned integer and a signed integer as JSON values.\<close>

definition payload_uint_ptr :: "nat option \<Rightarrow> payload_value" where
  "payload_uint_ptr p = (case p of None \<Rightarrow> PayloadNil | Some i \<Rightarrow> PayloadNumber (FormatUint i))"

definition payload_int :: "int \<Rightarrow> payload_value" where
  "payload_int i = PayloadNumber (if i < 0 then CHR ''-'' # FormatUint (nat (- i)) else FormatUint (nat i))"

definition systemConfigAuditView :: "SystemConfig \<Rightarrow> any_map" where
  "systemConfigAuditView cfg =
     [(''site_name'', PayloadString (cfg_SiteName cfg)),
      (''multi_user_enabled'', PayloadBool (cfg_MultiUserEnabled cfg)),
      (''default_source_id'', payload_uint_ptr (cfg_DefaultSourceID cfg)),
      (''max_upload_size'', payload_int (cfg_MaxUploadSize cfg)),
      (''default_chunk_size'', payload_int (cfg_DefaultChunkSize cfg)),
      (''webdav_enabled'', PayloadBool (cfg_WebDAVEnabled cfg)),
      (''webdav_prefix'', PayloadString (cfg_WebDAVPrefix cfg)),
      (''theme'', PayloadString (cfg_Theme cfg)),
      (''language'', PayloadString (cfg_Language cfg)),
      (''time_zone'', PayloadString (cfg_TimeZone cfg))]"

section \<open>System service\<close>

record SystemService =
  ss_options :: SystemOptions
  ss_auditRecorder :: "Recorder option"

definition GetConfig :: "SystemService \<Rightarrow> (DB, SystemConfigPublic) handler" where
  "GetConfig s =
     if_err config_Get
       (\<lambda>err. if errors_Is err ErrNotFound
              then ret (toSystemConfigPublic (defaultSystemConfigEntity (ss_options s))) else throw err)
       (\<lambda>cfg. ret (toSystemConfigPublic cfg))"

definition UpdateConfig :: "SystemService \<Rightarrow> Context \<Rightarrow> UpdateSystemConfigRequest \<Rightarrow> (DB, SystemConfigPublic) handler" where
  "UpdateConfig s ctx req =
     (let audit = (\<lambda>ev k. audited (ss_auditRecorder s) ctx ev k);
          failed = event ''system_config'' ''update'' ResultFailed ''INTERNAL_ERROR'';
          write = (\<lambda>current0.
            let before = systemConfigAuditView current0;
                current = current0\<lparr>cfg_SiteName := scp_SiteName req, cfg_MultiUserEnabled := scp_MultiUserEnabled req,
                  cfg_DefaultSourceID := scp_DefaultSourceID req, cfg_MaxUploadSize := scp_MaxUploadSize req,
                  cfg_DefaultChunkSize := scp_DefaultChunkSize req, cfg_WebDAVEnabled := scp_WebDAVEnabled req,
                  cfg_WebDAVPrefix := scp_WebDAVPrefix req, cfg_Theme := scp_Theme req,
                  cfg_Language := scp_Language req, cfg_TimeZone := scp_TimeZone req\<rparr>
            in if_err (config_Upsert current)
                 (\<lambda>err. audit (failed\<lparr>ev_Before := before\<rparr>) (throw err))
                 (\<lambda>stored. audit ((event ''system_config'' ''update'' ResultSuccess [])
                      \<lparr>ev_ResourceID := encodeUintID (cfg_ID stored), ev_Before := before,
                       ev_After := systemConfigAuditView stored\<rparr>)
                    (ret (toSystemConfigPublic stored))))
      in if_err config_Get
           (\<lambda>err. if \<not> errors_Is err ErrNotFound then audit failed (throw err)
                  else write (defaultSystemConfigEntity (ss_options s)))
           write)"

section \<open>Set-up service\<close>

definition src_setID :: "nat \<Rightarrow> StorageSource \<Rightarrow> StorageSource" where
  "src_setID i s = s\<lparr>src_ID := i\<rparr>"

definition src_stamp :: "gotime \<Rightarrow> StorageSource \<Rightarrow> StorageSource" where
  "src_stamp now s =
     s\<lparr>src_CreatedAt := (if src_CreatedAt s = 0 then now else src_CreatedAt s),
       src_UpdatedAt := (if src_UpdatedAt s = 0 then now else src_UpdatedAt s)\<rparr>"

text \<open>The unique indexes of the table: name, WebDAV slug and mount path.\<close>

definition src_clash :: "StorageSource \<Rightarrow> StorageSource \<Rightarrow> bool" where
  "src_clash x y \<longleftrightarrow> src_Name x = src_Name y \<or> src_WebDAVSlug x = src_WebDAVSlug y \<or> src_MountPath x = src_MountPath y"

text \<open>The row holds the server's normal form of the JSON text, the entity the text that was sent.\<close>

definition src_Create :: "StorageSource \<Rightarrow> (DB, StorageSource) handler" where
  "src_Create source db =
     tryM (with_jsonb (jsonObject (src_ConfigJSON source)) (\<lambda>canon.
       insert_row ''storage_sources'' db_sources db_sources_update src_ID src_setID src_clash
         (src_stamp (db_now db) (source\<lparr>src_ConfigJSON := canon\<rparr>)))) (\<lambda>row.
     ret (row\<lparr>src_ConfigJSON := jsonObject (src_ConfigJSON source)\<rparr>)) db"

definition src_ListEnabled :: "(DB, StorageSource list) handler" where
  "src_ListEnabled = select_rows (\<lambda>db. ListEnabled (db_sources db))"

text \<open>The operating system and the JSON encoder as the set-up uses them.\<close>

record SetupEnv =
  env_MkdirAll :: "string \<Rightarrow> unit result"
  env_json :: JSONCodec

definition marshalLocalSourceConfig :: "SetupEnv \<Rightarrow> string \<Rightarrow> string result" where
  "marshalLocalSourceConfig env basePath =
     json_Marshal (env_json env) [(''base_path'', PayloadString (path_Clean basePath))]"

definition ensureDefaultLocalSource :: "SetupEnv \<Rightarrow> SystemOptions \<Rightarrow> (DB, StorageSource) handler" where
  "ensureDefaultLocalSource env options =
     tryM src_ListEnabled (\<lambda>enabled.
       case enabled of
         source # _ \<Rightarrow> ret source
       | [] \<Rightarrow>
           let basePath = path_Join [so_StorageDataDir options, ''default'']
           in tryM (lift (env_MkdirAll env basePath)) (\<lambda>_.
              tryM (lift (marshalLocalSourceConfig env basePath)) (\<lambda>configJSON.
              tryM (gets db_now) (\<lambda>now.
              src_Create
                \<lparr>src_ID = 0,
                 src_Name = [CHR 0xE6, CHR 0x9C, CHR 0xAC, CHR 0xE5, CHR 0x9C, CHR 0xB0,
                             CHR 0xE5, CHR 0xAD, CHR 0x98, CHR 0xE5, CHR 0x82, CHR 0xA8],
                 src_DriverType = ''local'', src_Status = ''online'', src_IsEnabled = True,
                 src_IsWebDAVExposed = False, src_WebDAVReadOnly = True, src_WebDAVSlug = ''local'',
                 src_MountPath = ''/local'', src_RootPath = ''/'', src_SortOrder = 0,
                 src_ConfigJSON = configJSON, src_LastCheckedAt = Some now,
                 src_CreatedAt = 0, src_UpdatedAt = 0\<rparr>))))"

record SetupService =
  st_Hash :: "string \<Rightarrow> string result"
  st_tokens :: JWTTokenService
  st_sha256hex :: "string \<Rightarrow> string"
  st_rfc3339 :: "gotime \<Rightarrow> string"
  st_options :: SystemOptions
  st_env :: SetupEnv
  st_auditRecorder :: "Recorder option"

definition Setup_Status :: "(DB, bool \<times> bool \<times> bool) handler" where
  "Setup_Status =
     tryM user_Count (\<lambda>count.
       let hasSuperAdmin = count > 0 in ret (hasSuperAdmin, \<not> hasSuperAdmin, hasSuperAdmin))"

definition Init ::
  "SetupService \<Rightarrow> (StorageSource \<Rightarrow> (DB, unit) handler) option \<Rightarrow> Context \<Rightarrow> string \<times> string \<Rightarrow>
   string \<Rightarrow> string \<Rightarrow> string \<Rightarrow> (DB, UserSummary \<times> TokenPair) handler" where
  "Init s mountSyncer ctx uuids username password email =
     tryM user_Count (\<lambda>count.
     if count > 0 then throw ErrSetupAlreadyCompleted
     else
       tryM (lift (st_Hash s password)) (\<lambda>passwordHash.
       tryM (user_Create
           \<lparr>user_ID = 0, user_Username = username, user_Email = email, user_PasswordHash = passwordHash,
            user_RoleKey = RoleSuperAdmin, user_Status = StatusActive, user_TokenVersion = 0,
            user_CreatedAt = 0, user_UpdatedAt = 0\<rparr>) (\<lambda>user.
       tryM (ensureDefaultLocalSource (st_env s) (st_options s)) (\<lambda>defaultSource.
       if_err (case mountSyncer of None \<Rightarrow> ret () | Some sync \<Rightarrow> sync defaultSource)
         (\<lambda>err. throw (ErrJoin ErrMetadataVFSMountSyncFailed err)) (\<lambda>_.
       tryM (config_Upsert ((defaultSystemConfigEntity (st_options s))\<lparr>cfg_DefaultSourceID := Some (src_ID defaultSource)\<rparr>)) (\<lambda>_.
       tryM (issueAndStoreTokenPair (st_tokens s) (st_sha256hex s) uuids user) (\<lambda>tokenPair.
       audited (st_auditRecorder s) ctx
         ((event ''setup'' ''init'' ResultSuccess [])
           \<lparr>ev_ResourceID := encodeUintID (user_ID user),
            ev_After := [(''user'', PayloadMap (userAuditView user)),
                         (''default_source_id'', PayloadNumber (FormatUint (src_ID defaultSource)))]\<rparr>)
         (ret (toUserSummary (st_rfc3339 s) user, tokenPair)))))))))"


section \<open>Handlers that leave the accounts alone\<close>

definition keeps_accounts :: "(DB, 'a) handler \<Rightarrow> bool" where
  "keeps_accounts m \<longleftrightarrow> (\<forall>U T n. triple (at U T n) m (\<lambda>_. at U T n) (\<lambda>_. at U T n))"

lemma keeps_accountsI:
  assumes "\<And>db. db_users (snd (m db)) = db_users db \<and> db_tokens (snd (m db)) = db_tokens db \<and> db_now (snd (m db)) = db_now db"
  shows "keeps_accounts m"
  unfolding keeps_accounts_def
proof (intro allI tripleI)
  fix U T n s e s' assume "at U T n s" "m s = (Inl e, s')"
  then show "at U T n s'" using assms [of s] by (simp add: at_def)
next
  fix U T n s x s' assume "at U T n s" "m s = (Inr x, s')"
  then show "at U T n s'" using assms [of s] by (simp add: at_def)
qed

lemma at_keeps:
  assumes "keeps_accounts m" "\<And>e. triple (at U T n) (h e) Q R" "\<And>x. triple (at U T n) (f x) Q R"
  shows "triple (at U T n) (if_err m h f) Q R"
  using at_bind [of U T n m "\<lambda>_. at U T n" "\<lambda>_. at U T n"] assms by (auto simp: keeps_accounts_def)

lemma keeps_ret [intro, simp]: "keeps_accounts (ret x)"
  by (rule keeps_accountsI) (simp add: ret_def)

lemma keeps_lift [intro, simp]: "keeps_accounts (lift r)"
  by (rule keeps_accountsI) (simp add: lift_def)

lemma accounts_if_err:
  assumes "keeps_accounts m" "\<And>e. keeps_accounts (h e)" "\<And>x. keeps_accounts (f x)"
  shows "keeps_accounts (if_err m h f)"
  unfolding keeps_accounts_def
  by (intro allI at_keeps) (use assms in \<open>auto simp: keeps_accounts_def\<close>)

lemma accounts_stmt:
  assumes "\<And>db. db_users (snd (f db)) = db_users db \<and> db_tokens (snd (f db)) = db_tokens db \<and> db_now (snd (f db)) = db_now db"
  shows "keeps_accounts (stmt f)"
proof (rule keeps_accountsI)
  fix db
  obtain r db' where s: "stmt f db = (r, db')" by force
  then show "db_users (snd (stmt f db)) = db_users db \<and> db_tokens (snd (stmt f db)) = db_tokens db \<and>
      db_now (snd (stmt f db)) = db_now db"
  proof (cases rule: stmt_cases)
    case (run db0)
    then show ?thesis using s assms [of db0] same_tables_fields [OF run(1)] by simp
  qed (use s same_tables_fields in auto)
qed

lemma keeps_throw [intro, simp]: "keeps_accounts (throw e)"
  by (rule keeps_accountsI) (simp add: throw_def)

lemma keeps_config [intro, simp]: "keeps_accounts config_Get" "keeps_accounts (config_Upsert c)"
  unfolding config_Get_def config_Upsert_def by (intro accounts_stmt; simp add: Let_def split: list.split)+

lemma keeps_src_Create [intro, simp]: "keeps_accounts (src_Create source)"
proof (rule keeps_accountsI)
  fix db
  obtain r db' where s: "src_Create source db = (r, db')" by force
  let ?m = "with_jsonb (jsonObject (src_ConfigJSON source)) (\<lambda>canon.
       insert_row ''storage_sources'' db_sources db_sources_update src_ID src_setID src_clash
         (src_stamp (db_now db) (source\<lparr>src_ConfigJSON := canon\<rparr>)))"
  obtain r1 where m: "?m db = (r1, db')"
    using s by (cases "?m db"; cases "fst (?m db)") (auto simp: src_Create_def handler_defs)
  have "audit_only db db' \<or> (\<exists>S db0. same_tables db db0 \<and> db' = db_sources_update S db0)"
  proof (cases "db_jsonb db (jsonObject (src_ConfigJSON source))")
    case (Inl e)
    then have "stmt (throw e) db = (r1, db')" using m by (simp add: with_jsonb_def)
    then show ?thesis by (cases rule: stmt_cases) (auto simp: throw_def intro: same_tables_audit_only)
  next
    case (Inr canon)
    then have "insert_row ''storage_sources'' db_sources db_sources_update src_ID src_setID src_clash
         (src_stamp (db_now db) (source\<lparr>src_ConfigJSON := canon\<rparr>)) db = (r1, db')" using m by (simp add: with_jsonb_def)
    from this table_query_tables(3) show ?thesis
      by (cases rule: insert_row_cases) (auto intro: same_tables_audit_only)
  qed
  then show "db_users (snd (src_Create source db)) = db_users db \<and> db_tokens (snd (src_Create source db)) = db_tokens db \<and>
      db_now (snd (src_Create source db)) = db_now db"
    using s audit_only_fields same_tables_fields by auto
qed

lemma keeps_ensureDefault [intro, simp]: "keeps_accounts (ensureDefaultLocalSource env options)"
proof -
  have "keeps_accounts (stmt (gets q))" for q :: "DB \<Rightarrow> StorageSource list" by (rule accounts_stmt) (simp add: gets_def)
  then have "keeps_accounts src_ListEnabled" by (simp add: src_ListEnabled_def select_rows_def)
  moreover have "keeps_accounts (gets db_now)" by (rule keeps_accountsI) (simp add: gets_def)
  ultimately show ?thesis
    unfolding ensureDefaultLocalSource_def Let_def by (intro accounts_if_err) (auto intro!: accounts_if_err split: list.split)
qed

lemma at_Count [acct]:
  assumes "\<And>e. triple (at U T n) (h e) Q R" "triple (at U T n) (f (int (length U))) Q R"
  shows "triple (at U T n) (if_err user_Count h f) Q R"
proof (rule at_bind)
  show "triple (at U T n) user_Count (\<lambda>x db. x = int (length U) \<and> at U T n db) (\<lambda>_. at U T n)"
  proof (rule tripleI)
    fix s e s' assume a: "at U T n s" "user_Count s = (Inl e, s')"
    from a(2) [unfolded user_Count_def] show "at U T n s'"
      by (cases rule: stmt_cases) (use a(1) at_same_tables in \<open>auto simp: gets_def\<close>)
  next
    fix s x s' assume a: "at U T n s" "user_Count s = (Inr x, s')"
    from a(2) [unfolded user_Count_def] show "x = int (length U) \<and> at U T n s'"
      by (cases rule: stmt_cases) (use a(1) in \<open>auto simp: gets_def at_def same_tables_fields\<close>)
  qed
  show "triple (\<lambda>db. x = int (length U) \<and> at U T n db) (f x) Q R" for x
    by (rule triple_pure) (use assms(2) in simp)
qed (rule assms(1))

section \<open>Properties\<close>

lemma Init_spec:
  assumes sync: "\<forall>sync source. mountSyncer = Some sync \<longrightarrow> keeps_accounts (sync source)"
  shows "triple (at U T n) (Init s mountSyncer ctx ids name pw email)
     (\<lambda>_ db. U = [] \<and> (\<exists>u t. user_Username u = name \<and> user_RoleKey u = RoleSuperAdmin \<and> user_Status u = StatusActive \<and>
        st_Hash s pw = Inr (user_PasswordHash u) \<and> at [u] (T @ [t]) n db \<and> tok_UserID t = user_ID u))
     (\<lambda>_ db. at U T n db \<or> (U = [] \<and> (\<exists>u. user_RoleKey u = RoleSuperAdmin \<and> user_Status u = StatusActive \<and> at [u] T n db)))"
proof -
  have k: "keeps_accounts (case mountSyncer of None \<Rightarrow> ret () | Some sync \<Rightarrow> sync source)" for source
    using sync by (auto split: option.split)
  have pw: "user_PasswordHash (user_setID i u) = user_PasswordHash u" "user_PasswordHash (user_stamp n u) = user_PasswordHash u" for i n u
    by (simp_all add: user_setID_def user_stamp_def)
  show ?thesis
    unfolding Init_def
    by (intro acct at_keeps [OF keeps_ensureDefault] at_keeps [OF k] at_keeps [OF keeps_config(2)])
      (auto simp: issued_def fresh_token_def pw intro!: exI)
qed



lemma insort_key_map: "(\<And>x. k (f x) = k x) \<Longrightarrow> insort_key k (f x) (map f xs) = map f (insort_key k x xs)"
  by (induction xs) auto

lemma sort_key_map: "(\<And>x. k (f x) = k x) \<Longrightarrow> sort_key k (map f xs) = map f (sort_key k xs)"
  by (induction xs) (auto simp: insort_key_map)

lemma config_Get_cases:
  assumes "config_Get db = (r, db')"
  shows "same_tables db db' \<and> (case r of Inr c \<Rightarrow> \<exists>cs. sort_key cfg_ID (db_config db) = c # cs
     | Inl e \<Rightarrow> errors_Is e ErrNotFound \<longrightarrow> db_config db = [])"
  using assms unfolding config_Get_def
proof (cases rule: stmt_cases)
  case (run db0)
  have "db_config db = []" if "sort_key cfg_ID (db_config db) = []"
    using arg_cong [OF that, of length] by simp
  then show ?thesis
    using run(3) same_tables_fields(10) [OF run(1)] run(1) by (auto split: list.splits)
qed auto

lemma config_Upsert_cases:
  assumes "config_Upsert c db = (Inr m, db')"
  shows "toSystemConfigPublic m = toSystemConfigPublic c \<and> cfg_ID m = (if cfg_ID c = 0 then 1 else cfg_ID c) \<and>
     db_config db' = (if \<exists>x \<in> set (db_config db). cfg_ID x = cfg_ID m
       then map (\<lambda>x. if cfg_ID x = cfg_ID m then m\<lparr>cfg_CreatedAt := cfg_CreatedAt x, cfg_UpdatedAt := db_now db\<rparr> else x) (db_config db)
       else db_config db @ [m])"
  using assms unfolding config_Upsert_def
proof (cases rule: stmt_cases)
  case (run db0)
  then show ?thesis
    using same_tables_fields(10,11) [OF run(1)] by (auto simp: Let_def toSystemConfigPublic_def)
qed simp

lemma config_write_read:
  assumes "config_Upsert c db = (Inr m, db')" and "cfg_ID c \<noteq> 0"
    and "db_config db = [] \<or> (\<exists>old cs. sort_key cfg_ID (db_config db) = old # cs \<and> cfg_ID old = cfg_ID c)"
  shows "\<exists>x cs. sort_key cfg_ID (db_config db') = x # cs \<and> toSystemConfigPublic x = toSystemConfigPublic c"
proof -
  note up = config_Upsert_cases [OF assms(1)]
  from assms(3) show ?thesis
  proof
    assume "db_config db = []"
    then show ?thesis using up by auto
  next
    assume "\<exists>old cs. sort_key cfg_ID (db_config db) = old # cs \<and> cfg_ID old = cfg_ID c"
    then obtain old cs where old: "sort_key cfg_ID (db_config db) = old # cs" "cfg_ID old = cfg_ID m" using up assms(2) by auto
    then have "old \<in> set (db_config db)" by (metis list.set_intros(1) set_sort)
    then have "db_config db' = map (\<lambda>x. if cfg_ID x = cfg_ID m
        then m\<lparr>cfg_CreatedAt := cfg_CreatedAt x, cfg_UpdatedAt := db_now db\<rparr> else x) (db_config db)"
      using up old(2) by auto
    then have "sort_key cfg_ID (db_config db') = map (\<lambda>x. if cfg_ID x = cfg_ID m
        then m\<lparr>cfg_CreatedAt := cfg_CreatedAt x, cfg_UpdatedAt := db_now db\<rparr> else x) (old # cs)"
      using sort_key_map [of cfg_ID "\<lambda>x. if cfg_ID x = cfg_ID m then m\<lparr>cfg_CreatedAt := cfg_CreatedAt x, cfg_UpdatedAt := db_now db\<rparr> else x" "db_config db"] old(1)
      by simp
    then show ?thesis using old(2) up by (simp add: toSystemConfigPublic_def)
  qed
qed


lemma audited_keeps_config:
  assumes "audited r ctx ev (ret x) db = (y, db')"
  shows "y = Inr x \<and> db_config db' = db_config db"
proof -
  obtain z db1 where a: "recordServiceAudit r ctx ev db = (z, db1)" by force
  from recordServiceAudit_only [OF a] show ?thesis
    using assms a audit_only_fields(10) by (auto simp: ret_def)
qed

text \<open>The configuration that was written is the one that is read. If an update of the system
  configuration succeeds, it answers with the requested values, and a read without a failing
  statement returns exactly them.\<close>

lemma config_update_read_back:
  assumes "UpdateConfig s ctx req db = (Inr v, db')" and "db_faults db' = []"
    and "\<forall>c \<in> set (db_config db). cfg_ID c \<noteq> 0"
  shows "v = req \<and> GetConfig s db' = (Inr req, db')"
proof -
  obtain r1 db1 where g: "config_Get db = (r1, db1)" by force
  note get = config_Get_cases [OF g]
  let ?set = "\<lambda>c. c\<lparr>cfg_SiteName := scp_SiteName req, cfg_MultiUserEnabled := scp_MultiUserEnabled req,
                  cfg_DefaultSourceID := scp_DefaultSourceID req, cfg_MaxUploadSize := scp_MaxUploadSize req,
                  cfg_DefaultChunkSize := scp_DefaultChunkSize req, cfg_WebDAVEnabled := scp_WebDAVEnabled req,
                  cfg_WebDAVPrefix := scp_WebDAVPrefix req, cfg_Theme := scp_Theme req,
                  cfg_Language := scp_Language req, cfg_TimeZone := scp_TimeZone req\<rparr>"
  have pub: "toSystemConfigPublic (?set c) = req" for c by (simp add: toSystemConfigPublic_def)
  obtain c where c: "cfg_ID c \<noteq> 0" "db_config db = [] \<or> (\<exists>cs. sort_key cfg_ID (db_config db) = c # cs)"
    and start: "r1 = Inr c \<or> (\<exists>e. r1 = Inl e \<and> errors_Is e ErrNotFound \<and> c = defaultSystemConfigEntity (ss_options s))"
  proof (cases r1)
    case (Inl e)
    have "errors_Is e ErrNotFound"
    proof (rule ccontr)
      assume "\<not> errors_Is e ErrNotFound"
      then have "audited (ss_auditRecorder s) ctx (event ''system_config'' ''update'' ResultFailed ''INTERNAL_ERROR'') (throw e) db1 = (Inr v, db')"
        using assms(1) g Inl by (simp add: UpdateConfig_def Let_def)
      then show False by (rule notE [OF audited_throw_neq])
    qed
    then show thesis using that [of "defaultSystemConfigEntity (ss_options s)"] get Inl by (simp add: defaultSystemConfigEntity_def)
  next
    case (Inr c)
    then obtain cs where cs: "sort_key cfg_ID (db_config db) = c # cs" using get by auto
    then have "c \<in> set (db_config db)" by (metis list.set_intros(1) set_sort)
    then show thesis using that [of c] Inr cs assms(3) by auto
  qed
  obtain r2 db2 where u: "config_Upsert (?set c) db1 = (r2, db2)" by force
  have "\<exists>m ev. r2 = Inr m \<and> audited (ss_auditRecorder s) ctx ev (ret (toSystemConfigPublic m)) db2 = (Inr v, db')"
  proof (cases r2)
    case (Inl e)
    then have "\<exists>ev. audited (ss_auditRecorder s) ctx ev (throw e) db2 = (Inr v, db')"
      using assms(1) g start u by (auto simp: UpdateConfig_def Let_def)
    then obtain ev where "audited (ss_auditRecorder s) ctx ev (throw e) db2 = (Inr v, db')" by blast
    then show ?thesis by (rule notE [OF audited_throw_neq])
  next
    case (Inr m)
    then show ?thesis using assms(1) g start u by (auto simp: UpdateConfig_def Let_def)
  qed
  then obtain m ev where r2: "r2 = Inr m"
    and au: "audited (ss_auditRecorder s) ctx ev (ret (toSystemConfigPublic m)) db2 = (Inr v, db')" by blast
  have m: "r2 = Inr m" "v = toSystemConfigPublic m" "db_config db' = db_config db2"
    using r2 audited_keeps_config [OF au] by simp_all
  have "db_config db1 = [] \<or> (\<exists>old cs. sort_key cfg_ID (db_config db1) = old # cs \<and> cfg_ID old = cfg_ID (?set c))"
    using c(2) get same_tables_fields(10) [of db db1] by auto
  then obtain x cs where "sort_key cfg_ID (db_config db') = x # cs" "toSystemConfigPublic x = req"
    using config_write_read [OF u [unfolded m(1)]] c(1) m(3) pub by auto
  then have "GetConfig s db' = (Inr req, db')"
    using assms(2) by (simp add: GetConfig_def config_Get_def handler_defs)
  moreover have "v = req" using m(2) config_Upsert_cases [OF u [unfolded m(1)]] pub by simp
  ultimately show ?thesis by blast
qed

subsection \<open>Instances\<close>

definition sample_request :: UpdateSystemConfigRequest where
  "sample_request = (toSystemConfigPublic (defaultSystemConfigEntity DefaultSystemOptions))\<lparr>scp_Theme := ''dark''\<rparr>"

definition sample_system :: SystemService where
  "sample_system = \<lparr>ss_options = DefaultSystemOptions, ss_auditRecorder = None\<rparr>"

lemma config_update_read_back_witness:
  "GetConfig sample_system (snd (UpdateConfig sample_system as_root sample_request emptyDB)) =
     (Inr sample_request, snd (UpdateConfig sample_system as_root sample_request emptyDB))"
proof -
  let ?m = "UpdateConfig sample_system as_root sample_request emptyDB"
  have "fst ?m = Inr sample_request" "db_faults (snd ?m) = []" "\<forall>c \<in> set (db_config emptyDB). cfg_ID c \<noteq> 0" by code_simp+
  then show ?thesis using config_update_read_back [of sample_system as_root sample_request emptyDB sample_request "snd ?m"]
    by (metis prod.collapse)
qed

definition sample_setup :: SetupService where
  "sample_setup = \<lparr>st_Hash = (\<lambda>p. Inr (rev p)), st_tokens = sample_jwt, st_sha256hex = (\<lambda>s. s), st_rfc3339 = (\<lambda>_. []),
     st_options = DefaultSystemOptions, st_env = \<lparr>env_MkdirAll = (\<lambda>_. Inr ()), env_json =
       \<lparr>json_Marshal = (\<lambda>_. Inr ''{}''), json_Valid = (\<lambda>_. True), json_Unmarshal = (\<lambda>_. Inr [])\<rparr>\<rparr>,
     st_auditRecorder = None\<rparr>"

abbreviation sample_init :: "DB \<Rightarrow> (UserSummary \<times> TokenPair) result \<times> DB" where
  "sample_init \<equiv> Init sample_setup None as_root (''A'', ''B'') ''root'' ''secret'' []"


text \<open>
  The steps of the set-up are not one transaction: if the statement that stores the default
  source fails, the administrator exists, but a second attempt is refused, and there is neither
  a source nor a configuration.
\<close>

lemma failed_setup_cannot_be_repeated:
  "let db1 = snd (sample_init (emptyDB\<lparr>db_faults := [None, None, None, Some ''connection lost'']\<rparr>))
   in length (db_users db1) = 1 \<and> db_sources db1 = [] \<and> db_config db1 = [] \<and>
      fst (sample_init db1) = Inl ErrSetupAlreadyCompleted"
  by code_simp

end
