(* ===== verification/Host_Files.thy ===== *)
theory Host_Files
  imports Local_Paths Metadata_VFS
begin

text \<open>
  The machine the backend runs on: the database and a file system. A handler that also touches
  files is a handler on this state; database handlers are lifted to it. Every file operation
  consumes one entry of a fault list, and \<open>Some (msg, k)\<close> makes it fail, a write after \<open>k\<close> bytes.
  The file system maps cleaned paths to directories and files with contents and modification
  time. On top of it the helpers of \<^verbatim>\<open>local_storage_helpers.go\<close> that read and copy files and
  describe them as items, with MD5, time formats and the MIME table as parameters.
\<close>

section \<open>State\<close>

datatype fs_node = Directory gotime | Regular string gotime

type_synonym files = "string \<Rightarrow> fs_node option"

record Host =
  host_db :: DB
  host_fs :: files
  host_fs_faults :: "(string \<times> nat) option list"
  host_calls :: nat
  host_imports :: "(nat \<times> string \<times> fs_node option) list"

abbreviation host_now :: "Host \<Rightarrow> gotime" where
  "host_now h \<equiv> db_now (host_db h)"

definition onDB :: "(DB, 'a) handler \<Rightarrow> (Host, 'a) handler" where
  "onDB m h = (case m (host_db h) of (r, db') \<Rightarrow> (r, h\<lparr>host_db := db'\<rparr>))"

section \<open>Operations of the file system\<close>

text \<open>\<open>failed k\<close> is the effect an operation has although it fails.\<close>

definition fs_op :: "(nat \<Rightarrow> Host \<Rightarrow> Host) \<Rightarrow> (Host, 'a) handler \<Rightarrow> (Host, 'a) handler" where
  "fs_op failed f h =
     (case host_fs_faults h of
        [] \<Rightarrow> f h
      | None # fs \<Rightarrow> f (h\<lparr>host_fs_faults := fs\<rparr>)
      | Some (msg, k) # fs \<Rightarrow> (Inl (ErrOther msg), failed k (h\<lparr>host_fs_faults := fs\<rparr>)))"

abbreviation fs_query :: "(Host, 'a) handler \<Rightarrow> (Host, 'a) handler" where
  "fs_query \<equiv> fs_op (\<lambda>_ h. h)"

definition set_node :: "string \<Rightarrow> fs_node option \<Rightarrow> Host \<Rightarrow> Host" where
  "set_node p x h = h\<lparr>host_fs := (host_fs h)(p := x)\<rparr>"

definition is_dir_at :: "files \<Rightarrow> string \<Rightarrow> bool" where
  "is_dir_at fs p \<longleftrightarrow> p = ''/'' \<or> p = ''.'' \<or> (case fs p of Some (Directory _) \<Rightarrow> True | _ \<Rightarrow> False)"

definition os_Stat :: "string \<Rightarrow> (Host, fs_node) handler" where
  "os_Stat p = fs_query (\<lambda>h. case host_fs h p of None \<Rightarrow> (Inl ErrNotExist, h) | Some x \<Rightarrow> (Inr x, h))"

definition read_node :: "fs_node option \<Rightarrow> string result" where
  "read_node x = (case x of None \<Rightarrow> Inl ErrNotExist
     | Some (Directory _) \<Rightarrow> Inl (ErrOther ''is a directory'') | Some (Regular bs _) \<Rightarrow> Inr bs)"

definition os_ReadFile :: "string \<Rightarrow> (Host, string) handler" where
  "os_ReadFile p = fs_query (\<lambda>h. (read_node (host_fs h p), h))"

text \<open>\<^verbatim>\<open>os.Create\<close>: an empty file, which replaces a file of that name.\<close>

definition os_Create :: "string \<Rightarrow> (Host, unit) handler" where
  "os_Create p = fs_query (\<lambda>h.
     if is_dir_at (host_fs h) p then (Inl (ErrOther ''is a directory''), h)
     else if \<not> is_dir_at (host_fs h) (path_Dir p) then (Inl ErrNotExist, h)
     else (Inr (), set_node p (Some (Regular [] (host_now h))) h))"

text \<open>A write at the end of an open file.\<close>

definition append_bytes :: "string \<Rightarrow> string \<Rightarrow> Host \<Rightarrow> Host" where
  "append_bytes p data h =
     (case host_fs h p of Some (Regular bs _) \<Rightarrow> set_node p (Some (Regular (bs @ data) (host_now h))) h | _ \<Rightarrow> h)"

definition file_Write :: "string \<Rightarrow> string \<Rightarrow> (Host, unit) handler" where
  "file_Write p data = fs_op (\<lambda>k. append_bytes p (take k data)) (modify (append_bytes p data))"

definition file_Close :: "(Host, unit) handler" where
  "file_Close = fs_query (ret ())"

definition os_WriteFile :: "string \<Rightarrow> string \<Rightarrow> (Host, unit) handler" where
  "os_WriteFile p data = tryM (os_Create p) (\<lambda>_. tryM (file_Write p data) (\<lambda>_. file_Close))"

text \<open>A directory and the directories above it.\<close>

definition dirs_of :: "string \<Rightarrow> string list" where
  "dirs_of p = filter (\<lambda>d. d \<noteq> []) (map (\<lambda>k. Join (take k (Split p CHR ''/'')) ''/'') [1 ..< Suc (length (Split p CHR ''/''))])"

definition os_MkdirAll :: "string \<Rightarrow> (Host, unit) handler" where
  "os_MkdirAll p = fs_query (\<lambda>h.
     if \<exists>d \<in> set (dirs_of p). \<not> is_dir_at (host_fs h) d \<and> host_fs h d \<noteq> None then (Inl (ErrOther ''not a directory''), h)
     else (Inr (), h\<lparr>host_fs := fold (\<lambda>d fs. if fs d = None then fs(d := Some (Directory (host_now h))) else fs)
                      (dirs_of p) (host_fs h)\<rparr>))"

definition below :: "string \<Rightarrow> string \<Rightarrow> bool" where
  "below p q \<longleftrightarrow> q = p \<or> prefix (if p = ''/'' then p else p @ ''/'') q"

definition os_RemoveAll :: "string \<Rightarrow> (Host, unit) handler" where
  "os_RemoveAll p = fs_query (modify (\<lambda>h. h\<lparr>host_fs := (\<lambda>q. if below p q then None else host_fs h q)\<rparr>))"

definition os_Chtimes :: "string \<Rightarrow> gotime \<Rightarrow> (Host, unit) handler" where
  "os_Chtimes p t = fs_query (modify (\<lambda>h.
     case host_fs h p of Some (Regular bs _) \<Rightarrow> set_node p (Some (Regular bs t)) h | _ \<Rightarrow> h))"

text \<open>\<^verbatim>\<open>_ = m()\<close>\<close>

definition ignored :: "('s, 'a) handler \<Rightarrow> ('s, unit) handler" where
  "ignored m = if_err m (\<lambda>_. ret ()) (\<lambda>_. ret ())"

section \<open>Helpers of local storage\<close>

record GoEnv =
  env_uni :: "string \<Rightarrow> string"
  env_mimeByExt :: "string \<Rightarrow> string"
  env_rfc3339 :: "gotime \<Rightarrow> string"
  env_rfc3339nano :: "gotime \<Rightarrow> string"
  env_md5hex :: "string \<Rightarrow> string"

definition hashFileMD5 :: "GoEnv \<Rightarrow> string \<Rightarrow> (Host, string) handler" where
  "hashFileMD5 env p = tryM (os_ReadFile p) (\<lambda>bs. ret (env_md5hex env bs))"

text \<open>
  The texts of the two errors of an \<open>ErrJoin\<close> are joined with a separator that no pattern
  below contains.
\<close>

fun error_mentions :: "(string \<Rightarrow> string) \<Rightarrow> app_error \<Rightarrow> string \<Rightarrow> bool" where
  "error_mentions uni (Sentinel t) pat = Contains (ToLower uni t) pat"
| "error_mentions uni (StdErr t) pat = Contains (ToLower uni t) pat"
| "error_mentions uni (ErrOther t) pat = Contains (ToLower uni t) pat"
| "error_mentions uni (ErrJoin a b) pat = (error_mentions uni a pat \<or> error_mentions uni b pat)"

definition isLocalReadOnlyError :: "GoEnv \<Rightarrow> app_error \<Rightarrow> bool" where
  "isLocalReadOnlyError env err \<longleftrightarrow> errors_Is err ErrPermission \<or>
     (\<exists>pat \<in> set [''read-only file system'', ''permission denied'', ''access is denied'', ''operation not permitted''].
        error_mentions (env_uni env) err pat)"

definition normalizeLocalWriteError :: "GoEnv \<Rightarrow> app_error \<Rightarrow> app_error" where
  "normalizeLocalWriteError env err = (if isLocalReadOnlyError env err then ErrSourceReadOnly else err)"

text \<open>
  \<^verbatim>\<open>probeLocalDirectoryWritable\<close> creates a temporary file and removes it: it succeeds when the
  three operations do, and leaves a file only when the removal fails.
\<close>

definition os_CreateTemp :: "string \<Rightarrow> string \<Rightarrow> (Host, string) handler" where
  "os_CreateTemp dir name = (let p = dir @ ''/'' @ name in tryM (os_Create p) (\<lambda>_. ret p))"

definition os_Remove :: "string \<Rightarrow> (Host, unit) handler" where
  "os_Remove p = fs_query (modify (set_node p None))"

definition probeLocalDirectoryWritable :: "string \<Rightarrow> string \<Rightarrow> (Host, bool) handler" where
  "probeLocalDirectoryWritable tempName dir =
     if_err (os_CreateTemp dir (''.yunxia-write-test-'' @ tempName)) (\<lambda>_. ret False) (\<lambda>name.
     if_err file_Close (\<lambda>_. tryM (ignored (os_Remove name)) (\<lambda>_. ret False)) (\<lambda>_.
     if_err (os_Remove name) (\<lambda>_. ret False) (\<lambda>_. ret True)))"

definition copyFile :: "string \<Rightarrow> string \<Rightarrow> (Host, unit) handler" where
  "copyFile srcPath dstPath =
     tryM (os_Stat srcPath) (\<lambda>src.
     tryM (os_MkdirAll (path_Dir dstPath)) (\<lambda>_.
     tryM (os_Create dstPath) (\<lambda>_.
     tryM (os_ReadFile srcPath) (\<lambda>bs.
     tryM (file_Write dstPath bs) (\<lambda>_.
       case src of Directory _ \<Rightarrow> ret () | Regular _ t \<Rightarrow> ignored (os_Chtimes dstPath t))))))"

definition node_IsDir :: "fs_node \<Rightarrow> bool" where
  "node_IsDir x = (case x of Directory _ \<Rightarrow> True | Regular _ _ \<Rightarrow> False)"

definition file_ModTime :: "fs_node \<Rightarrow> gotime" where
  "file_ModTime x = (case x of Directory t \<Rightarrow> t | Regular _ t \<Rightarrow> t)"

definition file_Size :: "fs_node \<Rightarrow> int" where
  "file_Size x = (case x of Directory _ \<Rightarrow> 0 | Regular bs _ \<Rightarrow> int (length bs))"

definition buildEtag :: "GoEnv \<Rightarrow> fs_node \<Rightarrow> string" where
  "buildEtag env info = ''mtime:'' @ env_rfc3339nano env (file_ModTime info)"

definition parent_of :: "string \<Rightarrow> string" where
  "parent_of virtualPath = (let parent = path_Dir virtualPath in if parent = ''.'' then ''/'' else parent)"

text \<open>The name of a \<^verbatim>\<open>FileInfo\<close> is the last element of the path it was read from.\<close>

definition buildFileItem :: "GoEnv \<Rightarrow> nat \<Rightarrow> string \<Rightarrow> string \<Rightarrow> fs_node \<Rightarrow> FileItem" where
  "buildFileItem env sourceID virtualPath name entry =
     (let isDir = node_IsDir entry;
          ext = ToLower (env_uni env) (filepath_Ext name);
          mime0 = env_mimeByExt env ext;
          mime = (if mime0 = [] then ''application/octet-stream'' else mime0);
          time = env_rfc3339 env (file_ModTime entry)
      in \<lparr>fi_Name = name, fi_Path = virtualPath, fi_ParentPath = parent_of virtualPath,
          fi_SourceID = sourceID, fi_IsDir = isDir, fi_Size = (if isDir then 0 else file_Size entry),
          fi_MimeType = (if isDir then ''inode/directory'' else mime),
          fi_Extension = (if isDir then [] else ext),
          fi_Etag = (if isDir then [] else buildEtag env entry),
          fi_ModifiedAt = time, fi_CreatedAt = time,
          fi_CanPreview = (\<not> isDir \<and> canPreviewMIME mime), fi_CanDownload = (\<not> isDir),
          fi_CanDelete = True, fi_ThumbnailURL = None\<rparr>)"

section \<open>Driver entries\<close>

record StorageEntry =
  se_Name :: string
  se_Path :: string
  se_IsDir :: bool
  se_Size :: int
  se_ETag :: string
  se_Checksum :: string
  se_MimeType :: string
  se_ModifiedAt :: gotime
  se_ProviderItemID :: string
  se_ProviderParentID :: string
  se_LocatorType :: string
  se_LocatorJSON :: string

text \<open>The zero time is 0; \<^verbatim>\<open>time.Unix(0, 0)\<close> is so many nanoseconds later.\<close>

definition unix_epoch :: gotime where
  "unix_epoch = 62135596800 * 10 ^ 9"

definition buildStorageEntryItem :: "GoEnv \<Rightarrow> nat \<Rightarrow> StorageEntry \<Rightarrow> FileItem" where
  "buildStorageEntryItem env sourceID entry =
     (let modifiedAt = (if se_ModifiedAt entry = 0 then unix_epoch else se_ModifiedAt entry);
          isDir = se_IsDir entry;
          ext = ToLower (env_uni env) (filepath_Ext (se_Name entry));
          mime0 = TrimSpace (se_MimeType entry);
          mime1 = (if mime0 = [] then env_mimeByExt env ext else mime0);
          mime = (if mime1 = [] then ''application/octet-stream'' else mime1);
          time = env_rfc3339 env modifiedAt
      in \<lparr>fi_Name = se_Name entry, fi_Path = se_Path entry, fi_ParentPath = parent_of (se_Path entry),
          fi_SourceID = sourceID, fi_IsDir = isDir, fi_Size = (if isDir then 0 else se_Size entry),
          fi_MimeType = (if isDir then ''inode/directory'' else mime),
          fi_Extension = (if isDir then [] else ext),
          fi_Etag = se_ETag entry, fi_ModifiedAt = time, fi_CreatedAt = time,
          fi_CanPreview = (\<not> isDir \<and> canPreviewMIME mime), fi_CanDownload = (\<not> isDir),
          fi_CanDelete = True, fi_ThumbnailURL = None\<rparr>)"

section \<open>What the operations leave\<close>

text \<open>\<open>quiet h h'\<close>: files, calls and database are the same.\<close>

definition quiet :: "Host \<Rightarrow> Host \<Rightarrow> bool" where
  "quiet h h' \<longleftrightarrow> h'\<lparr>host_fs_faults := []\<rparr> = h\<lparr>host_fs_faults := []\<rparr>"

lemma quietD:
  assumes "quiet h h'"
  shows "host_fs h' = host_fs h" "host_db h' = host_db h" "host_calls h' = host_calls h" "host_imports h' = host_imports h"
proof -
  have e: "h'\<lparr>host_fs_faults := []\<rparr> = h\<lparr>host_fs_faults := []\<rparr>" using assms by (simp add: quiet_def)
  show "host_fs h' = host_fs h" using arg_cong [OF e, of host_fs] by simp
  show "host_db h' = host_db h" using arg_cong [OF e, of host_db] by simp
  show "host_calls h' = host_calls h" using arg_cong [OF e, of host_calls] by simp
  show "host_imports h' = host_imports h" using arg_cong [OF e, of host_imports] by simp
qed

lemma quiet_refl [simp]: "quiet h h" by (simp add: quiet_def)

lemma quiet_faults [simp]: "quiet h (h'\<lparr>host_fs_faults := f\<rparr>) = quiet h h'" by (simp add: quiet_def)

lemma quiet_trans: "quiet a b \<Longrightarrow> quiet b c \<Longrightarrow> quiet a c" by (simp add: quiet_def)

lemma fs_op_cases:
  assumes "fs_op failed f h = (r, h')"
  obtains (fault) msg k h0 where "r = Inl (ErrOther msg)" "quiet h h0" "h' = failed k h0"
    | (run) h0 where "quiet h h0" "f h0 = (r, h')"
proof (cases "host_fs_faults h")
  case Nil
  then show thesis using assms run [of h] by (simp add: fs_op_def)
next
  case (Cons a fs)
  then show thesis
    using assms fault [of _ "h\<lparr>host_fs_faults := fs\<rparr>"] run [of "h\<lparr>host_fs_faults := fs\<rparr>"]
    by (auto simp: fs_op_def split: option.splits)
qed

lemma os_Stat_reads:
  assumes "os_Stat p h = (r, h')"
  shows "quiet h h'" "r = Inr x \<Longrightarrow> host_fs h p = Some x"
  using assms unfolding os_Stat_def
  by (cases rule: fs_op_cases; auto dest: quietD split: option.splits)+

lemma os_ReadFile_reads:
  assumes "os_ReadFile p h = (r, h')"
  shows "quiet h h'" "r = Inr bs \<Longrightarrow> read_node (host_fs h p) = Inr bs"
  using assms unfolding os_ReadFile_def
  by (cases rule: fs_op_cases; auto dest: quietD)+

end
