(* ===== verification/Metadata_Commit.thy ===== *)
theory Metadata_Commit
  imports Metadata_Mutations
begin

text \<open>
  The commit of a stored file into the metadata tree (\<^verbatim>\<open>metadata_vfs_commit_service.go\<close>) with
  the locator queries of the object repository: the missing directories of the virtual parent
  path are created from the root down, the data object is created or refreshed by its locator,
  and the file node is created or refreshed by its path, all in one transaction.
\<close>

section \<open>Data objects\<close>

abbreviation "StorageObjectStatusAvailable \<equiv> ''available''"

definition obj_setID :: "nat \<Rightarrow> StorageObject \<Rightarrow> StorageObject" where
  "obj_setID i x = x\<lparr>obj_ID := i\<rparr>"

text \<open>\<^verbatim>\<open>ON CONFLICT DO UPDATE\<close> with the columns the repository lists\<close>

definition obj_overwrite :: "StorageObject \<Rightarrow> StorageObject \<Rightarrow> StorageObject" where
  "obj_overwrite old new =
     old\<lparr>obj_Size := obj_Size new, obj_ETag := obj_ETag new, obj_Checksum := obj_Checksum new,
         obj_MimeType := obj_MimeType new, obj_Status := obj_Status new, obj_UpdatedAt := obj_UpdatedAt new\<rparr>"

definition obj_stamp :: "gotime \<Rightarrow> StorageObject \<Rightarrow> StorageObject" where
  "obj_stamp now x =
     x\<lparr>obj_CreatedAt := (if obj_CreatedAt x = 0 then now else obj_CreatedAt x),
       obj_UpdatedAt := (if obj_UpdatedAt x = 0 then now else obj_UpdatedAt x)\<rparr>"

definition obj_upsert :: "StorageObject \<Rightarrow> (DB, unit) handler" where
  "obj_upsert object = stmt (\<lambda>db.
     let new = obj_stamp (db_now db) object;
         i = (if obj_ID new = 0 then db_seq db ''storage_objects'' + 1 else obj_ID new);
         db1 = (if obj_ID new = 0 then db\<lparr>db_seq := (db_seq db)(''storage_objects'' := i)\<rparr> else db)
     in case find (\<lambda>x. obj_clash x new) (db_objects db) of
          Some old \<Rightarrow> (Inr (), db_objects_update (map (\<lambda>x. if obj_ID x = obj_ID old then obj_overwrite old new else x)) db1)
        | None \<Rightarrow>
            (if \<exists>x \<in> set (db_objects db). obj_ID x = i then (Inl ErrConflict, db1)
             else (Inr (), db_objects_update (\<lambda>rows. rows @ [obj_setID i new]) db1)))"

definition obj_FindByLocator :: "nat \<Rightarrow> string \<Rightarrow> string \<Rightarrow> string \<Rightarrow> (DB, StorageObject) handler" where
  "obj_FindByLocator sourceID driverType locatorType locatorJSON =
     with_jsonb (jsonObject locatorJSON) (\<lambda>canon.
       find_row db_objects (\<lambda>x. obj_SourceID x = sourceID \<and> obj_DriverType x = driverType \<and>
         obj_LocatorType x = locatorType \<and> obj_LocatorJSON x = canon))"

definition obj_UpsertByLocator :: "StorageObject \<Rightarrow> (DB, StorageObject) handler" where
  "obj_UpsertByLocator object =
     (let locatorJSON = jsonObject (obj_LocatorJSON object)
      in tryM (with_jsonb locatorJSON (\<lambda>canon. obj_upsert (object\<lparr>obj_LocatorJSON := canon\<rparr>))) (\<lambda>_.
           obj_FindByLocator (obj_SourceID object) (obj_DriverType object) (obj_LocatorType object) locatorJSON))"

section \<open>Request\<close>

record MetadataVFSFileObjectCommitRequest =
  cq_Source :: "StorageSource option"
  cq_SourceID :: nat
  cq_DriverType :: string
  cq_VirtualParentPath :: string
  cq_ResolvedInnerParentPath :: string
  cq_Filename :: string
  cq_ObjectPath :: string
  cq_LocatorType :: string
  cq_LocatorJSON :: string
  cq_Size :: int
  cq_MimeType :: string
  cq_ETag :: string
  cq_Checksum :: string
  cq_ActorID :: "nat option"

record MetadataVFSFileObjectCommitResult =
  cr_Node :: VFSNode
  cr_Object :: StorageObject

text \<open>
  The service, with the parameters for the standard library: \<open>mcs_Decode\<close> is a JSON decoder
  that keeps numbers as text; it gives the first value of the text and whether the text
  ends after it.
\<close>

record MetadataVFSCommitService =
  mcs_nodeRepo :: bool
  mcs_objectRepo :: bool
  mcs_transactor :: bool
  mcs_uni :: "string \<Rightarrow> string"
  mcs_mimeByExt :: "string \<Rightarrow> string"
  mcs_json :: JSONCodec
  mcs_Decode :: "string \<Rightarrow> (payload_value \<times> bool) result"

definition uintPtr :: "nat \<Rightarrow> nat option" where
  "uintPtr value = (if value = 0 then None else Some value)"

definition metadataCommitSourceSnapshot :: "MetadataVFSFileObjectCommitRequest \<Rightarrow> (nat \<times> string) result" where
  "metadataCommitSourceSnapshot req =
     (let sourceID0 = cq_SourceID req;
          driverType0 = TrimSpace (cq_DriverType req);
          (sourceID, driverType) =
            (case cq_Source req of
               None \<Rightarrow> (sourceID0, driverType0)
             | Some source \<Rightarrow> (if sourceID0 = 0 then src_ID source else sourceID0,
                               if driverType0 = [] then src_DriverType source else driverType0))
      in if sourceID = 0 \<or> driverType = [] then Inl ErrPathInvalid else Inr (sourceID, driverType))"

definition metadataCommitVirtualParentPath :: "MetadataVFSFileObjectCommitRequest \<Rightarrow> string result" where
  "metadataCommitVirtualParentPath req =
     (if TrimSpace (cq_VirtualParentPath req) \<noteq> [] then normalizeVirtualPath (cq_VirtualParentPath req)
      else case cq_Source req of
        None \<Rightarrow> Inl ErrPathInvalid
      | Some source \<Rightarrow>
          let merged = mergeMountAndInnerPath (src_MountPath source) (cq_ResolvedInnerParentPath req)
          in if TrimSpace (cq_ResolvedInnerParentPath req) \<noteq> [] \<and> merged \<noteq> [] then Inr merged
             else if TrimSpace (cq_ObjectPath req) \<noteq> []
             then tryp (splitParentName (cq_ObjectPath req)) (\<lambda>(parentPath, _).
                    let merged = mergeMountAndInnerPath (src_MountPath source) parentPath
                    in if merged \<noteq> [] then Inr merged else Inl ErrPathInvalid)
             else Inl ErrPathInvalid)"

definition metadataCommitInnerParentPath :: "MetadataVFSFileObjectCommitRequest \<Rightarrow> string \<Rightarrow> string result" where
  "metadataCommitInnerParentPath req virtualParentPath =
     (if TrimSpace (cq_ResolvedInnerParentPath req) \<noteq> [] then normalizeVirtualPath (cq_ResolvedInnerParentPath req)
      else
        let fallback = normalizeVirtualPath virtualParentPath
        in case cq_Source req of
             None \<Rightarrow> fallback
           | Some source \<Rightarrow>
               if TrimSpace (src_MountPath source) = [] then fallback
               else if_errp (normalizeMountPath (src_MountPath source)) (\<lambda>_. fallback) (\<lambda>mountPath.
                 if \<not> isSubPath mountPath virtualParentPath then fallback
                 else
                   let inner = TrimPrefix virtualParentPath mountPath
                   in if inner = [] then Inr ''/''
                      else normalizeVirtualPath (if \<not> HasPrefix inner ''/'' then ''/'' @ inner else inner)))"

definition metadataCommitObjectPath :: "MetadataVFSFileObjectCommitRequest \<Rightarrow> string \<Rightarrow> string result" where
  "metadataCommitObjectPath req innerParentPath =
     (if TrimSpace (cq_ObjectPath req) \<noteq> [] then normalizeVirtualPath (cq_ObjectPath req)
      else normalizeVirtualPath (joinVirtualPath innerParentPath (cq_Filename req)))"

definition metadataCommitCanonicalLocatorJSON :: "MetadataVFSCommitService \<Rightarrow> string \<Rightarrow> string result" where
  "metadataCommitCanonicalLocatorJSON s input =
     if_errp (mcs_Decode s input) (\<lambda>_. Inl ErrPathInvalid) (\<lambda>(value, eof).
       case value of
         PayloadMap m \<Rightarrow>
           if \<not> eof then Inl ErrPathInvalid
           else metadataCommitMarshalLocatorJSON (mcs_uni s) (mcs_json s) m
       | _ \<Rightarrow> Inl ErrPathInvalid)"

definition metadataCommitLocator ::
  "MetadataVFSCommitService \<Rightarrow> MetadataVFSFileObjectCommitRequest \<Rightarrow> string \<Rightarrow> string \<Rightarrow> (string \<times> string) result" where
  "metadataCommitLocator s req driverType objectPath =
     (let locatorType = TrimSpace (cq_LocatorType req);
          locatorJSON = TrimSpace (cq_LocatorJSON req)
      in if locatorType \<noteq> [] \<and> locatorJSON \<noteq> []
         then tryp (metadataCommitCanonicalLocatorJSON s locatorJSON) (\<lambda>canonical. Inr (locatorType, canonical))
         else
           let locatorType' = (if locatorType = [] then (if driverType = ''local'' then ''local_path'' else ''driver_path'')
                               else locatorType)
           in tryp (metadataCommitMarshalLocatorJSON (mcs_uni s) (mcs_json s) [(''path'', PayloadString objectPath)])
                (\<lambda>json. Inr (locatorType', json)))"

definition metadataCommitDirectoryKind :: "StorageSource option \<Rightarrow> string \<Rightarrow> string" where
  "metadataCommitDirectoryKind source currentPath =
     (case source of
        None \<Rightarrow> VFSNodeKindDir
      | Some src \<Rightarrow>
          if TrimSpace (src_MountPath src) = [] then VFSNodeKindDir
          else if_errp (normalizeMountPath (src_MountPath src)) (\<lambda>_. VFSNodeKindVirtualDir) (\<lambda>mountPath.
            if currentPath = mountPath then VFSNodeKindMount
            else if isSubPath mountPath currentPath then VFSNodeKindDir else VFSNodeKindVirtualDir))"

definition metadataCommitDirectorySourceID :: "StorageSource option \<Rightarrow> nat \<Rightarrow> string \<Rightarrow> nat option" where
  "metadataCommitDirectorySourceID source sourceID currentPath =
     (if sourceID = 0 then None
      else case source of
        None \<Rightarrow> uintPtr sourceID
      | Some src \<Rightarrow>
          if TrimSpace (src_MountPath src) = [] then uintPtr sourceID
          else if_errp (normalizeMountPath (src_MountPath src)) (\<lambda>_. None) (\<lambda>mountPath.
            if isSubPath mountPath currentPath then uintPtr sourceID else None))"

definition metadataCommitDirectoryNeedsUpdate ::
  "VFSNode \<Rightarrow> nat \<Rightarrow> string \<Rightarrow> string \<Rightarrow> nat option \<Rightarrow> bool" where
  "metadataCommitDirectoryNeedsUpdate existing parentID name kind sourceID \<longleftrightarrow>
     node_ParentID existing \<noteq> Some parentID \<or> node_Name existing \<noteq> name \<or> node_Kind existing \<noteq> kind \<or>
     \<not> sameUintPtr (node_SourceID existing) sourceID \<or> node_SyncState existing \<noteq> VFSNodeSyncStateIndexed"

definition metadataCommitSize :: "int \<Rightarrow> int" where
  "metadataCommitSize sz = (if sz < 0 then 0 else sz)"

text \<open>\<^verbatim>\<open>path.Ext\<close> is \<^verbatim>\<open>filepath.Ext\<close> here\<close>

definition metadataCommitMimeType :: "MetadataVFSCommitService \<Rightarrow> string \<Rightarrow> string \<Rightarrow> string" where
  "metadataCommitMimeType s filename mimeType =
     (if TrimSpace mimeType \<noteq> [] then TrimSpace mimeType
      else let detected = mcs_mimeByExt s (ToLower (mcs_uni s) (filepath_Ext filename))
           in if detected \<noteq> [] then detected else ''application/octet-stream'')"

section \<open>Commit\<close>

definition ensureCommitRoot :: "gotime \<Rightarrow> (DB, VFSNode) handler" where
  "ensureCommitRoot now =
     tryN (node_UpsertByPath
       \<lparr>node_ID = 0, node_ParentID = None, node_Name = [], node_Path = ''/'',
        node_Kind = VFSNodeKindRoot, node_MountID = None, node_ObjectID = None,
        node_SourceID = None, node_ProviderItemID = None, node_ProviderParentID = None,
        node_Size = 0, node_MimeType = [], node_ETag = [], node_Checksum = [],
        node_SyncState = VFSNodeSyncStateIndexed, node_IsDeleted = False,
        node_CreatedBy = None, node_UpdatedBy = None, node_CreatedAt = now,
        node_UpdatedAt = now, node_IndexedAt = Some now, node_LastSeenAt = None\<rparr>) ret"

text \<open>One round of the loop over the segments of the parent path: the next current directory.\<close>

definition commit_dir ::
  "StorageSource option \<Rightarrow> nat \<Rightarrow> gotime \<Rightarrow> nat option \<Rightarrow> VFSNode \<Rightarrow> string \<Rightarrow> (DB, VFSNode) handler" where
  "commit_dir source sourceID now actorID current segment =
     (let currentPath = joinVirtualPath (node_Path current) segment;
          desiredKind = metadataCommitDirectoryKind source currentPath;
          desiredSourceID = metadataCommitDirectorySourceID source sourceID currentPath
      in if_err (node_FindByPath currentPath)
           (\<lambda>err.
              if \<not> errors_Is err ErrNotFound then throw (normalizeMetadataVFSError err)
              else
                tryN (node_UpsertByPath
                  \<lparr>node_ID = 0, node_ParentID = Some (node_ID current), node_Name = segment,
                   node_Path = currentPath, node_Kind = desiredKind,
                   node_MountID = cloneUintPtr (node_MountID current), node_ObjectID = None,
                   node_SourceID = cloneUintPtr desiredSourceID, node_ProviderItemID = None,
                   node_ProviderParentID = None, node_Size = 0, node_MimeType = ''inode/directory'',
                   node_ETag = [], node_Checksum = [], node_SyncState = VFSNodeSyncStateIndexed,
                   node_IsDeleted = False, node_CreatedBy = cloneUintPtr actorID,
                   node_UpdatedBy = cloneUintPtr actorID, node_CreatedAt = now, node_UpdatedAt = now,
                   node_IndexedAt = Some now, node_LastSeenAt = Some now\<rparr>) ret)
           (\<lambda>existing.
              if \<not> metadataVFSNodeIsDirectory existing then throw ErrNameConflict
              else if node_SourceID existing \<noteq> None \<and> desiredSourceID \<noteq> None \<and>
                      node_SourceID existing \<noteq> desiredSourceID then throw ErrNameConflict
              else if metadataCommitDirectoryNeedsUpdate existing (node_ID current) segment desiredKind desiredSourceID
              then
                let existing' = existing\<lparr>node_ParentID := Some (node_ID current), node_Name := segment,
                      node_Kind := desiredKind, node_SourceID := cloneUintPtr desiredSourceID,
                      node_UpdatedBy := cloneUintPtr actorID, node_UpdatedAt := now,
                      node_SyncState := VFSNodeSyncStateIndexed,
                      node_IndexedAt := (if node_IndexedAt existing = None then Some now else node_IndexedAt existing)\<rparr>
                in tryN (node_Update existing') (\<lambda>_. ret existing')
              else ret existing))"

fun commit_dirs ::
  "StorageSource option \<Rightarrow> nat \<Rightarrow> gotime \<Rightarrow> nat option \<Rightarrow> VFSNode \<Rightarrow> string list \<Rightarrow> (DB, VFSNode) handler" where
  "commit_dirs source sourceID now actorID current [] = ret current"
| "commit_dirs source sourceID now actorID current (segment # segments) =
     (if segment = [] then commit_dirs source sourceID now actorID current segments
      else tryM (commit_dir source sourceID now actorID current segment) (\<lambda>next.
             commit_dirs source sourceID now actorID next segments))"

definition ensureCommitParentPath ::
  "StorageSource option \<Rightarrow> nat \<Rightarrow> string \<Rightarrow> gotime \<Rightarrow> nat option \<Rightarrow> (DB, VFSNode) handler" where
  "ensureCommitParentPath source sourceID virtualParentPath now actorID =
     tryM (ensureCommitRoot now) (\<lambda>root.
       if virtualParentPath = ''/'' then ret root
       else commit_dirs source sourceID now actorID root
              (Split (TrimPrefix virtualParentPath ''/'') CHR ''/''))"

definition withinCommitTx :: "MetadataVFSCommitService \<Rightarrow> (DB, 'a) handler \<Rightarrow> (DB, 'a) handler" where
  "withinCommitTx s fn = (if \<not> mcs_transactor s then fn else WithinTx fn)"

text \<open>The data object and the file node of the transaction, and their storing.\<close>

definition commit_object ::
  "MetadataVFSCommitService \<Rightarrow> MetadataVFSFileObjectCommitRequest \<Rightarrow> nat \<Rightarrow> string \<Rightarrow> string \<Rightarrow> string \<Rightarrow> gotime \<Rightarrow>
   StorageObject" where
  "commit_object s req sourceID driverType locatorType locatorJSON now =
     \<lparr>obj_ID = 0, obj_SourceID = sourceID, obj_DriverType = driverType,
      obj_LocatorType = locatorType, obj_LocatorJSON = locatorJSON,
      obj_Size = metadataCommitSize (cq_Size req), obj_ETag = cq_ETag req,
      obj_Checksum = cq_Checksum req,
      obj_MimeType = metadataCommitMimeType s (cq_Filename req) (cq_MimeType req),
      obj_Status = StorageObjectStatusAvailable, obj_CreatedAt = now, obj_UpdatedAt = now\<rparr>"

definition commit_node ::
  "MetadataVFSFileObjectCommitRequest \<Rightarrow> nat \<Rightarrow> gotime \<Rightarrow> VFSNode \<Rightarrow> VFSNode option \<Rightarrow> StorageObject \<Rightarrow> VFSNode" where
  "commit_node req sourceID now parent existing object =
     \<lparr>node_ID = (case existing of None \<Rightarrow> 0 | Some x \<Rightarrow> node_ID x),
      node_ParentID = Some (node_ID parent), node_Name = cq_Filename req,
      node_Path = joinVirtualPath (node_Path parent) (cq_Filename req), node_Kind = VFSNodeKindFile,
      node_MountID = cloneUintPtr (node_MountID parent), node_ObjectID = Some (obj_ID object),
      node_SourceID = uintPtr sourceID, node_ProviderItemID = None, node_ProviderParentID = None,
      node_Size = obj_Size object, node_MimeType = obj_MimeType object, node_ETag = cq_ETag req,
      node_Checksum = cq_Checksum req, node_SyncState = VFSNodeSyncStateIndexed,
      node_IsDeleted = False,
      node_CreatedBy = (case existing of None \<Rightarrow> cloneUintPtr (cq_ActorID req)
                        | Some x \<Rightarrow> cloneUintPtr (node_CreatedBy x)),
      node_UpdatedBy = cloneUintPtr (cq_ActorID req),
      node_CreatedAt = (case existing of None \<Rightarrow> now | Some x \<Rightarrow> node_CreatedAt x),
      node_UpdatedAt = now, node_IndexedAt = Some now, node_LastSeenAt = Some now\<rparr>"

definition commit_store ::
  "StorageObject \<Rightarrow> (StorageObject \<Rightarrow> VFSNode) \<Rightarrow> (DB, MetadataVFSFileObjectCommitResult) handler" where
  "commit_store object node_for =
     tryN (obj_UpsertByLocator object) (\<lambda>object'.
     tryN (node_UpsertByPath (node_for object')) (\<lambda>node.
       ret \<lparr>cr_Node = node, cr_Object = object'\<rparr>))"

text \<open>The body of the transaction.\<close>

definition commit_body ::
  "MetadataVFSCommitService \<Rightarrow> MetadataVFSFileObjectCommitRequest \<Rightarrow> nat \<Rightarrow> string \<Rightarrow> string \<Rightarrow> string \<Rightarrow> string \<Rightarrow>
   (DB, MetadataVFSFileObjectCommitResult) handler" where
  "commit_body s req sourceID driverType virtualParentPath locatorType locatorJSON =
     tryM (gets db_now) (\<lambda>now.
     tryM (ensureCommitParentPath (cq_Source req) sourceID virtualParentPath now (cq_ActorID req)) (\<lambda>parent.
       let store = (\<lambda>existing.
             commit_store (commit_object s req sourceID driverType locatorType locatorJSON now)
               (commit_node req sourceID now parent existing))
       in if_err (node_FindByPath (joinVirtualPath (node_Path parent) (cq_Filename req)))
            (\<lambda>err. if \<not> errors_Is err ErrNotFound then throw (normalizeMetadataVFSError err) else store None)
            (\<lambda>existing. if node_Kind existing \<noteq> VFSNodeKindFile then throw ErrNameConflict
                        else store (Some existing))))"

definition CommitFileObject ::
  "MetadataVFSCommitService \<Rightarrow> MetadataVFSFileObjectCommitRequest \<Rightarrow> (DB, MetadataVFSFileObjectCommitResult) handler" where
  "CommitFileObject s req =
     (if \<not> mcs_nodeRepo s \<or> \<not> mcs_objectRepo s then throw ErrSourceDriverUnsupported
      else
        tryM (lift (validateFileName (cq_Filename req))) (\<lambda>_.
        tryM (lift (metadataCommitSourceSnapshot req)) (\<lambda>(sourceID, driverType).
        tryM (lift (metadataCommitVirtualParentPath req)) (\<lambda>virtualParentPath.
        tryM (lift (metadataCommitInnerParentPath req virtualParentPath)) (\<lambda>innerParentPath.
        tryM (lift (metadataCommitObjectPath req innerParentPath)) (\<lambda>objectPath.
        tryM (lift (metadataCommitLocator s req driverType objectPath)) (\<lambda>(locatorType, locatorJSON).
          withinCommitTx s (commit_body s req sourceID driverType virtualParentPath locatorType locatorJSON))))))))"


section \<open>Growth of the tree\<close>

text \<open>What identifies a node and places it in the tree.\<close>

definition skel :: "VFSNode \<Rightarrow> nat \<times> nat option \<times> string" where
  "skel x = (node_ID x, node_ParentID x, node_Path x)"

lemma skelD:
  "skel x = skel y \<Longrightarrow> node_ID x = node_ID y" "skel x = skel y \<Longrightarrow> node_ParentID x = node_ParentID y"
  "skel x = skel y \<Longrightarrow> node_Path x = node_Path y"
  by (simp_all add: skel_def)

text \<open>
  \<open>grown ws rows rows'\<close>: the tree of \<open>rows'\<close> has the nodes of \<open>rows\<close>, where they were, and
  besides them only nodes on the way to \<open>ws\<close>.
\<close>

definition grown :: "string list \<Rightarrow> VFSNode list \<Rightarrow> VFSNode list \<Rightarrow> bool" where
  "grown ws rows rows' \<longleftrightarrow> tree_ok rows' \<and>
     (\<forall>x. live rows x \<longrightarrow> (\<exists>y. live rows' y \<and> skel y = skel x)) \<and>
     (\<forall>y. live rows' y \<longrightarrow> (\<exists>x. live rows x \<and> skel y = skel x) \<or> prefix (segs y) ws)"

lemma grown_refl: "tree_ok rows \<Longrightarrow> grown ws rows rows"
  by (auto simp: grown_def)

lemma grown_tree_ok: "grown ws rows rows' \<Longrightarrow> tree_ok rows'"
  by (simp add: grown_def)

text \<open>Rewriting other columns of rows keeps the tree.\<close>

lemma touch_tree_ok:
  assumes ok: "tree_ok rows"
    and f: "\<And>x. x \<in> set rows \<Longrightarrow> node_IsDeleted (f x) = node_IsDeleted x"
      "\<And>x. x \<in> set rows \<Longrightarrow> node_ID (f x) = node_ID x"
      "\<And>x. live rows x \<Longrightarrow> skel (f x) = skel x \<and> (segs x \<noteq> [] \<longrightarrow> node_Name (f x) = node_Name x)"
  shows "tree_ok (map f rows)" "live (map f rows) y \<longleftrightarrow> (\<exists>x. live rows x \<and> y = f x)"
proof -
  have live': "live (map f rows) y \<longleftrightarrow> (\<exists>x. live rows x \<and> y = f x)" for y
    using f(1) by (auto simp: live_def)
  show "live (map f rows) y \<longleftrightarrow> (\<exists>x. live rows x \<and> y = f x)" by (rule live')
  have ids: "map node_ID (map f rows) = map node_ID rows" using f(2) by simp
  have path: "node_Path (f x) = node_Path x" "node_ParentID (f x) = node_ParentID x" "node_ID (f x) = node_ID x"
    if "live rows x" for x using f(3) [OF that] by (simp_all add: skel_def)
  have att: "attached (map f rows) (f x)" if x: "live rows x" for x
  proof (cases "segs x = []")
    case True
    then have "node_ParentID x = None"
      using tree_okD(3) [OF ok x] by (auto simp: attached_def)
    then show ?thesis using True path [OF x] by (simp add: attached_def)
  next
    case False
    then obtain p where p: "live rows p" "node_ParentID x = Some (node_ID p)" "segs x = segs p @ [node_Name x]"
        "no_trail (node_Name x)"
      using tree_okD(3) [OF ok x] by (auto simp: attached_def)
    have "live (map f rows) (f p)" using p(1) live' by blast
    then show ?thesis
      using p f(3) [OF x] False path [OF x] path [OF p(1)] unfolding attached_def by metis
  qed
  show "tree_ok (map f rows)"
    unfolding tree_ok_def
  proof (intro conjI allI impI)
    show "distinct (map node_ID (map f rows))" unfolding ids by (rule tree_okD(1) [OF ok])
  next
    fix z assume "live (map f rows) z"
    then obtain x where x: "live rows x" "z = f x" using live' by blast
    then show "normal (node_Path z)" "attached (map f rows) z"
      using tree_okD(2) [OF ok] att path by auto
  next
    fix z v assume "live (map f rows) z \<and> live (map f rows) v \<and> segs z = segs v"
    then obtain x y where "live rows x" "z = f x" "live rows y" "v = f y" "segs (f x) = segs (f y)"
      using live' by auto
    moreover from this have "segs x = segs y" using path by simp
    ultimately show "z = v" using tree_okD(4) [OF ok] by blast
  qed
qed

lemma grown_touch:
  assumes "grown ws rows rows'"
    and "\<And>x. x \<in> set rows' \<Longrightarrow> node_IsDeleted (f x) = node_IsDeleted x"
      "\<And>x. x \<in> set rows' \<Longrightarrow> node_ID (f x) = node_ID x"
      "\<And>x. live rows' x \<Longrightarrow> skel (f x) = skel x \<and> (segs x \<noteq> [] \<longrightarrow> node_Name (f x) = node_Name x)"
  shows "grown ws rows (map f rows')"
proof -
  note t = touch_tree_ok [OF grown_tree_ok [OF assms(1)] assms(2-4)]
  have sk: "skel (f x) = skel x" if "live rows' x" for x using assms(4) that by blast
  have "prefix (segs (f x)) ws \<longleftrightarrow> prefix (segs x) ws" if "live rows' x" for x
    using skelD(3) [OF sk [OF that]] by simp
  then show ?thesis using assms(1) t sk unfolding grown_def by metis
qed

text \<open>A tree without a root is empty.\<close>

lemma no_root_empty: "tree_ok rows \<Longrightarrow> \<forall>x. live rows x \<longrightarrow> segs x \<noteq> [] \<Longrightarrow> \<not> live rows y"
  using ancestors_live [of rows y "[]"] by auto

lemma grown_insert:
  assumes g: "grown ws rows rows'"
    and n: "\<not> node_IsDeleted n" "\<forall>x \<in> set rows'. node_ID x \<noteq> node_ID n" "prefix (segs n) ws"
      "\<forall>x. live rows' x \<longrightarrow> node_Path x \<noteq> node_Path n"
    and at: "node_Path n = ''/'' \<and> node_ParentID n = None \<or>
      (\<exists>p. live rows' p \<and> nseg (node_Name n) \<and> no_trail (node_Name n) \<and> node_ParentID n = Some (node_ID p) \<and>
           node_Path n = render (segs p @ [node_Name n]))"
  shows "grown ws rows (rows' @ [n])"
proof -
  note ok = grown_tree_ok [OF g]
  have live': "live (rows' @ [n]) x \<longleftrightarrow> live rows' x \<or> x = n" for x using n(1) by (auto simp: live_def)
  have "tree_ok (rows' @ [n])"
    using at
  proof
    assume root: "node_Path n = ''/'' \<and> node_ParentID n = None"
    then have "\<forall>x. live rows' x \<longrightarrow> segs x \<noteq> []" using n(4) live_path [OF ok] by (metis render_eq_root list.set(1) empty_iff)
    then have none: "\<not> live rows' x" for x using no_root_empty [OF ok] by blast
    have "distinct (map node_ID (rows' @ [n]))" using tree_okD(1) [OF ok] n(2) by auto
    then show ?thesis using none live' root by (auto simp: tree_ok_def attached_def)
  next
    assume "\<exists>p. live rows' p \<and> nseg (node_Name n) \<and> no_trail (node_Name n) \<and> node_ParentID n = Some (node_ID p) \<and>
           node_Path n = render (segs p @ [node_Name n])"
    then show ?thesis using insert_tree_ok [OF ok] n by blast
  qed
  then show ?thesis using g live' n(3) unfolding grown_def by metis
qed


section \<open>Writing nodes\<close>

text \<open>The place of a node to be written: the root, or a child of a live node.\<close>

definition placed :: "VFSNode list \<Rightarrow> VFSNode \<Rightarrow> bool" where
  "placed rows n \<longleftrightarrow> node_Path n = ''/'' \<and> node_ParentID n = None \<or>
     (\<exists>p. live rows p \<and> nseg (node_Name n) \<and> no_trail (node_Name n) \<and> node_ParentID n = Some (node_ID p) \<and>
          node_Path n = render (segs p @ [node_Name n]))"

lemma placed_cong:
  "node_Path m = node_Path n \<Longrightarrow> node_ParentID m = node_ParentID n \<Longrightarrow> node_Name m = node_Name n \<Longrightarrow>
   placed rows m = placed rows n"
  by (simp add: placed_def)

text \<open>A live node at that path already has the same parent and name.\<close>

lemma placed_existing:
  assumes ok: "tree_ok rows" and x: "live rows x" and n: "placed rows n" "node_Path x = node_Path n"
  shows "node_ParentID x = node_ParentID n" "segs x \<noteq> [] \<longrightarrow> node_Name x = node_Name n"
proof -
  have "node_ParentID x = node_ParentID n \<and> (segs x \<noteq> [] \<longrightarrow> node_Name x = node_Name n)"
  proof (cases "node_Path n = ''/''")
    case True
    have "\<not> (nseg (node_Name n) \<and> node_Path n = render (segs p @ [node_Name n]))" if "live rows p" for p
    proof
      assume a: "nseg (node_Name n) \<and> node_Path n = render (segs p @ [node_Name n])"
      then have "nsegs (segs p @ [node_Name n])" using live_nsegs [OF ok that] by simp
      from render_eq_root [OF this] show False using a True by (metis append_is_Nil_conv not_Cons_self2)
    qed
    then have "node_ParentID n = None" using n(1) by (auto simp: placed_def)
    moreover have "segs x = []" using True n(2) by simp
    ultimately show ?thesis using tree_okD(3) [OF ok x] by (auto simp: attached_def)
  next
    case False
    then obtain p where p: "live rows p" "nseg (node_Name n)" "node_ParentID n = Some (node_ID p)"
        "node_Path n = render (segs p @ [node_Name n])"
      using n(1) by (auto simp: placed_def)
    have sx: "segs x = segs p @ [node_Name n]"
      using n(2) p(2,4) live_nsegs [OF ok p(1)] by (simp add: segs_of_render)
    then obtain q where "live rows q" "node_ParentID x = Some (node_ID q)" "segs x = segs q @ [node_Name x]"
      using tree_okD(3) [OF ok x] by (auto simp: attached_def)
    moreover from this sx have "q = p" using tree_okD(4) [OF ok _ p(1)] by simp
    ultimately show ?thesis using sx p(3) by simp
  qed
  then show "node_ParentID x = node_ParentID n" "segs x \<noteq> [] \<longrightarrow> node_Name x = node_Name n" by simp_all
qed

text \<open>The columns a write takes from the entity.\<close>

definition columns :: "VFSNode \<Rightarrow> string \<times> nat option \<times> nat option \<times> nat option \<times> int \<times> string \<times> string" where
  "columns x = (node_Kind x, node_MountID x, node_ObjectID x, node_SourceID x, node_Size x, node_ETag x, node_Checksum x)"

lemma node_upsert_grown:
  assumes call: "node_upsert e db = (Inr u, db')" and g: "grown ws rows (db_nodes db)"
    and e: "placed (db_nodes db) e" "prefix (segs e) ws"
  shows "grown ws rows (db_nodes db') \<and>
    (\<exists>m. live (db_nodes db') m \<and> node_Path m = node_Path e \<and> columns m = columns e)"
  using call unfolding node_upsert_def
proof (cases rule: stmt_cases)
  case (run db0)
  note t = same_tables_fields(4,11) [OF run(1)] and ok = grown_tree_ok [OF g]
  define new where "new = node_stamp (db_now db) (e\<lparr>node_IsDeleted := False\<rparr>)"
  have new: "node_Path new = node_Path e" "node_ParentID new = node_ParentID e" "node_Name new = node_Name e"
    "columns new = columns e" "\<not> node_IsDeleted new"
    by (simp_all add: new_def node_stamp_def columns_def)
  note run3 = run(3) [unfolded t, folded new_def]
  show ?thesis
  proof (cases "find (\<lambda>n. node_Path n = node_Path new \<and> \<not> node_IsDeleted n) (db_nodes db)")
    case (Some old)
    then have "old \<in> set (db_nodes db) \<and> node_Path old = node_Path new \<and> \<not> node_IsDeleted old"
      by (auto simp: find_Some_iff)
    then have old: "live (db_nodes db) old" "node_Path old = node_Path e" using new(1) by (auto simp: live_def)
    let ?row = "node_overwrite old new"
    let ?f = "\<lambda>n. if node_ID n = node_ID old then ?row else n"
    have nodes: "db_nodes db' = map ?f (db_nodes db)"
      using run3 Some t by (auto simp: Let_def split: if_splits)
    have only: "x = old" if "x \<in> set (db_nodes db)" "node_ID x = node_ID old" for x
      using that key_unique [OF tree_okD(1) [OF ok]] old(1) by (auto simp: live_def)
    note same = placed_existing [OF ok old(1) e(1) old(2)]
    have row: "node_ID ?row = node_ID old" "\<not> node_IsDeleted ?row" "skel ?row = skel old"
      "segs old \<noteq> [] \<longrightarrow> node_Name ?row = node_Name old" "columns ?row = columns e" "node_Path ?row = node_Path e"
      using same new old(2) by (simp_all add: node_overwrite_def skel_def columns_def)
    have "grown ws rows (map ?f (db_nodes db))"
    proof (rule grown_touch [OF g])
      fix x assume "x \<in> set (db_nodes db)"
      then show "node_IsDeleted (?f x) = node_IsDeleted x" "node_ID (?f x) = node_ID x"
        using only row old(1) by (auto simp: live_def)
    next
      fix x assume "live (db_nodes db) x"
      then show "skel (?f x) = skel x \<and> (segs x \<noteq> [] \<longrightarrow> node_Name (?f x) = node_Name x)"
        using only row by (auto simp: live_def)
    qed
    moreover have "?row \<in> set (map ?f (db_nodes db))" using old(1) by (force simp: live_def)
    ultimately show ?thesis using nodes row by (auto simp: live_def)
  next
    case None
    define i where "i = (if node_ID new = 0 then db_seq db0 ''vfs_nodes'' + 1 else node_ID new)"
    let ?row = "node_setID i new"
    have nodes: "db_nodes db' = db_nodes db @ [?row]" "\<forall>x \<in> set (db_nodes db). node_ID x \<noteq> i"
      using run3 None t by (auto simp: Let_def i_def split: if_splits)
    have row: "node_ID ?row = i" "\<not> node_IsDeleted ?row" "node_Path ?row = node_Path e"
      "node_ParentID ?row = node_ParentID e" "node_Name ?row = node_Name e" "columns ?row = columns e"
      using new by (simp_all add: node_setID_def columns_def)
    have free: "\<forall>x. live (db_nodes db) x \<longrightarrow> node_Path x \<noteq> node_Path ?row"
      using None new(1) row(3) by (auto simp: find_None_iff live_def)
    have "placed (db_nodes db) ?row" using e(1) placed_cong [OF row(3-5)] by blast
    then have "grown ws rows (db_nodes db @ [?row])"
      using grown_insert [OF g row(2)] nodes(2) row(1,3) e(2) free unfolding placed_def by simp
    then show ?thesis using nodes(1) row by (auto simp: live_def)
  qed
qed simp

lemma node_UpsertByPath_grown:
  assumes "grown ws rows (db_nodes db)" "placed (db_nodes db) e" "prefix (segs e) ws"
    and call: "node_UpsertByPath e db = (Inr n, db')"
  shows "grown ws rows (db_nodes db')" "live (db_nodes db') n" "node_Path n = node_Path e" "columns n = columns e"
    "db_objects db' = db_objects db" "db_now db' = db_now db"
proof -
  obtain u db1 where 1: "node_upsert e db = (Inr u, db1)" and 2: "node_FindByPath (node_Path e) db1 = (Inr n, db')"
    using call by (auto simp: node_UpsertByPath_def if_err_def throw_def split: prod.splits sum.splits)
  obtain m where m: "grown ws rows (db_nodes db1)" "live (db_nodes db1) m" "node_Path m = node_Path e" "columns m = columns e"
    using node_upsert_grown [OF 1 assms(1-3)] by blast
  note r = FindByPath_reads [OF 2]
  note t = same_tables_fields [OF r(1)]
  have n: "live (db_nodes db1) n" "node_Path n = node_Path e" using r(2) by auto
  have "n = m" using live_path_eq [OF grown_tree_ok [OF m(1)] n(1) m(2)] n(2) m(3) by simp
  then show "grown ws rows (db_nodes db')" "live (db_nodes db') n" "node_Path n = node_Path e" "columns n = columns e"
    using m t n by simp_all
  have "db_objects db1 = db_objects db \<and> db_now db1 = db_now db"
    using 1 unfolding node_upsert_def
    by (cases rule: stmt_cases) (auto simp: Let_def same_tables_fields split: option.splits if_splits)
  then show "db_objects db' = db_objects db" "db_now db' = db_now db" using t by simp_all
qed


section \<open>The parent path\<close>

text \<open>\<open>stands rows n\<close>: a live row is where the entity \<open>n\<close> is.\<close>

definition stands :: "VFSNode list \<Rightarrow> VFSNode \<Rightarrow> bool" where
  "stands rows n \<longleftrightarrow> (\<exists>y. live rows y \<and> skel y = skel n)"

lemma stands_live: "live rows n \<Longrightarrow> stands rows n"
  by (auto simp: stands_def)

lemma node_Update_grown:
  assumes g: "grown ws rows (db_nodes db)" and x: "live (db_nodes db) x"
    and e: "skel e = skel x" "node_Name e = node_Name x" "\<not> node_IsDeleted e"
    and call: "node_Update e db = (Inr u, db')"
  shows "grown ws rows (db_nodes db')" "stands (db_nodes db') e" "db_objects db' = db_objects db" "db_now db' = db_now db"
proof -
  note w = node_Update_writes [OF call] and ok = grown_tree_ok [OF g]
  let ?f = "\<lambda>y. if node_ID y = node_ID e then node_merge (db_now db) y e else y"
  have only: "y = x" if "y \<in> set (db_nodes db)" "node_ID y = node_ID e" for y
    using that key_unique [OF tree_okD(1) [OF ok]] x skelD(1) [OF e(1)] by (auto simp: live_def)
  have m: "skel (node_merge (db_now db) x e) = skel e" using skelD(1) [OF e(1)] by (simp add: skel_def)
  have "grown ws rows (map ?f (db_nodes db))"
  proof (rule grown_touch [OF g])
    fix y assume "y \<in> set (db_nodes db)"
    then show "node_IsDeleted (?f y) = node_IsDeleted y" "node_ID (?f y) = node_ID y"
      using only e(3) x by (auto simp: live_def)
  next
    fix y assume "live (db_nodes db) y"
    then show "skel (?f y) = skel y \<and> (segs y \<noteq> [] \<longrightarrow> node_Name (?f y) = node_Name y)"
      using only m e by (auto simp: live_def)
  qed
  then show "grown ws rows (db_nodes db')" using w(2) by simp
  have "?f x \<in> set (map ?f (db_nodes db))" using x by (auto simp: live_def)
  moreover have "?f x = node_merge (db_now db) x e" using skelD(1) [OF e(1)] by simp
  ultimately have "live (db_nodes db') (node_merge (db_now db) x e)" using w(2) e(3) by (simp add: live_def)
  then show "stands (db_nodes db') e" using m by (auto simp: stands_def)
  show "db_now db' = db_now db" by (rule w(1))
  have "update_row db_nodes db_nodes_update node_ID node_merge node_clash e db = (Inr u, db')"
    using call by (simp add: node_Update_def)
  from this table_query_tables(4) show "db_objects db' = db_objects db"
    by (cases rule: update_row_cases) (auto simp: same_tables_fields)
qed

lemma join_stands:
  assumes ok: "tree_ok rows" and cur: "stands rows cur" and w: "nseg w"
  shows "joinVirtualPath (node_Path cur) w = render (segs cur @ [w])" "nsegs (segs cur @ [w])"
proof -
  obtain y where y: "live rows y" "skel y = skel cur" using cur by (auto simp: stands_def)
  then have "nsegs (segs cur)" "node_Path cur = render (segs cur)"
    using live_nsegs [OF ok y(1)] live_path [OF ok y(1)] skelD(3) by metis+
  then show "joinVirtualPath (node_Path cur) w = render (segs cur @ [w])" "nsegs (segs cur @ [w])"
    using w by (metis join_render nseg_def, simp)
qed

lemma placed_child:
  assumes "tree_ok rows" "stands rows cur" "nseg w" "no_trail w"
    and "node_ParentID e = Some (node_ID cur)" "node_Name e = w" "node_Path e = render (segs cur @ [w])"
  shows "placed rows e"
proof -
  obtain y where "live rows y" "skel y = skel cur" using assms(2) by (auto simp: stands_def)
  then show ?thesis using assms skelD(1) [of y cur] skelD(3) [of y cur] unfolding placed_def by metis
qed

lemma commit_dir_grown:
  assumes g: "grown ws rows (db_nodes db)" and cur: "stands (db_nodes db) cur"
    and w: "nseg w" "no_trail w" "prefix (segs cur @ [w]) ws"
    and call: "commit_dir source sourceID now actorID cur w db = (Inr n, db')"
  shows "grown ws rows (db_nodes db') \<and> stands (db_nodes db') n \<and> segs n = segs cur @ [w] \<and>
    db_objects db' = db_objects db \<and> db_now db' = db_now db"
proof -
  note ok = grown_tree_ok [OF g]
  note j = join_stands [OF ok cur w(1)]
  have sj: "segs_of (render (segs cur @ [w])) = segs cur @ [w]" using j(2) by (rule segs_of_render)
  obtain r1 db1 where 1: "node_FindByPath (joinVirtualPath (node_Path cur) w) db = (r1, db1)" by force
  note r = FindByPath_reads [OF 1]
  note t = same_tables_fields [OF r(1)]
  have g1: "grown ws rows (db_nodes db1)" "stands (db_nodes db1) cur" using g cur t by simp_all
  show ?thesis
  proof (cases r1)
    case (Inl err)
    obtain e where e: "node_ParentID e = Some (node_ID cur)" "node_Name e = w" "node_Path e = render (segs cur @ [w])"
      and u: "tryN (node_UpsertByPath e) ret db1 = (Inr n, db')"
    proof -
      let ?e = "\<lparr>node_ID = 0, node_ParentID = Some (node_ID cur), node_Name = w,
                   node_Path = joinVirtualPath (node_Path cur) w,
                   node_Kind = metadataCommitDirectoryKind source (joinVirtualPath (node_Path cur) w),
                   node_MountID = cloneUintPtr (node_MountID cur), node_ObjectID = None,
                   node_SourceID = cloneUintPtr (metadataCommitDirectorySourceID source sourceID (joinVirtualPath (node_Path cur) w)),
                   node_ProviderItemID = None,
                   node_ProviderParentID = None, node_Size = 0, node_MimeType = ''inode/directory'',
                   node_ETag = [], node_Checksum = [], node_SyncState = VFSNodeSyncStateIndexed,
                   node_IsDeleted = False, node_CreatedBy = cloneUintPtr actorID,
                   node_UpdatedBy = cloneUintPtr actorID, node_CreatedAt = now, node_UpdatedAt = now,
                   node_IndexedAt = Some now, node_LastSeenAt = Some now\<rparr>"
      show thesis
        by (rule that [of ?e])
          (use j(1) call 1 Inl in \<open>simp_all add: commit_dir_def Let_def throw_def split: if_splits\<close>)
    qed
    note u' = try_retE [OF u]
    have "prefix (segs e) ws" "placed (db_nodes db1) e"
      using w e sj placed_child [OF grown_tree_ok [OF g1(1)] g1(2) w(1,2) e] by simp_all
    then show ?thesis using node_UpsertByPath_grown [OF g1(1) _ _ u'] t e(3) sj stands_live by simp
  next
    case (Inr x)
    then have x: "live (db_nodes db) x" "node_Path x = render (segs cur @ [w])" using r(2) j(1) by auto
    have same: "node_ParentID x = Some (node_ID cur)" "node_Name x = w"
    proof -
      let ?e = "x\<lparr>node_ParentID := Some (node_ID cur), node_Name := w\<rparr>"
      have "placed (db_nodes db) ?e" by (rule placed_child [OF ok cur w(1,2)]) (use x in simp_all)
      from placed_existing [OF ok x(1) this]
      show "node_ParentID x = Some (node_ID cur)" "node_Name x = w" using x(2) sj by simp_all
    qed
    have sx: "segs x = segs cur @ [w]" using x(2) sj by simp
    show ?thesis
    proof (cases "n = x \<and> db' = db1")
      case True
      then show ?thesis using g1(1) x(1) t sx stands_live by auto
    next
      case False
      let ?kind = "metadataCommitDirectoryKind source (joinVirtualPath (node_Path cur) w)"
      let ?sid = "metadataCommitDirectorySourceID source sourceID (joinVirtualPath (node_Path cur) w)"
      let ?e = "x\<lparr>node_ParentID := Some (node_ID cur), node_Name := w,
                      node_Kind := ?kind, node_SourceID := cloneUintPtr ?sid,
                      node_UpdatedBy := cloneUintPtr actorID, node_UpdatedAt := now,
                      node_SyncState := VFSNodeSyncStateIndexed,
                      node_IndexedAt := (if node_IndexedAt x = None then Some now else node_IndexedAt x)\<rparr>"
      have "tryN (node_Update ?e) (\<lambda>_. ret ?e) db1 = (Inr n, db')"
        using call 1 Inr False by (auto simp: commit_dir_def Let_def throw_def ret_def split: if_splits)
      then obtain u where u: "node_Update ?e db1 = (Inr u, db')" "n = ?e"
        by (auto simp: if_err_def throw_def ret_def split: prod.splits sum.splits)
      have e: "skel ?e = skel x" "node_Name ?e = node_Name x" "\<not> node_IsDeleted ?e"
        using same x(1) by (simp_all add: skel_def live_def)
      have "live (db_nodes db1) x" using x(1) t by simp
      from node_Update_grown [OF g1(1) this e u(1)] show ?thesis using u(2) t sx by simp
    qed
  qed
qed


lemma commit_dirs_grown:
  assumes "grown ws rows (db_nodes db)" "stands (db_nodes db) cur"
    and "\<forall>v \<in> set vs. nseg v \<and> no_trail v" "prefix (segs cur @ vs) ws"
    and "commit_dirs source sourceID now actorID cur vs db = (Inr n, db')"
  shows "grown ws rows (db_nodes db') \<and> stands (db_nodes db') n \<and> segs n = segs cur @ vs \<and>
    db_objects db' = db_objects db \<and> db_now db' = db_now db"
  using assms
proof (induction vs arbitrary: cur db)
  case Nil
  then show ?case by (simp add: ret_def)
next
  case (Cons v vs)
  have v: "nseg v" "no_trail v" "prefix (segs cur @ [v]) ws" "v \<noteq> []"
    using Cons.prems(3,4) by (auto simp: nseg_def prefix_def)
  obtain m db1 where 1: "commit_dir source sourceID now actorID cur v db = (Inr m, db1)"
    and 2: "commit_dirs source sourceID now actorID m vs db1 = (Inr n, db')"
    using Cons.prems(5) v(4) by (auto simp: if_err_def throw_def split: prod.splits sum.splits)
  have d: "grown ws rows (db_nodes db1)" "stands (db_nodes db1) m" "segs m = segs cur @ [v]"
    "db_objects db1 = db_objects db" "db_now db1 = db_now db"
    using commit_dir_grown [OF Cons.prems(1,2) v(1-3) 1] by auto
  show ?case using Cons.IH [OF d(1,2) _ _ 2] Cons.prems(3,4) d(3-5) by simp
qed

lemma Split_normal:
  assumes "nsegs ws" "ws \<noteq> []"
  shows "Split (TrimPrefix (render ws) ''/'') CHR ''/'' = ws"
proof -
  have "TrimPrefix (render ws) ''/'' = Join ws ''/''"
    using Join_slash [of ws] by (metis TrimPrefix_append append_Cons append_Nil)
  moreover have "Split (CHR ''/'' # Join ws ''/'') CHR ''/'' = [] # ws"
    using Split_render [OF assms(1)] assms(2) Join_slash [of ws] by simp
  ultimately show ?thesis by simp
qed

lemma ensureCommitParentPath_grown:
  assumes g: "grown ws rows (db_nodes db)"
    and vp: "normal vp" "\<forall>v \<in> set (segs_of vp). no_trail v" "prefix (segs_of vp) ws"
    and call: "ensureCommitParentPath source sourceID vp now actorID db = (Inr n, db')"
  shows "grown ws rows (db_nodes db') \<and> stands (db_nodes db') n \<and> segs n = segs_of vp \<and>
    db_objects db' = db_objects db \<and> db_now db' = db_now db"
proof -
  obtain root db1 where 1: "ensureCommitRoot now db = (Inr root, db1)"
    and 2: "(if vp = ''/'' then ret root else commit_dirs source sourceID now actorID root
              (Split (TrimPrefix vp ''/'') CHR ''/'')) db1 = (Inr n, db')"
    using call by (auto simp: ensureCommitParentPath_def if_err_def throw_def split: prod.splits sum.splits)
  obtain e where e: "node_Path e = ''/''" "node_ParentID e = None" and u: "node_UpsertByPath e db = (Inr root, db1)"
    by (rule that [OF _ _ try_retE [OF 1 [unfolded ensureCommitRoot_def]]]) simp_all
  have "placed (db_nodes db) e" "prefix (segs e) ws" using e by (simp_all add: placed_def)
  note r = node_UpsertByPath_grown [OF g this u]
  have sr: "segs root = []" using r(3) e(1) by simp
  have n: "nsegs (segs_of vp)" "render (segs_of vp) = vp" using normal_segs [OF vp(1)] by auto
  show ?thesis
  proof (cases "vp = ''/''")
    case True
    then show ?thesis using 2 r sr stands_live by (auto simp: ret_def)
  next
    case False
    have ne: "segs_of vp \<noteq> []" using False n(2) by (auto simp: render_def)
    have "commit_dirs source sourceID now actorID root (segs_of vp) db1 = (Inr n, db')"
      using 2 False Split_normal [OF n(1) ne] n(2) by simp
    from commit_dirs_grown [OF r(1) stands_live [OF r(2)] _ _ this] show ?thesis
      using n(1) vp(2,3) sr r(5,6) by simp
  qed
qed

section \<open>The data object\<close>

definition obj_key :: "StorageObject \<Rightarrow> nat \<times> string \<times> string \<times> string" where
  "obj_key x = (obj_SourceID x, obj_DriverType x, obj_LocatorType x, obj_LocatorJSON x)"

definition objects_ok :: "StorageObject list \<Rightarrow> bool" where
  "objects_ok rows \<longleftrightarrow> distinct (map obj_ID rows) \<and> distinct (map obj_key rows)"

lemma obj_clash_key: "obj_clash x y \<longleftrightarrow> obj_key x = obj_key y"
  by (auto simp: obj_clash_def obj_key_def)

definition contents :: "StorageObject \<Rightarrow> int \<times> string \<times> string \<times> string \<times> string" where
  "contents x = (obj_Size x, obj_ETag x, obj_Checksum x, obj_MimeType x, obj_Status x)"

lemma obj_upsert_writes:
  assumes call: "obj_upsert e db = (Inr u, db')" and ok: "objects_ok (db_objects db)"
  shows "objects_ok (db_objects db') \<and> db_nodes db' = db_nodes db \<and> db_now db' = db_now db \<and> db_jsonb db' = db_jsonb db \<and>
    (\<exists>m \<in> set (db_objects db'). obj_key m = obj_key e \<and> contents m = contents e)"
  using call unfolding obj_upsert_def
proof (cases rule: stmt_cases)
  case (run db0)
  note t = same_tables_fields [OF run(1)]
  define new where "new = obj_stamp (db_now db) e"
  have new: "obj_key new = obj_key e" "contents new = contents e"
    by (simp_all add: new_def obj_stamp_def obj_key_def contents_def)
  show ?thesis
  proof (cases "find (\<lambda>x. obj_clash x new) (db_objects db)")
    case (Some old)
    then have old: "old \<in> set (db_objects db)" "obj_key old = obj_key new"
      by (auto simp: find_Some_iff obj_clash_key)
    let ?f = "\<lambda>x. if obj_ID x = obj_ID old then obj_overwrite old new else x"
    have db': "db_objects db' = map ?f (db_objects db)" "db_nodes db' = db_nodes db" "db_now db' = db_now db"
      "db_jsonb db' = db_jsonb db"
      using run(3) Some t by (auto simp: Let_def new_def split: if_splits)
    have row: "obj_ID (obj_overwrite old new) = obj_ID old" "obj_key (obj_overwrite old new) = obj_key new"
      "contents (obj_overwrite old new) = contents new"
      using old(2) by (simp_all add: obj_overwrite_def obj_key_def contents_def)
    have only: "x = old" if "x \<in> set (db_objects db)" "obj_ID x = obj_ID old" for x
      using that key_unique [of obj_ID] ok old(1) by (auto simp: objects_ok_def)
    have "map obj_ID (map ?f (db_objects db)) = map obj_ID (db_objects db)"
      "map obj_key (map ?f (db_objects db)) = map obj_key (db_objects db)"
      using row only old(2) by (auto dest: only)
    then have "objects_ok (db_objects db')" using ok unfolding objects_ok_def db'(1) by argo
    moreover have "?f old \<in> set (db_objects db')" using old(1) db'(1) by simp
    ultimately show ?thesis using row db' new by fastforce
  next
    case None
    define i where "i = (if obj_ID new = 0 then db_seq db0 ''storage_objects'' + 1 else obj_ID new)"
    have db': "db_objects db' = db_objects db @ [obj_setID i new]" "db_nodes db' = db_nodes db" "db_now db' = db_now db"
      "db_jsonb db' = db_jsonb db" "\<forall>x \<in> set (db_objects db). obj_ID x \<noteq> i"
      using run(3) None t by (auto simp: Let_def new_def i_def split: if_splits)
    have row: "obj_ID (obj_setID i new) = i" "obj_key (obj_setID i new) = obj_key new" "contents (obj_setID i new) = contents new"
      by (simp_all add: obj_setID_def obj_key_def contents_def)
    have "\<forall>x \<in> set (db_objects db). obj_key x \<noteq> obj_key new"
      using None by (auto simp: find_None_iff obj_clash_key)
    then have "objects_ok (db_objects db')" using ok db'(1,5) row by (auto simp: objects_ok_def)
    then show ?thesis using row new db' by auto
  qed
qed simp

lemma obj_UpsertByLocator_writes:
  assumes call: "obj_UpsertByLocator e db = (Inr ob, db')" and ok: "objects_ok (db_objects db)"
  shows "objects_ok (db_objects db')" "db_nodes db' = db_nodes db" "db_now db' = db_now db"
    "ob \<in> set (db_objects db')" "contents ob = contents e"
    "obj_SourceID ob = obj_SourceID e" "obj_LocatorType ob = obj_LocatorType e"
proof -
  let ?loc = "jsonObject (obj_LocatorJSON e)"
  obtain u db1 where 1: "with_jsonb ?loc (\<lambda>canon. obj_upsert (e\<lparr>obj_LocatorJSON := canon\<rparr>)) db = (Inr u, db1)"
    and 2: "obj_FindByLocator (obj_SourceID e) (obj_DriverType e) (obj_LocatorType e) ?loc db1 = (Inr ob, db')"
    using call by (auto simp: obj_UpsertByLocator_def Let_def if_err_def throw_def split: prod.splits sum.splits)
  obtain canon where canon: "db_jsonb db ?loc = Inr canon"
    and w: "obj_upsert (e\<lparr>obj_LocatorJSON := canon\<rparr>) db = (Inr u, db1)"
    using 1 by (auto simp: with_jsonb_def stmt_throw_Inr split: sum.splits)
  note o1 = obj_upsert_writes [OF w ok]
  have jj: "jsonObject ?loc = ?loc"
    by (auto simp: jsonObject_def normalizeJSON_def Let_def)
  obtain canon' where canon': "db_jsonb db1 ?loc = Inr canon'"
    and f: "find_row db_objects (\<lambda>x. obj_SourceID x = obj_SourceID e \<and> obj_DriverType x = obj_DriverType e \<and>
         obj_LocatorType x = obj_LocatorType e \<and> obj_LocatorJSON x = canon') db1 = (Inr ob, db')"
    using 2 by (auto simp: obj_FindByLocator_def with_jsonb_def stmt_throw_Inr jj split: sum.splits)
  have cc: "canon' = canon" using canon canon' o1 by simp
  have r: "same_tables db1 db'" "ob \<in> set (db_objects db1)" "obj_key ob = obj_key (e\<lparr>obj_LocatorJSON := canon\<rparr>)"
    using find_row_reads [OF f] cc by (auto simp: obj_key_def)
  note t = same_tables_fields [OF r(1)]
  obtain m where m: "m \<in> set (db_objects db1)" "obj_key m = obj_key (e\<lparr>obj_LocatorJSON := canon\<rparr>)"
      "contents m = contents (e\<lparr>obj_LocatorJSON := canon\<rparr>)"
    using o1 by blast
  have "ob = m"
    using key_unique [of obj_key "db_objects db1"] o1 m(1,2) r(2,3) by (auto simp: objects_ok_def)
  then show "contents ob = contents e" using m(3) by (simp add: contents_def)
  show "objects_ok (db_objects db')" "db_nodes db' = db_nodes db" "db_now db' = db_now db" "ob \<in> set (db_objects db')"
    using o1 t r by simp_all
  show "obj_SourceID ob = obj_SourceID e" "obj_LocatorType ob = obj_LocatorType e"
    using r(3) by (simp_all add: obj_key_def)
qed


section \<open>Properties\<close>

text \<open>What a commit below \<open>vp\<close> leaves behind.\<close>

definition committed ::
  "MetadataVFSFileObjectCommitRequest \<Rightarrow> string \<Rightarrow> DB \<Rightarrow> MetadataVFSFileObjectCommitResult \<Rightarrow> DB \<Rightarrow> bool" where
  "committed req vp db res db' \<longleftrightarrow>
     (let n = cr_Node res; ob = cr_Object res; ws = segs_of vp @ [cq_Filename req]
      in grown ws (db_nodes db) (db_nodes db') \<and> objects_ok (db_objects db') \<and>
         live (db_nodes db') n \<and> node_Path n = render ws \<and> node_Kind n = VFSNodeKindFile \<and>
         node_ObjectID n = Some (obj_ID ob) \<and> ob \<in> set (db_objects db') \<and>
         obj_Size ob = max 0 (cq_Size req) \<and> node_Size n = obj_Size ob \<and>
         obj_Checksum ob = cq_Checksum req \<and> node_Checksum n = cq_Checksum req \<and>
         obj_Status ob = StorageObjectStatusAvailable)"

lemma commit_body_committed:
  assumes ok: "tree_ok (db_nodes db)" "objects_ok (db_objects db)"
    and vp: "normal vp" "\<forall>v \<in> set (segs_of vp). no_trail v"
    and w: "nseg (cq_Filename req)" "no_trail (cq_Filename req)"
    and call: "commit_body s req sourceID driverType vp lt lj db = (Inr res, db')"
  shows "committed req vp db res db'"
proof -
  let ?ws = "segs_of vp @ [cq_Filename req]"
  let ?now = "db_now db"
  obtain p db1 where 1: "ensureCommitParentPath (cq_Source req) sourceID vp ?now (cq_ActorID req) db = (Inr p, db1)"
  proof -
    from call [unfolded commit_body_def] obtain x d where
      "tryM (ensureCommitParentPath (cq_Source req) sourceID vp ?now (cq_ActorID req)) x db = (Inr res, d)"
      by (rule tryE) (auto simp: gets_def)
    then show thesis using that by (elim tryE) blast
  qed
  have g1: "grown ?ws (db_nodes db) (db_nodes db1)" "stands (db_nodes db1) p" "segs p = segs_of vp"
    "db_objects db1 = db_objects db"
    using ensureCommitParentPath_grown [OF grown_refl [OF ok(1), of ?ws] vp _ 1] by auto
  note j = join_stands [OF grown_tree_ok [OF g1(1)] g1(2) w(1)]
  let ?fp = "joinVirtualPath (node_Path p) (cq_Filename req)"
  obtain r2 db2 where 2: "node_FindByPath ?fp db1 = (r2, db2)" by force
  note t2 = same_tables_fields [OF FindByPath_reads(1) [OF 2]]
  let ?oe = "commit_object s req sourceID driverType lt lj ?now"
  obtain existing where "commit_store ?oe (commit_node req sourceID ?now p existing) db2 = (Inr res, db')"
    using call 1 2
    by (cases r2) (auto simp: commit_body_def gets_def throw_def Let_def split: if_splits)
  then obtain ob db3 where o1: "obj_UpsertByLocator ?oe db2 = (Inr ob, db3)"
    and n1: "node_UpsertByPath (commit_node req sourceID ?now p existing ob) db3 = (Inr (cr_Node res), db')"
      "cr_Object res = ob"
    unfolding commit_store_def by (elim tryE) (auto simp: ret_def)
  let ?ne = "commit_node req sourceID ?now p existing ob"
  have oe: "contents ?oe = (metadataCommitSize (cq_Size req), cq_ETag req, cq_Checksum req,
        metadataCommitMimeType s (cq_Filename req) (cq_MimeType req), StorageObjectStatusAvailable)"
    by (simp add: commit_object_def contents_def)
  have ne: "node_ParentID ?ne = Some (node_ID p)" "node_Name ?ne = cq_Filename req"
      "node_Path ?ne = ?fp"
      "columns ?ne = (VFSNodeKindFile, node_MountID p, Some (obj_ID ob), uintPtr sourceID, obj_Size ob, cq_ETag req, cq_Checksum req)"
    by (simp_all add: commit_node_def columns_def)
  note o2 = obj_UpsertByLocator_writes [OF o1]
  have g3: "grown ?ws (db_nodes db) (db_nodes db3)" "stands (db_nodes db3) p" "objects_ok (db_objects db2)"
    using g1 t2 o2(2) ok(2) by simp_all
  have pe: "node_Path ?ne = render (segs p @ [cq_Filename req])" using ne(3) j(1) by simp
  have "placed (db_nodes db3) ?ne" "prefix (segs ?ne) ?ws"
    using placed_child [OF grown_tree_ok [OF g3(1)] g3(2) w ne(1,2) pe] pe j(2) g1(3) by (simp_all add: segs_of_render)
  note n2 = node_UpsertByPath_grown [OF g3(1) this n1(1)]
  show ?thesis
    using n2 o2 [OF g3(3)] oe ne(4) pe g1(3) n1(2)
    by (simp add: committed_def Let_def contents_def columns_def metadataCommitSize_def)
qed

text \<open>C19: A commit is all or nothing and lands where it should. On an error no node and no data
  object has changed. On success the tree is a tree again, all former nodes are where they
  were, new nodes lie only on the way to the file, the file's node is live at the parent path
  extended by the name, points to a stored data object, and both carry the size and checksum
  of the request; data objects keep distinct identifiers and locators.\<close>

theorem commit_lands:
  assumes call: "CommitFileObject s req db = (r, db')" and tx: "mcs_transactor s"
    and ok: "tree_ok (db_nodes db)" "objects_ok (db_objects db)"
    and vp: "metadataCommitVirtualParentPath req = Inr vp" "normal vp" "\<forall>v \<in> set (segs_of vp). no_trail v"
    and w: "nseg (cq_Filename req)" "no_trail (cq_Filename req)"
  shows "case r of Inl e \<Rightarrow> db_nodes db' = db_nodes db \<and> db_objects db' = db_objects db
    | Inr res \<Rightarrow> committed req vp db res db'"
proof -
  have "same_tables db db' \<and> (\<exists>e. r = Inl e) \<or>
    (\<exists>sid dt lt lj. WithinTx (commit_body s req sid dt vp lt lj) db = (r, db'))"
    using call tx vp(1)
    by (auto simp: CommitFileObject_def withinCommitTx_def lift_def throw_def if_err_def split: if_splits sum.splits)
  then show ?thesis
  proof (elim disjE exE)
    assume "same_tables db db' \<and> (\<exists>e. r = Inl e)"
    then show ?thesis using same_tables_fields by auto
  next
    fix sid dt lt lj assume "WithinTx (commit_body s req sid dt vp lt lj) db = (r, db')"
    then show ?thesis
    proof (cases rule: WithinTx_cases)
      case (commit x db0 db1)
      note t0 = same_tables_fields [OF commit(2)] and t1 = same_tables_fields [OF commit(4)]
      have "committed req vp db0 x db1"
        using commit_body_committed [OF _ _ vp(2,3) w commit(3)] ok t0 by simp
      then show ?thesis using commit(1) t0 t1 by (simp add: committed_def Let_def)
    qed (auto simp: same_tables_fields)
  qed
qed

subsection \<open>Instances\<close>

definition sample_committer :: MetadataVFSCommitService where
  "sample_committer = \<lparr>mcs_nodeRepo = True, mcs_objectRepo = True, mcs_transactor = True, mcs_uni = (\<lambda>s. s),
     mcs_mimeByExt = (\<lambda>_. []), mcs_json = mvs_json sample_service, mcs_Decode = (\<lambda>_. Inl ErrInvalid)\<rparr>"

definition sample_commit :: MetadataVFSFileObjectCommitRequest where
  "sample_commit = \<lparr>cq_Source = None, cq_SourceID = 1, cq_DriverType = ''local'', cq_VirtualParentPath = ''/x'',
     cq_ResolvedInnerParentPath = ''/'', cq_Filename = ''f'', cq_ObjectPath = [], cq_LocatorType = [],
     cq_LocatorJSON = [], cq_Size = 3, cq_MimeType = [], cq_ETag = [], cq_Checksum = ''h'', cq_ActorID = None\<rparr>"

theorem commit_lands_witness:
  "let db = sample_tree\<lparr>db_seq := (\<lambda>_. 4)\<rparr>; (r, db') = CommitFileObject sample_committer sample_commit db
   in (\<exists>res. r = Inr res \<and> committed sample_commit ''/x'' db res db') \<and>
      map node_Path (db_nodes db') = [''/'', ''/a'', ''/a/b'', ''/c'', ''/x'', ''/x/f'']"
proof -
  let ?db = "sample_tree\<lparr>db_seq := (\<lambda>_. 4)\<rparr>"
  let ?c = "CommitFileObject sample_committer sample_commit ?db"
  have h: "mcs_transactor sample_committer" "tree_ok (db_nodes ?db)" "objects_ok (db_objects ?db)"
    "metadataCommitVirtualParentPath sample_commit = Inr ''/x''" "normal ''/x''"
    "\<forall>v \<in> set (segs_of ''/x''). no_trail v" "nseg (cq_Filename sample_commit)" "no_trail (cq_Filename sample_commit)"
    by code_simp+
  have pure: "metadataCommitSourceSnapshot sample_commit = Inr (1, ''local'')"
    "metadataCommitInnerParentPath sample_commit ''/x'' = Inr ''/''"
    "metadataCommitObjectPath sample_commit ''/'' = Inr ''/f''"
    "metadataCommitLocator sample_committer sample_commit ''local'' ''/f'' = Inr (''local_path'', ''{}'')"
    "validateFileName (cq_Filename sample_commit) = Inr ()" "mcs_nodeRepo sample_committer" "mcs_objectRepo sample_committer"
    by code_simp+
  have c: "?c = WithinTx (commit_body sample_committer sample_commit 1 ''local'' ''/x'' ''local_path'' ''{}'') ?db"
    using h(1,4) pure by (simp add: CommitFileObject_def withinCommitTx_def lift_def if_err_def)
  have p: "map node_Path (db_nodes (snd ?c)) = [''/'', ''/a'', ''/a/b'', ''/c'', ''/x'', ''/x/f'']"
    unfolding c by code_simp
  then have "db_nodes (snd ?c) \<noteq> db_nodes ?db"
    using arg_cong [of "db_nodes (snd ?c)" "db_nodes ?db" "map node_Path"] by (auto simp: sample_tree_def sample_node_def)
  then obtain res where "fst ?c = Inr res" "committed sample_commit ''/x'' ?db res (snd ?c)"
    using commit_lands [OF prod.collapse [symmetric] h(1-6) h(7,8)] by (auto split: sum.splits)
  then show ?thesis using p by (auto simp: Let_def split: prod.splits)
qed

end
