(* ===== verification/Upload.thy ===== *)
theory Upload
  imports Host_Files Metadata_Commit Mounts ACL Journal Setup
begin

text \<open>
  The upload service \<^verbatim>\<open>upload_service.go\<close> with its session repository: opening a session, receiving
  chunks, assembling them on the server or handing them to a driver, committing the file to the
  metadata tree, cancelling. Storage drivers are records of functions with the number of the
  driver call as their first argument, so that no two calls need to answer alike; the files
  handed to import drivers are kept in the trace \<open>host_imports\<close>.
\<close>

section \<open>Session repository\<close>

definition up_Create :: "UploadSession \<Rightarrow> (DB, UploadSession) handler" where
  "up_Create session0 =
     (let session = session0\<lparr>up_StorageDataJSON := jsonObject (up_StorageDataJSON session0)\<rparr>
      in with_jsonb (up_StorageDataJSON session) (\<lambda>canon. stmt (\<lambda>db.
           if \<exists>x \<in> set (db_uploads db). up_UploadID x = up_UploadID session then (Inl ErrConflict, db)
           else (Inr session, db_uploads_update (\<lambda>rows. rows @ [session\<lparr>up_StorageDataJSON := canon\<rparr>]) db))))"

definition up_merge :: "gotime \<Rightarrow> UploadSession \<Rightarrow> UploadSession \<Rightarrow> UploadSession" where
  "up_merge now old new =
     new\<lparr>up_UploadID := up_UploadID old, up_CreatedAt := up_CreatedAt old, up_UpdatedAt := now\<rparr>"

definition up_Update :: "UploadSession \<Rightarrow> (DB, unit) handler" where
  "up_Update session =
     with_jsonb (jsonObject (up_StorageDataJSON session)) (\<lambda>canon. stmt (\<lambda>db.
       if \<forall>x \<in> set (db_uploads db). up_UploadID x \<noteq> up_UploadID session then (Inl ErrNotFound, db)
       else (Inr (), db_uploads_update (map (\<lambda>x. if up_UploadID x = up_UploadID session
               then up_merge (db_now db) x (session\<lparr>up_StorageDataJSON := canon\<rparr>) else x)) db)))"

definition up_Delete :: "string \<Rightarrow> (DB, unit) handler" where
  "up_Delete uploadID = stmt (\<lambda>db.
     if \<forall>x \<in> set (db_uploads db). up_UploadID x \<noteq> uploadID then (Inl ErrNotFound, db)
     else (Inr (), db_uploads_update (filter (\<lambda>x. up_UploadID x \<noteq> uploadID)) db))"

definition up_FindByID :: "string \<Rightarrow> (DB, UploadSession) handler" where
  "up_FindByID uploadID = find_row db_uploads (\<lambda>x. up_UploadID x = uploadID)"

definition up_active :: "gotime \<Rightarrow> nat \<Rightarrow> nat \<Rightarrow> string \<Rightarrow> string \<Rightarrow> int \<Rightarrow> string \<Rightarrow> UploadSession \<Rightarrow> bool" where
  "up_active now userID sourceID path filename fileSize fileHash x \<longleftrightarrow>
     up_UserID x = userID \<and> up_SourceID x = sourceID \<and> up_Path x = path \<and> up_Filename x = filename \<and>
     up_FileSize x = fileSize \<and> up_FileHash x = fileHash \<and>
     up_Status x \<in> set [''pending'', ''uploading''] \<and> up_ExpiresAt x > now"

definition up_FindActiveByIdentity ::
  "nat \<Rightarrow> nat \<Rightarrow> string \<Rightarrow> string \<Rightarrow> int \<Rightarrow> string \<Rightarrow> (DB, UploadSession) handler" where
  "up_FindActiveByIdentity userID sourceID path filename fileSize fileHash =
     stmt (\<lambda>db. case sort_key (\<lambda>x. (- up_UpdatedAt x, db_collate db (up_UploadID x)))
                  (filter (up_active (db_now db) userID sourceID path filename fileSize fileHash) (db_uploads db)) of
        [] \<Rightarrow> (Inl ErrNotFound, db)
      | x # _ \<Rightarrow> (Inr x, db))"

definition up_ListByUser :: "nat \<Rightarrow> nat option \<Rightarrow> string \<Rightarrow> (DB, UploadSession list) handler" where
  "up_ListByUser userID sourceID status =
     select_rows (\<lambda>db. sort_key (\<lambda>x. - up_UpdatedAt x)
       (filter (\<lambda>x. up_UserID x = userID \<and> up_ExpiresAt x > db_now db \<and>
                  (case sourceID of None \<Rightarrow> True | Some i \<Rightarrow> up_SourceID x = i) \<and>
                  (status \<noteq> [] \<longrightarrow> up_Status x = status)) (db_uploads db)))"

section \<open>Drivers\<close>

record MultipartUploadRequest =
  mr_VirtualPath :: string
  mr_Filename :: string
  mr_ContentType :: string
  mr_ContentHash :: string
  mr_FileSize :: int
  mr_PartSize :: int
  mr_TotalParts :: int
  mr_ExpiresIn :: int

record MultipartUploadState =
  ms_RemoteUploadID :: string
  ms_ObjectKey :: string
  ms_VirtualPath :: string
  ms_FileSize :: int

record MultipartUploadPartInstruction =
  pi_Index :: int
  pi_Method :: string
  pi_URL :: string
  pi_Headers :: "(string \<times> string) list"
  pi_ByteStart :: int
  pi_ByteEnd :: int
  pi_ExpiresAt :: gotime

record MultipartUploadPlan =
  mp_State :: MultipartUploadState
  mp_CompletedEntry :: "StorageEntry option"
  mp_PartInstructions :: "MultipartUploadPartInstruction list"

record CompletedUploadPart =
  cp_Index :: int
  cp_ETag :: string

record UploadDriver =
  ud_InitMultipartUpload :: "nat \<Rightarrow> StorageSource \<Rightarrow> MultipartUploadRequest \<Rightarrow> MultipartUploadPlan result"
  ud_CompleteMultipartUpload ::
    "nat \<Rightarrow> StorageSource \<Rightarrow> MultipartUploadState \<Rightarrow> CompletedUploadPart list \<Rightarrow> StorageEntry result"

record ImportDriver =
  id_ImportFile :: "nat \<Rightarrow> StorageSource \<Rightarrow> string \<Rightarrow> fs_node option \<Rightarrow> unit result"

definition driver_call :: "(nat \<Rightarrow> 'a result) \<Rightarrow> (Host, 'a) handler" where
  "driver_call f h = (f (host_calls h), h\<lparr>host_calls := Suc (host_calls h)\<rparr>)"

definition import_call :: "ImportDriver \<Rightarrow> StorageSource \<Rightarrow> string \<Rightarrow> string \<Rightarrow> (Host, unit) handler" where
  "import_call d source targetPath localPath h =
     (let x = host_fs h localPath
      in driver_call (\<lambda>n. id_ImportFile d n source targetPath x)
           (h\<lparr>host_imports := host_imports h @ [(src_ID source, targetPath, x)]\<rparr>))"

definition normalizeImportDriverError :: "app_error \<Rightarrow> app_error" where
  "normalizeImportDriverError err =
     (if errors_Is err ErrExist then ErrFileAlreadyExists
      else if errors_Is err ErrNotExist then ErrFileNotFound
      else if errors_Is err ErrInvalid then ErrPathInvalid
      else err)"

section \<open>Requests, responses and the service\<close>

record UploadSessionView =
  usv_UploadID :: string
  usv_SourceID :: nat
  usv_Path :: string
  usv_Filename :: string
  usv_FileSize :: int
  usv_FileHash :: string
  usv_ChunkSize :: int
  usv_TotalChunks :: int
  usv_UploadedChunks :: "int list"
  usv_Status :: string
  usv_IsFastUpload :: bool
  usv_ExpiresAt :: string
  usv_TargetVFSParentNodeID :: nat
  usv_TargetVirtualParentPath :: string
  usv_ResolvedSourceID :: nat
  usv_ResolvedInnerParentPath :: string
  usv_ResultVFSNodeID :: nat

record UploadTransport =
  ut_Mode :: string
  ut_DriverType :: string
  ut_Concurrency :: int
  ut_RetryLimit :: int

record UploadPartInstruction =
  upi_Index :: int
  upi_Method :: string
  upi_URL :: string
  upi_Headers :: "(string \<times> string) list"
  upi_Start :: int
  upi_End :: int
  upi_ExpiresAt :: string

record UploadInitRequest =
  uir_SourceID :: nat
  uir_Path :: string
  uir_TargetVirtualParentPath :: string
  uir_Filename :: string
  uir_FileSize :: int
  uir_FileHash :: string
  uir_LastModifiedAt :: string

record UploadInitResponse =
  uis_IsFastUpload :: bool
  uis_File :: "FileItem option"
  uis_Upload :: "UploadSessionView option"
  uis_ResultVFSNodeID :: nat
  uis_Transport :: "UploadTransport option"
  uis_PartInstructions :: "UploadPartInstruction list"

record UploadChunkResponse =
  ucr_UploadID :: string
  ucr_Index :: int
  ucr_ReceivedBytes :: int
  ucr_AlreadyUploaded :: bool

record UploadPartETag =
  upe_Index :: int
  upe_ETag :: string

record UploadFinishRequest =
  ufr_UploadID :: string
  ufr_Parts :: "UploadPartETag list"

record UploadFinishResponse =
  ufs_Completed :: bool
  ufs_UploadID :: string
  ufs_ResultVFSNodeID :: nat
  ufs_File :: FileItem

text \<open>
  The service. The authorizer answers from the database it sees; the resolver is the one of
  theory \<open>Mounts\<close> with the existence check of the drivers; the JSON functions decode the
  configuration of a local source, the state of a multipart upload and the transport mode of
  an import session.
\<close>

record UploadService =
  ups_options :: SystemOptions
  ups_aclAuthorizer :: "(DB \<Rightarrow> ACLAuthorizer) option"
  ups_uploadDrivers :: "string \<Rightarrow> UploadDriver option"
  ups_importDrivers :: "string \<Rightarrow> ImportDriver option"
  ups_vfsResolver :: "(StorageSource \<Rightarrow> string \<Rightarrow> bool result) option"
  ups_metadataReader :: "MetadataVFSService option"
  ups_metadataCommitter :: "MetadataVFSCommitService option"
  ups_operationJournal :: "VFSOperationJournalService option"
  ups_auditRecorder :: "Recorder option"
  ups_env :: GoEnv
  ups_unmarshalConfig :: "string \<Rightarrow> string result"
  ups_marshalState :: "MultipartUploadState \<Rightarrow> string result"
  ups_unmarshalState :: "string \<Rightarrow> MultipartUploadState result"
  ups_marshalImport :: "string \<Rightarrow> string result"
  ups_unmarshalImport :: "string \<Rightarrow> string result"

record resolvedUploadInitTarget =
  rt_source :: StorageSource
  rt_path :: string
  rt_targetVFSParentNodeID :: nat
  rt_targetVirtualParentPath :: string
  rt_resolvedSourceID :: nat
  rt_resolvedInnerParentPath :: string

abbreviation "uploadTransportModeServerChunkImport \<equiv> ''server_chunk_import''"

section \<open>Helpers\<close>

definition stringsNoDash :: "string \<Rightarrow> string" where
  "stringsNoDash value = filter (\<lambda>c. c \<noteq> CHR ''-'') value"

definition getUploadDriver :: "UploadService \<Rightarrow> string \<Rightarrow> UploadDriver result" where
  "getUploadDriver s driverType =
     (case ups_uploadDrivers s driverType of None \<Rightarrow> Inl ErrSourceDriverUnsupported | Some d \<Rightarrow> Inr d)"

definition getImportDriver :: "UploadService \<Rightarrow> string \<Rightarrow> ImportDriver result" where
  "getImportDriver s driverType =
     (case ups_importDrivers s driverType of None \<Rightarrow> Inl ErrSourceDriverUnsupported | Some d \<Rightarrow> Inr d)"

definition isUploadImportSession :: "UploadService \<Rightarrow> UploadSession \<Rightarrow> bool" where
  "isUploadImportSession s session \<longleftrightarrow>
     up_StorageDataJSON session \<noteq> [] \<and>
     ups_unmarshalImport s (up_StorageDataJSON session) = Inr uploadTransportModeServerChunkImport"

definition toUploadPartInstructions ::
  "GoEnv \<Rightarrow> MultipartUploadPartInstruction list \<Rightarrow> UploadPartInstruction list" where
  "toUploadPartInstructions env items =
     map (\<lambda>item. \<lparr>upi_Index = pi_Index item, upi_Method = pi_Method item, upi_URL = pi_URL item,
        upi_Headers = pi_Headers item, upi_Start = pi_ByteStart item, upi_End = pi_ByteEnd item,
        upi_ExpiresAt = env_rfc3339 env (pi_ExpiresAt item)\<rparr>) items"

definition detectContentType :: "GoEnv \<Rightarrow> string \<Rightarrow> string" where
  "detectContentType env filename =
     (let contentType = env_mimeByExt env (ToLower (env_uni env) (filepath_Ext filename))
      in if contentType = [] then ''application/octet-stream'' else contentType)"

definition authorizeUploadPath :: "UploadService \<Rightarrow> Context \<Rightarrow> nat \<Rightarrow> string \<Rightarrow> ACLAction \<Rightarrow> (Host, unit) handler" where
  "authorizeUploadPath s ctx sourceID pathValue action h =
     (case ups_aclAuthorizer s of
        None \<Rightarrow> (Inr (), h)
      | Some az \<Rightarrow> (AuthorizePath (Some (az (host_db h))) (ctx_auth ctx) sourceID pathValue action, h))"

definition authorizeUploadSession :: "UploadService \<Rightarrow> Context \<Rightarrow> UploadSession \<Rightarrow> (Host, unit) handler" where
  "authorizeUploadSession s ctx session =
     (case ctx_auth ctx of
        None \<Rightarrow> throw ErrPermissionDenied
      | Some auth \<Rightarrow>
          if auth_UserID auth \<noteq> up_UserID session then throw ErrPermissionDenied
          else authorizeUploadPath s ctx (up_SourceID session) (up_Path session) ACLActionWrite)"

definition sessionTempDir :: "UploadService \<Rightarrow> string \<Rightarrow> string" where
  "sessionTempDir s uploadID = path_Join [so_TempDir (ups_options s), uploadID]"

text \<open>\<^verbatim>\<open>fmt.Sprintf("chunk-%06d.part", index)\<close> for the indexes that occur, which are not negative\<close>

definition chunk_name :: "nat \<Rightarrow> string" where
  "chunk_name index =
     (let d = FormatUint index in ''chunk-'' @ replicate (6 - length d) CHR ''0'' @ d @ ''.part'')"

definition chunkFilePath :: "UploadService \<Rightarrow> string \<Rightarrow> nat \<Rightarrow> string" where
  "chunkFilePath s uploadID index = path_Join [sessionTempDir s uploadID, chunk_name index]"

definition toUploadSessionView :: "UploadService \<Rightarrow> UploadSession \<Rightarrow> UploadSessionView" where
  "toUploadSessionView s x =
     \<lparr>usv_UploadID = up_UploadID x, usv_SourceID = up_SourceID x, usv_Path = up_Path x,
      usv_Filename = up_Filename x, usv_FileSize = up_FileSize x, usv_FileHash = up_FileHash x,
      usv_ChunkSize = up_ChunkSize x, usv_TotalChunks = up_TotalChunks x,
      usv_UploadedChunks = up_UploadedChunks x, usv_Status = up_Status x,
      usv_IsFastUpload = up_IsFastUpload x, usv_ExpiresAt = env_rfc3339 (ups_env s) (up_ExpiresAt x),
      usv_TargetVFSParentNodeID = up_TargetVFSParentNodeID x,
      usv_TargetVirtualParentPath = up_TargetVirtualParentPath x,
      usv_ResolvedSourceID = up_ResolvedSourceID x,
      usv_ResolvedInnerParentPath = up_ResolvedInnerParentPath x,
      usv_ResultVFSNodeID = up_ResultVFSNodeID x\<rparr>"

definition uploadSessionTargetVirtualPath :: "UploadSession \<Rightarrow> string" where
  "uploadSessionTargetVirtualPath session = joinVirtualPath (up_Path session) (up_Filename session)"

definition currentMetadataMutationActorID :: "Context \<Rightarrow> nat option" where
  "currentMetadataMutationActorID ctx =
     (case ctx_auth ctx of None \<Rightarrow> None | Some auth \<Rightarrow> if auth_UserID auth = 0 then None else Some (auth_UserID auth))"

text \<open>
  The number of chunks; the arithmetic is that of \<^verbatim>\<open>int64\<close>. A panic is an error value like any
  other: the server's recovery turns it into an internal error.
\<close>

definition total_chunks :: "int \<Rightarrow> int \<Rightarrow> int result" where
  "total_chunks fileSize chunkSize =
     (if chunkSize = 0 then Inl (ErrOther ''integer divide by zero'')
      else
        let n = go_div (wrap64 (wrap64 (fileSize + chunkSize) - 1)) chunkSize
        in Inr (if n \<le> 0 then 1 else n))"

definition hostAudited :: "Recorder option \<Rightarrow> Context \<Rightarrow> Event \<Rightarrow> (Host, 'a) handler \<Rightarrow> (Host, 'a) handler" where
  "hostAudited r ctx ev k = tryM (onDB (recordServiceAudit r ctx ev)) (\<lambda>_. k)"


section \<open>Committing to the metadata tree\<close>

definition maskMetadataVFSCommitError :: "app_error \<Rightarrow> app_error" where
  "maskMetadataVFSCommitError err = ErrMetadataVFSCommitFailed"

definition applyStorageEntryLocatorToCommitRequest ::
  "MetadataVFSFileObjectCommitRequest \<Rightarrow> StorageEntry option \<Rightarrow> MetadataVFSFileObjectCommitRequest" where
  "applyStorageEntryLocatorToCommitRequest req entry =
     (case entry of
        None \<Rightarrow> req
      | Some e \<Rightarrow>
          let req1 = (if TrimSpace (se_LocatorType e) \<noteq> [] \<and> TrimSpace (se_LocatorJSON e) \<noteq> []
                      then req\<lparr>cq_LocatorType := se_LocatorType e, cq_LocatorJSON := se_LocatorJSON e\<rparr> else req);
              req2 = (if TrimSpace (se_Checksum e) \<noteq> [] \<and> TrimSpace (cq_Checksum req1) = []
                      then req1\<lparr>cq_Checksum := se_Checksum e\<rparr> else req1)
          in if TrimSpace (se_MimeType e) \<noteq> [] \<and> TrimSpace (cq_MimeType req2) = []
             then req2\<lparr>cq_MimeType := se_MimeType e\<rparr> else req2)"

definition recordUploadMetadataCommitFailure ::
  "UploadService \<Rightarrow> StorageSource \<Rightarrow> nat option \<Rightarrow> nat \<Rightarrow> string \<Rightarrow> string \<Rightarrow> string \<Rightarrow> app_error \<Rightarrow> (DB, unit) handler" where
  "recordUploadMetadataCommitFailure s source actorID targetParentNodeID virtualParentPath objectPath filename err =
     (case ups_operationJournal s of
        None \<Rightarrow> ret ()
      | Some journal \<Rightarrow>
          if_err (RecordFailure journal
            \<lparr>in_OperationType = VFSOperationTypeUploadCommit, in_SourceNodeID = None,
             in_TargetParentNodeID = optionalUintPtr targetParentNodeID, in_ResultNodeID = None,
             in_SourcePathSnapshot = objectPath, in_TargetPathSnapshot = joinVirtualPath virtualParentPath filename,
             in_SourceIDSnapshot = Some (src_ID source), in_DriverTypeSnapshot = src_DriverType source,
             in_Payload = Some [(''phase'', PayloadString ''metadata_commit''), (''filename'', PayloadString filename)],
             in_PayloadJSON = [], in_ErrorCode = ''METADATA_VFS_COMMIT_FAILED'', in_Error = Some err,
             in_CreatedBy = actorID, in_NextRetryAt = None\<rparr>)
            (\<lambda>_. ret ()) (\<lambda>_. ret ()))"

text \<open>The committer answers with a node whenever it answers without an error.\<close>

definition commit_or_record ::
  "UploadService \<Rightarrow> MetadataVFSCommitService \<Rightarrow> MetadataVFSFileObjectCommitRequest \<Rightarrow> (app_error \<Rightarrow> (DB, unit) handler) \<Rightarrow>
   (DB, nat) handler" where
  "commit_or_record s committer req onFailure =
     if_err (CommitFileObject committer req)
       (\<lambda>err. tryM (onFailure err) (\<lambda>_. throw (maskMetadataVFSCommitError err)))
       (\<lambda>res. ret (node_ID (cr_Node res)))"

definition commitUploadSessionMetadataFile ::
  "UploadService \<Rightarrow> StorageSource \<Rightarrow> UploadSession \<Rightarrow> FileItem \<Rightarrow> StorageEntry option \<Rightarrow> (DB, nat) handler" where
  "commitUploadSessionMetadataFile s source session item entry =
     (case ups_metadataCommitter s of
        None \<Rightarrow> ret 0
      | Some committer \<Rightarrow>
          if fi_IsDir item then ret 0
          else
            let filename = (if fi_Name item = [] then up_Filename session else fi_Name item);
                vp0 = TrimSpace (up_TargetVirtualParentPath session);
                virtualParentPath = (if vp0 = [] then mergeMountAndInnerPath (src_MountPath source) (fi_ParentPath item) else vp0);
                inner0 = TrimSpace (up_ResolvedInnerParentPath session);
                inner = (if inner0 = [] then fi_ParentPath item else inner0)
            in commit_or_record s committer
                 (applyStorageEntryLocatorToCommitRequest
                    \<lparr>cq_Source = Some source, cq_SourceID = 0, cq_DriverType = [],
                     cq_VirtualParentPath = virtualParentPath, cq_ResolvedInnerParentPath = inner,
                     cq_Filename = filename, cq_ObjectPath = fi_Path item, cq_LocatorType = [], cq_LocatorJSON = [],
                     cq_Size = fi_Size item, cq_MimeType = fi_MimeType item, cq_ETag = fi_Etag item,
                     cq_Checksum = up_FileHash session, cq_ActorID = Some (up_UserID session)\<rparr> entry)
                 (recordUploadMetadataCommitFailure s source (Some (up_UserID session))
                    (up_TargetVFSParentNodeID session) virtualParentPath (fi_Path item) filename))"

definition commitUploadInitMetadataFile ::
  "UploadService \<Rightarrow> nat \<Rightarrow> resolvedUploadInitTarget \<Rightarrow> string \<Rightarrow> string \<Rightarrow> FileItem \<Rightarrow> StorageEntry option \<Rightarrow> (DB, nat) handler" where
  "commitUploadInitMetadataFile s userID target filename checksum item0 entry =
     (case ups_metadataCommitter s of
        None \<Rightarrow> ret 0
      | Some committer \<Rightarrow>
          if fi_IsDir item0 then ret 0
          else
            let item = (if fi_Name item0 = [] then item0\<lparr>fi_Name := filename\<rparr> else item0);
                vp0 = rt_targetVirtualParentPath target;
                virtualParentPath = (if vp0 = [] then mergeMountAndInnerPath (src_MountPath (rt_source target)) (fi_ParentPath item) else vp0);
                inner0 = rt_resolvedInnerParentPath target;
                inner = (if inner0 = [] then fi_ParentPath item else inner0)
            in commit_or_record s committer
                 (applyStorageEntryLocatorToCommitRequest
                    \<lparr>cq_Source = Some (rt_source target), cq_SourceID = 0, cq_DriverType = [],
                     cq_VirtualParentPath = virtualParentPath, cq_ResolvedInnerParentPath = inner,
                     cq_Filename = fi_Name item, cq_ObjectPath = fi_Path item, cq_LocatorType = [], cq_LocatorJSON = [],
                     cq_Size = fi_Size item, cq_MimeType = fi_MimeType item, cq_ETag = fi_Etag item,
                     cq_Checksum = checksum, cq_ActorID = Some userID\<rparr> entry)
                 (recordUploadMetadataCommitFailure s (rt_source target) (Some userID)
                    (rt_targetVFSParentNodeID target) virtualParentPath (fi_Path item) (fi_Name item)))"

definition commitImportedFileMetadata ::
  "UploadService \<Rightarrow> Context \<Rightarrow> StorageSource \<Rightarrow> string \<Rightarrow> string \<Rightarrow> FileItem \<Rightarrow> (DB, unit) handler" where
  "commitImportedFileMetadata s ctx source parentPath filename item0 =
     (case ups_metadataCommitter s of
        None \<Rightarrow> ret ()
      | Some committer \<Rightarrow>
          if fi_IsDir item0 then ret ()
          else
            let item = (if fi_Name item0 = [] then item0\<lparr>fi_Name := filename\<rparr> else item0);
                virtualParentPath = mergeMountAndInnerPath (src_MountPath source) parentPath;
                actorID = currentMetadataMutationActorID ctx
            in tryM (commit_or_record s committer
                 \<lparr>cq_Source = Some source, cq_SourceID = 0, cq_DriverType = [],
                  cq_VirtualParentPath = virtualParentPath, cq_ResolvedInnerParentPath = parentPath,
                  cq_Filename = fi_Name item, cq_ObjectPath = fi_Path item, cq_LocatorType = [], cq_LocatorJSON = [],
                  cq_Size = fi_Size item, cq_MimeType = fi_MimeType item, cq_ETag = fi_Etag item,
                  cq_Checksum = [], cq_ActorID = actorID\<rparr>
                 (\<lambda>err. tryM (resolveMetadataVFSNodeID (ups_metadataReader s) virtualParentPath) (\<lambda>parentID.
                    recordUploadMetadataCommitFailure s source actorID parentID virtualParentPath
                      (fi_Path item) (fi_Name item) err))) (\<lambda>_. ret ()))"

section \<open>Opening a session\<close>

definition resolveInitTarget :: "UploadService \<Rightarrow> UploadInitRequest \<Rightarrow> (DB, resolvedUploadInitTarget) handler" where
  "resolveInitTarget s req =
     (if TrimSpace (uir_TargetVirtualParentPath req) \<noteq> [] then
        tryM (lift (normalizeVirtualPath (uir_TargetVirtualParentPath req))) (\<lambda>virtualParentPath.
          case ups_vfsResolver s of
            None \<Rightarrow> throw ErrSourceDriverUnsupported
          | Some sourcePathExists \<Rightarrow>
              tryM (select_rows db_sources) (\<lambda>rows.
              tryM (lift (ResolveWritableTarget sourcePathExists rows
                      (joinVirtualPath virtualParentPath (uir_Filename req)))) (\<lambda>resolved.
              tryM (lift (splitParentName (rp_InnerPath resolved))) (\<lambda>(innerParentPath, _).
                case rp_Source resolved of
                  None \<Rightarrow> throw (ErrOther ''nil pointer dereference'')
                | Some source \<Rightarrow>
                    tryM (resolveMetadataVFSNodeID (ups_metadataReader s) virtualParentPath) (\<lambda>nodeID.
                      ret \<lparr>rt_source = source, rt_path = innerParentPath, rt_targetVFSParentNodeID = nodeID,
                           rt_targetVirtualParentPath = virtualParentPath, rt_resolvedSourceID = src_ID source,
                           rt_resolvedInnerParentPath = innerParentPath\<rparr>)))))
      else if uir_SourceID req = 0 then throw ErrPathInvalid
      else if TrimSpace (uir_Path req) = [] then throw ErrPathInvalid
      else
        tryM (src_FindByID (uir_SourceID req)) (\<lambda>source.
        tryM (lift (normalizeVirtualPath (uir_Path req))) (\<lambda>normalizedPath.
        tryM (resolveMetadataVFSNodeID (ups_metadataReader s)
                (mergeMountAndInnerPath (src_MountPath source) normalizedPath)) (\<lambda>nodeID.
          ret \<lparr>rt_source = source, rt_path = normalizedPath, rt_targetVFSParentNodeID = nodeID,
               rt_targetVirtualParentPath = [], rt_resolvedSourceID = src_ID source,
               rt_resolvedInnerParentPath = normalizedPath\<rparr>))))"

text \<open>The session the three ways of opening create, and their answers.\<close>

definition new_session ::
  "string \<Rightarrow> nat \<Rightarrow> resolvedUploadInitTarget \<Rightarrow> UploadInitRequest \<Rightarrow> int \<Rightarrow> int \<Rightarrow> string \<Rightarrow> gotime \<Rightarrow> UploadSession" where
  "new_session uuid userID target req chunkSize totalChunks storageData now =
     \<lparr>up_UploadID = ''upl_'' @ stringsNoDash uuid, up_UserID = userID, up_SourceID = uir_SourceID req,
      up_Path = rt_path target, up_TargetVFSParentNodeID = rt_targetVFSParentNodeID target,
      up_TargetVirtualParentPath = rt_targetVirtualParentPath target,
      up_ResolvedSourceID = rt_resolvedSourceID target,
      up_ResolvedInnerParentPath = rt_resolvedInnerParentPath target, up_ResultVFSNodeID = 0,
      up_Filename = uir_Filename req, up_FileSize = uir_FileSize req, up_FileHash = uir_FileHash req,
      up_ChunkSize = chunkSize, up_TotalChunks = totalChunks, up_UploadedChunks = [],
      up_StorageDataJSON = storageData, up_Status = ''uploading'', up_IsFastUpload = False,
      up_ExpiresAt = now + 7 * 24 * 3600 * 10 ^ 9, up_CreatedAt = now, up_UpdatedAt = now\<rparr>"

definition session_response ::
  "UploadService \<Rightarrow> UploadSession \<Rightarrow> string \<Rightarrow> string \<Rightarrow> UploadPartInstruction list \<Rightarrow> UploadInitResponse" where
  "session_response s session mode driverType parts =
     \<lparr>uis_IsFastUpload = False, uis_File = None, uis_Upload = Some (toUploadSessionView s session),
      uis_ResultVFSNodeID = 0,
      uis_Transport = Some \<lparr>ut_Mode = mode, ut_DriverType = driverType, ut_Concurrency = 3, ut_RetryLimit = 3\<rparr>,
      uis_PartInstructions = parts\<rparr>"

definition fast_response :: "FileItem \<Rightarrow> nat \<Rightarrow> UploadInitResponse" where
  "fast_response item nodeID =
     \<lparr>uis_IsFastUpload = True, uis_File = Some item, uis_Upload = None, uis_ResultVFSNodeID = nodeID,
      uis_Transport = None, uis_PartInstructions = []\<rparr>"

definition target_virtual :: "string \<Rightarrow> string \<Rightarrow> string" where
  "target_virtual dir filename = (if dir = ''/'' then ''/'' @ filename else path_Join [dir, filename])"

definition initLocal ::
  "UploadService \<Rightarrow> string \<Rightarrow> nat \<Rightarrow> resolvedUploadInitTarget \<Rightarrow> UploadInitRequest \<Rightarrow> (Host, UploadInitResponse) handler" where
  "initLocal s uuid userID target req =
     (if uir_FileSize req > so_MaxUploadSize (ups_options s) then throw ErrUploadTooLarge
      else
        let targetDir = rt_path target;
            targetVirtual = target_virtual targetDir (uir_Filename req);
            chunkSize = so_DefaultChunkSize (ups_options s);
            open_session =
              if_err (onDB (up_FindActiveByIdentity userID (uir_SourceID req) targetDir (uir_Filename req)
                        (uir_FileSize req) (uir_FileHash req)))
                (\<lambda>err. if \<not> errors_Is err ErrNotFound then throw err
                   else
                     tryM (lift (total_chunks (uir_FileSize req) chunkSize)) (\<lambda>totalChunks.
                     tryM (gets host_now) (\<lambda>now.
                     tryM (onDB (up_Create (new_session uuid userID target req chunkSize totalChunks [] now))) (\<lambda>session.
                     tryM (os_MkdirAll (sessionTempDir s (up_UploadID session))) (\<lambda>_.
                       ret (session_response s session ''server_chunk'' ''local'' []))))))
                (\<lambda>existing. ret (session_response s existing ''server_chunk'' ''local'' []))
        in tryM (lift (resolvePhysicalPath (ups_unmarshalConfig s) (rt_source target) targetVirtual)) (\<lambda>(_, targetPhysical).
           if_err (os_Stat targetPhysical) (\<lambda>_. open_session) (\<lambda>_.
             if_err (hashFileMD5 (ups_env s) targetPhysical) (\<lambda>_. throw ErrFileAlreadyExists) (\<lambda>hash.
               if hash \<noteq> uir_FileHash req then throw ErrFileAlreadyExists
               else
                 if_err (os_Stat targetPhysical) (\<lambda>_. throw (ErrOther ''nil pointer dereference'')) (\<lambda>info.
                   let item = buildFileItem (ups_env s) (src_ID (rt_source target)) targetVirtual
                                (path_Base targetPhysical) info
                   in tryM (onDB (commitUploadInitMetadataFile s userID target (uir_Filename req) (uir_FileHash req) item None))
                        (\<lambda>resultNodeID. ret (fast_response item resultNodeID)))))))"

definition initWithUploadDriver ::
  "UploadService \<Rightarrow> string \<Rightarrow> nat \<Rightarrow> resolvedUploadInitTarget \<Rightarrow> UploadInitRequest \<Rightarrow> (Host, UploadInitResponse) handler" where
  "initWithUploadDriver s uuid userID target req =
     tryM (lift (getUploadDriver s (src_DriverType (rt_source target)))) (\<lambda>driver.
       if uir_FileSize req > so_MaxUploadSize (ups_options s) then throw ErrUploadTooLarge
       else
         let targetDir = rt_path target; partSize = so_DefaultChunkSize (ups_options s)
         in tryM (lift (total_chunks (uir_FileSize req) partSize)) (\<lambda>totalParts.
            tryM (driver_call (\<lambda>n. ud_InitMultipartUpload driver n (rt_source target)
               \<lparr>mr_VirtualPath = targetDir, mr_Filename = uir_Filename req,
                mr_ContentType = detectContentType (ups_env s) (uir_Filename req), mr_ContentHash = uir_FileHash req,
                mr_FileSize = uir_FileSize req, mr_PartSize = partSize, mr_TotalParts = totalParts,
                mr_ExpiresIn = 15 * minute\<rparr>)) (\<lambda>plan.
            case mp_CompletedEntry plan of
              Some entry \<Rightarrow>
                let item = buildStorageEntryItem (ups_env s) (src_ID (rt_source target)) entry
                in tryM (onDB (commitUploadInitMetadataFile s userID target (uir_Filename req) (uir_FileHash req) item (Some entry)))
                     (\<lambda>resultNodeID. ret (fast_response item resultNodeID))
            | None \<Rightarrow>
                if mp_PartInstructions plan = [] then throw ErrSourceOperationUnsupported
                else
                  let totalChunks = int (length (mp_PartInstructions plan))
                  in tryM (lift (ups_marshalState s (mp_State plan))) (\<lambda>stateJSON.
                     tryM (gets host_now) (\<lambda>now.
                     tryM (onDB (up_Create (new_session uuid userID target req partSize totalChunks stateJSON now))) (\<lambda>session.
                       ret (session_response s session ''direct_parts'' (src_DriverType (rt_source target))
                              (toUploadPartInstructions (ups_env s) (mp_PartInstructions plan)))))))))"

definition initWithImportDriver ::
  "UploadService \<Rightarrow> string \<Rightarrow> nat \<Rightarrow> resolvedUploadInitTarget \<Rightarrow> UploadInitRequest \<Rightarrow> (Host, UploadInitResponse) handler" where
  "initWithImportDriver s uuid userID target req =
     if_err (lift (getImportDriver s (src_DriverType (rt_source target))))
       (\<lambda>err. if errors_Is err ErrSourceDriverUnsupported then throw ErrSourceOperationUnsupported else throw err)
       (\<lambda>_.
          if uir_FileSize req > so_MaxUploadSize (ups_options s) then throw ErrUploadTooLarge
          else
            let chunkSize = so_DefaultChunkSize (ups_options s)
            in tryM (lift (total_chunks (uir_FileSize req) chunkSize)) (\<lambda>totalChunks.
               tryM (lift (ups_marshalImport s uploadTransportModeServerChunkImport)) (\<lambda>stateJSON.
               tryM (gets host_now) (\<lambda>now.
               tryM (onDB (up_Create (new_session uuid userID target req chunkSize totalChunks stateJSON now))) (\<lambda>session.
                 ret (session_response s session ''server_chunk'' (src_DriverType (rt_source target)) []))))))"

definition Upload_Init ::
  "UploadService \<Rightarrow> Context \<Rightarrow> string \<Rightarrow> nat \<Rightarrow> UploadInitRequest \<Rightarrow> (Host, UploadInitResponse) handler" where
  "Upload_Init s ctx uuid userID req0 =
     tryM (lift (validateFileName (uir_Filename req0))) (\<lambda>_.
     tryM (onDB (resolveInitTarget s req0)) (\<lambda>target.
       let source = rt_source target;
           req = req0\<lparr>uir_SourceID := src_ID source, uir_Path := rt_path target\<rparr>
       in tryM (authorizeUploadPath s ctx (src_ID source) (rt_path target) ACLActionWrite) (\<lambda>_.
          if src_DriverType source \<noteq> ''local'' then
            if_err (lift (getUploadDriver s (src_DriverType source)))
              (\<lambda>err. if \<not> errors_Is err ErrSourceDriverUnsupported then throw err
                     else initWithImportDriver s uuid userID target req)
              (\<lambda>_. if_err (initWithUploadDriver s uuid userID target req)
                     (\<lambda>err. if \<not> errors_Is err ErrSourceOperationUnsupported then throw err
                            else initWithImportDriver s uuid userID target req) ret)
          else initLocal s uuid userID target req)))"


section \<open>Error codes\<close>

text \<open>The first matching case of the switch in \<^verbatim>\<open>mapFileErrorCode\<close>\<close>

definition file_error_codes :: "(app_error \<times> string) list" where
  "file_error_codes =
     [(ErrFileNotFound, ''FILE_NOT_FOUND''),
      (ErrFileAlreadyExists, ''FILE_ALREADY_EXISTS''),
      (ErrFileNameInvalid, ''FILE_NAME_INVALID''),
      (ErrFileIsDirectory, ''FILE_IS_DIRECTORY''),
      (ErrFileMoveConflict, ''FILE_MOVE_CONFLICT''),
      (ErrFileCopyConflict, ''FILE_COPY_CONFLICT''),
      (ErrUploadSessionNotFound, ''UPLOAD_SESSION_NOT_FOUND''),
      (ErrUploadChunkConflict, ''UPLOAD_CHUNK_CONFLICT''),
      (ErrUploadFinishIncomplete, ''UPLOAD_FINISH_INCOMPLETE''),
      (ErrUploadHashMismatch, ''UPLOAD_HASH_MISMATCH''),
      (ErrUploadInvalidState, ''UPLOAD_INVALID_STATE''),
      (ErrUploadTooLarge, ''UPLOAD_TOO_LARGE''),
      (ErrSourceDriverUnsupported, ''SOURCE_DRIVER_UNSUPPORTED''),
      (ErrSourceOperationUnsupported, ''SOURCE_OPERATION_UNSUPPORTED''),
      (ErrConfigInvalid, ''CONFIG_INVALID''),
      (ErrCloudAuthFailed, ''CLOUD_AUTH_FAILED''),
      (ErrCloudTokenInvalid, ''CLOUD_TOKEN_INVALID''),
      (ErrCloudCaptchaRequired, ''CLOUD_CAPTCHA_REQUIRED''),
      (ErrCloudCaptchaExpired, ''CLOUD_CAPTCHA_REQUIRED''),
      (ErrCloudRateLimited, ''CLOUD_RATE_LIMITED''),
      (ErrCloudRegionBlocked, ''CLOUD_REGION_BLOCKED''),
      (ErrCloudProviderUnavailable, ''CLOUD_PROVIDER_UNAVAILABLE''),
      (ErrSourceReadOnly, ''SOURCE_READ_ONLY''),
      (ErrMetadataVFSMutationSyncFailed, ''METADATA_VFS_MUTATION_SYNC_FAILED''),
      (ErrMetadataVFSCommitFailed, ''METADATA_VFS_COMMIT_FAILED''),
      (ErrPathInvalid, ''PATH_INVALID'')]"

definition mapFileErrorCode :: "app_error \<Rightarrow> string" where
  "mapFileErrorCode err =
     (case find (\<lambda>(e, _). errors_Is err e) file_error_codes of None \<Rightarrow> ''INTERNAL_ERROR'' | Some (_, code) \<Rightarrow> code)"

section \<open>Receiving chunks\<close>

definition find_session :: "string \<Rightarrow> (Host, UploadSession) handler" where
  "find_session uploadID =
     if_err (onDB (up_FindByID uploadID))
       (\<lambda>err. if errors_Is err ErrNotFound then throw ErrUploadSessionNotFound else throw err) ret"

definition UploadChunk ::
  "UploadService \<Rightarrow> Context \<Rightarrow> string \<Rightarrow> int \<Rightarrow> string \<Rightarrow> (Host, UploadChunkResponse) handler" where
  "UploadChunk s ctx uploadID index data =
     tryM (find_session uploadID) (\<lambda>session.
     tryM (authorizeUploadSession s ctx session) (\<lambda>_.
       if index < 0 \<or> index \<ge> up_TotalChunks session then throw ErrUploadInvalidState
       else
         let chunkPath = chunkFilePath s uploadID (nat index);
             response = (\<lambda>already. \<lparr>ucr_UploadID = uploadID, ucr_Index = index,
                ucr_ReceivedBytes = int (length data), ucr_AlreadyUploaded = already\<rparr>)
         in if_err (os_ReadFile chunkPath)
              (\<lambda>_.
                 tryM (os_MkdirAll (path_Dir chunkPath)) (\<lambda>_.
                 tryM (os_WriteFile chunkPath data) (\<lambda>_.
                 tryM (gets host_now) (\<lambda>now.
                   let uploaded = (if index \<in> set (up_UploadedChunks session) then up_UploadedChunks session
                                   else sort (up_UploadedChunks session @ [index]))
                   in tryM (onDB (up_Update (session\<lparr>up_UploadedChunks := uploaded, up_UpdatedAt := now\<rparr>))) (\<lambda>_.
                        ret (response False))))))
              (\<lambda>existing. if existing = data then ret (response True) else throw ErrUploadChunkConflict)))"

section \<open>Finishing\<close>

text \<open>The loop that appends the chunks to the open output.\<close>

fun assemble_loop :: "UploadService \<Rightarrow> string \<Rightarrow> string \<Rightarrow> nat \<Rightarrow> nat \<Rightarrow> (Host, unit) handler" where
  "assemble_loop s uploadID output index 0 = ret ()"
| "assemble_loop s uploadID output index (Suc left) =
     if_err (os_ReadFile (chunkFilePath s uploadID index)) (\<lambda>_. throw ErrUploadFinishIncomplete) (\<lambda>data.
     tryM (file_Write output data) (\<lambda>_.
       assemble_loop s uploadID output (Suc index) left))"

text \<open>Creating the output, assembling it and checking its hash.\<close>

definition assemble :: "UploadService \<Rightarrow> UploadSession \<Rightarrow> string \<Rightarrow> (Host, unit) handler" where
  "assemble s session output =
     tryM (os_Create output) (\<lambda>_.
     tryM (assemble_loop s (up_UploadID session) output 0 (nat (up_TotalChunks session))) (\<lambda>_.
     tryM file_Close (\<lambda>_.
     tryM (hashFileMD5 (ups_env s) output) (\<lambda>hash.
       if up_FileHash session \<noteq> [] \<and> hash \<noteq> up_FileHash session then throw ErrUploadHashMismatch
       else ret ()))))"

definition finish_response :: "UploadSession \<Rightarrow> nat \<Rightarrow> FileItem \<Rightarrow> UploadFinishResponse" where
  "finish_response session resultNodeID item =
     \<lparr>ufs_Completed = True, ufs_UploadID = up_UploadID session, ufs_ResultVFSNodeID = resultNodeID, ufs_File = item\<rparr>"

definition finishLocal ::
  "UploadService \<Rightarrow> StorageSource \<Rightarrow> UploadSession \<Rightarrow> (Host, UploadFinishResponse) handler" where
  "finishLocal s source session =
     (if int (length (up_UploadedChunks session)) < up_TotalChunks session then throw ErrUploadFinishIncomplete
      else
        let targetVirtual = target_virtual (up_Path session) (up_Filename session)
        in tryM (lift (resolvePhysicalPath (ups_unmarshalConfig s) source targetVirtual)) (\<lambda>(_, targetPhysical).
           if_err (os_Stat targetPhysical)
             (\<lambda>_.
                tryM (os_MkdirAll (path_Dir targetPhysical)) (\<lambda>_.
                tryM (assemble s session targetPhysical) (\<lambda>_.
                tryM (os_Stat targetPhysical) (\<lambda>info.
                  let item = buildFileItem (ups_env s) (src_ID source) targetVirtual (path_Base targetPhysical) info
                  in tryM (onDB (commitUploadSessionMetadataFile s source session item None)) (\<lambda>resultNodeID.
                     tryM (ignored (os_RemoveAll (sessionTempDir s (up_UploadID session)))) (\<lambda>_.
                     tryM (ignored (onDB (up_Delete (up_UploadID session)))) (\<lambda>_.
                       ret (finish_response session resultNodeID item))))))))
             (\<lambda>_. throw ErrFileAlreadyExists)))"

definition finishWithUploadDriver ::
  "UploadService \<Rightarrow> StorageSource \<Rightarrow> UploadSession \<Rightarrow> UploadFinishRequest \<Rightarrow> (Host, UploadFinishResponse) handler" where
  "finishWithUploadDriver s source session req =
     (if int (length (ufr_Parts req)) < up_TotalChunks session then throw ErrUploadFinishIncomplete
      else
        tryM (lift (getUploadDriver s (src_DriverType source))) (\<lambda>driver.
        if_err (lift (ups_unmarshalState s (up_StorageDataJSON session))) (\<lambda>_. throw ErrUploadInvalidState) (\<lambda>state.
        tryM (driver_call (\<lambda>n. ud_CompleteMultipartUpload driver n source state
                (map (\<lambda>part. \<lparr>cp_Index = upe_Index part, cp_ETag = upe_ETag part\<rparr>) (ufr_Parts req)))) (\<lambda>entry.
          let item = buildStorageEntryItem (ups_env s) (src_ID source) entry
          in tryM (onDB (commitUploadSessionMetadataFile s source session item (Some entry))) (\<lambda>resultNodeID.
             tryM (ignored (onDB (up_Delete (up_UploadID session)))) (\<lambda>_.
               ret (finish_response session resultNodeID item)))))))"

definition finishWithImportDriver ::
  "UploadService \<Rightarrow> StorageSource \<Rightarrow> UploadSession \<Rightarrow> (Host, UploadFinishResponse) handler" where
  "finishWithImportDriver s source session =
     (if int (length (up_UploadedChunks session)) < up_TotalChunks session then throw ErrUploadFinishIncomplete
      else
        if_err (lift (getImportDriver s (src_DriverType source)))
          (\<lambda>err. if errors_Is err ErrSourceDriverUnsupported then throw ErrSourceOperationUnsupported else throw err)
          (\<lambda>driver.
             let stagedPath = path_Join [sessionTempDir s (up_UploadID session), ''assembled-upload''];
                 targetPath = joinVirtualPath (up_Path session) (up_Filename session)
             in tryM (assemble s session stagedPath) (\<lambda>_.
                if_err (import_call driver source targetPath stagedPath)
                  (\<lambda>err. throw (normalizeImportDriverError err)) (\<lambda>_.
                tryM (gets host_now) (\<lambda>now.
                  let item = buildStorageEntryItem (ups_env s) (src_ID source)
                        \<lparr>se_Name = up_Filename session, se_Path = targetPath, se_IsDir = False,
                         se_Size = up_FileSize session, se_ETag = [], se_Checksum = [], se_MimeType = [],
                         se_ModifiedAt = now, se_ProviderItemID = [], se_ProviderParentID = [],
                         se_LocatorType = [], se_LocatorJSON = []\<rparr>
                  in tryM (onDB (commitUploadSessionMetadataFile s source session item None)) (\<lambda>resultNodeID.
                     tryM (ignored (os_RemoveAll (sessionTempDir s (up_UploadID session)))) (\<lambda>_.
                     tryM (ignored (onDB (up_Delete (up_UploadID session)))) (\<lambda>_.
                       ret (finish_response session resultNodeID item)))))))))"

definition finish_event :: "string \<Rightarrow> string \<Rightarrow> string \<Rightarrow> nat option \<Rightarrow> string \<Rightarrow> Event" where
  "finish_event res code uploadID sourceID virtualPath =
     (event ''file'' ''upload_finish'' res code)
       \<lparr>ev_ResourceID := uploadID, ev_SourceID := sourceID, ev_VirtualPath := virtualPath\<rparr>"

text \<open>
  On an error the two driver branches answer without a response, so that the audited path is
  that of the session.
\<close>

definition Finish :: "UploadService \<Rightarrow> Context \<Rightarrow> UploadFinishRequest \<Rightarrow> (Host, UploadFinishResponse) handler" where
  "Finish s ctx req =
     (let uploadID = ufr_UploadID req;
          audit = (\<lambda>ev k. hostAudited (ups_auditRecorder s) ctx ev k)
      in if_err (onDB (up_FindByID uploadID))
           (\<lambda>err. if errors_Is err ErrNotFound
              then audit (finish_event ResultFailed ''UPLOAD_SESSION_NOT_FOUND'' uploadID None []) (throw ErrUploadSessionNotFound)
              else audit (finish_event ResultFailed ''INTERNAL_ERROR'' uploadID None []) (throw err))
           (\<lambda>session.
         if_err (authorizeUploadSession s ctx session)
           (\<lambda>err. audit (finish_event ResultDenied ''PERMISSION_DENIED'' uploadID (Some (up_SourceID session))
                      (uploadSessionTargetVirtualPath session)) (throw err)) (\<lambda>_.
         if_err (onDB (src_FindByID (up_SourceID session)))
           (\<lambda>err. audit (finish_event ResultFailed ''SOURCE_NOT_FOUND'' uploadID (Some (up_SourceID session))
                      (uploadSessionTargetVirtualPath session)) (throw err)) (\<lambda>source.
         if_err (if src_DriverType source \<noteq> ''local'' then
                   (if isUploadImportSession s session then finishWithImportDriver s source session
                    else finishWithUploadDriver s source session req)
                 else finishLocal s source session)
           (\<lambda>err. audit (finish_event ResultFailed (mapFileErrorCode err) uploadID (Some (src_ID source))
                      (mergeMountAndInnerPath (src_MountPath source) (uploadSessionTargetVirtualPath session))) (throw err))
           (\<lambda>resp.
              let vp = mergeMountAndInnerPath (src_MountPath source) (fi_Path (ufs_File resp))
              in audit ((finish_event ResultSuccess [] uploadID (Some (src_ID source)) vp)
                   \<lparr>ev_After := [(''virtual_path'', PayloadString vp), (''name'', PayloadString (fi_Name (ufs_File resp))),
                                (''size'', PayloadNumber (FormatUint (nat (fi_Size (ufs_File resp)))))]\<rparr>)
                   (ret resp))))))"

section \<open>Listing, cancelling, importing\<close>

definition ListSessions ::
  "UploadService \<Rightarrow> nat \<Rightarrow> nat option \<Rightarrow> string \<Rightarrow> (DB, UploadSessionView list) handler" where
  "ListSessions s userID sourceID status =
     tryM (up_ListByUser userID sourceID status) (\<lambda>items. ret (map (toUploadSessionView s) items))"

definition Cancel :: "UploadService \<Rightarrow> Context \<Rightarrow> string \<Rightarrow> (Host, unit) handler" where
  "Cancel s ctx uploadID =
     tryM (find_session uploadID) (\<lambda>session.
     tryM (authorizeUploadSession s ctx session) (\<lambda>_.
       if up_Status session = ''completed'' then throw ErrUploadInvalidState
       else
         tryM (onDB (up_Delete uploadID)) (\<lambda>_.
           ignored (os_RemoveAll (sessionTempDir s uploadID)))))"

definition importLocalFileIntoLocalSource ::
  "UploadService \<Rightarrow> string \<Rightarrow> StorageSource \<Rightarrow> string \<Rightarrow> string \<Rightarrow> string \<Rightarrow> (Host, FileItem) handler" where
  "importLocalFileIntoLocalSource s tempName source parentPath targetPath localPath =
     (let normalize = normalizeLocalWriteError (ups_env s)
      in tryM (lift (resolvePhysicalPath (ups_unmarshalConfig s) source parentPath)) (\<lambda>(_, parentPhysicalPath).
         if_err (os_Stat parentPhysicalPath)
           (\<lambda>err. if errors_Is err ErrNotExist then throw ErrFileNotFound else throw (normalize err)) (\<lambda>parentInfo.
         if \<not> node_IsDir parentInfo then throw ErrPathInvalid
         else
           tryM (probeLocalDirectoryWritable tempName parentPhysicalPath) (\<lambda>writable.
             if \<not> writable then throw ErrSourceReadOnly
             else
               tryM (lift (resolvePhysicalPath (ups_unmarshalConfig s) source targetPath)) (\<lambda>(_, targetPhysicalPath).
               if_err (copyFile localPath targetPhysicalPath) (\<lambda>err. throw (normalize err)) (\<lambda>_.
               if_err (os_Stat targetPhysicalPath) (\<lambda>err. throw (normalize err)) (\<lambda>info.
                 ret (buildFileItem (ups_env s) (src_ID source) targetPath (path_Base targetPhysicalPath) info))))))))"

definition ImportLocalFile ::
  "UploadService \<Rightarrow> Context \<Rightarrow> string \<Rightarrow> nat \<Rightarrow> string \<Rightarrow> string \<Rightarrow> string \<Rightarrow> (Host, FileItem) handler" where
  "ImportLocalFile s ctx tempName sourceID parentPath0 filename localPath =
     tryM (lift (validateFileName filename)) (\<lambda>_.
     tryM (onDB (src_FindByID sourceID)) (\<lambda>source.
     tryM (lift (normalizeVirtualPath parentPath0)) (\<lambda>parentPath.
     tryM (authorizeUploadPath s ctx (src_ID source) parentPath ACLActionWrite) (\<lambda>_.
     tryM (os_Stat localPath) (\<lambda>info.
       if node_IsDir info then throw ErrFileIsDirectory
       else
         let targetPath = joinVirtualPath parentPath filename
         in tryM (if src_DriverType source = ''local''
                  then importLocalFileIntoLocalSource s tempName source parentPath targetPath localPath
                  else
                    if_err (lift (getImportDriver s (src_DriverType source)))
                      (\<lambda>err. if errors_Is err ErrSourceDriverUnsupported then throw ErrSourceOperationUnsupported else throw err)
                      (\<lambda>driver.
                    if_err (import_call driver source targetPath localPath)
                      (\<lambda>err. throw (normalizeImportDriverError err)) (\<lambda>_.
                    tryM (gets host_now) (\<lambda>now.
                      ret (buildStorageEntryItem (ups_env s) (src_ID source)
                        \<lparr>se_Name = filename, se_Path = targetPath, se_IsDir = False, se_Size = file_Size info,
                         se_ETag = [], se_Checksum = [], se_MimeType = [], se_ModifiedAt = now,
                         se_ProviderItemID = [], se_ProviderParentID = [], se_LocatorType = [], se_LocatorJSON = []\<rparr>)))))
              (\<lambda>item.
                 tryM (onDB (commitImportedFileMetadata s ctx source parentPath filename item)) (\<lambda>_. ret item)))))))"

end
