(* ===== verification/Upload_Correct.thy ===== *)
theory Upload_Correct
  imports Upload
begin

text \<open>
  Correctness of uploads: a finished file is the concatenation of the chunks that were sent, in
  order, whatever operations fail on the way; the number of chunks covers the file exactly;
  nobody but the owner acts on a session; a failing finish keeps session and chunks.
\<close>

section \<open>What handlers leave alone\<close>

text \<open>
  \<open>frames Q I m\<close>: whatever its result, \<open>m\<close> keeps every file and directory at a path with \<open>Q\<close>,
  and relates the databases before and after by \<open>I\<close>.
\<close>

definition frames :: "(string \<Rightarrow> bool) \<Rightarrow> (DB \<Rightarrow> DB \<Rightarrow> bool) \<Rightarrow> (Host, 'a) handler \<Rightarrow> bool" where
  "frames Q I m \<longleftrightarrow> (\<forall>h r h'. m h = (r, h') \<longrightarrow>
     (\<forall>p x. Q p \<longrightarrow> host_fs h p = Some x \<longrightarrow> host_fs h' p = Some x) \<and> I (host_db h) (host_db h'))"

named_theorems framed

lemma framesD:
  assumes "frames Q I m" "m h = (r, h')"
  shows "Q p \<Longrightarrow> host_fs h p = Some x \<Longrightarrow> host_fs h' p = Some x" "I (host_db h) (host_db h')"
  using assms by (simp_all add: frames_def)

lemma frames_basic [framed]:
  assumes "reflp I"
  shows "frames Q I (ret x)" "frames Q I (throw e)" "frames Q I (lift y)" "frames Q I (gets g)"
  using assms by (simp_all add: frames_def handler_defs reflp_def)

lemma frames_if_err [framed]:
  assumes "transp I" "frames Q I m" "\<And>e. frames Q I (h e)" "\<And>x. frames Q I (f x)"
  shows "frames Q I (if_err m h f)"
  unfolding frames_def
proof (intro allI impI)
  fix s r s'
  assume a: "if_err m h f s = (r, s')"
  obtain r1 s1 where 1: "m s = (r1, s1)" by force
  have "(\<forall>p x. Q p \<longrightarrow> host_fs s1 p = Some x \<longrightarrow> host_fs s' p = Some x) \<and> I (host_db s1) (host_db s')"
    using a 1 assms(3,4) by (cases r1) (auto simp: frames_def)
  then show "(\<forall>p x. Q p \<longrightarrow> host_fs s p = Some x \<longrightarrow> host_fs s' p = Some x) \<and> I (host_db s) (host_db s')"
    using framesD [OF assms(2) 1] transpD [OF assms(1)] by blast
qed

lemma frames_if [framed]: "(b \<Longrightarrow> frames Q I m) \<Longrightarrow> (\<not> b \<Longrightarrow> frames Q I m') \<Longrightarrow> frames Q I (if b then m else m')"
  by simp

lemma frames_quiet:
  assumes "reflp I" "\<And>h r h'. m h = (r, h') \<Longrightarrow> quiet h h'"
  shows "frames Q I m"
  using assms(1) quietD [OF assms(2)] unfolding frames_def reflp_def by metis

lemma frames_onDB [framed]:
  assumes "\<And>db r db'. m db = (r, db') \<Longrightarrow> I db db'"
  shows "frames Q I (onDB m)"
  using assms by (auto simp: frames_def onDB_def split: prod.splits)

lemma frames_fs_op:
  assumes "reflp I"
    and "\<And>h r h'. f h = (r, h') \<Longrightarrow> (\<forall>p x. Q p \<longrightarrow> host_fs h p = Some x \<longrightarrow> host_fs h' p = Some x) \<and> host_db h' = host_db h"
    and "\<And>h k. (\<forall>p x. Q p \<longrightarrow> host_fs h p = Some x \<longrightarrow> host_fs (failed k h) p = Some x) \<and> host_db (failed k h) = host_db h"
  shows "frames Q I (fs_op failed f)"
  unfolding frames_def
proof (intro allI impI)
  fix h r h'
  assume "fs_op failed f h = (r, h')"
  then show "(\<forall>p x. Q p \<longrightarrow> host_fs h p = Some x \<longrightarrow> host_fs h' p = Some x) \<and> I (host_db h) (host_db h')"
  proof (cases rule: fs_op_cases)
    case (fault msg k h0)
    then show ?thesis using quietD [OF fault(2)] assms(3) [of h0 k] assms(1) by (auto simp: reflp_def)
  next
    case (run h0)
    then show ?thesis using quietD [OF run(1)] assms(2) [OF run(2)] assms(1) by (auto simp: reflp_def)
  qed
qed

lemma mkdir_fold_keeps:
  "fs p = Some x \<Longrightarrow> fold (\<lambda>d fs. if fs d = None then fs(d \<mapsto> y) else fs) ds fs p = Some x"
proof (induction ds arbitrary: fs)
  case (Cons d ds)
  then have "(if fs d = None then fs(d \<mapsto> y) else fs) p = Some x" by auto
  then show ?case using Cons.IH by simp
qed simp

lemma frames_files [framed]:
  assumes "reflp I"
  shows "frames Q I (os_Stat p)" "frames Q I (os_ReadFile p)" "frames Q I (hashFileMD5 env p)" "frames Q I file_Close"
    "frames Q I (os_MkdirAll p)"
    "\<not> Q p \<Longrightarrow> frames Q I (os_Create p)" "\<not> Q p \<Longrightarrow> frames Q I (file_Write p data)"
    "(\<And>p'. Q p' \<Longrightarrow> \<not> below p p') \<Longrightarrow> frames Q I (os_RemoveAll p)"
proof -
  show "frames Q I (os_Stat p)" "frames Q I (os_ReadFile p)"
    using os_Stat_reads(1) os_ReadFile_reads(1) by (auto intro: frames_quiet [OF assms])
  show "frames Q I (hashFileMD5 env p)"
    by (rule frames_quiet [OF assms])
      (auto simp: hashFileMD5_def if_err_def ret_def throw_def dest: os_ReadFile_reads(1) split: prod.splits sum.splits)
  show "frames Q I file_Close"
    unfolding file_Close_def by (rule frames_fs_op [OF assms]) (auto simp: ret_def)
  show "frames Q I (os_MkdirAll p)"
    unfolding os_MkdirAll_def by (rule frames_fs_op [OF assms]) (auto simp: mkdir_fold_keeps split: if_splits)
  show "\<not> Q p \<Longrightarrow> frames Q I (os_Create p)"
    unfolding os_Create_def by (rule frames_fs_op [OF assms]) (auto simp: set_node_def split: if_splits)
  have ap: "(\<forall>q x. Q q \<longrightarrow> host_fs h q = Some x \<longrightarrow> host_fs (append_bytes p d h) q = Some x) \<and>
      host_db (append_bytes p d h) = host_db h" if "\<not> Q p" for d h
    using that by (auto simp: append_bytes_def set_node_def split: option.split fs_node.split)
  show "\<not> Q p \<Longrightarrow> frames Q I (file_Write p data)"
    unfolding file_Write_def by (rule frames_fs_op [OF assms]) (auto simp: modify_def ap)
  show "(\<And>p'. Q p' \<Longrightarrow> \<not> below p p') \<Longrightarrow> frames Q I (os_RemoveAll p)"
    unfolding os_RemoveAll_def by (rule frames_fs_op [OF assms]) (auto simp: modify_def)
qed

lemma frames_ignored [framed]: "reflp I \<Longrightarrow> transp I \<Longrightarrow> frames Q I m \<Longrightarrow> frames Q I (ignored m)"
  unfolding ignored_def by (intro framed)

lemma frames_driver_call [framed]: "reflp I \<Longrightarrow> frames Q I (driver_call f)"
  by (auto simp: frames_def driver_call_def reflp_def)

lemma frames_import_call [framed]: "reflp I \<Longrightarrow> frames Q I (import_call d source tp lp)"
  by (auto simp: frames_def import_call_def driver_call_def reflp_def Let_def)

lemma frames_WriteFile [framed]:
  "reflp I \<Longrightarrow> transp I \<Longrightarrow> \<not> Q p \<Longrightarrow> frames Q I (os_WriteFile p data)"
  unfolding os_WriteFile_def by (intro framed)

section \<open>Writing files\<close>

lemma os_Create_ok:
  assumes "os_Create p h = (Inr u, h')"
  obtains t where "host_fs h' = (host_fs h)(p \<mapsto> Regular [] t)"
  using assms unfolding os_Create_def
  by (cases rule: fs_op_cases) (auto simp: set_node_def dest: quietD split: if_splits)

lemma file_Write_ok:
  assumes "file_Write p data h = (Inr u, h')" "host_fs h p = Some (Regular bs t)"
  obtains t' where "host_fs h' = (host_fs h)(p \<mapsto> Regular (bs @ data) t')"
  using assms(1) unfolding file_Write_def
proof (cases rule: fs_op_cases)
  case (run h0)
  then show ?thesis
    using that quietD [OF run(1)] assms(2) by (auto simp: modify_def append_bytes_def set_node_def)
qed simp

lemma file_Close_quiet: "file_Close h = (r, h') \<Longrightarrow> quiet h h'"
  unfolding file_Close_def by (cases rule: fs_op_cases) (auto simp: ret_def)

lemma os_WriteFile_ok:
  assumes "os_WriteFile p data h = (Inr u, h')"
  obtains t where "host_fs h' = (host_fs h)(p \<mapsto> Regular data t)"
proof -
  obtain u1 h1 u2 h2 where 1: "os_Create p h = (Inr u1, h1)" and 2: "file_Write p data h1 = (Inr u2, h2)"
    and 3: "file_Close h2 = (Inr u, h')"
    using assms unfolding os_WriteFile_def by (elim tryE) blast
  obtain t1 where t1: "host_fs h1 = (host_fs h)(p \<mapsto> Regular [] t1)" using os_Create_ok [OF 1] .
  then have "host_fs h1 p = Some (Regular [] t1)" by simp
  from file_Write_ok [OF 2 this] obtain t2 where "host_fs h2 = (host_fs h1)(p \<mapsto> Regular data t2)" by auto
  then show thesis using that t1 quietD(1) [OF file_Close_quiet [OF 3]] by (metis fun_upd_upd)
qed

text \<open>The loop appends the contents of the chunk files, which it leaves alone.\<close>

definition chunk_contents :: "UploadService \<Rightarrow> string \<Rightarrow> files \<Rightarrow> nat \<Rightarrow> nat \<Rightarrow> string list \<Rightarrow> bool" where
  "chunk_contents s uploadID fs index n ds \<longleftrightarrow> length ds = n \<and>
     (\<forall>k < n. \<exists>t. fs (chunkFilePath s uploadID (index + k)) = Some (Regular (ds ! k) t))"

lemma assemble_loop_appends:
  assumes "assemble_loop s uploadID out index n h = (Inr u, h')"
    and "host_fs h out = Some (Regular bs t)" "\<And>i. chunkFilePath s uploadID i \<noteq> out"
  shows "\<exists>ds t'. chunk_contents s uploadID (host_fs h) index n ds \<and>
    host_fs h' = (host_fs h)(out \<mapsto> Regular (bs @ concat ds) t')"
  using assms
proof (induction n arbitrary: index bs t h)
  case 0
  then show ?case by (auto simp: ret_def chunk_contents_def fun_upd_idem intro!: exI [of _ t])
next
  case (Suc n)
  obtain r1 h1 where 1: "os_ReadFile (chunkFilePath s uploadID index) h = (r1, h1)" by force
  note q1 = quietD [OF os_ReadFile_reads(1) [OF 1]]
  obtain d where d: "r1 = Inr d"
    using Suc.prems(1) 1 by (cases r1) (auto simp: throw_def)
  then obtain td where td: "host_fs h (chunkFilePath s uploadID index) = Some (Regular d td)"
    using os_ReadFile_reads(2) [OF 1] by (auto simp: read_node_def split: option.splits fs_node.splits)
  obtain u2 h2 where 2: "file_Write out d h1 = (Inr u2, h2)"
    and 3: "assemble_loop s uploadID out (Suc index) n h2 = (Inr u, h')"
    using Suc.prems(1) 1 d by (auto elim: tryE)
  have "host_fs h1 out = Some (Regular bs t)" using Suc.prems(2) q1 by simp
  from file_Write_ok [OF 2 this] obtain t2 where t2: "host_fs h2 = (host_fs h)(out \<mapsto> Regular (bs @ d) t2)"
    using q1 by metis
  then have "host_fs h2 out = Some (Regular (bs @ d) t2)" by simp
  from Suc.IH [OF 3 this Suc.prems(3)] obtain ds t' where
    ds: "chunk_contents s uploadID (host_fs h2) (Suc index) n ds"
      "host_fs h' = (host_fs h2)(out \<mapsto> Regular ((bs @ d) @ concat ds) t')" by blast
  have "chunk_contents s uploadID (host_fs h) index (Suc n) (d # ds)"
    using ds(1) td t2 Suc.prems(3) by (auto simp: chunk_contents_def less_Suc_eq_0_disj)
  moreover have "host_fs h' = (host_fs h)(out \<mapsto> Regular (bs @ concat (d # ds)) t')"
    using ds(2) t2 by simp
  ultimately show ?case by blast
qed

lemma assemble_ok:
  assumes "assemble s session out h = (Inr u, h')" "\<And>i. chunkFilePath s (up_UploadID session) i \<noteq> out"
  obtains ds t where "chunk_contents s (up_UploadID session) (host_fs h) 0 (nat (up_TotalChunks session)) ds"
    "host_fs h' = (host_fs h)(out \<mapsto> Regular (concat ds) t)"
    "up_FileHash session = [] \<or> env_md5hex (ups_env s) (concat ds) = up_FileHash session"
proof -
  let ?id = "up_UploadID session"
  obtain u1 h1 u2 h2 u3 h3 hash h4 where 1: "os_Create out h = (Inr u1, h1)"
    and 2: "assemble_loop s ?id out 0 (nat (up_TotalChunks session)) h1 = (Inr u2, h2)"
    and 3: "file_Close h2 = (Inr u3, h3)" and 4: "hashFileMD5 (ups_env s) out h3 = (Inr hash, h4)"
    and 5: "(if up_FileHash session \<noteq> [] \<and> hash \<noteq> up_FileHash session then throw ErrUploadHashMismatch
       else ret ()) h4 = (Inr u, h')"
    using assms(1) unfolding assemble_def by (elim tryE) blast
  obtain t1 where t1: "host_fs h1 = (host_fs h)(out \<mapsto> Regular [] t1)" using os_Create_ok [OF 1] .
  then have "host_fs h1 out = Some (Regular [] t1)" by simp
  from assemble_loop_appends [OF 2 this assms(2)] obtain ds t' where
    ds: "chunk_contents s ?id (host_fs h1) 0 (nat (up_TotalChunks session)) ds"
      "host_fs h2 = (host_fs h1)(out \<mapsto> Regular (concat ds) t')" by auto
  obtain bs where 6: "os_ReadFile out h3 = (Inr bs, h4)" "hash = env_md5hex (ups_env s) bs"
    using 4 unfolding hashFileMD5_def by (elim tryE) (auto simp: ret_def)
  have f3: "host_fs h3 = host_fs h2" using quietD(1) [OF file_Close_quiet [OF 3]] .
  have "bs = concat ds" using os_ReadFile_reads(2) [OF 6(1)] f3 ds(2) by (simp add: read_node_def)
  moreover have "host_fs h' = host_fs h3" "up_FileHash session = [] \<or> hash = up_FileHash session"
    using 5 quietD(1) [OF os_ReadFile_reads(1) [OF 6(1)]] by (auto simp: throw_def ret_def split: if_splits)
  ultimately show thesis
    using that [of ds t'] ds t1 f3 6(2) assms(2) by (auto simp: chunk_contents_def)
qed


lemma os_MkdirAll_files:
  assumes "os_MkdirAll p h = (r, h')"
  shows "host_fs h' q = Some (Regular bs t) \<longleftrightarrow> host_fs h q = Some (Regular bs t)" "host_db h' = host_db h"
proof -
  have new: "fold (\<lambda>d fs. if fs d = None then fs(d \<mapsto> Directory n) else fs) ds fs q = Some (Regular bs t) \<longleftrightarrow>
      fs q = Some (Regular bs t)" for ds fs n
    by (induction ds arbitrary: fs) auto
  have "(host_fs h' q = Some (Regular bs t) \<longleftrightarrow> host_fs h q = Some (Regular bs t)) \<and> host_db h' = host_db h"
    using assms unfolding os_MkdirAll_def
    by (cases rule: fs_op_cases) (auto simp: new dest: quietD split: if_splits)
  then show "host_fs h' q = Some (Regular bs t) \<longleftrightarrow> host_fs h q = Some (Regular bs t)" "host_db h' = host_db h" by auto
qed

lemma os_RemoveAll_files:
  assumes "os_RemoveAll p h = (r, h')"
  shows "\<not> below p q \<Longrightarrow> host_fs h' q = host_fs h q" "host_db h' = host_db h"
  using assms unfolding os_RemoveAll_def
  by (cases rule: fs_op_cases; auto simp: modify_def dest: quietD)+

lemma onDB_run:
  assumes "onDB m h = (r, h')"
  shows "m (host_db h) = (r, host_db h')" "host_fs h' = host_fs h" "host_imports h' = host_imports h"
  using assms by (auto simp: onDB_def split: prod.splits)

lemma ignored_ok:
  assumes "ignored m h = (r, h')"
  obtains r' where "m h = (r', h')" "r = Inr ()"
  using assms that by (cases "m h"; cases "fst (m h)") (auto simp: ignored_def ret_def)

lemma hostAudited_run:
  obtains h1 where "hostAudited r ctx ev k h = k h1" "host_fs h1 = host_fs h" "audit_only (host_db h) (host_db h1)"
proof -
  obtain x h1 where 1: "onDB (recordServiceAudit r ctx ev) h = (x, h1)" by force
  note d = onDB_run [OF 1]
  have "x = Inr () \<and> audit_only (host_db h) (host_db h1)" using recordServiceAudit_only [OF d(1)] .
  then show thesis using that [of h1] 1 d(2) by (simp add: hostAudited_def)
qed

lemma hostAudited_throw: "hostAudited r ctx ev (throw e :: (Host, 'a) handler) h \<noteq> (Inr x, h')"
proof
  assume a: "hostAudited r ctx ev (throw e :: (Host, 'a) handler) h = (Inr x, h')"
  obtain h1 where "hostAudited r ctx ev (throw e :: (Host, 'a) handler) h = throw e h1" by (rule hostAudited_run)
  then show False using a by (simp add: throw_def)
qed

section \<open>A finished file is the concatenation of its chunks\<close>

text \<open>The file a session is about to create, and that it is apart from the chunk files.\<close>

definition upload_target :: "UploadService \<Rightarrow> StorageSource \<Rightarrow> UploadSession \<Rightarrow> string result" where
  "upload_target s source session =
     tryp (resolvePhysicalPath (ups_unmarshalConfig s) source (target_virtual (up_Path session) (up_Filename session)))
       (\<lambda>(_, p). Inr p)"

definition apart :: "UploadService \<Rightarrow> string \<Rightarrow> string \<Rightarrow> bool" where
  "apart s uploadID p \<longleftrightarrow> \<not> below (sessionTempDir s uploadID) p"

definition assembled :: "UploadService \<Rightarrow> UploadSession \<Rightarrow> string \<Rightarrow> string list \<Rightarrow> Host \<Rightarrow> Host \<Rightarrow> bool" where
  "assembled s session p ds h h' \<longleftrightarrow>
     chunk_contents s (up_UploadID session) (host_fs h) 0 (nat (up_TotalChunks session)) ds \<and>
     (\<exists>t. host_fs h' p = Some (Regular (concat ds) t)) \<and>
     (up_FileHash session = [] \<or> env_md5hex (ups_env s) (concat ds) = up_FileHash session)"

lemma finishLocal_ok:
  assumes call: "finishLocal s source session h = (Inr resp, h')"
    and tgt: "upload_target s source session = Inr p" "apart s (up_UploadID session) p"
      "\<And>i. chunkFilePath s (up_UploadID session) i \<noteq> p"
  shows "\<exists>ds. assembled s session p ds h h' \<and> fi_Size (ufs_File resp) = int (length (concat ds))"
proof -
  let ?id = "up_UploadID session"
  obtain base where rp: "resolvePhysicalPath (ups_unmarshalConfig s) source (target_virtual (up_Path session) (up_Filename session)) = Inr (base, p)"
    using tgt(1) by (auto simp: upload_target_def tryp_Inr)
  obtain r0 h0 where 0: "os_Stat p h = (r0, h0)" by force
  note q0 = quietD [OF os_Stat_reads(1) [OF 0]]
  let ?item = "buildFileItem (ups_env s) (src_ID source) (target_virtual (up_Path session) (up_Filename session)) (path_Base p)"
  obtain u1 h1 u2 h2 info h3 nid h4 u5 h5 u6 h6 where
    1: "os_MkdirAll (path_Dir p) h0 = (Inr u1, h1)" and 2: "assemble s session p h1 = (Inr u2, h2)"
    and 3: "os_Stat p h2 = (Inr info, h3)"
    and 4: "onDB (commitUploadSessionMetadataFile s source session (?item info) None) h3 = (Inr nid, h4)"
    and 5: "ignored (os_RemoveAll (sessionTempDir s ?id)) h4 = (Inr u5, h5)"
    and 6: "ignored (onDB (up_Delete ?id)) h5 = (Inr u6, h6)"
    and res: "h' = h6" "resp = finish_response session nid (?item info)"
  proof -
    have "if_err (os_Stat p)
             (\<lambda>_.
                tryM (os_MkdirAll (path_Dir p)) (\<lambda>_.
                tryM (assemble s session p) (\<lambda>_.
                tryM (os_Stat p) (\<lambda>info.
                  tryM (onDB (commitUploadSessionMetadataFile s source session (?item info) None)) (\<lambda>resultNodeID.
                     tryM (ignored (os_RemoveAll (sessionTempDir s ?id))) (\<lambda>_.
                     tryM (ignored (onDB (up_Delete ?id))) (\<lambda>_.
                       ret (finish_response session resultNodeID (?item info)))))))))
             (\<lambda>_. throw ErrFileAlreadyExists) h = (Inr resp, h')"
      using call rp by (simp add: finishLocal_def Let_def lift_def throw_def if_err_def split: if_splits)
    then have "tryM (os_MkdirAll (path_Dir p)) (\<lambda>_.
                tryM (assemble s session p) (\<lambda>_.
                tryM (os_Stat p) (\<lambda>info.
                  tryM (onDB (commitUploadSessionMetadataFile s source session (?item info) None)) (\<lambda>resultNodeID.
                     tryM (ignored (os_RemoveAll (sessionTempDir s ?id))) (\<lambda>_.
                     tryM (ignored (onDB (up_Delete ?id))) (\<lambda>_.
                       ret (finish_response session resultNodeID (?item info)))))))) h0 = (Inr resp, h')"
      using 0 by (cases r0) (simp_all add: throw_def)
    then show thesis by (elim tryE) (rule that, (assumption | simp add: ret_def)+)
  qed
  have rg: "host_fs h1 q = Some (Regular bs t) \<longleftrightarrow> host_fs h q = Some (Regular bs t)" for q bs t
    using os_MkdirAll_files(1) [OF 1] q0(1) by simp
  obtain ds t where ds: "chunk_contents s ?id (host_fs h1) 0 (nat (up_TotalChunks session)) ds"
    "host_fs h2 = (host_fs h1)(p \<mapsto> Regular (concat ds) t)"
    "up_FileHash session = [] \<or> env_md5hex (ups_env s) (concat ds) = up_FileHash session"
    using assemble_ok [OF 2 tgt(3)] by metis
  have info: "info = Regular (concat ds) t" using os_Stat_reads(2) [OF 3] ds(2) by simp
  have f4: "host_fs h4 p = Some info"
    using onDB_run(2) [OF 4] quietD(1) [OF os_Stat_reads(1) [OF 3]] ds(2) info by simp
  obtain r5 r6 where "os_RemoveAll (sessionTempDir s ?id) h4 = (r5, h5)" "onDB (up_Delete ?id) h5 = (r6, h6)"
    using ignored_ok [OF 5] ignored_ok [OF 6] by metis
  then have "host_fs h6 p = Some info"
    using os_RemoveAll_files(1) tgt(2) onDB_run(2) f4 by (metis apart_def)
  then have "assembled s session p ds h h'"
    using ds(1,3) rg info res(1) by (auto simp: assembled_def chunk_contents_def)
  moreover have "fi_Size (ufs_File resp) = int (length (concat ds))"
    using res(2) info by (simp add: finish_response_def buildFileItem_def Let_def node_IsDir_def file_Size_def)
  ultimately show ?thesis by blast
qed


section \<open>Chunk files\<close>

definition digits_value :: "string \<Rightarrow> nat" where
  "digits_value ds = foldl (\<lambda>a c. a * 10 + (of_char c - 48)) 0 ds"

lemma digits_value_snoc: "digits_value (ds @ [c]) = digits_value ds * 10 + (of_char c - 48)"
  by (simp add: digits_value_def)

lemma digits_value_FormatUint: "digits_value (FormatUint n) = n"
proof (induction n rule: FormatUint.induct)
  case (1 n)
  show ?case
  proof (cases "n < 10")
    case True
    then show ?thesis by (simp add: FormatUint.simps [of n] digits_value_def)
  next
    case False
    then show ?thesis using 1 by (subst FormatUint.simps) (simp add: digits_value_snoc)
  qed
qed

lemma digits_value_zeros: "digits_value (replicate k CHR ''0'' @ ds) = digits_value ds"
  by (induction k) (simp_all add: digits_value_def)

lemma chunk_name_inj: "chunk_name i = chunk_name j \<Longrightarrow> i = j"
proof -
  let ?z = "\<lambda>i. replicate (6 - length (FormatUint i)) CHR ''0'' @ FormatUint i"
  assume "chunk_name i = chunk_name j"
  then have "?z i = ?z j" by (simp add: chunk_name_def Let_def flip: append_assoc)
  then have "digits_value (?z i) = digits_value (?z j)" by simp
  then show "i = j" by (simp only: digits_value_zeros digits_value_FormatUint)
qed

lemma FormatUint_no_slash: "CHR ''/'' \<notin> set (FormatUint n)"
proof (induction n rule: FormatUint.induct)
  case (1 n)
  have d: "char_of (48 + m) \<noteq> CHR ''/''" if "m < 10" for m :: nat
  proof
    assume "char_of (48 + m) = CHR ''/''"
    then have "(of_char (char_of (48 + m)) :: nat) = of_char (CHR ''/'')" by simp
    then show False using that by simp
  qed
  show ?case
    using 1 d [of n] d [of "n mod 10"] by (subst FormatUint.simps) auto
qed

lemma chunk_name_kept: "kept (chunk_name i)"
  using FormatUint_no_slash by (auto simp: kept_def chunk_name_def Let_def)

text \<open>With an absolute temporary directory the files of a session lie in its directory.\<close>

definition tmp_ok :: "UploadService \<Rightarrow> string \<Rightarrow> bool" where
  "tmp_ok s uploadID \<longleftrightarrow> HasPrefix (so_TempDir (ups_options s)) ''/'' \<and> kept uploadID"

lemma chunk_paths:
  assumes "tmp_ok s uploadID"
  shows "below (sessionTempDir s uploadID) (chunkFilePath s uploadID i)"
    "chunkFilePath s uploadID i = chunkFilePath s uploadID j \<Longrightarrow> i = j"
proof -
  obtain ws where ws: "kepts ws" "sessionTempDir s uploadID = render (ws @ [uploadID])"
    using assms join_seg [of "so_TempDir (ups_options s)" uploadID] unfolding tmp_ok_def sessionTempDir_def by metis
  have k: "kepts (ws @ [uploadID])" using ws(1) assms by (simp add: tmp_ok_def)
  have j: "chunkFilePath s uploadID i = render (ws @ [uploadID, chunk_name i])" for i
  proof -
    obtain vs where "path_Clean (render (ws @ [uploadID])) = render vs"
      "path_Join [render (ws @ [uploadID]), chunk_name i] = render (vs @ [chunk_name i])" "kepts vs"
      using join_seg [OF render_HasPrefix chunk_name_kept] by metis
    moreover from this have "vs = ws @ [uploadID]"
      using Clean_render_kept [OF k] segs_of_render_kept k by metis
    ultimately show ?thesis by (simp add: chunkFilePath_def ws(2))
  qed
  have "render (ws @ [uploadID, chunk_name i]) = render (ws @ [uploadID]) @ ''/'' @ chunk_name i"
    using render_snoc [of "ws @ [uploadID]" "chunk_name i"] by simp
  then show "below (sessionTempDir s uploadID) (chunkFilePath s uploadID i)"
    unfolding j ws(2) below_def by (auto simp: prefix_def)
  assume "chunkFilePath s uploadID i = chunkFilePath s uploadID j"
  then have "render (ws @ [uploadID, chunk_name i]) = render (ws @ [uploadID, chunk_name j])" unfolding j .
  moreover have "kepts (ws @ [uploadID, chunk_name i])" for i using k chunk_name_kept by auto
  ultimately have "ws @ [uploadID, chunk_name i] = ws @ [uploadID, chunk_name j]"
    using segs_of_render_kept by metis
  then show "i = j" using chunk_name_inj by simp
qed

lemma chunk_apart: "tmp_ok s uploadID \<Longrightarrow> apart s uploadID p \<Longrightarrow> chunkFilePath s uploadID i \<noteq> p"
  using chunk_paths(1) by (auto simp: apart_def)

section \<open>Receiving chunks\<close>

lemma find_session_ok:
  assumes "find_session uploadID h = (Inr x, h')"
  shows "find (\<lambda>x. up_UploadID x = uploadID) (db_uploads (host_db h)) = Some x" "host_fs h' = host_fs h"
    "same_tables (host_db h) (host_db h')"
proof -
  obtain r h1 where 1: "onDB (up_FindByID uploadID) h = (r, h1)" by force
  have "r = Inr x" "h1 = h'"
    using assms 1 by (cases r; auto simp: find_session_def throw_def ret_def split: if_splits)+
  then have d: "up_FindByID uploadID (host_db h) = (Inr x, host_db h')" "host_fs h' = host_fs h"
    using onDB_run [OF 1] by simp_all
  from d(1) [unfolded up_FindByID_def] table_query_tables(8)
  show "find (\<lambda>x. up_UploadID x = uploadID) (db_uploads (host_db h)) = Some x"
    by (cases rule: find_row_cases) auto
  from d(1) [unfolded up_FindByID_def] table_query_tables(8)
  show "same_tables (host_db h) (host_db h')" by (cases rule: find_row_cases) auto
  show "host_fs h' = host_fs h" by (rule d(2))
qed

lemma authorizeUploadSession_ok:
  assumes "authorizeUploadSession s ctx session h = (Inr u, h')"
  shows "h' = h" "\<exists>auth. ctx_auth ctx = Some auth \<and> auth_UserID auth = up_UserID session"
  using assms
  by (auto simp: authorizeUploadSession_def authorizeUploadPath_def throw_def split: option.splits if_splits)

lemma UploadChunk_stores:
  assumes call: "UploadChunk s ctx uploadID i d h = (Inr resp, h')"
  shows "\<exists>t. host_fs h' (chunkFilePath s uploadID (nat i)) = Some (Regular d t)"
    "q \<noteq> chunkFilePath s uploadID (nat i) \<Longrightarrow> host_fs h' q = Some (Regular b t) \<longleftrightarrow> host_fs h q = Some (Regular b t)"
proof -
  let ?c = "chunkFilePath s uploadID (nat i)"
  obtain session h1 u2 h2 where 1: "find_session uploadID h = (Inr session, h1)"
    and 2: "authorizeUploadSession s ctx session h1 = (Inr u2, h2)" and h2: "h2 = h1"
    using call unfolding UploadChunk_def by (elim tryE) (use authorizeUploadSession_ok(1) in blast)
  note f1 = find_session_ok(2) [OF 1]
  obtain r3 h3 where 3: "os_ReadFile ?c h1 = (r3, h3)" by force
  note f3 = quietD(1) [OF os_ReadFile_reads(1) [OF 3]]
  have "(\<exists>t. host_fs h' ?c = Some (Regular d t)) \<and>
    (\<forall>q b t. q \<noteq> ?c \<longrightarrow> (host_fs h' q = Some (Regular b t) \<longleftrightarrow> host_fs h q = Some (Regular b t)))"
  proof (cases r3)
    case (Inr existing)
    then have "existing = d" "h' = h3"
      using call 1 2 h2 3 by (auto simp: UploadChunk_def Let_def throw_def ret_def split: if_splits)
    moreover have "read_node (host_fs h1 ?c) = Inr existing" using os_ReadFile_reads(2) [OF 3 Inr] .
    ultimately show ?thesis
      using f1 f3 by (auto simp: read_node_def split: option.splits fs_node.splits)
  next
    case (Inl e)
    let ?k = "\<lambda>now. session\<lparr>up_UploadedChunks := (if i \<in> set (up_UploadedChunks session) then up_UploadedChunks session
                                   else sort (up_UploadedChunks session @ [i])), up_UpdatedAt := now\<rparr>"
    let ?resp = "\<lparr>ucr_UploadID = uploadID, ucr_Index = i, ucr_ReceivedBytes = int (length d), ucr_AlreadyUploaded = False\<rparr>"
    have "tryM (os_MkdirAll (path_Dir ?c)) (\<lambda>_. tryM (os_WriteFile ?c d) (\<lambda>_. tryM (gets host_now) (\<lambda>now.
          tryM (onDB (up_Update (?k now))) (\<lambda>_. ret ?resp)))) h3 = (Inr resp, h')"
      using call 1 2 h2 3 Inl by (auto simp: UploadChunk_def Let_def throw_def split: if_splits)
    then obtain u4 h4 u5 h5 where 4: "os_MkdirAll (path_Dir ?c) h3 = (Inr u4, h4)"
      and 5: "os_WriteFile ?c d h4 = (Inr u5, h5)" and f6: "host_fs h' = host_fs h5"
      by (elim tryE) (auto simp: ret_def gets_def dest: onDB_run(2))
    obtain t where t: "host_fs h5 = (host_fs h4)(?c \<mapsto> Regular d t)" using os_WriteFile_ok [OF 5] .
    then show ?thesis using f1 f3 f6 os_MkdirAll_files(1) [OF 4] by simp
  qed
  then show "\<exists>t. host_fs h' ?c = Some (Regular d t)"
    "q \<noteq> ?c \<Longrightarrow> host_fs h' q = Some (Regular b t) \<longleftrightarrow> host_fs h q = Some (Regular b t)"
    by blast+
qed


section \<open>Finishing\<close>

abbreviation finish_part ::
  "UploadService \<Rightarrow> UploadFinishRequest \<Rightarrow> StorageSource \<Rightarrow> UploadSession \<Rightarrow> (Host, UploadFinishResponse) handler" where
  "finish_part s req source session \<equiv>
     (if src_DriverType source \<noteq> ''local'' then
        (if isUploadImportSession s session then finishWithImportDriver s source session
         else finishWithUploadDriver s source session req)
      else finishLocal s source session)"

lemma up_FindByID_cases:
  assumes "onDB (up_FindByID uploadID) h = (r, h1)"
  shows "host_fs h1 = host_fs h" "same_tables (host_db h) (host_db h1)"
    "r = Inr x \<Longrightarrow> find (\<lambda>x. up_UploadID x = uploadID) (db_uploads (host_db h)) = Some x"
proof -
  note d = onDB_run [OF assms, unfolded up_FindByID_def]
  show "host_fs h1 = host_fs h" by (rule d(2))
  from d(1) table_query_tables(8) show "same_tables (host_db h) (host_db h1)" by (cases rule: find_row_cases)
  from d(1) table_query_tables(8)
  show "r = Inr x \<Longrightarrow> find (\<lambda>x. up_UploadID x = uploadID) (db_uploads (host_db h)) = Some x"
    by (cases rule: find_row_cases) auto
qed

lemma src_FindByID_cases:
  assumes "onDB (src_FindByID i) h = (r, h1)"
  shows "host_fs h1 = host_fs h" "same_tables (host_db h) (host_db h1)"
    "r = Inr x \<Longrightarrow> find (\<lambda>x. src_ID x = i) (db_sources (host_db h)) = Some x"
proof -
  note d = onDB_run [OF assms, unfolded src_FindByID_def]
  show "host_fs h1 = host_fs h" by (rule d(2))
  from d(1) table_query_tables(3) show "same_tables (host_db h) (host_db h1)" by (cases rule: find_row_cases)
  from d(1) table_query_tables(3)
  show "r = Inr x \<Longrightarrow> find (\<lambda>x. src_ID x = i) (db_sources (host_db h)) = Some x"
    by (cases rule: find_row_cases) auto
qed

lemma authorizeUploadSession_state: "authorizeUploadSession s ctx session h = (r, h') \<Longrightarrow> h' = h"
  by (auto simp: authorizeUploadSession_def authorizeUploadPath_def throw_def split: option.splits if_splits)

text \<open>An audited refusal.\<close>

definition refusal :: "'a result \<Rightarrow> Host \<Rightarrow> Host \<Rightarrow> bool" where
  "refusal r h h' \<longleftrightarrow> (\<exists>e. r = Inl e) \<and> host_fs h' = host_fs h \<and> audit_only (host_db h) (host_db h')"

lemma refusal_audited:
  fixes r :: "'a result"
  assumes "hostAudited rec ctx ev (throw e) h1 = (r, h')" "host_fs h1 = host_fs h" "same_tables (host_db h) (host_db h1)"
  shows "refusal r h h'"
proof -
  obtain h2 where "hostAudited rec ctx ev (throw e :: (Host, 'a) handler) h1 = throw e h2"
    "host_fs h2 = host_fs h1" "audit_only (host_db h1) (host_db h2)"
    by (rule hostAudited_run)
  then show ?thesis
    using assms audit_only_trans [OF same_tables_audit_only [OF assms(3)]] by (auto simp: refusal_def throw_def)
qed

lemma Finish_cases:
  assumes call: "Finish s ctx req h = (r, h')"
  obtains (refused) "refusal r h h'"
    | (run) session source h1 h2 where
        "find (\<lambda>x. up_UploadID x = ufr_UploadID req) (db_uploads (host_db h)) = Some session"
        "\<exists>auth. ctx_auth ctx = Some auth \<and> auth_UserID auth = up_UserID session"
        "find (\<lambda>x. src_ID x = up_SourceID session) (db_sources (host_db h)) = Some source"
        "host_fs h1 = host_fs h" "same_tables (host_db h) (host_db h1)"
        "finish_part s req source session h1 = (r, h2)"
        "host_fs h' = host_fs h2" "audit_only (host_db h2) (host_db h')"
proof -
  obtain r1 h1 where 1: "onDB (up_FindByID (ufr_UploadID req)) h = (r1, h1)" by force
  note f1 = up_FindByID_cases [OF 1]
  show thesis
  proof (cases r1)
    case (Inl e)
    have "\<exists>ev e'. hostAudited (ups_auditRecorder s) ctx ev (throw e') h1 = (r, h')"
      using call 1 Inl by (auto simp: Finish_def Let_def split: if_splits)
    then show thesis using refused refusal_audited [OF _ f1(1,2)] by blast
  next
    case (Inr session)
    obtain r2 h2 where 2: "authorizeUploadSession s ctx session h1 = (r2, h2)" by force
    have h2: "h2 = h1" by (rule authorizeUploadSession_state [OF 2])
    show thesis
    proof (cases r2)
      case (Inl e)
      show thesis
        by (rule refused, rule refusal_audited [OF _ f1(1,2)])
          (use call 1 2 h2 Inl \<open>r1 = Inr session\<close> in \<open>auto simp: Finish_def Let_def\<close>)
    next
      case ok: (Inr u)
      obtain r3 h3 where 3: "onDB (src_FindByID (up_SourceID session)) h1 = (r3, h3)" by force
      note f3 = src_FindByID_cases [OF 3]
      have t3: "host_fs h3 = host_fs h" "same_tables (host_db h) (host_db h3)"
        using f1 f3 same_tables_trans by auto
      show thesis
      proof (cases r3)
        case (Inl e)
        show thesis
          by (rule refused, rule refusal_audited [OF _ t3])
            (use call 1 2 3 h2 ok Inl \<open>r1 = Inr session\<close> in \<open>auto simp: Finish_def Let_def\<close>)
      next
        case src: (Inr source)
        obtain r4 h4 where 4: "finish_part s req source session h3 = (r4, h4)" by force
        note so_far = 1 2 3 4 h2 ok src Inr
        have "\<exists>ev. hostAudited (ups_auditRecorder s) ctx ev (lift r4) h4 = (r, h')"
          using call so_far
          by (cases r4) (auto simp: Finish_def Let_def throw_def ret_def lift_def cong: if_cong)
        then obtain ev where "hostAudited (ups_auditRecorder s) ctx ev (lift r4) h4 = (r, h')" by blast
        moreover obtain h5 where "hostAudited (ups_auditRecorder s) ctx ev (lift r4) h4 = lift r4 h5"
          "host_fs h5 = host_fs h4" "audit_only (host_db h4) (host_db h5)"
          by (rule hostAudited_run)
        ultimately have "r = r4" "host_fs h' = host_fs h4" "audit_only (host_db h4) (host_db h')"
          by (auto simp: lift_def)
        then show thesis
          using run [OF f1(3) [OF Inr] _ _ t3 _] 4 f3(3) [OF src] same_tables_fields(3) [OF f1(2)]
            authorizeUploadSession_ok(2) [of s ctx session h1 u h2] 2 ok
          by simp
      qed
    qed
  qed
qed


section \<open>The session survives a failing finish\<close>

interpretation uploads: kept_part db_uploads
  by unfold_locales simp

lemma uploads_node_repo [intro]:
  "uploads.keeps (node_FindByPath p)" "uploads.keeps (node_Update e)" "uploads.keeps (node_UpsertByPath e)"
proof -
  show f: "uploads.keeps (node_FindByPath p)" for p unfolding node_FindByPath_def by auto
  show "uploads.keeps (node_Update e)" unfolding node_Update_def by auto
  have "uploads.keeps (node_upsert e)"
    unfolding node_upsert_def
    by (rule uploads.keeps_stmt) (auto simp: uploads.keeps_def Let_def split: option.splits if_splits)
  then show "uploads.keeps (node_UpsertByPath e)" unfolding node_UpsertByPath_def using f by blast
qed

lemma uploads_obj_repo [intro]: "uploads.keeps (obj_UpsertByLocator e)"
proof -
  have u: "uploads.keeps (obj_upsert e)" for e
    unfolding obj_upsert_def
    by (rule uploads.keeps_stmt) (auto simp: uploads.keeps_def Let_def split: option.splits if_splits)
  show ?thesis unfolding obj_UpsertByLocator_def obj_FindByLocator_def Let_def using u by blast
qed

lemma uploads_commit [intro]: "uploads.keeps (CommitFileObject c req)"
proof -
  have root: "uploads.keeps (ensureCommitRoot now)" for now
    unfolding ensureCommitRoot_def by blast
  have dir: "uploads.keeps (commit_dir source sid now actor cur seg)" for source sid now actor cur seg
    unfolding commit_dir_def Let_def by (intro uploads.keeps_if_err uploads.keeps_if) auto
  have dirs: "uploads.keeps (commit_dirs source sid now actor cur segs)" for source sid now actor cur segs
    by (induction segs arbitrary: cur) (auto intro!: dir)
  have parent: "uploads.keeps (ensureCommitParentPath source sid vp now actor)" for source sid vp now actor
    unfolding ensureCommitParentPath_def using root dirs by auto
  have store: "uploads.keeps (commit_store ob mk)" for ob mk
    unfolding commit_store_def by blast
  have body: "uploads.keeps (commit_body c req sid dt vp lt lj)" for sid dt vp lt lj
    unfolding commit_body_def Let_def using parent store by (intro uploads.keeps_if_err uploads.keeps_if) auto
  then have "uploads.keeps (withinCommitTx c (commit_body c req sid dt vp lt lj))" for sid dt vp lt lj
    unfolding withinCommitTx_def by auto
  then show ?thesis
    unfolding CommitFileObject_def by (intro uploads.keeps_rules)
qed

lemma uploads_RecordFailure [intro]: "uploads.keeps (RecordFailure j input)"
proof -
  have c: "uploads.keeps (op_Create x)" for x
    unfolding op_Create_def Let_def
    by (rule uploads.keeps_env, intro uploads.keeps_rules) auto
  have r: "uploads.keeps (record_op j input st)" for input st
    unfolding record_op_def Let_def
    by (intro uploads.keeps_if_app uploads.keeps_basic, rule uploads.keeps_env, intro uploads.keeps_rules c)
  show ?thesis unfolding RecordFailure_def by (rule uploads.keeps_env) (rule r)
qed

lemma uploads_session_commit: "uploads.keeps (commitUploadSessionMetadataFile s source session item entry)"
proof -
  have f: "uploads.keeps (recordUploadMetadataCommitFailure s source a n vp op fn e)" for source a n vp op fn e
    unfolding recordUploadMetadataCommitFailure_def by (auto split: option.split)
  show ?thesis
    unfolding commitUploadSessionMetadataFile_def commit_or_record_def Let_def
    by (intro uploads.keeps_rules uploads_commit f)
qed


text \<open>An error of a sequence is an error of a sequence with another, never failing end.\<close>

lemma try_err_tail:
  assumes "\<And>x s1. g x s1 = (Inl e, s') \<Longrightarrow> g' x s1 = (Inl e, s')" "tryM m g s = (Inl e, s')"
  shows "tryM m g' s = (Inl e, s')"
  using assms by (cases "m s"; cases "fst (m s)") (auto simp: throw_def)

lemma ignored_never: "ignored m s \<noteq> (Inl e, s')"
  using ignored_ok [of m s "Inl e" s'] by auto

definition same_uploads :: "DB \<Rightarrow> DB \<Rightarrow> bool" where
  "same_uploads db db' \<longleftrightarrow> db_uploads db' = db_uploads db"

lemma same_uploads_order: "reflp same_uploads" "transp same_uploads"
  by (auto simp: same_uploads_def intro: reflpI transpI)

lemma frames_commit [framed]: "frames Q same_uploads (onDB (commitUploadSessionMetadataFile s source session item entry))"
  by (rule frames_onDB) (simp add: same_uploads_def uploads.keepsD [OF uploads_session_commit])

lemma frames_assemble_loop [framed]:
  assumes "\<not> Q out"
  shows "frames Q same_uploads (assemble_loop s uploadID out i n)"
proof (induction n arbitrary: i)
  case (Suc n)
  show ?case
    unfolding assemble_loop.simps by (intro framed same_uploads_order Suc assms)
qed (auto intro: framed same_uploads_order)

lemma frames_assemble [framed]: "\<not> Q out \<Longrightarrow> frames Q same_uploads (assemble s session out)"
  unfolding assemble_def by (intro framed same_uploads_order)

lemma finishLocal_err:
  assumes call: "finishLocal s source session h = (Inl e, h')"
    and Q: "\<And>p. upload_target s source session = Inr p \<Longrightarrow> \<not> Q p"
  shows "(\<forall>p x. Q p \<longrightarrow> host_fs h p = Some x \<longrightarrow> host_fs h' p = Some x) \<and> same_uploads (host_db h) (host_db h')"
proof -
  let ?tv = "target_virtual (up_Path session) (up_Filename session)"
  let ?item = "\<lambda>p. buildFileItem (ups_env s) (src_ID source) ?tv (path_Base p)"
  let ?body = "\<lambda>p. if_err (os_Stat p)
     (\<lambda>_. tryM (os_MkdirAll (path_Dir p)) (\<lambda>_.
          tryM (assemble s session p) (\<lambda>_.
          tryM (os_Stat p) (\<lambda>info.
            onDB (commitUploadSessionMetadataFile s source session (?item p info) None)))))
     (\<lambda>_. throw ErrFileAlreadyExists)"
  show ?thesis
  proof (cases "upload_target s source session")
    case (Inl err)
    then have "h' = h"
      using call by (auto simp: finishLocal_def upload_target_def Let_def lift_def throw_def if_err_def if_errp_def
          split: if_splits sum.splits prod.splits)
    then show ?thesis by (simp add: same_uploads_def)
  next
    case (Inr p)
    then obtain base where rp: "resolvePhysicalPath (ups_unmarshalConfig s) source ?tv = Inr (base, p)"
      by (auto simp: upload_target_def tryp_Inr)
    show ?thesis
    proof (cases "int (length (up_UploadedChunks session)) < up_TotalChunks session")
      case True
      then have "h' = h" using call by (simp add: finishLocal_def throw_def)
      then show ?thesis by (simp add: same_uploads_def)
    next
      case False
      have "if_err (os_Stat p)
         (\<lambda>_. tryM (os_MkdirAll (path_Dir p)) (\<lambda>_.
              tryM (assemble s session p) (\<lambda>_.
              tryM (os_Stat p) (\<lambda>info.
                tryM (onDB (commitUploadSessionMetadataFile s source session (?item p info) None)) (\<lambda>nid.
                tryM (ignored (os_RemoveAll (sessionTempDir s (up_UploadID session)))) (\<lambda>_.
                tryM (ignored (onDB (up_Delete (up_UploadID session)))) (\<lambda>_.
                  ret (finish_response session nid (?item p info)))))))))
         (\<lambda>_. throw ErrFileAlreadyExists) h = (Inl e, h')"
        using call rp False by (simp add: finishLocal_def Let_def lift_def if_err_def)
      then have b: "?body p h = (Inl e, h')"
        apply (cases "os_Stat p h"; cases "fst (os_Stat p h)")
         apply (simp_all add: throw_def)
        apply (elim try_err_tail [rotated])+
        by (auto simp: if_err_def throw_def ret_def ignored_never split: prod.splits sum.splits)
      have "frames Q same_uploads (?body p)"
        by (intro framed same_uploads_order Q Inr)
      from framesD [OF this b] show ?thesis by blast
    qed
  qed
qed


section \<open>Properties\<close>

text \<open>The chunks of a file sent one after the other.\<close>

fun send_chunks :: "UploadService \<Rightarrow> Context \<Rightarrow> string \<Rightarrow> int \<Rightarrow> string list \<Rightarrow> (Host, unit) handler" where
  "send_chunks s ctx uploadID i [] = ret ()"
| "send_chunks s ctx uploadID i (d # ds) =
     tryM (UploadChunk s ctx uploadID i d) (\<lambda>_. send_chunks s ctx uploadID (i + 1) ds)"

lemma send_chunks_stored:
  assumes "tmp_ok s uploadID" "send_chunks s ctx uploadID (int i) ds h = (Inr u, h')"
  shows "chunk_contents s uploadID (host_fs h') i (length ds) ds \<and>
    (\<forall>k < i. \<forall>b t. host_fs h (chunkFilePath s uploadID k) = Some (Regular b t) \<longrightarrow>
       host_fs h' (chunkFilePath s uploadID k) = Some (Regular b t))"
  using assms(2)
proof (induction ds arbitrary: i h)
  case Nil
  then show ?case by (simp add: ret_def chunk_contents_def)
next
  case (Cons d ds)
  obtain x h1 where 1: "UploadChunk s ctx uploadID (int i) d h = (Inr x, h1)"
    and 2: "send_chunks s ctx uploadID (int (Suc i)) ds h1 = (Inr u, h')"
    using Cons.prems by (auto elim!: tryE simp: add.commute)
  note st = UploadChunk_stores [OF 1, simplified] and IH = Cons.IH [OF 2]
  obtain t where t: "host_fs h1 (chunkFilePath s uploadID i) = Some (Regular d t)" using st(1) by blast
  then have "\<exists>t. host_fs h' (chunkFilePath s uploadID i) = Some (Regular d t)" using IH by auto
  moreover have "host_fs h' (chunkFilePath s uploadID k) = Some (Regular b t)"
    if "k < i" "host_fs h (chunkFilePath s uploadID k) = Some (Regular b t)" for k b t
  proof -
    have "chunkFilePath s uploadID k \<noteq> chunkFilePath s uploadID i" using chunk_paths(2) [OF assms(1), of k i] that(1) by auto
    then have "host_fs h1 (chunkFilePath s uploadID k) = Some (Regular b t)" using st(2) that(2) by blast
    then show ?thesis using IH that(1) by simp
  qed
  ultimately show ?case
    using IH by (auto simp: chunk_contents_def less_Suc_eq_0_disj)
qed

lemma chunk_contents_unique:
  assumes "chunk_contents s uploadID fs i n ds" "chunk_contents s uploadID fs i n ds'"
  shows "ds = ds'"
proof (rule nth_equalityI)
  show "length ds = length ds'" using assms by (simp add: chunk_contents_def)
next
  fix k assume "k < length ds"
  then show "ds ! k = ds' ! k" using assms by (fastforce simp: chunk_contents_def)
qed


text \<open>The chunks cover the file exactly. For a positive size and chunk size whose sum stays
  below two to the 63rd, the number of chunks is positive, one chunk fewer would not hold the
  file, and so many chunks do.\<close>

lemma chunk_count_exact:
  assumes "0 < fileSize" "0 < chunkSize" "fileSize + chunkSize < 2 ^ 63"
  shows "\<exists>n. total_chunks fileSize chunkSize = Inr n \<and> 0 < n \<and> (n - 1) * chunkSize < fileSize \<and> fileSize \<le> n * chunkSize"
proof -
  let ?a = "fileSize + chunkSize - 1" and ?n = "(fileSize + chunkSize - 1) div chunkSize"
  have w: "wrap64 (wrap64 (fileSize + chunkSize) - 1) = ?a"
    using assms by (simp add: wrap64_id)
  have "chunkSize div chunkSize \<le> ?n" by (rule zdiv_mono1) (use assms in auto)
  then have n: "0 < ?n" using assms(2) by simp
  have dm: "?n * chunkSize + ?a mod chunkSize = ?a" by (rule div_mult_mod_eq)
  have le: "?n * chunkSize \<le> ?a" using dm pos_mod_sign [OF assms(2), of ?a] by linarith
  have "?a < ?n * chunkSize + chunkSize" using dm pos_mod_bound [OF assms(2), of ?a] by linarith
  then have gt: "?a < (?n + 1) * chunkSize" by (simp only: distrib_right mult_1)
  have "?n \<le> ?a" using div_le_dividend [of "nat ?a" "nat chunkSize"] assms by (simp add: nat_div_distrib [symmetric] div_int_pos_iff)
  then have "go_div ?a chunkSize = ?n"
    using assms n by (simp add: go_div_def wrap64_id)
  then have "total_chunks fileSize chunkSize = Inr ?n"
    using w n assms(2) by (simp add: total_chunks_def Let_def)
  moreover have "(?n - 1) * chunkSize < fileSize" "fileSize \<le> ?n * chunkSize"
    using le gt by (simp_all only: distrib_right left_diff_distrib mult_1)
  ultimately show ?thesis using n by blast
qed

text \<open>C15: Nobody but its owner acts on a session. Sending a chunk to a session, finishing it or
  cancelling it, without an identity or with that of another user, fails, leaves all files
  as they are and changes nothing in the database but the audit log.\<close>

theorem foreign_session_refused:
  assumes "find (\<lambda>x. up_UploadID x = uploadID) (db_uploads (host_db h)) = Some session"
    and "\<And>auth. ctx_auth ctx = Some auth \<Longrightarrow> auth_UserID auth \<noteq> up_UserID session"
    and "ufr_UploadID req = uploadID"
  shows "refusal (fst (UploadChunk s ctx uploadID i d h)) h (snd (UploadChunk s ctx uploadID i d h)) \<and>
    refusal (fst (Finish s ctx req h)) h (snd (Finish s ctx req h)) \<and>
    refusal (fst (Cancel s ctx uploadID h)) h (snd (Cancel s ctx uploadID h))"
proof (intro conjI)
  obtain r1 h1 where 1: "find_session uploadID h = (r1, h1)" by force
  obtain r0 where r0: "onDB (up_FindByID uploadID) h = (r0, h1)"
    using 1 by (cases "onDB (up_FindByID uploadID) h"; cases "fst (onDB (up_FindByID uploadID) h)")
      (auto simp: find_session_def throw_def ret_def split: if_splits)
  note f1 = up_FindByID_cases [OF r0]
  have f: "host_fs h1 = host_fs h" "audit_only (host_db h) (host_db h1)"
    using f1(1) same_tables_audit_only [OF f1(2)] by simp_all
  have same: "x = session" if "r1 = Inr x" for x
    using find_session_ok(1) [OF 1 [unfolded that]] assms(1) by simp
  have no: "authorizeUploadSession s ctx session g = (Inl ErrPermissionDenied, g)" for g
    using assms(2) by (auto simp: authorizeUploadSession_def throw_def split: option.split)
  show "refusal (fst (UploadChunk s ctx uploadID i d h)) h (snd (UploadChunk s ctx uploadID i d h))"
    using 1 f same no by (cases r1) (auto simp: UploadChunk_def refusal_def throw_def)
  show "refusal (fst (Cancel s ctx uploadID h)) h (snd (Cancel s ctx uploadID h))"
    using 1 f same no by (cases r1) (auto simp: Cancel_def refusal_def throw_def)
  show "refusal (fst (Finish s ctx req h)) h (snd (Finish s ctx req h))"
    using prod.collapse [symmetric, of "Finish s ctx req h"]
  proof (cases rule: Finish_cases)
    case (run session' source h3 h4)
    then show ?thesis using assms by auto
  qed
qed

text \<open>C14: A failing finish loses nothing. When finishing a session on a local source fails, all
  upload sessions are as before, and so is every file but the target: the chunks that were
  sent are still there.\<close>

theorem failed_finish_keeps_chunks:
  assumes fin: "Finish s ctx req h = (Inl e, h')"
    and sess: "find (\<lambda>x. up_UploadID x = ufr_UploadID req) (db_uploads (host_db h)) = Some session"
    and src: "find (\<lambda>x. src_ID x = up_SourceID session) (db_sources (host_db h)) = Some source"
      "src_DriverType source = ''local''"
    and q: "host_fs h q = Some x" "upload_target s source session \<noteq> Inr q"
  shows "host_fs h' q = Some x \<and> db_uploads (host_db h') = db_uploads (host_db h)"
  using fin
proof (cases rule: Finish_cases)
  case refused
  then show ?thesis using q(1) audit_only_fields(8) by (auto simp: refusal_def)
next
  case (run session' source' h3 h4)
  then have eq: "session' = session" "source' = source" using sess src by auto
  have fl: "finishLocal s source session h3 = (Inl e, h4)" using run(6) src(2) eq by simp
  have "host_fs h4 q = Some x \<and> same_uploads (host_db h3) (host_db h4)"
    using finishLocal_err [OF fl, of "\<lambda>p. upload_target s source session \<noteq> Inr p"] q run(4) by auto
  then show ?thesis
    using run(7) audit_only_fields(8) [OF run(8)] same_tables_fields(8) [OF run(5)] by (simp add: same_uploads_def)
qed



subsection \<open>Instances\<close>

definition sample_uploads :: UploadService where
  "sample_uploads = \<lparr>ups_options = DefaultSystemOptions\<lparr>so_TempDir := ''/t''\<rparr>, ups_aclAuthorizer = None,
     ups_uploadDrivers = (\<lambda>_. None), ups_importDrivers = (\<lambda>_. None), ups_vfsResolver = None, ups_metadataReader = None,
     ups_metadataCommitter = None, ups_operationJournal = None, ups_auditRecorder = None,
     ups_env = \<lparr>env_uni = id, env_mimeByExt = (\<lambda>_. []), env_rfc3339 = (\<lambda>_. []), env_rfc3339nano = (\<lambda>_. []), env_md5hex = (\<lambda>_. ''m'')\<rparr>,
     ups_unmarshalConfig = (\<lambda>_. Inr ''/d''), ups_marshalState = (\<lambda>_. Inr ''{}''), ups_unmarshalState = (\<lambda>_. Inl ErrInvalid),
     ups_marshalImport = (\<lambda>_. Inr ''{}''), ups_unmarshalImport = (\<lambda>_. Inl ErrInvalid)\<rparr>"

definition sample_source :: StorageSource where
  "sample_source = \<lparr>src_ID = 1, src_Name = ''disk'', src_DriverType = ''local'', src_Status = ''online'', src_IsEnabled = True,
     src_IsWebDAVExposed = False, src_WebDAVReadOnly = False, src_WebDAVSlug = [], src_MountPath = ''/disk'', src_RootPath = ''/'',
     src_SortOrder = 0, src_ConfigJSON = ''{}'', src_LastCheckedAt = None, src_CreatedAt = 0, src_UpdatedAt = 0\<rparr>"

definition sample_session :: UploadSession where
  "sample_session = \<lparr>up_UploadID = ''u'', up_UserID = 1, up_SourceID = 1, up_Path = ''/'', up_TargetVFSParentNodeID = 0,
     up_TargetVirtualParentPath = [], up_ResolvedSourceID = 0, up_ResolvedInnerParentPath = [], up_ResultVFSNodeID = 0,
     up_Filename = ''f'', up_FileSize = 3, up_FileHash = ''m'', up_ChunkSize = 2, up_TotalChunks = 2, up_UploadedChunks = [],
     up_StorageDataJSON = ''{}'', up_Status = ''uploading'', up_IsFastUpload = False, up_ExpiresAt = 10, up_CreatedAt = 0, up_UpdatedAt = 0\<rparr>"

definition sample_host :: Host where
  "sample_host = \<lparr>host_db = emptyDB\<lparr>db_sources := [sample_source], db_uploads := [sample_session]\<rparr>,
     host_fs = [''/d'' \<mapsto> Directory 0, ''/t'' \<mapsto> Directory 0], host_fs_faults = [], host_calls = 0, host_imports = []\<rparr>"

abbreviation sample_finish :: UploadFinishRequest where
  "sample_finish \<equiv> \<lparr>ufr_UploadID = ''u'', ufr_Parts = []\<rparr>"

definition chunks_sent :: Host where
  "chunks_sent = snd (send_chunks sample_uploads as_root ''u'' 0 [''ab'', ''c''] sample_host)"


lemma chunk_count_exact_witness:
  "total_chunks 10 4 = Inr 3 \<and> (3 - 1) * 4 < (10 :: int) \<and> (10 :: int) \<le> 3 * 4"
proof -
  have "\<exists>n. total_chunks 10 4 = Inr n \<and> 0 < n \<and> (n - 1) * 4 < 10 \<and> 10 \<le> n * 4" by (rule chunk_count_exact) simp_all
  moreover have "total_chunks 10 4 = Inr 3" by code_simp
  ultimately show ?thesis by simp
qed

theorem foreign_session_refused_witness:
  "\<exists>e. fst (Cancel sample_uploads (as_root\<lparr>ctx_auth := None\<rparr>) ''u'' sample_host) = Inl e"
proof -
  have "find (\<lambda>x. up_UploadID x = ''u'') (db_uploads (host_db sample_host)) = Some sample_session" by code_simp
  from foreign_session_refused [OF this, of "as_root\<lparr>ctx_auth := None\<rparr>" sample_finish] show ?thesis
    by (auto simp: refusal_def)
qed

theorem failed_finish_keeps_chunks_witness:
  "let (r, h') = Finish sample_uploads as_root sample_finish (chunks_sent\<lparr>host_fs_faults := [None, Some (''disk full'', 0)]\<rparr>)
   in (\<exists>e. r = Inl e) \<and> host_fs h' ''/t/u/chunk-000001.part'' = Some (Regular ''c'' 1)"
proof -
  let ?h = "chunks_sent\<lparr>host_fs_faults := [None, Some (''disk full'', 0)]\<rparr>"
  let ?s = "sample_session\<lparr>up_UploadedChunks := [0, 1], up_UpdatedAt := 1\<rparr>"
  have "case fst (Finish sample_uploads as_root sample_finish ?h) of Inr _ \<Rightarrow> False | _ \<Rightarrow> True" by code_simp
  then obtain e h' where fin: "Finish sample_uploads as_root sample_finish ?h = (Inl e, h')"
    by (cases "Finish sample_uploads as_root sample_finish ?h") (auto split: sum.splits)
  have f: "find (\<lambda>x. up_UploadID x = ufr_UploadID sample_finish) (db_uploads (host_db ?h)) = Some ?s"
    "find (\<lambda>x. src_ID x = up_SourceID ?s) (db_sources (host_db ?h)) = Some sample_source"
    "src_DriverType sample_source = ''local''" "host_fs ?h ''/t/u/chunk-000001.part'' = Some (Regular ''c'' 1)"
    "upload_target sample_uploads sample_source ?s \<noteq> Inr ''/t/u/chunk-000001.part''"
    by code_simp+
  show ?thesis using failed_finish_keeps_chunks [OF fin f] fin by simp
qed

text \<open>
  A finish that fails because of the hash leaves the assembled file at its target, where every
  later attempt finds it: the session can then neither be finished nor sent again.
\<close>

lemma mismatch_blocks_target:
  "let h = chunks_sent\<lparr>host_db := db_uploads_update (map (\<lambda>x. x\<lparr>up_FileHash := ''other''\<rparr>)) (host_db chunks_sent)\<rparr>;
       (r1, h1) = Finish sample_uploads as_root sample_finish h; (r2, h2) = Finish sample_uploads as_root sample_finish h1
   in (case r1 of Inl e \<Rightarrow> e = ErrUploadHashMismatch | _ \<Rightarrow> False) \<and>
      (case r2 of Inl e \<Rightarrow> e = ErrFileAlreadyExists | _ \<Rightarrow> False)"
  by code_simp

end
