(* ===== verification/ACL_Service.thy ===== *)
theory ACL_Service
  imports ACL Setup Metadata_Mutations
begin

text \<open>
  The administration of access rules: \<^verbatim>\<open>acl_service.go\<close> with the writing half of
  \<^verbatim>\<open>acl_rule_repo_impl.go\<close>. A rule is built from a request (subject, effect, permissions, and
  either a node or a source path), stored, changed or deleted, and every outcome is audited.
  The last part connects the service with the run-time check of theory \<open>ACL\<close>.
\<close>

section \<open>Rule repository\<close>

definition rule_setID :: "nat \<Rightarrow> ACLRule \<Rightarrow> ACLRule" where
  "rule_setID i r = r\<lparr>rule_ID := i\<rparr>"

definition rule_stamp :: "gotime \<Rightarrow> ACLRule \<Rightarrow> ACLRule" where
  "rule_stamp now r =
     r\<lparr>rule_CreatedAt := (if rule_CreatedAt r = 0 then now else rule_CreatedAt r),
       rule_UpdatedAt := (if rule_UpdatedAt r = 0 then now else rule_UpdatedAt r)\<rparr>"

definition rule_merge :: "gotime \<Rightarrow> ACLRule \<Rightarrow> ACLRule \<Rightarrow> ACLRule" where
  "rule_merge now old new =
     new\<lparr>rule_ID := rule_ID old, rule_CreatedAt := rule_CreatedAt old, rule_UpdatedAt := now\<rparr>"

definition rule_Create :: "ACLRule \<Rightarrow> (DB, ACLRule) handler" where
  "rule_Create rule db =
     insert_row ''acl_rules'' db_rules db_rules_update rule_ID rule_setID (\<lambda>_ _. False)
       (rule_stamp (db_now db) rule) db"

definition rule_FindByID :: "nat \<Rightarrow> (DB, ACLRule) handler" where
  "rule_FindByID i = find_row db_rules (\<lambda>r. rule_ID r = i)"

definition rule_List :: "ACLRuleFilter \<Rightarrow> (DB, ACLRule list) handler" where
  "rule_List filt = select_rows (\<lambda>db. ACLRule_List (db_rules db) filt)"

definition rule_Update :: "ACLRule \<Rightarrow> (DB, unit) handler" where
  "rule_Update rule = update_row db_rules db_rules_update rule_ID rule_merge (\<lambda>_ _. False) rule"

definition rule_Delete_row :: "nat \<Rightarrow> (DB, unit) handler" where
  "rule_Delete_row i = delete_row db_rules db_rules_update rule_ID i"

section \<open>Requests and views\<close>

record ACLPermissions =
  perm_Read :: bool
  perm_Write :: bool
  perm_Delete :: bool
  perm_Share :: bool

record ACLRuleListQuery =
  aq_SourceID :: nat
  aq_VFSNodeID :: "nat option"
  aq_Path :: string

record ACLRuleView =
  av_ID :: nat
  av_SourceID :: nat
  av_VFSNodeID :: "nat option"
  av_Path :: string
  av_VirtualPath :: string
  av_SubjectType :: string
  av_SubjectID :: nat
  av_Effect :: string
  av_Priority :: int
  av_Permissions :: ACLPermissions
  av_InheritToChildren :: bool

text \<open>
  \<^verbatim>\<open>CreateACLRuleRequest\<close>, \<^verbatim>\<open>UpdateACLRuleRequest\<close> and \<^verbatim>\<open>aclRuleBuildInput\<close> have the same fields
  and are copied field by field.
\<close>

record ACLRuleInput =
  ai_SourceID :: nat
  ai_VFSNodeID :: "nat option"
  ai_Path :: string
  ai_SubjectType :: string
  ai_SubjectID :: nat
  ai_Effect :: string
  ai_Priority :: int
  ai_Permissions :: ACLPermissions
  ai_InheritToChildren :: bool

record ACLService =
  acs_metadataReader :: "MetadataVFSService option"
  acs_auditRecorder :: "Recorder option"

definition toACLRuleView :: "ACLRule \<Rightarrow> ACLRuleView" where
  "toACLRuleView r =
     \<lparr>av_ID = rule_ID r, av_SourceID = rule_SourceID r, av_VFSNodeID = cloneUintPtr (rule_VFSNodeID r),
      av_Path = rule_Path r, av_VirtualPath = rule_VirtualPath r, av_SubjectType = rule_SubjectType r,
      av_SubjectID = rule_SubjectID r, av_Effect = rule_Effect r, av_Priority = rule_Priority r,
      av_Permissions = \<lparr>perm_Read = rule_Read r, perm_Write = rule_Write r, perm_Delete = rule_Delete r,
        perm_Share = rule_Share r\<rparr>,
      av_InheritToChildren = rule_InheritToChildren r\<rparr>"

definition FormatInt :: "int \<Rightarrow> string" where
  "FormatInt i = (if i < 0 then CHR ''-'' # FormatUint (nat (- i)) else FormatUint (nat i))"

definition aclRuleAuditView :: "ACLRule \<Rightarrow> any_map" where
  "aclRuleAuditView r =
     [(''id'', PayloadNumber (FormatUint (rule_ID r))), (''source_id'', PayloadNumber (FormatUint (rule_SourceID r))),
      (''vfs_node_id'', case rule_VFSNodeID r of None \<Rightarrow> PayloadNil | Some i \<Rightarrow> PayloadNumber (FormatUint i)),
      (''path'', PayloadString (rule_Path r)), (''virtual_path'', PayloadString (rule_VirtualPath r)),
      (''subject_type'', PayloadString (rule_SubjectType r)), (''subject_id'', PayloadNumber (FormatUint (rule_SubjectID r))),
      (''effect'', PayloadString (rule_Effect r)), (''priority'', PayloadNumber (FormatInt (rule_Priority r))),
      (''inherit_to_children'', PayloadBool (rule_InheritToChildren r)),
      (''permissions'', PayloadMap [(''read'', PayloadBool (rule_Read r)), (''write'', PayloadBool (rule_Write r)),
         (''delete'', PayloadBool (rule_Delete r)), (''share'', PayloadBool (rule_Share r))])]"

definition aclErrorCode :: "app_error \<Rightarrow> string" where
  "aclErrorCode err =
     (if errors_Is err ErrACLSubjectTypeInvalid then ''ACL_SUBJECT_TYPE_INVALID''
      else if errors_Is err ErrACLEffectInvalid then ''ACL_EFFECT_INVALID''
      else if errors_Is err ErrACLPermissionsInvalid then ''ACL_PERMISSIONS_INVALID''
      else if errors_Is err ErrPathInvalid then ''PATH_INVALID''
      else if errors_Is err ErrFileNotFound then ''VFS_NODE_NOT_FOUND''
      else ''INTERNAL_ERROR'')"

section \<open>Building a rule\<close>

definition resolveACLRuleNode :: "ACLService \<Rightarrow> nat \<Rightarrow> (DB, VFSNode) handler" where
  "resolveACLRuleNode s nodeID =
     (case acs_metadataReader s of
        None \<Rightarrow> throw ErrFileNotFound
      | Some rd \<Rightarrow>
          if nodeID = 0 then throw ErrFileNotFound
          else
            tryM (ResolveNodeByID rd nodeID) (\<lambda>node.
              if node_IsDeleted node then throw ErrFileNotFound else ret node))"

definition resolveACLRuleNodeIDBestEffort :: "ACLService \<Rightarrow> string \<Rightarrow> (DB, nat option) handler" where
  "resolveACLRuleNodeIDBestEffort s virtualPath =
     (case acs_metadataReader s of
        None \<Rightarrow> ret None
      | Some rd \<Rightarrow>
          if TrimSpace virtualPath = [] then ret None
          else
            tryM (resolveMetadataVFSNodeID (Some rd) virtualPath) (\<lambda>nodeID.
              ret (if nodeID = 0 then None else Some nodeID)))"

definition aclInnerPathSnapshotForNode :: "VFSNode \<Rightarrow> StorageSource option \<Rightarrow> string" where
  "aclInnerPathSnapshotForNode node source =
     if_errp (normalizeVirtualPath (node_Path node)) (\<lambda>_. node_Path node) (\<lambda>normalizedNodePath.
       case source of
         None \<Rightarrow> normalizedNodePath
       | Some src \<Rightarrow>
           if_errp (normalizeMountPath (src_MountPath src)) (\<lambda>_. normalizedNodePath) (\<lambda>normalizedMountPath.
             if \<not> isSubPath normalizedMountPath normalizedNodePath then normalizedNodePath
             else
               let innerPath = TrimPrefix normalizedNodePath normalizedMountPath
               in if innerPath = [] then ''/''
                  else if \<not> HasPrefix innerPath ''/'' then ''/'' @ innerPath
                  else innerPath))"

definition rule_entity :: "ACLRuleInput \<Rightarrow> nat \<Rightarrow> nat option \<Rightarrow> string \<Rightarrow> string \<Rightarrow> string \<Rightarrow> ACLRule" where
  "rule_entity input sourceID vfsNodeID normalizedPath virtualPath effect =
     \<lparr>rule_ID = 0, rule_SourceID = sourceID, rule_VFSNodeID = vfsNodeID, rule_Path = normalizedPath,
      rule_VirtualPath = virtualPath, rule_SubjectType = ''user'', rule_SubjectID = ai_SubjectID input,
      rule_Effect = effect, rule_Priority = ai_Priority input,
      rule_Read = perm_Read (ai_Permissions input), rule_Write = perm_Write (ai_Permissions input),
      rule_Delete = perm_Delete (ai_Permissions input), rule_Share = perm_Share (ai_Permissions input),
      rule_InheritToChildren = ai_InheritToChildren input, rule_CreatedAt = 0, rule_UpdatedAt = 0\<rparr>"

text \<open>The part of \<^verbatim>\<open>buildRuleEntity\<close> after the node is known.\<close>

definition rule_target ::
  "ACLService \<Rightarrow> ACLRuleInput \<Rightarrow> string \<Rightarrow> nat \<Rightarrow> VFSNode option \<Rightarrow> (DB, ACLRule) handler" where
  "rule_target s input effect sourceID node =
     tryM (if sourceID > 0 then tryM (src_FindByID sourceID) (\<lambda>src. ret (Some src))
           else if node = None then throw ErrPathInvalid else ret None) (\<lambda>source.
       case node of
         Some n \<Rightarrow>
           ret (rule_entity input sourceID (cloneUintPtr (ai_VFSNodeID input))
                  (aclInnerPathSnapshotForNode n source) (node_Path n) effect)
       | None \<Rightarrow>
           if TrimSpace (ai_Path input) = [] then throw ErrPathInvalid
           else
             if_err (lift (normalizeVirtualPath (ai_Path input))) (\<lambda>_. throw ErrPathInvalid) (\<lambda>normalizedPath.
               let merged = (case source of None \<Rightarrow> normalizedPath
                               | Some src \<Rightarrow> mergeMountAndInnerPath (src_MountPath src) normalizedPath);
                   virtualPath = (if merged = [] then normalizedPath else merged)
               in tryM (resolveACLRuleNodeIDBestEffort s virtualPath) (\<lambda>vfsNodeID.
                    ret (rule_entity input sourceID vfsNodeID normalizedPath virtualPath effect))))"

definition buildRuleEntity :: "ACLService \<Rightarrow> ACLRuleInput \<Rightarrow> (DB, ACLRule) handler" where
  "buildRuleEntity s input =
     (if TrimSpace (ai_SubjectType input) \<noteq> ''user'' then throw ErrACLSubjectTypeInvalid
      else
        tryM (user_FindByID (ai_SubjectID input)) (\<lambda>_.
          let effect = TrimSpace (ai_Effect input); p = ai_Permissions input
          in if effect \<noteq> ''allow'' \<and> effect \<noteq> ''deny'' then throw ErrACLEffectInvalid
             else if \<not> perm_Read p \<and> \<not> perm_Write p \<and> \<not> perm_Delete p \<and> \<not> perm_Share p
             then throw ErrACLPermissionsInvalid
             else
               (case ai_VFSNodeID input of
                  None \<Rightarrow> rule_target s input effect (ai_SourceID input) None
                | Some nodeID \<Rightarrow>
                    tryM (resolveACLRuleNode s nodeID) (\<lambda>node.
                      case node_SourceID node of
                        None \<Rightarrow> rule_target s input effect (ai_SourceID input) (Some node)
                      | Some i \<Rightarrow>
                          if ai_SourceID input \<noteq> 0 \<and> ai_SourceID input \<noteq> i then throw ErrPathInvalid
                          else rule_target s input effect i (Some node)))))"

section \<open>Operations\<close>

definition ACLService_List :: "ACLService \<Rightarrow> ACLRuleListQuery \<Rightarrow> (DB, ACLRuleView list) handler" where
  "ACLService_List s query =
     tryM (if aq_SourceID query > 0 then tryM (src_FindByID (aq_SourceID query)) (\<lambda>_. ret False)
           else if aq_VFSNodeID query \<noteq> None then ret True
           else throw ErrPathInvalid) (\<lambda>anySource.
     tryM (if TrimSpace (aq_Path query) \<noteq> []
           then if_err (lift (normalizeVirtualPath (aq_Path query))) (\<lambda>_. throw ErrPathInvalid) ret
           else ret []) (\<lambda>filterPath.
     tryM (rule_List \<lparr>flt_SourceID = aq_SourceID query, flt_Path = filterPath,
             flt_VFSNodeID = aq_VFSNodeID query, flt_IncludeGlobal = False, flt_AnySource = anySource\<rparr>) (\<lambda>items.
       ret (map toACLRuleView items))))"

definition ACLService_Create :: "ACLService \<Rightarrow> Context \<Rightarrow> ACLRuleInput \<Rightarrow> (DB, ACLRuleView) handler" where
  "ACLService_Create s ctx req =
     (let audit = (\<lambda>ev k. audited (acs_auditRecorder s) ctx ev k)
      in if_err (buildRuleEntity s req)
           (\<lambda>err. audit (event ''acl_rule'' ''create'' ResultFailed (aclErrorCode err)) (throw err)) (\<lambda>built.
         if_err (rule_Create built)
           (\<lambda>err. audit (event ''acl_rule'' ''create'' ResultFailed ''INTERNAL_ERROR'') (throw err)) (\<lambda>rule.
         audit ((event ''acl_rule'' ''create'' ResultSuccess [])
             \<lparr>ev_ResourceID := encodeUintID (rule_ID rule), ev_SourceID := Some (rule_SourceID rule),
              ev_VirtualPath := rule_VirtualPath rule, ev_After := aclRuleAuditView rule\<rparr>)
           (ret (toACLRuleView rule)))))"

definition ACLService_Update :: "ACLService \<Rightarrow> Context \<Rightarrow> nat \<Rightarrow> ACLRuleInput \<Rightarrow> (DB, ACLRuleView) handler" where
  "ACLService_Update s ctx i req =
     (let audit = (\<lambda>ev k. audited (acs_auditRecorder s) ctx (ev\<lparr>ev_ResourceID := encodeUintID i\<rparr>) k);
          failed = event ''acl_rule'' ''update'' ResultFailed
      in if_err (rule_FindByID i)
           (\<lambda>err. audit (failed ''ACL_RULE_NOT_FOUND'') (throw err)) (\<lambda>current.
         let before = aclRuleAuditView current;
             sourceID = (if ai_SourceID req > 0 then ai_SourceID req else rule_SourceID current)
         in if_err (buildRuleEntity s (req\<lparr>ai_SourceID := sourceID\<rparr>))
              (\<lambda>err. audit ((failed (aclErrorCode err))\<lparr>ev_Before := before\<rparr>) (throw err)) (\<lambda>built.
            let rule = built\<lparr>rule_ID := rule_ID current, rule_CreatedAt := rule_CreatedAt current\<rparr>
            in if_err (rule_Update rule)
                 (\<lambda>err. audit ((failed ''INTERNAL_ERROR'')\<lparr>ev_Before := before\<rparr>) (throw err)) (\<lambda>_.
               audit ((event ''acl_rule'' ''update'' ResultSuccess [])
                   \<lparr>ev_SourceID := Some (rule_SourceID rule), ev_VirtualPath := rule_VirtualPath rule,
                    ev_Before := before, ev_After := aclRuleAuditView rule\<rparr>)
                 (ret (toACLRuleView rule))))))"

definition ACLService_Delete :: "ACLService \<Rightarrow> Context \<Rightarrow> nat \<Rightarrow> (DB, unit) handler" where
  "ACLService_Delete s ctx i =
     (let audit = (\<lambda>ev k. audited (acs_auditRecorder s) ctx (ev\<lparr>ev_ResourceID := encodeUintID i\<rparr>) k);
          failed = event ''acl_rule'' ''delete'' ResultFailed
      in if_err (rule_FindByID i)
           (\<lambda>err. audit (failed ''ACL_RULE_NOT_FOUND'') (throw err)) (\<lambda>current.
         let before = aclRuleAuditView current
         in if_err (rule_Delete_row i)
              (\<lambda>err. audit ((failed ''INTERNAL_ERROR'')\<lparr>ev_Before := before\<rparr>) (throw err)) (\<lambda>_.
            audit ((event ''acl_rule'' ''delete'' ResultSuccess [])
                \<lparr>ev_SourceID := Some (rule_SourceID current), ev_VirtualPath := rule_VirtualPath current,
                 ev_Before := before\<rparr>)
              (ret ()))))"

section \<open>The authorizer on the stored rules\<close>

text \<open>
  The authorizer as \<^verbatim>\<open>main.go\<close> wires it: the repositories and the metadata service on the
  same database.
\<close>

definition dbReader :: "MetadataVFSService \<Rightarrow> DB \<Rightarrow> MetadataReader" where
  "dbReader rd db =
     \<lparr>rd_ResolveNode = (\<lambda>p. map_sum id Some (fst (ResolveNode rd p db))),
      rd_ResolveNodeByID = (\<lambda>i. map_sum id Some (fst (ResolveNodeByID rd i db)))\<rparr>"

definition NewACLAuthorizer :: "MetadataVFSService option \<Rightarrow> DB \<Rightarrow> ACLAuthorizer" where
  "NewACLAuthorizer rd db =
     \<lparr>az_systemConfigRepo = Some (fst (config_Get db)),
      az_aclRepo = Some (\<lambda>f. fst (rule_List f db)),
      az_sourceRepo = Some (\<lambda>i. fst (src_FindByID i db)),
      az_metadataReader = map_option (\<lambda>s. dbReader s db) rd\<rparr>"

section \<open>What the operations write\<close>

lemma tables_reads [intro]:
  "tables.keeps (ResolveNode rd p)" "tables.keeps (ResolveNodeByID rd i)" "tables.keeps (src_FindByID i)"
  "tables.keeps (user_FindByID i)" "tables.keeps (rule_FindByID i)"
proof -
  show "tables.keeps (ResolveNode rd p)" using ResolveNode_reads(1) by (rule tables_keepsI)
  have "tables.keeps (node_FindByID i)" for i unfolding node_FindByID_def by auto
  then show "tables.keeps (ResolveNodeByID rd i)"
    unfolding ResolveNodeByID_def by (intro tables.keeps_rules) auto
  show "tables.keeps (src_FindByID i)" "tables.keeps (user_FindByID i)" "tables.keeps (rule_FindByID i)"
    unfolding src_FindByID_def user_FindByID_def rule_FindByID_def by auto
qed

lemma tables_resolveNodeID [intro]: "tables.keeps (resolveMetadataVFSNodeID rd p)"
  unfolding resolveMetadataVFSNodeID_def
  by (intro tables.keeps_option tables.keeps_if tables.keeps_basic)
    (auto split: sum.split intro!: tables.keeps_if_err)

lemma tables_buildRule [intro]: "tables.keeps (buildRuleEntity s input)"
proof -
  have best: "tables.keeps (resolveACLRuleNodeIDBestEffort s p)" for p
    unfolding resolveACLRuleNodeIDBestEffort_def by (intro tables.keeps_rules tables_resolveNodeID)
  have node: "tables.keeps (resolveACLRuleNode s i)" for i
    unfolding resolveACLRuleNode_def by (intro tables.keeps_rules tables_reads)
  have "tables.keeps (rule_target s input eff i n)" for eff i n
    unfolding rule_target_def Let_def by (intro tables.keeps_rules tables_reads best)
  then show ?thesis
    unfolding buildRuleEntity_def Let_def by (intro tables.keeps_rules tables_reads node)
qed

lemma rule_Create_writes:
  assumes "rule_Create e db = (Inr r, db')"
  obtains i where "r = rule_setID i (rule_stamp (db_now db) e)" "db_rules db' = db_rules db @ [r]"
    "same_tables (db\<lparr>db_rules := []\<rparr>) (db'\<lparr>db_rules := []\<rparr>)"
proof -
  from assms [unfolded rule_Create_def] table_query_tables(6) show thesis
  proof (cases rule: insert_row_cases)
    case (inserted i db0)
    have "core (d\<lparr>db_rules := []\<rparr>) = (core d)\<lparr>db_rules := []\<rparr>" for d by (cases d) (simp add: core_def)
    then have "same_tables (db\<lparr>db_rules := []\<rparr>) (db0\<lparr>db_rules := []\<rparr>)"
      using inserted(2) by (simp add: same_tables_def)
    then show thesis using that [of i] inserted same_tables_fields(6) [OF inserted(2)] by simp
  qed auto
qed

text \<open>A node that was found for a rule is the live node at the path of the rule.\<close>

lemma best_effort_node:
  assumes "resolveACLRuleNodeIDBestEffort s p db = (Inr (Some i), db')"
  obtains rd n where "acs_metadataReader s = Some rd" "live (db_nodes db) n" "node_ID n = i" "i \<noteq> 0"
    "normalizeVirtualPath p = Inr (node_Path n)" "mvs_nodeRepo rd"
proof -
  obtain rd where rd: "acs_metadataReader s = Some rd" "TrimSpace p \<noteq> []"
    using assms by (auto simp: resolveACLRuleNodeIDBestEffort_def ret_def split: option.splits if_splits)
  obtain r1 db1 where 1: "resolveMetadataVFSNodeID (Some rd) p db = (r1, db1)" by force
  have r1: "r1 = Inr i" "i \<noteq> 0"
    using assms rd 1 by (cases r1; auto simp: resolveACLRuleNodeIDBestEffort_def ret_def throw_def split: if_splits)+
  then obtain np where np: "normalizeVirtualPath p = Inr np"
    using 1 rd(2) by (cases "normalizeVirtualPath p") (auto simp: resolveMetadataVFSNodeID_def ret_def)
  obtain r2 db2 where 2: "ResolveNode rd np db = (r2, db2)" by force
  obtain n where n: "r2 = Inr n" "node_ID n = i"
    using 1 2 r1 rd(2) np by (cases r2) (auto simp: resolveMetadataVFSNodeID_def ret_def)
  have "normalizeVirtualPath np = Inr np" using np by (metis normalize_normal normal_def)
  then have "live (db_nodes db) n" "node_Path n = np"
    using ResolveNode_reads(2) [OF 2, of n] n by auto
  moreover have "mvs_nodeRepo rd" using 2 n(1) by (auto simp: ResolveNode_def throw_def split: if_splits)
  ultimately show thesis using that rd(1) n(2) r1(2) np by simp
qed

lemma Create_ok:
  assumes call: "ACLService_Create s ctx req db = (Inr view, db')"
  obtains built i t db1 where "buildRuleEntity s req db = (Inr built, db1)"
    "view = toACLRuleView (rule_setID i (rule_stamp t built))"
    "db_rules db' = db_rules db @ [rule_setID i (rule_stamp t built)]"
    "db_nodes db' = db_nodes db" "db_sources db' = db_sources db"
proof -
  obtain built db1 where 1: "buildRuleEntity s req db = (Inr built, db1)"
    using call by (cases "buildRuleEntity s req db"; cases "fst (buildRuleEntity s req db)")
      (auto simp: ACLService_Create_def Let_def audited_throw_neq)
  obtain rule db2 where 2: "rule_Create built db1 = (Inr rule, db2)"
    using call 1 by (cases "rule_Create built db1"; cases "fst (rule_Create built db1)")
      (auto simp: ACLService_Create_def Let_def audited_throw_neq)
  obtain ev where "audited (acs_auditRecorder s) ctx ev (ret (toACLRuleView rule)) db2 = (Inr view, db')"
    using call 1 2 by (auto simp: ACLService_Create_def Let_def)
  then have 3: "view = toACLRuleView rule \<and> audit_only db2 db'"
    by (elim tryE) (auto simp: ret_def dest: recordServiceAudit_only)
  obtain i where i: "rule = rule_setID i (rule_stamp (db_now db1) built)" "db_rules db2 = db_rules db1 @ [rule]"
    "same_tables (db1\<lparr>db_rules := []\<rparr>) (db2\<lparr>db_rules := []\<rparr>)"
    using rule_Create_writes [OF 2] by metis
  show thesis
    using that [OF 1, of i "db_now db1"] 3 i same_tables_fields [OF tables_keepsD [OF tables_buildRule 1]]
      same_tables_fields [OF i(3)] audit_only_fields [OF conjunct2 [OF 3]] by simp
qed

text \<open>A rule for a path of a source: the path, and the node that stood there, if one was found.\<close>

definition at_node :: "ACLService \<Rightarrow> VFSNode list \<Rightarrow> nat option \<Rightarrow> string \<Rightarrow> bool" where
  "at_node s rows nid vp \<longleftrightarrow> nid = None \<or>
     (\<exists>rd n. acs_metadataReader s = Some rd \<and> mvs_nodeRepo rd \<and> live rows n \<and>
        nid = Some (node_ID n) \<and> node_ID n \<noteq> 0 \<and> normalizeVirtualPath vp = Inr (node_Path n))"

lemma buildRule_path:
  assumes call: "buildRuleEntity s req db = (Inr built, db1)" and path: "ai_VFSNodeID req = None"
    and src: "find (\<lambda>x. src_ID x = ai_SourceID req) (db_sources db) = Some source" "src_MountPath source = mp"
    and mp: "\<And>np. normalizeVirtualPath (ai_Path req) = Inr np \<Longrightarrow> mergeMountAndInnerPath mp np \<noteq> []"
  obtains nid np where "normalizeVirtualPath (ai_Path req) = Inr np" "TrimSpace (ai_Effect req) \<in> {''allow'', ''deny''}"
    "built = rule_entity req (ai_SourceID req) nid np (mergeMountAndInnerPath mp np) (TrimSpace (ai_Effect req))"
    "at_node s (db_nodes db) nid (mergeMountAndInnerPath mp np)"
proof -
  obtain u dba where eff: "TrimSpace (ai_Effect req) \<in> {''allow'', ''deny''}"
    and a: "user_FindByID (ai_SubjectID req) db = (Inr u, dba)"
    and rt: "rule_target s req (TrimSpace (ai_Effect req)) (ai_SourceID req) None dba = (Inr built, db1)"
    using call path unfolding buildRuleEntity_def Let_def
    by (auto simp: throw_def split: if_splits elim!: tryE)
  have sid: "ai_SourceID req > 0" using rt by (auto simp: rule_target_def throw_def if_err_def split: if_splits)
  obtain src' dbb where b: "src_FindByID (ai_SourceID req) dba = (Inr src', dbb)"
    using rt sid unfolding rule_target_def by (auto elim!: tryE)
  have st: "same_tables db dba" "same_tables db dbb"
    using tables_keepsD [OF tables_reads(4) a] tables_keepsD [OF tables_reads(3) b] same_tables_trans by blast+
  have "src' = source"
    using b [unfolded src_FindByID_def] table_query_tables(3)
  proof (cases rule: find_row_cases)
    case (found x)
    then show ?thesis using src same_tables_fields(3) [OF st(1)] by simp
  qed auto
  then obtain np nid where np: "normalizeVirtualPath (ai_Path req) = Inr np"
    and n: "resolveACLRuleNodeIDBestEffort s (mergeMountAndInnerPath mp np) dbb = (Inr nid, db1)"
    and built: "built = rule_entity req (ai_SourceID req) nid np (mergeMountAndInnerPath mp np) (TrimSpace (ai_Effect req))"
    using rt sid b src(2) mp
    by (cases "normalizeVirtualPath (ai_Path req)")
      (auto simp: rule_target_def throw_def lift_def if_err_def [of "\<lambda>s. (_, s)"] Let_def ret_def split: if_splits elim!: tryE)
  have "at_node s (db_nodes db) nid (mergeMountAndInnerPath mp np)"
    using n same_tables_fields(4) [OF st(2)] by (cases nid) (auto simp: at_node_def elim!: best_effort_node)
  then show thesis using that np eff built by blast
qed

text \<open>Without faults the reader answers from the rows.\<close>

lemma dbReader_node:
  assumes "db_faults db = []" "mvs_nodeRepo rd" "tree_ok (db_nodes db)" "live (db_nodes db) n"
  shows "rd_ResolveNodeByID (dbReader rd db) (node_ID n) = Inr (Some n)"
proof -
  have "find (\<lambda>x. node_ID x = node_ID n) (db_nodes db) = Some n"
    by (rule find_key) (use assms(3,4) in \<open>auto simp: tree_ok_def live_def\<close>)
  then show ?thesis
    using assms by (simp add: dbReader_def ResolveNodeByID_def node_FindByID_def find_row_def ret_def live_def)
qed

lemma dbReader_path:
  assumes "rd_ResolveNode (dbReader rd db) p = Inr (Some t)"
  shows "live (db_nodes db) t \<and> normalizeVirtualPath p = Inr (node_Path t)"
proof -
  obtain r db' where 1: "ResolveNode rd p db = (r, db')" by force
  then show ?thesis using assms ResolveNode_reads(2) [OF 1] by (cases r) (auto simp: dbReader_def)
qed

lemma TrimSuffix_render:
  assumes "nsegs vs" "vs \<noteq> []"
  shows "TrimSuffix (render vs) ''/'' = render vs"
proof -
  have "last (render vs) \<noteq> CHR ''/''" using assms render_last by blast
  then show ?thesis by (auto simp: TrimSuffix_def suffix_def)
qed

text \<open>A path lies strictly below another when it has it, with a slash, as a prefix.\<close>

lemma HasPrefix_below:
  assumes "nsegs vs" "nsegs ts" "vs \<noteq> []"
  shows "HasPrefix (render ts) (TrimSuffix (render vs) ''/'' @ ''/'') \<longleftrightarrow> strict_prefix vs ts"
proof (cases "ts = []")
  case True
  moreover have "\<not> prefix (render vs @ ''/'') (render [])"
    using prefix_length_le [of "render vs @ ''/''" "render []"] assms(3) by (cases vs) (auto simp: render_def)
  ultimately show ?thesis using assms(3) by (simp add: HasPrefix_def TrimSuffix_render [OF assms(1,3)])
next
  case False
  then show ?thesis
    using body_prefix [OF assms(1,2)] assms(3)
    unfolding TrimSuffix_render [OF assms(1,3)] by (simp add: HasPrefix_def render_def)
qed

lemma prefix_render_match:
  assumes "nsegs vs" "nsegs ts" "prefix vs ts" "render ts \<noteq> render vs"
  shows "if render vs = ''/'' then HasPrefix (render ts) ''/''
    else HasPrefix (render ts) (TrimSuffix (render vs) ''/'' @ ''/'')"
proof (cases "vs = []")
  case True
  then show ?thesis by (simp add: render_HasPrefix)
next
  case False
  then show ?thesis
    using assms HasPrefix_below [OF assms(1,2) False] render_eq_root [OF assms(1)] by (auto simp: strict_prefix_def)
qed

lemma path_rule_matches:
  assumes ok: "db_faults db = []" "tree_ok (db_nodes db)"
    and node: "at_node s (db_nodes db) (rule_VFSNodeID rule) vp"
    and rule: "rule_VirtualPath rule = vp" "TrimSpace vp = vp" "normal vp"
    and tgt: "normal tvp" "tvp = vp \<or> rule_InheritToChildren rule \<and> isSubPath vp tvp"
  shows "rule_matches (map_option (\<lambda>s. dbReader s db) (acs_metadataReader s)) tp tvp
    (target_node (map_option (\<lambda>s. dbReader s db) (acs_metadataReader s)) tvp 0) rule"
proof (cases "rule_VFSNodeID rule")
  case None
  have "vp \<noteq> []" using rule(3) by (auto simp: normal_iff)
  obtain vs ts where r: "nsegs vs" "vp = render vs" "nsegs ts" "tvp = render ts" using rule(3) tgt(1) by (auto simp: normal_iff)
  then have "ruleMatchesPath rule tp tvp"
    using prefix_render_match [OF r(1,3)] tgt(2) \<open>vp \<noteq> []\<close> rule(1,2)
    by (auto simp: ruleMatchesPath_def isSubPath_render)
  then show ?thesis using None by (simp add: rule_matches_def)
next
  case (Some i)
  then obtain rd n where n: "acs_metadataReader s = Some rd" "mvs_nodeRepo rd" "live (db_nodes db) n" "i = node_ID n" "i \<noteq> 0"
      "normalizeVirtualPath vp = Inr (node_Path n)"
    using node by (auto simp: at_node_def)
  have np: "node_Path n = vp" using n(6) rule(3) by (simp add: normal_def)
  have rn: "rule_node (Some (dbReader rd db)) i = Some n"
    using dbReader_node [OF ok(1) n(2) ok(2) n(3)] n(3-5) by (simp add: rule_node_def live_def)
  show ?thesis
  proof (cases "target_node (Some (dbReader rd db)) tvp 0")
    case None
    then show ?thesis
      using Some n(1) rn np tgt(2) by (auto simp: rule_matches_def ruleMatchesNodePath_def)
  next
    case t: (Some t)
    have "live (db_nodes db) t \<and> node_Path t = tvp"
      using t tgt(1) dbReader_path [of rd db tvp t]
      by (auto simp: target_node_def normal_def split: sum.splits option.splits if_splits)
    moreover have "t = n" if "node_Path t = vp"
      using ok(2) n(3) calculation that np by (auto simp: tree_ok_def)
    ultimately show ?thesis
      using Some t n(1) rn np tgt(2) by (auto simp: rule_matches_def ruleMatchesNode_def)
  qed
qed

section \<open>Properties\<close>

definition permits :: "ACLPermissions \<Rightarrow> ACLAction \<Rightarrow> bool" where
  "permits p action \<longleftrightarrow> action = ACLActionRead \<and> perm_Read p \<or> action = ACLActionWrite \<and> perm_Write p \<or>
     action = ACLActionDelete \<and> perm_Delete p \<or> action = ACLActionShare \<and> perm_Share p"

lemma top_rule_decides:
  assumes "t \<in> R" "app t" "allows t \<or> denies t" "\<And>r. r \<in> R \<Longrightarrow> app r \<Longrightarrow> r \<noteq> t \<Longrightarrow> rule_Priority r < rule_Priority t"
  shows "acl_decision app R \<longleftrightarrow> allows t"
proof
  assume "acl_decision app R"
  then show "allows t" using assms unfolding acl_decision_def by (metis not_less_iff_gr_or_eq)
next
  assume "allows t"
  moreover have "\<not> denies t" using calculation by auto
  ultimately show "acl_decision app R" using assms unfolding acl_decision_def by metis
qed

lemma merge_normal:
  assumes "normal mp" "normal q"
  shows "mergeMountAndInnerPath mp q = render (segs_of mp @ segs_of q)" "normal (mergeMountAndInnerPath mp q)"
    "mergeMountAndInnerPath mp q \<noteq> []"
proof -
  show eq: "mergeMountAndInnerPath mp q = render (segs_of mp @ segs_of q)"
    using merge_render [of "segs_of mp" "segs_of q"] normal_segs [OF assms(1)] normal_segs [OF assms(2)] by simp
  have "nsegs (segs_of mp @ segs_of q)" using normal_segs [OF assms(1)] normal_segs [OF assms(2)] by auto
  then show "normal (mergeMountAndInnerPath mp q)" "mergeMountAndInnerPath mp q \<noteq> []"
    unfolding eq by (auto simp: render_neq_Nil)
qed

lemma merge_below:
  assumes "normal mp" "normal a" "normal b"
  shows "isSubPath (mergeMountAndInnerPath mp a) (mergeMountAndInnerPath mp b) \<longleftrightarrow> isSubPath a b"
proof -
  have "nsegs (segs_of mp @ segs_of a)" "nsegs (segs_of mp @ segs_of b)"
    using normal_segs [OF assms(1)] normal_segs [OF assms(2)] normal_segs [OF assms(3)] by auto
  then show ?thesis
    unfolding merge_normal(1) [OF assms(1,2)] merge_normal(1) [OF assms(1,3)] isSubPath_normal [OF assms(2,3)]
    by (simp only: isSubPath_render) simp
qed

text \<open>The evaluator of the wired authorizer.\<close>

lemma wired_evaluator:
  assumes "db_faults db = []" "fst (config_Get db) = Inr cfg" "cfg_MultiUserEnabled cfg"
    and "find (\<lambda>x. src_ID x = sid) (db_sources db) = Some source" "normal (src_MountPath source)" "sid > 0"
    and "auth_RoleKey auth \<noteq> RoleSuperAdmin" "normalizeVirtualPath p = Inr np"
  obtains ev where "AuthorizePath (Some (NewACLAuthorizer rd db)) (Some auth) sid p action =
      (if path_decision ev np action then Inr () else Inl ErrACLDenied)"
    "ev_userID ev = auth_UserID auth" "ev_mountPath ev = src_MountPath source"
    "ev_metadataReader ev = map_option (\<lambda>s. dbReader s db) rd"
    "set (ev_rules ev) = {r \<in> set (db_rules db). rule_SourceID r = sid \<or> rule_SourceID r = 0}"
proof -
  let ?az = "NewACLAuthorizer rd db"
  have "src_MountPath source \<noteq> []" using assms(5) render_neq_Nil by (metis normal_iff)
  then have az: "az_aclRepo ?az = Some (\<lambda>f. Inr (ACLRule_List (db_rules db) f))" "az_systemConfigRepo ?az = Some (Inr cfg)"
    "az_metadataReader ?az = map_option (\<lambda>s. dbReader s db) rd" "evaluatorMountPath ?az sid = Inr (src_MountPath source)"
    using assms
    by (auto simp: NewACLAuthorizer_def rule_List_def select_rows_def gets_def evaluatorMountPath_def src_FindByID_def
        find_row_def)
  obtain ev where ev: "newEvaluator (Some ?az) (Some auth) sid = Inr ev" "\<not> ev_bypass ev"
      "ev_userID ev = auth_UserID auth" "ev_mountPath ev = src_MountPath source" "ev_metadataReader ev = az_metadataReader ?az"
      "ev_sourceID ev = sid" "set (ev_rules ev) = {r \<in> set (db_rules db). rule_SourceID r = sid \<or> rule_SourceID r = 0}"
    by (rule newEvaluator_multi_user [OF az(1,2) assms(3,7) az(4)])
  show thesis
    using that [of ev] rules.authorizePath_decides [OF az(1) ev(1,2), of p action] ev(3-7) az(3) assms(8) by simp
qed


subsection \<open>Instances\<close>

definition sample_disk :: StorageSource where
  "sample_disk = \<lparr>src_ID = 1, src_Name = ''disk'', src_DriverType = ''local'', src_Status = ''online'', src_IsEnabled = True,
     src_IsWebDAVExposed = False, src_WebDAVReadOnly = False, src_WebDAVSlug = [], src_MountPath = ''/a'', src_RootPath = ''/'',
     src_SortOrder = 0, src_ConfigJSON = ''{}'', src_LastCheckedAt = None, src_CreatedAt = 0, src_UpdatedAt = 0\<rparr>"

definition sample_acl_db :: DB where
  "sample_acl_db = sample_tree\<lparr>db_sources := [sample_disk], db_users := [sample_user 3 ''guest'' RoleUser],
     db_config := [example_config]\<rparr>"

definition sample_acl :: ACLService where
  "sample_acl = \<lparr>acs_metadataReader = Some sample_service, acs_auditRecorder = None\<rparr>"

definition sample_rule_input :: ACLRuleInput where
  "sample_rule_input = \<lparr>ai_SourceID = 1, ai_VFSNodeID = None, ai_Path = ''/b'', ai_SubjectType = ''user'', ai_SubjectID = 3,
     ai_Effect = ''allow'', ai_Priority = 2, ai_Permissions = \<lparr>perm_Read = True, perm_Write = False, perm_Delete = False, perm_Share = False\<rparr>,
     ai_InheritToChildren = True\<rparr>"


end
