(* ===== verification/Metadata_Mounts.thy ===== *)
theory Metadata_Mounts
  imports Metadata_Commit Mounts Audit_Log
begin

text \<open>
  The projection of sources into the metadata tree: \<^verbatim>\<open>metadata_vfs_mount_service.go\<close> with the
  mount repository of \<^verbatim>\<open>vfs_metadata_repo_impl.go\<close>. Synchronising a source creates the virtual
  directories above its mount path and the mount node, stores the mount row, and disables the
  other mounts of the source.
\<close>

section \<open>Mount repository\<close>

abbreviation "VFSMountModeMirror \<equiv> ''mirror''"

definition mnt_setID :: "nat \<Rightarrow> VFSMount \<Rightarrow> VFSMount" where
  "mnt_setID i m = m\<lparr>mnt_ID := i\<rparr>"

definition mnt_stamp :: "gotime \<Rightarrow> VFSMount \<Rightarrow> VFSMount" where
  "mnt_stamp now m =
     m\<lparr>mnt_CreatedAt := (if mnt_CreatedAt m = 0 then now else mnt_CreatedAt m),
       mnt_UpdatedAt := (if mnt_UpdatedAt m = 0 then now else mnt_UpdatedAt m)\<rparr>"

definition mnt_merge :: "gotime \<Rightarrow> VFSMount \<Rightarrow> VFSMount \<Rightarrow> VFSMount" where
  "mnt_merge now old new =
     new\<lparr>mnt_ID := mnt_ID old, mnt_CreatedAt := mnt_CreatedAt old, mnt_UpdatedAt := now\<rparr>"

text \<open>The unique indexes: a node and a path carry one mount.\<close>

definition mnt_clash :: "VFSMount \<Rightarrow> VFSMount \<Rightarrow> bool" where
  "mnt_clash x y \<longleftrightarrow> mnt_NodeID x = mnt_NodeID y \<or> mnt_MountPath x = mnt_MountPath y"

text \<open>
  A created row has the server's normal form of the locator; the entity that is returned has
  the text that was sent.
\<close>

definition mnt_Create :: "VFSMount \<Rightarrow> (DB, VFSMount) handler" where
  "mnt_Create mount db =
     tryM (with_jsonb (jsonObject (mnt_RootLocatorJSON mount)) (\<lambda>canon.
       insert_row ''vfs_mounts'' db_mounts db_mounts_update mnt_ID mnt_setID mnt_clash
         (mnt_stamp (db_now db) (mount\<lparr>mnt_RootLocatorJSON := canon\<rparr>)))) (\<lambda>row.
     ret (row\<lparr>mnt_RootLocatorJSON := jsonObject (mnt_RootLocatorJSON mount)\<rparr>)) db"

definition mnt_Update :: "VFSMount \<Rightarrow> (DB, unit) handler" where
  "mnt_Update mount =
     with_jsonb (jsonObject (mnt_RootLocatorJSON mount)) (\<lambda>canon.
       update_row db_mounts db_mounts_update mnt_ID mnt_merge mnt_clash (mount\<lparr>mnt_RootLocatorJSON := canon\<rparr>))"

definition mnt_Delete :: "nat \<Rightarrow> (DB, unit) handler" where
  "mnt_Delete i = delete_row db_mounts db_mounts_update mnt_ID i"

definition mnt_FindByID :: "nat \<Rightarrow> (DB, VFSMount) handler" where
  "mnt_FindByID i = find_row db_mounts (\<lambda>m. mnt_ID m = i)"

definition mnt_FindByNodeID :: "nat \<Rightarrow> (DB, VFSMount) handler" where
  "mnt_FindByNodeID nodeID = find_row db_mounts (\<lambda>m. mnt_NodeID m = nodeID)"

definition mnt_FindByMountPath :: "string \<Rightarrow> (DB, VFSMount) handler" where
  "mnt_FindByMountPath mountPath = find_row db_mounts (\<lambda>m. mnt_MountPath m = mountPath)"

record VFSMountListFilter =
  mlf_SourceID :: nat
  mlf_Enabled :: "bool option"
  mlf_Mode :: string
  mlf_PathPrefix :: string
  mlf_IncludeHidden :: bool

definition mnt_selected :: "VFSMountListFilter \<Rightarrow> VFSMount \<Rightarrow> bool" where
  "mnt_selected filt m \<longleftrightarrow>
     (mlf_SourceID filt \<noteq> 0 \<longrightarrow> mnt_SourceID m = mlf_SourceID filt) \<and>
     (case mlf_Enabled filt of None \<Rightarrow> True | Some b \<Rightarrow> mnt_IsEnabled m = b) \<and>
     (mlf_Mode filt \<noteq> [] \<longrightarrow> mnt_Mode m = mlf_Mode filt) \<and>
     (mlf_PathPrefix filt \<noteq> [] \<longrightarrow>
        (let prefix = normalizeVFSPathPrefix (mlf_PathPrefix filt)
         in mnt_MountPath m = prefix \<or> like (pathChildrenLikePattern prefix) (mnt_MountPath m))) \<and>
     (mlf_IncludeHidden filt \<or> mnt_MountPath m \<noteq> [])"

definition mnt_List :: "VFSMountListFilter \<Rightarrow> (DB, VFSMount list) handler" where
  "mnt_List filt =
     select_rows (\<lambda>db. sort_key (\<lambda>m. (mnt_SortOrder m, mnt_ID m)) (filter (mnt_selected filt) (db_mounts db)))"

text \<open>\<^verbatim>\<open>ON CONFLICT (mount_path) DO UPDATE\<close> of the listed columns.\<close>

definition mnt_overwrite :: "VFSMount \<Rightarrow> VFSMount \<Rightarrow> VFSMount" where
  "mnt_overwrite old new =
     new\<lparr>mnt_ID := mnt_ID old, mnt_MountPath := mnt_MountPath old, mnt_CreatedAt := mnt_CreatedAt old\<rparr>"

definition mnt_upsert :: "VFSMount \<Rightarrow> (DB, unit) handler" where
  "mnt_upsert mount = stmt (\<lambda>db.
     let new = mnt_stamp (db_now db) mount;
         i = (if mnt_ID new = 0 then db_seq db ''vfs_mounts'' + 1 else mnt_ID new);
         db1 = (if mnt_ID new = 0 then db\<lparr>db_seq := (db_seq db)(''vfs_mounts'' := i)\<rparr> else db)
     in case find (\<lambda>m. mnt_MountPath m = mnt_MountPath new) (db_mounts db) of
          Some old \<Rightarrow>
            (let row = mnt_overwrite old new
             in if \<exists>x \<in> set (db_mounts db). mnt_ID x \<noteq> mnt_ID old \<and> mnt_clash x row then (Inl ErrConflict, db1)
                else (Inr (), db_mounts_update (map (\<lambda>m. if mnt_ID m = mnt_ID old then row else m)) db1))
        | None \<Rightarrow>
            (if \<exists>x \<in> set (db_mounts db). mnt_ID x = i \<or> mnt_clash x (mnt_setID i new) then (Inl ErrConflict, db1)
             else (Inr (), db_mounts_update (\<lambda>rows. rows @ [mnt_setID i new]) db1)))"

definition mnt_UpsertByMountPath :: "VFSMount \<Rightarrow> (DB, VFSMount) handler" where
  "mnt_UpsertByMountPath mount =
     tryM (with_jsonb (jsonObject (mnt_RootLocatorJSON mount)) (\<lambda>canon. mnt_upsert (mount\<lparr>mnt_RootLocatorJSON := canon\<rparr>))) (\<lambda>_.
       mnt_FindByMountPath (mnt_MountPath mount))"

section \<open>Service\<close>

record MetadataVFSMountSyncResult =
  msr_SourceID :: nat
  msr_MountPath :: string
  msr_Node :: VFSNode
  msr_Mount :: VFSMount
  msr_DisabledMountIDs :: "nat list"

record MetadataVFSMountSyncAllError =
  mse_SourceID :: nat
  mse_MountPath :: string
  mse_Error :: app_error

record MetadataVFSMountSyncAllResult =
  msa_Synced :: nat
  msa_Failed :: nat
  msa_Errors :: "MetadataVFSMountSyncAllError list"

record MetadataVFSMountService =
  mms_nodeRepo :: bool
  mms_mountRepo :: bool
  mms_sourceRepo :: bool
  mms_transactor :: bool
  mms_uni :: "string \<Rightarrow> string"
  mms_json :: JSONCodec

definition withinMountTx :: "MetadataVFSMountService \<Rightarrow> (DB, 'a) handler \<Rightarrow> (DB, 'a) handler" where
  "withinMountTx s fn = (if \<not> mms_transactor s then fn else WithinTx fn)"

definition metadataVFSMountConfigRootKey :: "(string \<Rightarrow> string) \<Rightarrow> string \<Rightarrow> bool" where
  "metadataVFSMountConfigRootKey uni key =
     (let normalized = locator_key uni key
      in normalized \<in> set [''root'', ''root_path'', ''root_id'', ''root_folder_id'', ''root_folder_name'', ''folder_id'',
           ''parent_id'', ''bucket'', ''base_prefix'', ''prefix'', ''base_path''] \<or>
         Contains normalized ''root'' \<or> HasSuffix normalized ''_prefix'')"

definition metadataVFSMountConfigRootSnapshot ::
  "(string \<Rightarrow> string) \<Rightarrow> JSONCodec \<Rightarrow> string \<Rightarrow> (string \<times> payload_value) list" where
  "metadataVFSMountConfigRootSnapshot uni json rawConfigJSON =
     (case json_Unmarshal json (TrimSpace rawConfigJSON) of
        Inl _ \<Rightarrow> []
      | Inr config \<Rightarrow>
          map (\<lambda>(key, value). (key,
                 if metadataCommitLocatorKeyIsPhysical uni key then PayloadString ''[redacted]''
                 else metadataCommitSanitizeLocatorValue uni value))
            (filter (\<lambda>(key, _). \<not> metadataCommitLocatorKeyIsSensitive uni key \<and> metadataVFSMountConfigRootKey uni key) config))"

definition metadataVFSMountRootLocatorJSON ::
  "MetadataVFSMountService \<Rightarrow> StorageSource \<Rightarrow> string \<Rightarrow> string \<Rightarrow> string result" where
  "metadataVFSMountRootLocatorJSON s source mountPath rootPath =
     (let configRoot = metadataVFSMountConfigRootSnapshot (mms_uni s) (mms_json s) (src_ConfigJSON source)
      in metadataCommitMarshalLocatorJSON (mms_uni s) (mms_json s)
           ([(''source_id'', PayloadNumber (FormatUint (src_ID source))),
             (''driver_type'', PayloadString (src_DriverType source)),
             (''mount_path'', PayloadString mountPath), (''source_root_path'', PayloadString rootPath)] @
            (if configRoot = [] then [] else [(''config_root'', PayloadMap configRoot)])))"

definition metadataVFSMountNodeNeedsUpdate ::
  "VFSNode \<Rightarrow> nat \<Rightarrow> string \<Rightarrow> string \<Rightarrow> nat option \<Rightarrow> bool" where
  "metadataVFSMountNodeNeedsUpdate existing parentID name kind sourceID \<longleftrightarrow>
     node_ParentID existing \<noteq> Some parentID \<or> node_Name existing \<noteq> name \<or> node_Kind existing \<noteq> kind \<or>
     \<not> sameUintPtr (node_SourceID existing) sourceID \<or> node_SyncState existing \<noteq> VFSNodeSyncStateIndexed"

definition ensureMountRoot :: "gotime \<Rightarrow> (DB, VFSNode) handler" where
  "ensureMountRoot now =
     if_err (node_FindByPath ''/'')
       (\<lambda>err. if \<not> errors_Is err ErrNotFound then throw (normalizeMetadataVFSError err)
              else ensureCommitRoot now) ret"

definition ensureMountPathReusable :: "nat \<Rightarrow> string \<Rightarrow> (DB, unit) handler" where
  "ensureMountPathReusable sourceID mountPath =
     if_err (mnt_FindByMountPath mountPath)
       (\<lambda>err. if errors_Is err ErrNotFound then ret () else throw (normalizeMetadataVFSError err))
       (\<lambda>existing. if mnt_SourceID existing \<noteq> sourceID \<and> mnt_IsEnabled existing then throw ErrSourceMountPathConflict
                   else ret ())"

definition mountNodeReusableForSource :: "nat \<Rightarrow> nat \<Rightarrow> (DB, bool) handler" where
  "mountNodeReusableForSource nodeID sourceID =
     (if nodeID = 0 then ret True
      else
        if_err (mnt_FindByNodeID nodeID)
          (\<lambda>err. if errors_Is err ErrNotFound then ret True else throw (normalizeMetadataVFSError err))
          (\<lambda>mount. ret (mnt_SourceID mount = sourceID \<or> \<not> mnt_IsEnabled mount)))"

text \<open>
  One round of the loop over the segments of the mount path. The last segment is the mount
  node, the ones before it are virtual directories.
\<close>

definition mount_dir :: "StorageSource \<Rightarrow> gotime \<Rightarrow> bool \<Rightarrow> VFSNode \<Rightarrow> string \<Rightarrow> (DB, VFSNode) handler" where
  "mount_dir source now isMountNode current segment =
     (let currentPath = joinVirtualPath (node_Path current) segment;
          desiredKind = (if isMountNode then VFSNodeKindMount else VFSNodeKindVirtualDir);
          desiredSourceID = (if isMountNode then Some (src_ID source) else None)
      in if_err (node_FindByPath currentPath)
           (\<lambda>err.
              if \<not> errors_Is err ErrNotFound then throw (normalizeMetadataVFSError err)
              else
                tryN (node_Create
                  \<lparr>node_ID = 0, node_ParentID = Some (node_ID current), node_Name = segment,
                   node_Path = currentPath, node_Kind = desiredKind, node_MountID = None, node_ObjectID = None,
                   node_SourceID = cloneUintPtr desiredSourceID, node_ProviderItemID = None,
                   node_ProviderParentID = None, node_Size = 0, node_MimeType = ''inode/directory'',
                   node_ETag = [], node_Checksum = [], node_SyncState = VFSNodeSyncStateIndexed,
                   node_IsDeleted = False, node_CreatedBy = None, node_UpdatedBy = None,
                   node_CreatedAt = now, node_UpdatedAt = now, node_IndexedAt = Some now, node_LastSeenAt = Some now\<rparr>) ret)
           (\<lambda>existing.
              if \<not> metadataVFSNodeIsDirectory existing then throw ErrNameConflict
              else
                tryM (if node_Kind existing = VFSNodeKindMount \<and> node_SourceID existing \<noteq> None \<and>
                         desiredSourceID \<noteq> None \<and> node_SourceID existing \<noteq> desiredSourceID
                      then tryM (mountNodeReusableForSource (node_ID existing) (src_ID source)) (\<lambda>reusable.
                             if \<not> reusable then throw ErrSourceMountPathConflict else ret ())
                      else ret ()) (\<lambda>_.
                  if metadataVFSMountNodeNeedsUpdate existing (node_ID current) segment desiredKind desiredSourceID
                  then
                    let existing' = existing\<lparr>node_ParentID := Some (node_ID current), node_Name := segment,
                          node_Kind := desiredKind, node_SourceID := cloneUintPtr desiredSourceID,
                          node_SyncState := VFSNodeSyncStateIndexed, node_MimeType := ''inode/directory'',
                          node_UpdatedAt := now,
                          node_IndexedAt := (if node_IndexedAt existing = None then Some now else node_IndexedAt existing)\<rparr>
                    in tryN (node_Update existing') (\<lambda>_. ret existing')
                  else ret existing)))"

fun mount_dirs :: "StorageSource \<Rightarrow> gotime \<Rightarrow> VFSNode \<Rightarrow> string list \<Rightarrow> (DB, VFSNode) handler" where
  "mount_dirs source now current [] = ret current"
| "mount_dirs source now current (segment # segments) =
     (if segment = [] then mount_dirs source now current segments
      else tryM (mount_dir source now (segments = []) current segment) (\<lambda>next.
             mount_dirs source now next segments))"

definition ensureSourceMountNode :: "StorageSource \<Rightarrow> string \<Rightarrow> gotime \<Rightarrow> (DB, VFSNode) handler" where
  "ensureSourceMountNode source mountPath now =
     tryM (ensureMountRoot now) (\<lambda>root.
       if mountPath = ''/'' then
         let root' = root\<lparr>node_SourceID := Some (src_ID source), node_SyncState := VFSNodeSyncStateIndexed,
               node_UpdatedAt := now,
               node_IndexedAt := (if node_IndexedAt root = None then Some now else node_IndexedAt root)\<rparr>
         in tryN (node_Update root') (\<lambda>_. ret root')
       else mount_dirs source now root (Split (TrimPrefix mountPath ''/'') CHR ''/''))"

definition markMountNodeStale :: "nat \<Rightarrow> gotime \<Rightarrow> (DB, unit) handler" where
  "markMountNodeStale nodeID now =
     (if nodeID = 0 then ret ()
      else
        if_err (node_FindByID nodeID)
          (\<lambda>err. if errors_Is err ErrNotFound then ret () else throw (normalizeMetadataVFSError err))
          (\<lambda>node.
             if node_IsDeleted node then ret ()
             else tryN (node_Update (node\<lparr>node_SyncState := VFSNodeSyncStateStale, node_UpdatedAt := now\<rparr>)) ret))"

fun disable_loop :: "MetadataVFSMountService \<Rightarrow> string \<Rightarrow> gotime \<Rightarrow> VFSMount list \<Rightarrow> (DB, nat list) handler" where
  "disable_loop s keepMountPath now [] = ret []"
| "disable_loop s keepMountPath now (mount # mounts) =
     (if mnt_MountPath mount = keepMountPath then disable_loop s keepMountPath now mounts
      else
        tryM (if mnt_IsEnabled mount
              then tryN (mnt_Update (mount\<lparr>mnt_IsEnabled := False, mnt_UpdatedAt := now\<rparr>)) (\<lambda>_. ret [mnt_ID mount])
              else ret []) (\<lambda>disabled.
        tryM (if mms_nodeRepo s then markMountNodeStale (mnt_NodeID mount) now else ret ()) (\<lambda>_.
        tryM (disable_loop s keepMountPath now mounts) (\<lambda>rest. ret (disabled @ rest)))))"

definition disableOtherSourceMounts ::
  "MetadataVFSMountService \<Rightarrow> nat \<Rightarrow> string \<Rightarrow> gotime \<Rightarrow> (DB, nat list) handler" where
  "disableOtherSourceMounts s sourceID keepMountPath now =
     tryN (mnt_List \<lparr>mlf_SourceID = sourceID, mlf_Enabled = None, mlf_Mode = [], mlf_PathPrefix = [],
             mlf_IncludeHidden = True\<rparr>) (disable_loop s keepMountPath now)"

text \<open>The body of the transaction of \<^verbatim>\<open>SyncSourceMount\<close>.\<close>

definition mount_body ::
  "MetadataVFSMountService \<Rightarrow> StorageSource \<Rightarrow> string \<Rightarrow> string \<Rightarrow> (DB, MetadataVFSMountSyncResult) handler" where
  "mount_body s source mountPath rootPath =
     tryM (gets db_now) (\<lambda>now.
     tryM (ensureMountPathReusable (src_ID source) mountPath) (\<lambda>_.
     tryM (ensureSourceMountNode source mountPath now) (\<lambda>mountNode.
     tryM (lift (metadataVFSMountRootLocatorJSON s source mountPath rootPath)) (\<lambda>rootLocatorJSON.
     tryN (mnt_UpsertByMountPath
       \<lparr>mnt_ID = 0, mnt_SourceID = src_ID source, mnt_NodeID = node_ID mountNode, mnt_MountPath = mountPath,
        mnt_RootLocatorJSON = rootLocatorJSON, mnt_Mode = VFSMountModeMirror, mnt_IsEnabled = src_IsEnabled source,
        mnt_SortOrder = src_SortOrder source, mnt_CreatedAt = now, mnt_UpdatedAt = now\<rparr>) (\<lambda>mount.
     tryM (if \<not> sameUintPtr (node_MountID mountNode) (Some (mnt_ID mount)) \<or>
              node_SyncState mountNode \<noteq> VFSNodeSyncStateIndexed
           then
             let mountNode' = mountNode\<lparr>node_MountID := Some (mnt_ID mount), node_SyncState := VFSNodeSyncStateIndexed,
                   node_UpdatedAt := now,
                   node_IndexedAt := (if node_IndexedAt mountNode = None then Some now else node_IndexedAt mountNode)\<rparr>
             in tryN (node_Update mountNode') (\<lambda>_. ret mountNode')
           else ret mountNode) (\<lambda>mountNode'.
     tryM (disableOtherSourceMounts s (src_ID source) mountPath now) (\<lambda>disabled.
       ret \<lparr>msr_SourceID = src_ID source, msr_MountPath = mountPath, msr_Node = mountNode', msr_Mount = mount,
            msr_DisabledMountIDs = disabled\<rparr>)))))))"

definition SyncSourceMount :: "MetadataVFSMountService \<Rightarrow> StorageSource \<Rightarrow> (DB, MetadataVFSMountSyncResult) handler" where
  "SyncSourceMount s source =
     (if \<not> mms_nodeRepo s \<or> \<not> mms_mountRepo s then throw ErrSourceDriverUnsupported
      else if src_ID source = 0 then throw ErrPathInvalid
      else
        tryM (lift (normalizeMountPath (src_MountPath source))) (\<lambda>mountPath.
        tryM (lift (normalizeVirtualPath (src_RootPath source))) (\<lambda>rootPath.
          withinMountTx s (mount_body s source mountPath rootPath))))"

fun sync_all_loop ::
  "MetadataVFSMountService \<Rightarrow> StorageSource list \<Rightarrow> MetadataVFSMountSyncAllResult \<Rightarrow> (DB, MetadataVFSMountSyncAllResult) handler" where
  "sync_all_loop s [] res = ret res"
| "sync_all_loop s (source # sources) res =
     if_err (SyncSourceMount s source)
       (\<lambda>err. sync_all_loop s sources (res\<lparr>msa_Failed := msa_Failed res + 1,
          msa_Errors := msa_Errors res @ [\<lparr>mse_SourceID = src_ID source, mse_MountPath = src_MountPath source, mse_Error = err\<rparr>]\<rparr>))
       (\<lambda>_. sync_all_loop s sources (res\<lparr>msa_Synced := msa_Synced res + 1\<rparr>))"

definition SyncAllSourceMounts :: "MetadataVFSMountService \<Rightarrow> (DB, MetadataVFSMountSyncAllResult) handler" where
  "SyncAllSourceMounts s =
     (if \<not> mms_sourceRepo s then throw ErrSourceDriverUnsupported
      else
        tryM (select_rows (\<lambda>db. ListAll (db_sources db))) (\<lambda>sources.
          sync_all_loop s sources \<lparr>msa_Synced = 0, msa_Failed = 0, msa_Errors = []\<rparr>))"

definition DisableSourceMount :: "MetadataVFSMountService \<Rightarrow> nat \<Rightarrow> (DB, unit) handler" where
  "DisableSourceMount s sourceID =
     (if \<not> mms_mountRepo s then throw ErrSourceDriverUnsupported
      else if sourceID = 0 then throw ErrPathInvalid
      else
        withinMountTx s
          (tryM (gets db_now) (\<lambda>now.
           tryM (disableOtherSourceMounts s sourceID [] now) (\<lambda>_. ret ()))))"


section \<open>What the synchronisation writes\<close>

text \<open>Node statements leave the mounts alone and mount statements the nodes.\<close>

interpretation mounts: kept_part db_mounts
  by unfold_locales simp

interpretation tree_nodes: kept_part db_nodes
  by unfold_locales simp

lemma mounts_node_repo [intro]:
  "mounts.keeps (node_FindByPath p)" "mounts.keeps (node_FindByID i)" "mounts.keeps (node_Create e)"
  "mounts.keeps (node_Update e)" "mounts.keeps (node_UpsertByPath e)"
proof -
  show f: "mounts.keeps (node_FindByPath p)" for p unfolding node_FindByPath_def by auto
  show "mounts.keeps (node_FindByID i)" unfolding node_FindByID_def by auto
  show "mounts.keeps (node_Create e)" unfolding node_Create_def by (rule mounts.keeps_env) auto
  show "mounts.keeps (node_Update e)" unfolding node_Update_def by auto
  have "mounts.keeps (node_upsert e)"
    unfolding node_upsert_def
    by (rule mounts.keeps_stmt) (auto simp: mounts.keeps_def Let_def split: option.splits if_splits)
  then show "mounts.keeps (node_UpsertByPath e)" unfolding node_UpsertByPath_def using f by blast
qed

lemma nodes_mount_repo [intro]:
  "tree_nodes.keeps (mnt_FindByMountPath p)" "tree_nodes.keeps (mnt_FindByNodeID i)" "tree_nodes.keeps (mnt_List f)"
  "tree_nodes.keeps (mnt_Update m)" "tree_nodes.keeps (mnt_UpsertByMountPath m)"
proof -
  show f: "tree_nodes.keeps (mnt_FindByMountPath p)" for p unfolding mnt_FindByMountPath_def by auto
  show "tree_nodes.keeps (mnt_FindByNodeID i)" unfolding mnt_FindByNodeID_def by auto
  show "tree_nodes.keeps (mnt_List f)" unfolding mnt_List_def by auto
  show "tree_nodes.keeps (mnt_Update m)" unfolding mnt_Update_def
    by (intro tree_nodes.keeps_with_jsonb tree_nodes.keeps_update_row) simp
  have "tree_nodes.keeps (mnt_upsert m)" for m
    unfolding mnt_upsert_def
    by (rule tree_nodes.keeps_stmt) (auto simp: tree_nodes.keeps_def Let_def split: option.splits if_splits)
  then show "tree_nodes.keeps (mnt_UpsertByMountPath m)" unfolding mnt_UpsertByMountPath_def using f by blast
qed

lemma mount_checks_keep [intro]:
  "tree_nodes.keeps (ensureMountPathReusable i p)" "tree_nodes.keeps (mountNodeReusableForSource j i)"
  "mounts.keeps (ensureMountPathReusable i p)" "mounts.keeps (mountNodeReusableForSource j i)"
proof -
  have "mounts.keeps (mnt_FindByMountPath p)" "mounts.keeps (mnt_FindByNodeID j)"
    unfolding mnt_FindByMountPath_def mnt_FindByNodeID_def by auto
  then show "tree_nodes.keeps (ensureMountPathReusable i p)" "tree_nodes.keeps (mountNodeReusableForSource j i)"
    "mounts.keeps (ensureMountPathReusable i p)" "mounts.keeps (mountNodeReusableForSource j i)"
    unfolding ensureMountPathReusable_def mountNodeReusableForSource_def by auto
qed

subsection \<open>Mount rows\<close>

definition mnt_key :: "VFSMount \<Rightarrow> nat \<times> nat \<times> string \<times> nat" where
  "mnt_key m = (mnt_ID m, mnt_NodeID m, mnt_MountPath m, mnt_SourceID m)"

definition mounts_ok :: "VFSMount list \<Rightarrow> bool" where
  "mounts_ok rows \<longleftrightarrow> distinct (map mnt_ID rows) \<and> distinct (map mnt_NodeID rows) \<and> distinct (map mnt_MountPath rows)"

lemma mounts_okD:
  assumes "mounts_ok rows" "x \<in> set rows" "y \<in> set rows"
  shows "mnt_ID y = mnt_ID x \<Longrightarrow> y = x" "mnt_NodeID y = mnt_NodeID x \<Longrightarrow> y = x" "mnt_MountPath y = mnt_MountPath x \<Longrightarrow> y = x"
  using assms key_unique unfolding mounts_ok_def by metis+

lemma mounts_ok_keys: "map mnt_key rows' = map mnt_key rows \<Longrightarrow> mounts_ok rows' = mounts_ok rows"
proof -
  assume a: "map mnt_key rows' = map mnt_key rows"
  have "map f rows' = map f rows" if "\<And>m. f m = g (mnt_key m)" for f :: "VFSMount \<Rightarrow> 'b" and g
  proof -
    have "f = (\<lambda>m. g (mnt_key m))" using that by auto
    then show ?thesis using arg_cong [OF a, of "map g"] by (simp add: comp_def)
  qed
  from this [of mnt_ID fst] this [of mnt_NodeID "\<lambda>(_, n, _). n"] this [of mnt_MountPath "\<lambda>(_, _, p, _). p"]
  show ?thesis by (simp add: mounts_ok_def mnt_key_def)
qed

text \<open>Updating a row that was read before keeps the identifying columns of all rows.\<close>

lemma mnt_Update_writes:
  assumes call: "mnt_Update e db = (Inr u, db')" and ok: "mounts_ok (db_mounts db)"
    and e: "mnt_key e \<in> mnt_key ` set (db_mounts db)"
  shows "map mnt_key (db_mounts db') = map mnt_key (db_mounts db)"
    "m \<in> set (db_mounts db') \<Longrightarrow>
       mnt_ID m \<noteq> mnt_ID e \<and> m \<in> set (db_mounts db) \<or> mnt_key m = mnt_key e \<and> mnt_IsEnabled m = mnt_IsEnabled e"
    "m \<in> set (db_mounts db) \<Longrightarrow> mnt_ID m \<noteq> mnt_ID e \<Longrightarrow> m \<in> set (db_mounts db')"
proof -
  obtain canon where "update_row db_mounts db_mounts_update mnt_ID mnt_merge mnt_clash (e\<lparr>mnt_RootLocatorJSON := canon\<rparr>) db = (Inr u, db')"
    using call by (auto simp: mnt_Update_def with_jsonb_def stmt_throw_Inr split: sum.splits)
  from update_row_writes [OF this] obtain now
    where rows: "db_mounts db' = map (\<lambda>x. if mnt_ID x = mnt_ID e then mnt_merge now x (e\<lparr>mnt_RootLocatorJSON := canon\<rparr>) else x) (db_mounts db)"
    by auto
  have row: "mnt_key (mnt_merge now x (e\<lparr>mnt_RootLocatorJSON := canon\<rparr>)) = mnt_key e" "mnt_key x = mnt_key e"
    if "x \<in> set (db_mounts db)" "mnt_ID x = mnt_ID e" for x
  proof -
    obtain y where "y \<in> set (db_mounts db)" "mnt_key e = mnt_key y" using e by auto
    moreover from this that have "x = y" using mounts_okD(1) [OF ok] by (simp add: mnt_key_def)
    ultimately show "mnt_key (mnt_merge now x (e\<lparr>mnt_RootLocatorJSON := canon\<rparr>)) = mnt_key e" "mnt_key x = mnt_key e"
      using that by (simp_all add: mnt_key_def mnt_merge_def)
  qed
  show "map mnt_key (db_mounts db') = map mnt_key (db_mounts db)" using row by (auto simp: rows)
  show "m \<in> set (db_mounts db') \<Longrightarrow>
       mnt_ID m \<noteq> mnt_ID e \<and> m \<in> set (db_mounts db) \<or> mnt_key m = mnt_key e \<and> mnt_IsEnabled m = mnt_IsEnabled e"
    using row by (auto simp: rows mnt_merge_def)
  show "m \<in> set (db_mounts db) \<Longrightarrow> mnt_ID m \<noteq> mnt_ID e \<Longrightarrow> m \<in> set (db_mounts db')"
    by (force simp: rows)
qed

lemma mnt_upsert_writes:
  assumes call: "mnt_upsert e db = (Inr u, db')" and ok: "mounts_ok (db_mounts db)" and e: "mnt_ID e = 0"
  shows "mounts_ok (db_mounts db') \<and>
    (\<exists>m \<in> set (db_mounts db'). mnt_MountPath m = mnt_MountPath e \<and> mnt_SourceID m = mnt_SourceID e \<and>
       mnt_NodeID m = mnt_NodeID e \<and> mnt_IsEnabled m = mnt_IsEnabled e) \<and>
    (\<forall>m \<in> set (db_mounts db'). mnt_MountPath m \<noteq> mnt_MountPath e \<longrightarrow> m \<in> set (db_mounts db))"
  using call unfolding mnt_upsert_def
proof (cases rule: stmt_cases)
  case (run db0)
  note t = same_tables_fields [OF run(1)]
  define new where "new = mnt_stamp (db_now db) e"
  have new: "mnt_MountPath new = mnt_MountPath e" "mnt_SourceID new = mnt_SourceID e" "mnt_NodeID new = mnt_NodeID e"
    "mnt_IsEnabled new = mnt_IsEnabled e" "mnt_ID new = 0"
    by (simp_all add: new_def mnt_stamp_def e)
  note run3 = run(3) [unfolded t, folded new_def]
  show ?thesis
  proof (cases "find (\<lambda>m. mnt_MountPath m = mnt_MountPath new) (db_mounts db)")
    case (Some old)
    then have old: "old \<in> set (db_mounts db)" "mnt_MountPath old = mnt_MountPath e" using new(1) by (auto simp: find_Some_iff)
    let ?row = "mnt_overwrite old new"
    let ?f = "\<lambda>m. if mnt_ID m = mnt_ID old then ?row else m"
    have db': "db_mounts db' = map ?f (db_mounts db)"
      "\<forall>x \<in> set (db_mounts db). mnt_ID x \<noteq> mnt_ID old \<longrightarrow> \<not> mnt_clash x ?row"
      using run3 Some t by (auto simp: Let_def split: if_splits)
    have row: "mnt_ID ?row = mnt_ID old" "mnt_MountPath ?row = mnt_MountPath old" "mnt_NodeID ?row = mnt_NodeID e"
      "mnt_SourceID ?row = mnt_SourceID e" "mnt_IsEnabled ?row = mnt_IsEnabled e"
      using new by (simp_all add: mnt_overwrite_def)
    have only: "x = old" if "x \<in> set (db_mounts db)" "mnt_ID x = mnt_ID old" for x
      using mounts_okD(1) [OF ok old(1) that(1)] that(2) by simp
    have ids: "map mnt_ID (map ?f (db_mounts db)) = map mnt_ID (db_mounts db)"
      "map mnt_MountPath (map ?f (db_mounts db)) = map mnt_MountPath (db_mounts db)"
      using row by (auto dest: only)
    have "distinct (map mnt_NodeID (map ?f (db_mounts db)))"
    proof -
      have "inj_on (mnt_NodeID \<circ> ?f) (set (db_mounts db))"
      proof (rule inj_onI)
        fix x y assume xy: "x \<in> set (db_mounts db)" "y \<in> set (db_mounts db)" "(mnt_NodeID \<circ> ?f) x = (mnt_NodeID \<circ> ?f) y"
        then show "x = y"
          using mounts_okD(2) [OF ok xy(1,2)] db'(2) only by (auto simp: mnt_clash_def split: if_splits)
      qed
      moreover have "distinct (db_mounts db)" using ok by (auto simp: mounts_ok_def distinct_map)
      ultimately show ?thesis by (simp add: distinct_map comp_inj_on_iff)
    qed
    then have "mounts_ok (db_mounts db')" using ok ids unfolding mounts_ok_def db'(1) by argo
    moreover have "?row \<in> set (db_mounts db')" using old(1) db'(1) by force
    ultimately show ?thesis using row old(2) db'(1) by (auto split: if_splits)
  next
    case None
    define i where "i = db_seq db0 ''vfs_mounts'' + 1"
    have db': "db_mounts db' = db_mounts db @ [mnt_setID i new]"
      "\<forall>x \<in> set (db_mounts db). mnt_ID x \<noteq> i \<and> \<not> mnt_clash x (mnt_setID i new)"
      using run3 None t new(5) by (auto simp: Let_def i_def split: if_splits)
    have row: "mnt_ID (mnt_setID i new) = i" "mnt_MountPath (mnt_setID i new) = mnt_MountPath e"
      "mnt_NodeID (mnt_setID i new) = mnt_NodeID e" "mnt_SourceID (mnt_setID i new) = mnt_SourceID e"
      "mnt_IsEnabled (mnt_setID i new) = mnt_IsEnabled e"
      using new by (simp_all add: mnt_setID_def)
    have "mounts_ok (db_mounts db')" using ok db' row by (auto simp: mounts_ok_def mnt_clash_def)
    then show ?thesis using db'(1) row by auto
  qed
qed simp

lemma mnt_UpsertByMountPath_writes:
  assumes call: "mnt_UpsertByMountPath e db = (Inr m, db')" and ok: "mounts_ok (db_mounts db)" and e: "mnt_ID e = 0"
  shows "mounts_ok (db_mounts db')" "m \<in> set (db_mounts db')" "mnt_MountPath m = mnt_MountPath e"
    "mnt_SourceID m = mnt_SourceID e" "mnt_NodeID m = mnt_NodeID e" "mnt_IsEnabled m = mnt_IsEnabled e"
    "\<forall>m \<in> set (db_mounts db'). mnt_MountPath m \<noteq> mnt_MountPath e \<longrightarrow> m \<in> set (db_mounts db)"
proof -
  obtain u db1 canon where 1: "mnt_upsert (e\<lparr>mnt_RootLocatorJSON := canon\<rparr>) db = (Inr u, db1)"
    and 2: "mnt_FindByMountPath (mnt_MountPath e) db1 = (Inr m, db')"
    using call unfolding mnt_UpsertByMountPath_def
    by (elim tryE) (auto simp: with_jsonb_def stmt_throw_Inr split: sum.splits)
  note w = mnt_upsert_writes [OF 1 ok]
  have r: "same_tables db1 db'" "m \<in> set (db_mounts db1)" "mnt_MountPath m = mnt_MountPath e"
    using find_row_reads [OF 2 [unfolded mnt_FindByMountPath_def]] by auto
  obtain x where x: "mounts_ok (db_mounts db1)" "x \<in> set (db_mounts db1)" "mnt_MountPath x = mnt_MountPath e"
    "mnt_SourceID x = mnt_SourceID e" "mnt_NodeID x = mnt_NodeID e" "mnt_IsEnabled x = mnt_IsEnabled e"
    using w e by auto
  have "m = x" using mounts_okD(3) [OF x(1,2) r(2)] r(3) x(3) by simp
  then show "mounts_ok (db_mounts db')" "m \<in> set (db_mounts db')" "mnt_MountPath m = mnt_MountPath e"
    "mnt_SourceID m = mnt_SourceID e" "mnt_NodeID m = mnt_NodeID e" "mnt_IsEnabled m = mnt_IsEnabled e"
    "\<forall>m \<in> set (db_mounts db'). mnt_MountPath m \<noteq> mnt_MountPath e \<longrightarrow> m \<in> set (db_mounts db)"
    using x w e same_tables_fields(15) [OF r(1)] by auto
qed


subsection \<open>The mount node\<close>

text \<open>\<open>written rows n\<close>: a live row has the place and the mount columns of \<open>n\<close>.\<close>

definition face :: "VFSNode \<Rightarrow> string \<times> nat option \<times> nat option \<times> string \<times> string \<times> bool" where
  "face x = (node_Kind x, node_SourceID x, node_MountID x, node_SyncState x, node_Name x, node_IsDeleted x)"

definition written :: "VFSNode list \<Rightarrow> VFSNode \<Rightarrow> bool" where
  "written rows n \<longleftrightarrow> (\<exists>y. live rows y \<and> skel y = skel n \<and> face y = face n)"

lemma written_live: "live rows n \<Longrightarrow> written rows n"
  by (auto simp: written_def)

lemma written_stands: "written rows n \<Longrightarrow> stands rows n"
  by (auto simp: written_def stands_def)

lemma node_Update_written:
  assumes g: "grown ws rows (db_nodes db)" and x: "live (db_nodes db) x"
    and e: "skel e = skel x" "node_Name e = node_Name x" "\<not> node_IsDeleted e"
    and call: "node_Update e db = (Inr u, db')"
  shows "grown ws rows (db_nodes db') \<and> written (db_nodes db') e"
proof -
  note w = node_Update_writes [OF call]
  have "node_merge (db_now db) x e \<in> set (db_nodes db')"
    using x skelD(1) [OF e(1)] w(2) by (force simp: live_def)
  moreover have "skel (node_merge (db_now db) x e) = skel e" "face (node_merge (db_now db) x e) = face e"
    "\<not> node_IsDeleted (node_merge (db_now db) x e)"
    using skelD(1) [OF e(1)] e(3) by (simp_all add: skel_def face_def node_merge_def)
  ultimately have "written (db_nodes db') e" by (auto simp: written_def live_def)
  then show ?thesis using node_Update_grown(1) [OF g x e call] by simp
qed

lemma node_Create_grown:
  assumes g: "grown ws rows (db_nodes db)" and e: "placed (db_nodes db) e" "prefix (segs e) ws" "\<not> node_IsDeleted e"
    and call: "node_Create e db = (Inr n, db')"
  shows "grown ws rows (db_nodes db') \<and> live (db_nodes db') n \<and> face n = face e \<and> node_Path n = node_Path e"
proof -
  let ?e = "node_stamp (db_now db) e"
  have "insert_row ''vfs_nodes'' db_nodes db_nodes_update node_ID node_setID node_clash ?e db = (Inr n, db')"
    using call by (simp add: node_Create_def)
  from this table_query_tables(4) show ?thesis
  proof (cases rule: insert_row_cases)
    case (inserted i db0)
    have n: "n = node_setID i ?e" "node_Path n = node_Path e" "node_ParentID n = node_ParentID e" "node_Name n = node_Name e"
      "face n = face e" "\<not> node_IsDeleted n" "node_ID n = i"
      using inserted(1) e(3) by (simp_all add: node_setID_def node_stamp_def face_def)
    have nodes: "db_nodes db' = db_nodes db @ [n]" using inserted(5) n(1) same_tables_fields(4) [OF inserted(2)] by simp
    have "\<forall>x. live (db_nodes db) x \<longrightarrow> node_Path x \<noteq> node_Path n"
      using inserted(4) n(1,6) by (auto simp: live_def node_path_clash_def)
    moreover have "placed (db_nodes db) n" using e(1) placed_cong [OF n(2-4)] by simp
    ultimately have "grown ws rows (db_nodes db @ [n])"
      using grown_insert [OF g n(6)] inserted(4) n(2,7) e(2) unfolding placed_def by simp
    then show ?thesis using nodes n by (auto simp: live_def)
  qed simp_all
qed

text \<open>The live node at the next path is the child of the current directory with that name.\<close>

lemma child_at:
  assumes ok: "tree_ok rows" and cur: "stands rows cur" and w: "nseg w" "no_trail w"
    and x: "live rows x" "node_Path x = render (segs cur @ [w])"
  shows "node_ParentID x = Some (node_ID cur)" "node_Name x = w"
proof -
  let ?e = "x\<lparr>node_ParentID := Some (node_ID cur), node_Name := w\<rparr>"
  have "segs_of (render (segs cur @ [w])) = segs cur @ [w]" by (rule segs_of_render) (rule join_stands(2) [OF ok cur w(1)])
  moreover have "placed rows ?e" by (rule placed_child [OF ok cur w]) (use x in simp_all)
  ultimately show "node_ParentID x = Some (node_ID cur)" "node_Name x = w"
    using placed_existing [OF ok x(1), of ?e] x(2) by simp_all
qed

lemma try_then_retE:
  assumes "if_err m (\<lambda>e. throw (g e)) (\<lambda>_. ret v) s = (Inr y, s')"
  obtains u where "m s = (Inr u, s')" "y = v"
  using assms by (rule tryE) (simp add: that ret_def)

lemma mount_dir_grown:
  assumes g: "grown ws rows (db_nodes db)" and cur: "stands (db_nodes db) cur"
    and w: "nseg w" "no_trail w" "prefix (segs cur @ [w]) ws"
    and call: "mount_dir source now fin cur w db = (Inr n, db')"
  shows "grown ws rows (db_nodes db') \<and> written (db_nodes db') n \<and> segs n = segs cur @ [w] \<and>
    (fin \<longrightarrow> node_Kind n = VFSNodeKindMount \<and> node_SourceID n = Some (src_ID source) \<and> node_SyncState n = VFSNodeSyncStateIndexed)"
proof -
  note ok = grown_tree_ok [OF g]
  note j = join_stands [OF ok cur w(1)]
  have sj: "segs_of (render (segs cur @ [w])) = segs cur @ [w]" using j(2) by (rule segs_of_render)
  obtain r1 db1 where 1: "node_FindByPath (joinVirtualPath (node_Path cur) w) db = (r1, db1)" by force
  note r = FindByPath_reads [OF 1]
  note t = same_tables_fields(4) [OF r(1)]
  have g1: "grown ws rows (db_nodes db1)" "stands (db_nodes db1) cur" using g cur t by simp_all
  let ?kind = "if fin then VFSNodeKindMount else VFSNodeKindVirtualDir"
  let ?sid = "if fin then Some (src_ID source) else None"
  show ?thesis
  proof (cases r1)
    case (Inl err)
    obtain e where e: "node_ParentID e = Some (node_ID cur)" "node_Name e = w" "node_Path e = render (segs cur @ [w])"
      "\<not> node_IsDeleted e" "face e = (?kind, ?sid, None, VFSNodeSyncStateIndexed, w, False)"
      and u: "tryN (node_Create e) ret db1 = (Inr n, db')"
    proof -
      let ?e = "\<lparr>node_ID = 0, node_ParentID = Some (node_ID cur), node_Name = w,
                   node_Path = joinVirtualPath (node_Path cur) w, node_Kind = ?kind, node_MountID = None, node_ObjectID = None,
                   node_SourceID = cloneUintPtr ?sid, node_ProviderItemID = None,
                   node_ProviderParentID = None, node_Size = 0, node_MimeType = ''inode/directory'',
                   node_ETag = [], node_Checksum = [], node_SyncState = VFSNodeSyncStateIndexed,
                   node_IsDeleted = False, node_CreatedBy = None, node_UpdatedBy = None,
                   node_CreatedAt = now, node_UpdatedAt = now, node_IndexedAt = Some now, node_LastSeenAt = Some now\<rparr>"
      show thesis
        by (rule that [of ?e])
          (use j(1) call 1 Inl in \<open>simp_all add: mount_dir_def Let_def throw_def face_def split: if_splits\<close>)
    qed
    have "prefix (segs e) ws" "placed (db_nodes db1) e"
      using w e sj placed_child [OF grown_tree_ok [OF g1(1)] g1(2) w(1,2) e(1-3)] by simp_all
    then show ?thesis
      using node_Create_grown [OF g1(1) _ _ e(4) try_retE [OF u]] e(3,5) sj written_live by (auto simp: face_def)
  next
    case (Inr x)
    then have x: "live (db_nodes db) x" "node_Path x = render (segs cur @ [w])" using r(2) j(1) by auto
    note same = child_at [OF ok cur w(1,2) x]
    have sx: "segs x = segs cur @ [w]" using x(2) sj by simp
    let ?e = "x\<lparr>node_ParentID := Some (node_ID cur), node_Name := w, node_Kind := ?kind,
          node_SourceID := cloneUintPtr ?sid, node_SyncState := VFSNodeSyncStateIndexed, node_MimeType := ''inode/directory'',
          node_UpdatedAt := now, node_IndexedAt := (if node_IndexedAt x = None then Some now else node_IndexedAt x)\<rparr>"
    obtain db2 where k: "db_nodes db2 = db_nodes db1"
      and 2: "(if metadataVFSMountNodeNeedsUpdate x (node_ID cur) w ?kind ?sid
           then tryN (node_Update ?e) (\<lambda>_. ret ?e) else ret x) db2 = (Inr n, db')"
    proof -
      let ?check = "if node_Kind x = VFSNodeKindMount \<and> node_SourceID x \<noteq> None \<and> ?sid \<noteq> None \<and> node_SourceID x \<noteq> ?sid
        then tryM (mountNodeReusableForSource (node_ID x) (src_ID source)) (\<lambda>reusable.
                             if \<not> reusable then throw ErrSourceMountPathConflict else ret ()) else ret ()"
      have "tryM ?check (\<lambda>_. if metadataVFSMountNodeNeedsUpdate x (node_ID cur) w ?kind ?sid
           then tryN (node_Update ?e) (\<lambda>_. ret ?e) else ret x) db1 = (Inr n, db')"
      proof -
        have "metadataVFSNodeIsDirectory x"
          by (rule ccontr) (use call 1 Inr in \<open>simp add: mount_dir_def Let_def throw_def\<close>)
        then show ?thesis using call [unfolded mount_dir_def Let_def] 1 Inr by (simp split del: if_split)
      qed
      then obtain u db2 where c: "?check db1 = (Inr u, db2)"
        and "(if metadataVFSMountNodeNeedsUpdate x (node_ID cur) w ?kind ?sid
           then tryN (node_Update ?e) (\<lambda>_. ret ?e) else ret x) db2 = (Inr n, db')"
        by (rule tryE) (rule that)
      moreover have "tree_nodes.keeps ?check" by (intro tree_nodes.keeps_if tree_nodes.keeps_if_err) auto
      ultimately show thesis using that tree_nodes.keepsD by blast
    qed
    have g2: "grown ws rows (db_nodes db2)" "live (db_nodes db2) x" using g1(1) x(1) t k by simp_all
    show ?thesis
    proof (cases "metadataVFSMountNodeNeedsUpdate x (node_ID cur) w ?kind ?sid")
      case True
      then have "tryN (node_Update ?e) (\<lambda>_. ret ?e) db2 = (Inr n, db')" using 2 by simp
      then obtain u where u: "node_Update ?e db2 = (Inr u, db')" "n = ?e" by (rule try_then_retE)
      have e: "skel ?e = skel x" "node_Name ?e = node_Name x" "\<not> node_IsDeleted ?e"
        using same x(1) by (simp_all add: skel_def live_def)
      from node_Update_written [OF g2 e u(1)] show ?thesis using u(2) sx by simp
    next
      case False
      then have "n = x" "db' = db2" using 2 by (simp_all add: ret_def)
      then show ?thesis
        using False g2 sx written_live by (auto simp: metadataVFSMountNodeNeedsUpdate_def sameUintPtr_def split: option.splits)
    qed
  qed
qed

lemma mount_dirs_grown:
  assumes "grown ws rows (db_nodes db)" "stands (db_nodes db) cur"
    and "\<forall>v \<in> set vs. nseg v \<and> no_trail v" "prefix (segs cur @ vs) ws" "vs \<noteq> []"
    and "mount_dirs source now cur vs db = (Inr n, db')"
  shows "grown ws rows (db_nodes db') \<and> written (db_nodes db') n \<and> segs n = segs cur @ vs \<and>
    node_Kind n = VFSNodeKindMount \<and> node_SourceID n = Some (src_ID source) \<and> node_SyncState n = VFSNodeSyncStateIndexed"
  using assms
proof (induction vs arbitrary: cur db)
  case (Cons v vs)
  have v: "nseg v" "no_trail v" "prefix (segs cur @ [v]) ws" "v \<noteq> []"
    using Cons.prems(3,4) by (auto simp: nseg_def prefix_def)
  obtain m db1 where 1: "mount_dir source now (vs = []) cur v db = (Inr m, db1)"
    and 2: "mount_dirs source now m vs db1 = (Inr n, db')"
    using Cons.prems(6) v(4) by (auto elim: tryE)
  have d: "grown ws rows (db_nodes db1)" "written (db_nodes db1) m" "segs m = segs cur @ [v]"
    "vs = [] \<longrightarrow> node_Kind m = VFSNodeKindMount \<and> node_SourceID m = Some (src_ID source) \<and> node_SyncState m = VFSNodeSyncStateIndexed"
    using mount_dir_grown [OF Cons.prems(1,2) v(1-3) 1] by auto
  show ?case
  proof (cases "vs = []")
    case True
    then show ?thesis using 2 d by (simp add: ret_def)
  next
    case False
    show ?thesis using Cons.IH [OF d(1) written_stands [OF d(2)] _ _ False 2] Cons.prems(3,4) d(3) by simp
  qed
qed simp

lemma ensureMountRoot_grown:
  assumes g: "grown ws rows (db_nodes db)" and call: "ensureMountRoot now db = (Inr root, db')"
  shows "grown ws rows (db_nodes db') \<and> live (db_nodes db') root \<and> node_Path root = ''/''"
proof -
  obtain r1 db1 where 1: "node_FindByPath ''/'' db = (r1, db1)" by force
  note r = FindByPath_reads [OF 1]
  have g1: "grown ws rows (db_nodes db1)" using g same_tables_fields(4) [OF r(1)] by simp
  show ?thesis
  proof (cases r1)
    case (Inl e)
    then have 2: "ensureCommitRoot now db1 = (Inr root, db')"
      using call 1 by (auto simp: ensureMountRoot_def throw_def split: if_splits)
    obtain e where e: "node_Path e = ''/''" "node_ParentID e = None" and u: "node_UpsertByPath e db1 = (Inr root, db')"
      by (rule that [OF _ _ try_retE [OF 2 [unfolded ensureCommitRoot_def]]]) simp_all
    have "placed (db_nodes db1) e" "prefix (segs e) ws" using e by (simp_all add: placed_def)
    from node_UpsertByPath_grown [OF g1 this u] show ?thesis using e by simp
  next
    case (Inr x)
    then show ?thesis using call 1 g1 r(2) same_tables_fields(4) [OF r(1)] by (auto simp: ensureMountRoot_def ret_def)
  qed
qed

lemma ensureSourceMountNode_grown:
  assumes g: "grown ws rows (db_nodes db)"
    and mp: "normal mp" "\<forall>v \<in> set (segs_of mp). no_trail v" "prefix (segs_of mp) ws"
    and call: "ensureSourceMountNode source mp now db = (Inr n, db')"
  shows "grown ws rows (db_nodes db') \<and> written (db_nodes db') n \<and> node_Path n = mp \<and>
    (mp \<noteq> ''/'' \<longrightarrow> node_Kind n = VFSNodeKindMount) \<and> node_SourceID n = Some (src_ID source)"
proof -
  obtain root db1 where 1: "ensureMountRoot now db = (Inr root, db1)"
    and 2: "(if mp = ''/'' then
         let root' = root\<lparr>node_SourceID := Some (src_ID source), node_SyncState := VFSNodeSyncStateIndexed,
               node_UpdatedAt := now,
               node_IndexedAt := (if node_IndexedAt root = None then Some now else node_IndexedAt root)\<rparr>
         in tryN (node_Update root') (\<lambda>_. ret root')
       else mount_dirs source now root (Split (TrimPrefix mp ''/'') CHR ''/'')) db1 = (Inr n, db')"
    using call [unfolded ensureSourceMountNode_def] by (rule tryE) (rule that)
  note r = ensureMountRoot_grown [OF g 1]
  have n: "nsegs (segs_of mp)" "render (segs_of mp) = mp" using normal_segs [OF mp(1)] by auto
  show ?thesis
  proof (cases "mp = ''/''")
    case True
    define e where "e = root\<lparr>node_SourceID := Some (src_ID source), node_SyncState := VFSNodeSyncStateIndexed,
               node_UpdatedAt := now, node_IndexedAt := (if node_IndexedAt root = None then Some now else node_IndexedAt root)\<rparr>"
    have "tryN (node_Update e) (\<lambda>_. ret e) db1 = (Inr n, db')" using 2 True by (simp add: e_def Let_def)
    then obtain u where u: "node_Update e db1 = (Inr u, db')" "n = e" by (rule try_then_retE)
    have e: "skel e = skel root" "node_Name e = node_Name root" "\<not> node_IsDeleted e" "node_Path e = ''/''"
      "node_SourceID e = Some (src_ID source)"
      using r by (simp_all add: e_def skel_def live_def)
    from node_Update_written [OF conjunct1 [OF r] _ e(1-3) u(1)] show ?thesis using r u(2) True e(4,5) by simp
  next
    case False
    have ne: "segs_of mp \<noteq> []" using False n(2) by (auto simp: render_def)
    have "mount_dirs source now root (segs_of mp) db1 = (Inr n, db')"
      using 2 False Split_normal [OF n(1) ne] n(2) by simp
    moreover have "segs root = []" using r by simp
    ultimately have d: "grown ws rows (db_nodes db') \<and> written (db_nodes db') n \<and> segs n = segs_of mp \<and>
        node_Kind n = VFSNodeKindMount \<and> node_SourceID n = Some (src_ID source)"
      using mount_dirs_grown [of ws rows db1 root "segs_of mp"] r stands_live n(1) mp(2,3) ne by auto
    moreover have "node_Path n = mp"
    proof -
      obtain y where y: "live (db_nodes db') y" "skel y = skel n" using d by (auto simp: written_def)
      have "node_Path n = render (segs n)" using live_path [OF grown_tree_ok [OF conjunct1 [OF d]] y(1)] skelD(3) [OF y(2)] by simp
      then show ?thesis using d n(2) by simp
    qed
    ultimately show ?thesis by simp
  qed
qed


subsection \<open>The other mounts of the source\<close>

text \<open>Marking a node stale rewrites at most the row with that identifier.\<close>

lemma markMountNodeStale_grown:
  assumes g: "grown ws rows (db_nodes db)" and call: "markMountNodeStale i now db = (Inr u, db')"
  shows "grown ws rows (db_nodes db') \<and> db_mounts db' = db_mounts db \<and>
    (\<forall>x \<in> set (db_nodes db). node_ID x \<noteq> i \<longrightarrow> x \<in> set (db_nodes db'))"
proof (cases "i = 0")
  case True
  then show ?thesis using call g by (simp add: markMountNodeStale_def ret_def)
next
  case False
  obtain r1 db1 where 1: "node_FindByID i db = (r1, db1)" by force
  have r: "same_tables db db1" "\<And>x. r1 = Inr x \<Longrightarrow> x \<in> set (db_nodes db) \<and> node_ID x = i"
    using find_row_reads [OF 1 [unfolded node_FindByID_def]] by auto
  note t = same_tables_fields(4,15) [OF r(1)]
  show ?thesis
  proof (cases "\<exists>x. r1 = Inr x \<and> \<not> node_IsDeleted x")
    case True
    then obtain x where x: "r1 = Inr x" "\<not> node_IsDeleted x" by blast
    let ?e = "x\<lparr>node_SyncState := VFSNodeSyncStateStale, node_UpdatedAt := now\<rparr>"
    have "tryN (node_Update ?e) ret db1 = (Inr u, db')" using call 1 x \<open>i \<noteq> 0\<close> by (simp add: markMountNodeStale_def)
    note u = try_retE [OF this]
    have x': "live (db_nodes db1) x" using x r(2) t by (auto simp: live_def)
    have e: "skel ?e = skel x" "node_Name ?e = node_Name x" "\<not> node_IsDeleted ?e" using x(2) by (simp_all add: skel_def)
    have "grown ws rows (db_nodes db')" using node_Update_grown(1) [OF _ x' e u] g t by simp
    moreover have "\<forall>x \<in> set (db_nodes db). node_ID x \<noteq> i \<longrightarrow> x \<in> set (db_nodes db')"
      using node_Update_writes(2) [OF u] t(1) r(2) [OF x(1)] by force
    ultimately show ?thesis using mounts.keepsD [OF mounts_node_repo(4) u] t(2) by simp
  next
    case False
    then have "same_tables db db'"
      using call 1 r(1) \<open>i \<noteq> 0\<close>
      by (cases r1) (auto simp: markMountNodeStale_def ret_def throw_def split: if_splits)
    then show ?thesis using g same_tables_fields(4,15) by simp
  qed
qed

text \<open>
  What the loop does to the mounts it was given: the ones that are not at the kept path are
  disabled, and nothing else happens to the mounts.
\<close>

lemma disable_loop_disables:
  assumes "grown ws rows (db_nodes db)" "mounts_ok (db_mounts db)"
    and "mnt_key ` set ms \<subseteq> mnt_key ` set (db_mounts db)"
    and "disable_loop s keep now ms db = (Inr ids, db')"
  shows "grown ws rows (db_nodes db') \<and> map mnt_key (db_mounts db') = map mnt_key (db_mounts db) \<and>
    (\<forall>m \<in> set (db_mounts db). mnt_MountPath m = keep \<or> mnt_ID m \<notin> mnt_ID ` set ms \<longrightarrow> m \<in> set (db_mounts db')) \<and>
    (\<forall>m \<in> set (db_mounts db'). mnt_IsEnabled m \<longrightarrow>
       m \<in> set (db_mounts db) \<and> (mnt_MountPath m = keep \<or> mnt_ID m \<notin> mnt_ID ` {m \<in> set ms. mnt_IsEnabled m})) \<and>
    (\<forall>x \<in> set (db_nodes db). (\<forall>m \<in> set ms. mnt_MountPath m \<noteq> keep \<longrightarrow> mnt_NodeID m \<noteq> node_ID x) \<longrightarrow> x \<in> set (db_nodes db'))"
  using assms
proof (induction ms arbitrary: db ids)
  case Nil
  then show ?case by (simp add: ret_def)
next
  case (Cons m ms)
  show ?case
  proof (cases "mnt_MountPath m = keep")
    case True
    have kept: "mnt_MountPath x = keep" if "x \<in> set (db_mounts db)" "mnt_ID x = mnt_ID m" for x
    proof -
      obtain y where "y \<in> set (db_mounts db)" "mnt_key m = mnt_key y" using Cons.prems(3) by auto
      moreover from this that have "x = y" using mounts_okD(1) [OF Cons.prems(2)] by (simp add: mnt_key_def)
      ultimately show ?thesis using True by (simp add: mnt_key_def)
    qed
    have "disable_loop s keep now ms db = (Inr ids, db')" using Cons.prems(4) True by simp
    moreover have "mnt_key ` set ms \<subseteq> mnt_key ` set (db_mounts db)" using Cons.prems(3) by auto
    ultimately have IH: "grown ws rows (db_nodes db')" "map mnt_key (db_mounts db') = map mnt_key (db_mounts db)"
      "\<forall>x \<in> set (db_mounts db). mnt_MountPath x = keep \<or> mnt_ID x \<notin> mnt_ID ` set ms \<longrightarrow> x \<in> set (db_mounts db')"
      "\<forall>x \<in> set (db_mounts db'). mnt_IsEnabled x \<longrightarrow> x \<in> set (db_mounts db) \<and>
         (mnt_MountPath x = keep \<or> mnt_ID x \<notin> mnt_ID ` {m \<in> set ms. mnt_IsEnabled m})"
      "\<forall>x \<in> set (db_nodes db). (\<forall>m \<in> set ms. mnt_MountPath m \<noteq> keep \<longrightarrow> mnt_NodeID m \<noteq> node_ID x) \<longrightarrow> x \<in> set (db_nodes db')"
      using Cons.IH [OF Cons.prems(1,2)] by blast+
    have "\<forall>x \<in> set (db_mounts db'). mnt_IsEnabled x \<longrightarrow> x \<in> set (db_mounts db) \<and>
         (mnt_MountPath x = keep \<or> mnt_ID x \<notin> mnt_ID ` {m' \<in> set (m # ms). mnt_IsEnabled m'})"
    proof (intro ballI impI)
      fix x assume x: "x \<in> set (db_mounts db')" "mnt_IsEnabled x"
      show "x \<in> set (db_mounts db) \<and> (mnt_MountPath x = keep \<or> mnt_ID x \<notin> mnt_ID ` {m' \<in> set (m # ms). mnt_IsEnabled m'})"
      proof (cases "mnt_ID x = mnt_ID m")
        case True
        then show ?thesis using bspec [OF IH(4) x(1)] x(2) kept by blast
      next
        case False
        then have "mnt_ID x \<in> mnt_ID ` {m' \<in> set (m # ms). mnt_IsEnabled m'} \<longleftrightarrow> mnt_ID x \<in> mnt_ID ` {m \<in> set ms. mnt_IsEnabled m}"
          by auto
        then show ?thesis using bspec [OF IH(4) x(1)] x(2) by blast
      qed
    qed
    moreover have "\<forall>x \<in> set (db_mounts db). mnt_MountPath x = keep \<or> mnt_ID x \<notin> mnt_ID ` set (m # ms) \<longrightarrow> x \<in> set (db_mounts db')"
      using IH(3) by simp
    moreover have "\<forall>x \<in> set (db_nodes db). (\<forall>y \<in> set (m # ms). mnt_MountPath y \<noteq> keep \<longrightarrow> mnt_NodeID y \<noteq> node_ID x) \<longrightarrow> x \<in> set (db_nodes db')"
      using IH(5) by simp
    ultimately show ?thesis using IH(1,2) by (intro conjI)
  next
    case False
    let ?off = "if mnt_IsEnabled m then tryN (mnt_Update (m\<lparr>mnt_IsEnabled := False, mnt_UpdatedAt := now\<rparr>)) (\<lambda>_. ret [mnt_ID m]) else ret []"
    let ?e = "m\<lparr>mnt_IsEnabled := False, mnt_UpdatedAt := now\<rparr>"
    obtain d u ids' db1 db2 where 1: "?off db = (Inr d, db1)"
      and 2: "(if mms_nodeRepo s then markMountNodeStale (mnt_NodeID m) now else ret ()) db1 = (Inr u, db2)"
      and 3: "disable_loop s keep now ms db2 = (Inr ids', db')"
    proof -
      have "tryM ?off (\<lambda>disabled.
        tryM (if mms_nodeRepo s then markMountNodeStale (mnt_NodeID m) now else ret ()) (\<lambda>_.
        tryM (disable_loop s keep now ms) (\<lambda>rest. ret (disabled @ rest)))) db = (Inr ids, db')"
        using Cons.prems(4) False by (simp split del: if_split)
      then show thesis using that by (elim tryE) (metis Pair_inject ret_def)
    qed
    have ek: "mnt_key ?e = mnt_key m" "mnt_ID ?e = mnt_ID m" by (simp_all add: mnt_key_def)
    have b: "map mnt_key (db_mounts db1) = map mnt_key (db_mounts db)" "db_nodes db1 = db_nodes db"
      "\<forall>x \<in> set (db_mounts db). mnt_ID x \<noteq> mnt_ID m \<longrightarrow> x \<in> set (db_mounts db1)"
      "\<forall>x \<in> set (db_mounts db1). mnt_IsEnabled x \<longrightarrow> x \<in> set (db_mounts db) \<and> (mnt_ID x = mnt_ID m \<longrightarrow> \<not> mnt_IsEnabled m)"
    proof -
      have "map mnt_key (db_mounts db1) = map mnt_key (db_mounts db) \<and> db_nodes db1 = db_nodes db \<and>
        (\<forall>x \<in> set (db_mounts db). mnt_ID x \<noteq> mnt_ID m \<longrightarrow> x \<in> set (db_mounts db1)) \<and>
        (\<forall>x \<in> set (db_mounts db1). mnt_IsEnabled x \<longrightarrow> x \<in> set (db_mounts db) \<and> (mnt_ID x = mnt_ID m \<longrightarrow> \<not> mnt_IsEnabled m))"
      proof (cases "mnt_IsEnabled m")
        case True
        then obtain v where v: "mnt_Update ?e db = (Inr v, db1)" using 1 by (auto elim!: tryE simp: ret_def)
        have "mnt_key ?e \<in> mnt_key ` set (db_mounts db)" unfolding ek using Cons.prems(3) by simp
        note w = mnt_Update_writes [OF v Cons.prems(2) this]
        have "\<not> mnt_IsEnabled ?e" by simp
        then have "\<forall>x \<in> set (db_mounts db1). mnt_IsEnabled x \<longrightarrow> x \<in> set (db_mounts db) \<and> mnt_ID x \<noteq> mnt_ID m"
          using w(2) unfolding ek by auto
        moreover have "\<forall>x \<in> set (db_mounts db). mnt_ID x \<noteq> mnt_ID m \<longrightarrow> x \<in> set (db_mounts db1)"
          using w(3) unfolding ek by blast
        ultimately show ?thesis using w(1) tree_nodes.keepsD [OF nodes_mount_repo(4) v] by blast
      next
        case False
        then show ?thesis using 1 by (auto simp: ret_def)
      qed
      then show "map mnt_key (db_mounts db1) = map mnt_key (db_mounts db)" "db_nodes db1 = db_nodes db"
        "\<forall>x \<in> set (db_mounts db). mnt_ID x \<noteq> mnt_ID m \<longrightarrow> x \<in> set (db_mounts db1)"
        "\<forall>x \<in> set (db_mounts db1). mnt_IsEnabled x \<longrightarrow> x \<in> set (db_mounts db) \<and> (mnt_ID x = mnt_ID m \<longrightarrow> \<not> mnt_IsEnabled m)"
        by blast+
    qed
    have c: "grown ws rows (db_nodes db2)" "db_mounts db2 = db_mounts db1"
      "\<forall>x \<in> set (db_nodes db1). node_ID x \<noteq> mnt_NodeID m \<longrightarrow> x \<in> set (db_nodes db2)"
      using markMountNodeStale_grown [of ws rows db1 "mnt_NodeID m" now u db2] 2 Cons.prems(1) b(2)
      by (auto simp: ret_def split: if_splits)
    have ok: "mounts_ok (db_mounts db2)" using Cons.prems(2) mounts_ok_keys [OF b(1)] c(2) by simp
    have "mnt_key ` set ms \<subseteq> mnt_key ` set (db_mounts db2)"
      using Cons.prems(3) arg_cong [OF b(1), of set] c(2) by simp
    note IH = Cons.IH [OF c(1) ok this 3]
    from IH have IHs: "map mnt_key (db_mounts db') = map mnt_key (db_mounts db2)"
      "\<forall>x \<in> set (db_mounts db2). mnt_MountPath x = keep \<or> mnt_ID x \<notin> mnt_ID ` set ms \<longrightarrow> x \<in> set (db_mounts db')"
      "\<forall>x \<in> set (db_mounts db'). mnt_IsEnabled x \<longrightarrow> x \<in> set (db_mounts db2) \<and>
         (mnt_MountPath x = keep \<or> mnt_ID x \<notin> mnt_ID ` {m \<in> set ms. mnt_IsEnabled m})"
      "\<forall>x \<in> set (db_nodes db2). (\<forall>m \<in> set ms. mnt_MountPath m \<noteq> keep \<longrightarrow> mnt_NodeID m \<noteq> node_ID x) \<longrightarrow> x \<in> set (db_nodes db')"
      by - (elim conjE, assumption)+
    have other: "mnt_ID x \<noteq> mnt_ID m" if "x \<in> set (db_mounts db)" "mnt_MountPath x = keep" for x
    proof
      assume i: "mnt_ID x = mnt_ID m"
      obtain y where "y \<in> set (db_mounts db)" "mnt_key m = mnt_key y" using Cons.prems(3) by auto
      moreover from this i that have "x = y" using mounts_okD(1) [OF Cons.prems(2)] by (simp add: mnt_key_def)
      ultimately show False using that(2) False by (simp add: mnt_key_def)
    qed
    have k: "\<forall>x \<in> set (db_mounts db). mnt_MountPath x = keep \<or> mnt_ID x \<notin> mnt_ID ` set (m # ms) \<longrightarrow> x \<in> set (db_mounts db')"
    proof (intro ballI impI)
      fix x assume x: "x \<in> set (db_mounts db)" "mnt_MountPath x = keep \<or> mnt_ID x \<notin> mnt_ID ` set (m # ms)"
      then have "mnt_ID x \<noteq> mnt_ID m" "mnt_MountPath x = keep \<or> mnt_ID x \<notin> mnt_ID ` set ms" using other by auto
      moreover from this(1) have "x \<in> set (db_mounts db2)" using bspec [OF b(3) x(1)] c(2) by simp
      ultimately show "x \<in> set (db_mounts db')" using IHs(2) by blast
    qed
    have e: "\<forall>x \<in> set (db_mounts db'). mnt_IsEnabled x \<longrightarrow> x \<in> set (db_mounts db) \<and>
        (mnt_MountPath x = keep \<or> mnt_ID x \<notin> mnt_ID ` {m' \<in> set (m # ms). mnt_IsEnabled m'})"
    proof (intro ballI impI)
      fix x assume x: "x \<in> set (db_mounts db')" "mnt_IsEnabled x"
      then have y: "x \<in> set (db_mounts db1)" "mnt_MountPath x = keep \<or> mnt_ID x \<notin> mnt_ID ` {m \<in> set ms. mnt_IsEnabled m}"
        using bspec [OF IHs(3)] c(2) by auto
      then have "x \<in> set (db_mounts db)" "mnt_ID x = mnt_ID m \<longrightarrow> \<not> mnt_IsEnabled m" using b(4) x(2) by blast+
      then show "x \<in> set (db_mounts db) \<and> (mnt_MountPath x = keep \<or> mnt_ID x \<notin> mnt_ID ` {m' \<in> set (m # ms). mnt_IsEnabled m'})"
        using y(2) by auto
    qed
    have n: "\<forall>x \<in> set (db_nodes db). (\<forall>y \<in> set (m # ms). mnt_MountPath y \<noteq> keep \<longrightarrow> mnt_NodeID y \<noteq> node_ID x) \<longrightarrow> x \<in> set (db_nodes db')"
      using IHs(4) b(2) c(3) False by simp
    have "map mnt_key (db_mounts db') = map mnt_key (db_mounts db)" using IHs(1) b(1) c(2) by simp
    then show ?thesis using conjunct1 [OF IH] k e n by (intro conjI)
  qed
qed


section \<open>Properties\<close>

text \<open>
  What a synchronisation of the source at \<open>mp\<close> leaves behind: the tree has grown on the way to
  \<open>mp\<close> only; there a live node shows the source and names the mount row, which names the node;
  no other mount of the source is enabled.
\<close>

definition mounted :: "StorageSource \<Rightarrow> string \<Rightarrow> DB \<Rightarrow> MetadataVFSMountSyncResult \<Rightarrow> DB \<Rightarrow> bool" where
  "mounted source mp db res db' \<longleftrightarrow>
     (let m = msr_Mount res in
        grown (segs_of mp) (db_nodes db) (db_nodes db') \<and> mounts_ok (db_mounts db') \<and>
        (\<exists>n. live (db_nodes db') n \<and> node_Path n = mp \<and> node_ID n = mnt_NodeID m \<and> node_MountID n = Some (mnt_ID m) \<and>
             node_SourceID n = Some (src_ID source) \<and> (mp \<noteq> ''/'' \<longrightarrow> node_Kind n = VFSNodeKindMount) \<and>
             node_SyncState n = VFSNodeSyncStateIndexed) \<and>
        m \<in> set (db_mounts db') \<and> mnt_MountPath m = mp \<and> mnt_SourceID m = src_ID source \<and>
        mnt_IsEnabled m = src_IsEnabled source \<and>
        (\<forall>x \<in> set (db_mounts db'). mnt_SourceID x = src_ID source \<and> mnt_IsEnabled x \<longrightarrow> x = m))"

lemma disableOtherSourceMounts_disables:
  assumes g: "grown ws rows (db_nodes db)" and ok: "mounts_ok (db_mounts db)"
    and m: "m \<in> set (db_mounts db)" "mnt_MountPath m = keep" and n: "live (db_nodes db) n" "node_ID n = mnt_NodeID m"
    and i: "i \<noteq> 0" and call: "disableOtherSourceMounts s i keep now db = (Inr ids, db')"
  shows "grown ws rows (db_nodes db') \<and> mounts_ok (db_mounts db') \<and> m \<in> set (db_mounts db') \<and> live (db_nodes db') n \<and>
    (\<forall>x \<in> set (db_mounts db'). mnt_SourceID x = i \<and> mnt_IsEnabled x \<longrightarrow> x = m)"
proof -
  let ?filt = "\<lparr>mlf_SourceID = i, mlf_Enabled = None, mlf_Mode = [], mlf_PathPrefix = [], mlf_IncludeHidden = True\<rparr>"
  obtain ms db1 where 1: "mnt_List ?filt db = (Inr ms, db1)" and 2: "disable_loop s keep now ms db1 = (Inr ids, db')"
    using call [unfolded disableOtherSourceMounts_def] by (rule tryE) (rule that)
  have "same_tables db db1 \<and> ms = sort_key (\<lambda>m. (mnt_SortOrder m, mnt_ID m)) (filter (mnt_selected ?filt) (db_mounts db))"
    using select_rows_cases [OF 1 [unfolded mnt_List_def]] by (auto simp: table_query_def same_tables_fields)
  then have t: "db_nodes db1 = db_nodes db" "db_mounts db1 = db_mounts db"
    and ms: "set ms = {x \<in> set (db_mounts db). mnt_SourceID x = i}"
    using i by (auto simp: mnt_selected_def same_tables_fields)
  have "mnt_key ` set ms \<subseteq> mnt_key ` set (db_mounts db1)" using ms t by auto
  note d = disable_loop_disables [OF _ _ this 2, unfolded t, OF g ok]
  have "\<forall>x \<in> set ms. mnt_MountPath x \<noteq> keep \<longrightarrow> mnt_NodeID x \<noteq> node_ID n"
    using ms mounts_okD(2) [OF ok m(1)] m(2) n(2) by auto
  then have "n \<in> set (db_nodes db')" using d n(1) by (auto simp: live_def)
  moreover have "x = m" if x: "x \<in> set (db_mounts db')" "mnt_SourceID x = i" "mnt_IsEnabled x" for x
  proof -
    have "x \<in> set (db_mounts db)" "mnt_MountPath x = keep \<or> mnt_ID x \<notin> mnt_ID ` {m \<in> set ms. mnt_IsEnabled m}"
      using d x by blast+
    moreover from this have "mnt_MountPath x = keep" using ms x(2,3) by blast
    ultimately show ?thesis using mounts_okD(3) [OF ok m(1)] m(2) by simp
  qed
  moreover have "mounts_ok (db_mounts db')" using mounts_ok_keys ok d by blast
  moreover have "m \<in> set (db_mounts db')" using d m by blast
  ultimately show ?thesis using conjunct1 [OF d] n(1) unfolding live_def by blast
qed

lemma mounts_ensure: "mounts.keeps (ensureSourceMountNode source mp now)"
proof -
  have d: "mounts.keeps (mount_dir source now fin cur w)" for fin cur w
    unfolding mount_dir_def Let_def
    by (intro mounts.keeps_if_err mounts.keeps_if mounts_node_repo mount_checks_keep mounts.keeps_basic)
  have "mounts.keeps (mount_dirs source now cur vs)" for cur vs
    by (induction vs arbitrary: cur) (simp_all add: d mounts.keeps_if_err)
  then show ?thesis
    unfolding ensureSourceMountNode_def ensureMountRoot_def ensureCommitRoot_def Let_def
    by (intro mounts.keeps_if_err mounts.keeps_if mounts_node_repo mounts.keeps_basic)
qed

text \<open>The mount node gets the identifier of the mount row.\<close>

lemma point_node:
  fixes m :: VFSMount and node :: VFSNode and now :: gotime
  defines "e \<equiv> node\<lparr>node_MountID := Some (mnt_ID m), node_SyncState := VFSNodeSyncStateIndexed,
        node_UpdatedAt := now, node_IndexedAt := (if node_IndexedAt node = None then Some now else node_IndexedAt node)\<rparr>"
  assumes g: "grown ws rows (db_nodes db)" "written (db_nodes db) node" and i: "node_SourceID node = Some i"
    and call: "(if \<not> sameUintPtr (node_MountID node) (Some (mnt_ID m)) \<or> node_SyncState node \<noteq> VFSNodeSyncStateIndexed
               then let node' = e in tryN (node_Update node') (\<lambda>_. ret node') else ret node) db = (Inr node', db')"
  shows "grown ws rows (db_nodes db') \<and> db_mounts db' = db_mounts db \<and>
    (\<exists>n. live (db_nodes db') n \<and> skel n = skel node \<and> face n = (node_Kind node, Some i, Some (mnt_ID m), VFSNodeSyncStateIndexed, node_Name node, False))"
proof (cases "\<not> sameUintPtr (node_MountID node) (Some (mnt_ID m)) \<or> node_SyncState node \<noteq> VFSNodeSyncStateIndexed")
  case True
  then obtain u where u: "node_Update e db = (Inr u, db')" using call by (auto elim: try_then_retE simp: Let_def)
  obtain x where x: "live (db_nodes db) x" "skel x = skel node" "face x = face node" using g(2) by (auto simp: written_def)
  have e: "skel e = skel x" "node_Name e = node_Name x" "\<not> node_IsDeleted e"
    "face e = (node_Kind node, Some i, Some (mnt_ID m), VFSNodeSyncStateIndexed, node_Name node, False)"
    using x i by (auto simp: e_def skel_def face_def live_def)
  show ?thesis
    using node_Update_written [OF g(1) x(1) e(1-3) u] mounts.keepsD [OF mounts_node_repo(4) u] e(1,4) x(2)
    by (auto simp: written_def)
next
  case False
  moreover have "\<not> node_IsDeleted node" using g(2) by (auto simp: written_def face_def live_def)
  ultimately have "db' = db" "face node = (node_Kind node, Some i, Some (mnt_ID m), VFSNodeSyncStateIndexed, node_Name node, False)"
    using call i by (auto simp: ret_def face_def sameUintPtr_def split: option.splits)
  then show ?thesis using g by (auto simp: written_def)
qed

lemma mount_body_mounts:
  assumes ok: "tree_ok (db_nodes db)" "mounts_ok (db_mounts db)"
    and mp: "normal mp" "\<forall>v \<in> set (segs_of mp). no_trail v" and i: "src_ID source \<noteq> 0"
    and call: "mount_body s source mp rp db = (Inr res, db')"
  shows "mounted source mp db res db'"
proof -
  let ?ws = "segs_of mp" and ?now = "db_now db" and ?i = "src_ID source"
  let ?mount = "\<lambda>node loc. \<lparr>mnt_ID = 0, mnt_SourceID = ?i, mnt_NodeID = node_ID node, mnt_MountPath = mp,
        mnt_RootLocatorJSON = loc, mnt_Mode = VFSMountModeMirror, mnt_IsEnabled = src_IsEnabled source,
        mnt_SortOrder = src_SortOrder source, mnt_CreatedAt = ?now, mnt_UpdatedAt = ?now\<rparr>"
  let ?point = "\<lambda>node m. node\<lparr>node_MountID := Some (mnt_ID m), node_SyncState := VFSNodeSyncStateIndexed,
        node_UpdatedAt := ?now, node_IndexedAt := (if node_IndexedAt node = None then Some ?now else node_IndexedAt node)\<rparr>"
  obtain u db1 node db2 loc m db3 node' db4 ids
    where 1: "ensureMountPathReusable ?i mp db = (Inr u, db1)"
      and 2: "ensureSourceMountNode source mp ?now db1 = (Inr node, db2)"
      and 3: "mnt_UpsertByMountPath (?mount node loc) db2 = (Inr m, db3)"
      and 4: "(if \<not> sameUintPtr (node_MountID node) (Some (mnt_ID m)) \<or> node_SyncState node \<noteq> VFSNodeSyncStateIndexed
               then let node' = ?point node m in tryN (node_Update node') (\<lambda>_. ret node') else ret node) db3 = (Inr node', db4)"
      and 5: "disableOtherSourceMounts s ?i mp ?now db4 = (Inr ids, db')"
      and res: "msr_Mount res = m"
    using call unfolding mount_body_def
    by (elim tryE tryM_liftE) (auto simp: gets_def ret_def)
  have k1: "db_nodes db1 = db_nodes db" "db_mounts db1 = db_mounts db"
    using tree_nodes.keepsD [OF mount_checks_keep(1) 1] mounts.keepsD [OF mount_checks_keep(3) 1] by simp_all
  have g2: "grown ?ws (db_nodes db) (db_nodes db2)" "written (db_nodes db2) node" "node_Path node = mp"
    "mp \<noteq> ''/'' \<longrightarrow> node_Kind node = VFSNodeKindMount" "node_SourceID node = Some ?i"
    using ensureSourceMountNode_grown [OF _ mp _ 2, of ?ws "db_nodes db"] grown_refl [OF ok(1)] k1(1) by simp_all
  have w2: "mounts_ok (db_mounts db2)" using ok(2) k1(2) mounts.keepsD [OF mounts_ensure 2] by simp
  note w3 = mnt_UpsertByMountPath_writes [OF 3 w2]
  have k3: "db_nodes db3 = db_nodes db2" by (rule tree_nodes.keepsD [OF nodes_mount_repo(5) 3])
  have g3: "grown ?ws (db_nodes db) (db_nodes db3)" "written (db_nodes db3) node" using g2 k3 by simp_all
  have g4: "grown ?ws (db_nodes db) (db_nodes db4) \<and> db_mounts db4 = db_mounts db3 \<and>
    (\<exists>n. live (db_nodes db4) n \<and> skel n = skel node \<and> face n = (node_Kind node, Some ?i, Some (mnt_ID m), VFSNodeSyncStateIndexed, node_Name node, False))"
    by (rule point_node [OF g3 g2(5) 4])
  then obtain n where n: "live (db_nodes db4) n" "skel n = skel node"
    "face n = (node_Kind node, Some ?i, Some (mnt_ID m), VFSNodeSyncStateIndexed, node_Name node, False)" by blast
  have "node_ID n = mnt_NodeID m" "mnt_MountPath m = mp" using w3(3,5) skelD(1) [OF n(2)] by simp_all
  moreover have "mounts_ok (db_mounts db4)" "m \<in> set (db_mounts db4)" using g4 w3(1,2) by simp_all
  ultimately have d: "grown ?ws (db_nodes db) (db_nodes db') \<and> mounts_ok (db_mounts db') \<and> m \<in> set (db_mounts db') \<and>
      live (db_nodes db') n \<and> (\<forall>x \<in> set (db_mounts db'). mnt_SourceID x = ?i \<and> mnt_IsEnabled x \<longrightarrow> x = m)"
    using disableOtherSourceMounts_disables [OF conjunct1 [OF g4] _ _ _ n(1) _ i 5, of m] by blast
  have "node_Path n = mp" using skelD(3) [OF n(2)] g2(3) by simp
  then show ?thesis
    unfolding mounted_def Let_def res
    by (intro conjI exI [of _ n])
      (use d n(3) g2(4) w3(3-6) \<open>node_ID n = mnt_NodeID m\<close> in \<open>auto simp: face_def\<close>)
qed


lemma SyncSourceMount_outcome:
  assumes call: "SyncSourceMount s source db = (r, db')" and tx: "mms_transactor s"
    and ok: "tree_ok (db_nodes db)" "mounts_ok (db_mounts db)"
    and mp: "normalizeMountPath (src_MountPath source) = Inr mp" "\<forall>v \<in> set (segs_of mp). no_trail v"
  shows "case r of Inl e \<Rightarrow> db_nodes db' = db_nodes db \<and> db_mounts db' = db_mounts db
    | Inr res \<Rightarrow> msr_MountPath res = mp \<and> mounted source mp db res db'"
proof -
  have n: "normal mp" using mp(1) normalize_normal by (simp add: normalizeMountPath_def)
  have "same_tables db db' \<and> (\<exists>e. r = Inl e) \<or>
    src_ID source \<noteq> 0 \<and> (\<exists>rp. WithinTx (mount_body s source mp rp) db = (r, db'))"
    using call tx mp(1)
    by (auto simp: SyncSourceMount_def withinMountTx_def lift_def throw_def if_err_def split: if_splits sum.splits)
  then show ?thesis
  proof (elim disjE conjE exE)
    fix e assume "same_tables db db'" "r = Inl e"
    then show ?thesis by (simp add: same_tables_fields)
  next
    fix rp assume i: "src_ID source \<noteq> 0" and "WithinTx (mount_body s source mp rp) db = (r, db')"
    from this(2) show ?thesis
    proof (cases rule: WithinTx_cases)
      case (commit x db0 db1)
      note t0 = same_tables_fields(4,15) [OF commit(2)] and t1 = same_tables_fields(4,15) [OF commit(4)]
      have "mounted source mp db0 x db1" using mount_body_mounts [OF _ _ n mp(2) i commit(3)] ok t0 by simp
      moreover have "msr_MountPath x = mp"
        using commit(3) unfolding mount_body_def by (elim tryE) (auto simp: ret_def)
      ultimately show ?thesis using commit(1) t0 t1 by (simp add: mounted_def Let_def)
    qed (auto simp: same_tables_fields)
  qed
qed

text \<open>C20: Synchronising a source is all or nothing and shows the source exactly once. On an error no
  node and no mount has changed. On success the tree is a tree again that has grown at most by
  nodes on the way to the mount path; a live node at that path, a mount node unless it is the
  root, carries the source and the mount row, which carries the node and is enabled exactly when
  the source is; and this is the only mount of the source that is enabled.\<close>

theorem sync_mounts_source:
  assumes call: "SyncSourceMount s source db = (r, db')" and tx: "mms_transactor s"
    and ok: "tree_ok (db_nodes db)" "mounts_ok (db_mounts db)"
    and mp: "normalizeMountPath (src_MountPath source) = Inr mp" "\<forall>v \<in> set (segs_of mp). no_trail v"
  shows "case r of Inl e \<Rightarrow> db_nodes db' = db_nodes db \<and> db_mounts db' = db_mounts db
    | Inr res \<Rightarrow> msr_MountPath res = mp \<and> mounted source mp db res db'"
  by (rule SyncSourceMount_outcome [OF assms])

subsection \<open>Instances\<close>

definition sample_mounter :: MetadataVFSMountService where
  "sample_mounter = \<lparr>mms_nodeRepo = True, mms_mountRepo = True, mms_sourceRepo = True, mms_transactor = True,
     mms_uni = (\<lambda>s. s), mms_json = mvs_json sample_service\<rparr>"

definition sample_mount_source :: "nat \<Rightarrow> string \<Rightarrow> StorageSource" where
  "sample_mount_source i p = \<lparr>src_ID = i, src_Name = ''disk'', src_DriverType = ''local'', src_Status = ''online'',
     src_IsEnabled = True, src_IsWebDAVExposed = False, src_WebDAVReadOnly = False, src_WebDAVSlug = [],
     src_MountPath = p, src_RootPath = ''/'', src_SortOrder = 0, src_ConfigJSON = ''{}'',
     src_LastCheckedAt = None, src_CreatedAt = 0, src_UpdatedAt = 0\<rparr>"


theorem sync_mounts_source_witness:
  "let db = sample_tree\<lparr>db_seq := (\<lambda>_. 4)\<rparr>; src = sample_mount_source 1 ''/m/n''; (r, db') = SyncSourceMount sample_mounter src db
   in (\<exists>res. r = Inr res \<and> mounted src ''/m/n'' db res db') \<and>
      map (\<lambda>n. (node_Path n, node_Kind n)) (drop 4 (db_nodes db')) = [(''/m'', VFSNodeKindVirtualDir), (''/m/n'', VFSNodeKindMount)]"
proof -
  let ?db = "sample_tree\<lparr>db_seq := (\<lambda>_. 4)\<rparr>" and ?src = "sample_mount_source 1 ''/m/n''"
  let ?c = "SyncSourceMount sample_mounter ?src ?db"
  have h: "mms_transactor sample_mounter" "tree_ok (db_nodes ?db)" "mounts_ok (db_mounts ?db)"
    "normalizeMountPath (src_MountPath ?src) = Inr ''/m/n''" "\<forall>v \<in> set (segs_of ''/m/n''). no_trail v"
    by code_simp+
  have pure: "mms_nodeRepo sample_mounter" "mms_mountRepo sample_mounter" "src_ID ?src \<noteq> 0"
    "normalizeVirtualPath (src_RootPath ?src) = Inr ''/''"
    by code_simp+
  have c: "?c = WithinTx (mount_body sample_mounter ?src ''/m/n'' ''/'') ?db"
    using h(1,4) pure by (simp add: SyncSourceMount_def withinMountTx_def lift_def if_err_def)
  have p: "map (\<lambda>n. (node_Path n, node_Kind n)) (drop 4 (db_nodes (snd ?c))) = [(''/m'', VFSNodeKindVirtualDir), (''/m/n'', VFSNodeKindMount)]"
    unfolding c by code_simp
  have "drop 4 (db_nodes ?db) = []" by code_simp
  then have "db_nodes (snd ?c) \<noteq> db_nodes ?db" using p by auto
  then obtain res where "fst ?c = Inr res" "mounted ?src ''/m/n'' ?db res (snd ?c)"
    using sync_mounts_source [OF prod.collapse [symmetric] h] by (auto split: sum.splits)
  then show ?thesis using p by (auto simp: Let_def split: prod.splits)
qed

text \<open>
  Mounts may be nested: the resolver takes the deepest one. But the loop over the path makes a
  virtual directory of every node above the mount node, also of the node of an enabled outer
  mount, which loses its kind and its source.
\<close>

definition outer_mount_db :: DB where
  "outer_mount_db = emptyDB\<lparr>db_seq := (\<lambda>_. 2), db_nodes :=
     [sample_node 1 None [] ''/'' VFSNodeKindRoot,
      (sample_node 2 (Some 1) ''m'' ''/m'' VFSNodeKindMount)\<lparr>node_SourceID := Some 1, node_MountID := Some 1\<rparr>],
     db_mounts := [\<lparr>mnt_ID = 1, mnt_SourceID = 1, mnt_NodeID = 2, mnt_MountPath = ''/m'', mnt_RootLocatorJSON = ''{}'',
       mnt_Mode = VFSMountModeMirror, mnt_IsEnabled = True, mnt_SortOrder = 0, mnt_CreatedAt = 0, mnt_UpdatedAt = 0\<rparr>]\<rparr>"

lemma nested_mount_demotes_outer:
  "let db' = snd (SyncSourceMount sample_mounter (sample_mount_source 2 ''/m/n'') outer_mount_db)
   in map (\<lambda>n. (node_Path n, node_Kind n, node_SourceID n)) (drop 1 (db_nodes db')) =
        [(''/m'', VFSNodeKindVirtualDir, None), (''/m/n'', VFSNodeKindMount, Some 2)] \<and>
      map (\<lambda>m. (mnt_MountPath m, mnt_IsEnabled m)) (db_mounts db') = [(''/m'', True), (''/m/n'', True)]"
proof -
  let ?src = "sample_mount_source 2 ''/m/n''"
  have "mms_nodeRepo sample_mounter" "mms_mountRepo sample_mounter" "src_ID ?src \<noteq> 0" "mms_transactor sample_mounter"
    "normalizeVirtualPath (src_RootPath ?src) = Inr ''/''" "normalizeMountPath (src_MountPath ?src) = Inr ''/m/n''"
    by code_simp+
  then have c: "SyncSourceMount sample_mounter ?src outer_mount_db = WithinTx (mount_body sample_mounter ?src ''/m/n'' ''/'') outer_mount_db"
    by (simp add: SyncSourceMount_def withinMountTx_def lift_def if_err_def)
  show ?thesis unfolding c by code_simp
qed

end
