(* ===== verification/Metadata_Sync.thy ===== *)
theory Metadata_Sync
  imports Metadata_Mounts Local_Paths Host_Files "HOL-Library.Multiset"
begin

text \<open>
  Lazy indexing: \<^verbatim>\<open>metadata_vfs_sync_service.go\<close>. The entries a driver lists for a directory
  become children of its metadata node; children the driver no longer lists are marked as
  missing, and children that belong to the control plane (mounts and virtual directories) are
  left alone. Drivers are parameters.
\<close>

section \<open>Entries of a listing\<close>

record RemoteListRequest =
  rl_ParentPath :: string
  rl_ParentLocatorJSON :: string
  rl_ParentProviderItemID :: string
  rl_MountRootLocatorJSON :: string

record RemoteEntry =
  re_Name :: string
  re_Path :: string
  re_IsDir :: bool
  re_Size :: int
  re_ETag :: string
  re_Checksum :: string
  re_MimeType :: string
  re_ModifiedAt :: gotime
  re_ProviderItemID :: string
  re_ProviderParentID :: string
  re_LocatorType :: string
  re_LocatorJSON :: string

type_synonym RemoteIndexer = "StorageSource \<Rightarrow> RemoteListRequest \<Rightarrow> RemoteEntry list result"

text \<open>
  \<open>sys_order\<close> is the order in which a \<^verbatim>\<open>range\<close> over a map visits its keys; Go leaves it open.
\<close>

record MetadataVFSSyncService =
  sys_nodeRepo :: bool
  sys_objectRepo :: bool
  sys_sourceRepo :: bool
  sys_mountRepo :: bool
  sys_indexers :: "string \<Rightarrow> RemoteIndexer option"
  sys_transactor :: bool
  sys_env :: GoEnv
  sys_json :: JSONCodec
  sys_order :: "string list \<Rightarrow> string list"

record MetadataVFSRefreshResult =
  rr_Path :: string
  rr_NodeID :: nat
  rr_Seen :: nat
  rr_Indexed :: nat
  rr_Updated :: nat
  rr_Missing :: nat
  rr_Conflicts :: nat
  rr_Errors :: nat
  rr_SyncState :: string
  rr_Error :: "app_error option"

definition remoteEntryName :: "RemoteEntry \<Rightarrow> string" where
  "remoteEntryName entry =
     (if re_Name entry \<noteq> [] then re_Name entry
      else if re_Path entry = [] \<or> re_Path entry = ''/'' then []
      else path_Base (re_Path entry))"

definition normalizeRemoteEntryPath :: "string \<Rightarrow> RemoteEntry \<Rightarrow> string \<Rightarrow> string" where
  "normalizeRemoteEntryPath parentPath entry name =
     (let fallback = (case normalizeVirtualPath parentPath of
                        Inr normalized \<Rightarrow> joinVirtualPath normalized name
                      | Inl _ \<Rightarrow> ''/'' @ TrimPrefix name ''/'')
      in if re_Path entry \<noteq> []
         then (case normalizeVirtualPath (re_Path entry) of Inr normalized \<Rightarrow> normalized | Inl _ \<Rightarrow> fallback)
         else fallback)"

definition metadataVFSRemoteEntryKind :: "RemoteEntry \<Rightarrow> string" where
  "metadataVFSRemoteEntryKind entry = (if re_IsDir entry then VFSNodeKindDir else VFSNodeKindFile)"

definition remoteEntrySize :: "RemoteEntry \<Rightarrow> int" where
  "remoteEntrySize entry = (if re_IsDir entry then 0 else if re_Size entry < 0 then 0 else re_Size entry)"

definition remoteEntryMimeType :: "GoEnv \<Rightarrow> RemoteEntry \<Rightarrow> string" where
  "remoteEntryMimeType env entry =
     (if re_IsDir entry then ''inode/directory''
      else if re_MimeType entry \<noteq> [] then re_MimeType entry
      else
        let extension = ToLower (env_uni env) (filepath_Ext (remoteEntryName entry))
        in if extension = [] then ''application/octet-stream''
           else
             let mimeType = env_mimeByExt env extension
             in if mimeType = [] then ''application/octet-stream'' else mimeType)"

definition stringPtrOrNil :: "string \<Rightarrow> string option" where
  "stringPtrOrNil v = (if v = [] then None else Some v)"

definition metadataVFSRemoteEntryLocator ::
  "JSONCodec \<Rightarrow> StorageSource \<Rightarrow> RemoteEntry \<Rightarrow> string \<Rightarrow> (string \<times> string) result" where
  "metadataVFSRemoteEntryLocator json source entry entryPath =
     (let locatorType = TrimSpace (re_LocatorType entry); locatorJSON = TrimSpace (re_LocatorJSON entry)
      in if locatorType \<noteq> [] \<and> locatorJSON \<noteq> [] then Inr (locatorType, locatorJSON)
         else
           let locatorType' =
                 (if locatorType \<noteq> [] then locatorType
                  else if re_ProviderItemID entry \<noteq> [] then ''provider_file_id''
                  else if src_DriverType source = ''local'' then ''local_path''
                  else ''provider_path'');
               payload =
                 (if re_ProviderItemID entry \<noteq> [] then [(''file_id'', PayloadString (re_ProviderItemID entry))] else []) @
                 (if re_ProviderParentID entry \<noteq> [] then [(''parent_id'', PayloadString (re_ProviderParentID entry))] else []) @
                 (if entryPath \<noteq> [] then [(''path'', PayloadString entryPath)] else [])
           in tryp (json_Marshal json payload) (\<lambda>raw. Inr (locatorType', raw)))"

definition providerParentIDForEntry :: "VFSNode \<Rightarrow> RemoteEntry \<Rightarrow> string option" where
  "providerParentIDForEntry parent entry =
     (if re_ProviderParentID entry \<noteq> [] then stringPtrOrNil (re_ProviderParentID entry)
      else node_ProviderItemID parent)"

definition metadataVFSRemoteIdentityConflicts :: "VFSNode option \<Rightarrow> RemoteEntry \<Rightarrow> bool" where
  "metadataVFSRemoteIdentityConflicts existing entry =
     (case existing of
        None \<Rightarrow> False
      | Some n \<Rightarrow>
          (case node_ProviderItemID n of
             None \<Rightarrow> False
           | Some i \<Rightarrow> re_ProviderItemID entry \<noteq> [] \<and> i \<noteq> re_ProviderItemID entry))"

definition metadataVFSChildIsControlNode :: "VFSNode \<Rightarrow> bool" where
  "metadataVFSChildIsControlNode node \<longleftrightarrow>
     node_Kind node = VFSNodeKindMount \<or> node_Kind node = VFSNodeKindVirtualDir"

definition sameStringPtr :: "string option \<Rightarrow> string option \<Rightarrow> bool" where
  "sameStringPtr left right =
     (case (left, right) of (Some a, Some b) \<Rightarrow> a = b | (None, None) \<Rightarrow> True | _ \<Rightarrow> False)"

definition metadataVFSNodeChangedByRemote :: "VFSNode \<Rightarrow> VFSNode \<Rightarrow> bool" where
  "metadataVFSNodeChangedByRemote existing new \<longleftrightarrow>
     node_Kind existing \<noteq> node_Kind new \<or> \<not> sameUintPtr (node_ObjectID existing) (node_ObjectID new) \<or>
     \<not> sameUintPtr (node_SourceID existing) (node_SourceID new) \<or>
     \<not> sameStringPtr (node_ProviderItemID existing) (node_ProviderItemID new) \<or>
     \<not> sameStringPtr (node_ProviderParentID existing) (node_ProviderParentID new) \<or>
     node_Size existing \<noteq> node_Size new \<or> node_MimeType existing \<noteq> node_MimeType new \<or>
     node_ETag existing \<noteq> node_ETag new \<or> node_Checksum existing \<noteq> node_Checksum new \<or>
     node_SyncState existing \<noteq> node_SyncState new \<or> node_IsDeleted existing \<noteq> node_IsDeleted new"

text \<open>The text of an error; \<^verbatim>\<open>%v\<close> keeps no more of it.\<close>

fun error_text :: "app_error \<Rightarrow> string" where
  "error_text (Sentinel t) = t"
| "error_text (StdErr t) = t"
| "error_text (ErrOther t) = t"
| "error_text (ErrJoin a b) = error_text a @ '': '' @ error_text b"

definition normalizeMetadataVFSSyncProviderError :: "app_error \<Rightarrow> app_error" where
  "normalizeMetadataVFSSyncProviderError err =
     (if \<exists>t \<in> set [ErrSourceDriverUnsupported, ErrSourceOperationUnsupported, ErrCloudAuthFailed, ErrCloudTokenInvalid,
            ErrCloudCaptchaRequired, ErrCloudCaptchaExpired, ErrCloudRateLimited, ErrCloudRegionBlocked,
            ErrCloudProviderUnavailable]. errors_Is err t then err
      else if errors_Is err ErrNotExist then ErrFileNotFound
      else if errors_Is err ErrInvalid then ErrPathInvalid
      else ErrJoin ErrCloudProviderUnavailable (ErrOther (error_text err)))"

section \<open>Indexers\<close>

text \<open>The indexer of a file driver; its \<^verbatim>\<open>List\<close> is a parameter.\<close>

definition remote_entry :: "StorageEntry \<Rightarrow> RemoteEntry" where
  "remote_entry entry =
     \<lparr>re_Name = se_Name entry, re_Path = se_Path entry, re_IsDir = se_IsDir entry, re_Size = se_Size entry,
      re_ETag = se_ETag entry, re_Checksum = se_Checksum entry, re_MimeType = se_MimeType entry,
      re_ModifiedAt = se_ModifiedAt entry, re_ProviderItemID = se_ProviderItemID entry,
      re_ProviderParentID = se_ProviderParentID entry, re_LocatorType = se_LocatorType entry,
      re_LocatorJSON = se_LocatorJSON entry\<rparr>"

definition fileDriverRemoteIndexer ::
  "(StorageSource \<Rightarrow> string \<Rightarrow> StorageEntry list result) option \<Rightarrow> RemoteIndexer" where
  "fileDriverRemoteIndexer driver source req =
     (case driver of
        None \<Rightarrow> Inl ErrSourceDriverUnsupported
      | Some List \<Rightarrow> tryp (List source (rl_ParentPath req)) (\<lambda>entries. Inr (map remote_entry entries)))"

text \<open>\<^verbatim>\<open>strings.Trim(s, "/")\<close>\<close>

definition Trim_slashes :: "string \<Rightarrow> string" where
  "Trim_slashes s = rev (dropWhile (\<lambda>c. c = CHR ''/'') (rev (dropWhile (\<lambda>c. c = CHR ''/'') s)))"

definition isHiddenVirtualPath :: "string \<Rightarrow> bool" where
  "isHiddenVirtualPath virtualPath =
     (let trimmed = Trim_slashes (TrimSpace virtualPath)
      in if trimmed = [] then False
         else \<exists>segment \<in> set (Split trimmed CHR ''/''). HasPrefix segment ''.trash'' \<or> HasPrefix segment ''.system'')"

text \<open>
  The indexer of local sources. \<open>ReadDir\<close> lists the names of a directory with the result of
  reading their attributes; \<open>unmarshal\<close> reads the source configuration.
\<close>

fun local_entries :: "GoEnv \<Rightarrow> string \<Rightarrow> (string \<times> bool \<times> fs_node result) list \<Rightarrow> RemoteEntry list result" where
  "local_entries env parentPath [] = Inr []"
| "local_entries env parentPath ((name, isDir, attrs) # entries) =
     (let entryPath = joinVirtualPath parentPath name
      in if isHiddenVirtualPath entryPath then local_entries env parentPath entries
         else
           tryp attrs (\<lambda>info.
             let item = \<lparr>re_Name = name, re_Path = entryPath, re_IsDir = isDir, re_Size = 0, re_ETag = [],
                   re_Checksum = [], re_MimeType = [], re_ModifiedAt = file_ModTime info, re_ProviderItemID = [],
                   re_ProviderParentID = [], re_LocatorType = [], re_LocatorJSON = []\<rparr>;
                 item' = (if isDir then item
                          else let sized = item\<lparr>re_Size := file_Size info, re_ETag := buildEtag env info\<rparr>
                               in sized\<lparr>re_MimeType := remoteEntryMimeType env sized\<rparr>)
             in tryp (local_entries env parentPath entries) (\<lambda>rest. Inr (item' # rest))))"

definition localFilesystemRemoteIndexer ::
  "GoEnv \<Rightarrow> (string \<Rightarrow> string result) \<Rightarrow> (string \<Rightarrow> (string \<times> bool \<times> fs_node result) list result) \<Rightarrow> RemoteIndexer" where
  "localFilesystemRemoteIndexer env unmarshal ReadDir source req =
     tryp (resolvePhysicalPath unmarshal source (rl_ParentPath req)) (\<lambda>(_, physicalPath).
     tryp (ReadDir physicalPath) (\<lambda>entries.
       local_entries env (rl_ParentPath req) entries))"

section \<open>Refresh\<close>

text \<open>
  The code fills in the result while it works, also when it then fails; so the state of the
  handlers below is the database together with the result.
\<close>

type_synonym refresh_state = "DB \<times> MetadataVFSRefreshResult"

definition inDB :: "(DB, 'a) handler \<Rightarrow> (refresh_state, 'a) handler" where
  "inDB m = (\<lambda>(db, res). case m db of (r, db') \<Rightarrow> (r, (db', res)))"

definition count_up :: "(MetadataVFSRefreshResult \<Rightarrow> MetadataVFSRefreshResult) \<Rightarrow> (refresh_state, unit) handler" where
  "count_up f = (\<lambda>(db, res). (Inr (), (db, f res)))"

text \<open>\<^verbatim>\<open>result.Errors++; result.Error = err.Error(); return err\<close>\<close>

definition failed :: "app_error \<Rightarrow> (refresh_state, 'a) handler" where
  "failed err = (\<lambda>(db, res). (Inl err, (db, res\<lparr>rr_Errors := rr_Errors res + 1, rr_Error := Some err\<rparr>)))"

text \<open>A rollback does not undo what was noted in the result.\<close>

definition withinSyncTx :: "MetadataVFSSyncService \<Rightarrow> (refresh_state, 'a) handler \<Rightarrow> (refresh_state, 'a) handler" where
  "withinSyncTx s fn = (\<lambda>(db, res).
     if \<not> sys_transactor s then fn (db, res)
     else
       case WithinTx (\<lambda>d. case fn (d, res) of (r, (d', _)) \<Rightarrow> (r, d')) db of
         (r, db') \<Rightarrow>
           (r, (db', case stmt (ret ()) db of (Inl _, _) \<Rightarrow> res | (Inr _, db0) \<Rightarrow> snd (snd (fn (db0, res))))))"

abbreviation "StorageObjectStatusMissing \<equiv> ''missing''"

definition markObjectMissing :: "nat \<Rightarrow> gotime \<Rightarrow> (DB, unit) handler" where
  "markObjectMissing objectID now =
     if_err (obj_FindByID objectID)
       (\<lambda>err. if errors_Is err ErrNotFound then ret () else throw (normalizeMetadataVFSError err))
       (\<lambda>object. tryN (obj_Update (object\<lparr>obj_Status := StorageObjectStatusMissing, obj_UpdatedAt := now\<rparr>)) (\<lambda>_. ret ()))"

definition markChildConflict :: "VFSNode \<Rightarrow> gotime \<Rightarrow> (DB, unit) handler" where
  "markChildConflict child now =
     tryN (node_Update (child\<lparr>node_SyncState := VFSNodeSyncStateConflict, node_UpdatedAt := now\<rparr>)) (\<lambda>_. ret ())"

definition upsertRemoteObject ::
  "MetadataVFSSyncService \<Rightarrow> StorageSource \<Rightarrow> RemoteEntry \<Rightarrow> string \<Rightarrow> string \<Rightarrow> gotime \<Rightarrow> (DB, StorageObject) handler" where
  "upsertRemoteObject s source entry entryPath mimeType now =
     tryM (lift (metadataVFSRemoteEntryLocator (sys_json s) source entry entryPath)) (\<lambda>(locatorType, locatorJSON).
       tryN (obj_UpsertByLocator
         \<lparr>obj_ID = 0, obj_SourceID = src_ID source, obj_DriverType = src_DriverType source, obj_LocatorType = locatorType,
          obj_LocatorJSON = locatorJSON, obj_Size = remoteEntrySize entry, obj_ETag = re_ETag entry,
          obj_Checksum = re_Checksum entry, obj_MimeType = mimeType, obj_Status = StorageObjectStatusAvailable,
          obj_CreatedAt = now, obj_UpdatedAt = now\<rparr>) ret)"

text \<open>The node of an entry, as \<^verbatim>\<open>upsertRemoteChild\<close> and \<^verbatim>\<open>upsertConflictChild\<close> build it.\<close>

definition remote_child ::
  "GoEnv \<Rightarrow> VFSNode \<Rightarrow> RemoteEntry \<Rightarrow> nat option \<Rightarrow> string \<Rightarrow> gotime \<Rightarrow> VFSNode" where
  "remote_child env target entry objectID state now =
     \<lparr>node_ID = 0, node_ParentID = Some (node_ID target), node_Name = remoteEntryName entry,
      node_Path = joinVirtualPath (node_Path target) (remoteEntryName entry),
      node_Kind = metadataVFSRemoteEntryKind entry, node_MountID = cloneUintPtr (node_MountID target),
      node_ObjectID = objectID, node_SourceID = cloneUintPtr (node_SourceID target),
      node_ProviderItemID = stringPtrOrNil (re_ProviderItemID entry),
      node_ProviderParentID = providerParentIDForEntry target entry, node_Size = remoteEntrySize entry,
      node_MimeType = remoteEntryMimeType env entry, node_ETag = re_ETag entry, node_Checksum = re_Checksum entry,
      node_SyncState = state, node_IsDeleted = False, node_CreatedBy = None, node_UpdatedBy = None,
      node_CreatedAt = now, node_UpdatedAt = now, node_IndexedAt = Some now, node_LastSeenAt = Some now\<rparr>"

definition keep_identity :: "VFSNode option \<Rightarrow> VFSNode \<Rightarrow> VFSNode" where
  "keep_identity existing node =
     (case existing of
        None \<Rightarrow> node
      | Some e \<Rightarrow> node\<lparr>node_ID := node_ID e, node_CreatedAt := node_CreatedAt e, node_CreatedBy := cloneUintPtr (node_CreatedBy e)\<rparr>)"

definition upsertRemoteChild ::
  "MetadataVFSSyncService \<Rightarrow> VFSNode \<Rightarrow> StorageSource \<Rightarrow> RemoteListRequest \<Rightarrow> RemoteEntry \<Rightarrow> VFSNode option \<Rightarrow> gotime \<Rightarrow>
   (DB, VFSNode \<times> bool \<times> bool) handler" where
  "upsertRemoteChild s target source req entry existing now =
     (let entryPath = normalizeRemoteEntryPath (rl_ParentPath req) entry (remoteEntryName entry)
      in tryM (if re_IsDir entry then ret None
               else tryM (upsertRemoteObject s source entry entryPath (remoteEntryMimeType (sys_env s) entry) now)
                      (\<lambda>object. ret (Some (obj_ID object)))) (\<lambda>objectID.
         let node = remote_child (sys_env s) target entry objectID VFSNodeSyncStateIndexed now;
             created = (case existing of None \<Rightarrow> True | Some _ \<Rightarrow> False);
             changed = (case existing of None \<Rightarrow> True | Some e \<Rightarrow> metadataVFSNodeChangedByRemote e node)
         in tryN (node_UpsertByPath (keep_identity existing node)) (\<lambda>stored. ret (stored, created, changed))))"

definition upsertConflictChild :: "MetadataVFSSyncService \<Rightarrow> VFSNode \<Rightarrow> RemoteEntry \<Rightarrow> gotime \<Rightarrow> (DB, unit) handler" where
  "upsertConflictChild s target entry now =
     (case validateFileName (remoteEntryName entry) of
        Inl _ \<Rightarrow> ret ()
      | Inr _ \<Rightarrow>
          let node = remote_child (sys_env s) target entry None VFSNodeSyncStateConflict now
          in tryM (if_err (node_FindByPath (joinVirtualPath (node_Path target) (remoteEntryName entry)))
                     (\<lambda>err. if \<not> errors_Is err ErrNotFound then throw (normalizeMetadataVFSError err) else ret None)
                     (\<lambda>existing. ret (Some existing))) (\<lambda>existing.
             tryN (node_UpsertByPath (keep_identity existing node)) (\<lambda>_. ret ())))"

text \<open>The names that occur more than once become children in conflict.\<close>

fun conflict_one :: "MetadataVFSSyncService \<Rightarrow> VFSNode \<Rightarrow> gotime \<Rightarrow> RemoteEntry option \<Rightarrow> (refresh_state, unit) handler" where
  "conflict_one s target now None = ret ()"
| "conflict_one s target now (Some entry) =
     if_err (inDB (upsertConflictChild s target entry now)) failed (\<lambda>_.
       count_up (\<lambda>res. res\<lparr>rr_Conflicts := rr_Conflicts res + 1\<rparr>))"

fun conflict_loop_names ::
  "MetadataVFSSyncService \<Rightarrow> VFSNode \<Rightarrow> RemoteEntry list \<Rightarrow> gotime \<Rightarrow> string list \<Rightarrow> (refresh_state, unit) handler" where
  "conflict_loop_names s target valid now [] = ret ()"
| "conflict_loop_names s target valid now (name # names) =
     (if count_list (map remoteEntryName valid) name \<le> 1 then conflict_loop_names s target valid now names
      else
        tryM (conflict_one s target now (find (\<lambda>entry. remoteEntryName entry = name) valid)) (\<lambda>_.
          conflict_loop_names s target valid now names))"

text \<open>One new name of the listing; returns the children by name.\<close>

definition sync_entry ::
  "MetadataVFSSyncService \<Rightarrow> VFSNode \<Rightarrow> StorageSource \<Rightarrow> RemoteListRequest \<Rightarrow> gotime \<Rightarrow> (string \<Rightarrow> VFSNode option) \<Rightarrow>
   RemoteEntry \<Rightarrow> (refresh_state, string \<Rightarrow> VFSNode option) handler" where
  "sync_entry s target source req now byName entry =
     (let name = remoteEntryName entry; existing = byName name
      in tryM (count_up (\<lambda>res. res\<lparr>rr_Seen := rr_Seen res + 1\<rparr>)) (\<lambda>_.
           if (case existing of None \<Rightarrow> False | Some e \<Rightarrow> metadataVFSChildIsControlNode e) then ret byName
           else if metadataVFSRemoteIdentityConflicts existing entry then
             if_err (inDB (markChildConflict (the existing) now)) failed (\<lambda>_.
             tryM (count_up (\<lambda>res. res\<lparr>rr_Conflicts := rr_Conflicts res + 1\<rparr>)) (\<lambda>_. ret byName))
           else
             if_err (inDB (upsertRemoteChild s target source req entry existing now))
               (\<lambda>err.
                  if errors_Is err ErrNameConflict then
                    tryM (count_up (\<lambda>res. res\<lparr>rr_Conflicts := rr_Conflicts res + 1\<rparr>)) (\<lambda>_.
                      case existing of
                        None \<Rightarrow> ret byName
                      | Some e \<Rightarrow> if_err (inDB (markChildConflict e now)) failed (\<lambda>_. ret byName))
                  else failed err)
               (\<lambda>(child, created, changed).
                  tryM (count_up (\<lambda>res. if created then res\<lparr>rr_Indexed := rr_Indexed res + 1\<rparr>
                                        else if changed then res\<lparr>rr_Updated := rr_Updated res + 1\<rparr> else res)) (\<lambda>_.
                    ret (byName(name := Some child))))))"

text \<open>The loop over the entries; \<open>seen\<close> are the names already dealt with. Returns the seen names.\<close>

fun entry_loop ::
  "MetadataVFSSyncService \<Rightarrow> VFSNode \<Rightarrow> StorageSource \<Rightarrow> RemoteListRequest \<Rightarrow> gotime \<Rightarrow> (string \<Rightarrow> VFSNode option) \<Rightarrow>
   string list \<Rightarrow> RemoteEntry list \<Rightarrow> (refresh_state, string list) handler" where
  "entry_loop s target source req now byName seen [] = ret seen"
| "entry_loop s target source req now byName seen (entry # entries) =
     (let name = remoteEntryName entry
      in if name \<in> set seen \<or> (case validateFileName name of Inl _ \<Rightarrow> True | Inr _ \<Rightarrow> False)
         then entry_loop s target source req now byName seen entries
         else
           tryM (sync_entry s target source req now byName entry) (\<lambda>byName'.
             entry_loop s target source req now byName' (name # seen) entries))"

fun missing_loop :: "gotime \<Rightarrow> string list \<Rightarrow> VFSNode list \<Rightarrow> (refresh_state, unit) handler" where
  "missing_loop now seen [] = ret ()"
| "missing_loop now seen (child # children) =
     (if node_Name child \<in> set seen \<or> metadataVFSChildIsControlNode child then missing_loop now seen children
      else
        if_err (inDB (tryN (node_Update (child\<lparr>node_SyncState := VFSNodeSyncStateMissing, node_UpdatedAt := now\<rparr>)) ret)) failed (\<lambda>_.
        if_err (inDB (case node_ObjectID child of None \<Rightarrow> ret () | Some i \<Rightarrow> markObjectMissing i now)) failed (\<lambda>_.
        tryM (count_up (\<lambda>res. res\<lparr>rr_Missing := rr_Missing res + 1\<rparr>)) (\<lambda>_.
          missing_loop now seen children))))"

text \<open>The end of the transaction: the state of the directory itself.\<close>

definition settle_target :: "VFSNode \<Rightarrow> gotime \<Rightarrow> (refresh_state, unit) handler" where
  "settle_target target now =
     tryM (gets (\<lambda>(_, res). if rr_Conflicts res > 0 then VFSNodeSyncStateConflict else VFSNodeSyncStateIndexed)) (\<lambda>state.
     if_err (inDB (tryN (node_Update (target\<lparr>node_SyncState := state, node_UpdatedAt := now, node_IndexedAt := Some now,
         node_LastSeenAt := Some now\<rparr>)) ret)) failed (\<lambda>_.
       count_up (\<lambda>res. res\<lparr>rr_SyncState := state\<rparr>)))"

definition valid_entries :: "RemoteEntry list \<Rightarrow> RemoteEntry list" where
  "valid_entries entries =
     filter (\<lambda>entry. case validateFileName (remoteEntryName entry) of Inl _ \<Rightarrow> False | Inr _ \<Rightarrow> True) entries"

definition apply_body ::
  "MetadataVFSSyncService \<Rightarrow> VFSNode \<Rightarrow> StorageSource \<Rightarrow> RemoteListRequest \<Rightarrow> RemoteEntry list \<Rightarrow> gotime \<Rightarrow>
   (refresh_state, unit) handler" where
  "apply_body s target source req entries now =
     if_err (inDB (node_ListChildren (Some (node_ID target)) noFilter)) (\<lambda>e. failed (normalizeMetadataVFSError e)) (\<lambda>children.
       let byName = map_of (rev (map (\<lambda>c. (node_Name c, c)) children));
           valid = valid_entries entries;
           names = remdups (map remoteEntryName valid);
           dups = filter (\<lambda>name. count_list (map remoteEntryName valid) name > 1) names
       in tryM (count_up (\<lambda>res. res\<lparr>rr_Conflicts := rr_Conflicts res + (length entries - length valid)\<rparr>)) (\<lambda>_.
          tryM (conflict_loop_names s target valid now (sys_order s names)) (\<lambda>_.
          tryM (entry_loop s target source req now byName dups entries) (\<lambda>seen.
          tryM (missing_loop now seen children) (\<lambda>_.
            settle_target target now)))))"

definition applyRemoteEntries ::
  "MetadataVFSSyncService \<Rightarrow> VFSNode \<Rightarrow> StorageSource \<Rightarrow> RemoteListRequest \<Rightarrow> RemoteEntry list \<Rightarrow> (refresh_state, unit) handler" where
  "applyRemoteEntries s target source req entries =
     tryM (gets (\<lambda>(db, _). db_now db)) (\<lambda>now. withinSyncTx s (apply_body s target source req entries now))"

definition marked_target :: "VFSNode \<Rightarrow> string \<Rightarrow> gotime \<Rightarrow> VFSNode" where
  "marked_target target state now =
     (let node = target\<lparr>node_SyncState := state, node_UpdatedAt := now\<rparr>
      in if state = VFSNodeSyncStateIndexed \<or> state = VFSNodeSyncStateConflict
         then node\<lparr>node_IndexedAt := Some now, node_LastSeenAt := Some now\<rparr> else node)"

definition markTargetSyncState :: "MetadataVFSSyncService \<Rightarrow> VFSNode \<Rightarrow> string \<Rightarrow> (refresh_state, unit) handler" where
  "markTargetSyncState s target state =
     withinSyncTx s
       (tryM (gets (\<lambda>(db, _). db_now db)) (\<lambda>now. inDB (tryN (node_Update (marked_target target state now)) ret)))"

definition findMountForSyncTarget :: "MetadataVFSSyncService \<Rightarrow> VFSNode \<Rightarrow> (DB, VFSMount) handler" where
  "findMountForSyncTarget s target =
     (if \<not> sys_mountRepo s then throw ErrNotFound
      else case node_MountID target of
        Some i \<Rightarrow> mnt_FindByID i
      | None \<Rightarrow> if node_Kind target = VFSNodeKindMount then mnt_FindByNodeID (node_ID target) else throw ErrNotFound)"

definition buildRemoteListRequest ::
  "MetadataVFSSyncService \<Rightarrow> VFSNode \<Rightarrow> StorageSource \<Rightarrow> (DB, RemoteListRequest) handler" where
  "buildRemoteListRequest s target source =
     tryM (if sys_mountRepo s
           then if_err (findMountForSyncTarget s target)
                  (\<lambda>err. if \<not> errors_Is err ErrNotFound then throw (normalizeMetadataVFSError err)
                         else ret (if node_Kind target = VFSNodeKindMount then node_Path target else [], []))
                  (\<lambda>mount. ret (mnt_MountPath mount, mnt_RootLocatorJSON mount))
           else ret (if node_Kind target = VFSNodeKindMount then node_Path target else [], [])) (\<lambda>(found, rootLocatorJSON).
       let mountPath = (if found = [] then src_MountPath source else found)
       in tryM (if mountPath \<noteq> [] then
                  tryM (lift (normalizeVirtualPath mountPath)) (\<lambda>normalizedMountPath.
                    if \<not> isSubPath normalizedMountPath (node_Path target) then throw ErrPathInvalid
                    else
                      let trimmed = TrimPrefix (node_Path target) normalizedMountPath;
                          parent = (if trimmed = [] then ''/'' else trimmed)
                      in ret (if \<not> HasPrefix parent ''/'' then ''/'' @ parent else parent))
                else if node_Kind target \<noteq> VFSNodeKindMount then lift (normalizeVirtualPath (node_Path target))
                else ret ''/'') (\<lambda>parentPath.
            let payload =
                  (case node_ProviderItemID target of None \<Rightarrow> [] | Some i \<Rightarrow> [(''provider_item_id'', PayloadString i)]) @
                  (case node_ProviderParentID target of None \<Rightarrow> [] | Some i \<Rightarrow> [(''provider_parent_id'', PayloadString i)])
            in ret \<lparr>rl_ParentPath = parentPath,
                    rl_ParentLocatorJSON = (if payload = [] then []
                      else case json_Marshal (sys_json s) payload of Inl _ \<Rightarrow> [] | Inr raw \<Rightarrow> raw),
                    rl_ParentProviderItemID = (case node_ProviderItemID target of None \<Rightarrow> [] | Some i \<Rightarrow> i),
                    rl_MountRootLocatorJSON = rootLocatorJSON\<rparr>))"

text \<open>
  \<^verbatim>\<open>RefreshNode\<close> answers with the result and the error, if there is one. \<open>stopped\<close> is the pattern
  \<^verbatim>\<open>result.Errors = 1; result.Error = err.Error(); return result, err\<close>.
\<close>

definition stopped :: "app_error \<Rightarrow> refresh_state \<Rightarrow> (MetadataVFSRefreshResult \<times> app_error option) \<times> DB" where
  "stopped err = (\<lambda>(db, res). ((res\<lparr>rr_Errors := 1, rr_Error := Some err\<rparr>, Some err), db))"

definition stopped_marking ::
  "MetadataVFSSyncService \<Rightarrow> VFSNode \<Rightarrow> app_error \<Rightarrow> refresh_state \<Rightarrow> (MetadataVFSRefreshResult \<times> app_error option) \<times> DB" where
  "stopped_marking s target err st =
     (case markTargetSyncState s target VFSNodeSyncStateError st of
        (Inl markErr, st') \<Rightarrow> stopped markErr st'
      | (Inr _, (db, res)) \<Rightarrow> stopped err (db, res\<lparr>rr_SyncState := VFSNodeSyncStateError\<rparr>))"

definition RefreshNode ::
  "MetadataVFSSyncService \<Rightarrow> VFSNode \<Rightarrow> DB \<Rightarrow> (MetadataVFSRefreshResult \<times> app_error option) \<times> DB" where
  "RefreshNode s target db =
     (let res = \<lparr>rr_Path = node_Path target, rr_NodeID = node_ID target, rr_Seen = 0, rr_Indexed = 0, rr_Updated = 0,
            rr_Missing = 0, rr_Conflicts = 0, rr_Errors = 0, rr_SyncState = node_SyncState target, rr_Error = None\<rparr>
      in if \<not> sys_nodeRepo s \<or> \<not> sys_objectRepo s \<or> \<not> sys_sourceRepo s then stopped ErrSourceDriverUnsupported (db, res)
         else if node_IsDeleted target then stopped ErrFileNotFound (db, res)
         else if \<not> metadataVFSNodeIsDirectory target then stopped ErrPathInvalid (db, res)
         else case node_SourceID target of
           None \<Rightarrow> stopped ErrNoBackingStorage (db, res)
         | Some sourceID \<Rightarrow>
             (case src_FindByID sourceID db of
                (Inl err, db1) \<Rightarrow> stopped (normalizeMetadataVFSError err) (db1, res)
              | (Inr source, db1) \<Rightarrow>
                  (case sys_indexers s (src_DriverType source) of
                     None \<Rightarrow> stopped_marking s target ErrSourceDriverUnsupported (db1, res)
                   | Some indexer \<Rightarrow>
                       (case buildRemoteListRequest s target source db1 of
                          (Inl err, db2) \<Rightarrow> stopped err (db2, res)
                        | (Inr req, db2) \<Rightarrow>
                            (case indexer source req of
                               Inl err \<Rightarrow> stopped_marking s target (normalizeMetadataVFSSyncProviderError err) (db2, res)
                             | Inr entries \<Rightarrow>
                                 (case applyRemoteEntries s target source req entries (db2, res) of
                                    (Inl err, (db3, res3)) \<Rightarrow> ((res3, Some err), db3)
                                  | (Inr _, (db3, res3)) \<Rightarrow>
                                      if rr_Conflicts res3 > 0
                                      then ((res3\<lparr>rr_Error := Some ErrVFSSyncConflict\<rparr>, Some ErrVFSSyncConflict), db3)
                                      else ((res3, None), db3)))))))"

definition RefreshPath ::
  "MetadataVFSSyncService \<Rightarrow> string \<Rightarrow> DB \<Rightarrow> (MetadataVFSRefreshResult option \<times> app_error option) \<times> DB" where
  "RefreshPath s targetPath db =
     (if \<not> sys_nodeRepo s then ((None, Some ErrSourceDriverUnsupported), db)
      else case normalizeVirtualPath targetPath of
        Inl err \<Rightarrow> ((None, Some err), db)
      | Inr normalizedPath \<Rightarrow>
          (case node_FindByPath normalizedPath db of
             (Inl err, db1) \<Rightarrow> ((None, Some (normalizeMetadataVFSError err)), db1)
           | (Inr node, db1) \<Rightarrow> (case RefreshNode s node db1 of ((res, err), db2) \<Rightarrow> ((Some res, err), db2))))"


section \<open>What a refresh may touch\<close>

text \<open>
  \<open>synced t N rows rows'\<close>: all live nodes are where they were, new ones are children of \<open>t\<close>
  with a name of \<open>N\<close>, and every other row is the same as before.
\<close>

definition synced :: "VFSNode \<Rightarrow> string set \<Rightarrow> VFSNode list \<Rightarrow> VFSNode list \<Rightarrow> bool" where
  "synced t N rows rows' \<longleftrightarrow> tree_ok rows' \<and>
     (\<forall>x. live rows x \<longrightarrow> (\<exists>y. live rows' y \<and> skel y = skel x)) \<and>
     (\<forall>y. live rows' y \<longrightarrow> (\<exists>x. live rows x \<and> skel y = skel x) \<or> (\<exists>w \<in> N. segs y = segs t @ [w])) \<and>
     (\<forall>x \<in> set rows. \<not> (live rows x \<and> (\<exists>w \<in> N. segs x = segs t @ [w])) \<longrightarrow> x \<in> set rows')"

lemma synced_refl: "tree_ok rows \<Longrightarrow> synced t N rows rows"
  by (auto simp: synced_def)

lemma synced_tree_ok: "synced t N rows rows' \<Longrightarrow> tree_ok rows'"
  by (simp add: synced_def)

lemma synced_stands: "synced t N rows rows' \<Longrightarrow> live rows x \<Longrightarrow> stands rows' x"
  by (auto simp: synced_def stands_def)

lemma synced_trans:
  assumes 1: "synced t N a b" and 2: "synced t N b c"
  shows "synced t N a c"
  unfolding synced_def
proof (intro conjI allI impI ballI)
  show "tree_ok c" by (rule synced_tree_ok [OF 2])
next
  fix x assume "live a x"
  then obtain y where "live b y" "skel y = skel x" using 1 by (auto simp: synced_def)
  moreover from this(1) obtain z where "live c z" "skel z = skel y" using 2 by (auto simp: synced_def)
  ultimately show "\<exists>y. live c y \<and> skel y = skel x" by auto
next
  fix y assume "live c y"
  then consider x where "live b x" "skel y = skel x" | "\<exists>w \<in> N. segs y = segs t @ [w]" using 2 unfolding synced_def by blast
  then show "(\<exists>x. live a x \<and> skel y = skel x) \<or> (\<exists>w \<in> N. segs y = segs t @ [w])"
  proof cases
    case (1 x)
    then have "(\<exists>z. live a z \<and> skel x = skel z) \<or> (\<exists>w \<in> N. segs x = segs t @ [w])"
      using assms(1) unfolding synced_def by blast
    then show ?thesis using 1(2) skelD(3) [OF 1(2)] by auto
  qed blast
next
  fix x assume x: "x \<in> set a" "\<not> (live a x \<and> (\<exists>w \<in> N. segs x = segs t @ [w]))"
  then have "x \<in> set b" using 1 unfolding synced_def by blast
  moreover have "\<not> (live b x \<and> (\<exists>w \<in> N. segs x = segs t @ [w]))" using x by (auto simp: live_def)
  ultimately show "x \<in> set c" using 2 unfolding synced_def by blast
qed

text \<open>Growth on the way to a child of a standing node is growth by that child.\<close>

lemma grown_synced:
  assumes ok: "tree_ok rows" and t: "stands rows t" and g: "grown (segs t @ [w]) rows rows'" and w: "w \<in> N"
    and frame: "\<forall>x \<in> set rows. \<not> (live rows x \<and> segs x = segs t @ [w]) \<longrightarrow> x \<in> set rows'"
  shows "synced t N rows rows'"
  unfolding synced_def
proof (intro conjI allI impI ballI)
  show "tree_ok rows'" by (rule grown_tree_ok [OF g])
next
  fix x assume "live rows x"
  then show "\<exists>y. live rows' y \<and> skel y = skel x" using g by (auto simp: grown_def)
next
  fix y assume y: "live rows' y"
  then consider "\<exists>x. live rows x \<and> skel y = skel x" | "prefix (segs y) (segs t @ [w])" using g unfolding grown_def by blast
  then show "(\<exists>x. live rows x \<and> skel y = skel x) \<or> (\<exists>w \<in> N. segs y = segs t @ [w])"
  proof cases
    case 2
    show ?thesis
    proof (cases "segs y = segs t @ [w]")
      case False
      then have p: "prefix (segs y) (segs t)" using 2 by (simp add: prefix_snoc)
      obtain t' where t': "live rows t'" "skel t' = skel t" using t by (auto simp: stands_def)
      have "prefix (segs y) (segs t')" using p skelD(3) [OF t'(2)] by simp
      from ancestors_live [OF ok t'(1) this] obtain x where x: "live rows x" "segs x = segs y" by blast
      moreover from this(1) obtain z where z: "live rows' z" "skel z = skel x" using g by (auto simp: grown_def)
      moreover have "segs z = segs y" using x(2) skelD(3) [OF z(2)] by simp
      then have "z = y" using tree_okD(4) [OF grown_tree_ok [OF g] z(1) y] by simp
      ultimately show ?thesis by auto
    qed (use w in blast)
  qed blast
next
  fix x assume "x \<in> set rows" "\<not> (live rows x \<and> (\<exists>w \<in> N. segs x = segs t @ [w]))"
  then show "x \<in> set rows'" using frame w by blast
qed

lemma node_upsert_frame:
  assumes call: "node_upsert e db = (r, db')" and ok: "tree_ok (db_nodes db)"
    and x: "x \<in> set (db_nodes db)" "\<not> (live (db_nodes db) x \<and> node_Path x = node_Path e)"
  shows "x \<in> set (db_nodes db')"
  using call unfolding node_upsert_def
proof (cases rule: stmt_cases)
  case (run db0)
  note t = same_tables_fields(4) [OF run(1)]
  let ?new = "node_stamp (db_now db0) (e\<lparr>node_IsDeleted := False\<rparr>)"
  show ?thesis
  proof (cases "find (\<lambda>n. node_Path n = node_Path ?new \<and> \<not> node_IsDeleted n) (db_nodes db)")
    case (Some old)
    then have old: "live (db_nodes db) old" "node_Path old = node_Path e"
      by (auto simp: find_Some_iff live_def node_stamp_def)
    have "node_ID x \<noteq> node_ID old"
      using key_unique [OF tree_okD(1) [OF ok], of old x] x old by (auto simp: live_def)
    then show ?thesis using run(3) Some t x(1) by (force simp: Let_def split: if_splits)
  next
    case None
    then show ?thesis using run(3) t x(1) by (auto simp: Let_def split: if_splits)
  qed
qed (use x(1) same_tables_fields(4) in simp)

lemma node_upsert_error: "node_upsert e db = (Inl err, db') \<Longrightarrow> db_nodes db' = db_nodes db"
  unfolding node_upsert_def
  by (elim stmt_cases) (auto simp: Let_def same_tables_fields split: option.splits if_splits)

text \<open>The two writes: an upsert of a child and an update of a child that stands.\<close>

lemma upsert_child_synced:
  assumes s: "synced t N rows (db_nodes db)" and t: "live rows t" and w: "nseg w" "no_trail w" "w \<in> N"
    and e: "node_ParentID e = Some (node_ID t)" "node_Name e = w" "node_Path e = joinVirtualPath (node_Path t) w"
    and call: "node_UpsertByPath e db = (r, db')"
  shows "synced t N rows (db_nodes db')"
proof -
  note ok = synced_tree_ok [OF s] and st = synced_stands [OF s t]
  note j = join_stands [OF ok st w(1)]
  have pe: "node_Path e = render (segs t @ [w])" "segs e = segs t @ [w]" using e(3) j by (simp_all add: segs_of_render)
  obtain r1 db1 where 1: "node_upsert e db = (r1, db1)" by force
  have "synced t N rows (db_nodes db1)"
  proof (cases r1)
    case (Inl err)
    then show ?thesis using s node_upsert_error 1 by simp
  next
    case (Inr u)
    have "placed (db_nodes db) e" by (rule placed_child [OF ok st w(1,2) e(1,2) pe(1)])
    then have "grown (segs t @ [w]) (db_nodes db) (db_nodes db1)"
      using node_upsert_grown [OF 1 [unfolded Inr] grown_refl [OF ok, of "segs t @ [w]"]] pe(2) by simp
    moreover have "\<forall>x \<in> set (db_nodes db). \<not> (live (db_nodes db) x \<and> segs x = segs t @ [w]) \<longrightarrow> x \<in> set (db_nodes db1)"
      using node_upsert_frame [OF 1 ok] pe by metis
    ultimately show ?thesis using synced_trans [OF s grown_synced [OF ok st _ w(3)]] by blast
  qed
  moreover have "db_nodes db' = db_nodes db1"
    using call 1 tables_keepsD [OF tables.keeps_find_row [OF table_query_tables(4)]]
    by (cases r1) (auto simp: node_UpsertByPath_def throw_def node_FindByPath_def same_tables_fields)
  ultimately show ?thesis by simp
qed

lemma update_child_synced:
  assumes s: "synced t N rows (db_nodes db)" and t: "live rows t" and w: "w \<in> N"
    and x: "live rows x" "segs x = segs t @ [w]"
    and e: "skel e = skel x" "node_Name e = node_Name x" "\<not> node_IsDeleted e"
    and ok0: "tree_ok rows" and call: "node_Update e db = (r, db')"
  shows "synced t N rows (db_nodes db')"
proof (cases r)
  case (Inl err)
  have "same_tables db db'"
    using update_row_writes [OF call [unfolded node_Update_def]] Inl by auto
  then show ?thesis using s same_tables_fields(4) by simp
next
  case (Inr u)
  note ok = synced_tree_ok [OF s] and st = synced_stands [OF s t]
  obtain y where y: "live (db_nodes db) y" "skel y = skel x" using synced_stands [OF s x(1)] by (auto simp: stands_def)
  have sy: "segs y = segs t @ [w]" using skelD(3) [OF y(2)] x(2) by simp
  have "node_Name y = w" "node_Name x = w"
    using tree_okD(3) [OF ok y(1)] tree_okD(3) [OF ok0 x(1)] sy x(2) by (auto simp: attached_def)
  then have g: "grown (segs t @ [w]) (db_nodes db) (db_nodes db')"
    using node_Update_grown(1) [OF grown_refl [OF ok] y(1) _ _ e(3) call [unfolded Inr]] e y(2) by simp
  have "\<forall>z \<in> set (db_nodes db). \<not> (live (db_nodes db) z \<and> segs z = segs t @ [w]) \<longrightarrow> z \<in> set (db_nodes db')"
  proof (intro ballI impI)
    fix z assume z: "z \<in> set (db_nodes db)" "\<not> (live (db_nodes db) z \<and> segs z = segs t @ [w])"
    then have "node_ID z \<noteq> node_ID e"
      using key_unique [OF tree_okD(1) [OF ok], of y z] y sy skelD(1) [OF e(1)] skelD(1) [OF y(2)] by (auto simp: live_def)
    then show "z \<in> set (db_nodes db')" using node_Update_writes(2) [OF call [unfolded Inr]] z(1) by force
  qed
  then show ?thesis using synced_trans [OF s grown_synced [OF ok st g w]] by blast
qed


subsection \<open>Preservation\<close>

text \<open>Whatever happens, the handler keeps the property \<open>I\<close> of the nodes.\<close>

definition pres :: "(VFSNode list \<Rightarrow> bool) \<Rightarrow> (refresh_state, 'a) handler \<Rightarrow> bool" where
  "pres I m \<longleftrightarrow> (\<forall>db res. I (db_nodes db) \<longrightarrow> I (db_nodes (fst (snd (m (db, res))))))"

definition presD :: "(VFSNode list \<Rightarrow> bool) \<Rightarrow> (DB, 'a) handler \<Rightarrow> bool" where
  "presD I m \<longleftrightarrow> (\<forall>db. I (db_nodes db) \<longrightarrow> I (db_nodes (snd (m db))))"

named_theorems pres_rules \<open>preservation of a property of the nodes\<close>

lemma pres_basic [pres_rules]: "pres I (ret x)" "pres I (count_up f)" "pres I (failed e)" "pres I (gets g)" "pres I (throw e)"
  by (simp_all add: pres_def ret_def count_up_def failed_def gets_def throw_def)

lemma pres_inDB [pres_rules]: "presD I m \<Longrightarrow> pres I (inDB m)"
  by (auto simp: pres_def presD_def inDB_def split: prod.splits)

lemma pres_if_err [pres_rules]:
  assumes "pres I m" "\<And>e. pres I (h e)" "\<And>x. pres I (f x)"
  shows "pres I (if_err m h f)"
  unfolding pres_def
proof (intro allI impI)
  fix db :: DB and res assume "I (db_nodes db)"
  then have "I (db_nodes (fst (snd (m (db, res)))))" using assms(1) by (simp add: pres_def)
  then show "I (db_nodes (fst (snd (if_err m h f (db, res)))))"
    using assms(2,3) unfolding pres_def if_err_def by (auto split: prod.splits sum.splits)
qed

lemma pres_if [pres_rules]: "(b \<Longrightarrow> pres I m) \<Longrightarrow> (\<not> b \<Longrightarrow> pres I m') \<Longrightarrow> pres I (if b then m else m')"
  by simp

lemma pres_option [pres_rules]: "(x = None \<Longrightarrow> pres I m) \<Longrightarrow> (\<And>y. x = Some y \<Longrightarrow> pres I (f y)) \<Longrightarrow> pres I (case x of None \<Rightarrow> m | Some y \<Rightarrow> f y)"
  by (cases x) simp_all

lemma pres_prod [pres_rules]: "(\<And>a b. pres I (f a b)) \<Longrightarrow> pres I (case x of (a, b) \<Rightarrow> f a b)"
  by (cases x) simp

lemma presD_basic [pres_rules]: "presD I (ret x)" "presD I (throw e)" "presD I (lift y)"
  by (simp_all add: presD_def ret_def throw_def lift_def)

lemma presD_if_err [pres_rules]:
  assumes "presD I m" "\<And>e. presD I (h e)" "\<And>x. presD I (f x)"
  shows "presD I (if_err m h f)"
  unfolding presD_def
proof (intro allI impI)
  fix db :: DB assume "I (db_nodes db)"
  then have "I (db_nodes (snd (m db)))" using assms(1) by (simp add: presD_def)
  then show "I (db_nodes (snd (if_err m h f db)))"
    using assms(2,3) unfolding presD_def if_err_def by (auto split: prod.splits sum.splits)
qed

lemma presD_if [pres_rules]: "(b \<Longrightarrow> presD I m) \<Longrightarrow> (\<not> b \<Longrightarrow> presD I m') \<Longrightarrow> presD I (if b then m else m')"
  by simp

lemma presD_option [pres_rules]: "(x = None \<Longrightarrow> presD I m) \<Longrightarrow> (\<And>y. x = Some y \<Longrightarrow> presD I (f y)) \<Longrightarrow> presD I (case x of None \<Rightarrow> m | Some y \<Rightarrow> f y)"
  by (cases x) simp_all

lemma presD_sum [pres_rules]: "(\<And>e. x = Inl e \<Longrightarrow> presD I (f e)) \<Longrightarrow> (\<And>y. x = Inr y \<Longrightarrow> presD I (g y)) \<Longrightarrow> presD I (case x of Inl e \<Rightarrow> f e | Inr y \<Rightarrow> g y)"
  by (cases x) simp_all

lemma presD_prod [pres_rules]: "(\<And>a b. presD I (f a b)) \<Longrightarrow> presD I (case x of (a, b) \<Rightarrow> f a b)"
  by (cases x) simp

lemma presD_keeps: "tree_nodes.keeps m \<Longrightarrow> presD I m"
  unfolding presD_def tree_nodes.keeps_def by (metis prod.collapse)

lemma nodes_obj_repo [intro]:
  "tree_nodes.keeps (obj_UpsertByLocator o1)" "tree_nodes.keeps (obj_FindByID i)" "tree_nodes.keeps (obj_Update o1)"
  "tree_nodes.keeps (node_FindByPath p)" "tree_nodes.keeps (node_ListChildren pid filt)"
proof -
  have u: "tree_nodes.keeps (obj_upsert o2)" for o2
    unfolding obj_upsert_def
    by (rule tree_nodes.keeps_stmt) (auto simp: tree_nodes.keeps_def Let_def split: option.splits if_splits)
  show "tree_nodes.keeps (obj_UpsertByLocator o1)"
    unfolding obj_UpsertByLocator_def obj_FindByLocator_def Let_def using u by blast
  show "tree_nodes.keeps (obj_FindByID i)" unfolding obj_FindByID_def by auto
  show "tree_nodes.keeps (obj_Update o1)"
    unfolding obj_Update_def by (intro tree_nodes.keeps_with_jsonb tree_nodes.keeps_update_row) simp
  show "tree_nodes.keeps (node_FindByPath p)" unfolding node_FindByPath_def by auto
  show "tree_nodes.keeps (node_ListChildren pid filt)" unfolding node_ListChildren_def by auto
qed

lemmas presD_repo [pres_rules] = nodes_obj_repo [THEN presD_keeps]

text \<open>The operations on one child.\<close>

lemma presD_update_child:
  assumes "live rows t" "tree_ok rows" "live rows x" "segs x = segs t @ [w]" "w \<in> N"
    and "skel e = skel x" "node_Name e = node_Name x" "\<not> node_IsDeleted e"
  shows "presD (synced t N rows) (node_Update e)"
  unfolding presD_def
proof (intro allI impI)
  fix db :: DB assume "synced t N rows (db_nodes db)"
  from update_child_synced [OF this assms(1,5,3,4,6-8,2) surjective_pairing]
  show "synced t N rows (db_nodes (snd (node_Update e db)))" .
qed

lemma presD_upsert_child:
  assumes "live rows t" "nseg w" "no_trail w" "w \<in> N"
    and "node_ParentID e = Some (node_ID t)" "node_Name e = w" "node_Path e = joinVirtualPath (node_Path t) w"
  shows "presD (synced t N rows) (node_UpsertByPath e)"
  unfolding presD_def
proof (intro allI impI)
  fix db :: DB assume "synced t N rows (db_nodes db)"
  from upsert_child_synced [OF this assms surjective_pairing]
  show "synced t N rows (db_nodes (snd (node_UpsertByPath e db)))" .
qed

lemma remote_child_place:
  "node_ParentID (keep_identity ex (remote_child env t entry oid st now)) = Some (node_ID t)"
  "node_Name (keep_identity ex (remote_child env t entry oid st now)) = remoteEntryName entry"
  "node_Path (keep_identity ex (remote_child env t entry oid st now)) = joinVirtualPath (node_Path t) (remoteEntryName entry)"
  by (simp_all add: keep_identity_def remote_child_def split: option.splits)

definition tidy :: "RemoteEntry \<Rightarrow> bool" where
  "tidy entry \<longleftrightarrow> nseg (remoteEntryName entry) \<and> no_trail (remoteEntryName entry)"

lemma presD_markChildConflict:
  assumes "live rows t" "tree_ok rows" "live rows c" "segs c = segs t @ [w]" "w \<in> N"
  shows "presD (synced t N rows) (markChildConflict c now)"
proof -
  have "presD (synced t N rows) (node_Update (c\<lparr>node_SyncState := VFSNodeSyncStateConflict, node_UpdatedAt := now\<rparr>))"
    by (rule presD_update_child [OF assms]) (use assms(3) in \<open>simp_all add: skel_def live_def\<close>)
  then show ?thesis unfolding markChildConflict_def by (intro pres_rules)
qed

lemma presD_upsertRemoteChild:
  assumes "live rows t" "tidy entry" "remoteEntryName entry \<in> N"
  shows "presD (synced t N rows) (upsertRemoteChild s t source req entry existing now)"
proof -
  have "presD (synced t N rows) (node_UpsertByPath (keep_identity existing (remote_child env t entry oid st now)))" for env oid st
    by (rule presD_upsert_child [OF assms(1) _ _ assms(3) remote_child_place]) (use assms(2) in \<open>simp_all add: tidy_def\<close>)
  then show ?thesis
    unfolding upsertRemoteChild_def upsertRemoteObject_def Let_def by (intro pres_rules)
qed

lemma presD_upsertConflictChild:
  assumes "live rows t" "tidy entry" "remoteEntryName entry \<in> N"
  shows "presD (synced t N rows) (upsertConflictChild s t entry now)"
proof -
  have "presD (synced t N rows) (node_UpsertByPath (keep_identity existing (remote_child env t entry oid st now)))" for env oid st existing
    by (rule presD_upsert_child [OF assms(1) _ _ assms(3) remote_child_place]) (use assms(2) in \<open>simp_all add: tidy_def\<close>)
  then show ?thesis
    unfolding upsertConflictChild_def Let_def by (intro pres_rules)
qed

lemma pres_conflict_loop:
  assumes "live rows t" "\<forall>entry \<in> set valid. tidy entry"
    and "\<forall>name. count_list (map remoteEntryName valid) name > 1 \<longrightarrow> name \<in> N"
  shows "pres (synced t N rows) (conflict_loop_names s t valid now names)"
proof (induction names)
  case (Cons name names)
  show ?case
  proof (cases "count_list (map remoteEntryName valid) name \<le> 1")
    case True
    then show ?thesis using Cons by simp
  next
    case False
    have "presD (synced t N rows) (upsertConflictChild s t entry now)" if "find (\<lambda>entry. remoteEntryName entry = name) valid = Some entry" for entry
      by (rule presD_upsertConflictChild [OF assms(1)]) (use that assms(2,3) False in \<open>auto simp: find_Some_iff\<close>)
    then have "pres (synced t N rows) (conflict_one s t now (find (\<lambda>entry. remoteEntryName entry = name) valid))"
      by (cases "find (\<lambda>entry. remoteEntryName entry = name) valid") (auto intro!: pres_rules)
    then show ?thesis using False Cons by (auto intro!: pres_rules)
  qed
qed (simp add: pres_rules)

text \<open>
  \<open>filed\<close>: the children by name are live children of \<open>t\<close>, and every name that does not stand for
  a control node may be touched.
\<close>

definition filed :: "VFSNode \<Rightarrow> string set \<Rightarrow> VFSNode list \<Rightarrow> (string \<Rightarrow> VFSNode option) \<Rightarrow> string \<Rightarrow> bool" where
  "filed t N rows byName w \<longleftrightarrow>
     (case byName w of None \<Rightarrow> w \<in> N
      | Some c \<Rightarrow> live rows c \<and> segs c = segs t @ [w] \<and> (metadataVFSChildIsControlNode c \<or> w \<in> N))"

lemma pres_sync_entry:
  assumes "live rows t" "tree_ok rows" "tidy entry" "filed t N rows byName (remoteEntryName entry)"
  shows "pres (synced t N rows) (sync_entry s t source req now byName entry)"
proof (cases "byName (remoteEntryName entry)")
  case None
  then have "remoteEntryName entry \<in> N" using assms(4) by (simp add: filed_def)
  note presD_upsertRemoteChild [OF assms(1,3) this]
  then show ?thesis
    unfolding sync_entry_def Let_def None metadataVFSRemoteIdentityConflicts_def by (simp, intro pres_rules) simp_all
next
  case (Some c)
  then have c: "live rows c" "segs c = segs t @ [remoteEntryName entry]" "metadataVFSChildIsControlNode c \<or> remoteEntryName entry \<in> N"
    using assms(4) by (simp_all add: filed_def)
  show ?thesis
  proof (cases "metadataVFSChildIsControlNode c")
    case True
    then show ?thesis unfolding sync_entry_def Let_def Some by (simp, intro pres_rules)
  next
    case False
    then have n: "remoteEntryName entry \<in> N" using c(3) by simp
    note presD_upsertRemoteChild [OF assms(1,3) n] presD_markChildConflict [OF assms(1,2) c(1,2) n]
    then show ?thesis using False unfolding sync_entry_def Let_def Some option.case option.sel by (intro pres_rules) simp_all
  qed
qed

text \<open>\<open>returns P m\<close>: a value that \<open>m\<close> returns has the property \<open>P\<close>.\<close>

definition returns :: "('a \<Rightarrow> bool) \<Rightarrow> ('s, 'a) handler \<Rightarrow> bool" where
  "returns P m \<longleftrightarrow> (\<forall>st x st'. m st = (Inr x, st') \<longrightarrow> P x)"

lemma returns_rules:
  "P x \<Longrightarrow> returns P (ret x)" "returns P (throw e)"
  "(\<And>e. returns P (h e)) \<Longrightarrow> (\<And>y. returns P (f y)) \<Longrightarrow> returns P (if_err m h f)"
  "returns P m1 \<Longrightarrow> returns P m2 \<Longrightarrow> returns P (if b then m1 else m2)"
  "returns P m1 \<Longrightarrow> (\<And>z. returns P (k z)) \<Longrightarrow> returns P (case oz of None \<Rightarrow> m1 | Some z \<Rightarrow> k z)"
  "(\<And>a b. returns P (g a b)) \<Longrightarrow> returns P (case p of (a, b) \<Rightarrow> g a b)"
  by (auto simp: returns_def ret_def throw_def if_err_def split: prod.splits sum.splits option.splits)

lemma returns_failed: "returns P (failed e)"
  by (auto simp: returns_def failed_def)

lemma sync_entry_byName:
  assumes "sync_entry s t source req now byName entry st = (Inr byName', st')" "w \<noteq> remoteEntryName entry"
  shows "byName' w = byName w"
proof -
  have "returns (\<lambda>m. m w = byName w) (sync_entry s t source req now byName entry)"
    unfolding sync_entry_def Let_def by (intro returns_rules returns_failed) (use assms(2) in simp_all)
  then show ?thesis using assms(1) unfolding returns_def by blast
qed

lemma pres_entry_loop:
  assumes "live rows t" "tree_ok rows" "\<forall>entry \<in> set (valid_entries entries). tidy entry"
    and "\<forall>entry \<in> set (valid_entries entries). remoteEntryName entry \<notin> set seen \<longrightarrow> filed t N rows byName (remoteEntryName entry)"
  shows "pres (synced t N rows) (entry_loop s t source req now byName seen entries)"
  using assms(3,4)
proof (induction entries arbitrary: byName seen)
  case (Cons entry entries)
  let ?w = "remoteEntryName entry"
  show ?case
  proof (cases "?w \<in> set seen \<or> (case validateFileName ?w of Inl _ \<Rightarrow> True | Inr _ \<Rightarrow> False)")
    case True
    then show ?thesis
      using Cons.IH [of seen byName] Cons.prems by (auto simp: valid_entries_def Let_def split: sum.splits)
  next
    case False
    then have v: "valid_entries (entry # entries) = entry # valid_entries entries" by (auto simp: valid_entries_def split: sum.splits)
    have e: "tidy entry" "filed t N rows byName ?w" using Cons.prems False v by auto
    have rest: "pres (synced t N rows) (entry_loop s t source req now byName' (?w # seen) entries)"
      if "\<forall>w. w \<noteq> ?w \<longrightarrow> byName' w = byName w" for byName'
      by (rule Cons.IH) (use Cons.prems v that in \<open>auto simp: filed_def\<close>)
    show ?thesis
      unfolding pres_def
    proof (intro allI impI)
      fix db :: DB and res assume I: "synced t N rows (db_nodes db)"
      obtain r db1 res1 where 1: "sync_entry s t source req now byName entry (db, res) = (r, (db1, res1))"
        by (metis prod.collapse)
      have "synced t N rows (db_nodes db1)"
        using pres_sync_entry [OF assms(1,2) e] I 1 unfolding pres_def by (metis fst_conv snd_conv)
      moreover have "entry_loop s t source req now byName seen (entry # entries) (db, res) =
          tryM (sync_entry s t source req now byName entry) (\<lambda>byName'. entry_loop s t source req now byName' (?w # seen) entries) (db, res)"
        using False by (simp add: Let_def)
      ultimately show "synced t N rows (db_nodes (fst (snd (entry_loop s t source req now byName seen (entry # entries) (db, res)))))"
        using rest sync_entry_byName [of s t source req now byName entry "(db, res)"] 1
        by (cases r) (auto simp: pres_def throw_def)
    qed
  qed
qed (simp add: pres_rules)

lemma pres_missing_loop:
  assumes "live rows t" "tree_ok rows"
    and "\<forall>c \<in> set children. live rows c \<and> segs c = segs t @ [node_Name c] \<and>
      (node_Name c \<in> set seen \<or> metadataVFSChildIsControlNode c \<or> node_Name c \<in> N)"
  shows "pres (synced t N rows) (missing_loop now seen children)"
  using assms(3)
proof (induction children)
  case (Cons c children)
  show ?case
  proof (cases "node_Name c \<in> set seen \<or> metadataVFSChildIsControlNode c")
    case True
    then show ?thesis using Cons by simp
  next
    case False
    have c: "live rows c" "segs c = segs t @ [node_Name c]" "node_Name c \<in> N" using Cons.prems False by auto
    have "presD (synced t N rows) (node_Update (c\<lparr>node_SyncState := VFSNodeSyncStateMissing, node_UpdatedAt := now\<rparr>))"
      by (rule presD_update_child [OF assms(1,2) c]) (use c(1) in \<open>simp_all add: skel_def live_def\<close>)
    moreover have "pres (synced t N rows) (missing_loop now seen children)" using Cons by simp
    moreover have "presD (synced t N rows) (markObjectMissing i now)" for i
      unfolding markObjectMissing_def by (intro pres_rules)
    ultimately show ?thesis using False by simp (intro pres_rules)
  qed
qed (simp add: pres_rules)


subsection \<open>The whole refresh\<close>

text \<open>
  What a refresh of \<open>t\<close> whose listings have names of \<open>names\<close> may do: the rest of the tree, the
  place of every node, and the mounts and virtual directories below \<open>t\<close> stay as they are.
\<close>

definition refreshed :: "VFSNode \<Rightarrow> string set \<Rightarrow> VFSNode list \<Rightarrow> VFSNode list \<Rightarrow> bool" where
  "refreshed t names rows rows' \<longleftrightarrow> tree_ok rows' \<and>
     (\<forall>x. live rows x \<longrightarrow> (\<exists>y. live rows' y \<and> skel y = skel x)) \<and>
     (\<forall>y. live rows' y \<longrightarrow> (\<exists>x. live rows x \<and> skel y = skel x) \<or> (\<exists>w \<in> names. segs y = segs t @ [w])) \<and>
     (\<forall>x \<in> set rows. node_ID x \<noteq> node_ID t \<longrightarrow>
        node_IsDeleted x \<or> node_ParentID x \<noteq> Some (node_ID t) \<or> metadataVFSChildIsControlNode x \<longrightarrow> x \<in> set rows')"

text \<open>The names a refresh may touch.\<close>

definition open_names :: "VFSNode \<Rightarrow> string set \<Rightarrow> VFSNode list \<Rightarrow> string set" where
  "open_names t names rows =
     {w. (w \<in> names \<or> (\<exists>c. live rows c \<and> segs c = segs t @ [w])) \<and>
         \<not> (\<exists>c. live rows c \<and> segs c = segs t @ [w] \<and> metadataVFSChildIsControlNode c)}"

text \<open>In a tree the children of a node are found by their parent column and by their path alike.\<close>

lemma child_iff:
  assumes ok: "tree_ok rows" and t: "live rows t" and c: "live rows c"
  shows "node_ParentID c = Some (node_ID t) \<and> node_Name c = w \<longleftrightarrow> segs c = segs t @ [w]"
proof
  assume a: "node_ParentID c = Some (node_ID t) \<and> node_Name c = w"
  then obtain p where p: "live rows p" "node_ID p = node_ID t" "segs c = segs p @ [node_Name c]"
    using tree_okD(3) [OF ok c] by (auto simp: attached_def)
  have "p = t" using key_unique [OF tree_okD(1) [OF ok], of t p] p t by (auto simp: live_def)
  then show "segs c = segs t @ [w]" using p(3) a by simp
next
  assume a: "segs c = segs t @ [w]"
  then obtain p where p: "live rows p" "node_ParentID c = Some (node_ID p)" "segs c = segs p @ [node_Name c]"
    using tree_okD(3) [OF ok c] by (auto simp: attached_def)
  have "segs p = segs t" "node_Name c = w" using p(3) a by simp_all
  then have "p = t" "node_Name c = w" using tree_okD(4) [OF ok p(1) t] by blast+
  then show "node_ParentID c = Some (node_ID t) \<and> node_Name c = w" using p(2) by simp
qed

lemma synced_target:
  assumes "synced t N rows rows'" "live rows t"
  shows "live rows' t"
proof -
  have "\<forall>x \<in> set rows. \<not> (live rows x \<and> (\<exists>w \<in> N. segs x = segs t @ [w])) \<longrightarrow> x \<in> set rows'"
    using assms(1) unfolding synced_def by blast
  from bspec [OF this, of t] have "t \<in> set rows'" using assms(2) by (simp add: live_def)
  then show ?thesis using assms(2) by (simp add: live_def)
qed

lemma synced_refreshed:
  assumes s: "synced t (open_names t names rows) rows rows'" and ok: "tree_ok rows" and t: "live rows t"
  shows "refreshed t names rows rows'"
  unfolding refreshed_def
proof (intro conjI allI impI ballI)
  show "tree_ok rows'" by (rule synced_tree_ok [OF s])
next
  fix x assume "live rows x"
  then show "\<exists>y. live rows' y \<and> skel y = skel x" using s by (auto simp: synced_def)
next
  fix y assume y: "live rows' y"
  then consider "\<exists>x. live rows x \<and> skel y = skel x" | w where "w \<in> open_names t names rows" "segs y = segs t @ [w]"
    using s unfolding synced_def by blast
  then show "(\<exists>x. live rows x \<and> skel y = skel x) \<or> (\<exists>w \<in> names. segs y = segs t @ [w])"
  proof cases
    case 2
    show ?thesis
    proof (cases "w \<in> names")
      case False
      then obtain c where c: "live rows c" "segs c = segs t @ [w]" using 2(1) by (auto simp: open_names_def)
      obtain z where z: "live rows' z" "skel z = skel c" using synced_stands [OF s c(1)] by (auto simp: stands_def)
      have "z = y" using tree_okD(4) [OF synced_tree_ok [OF s] z(1) y] skelD(3) [OF z(2)] c(2) 2(2) by simp
      then show ?thesis using z(2) c(1) by auto
    qed (use 2(2) in blast)
  qed blast
next
  fix x assume x: "x \<in> set rows" "node_ID x \<noteq> node_ID t"
    "node_IsDeleted x \<or> node_ParentID x \<noteq> Some (node_ID t) \<or> metadataVFSChildIsControlNode x"
  have "\<not> (live rows x \<and> (\<exists>w \<in> open_names t names rows. segs x = segs t @ [w]))"
  proof
    assume a: "live rows x \<and> (\<exists>w \<in> open_names t names rows. segs x = segs t @ [w])"
    then obtain w where w: "w \<in> open_names t names rows" "segs x = segs t @ [w]" by blast
    then have "node_ParentID x = Some (node_ID t)" "\<not> metadataVFSChildIsControlNode x"
      using child_iff [OF ok t] a by (auto simp: open_names_def)
    then show False using x(3) a by (simp add: live_def)
  qed
  then show "x \<in> set rows'" using s x(1) unfolding synced_def by blast
qed

lemma update_target_refreshed:
  assumes s: "refreshed t names rows (db_nodes db)" and t: "live (db_nodes db) t"
    and e: "skel e = skel t" "node_Name e = node_Name t" "\<not> node_IsDeleted e"
    and call: "node_Update e db = (r, db')"
  shows "refreshed t names rows (db_nodes db')"
proof (cases r)
  case (Inl err)
  have "same_tables db db'" using update_row_writes [OF call [unfolded node_Update_def]] Inl by auto
  then show ?thesis using s same_tables_fields(4) by simp
next
  case (Inr u)
  have ok: "tree_ok (db_nodes db)" using s by (simp add: refreshed_def)
  note g = node_Update_grown(1) [OF grown_refl [OF ok, of "segs t"] t e call [unfolded Inr]]
  have frame: "x \<in> set (db_nodes db')" if "x \<in> set (db_nodes db)" "node_ID x \<noteq> node_ID t" for x
    using node_Update_writes(2) [OF call [unfolded Inr]] that skelD(1) [OF e(1)] by force
  have origin: "\<exists>x. live (db_nodes db) x \<and> skel y = skel x" if y: "live (db_nodes db') y" for y
  proof (cases "\<exists>x. live (db_nodes db) x \<and> skel y = skel x")
    case False
    then have "prefix (segs y) (segs t)" using g y unfolding grown_def by blast
    from ancestors_live [OF ok t this] obtain x where x: "live (db_nodes db) x" "segs x = segs y" by blast
    obtain z where z: "live (db_nodes db') z" "skel z = skel x" using g x(1) by (auto simp: grown_def)
    have "z = y" using tree_okD(4) [OF grown_tree_ok [OF g] z(1) y] skelD(3) [OF z(2)] x(2) by simp
    then show ?thesis using z(2) x(1) by auto
  qed
  show ?thesis
    unfolding refreshed_def
  proof (intro conjI allI impI ballI)
    show "tree_ok (db_nodes db')" by (rule grown_tree_ok [OF g])
  next
    fix x assume "live rows x"
    then obtain y where "live (db_nodes db) y" "skel y = skel x" using s by (auto simp: refreshed_def)
    moreover from this(1) obtain z where "live (db_nodes db') z" "skel z = skel y" using g by (auto simp: grown_def)
    ultimately show "\<exists>y. live (db_nodes db') y \<and> skel y = skel x" by auto
  next
    fix y assume "live (db_nodes db') y"
    then obtain x where x: "live (db_nodes db) x" "skel y = skel x" using origin by blast
    then have "(\<exists>z. live rows z \<and> skel x = skel z) \<or> (\<exists>w \<in> names. segs x = segs t @ [w])"
      using s unfolding refreshed_def by blast
    then show "(\<exists>x. live rows x \<and> skel y = skel x) \<or> (\<exists>w \<in> names. segs y = segs t @ [w])"
      using x(2) skelD(3) [OF x(2)] by auto
  next
    fix x assume "x \<in> set rows" "node_ID x \<noteq> node_ID t"
      "node_IsDeleted x \<or> node_ParentID x \<noteq> Some (node_ID t) \<or> metadataVFSChildIsControlNode x"
    then show "x \<in> set (db_nodes db')" using s frame unfolding refreshed_def by blast
  qed
qed

lemma settle_refreshed:
  assumes s: "synced t (open_names t names rows) rows (db_nodes db)" and ok: "tree_ok rows" and t: "live rows t"
    and call: "settle_target t now (db, res) = (r, (db', res'))"
  shows "refreshed t names rows (db_nodes db')"
proof -
  let ?st = "if rr_Conflicts res > 0 then VFSNodeSyncStateConflict else VFSNodeSyncStateIndexed"
  define e where "e = t\<lparr>node_SyncState := ?st, node_UpdatedAt := now, node_IndexedAt := Some now, node_LastSeenAt := Some now\<rparr>"
  obtain u where u: "node_Update e db = (u, db')"
  proof -
    obtain u db1 where 1: "node_Update e db = (u, db1)" by force
    have "db' = db1"
      using call 1 unfolding settle_target_def
      by (cases u) (simp_all add: if_err_def gets_def inDB_def failed_def count_up_def throw_def ret_def e_def)
    then show thesis using 1 that by simp
  qed
  have "skel e = skel t" "node_Name e = node_Name t" "\<not> node_IsDeleted e" using t by (simp_all add: e_def skel_def live_def)
  from update_target_refreshed [OF synced_refreshed [OF s ok t] synced_target [OF s t] this u] show ?thesis .
qed


lemma ListChildren_children:
  assumes ok: "tree_ok (db_nodes db)" and t: "live (db_nodes db) t"
    and call: "node_ListChildren (Some (node_ID t)) noFilter db = (Inr children, db')"
  shows "db_nodes db' = db_nodes db" "c \<in> set children \<longleftrightarrow> live (db_nodes db) c \<and> segs c = segs t @ [node_Name c]"
proof -
  have s: "same_tables db db' \<and> children = sort_key (\<lambda>n. (db_collate db (node_Name n), node_ID n))
      (filter (\<lambda>n. node_ParentID n = Some (node_ID t) \<and> node_selected noFilter n) (db_nodes db))"
    using select_rows_cases [OF call [unfolded node_ListChildren_def]]
    by (auto simp: table_query_def same_tables_fields node_limit_def noFilter_def)
  then show "db_nodes db' = db_nodes db" by (simp add: same_tables_fields)
  have "c \<in> set children \<longleftrightarrow> live (db_nodes db) c \<and> node_ParentID c = Some (node_ID t)"
    using s by (auto simp: node_selected_def noFilter_def live_def)
  then show "c \<in> set children \<longleftrightarrow> live (db_nodes db) c \<and> segs c = segs t @ [node_Name c]"
    using child_iff [OF ok t] by blast
qed

lemma open_name:
  assumes ok: "tree_ok rows" and c: "live rows c" "segs c = segs t @ [w]"
  shows "metadataVFSChildIsControlNode c \<or> w \<in> open_names t names rows"
proof (rule disjCI)
  assume n: "w \<notin> open_names t names rows"
  then obtain x where x: "live rows x" "segs x = segs t @ [w]" "metadataVFSChildIsControlNode x"
    using c unfolding open_names_def by blast
  have "x = c" using tree_okD(4) [OF ok x(1) c(1)] x(2) c(2) by simp
  then show "metadataVFSChildIsControlNode c" using x(3) by simp
qed

lemma filed_children:
  assumes ok: "tree_ok rows" and c: "\<And>c. c \<in> set children \<longleftrightarrow> live rows c \<and> segs c = segs t @ [node_Name c]"
    and t: "live rows t" and w: "w \<in> names"
  shows "filed t (open_names t names rows) rows (map_of (rev (map (\<lambda>c. (node_Name c, c)) children))) w"
proof (cases "map_of (rev (map (\<lambda>c. (node_Name c, c)) children)) w")
  case None
  then have "w \<notin> node_Name ` set children" by (simp add: map_of_eq_None_iff image_image)
  then have "\<not> (\<exists>c. live rows c \<and> segs c = segs t @ [w])" using c child_iff [OF ok t] by (metis image_eqI)
  then have "w \<in> open_names t names rows" using w unfolding open_names_def by blast
  then show ?thesis using None by (simp add: filed_def)
next
  case (Some x)
  then have "(w, x) \<in> set (rev (map (\<lambda>c. (node_Name c, c)) children))" by (rule map_of_SomeD)
  then have "x \<in> set children" "node_Name x = w" by auto
  then have x: "live rows x" "segs x = segs t @ [w]" using c [of x] by simp_all
  have "metadataVFSChildIsControlNode x \<or> w \<in> open_names t names rows"
    by (rule open_name [OF ok x])
  then show ?thesis using Some x by (simp add: filed_def)
qed

lemma distinct_count_le: "distinct xs \<Longrightarrow> count_list xs x \<le> 1"
  by (induction xs) (auto simp: count_list_0_iff)

text \<open>\<open>leads I Q m\<close>: from nodes with \<open>I\<close> the handler leads to nodes with \<open>Q\<close>, whatever its result.\<close>

definition leads :: "(VFSNode list \<Rightarrow> bool) \<Rightarrow> (VFSNode list \<Rightarrow> bool) \<Rightarrow> (refresh_state, 'a) handler \<Rightarrow> bool" where
  "leads I Q m \<longleftrightarrow> (\<forall>db res. I (db_nodes db) \<longrightarrow> Q (db_nodes (fst (snd (m (db, res))))))"

lemma leads_try:
  assumes "pres I m" "\<And>x. leads I Q (f x)" "\<And>rows. I rows \<Longrightarrow> Q rows"
  shows "leads I Q (tryM m f)"
  unfolding leads_def
proof (intro allI impI)
  fix db :: DB and res assume "I (db_nodes db)"
  then have "I (db_nodes (fst (snd (m (db, res)))))" using assms(1) by (simp add: pres_def)
  then show "Q (db_nodes (fst (snd (tryM m f (db, res)))))"
    using assms(2,3) unfolding leads_def if_err_def throw_def by (auto split: prod.splits sum.splits)
qed

lemma apply_body_refreshed:
  assumes ok: "tree_ok (db_nodes db)" and t: "live (db_nodes db) t"
    and d: "distinct (map remoteEntryName (valid_entries entries))"
    and e: "\<forall>entry \<in> set (valid_entries entries). tidy entry \<and> remoteEntryName entry \<in> names"
    and call: "apply_body s t source req entries now (db, res) = (r, (db', res'))"
  shows "refreshed t names (db_nodes db) (db_nodes db')"
proof -
  let ?rows = "db_nodes db" and ?N = "open_names t names (db_nodes db)"
  let ?I = "synced t ?N ?rows"
  note s0 = synced_refl [OF ok, of t ?N]
  obtain r1 db1 where 1: "node_ListChildren (Some (node_ID t)) noFilter db = (r1, db1)" by force
  show ?thesis
  proof (cases r1)
    case (Inl err)
    have "db_nodes db1 = db_nodes db" using tree_nodes.keepsD [OF nodes_obj_repo(5) 1] .
    moreover have "db' = db1" using call 1 Inl by (simp add: apply_body_def if_err_def inDB_def failed_def)
    ultimately show ?thesis using synced_refreshed [OF s0 ok t] by simp
  next
    case (Inr children)
    note c = ListChildren_children [OF ok t 1 [unfolded Inr]]
    let ?byName = "map_of (rev (map (\<lambda>c. (node_Name c, c)) children))"
    let ?valid = "valid_entries entries"
    let ?names = "remdups (map remoteEntryName ?valid)"
    let ?dups = "filter (\<lambda>name. count_list (map remoteEntryName ?valid) name > 1) ?names"
    let ?count = "count_up (\<lambda>res. res\<lparr>rr_Conflicts := rr_Conflicts res + (length entries - length ?valid)\<rparr>)"
    have run: "tryM ?count (\<lambda>_. tryM (conflict_loop_names s t ?valid now (sys_order s ?names)) (\<lambda>_.
          tryM (entry_loop s t source req now ?byName ?dups entries) (\<lambda>seen.
          tryM (missing_loop now seen children) (\<lambda>_. settle_target t now)))) (db1, res) = (r, (db', res'))"
      using call 1 Inr by (simp add: apply_body_def inDB_def if_err_def Let_def)
    have filed: "\<forall>entry \<in> set ?valid. filed t ?N ?rows ?byName (remoteEntryName entry)"
      using filed_children [OF ok c(2) t] e by blast
    have p1: "pres ?I ?count" by (rule pres_basic)
    have p2: "pres ?I (conflict_loop_names s t ?valid now (sys_order s ?names))"
      by (rule pres_conflict_loop [OF t]) (use e distinct_count_le [OF d] in \<open>auto simp: not_less [symmetric]\<close>)
    have p3: "pres ?I (entry_loop s t source req now ?byName ?dups entries)"
      by (rule pres_entry_loop [OF t ok]) (use e filed in auto)
    have p4: "pres ?I (missing_loop now seen children)" for seen
    proof (rule pres_missing_loop [OF t ok], intro ballI)
      fix c assume "c \<in> set children"
      then have x: "live ?rows c" "segs c = segs t @ [node_Name c]" using c(2) by blast+
      then have "metadataVFSChildIsControlNode c \<or> node_Name c \<in> ?N"
        by (intro open_name [OF ok])
      then show "live ?rows c \<and> segs c = segs t @ [node_Name c] \<and>
          (node_Name c \<in> set seen \<or> metadataVFSChildIsControlNode c \<or> node_Name c \<in> ?N)"
        using x by simp
    qed
    have q: "leads ?I (refreshed t names ?rows) (settle_target t now)"
      unfolding leads_def using settle_refreshed [OF _ ok t] by (metis prod.collapse)
    note i = synced_refreshed [OF _ ok t]
    from q have "leads ?I (refreshed t names ?rows) (tryM (missing_loop now seen children) (\<lambda>_. settle_target t now))" for seen
      by (rule leads_try [OF p4 _ i])
    then have "leads ?I (refreshed t names ?rows) (tryM ?count (\<lambda>_. tryM (conflict_loop_names s t ?valid now (sys_order s ?names)) (\<lambda>_.
          tryM (entry_loop s t source req now ?byName ?dups entries) (\<lambda>seen.
          tryM (missing_loop now seen children) (\<lambda>_. settle_target t now)))))"
      by (intro leads_try [OF p1 _ i] leads_try [OF p2 _ i] leads_try [OF p3 _ i])
    from this [unfolded leads_def, rule_format, of db1 res] show ?thesis using run s0 c(1) by simp
  qed
qed


lemma withinSyncTx_cases:
  assumes "withinSyncTx s fn (db, res) = (r, (db', res'))"
  obtains (plain) "\<not> sys_transactor s" "fn (db, res) = (r, (db', res'))"
    | (commit) x db0 db1 res1 where "sys_transactor s" "r = Inr x" "same_tables db db0" "fn (db0, res) = (Inr x, (db1, res1))"
        "same_tables db1 db'"
    | (abort) e where "sys_transactor s" "r = Inl e" "same_tables db db'"
proof (cases "sys_transactor s")
  case False
  then show thesis using assms plain by (simp add: withinSyncTx_def)
next
  case True
  let ?fn = "\<lambda>d. case fn (d, res) of (r, (d', _)) \<Rightarrow> (r, d')"
  have "WithinTx ?fn db = (r, db')"
    using assms True by (auto simp: withinSyncTx_def split: prod.splits)
  then show thesis
  proof (cases rule: WithinTx_cases)
    case (commit x db0 db1)
    moreover obtain res1 where "fn (db0, res) = (Inr x, (db1, res1))" using commit(3) by (auto split: prod.splits)
    ultimately show thesis using that(2) True by blast
  next
    case (abort e)
    then show thesis using that(3) True by blast
  qed
qed

lemma leads_tx:
  assumes "leads (\<lambda>x. x = rows) Q fn" "Q rows"
  shows "leads (\<lambda>x. x = rows) Q (withinSyncTx s fn)"
  unfolding leads_def
proof (intro allI impI)
  fix db :: DB and res assume rows: "db_nodes db = rows"
  obtain r db' res' where w: "withinSyncTx s fn (db, res) = (r, (db', res'))" by (metis prod.collapse)
  then have "Q (db_nodes db')"
  proof (cases rule: withinSyncTx_cases)
    case plain
    then show ?thesis using assms(1) [unfolded leads_def, rule_format, OF rows, of res] by simp
  next
    case (commit x db0 db1 res1)
    have "db_nodes db0 = rows" using rows same_tables_fields(4) [OF commit(3)] by simp
    from assms(1) [unfolded leads_def, rule_format, OF this, of res]
    show ?thesis using commit(4) same_tables_fields(4) [OF commit(5)] by simp
  next
    case (abort e)
    then show ?thesis using assms(2) rows same_tables_fields(4) by simp
  qed
  then show "Q (db_nodes (fst (snd (withinSyncTx s fn (db, res)))))" using w by simp
qed

text \<open>Only the row of the refreshed directory may have changed.\<close>

definition only_target :: "VFSNode \<Rightarrow> VFSNode list \<Rightarrow> VFSNode list \<Rightarrow> bool" where
  "only_target t rows rows' \<longleftrightarrow> (\<forall>x \<in> set rows. node_ID x \<noteq> node_ID t \<longrightarrow> x \<in> set rows')"

lemma markTarget_leads:
  assumes ok: "tree_ok rows" and t: "live rows t"
  shows "leads (\<lambda>x. x = rows) (\<lambda>rows'. refreshed t names rows rows' \<and> only_target t rows rows') (markTargetSyncState s t st)"
  unfolding markTargetSyncState_def
proof (rule leads_tx)
  note r = synced_refreshed [OF synced_refl [OF ok] ok t]
  then show "refreshed t names rows rows \<and> only_target t rows rows" by (simp add: only_target_def)
  show "leads (\<lambda>x. x = rows) (\<lambda>rows'. refreshed t names rows rows' \<and> only_target t rows rows')
     (tryM (gets (\<lambda>(db, _). db_now db)) (\<lambda>now. inDB (tryN (node_Update (marked_target t st now)) ret)))"
    unfolding leads_def
  proof (intro allI impI)
    fix db :: DB and res assume rows: "db_nodes db = rows"
    define e where "e = marked_target t st (db_now db)"
    obtain u db1 where u: "node_Update e db = (u, db1)" by force
    have e: "skel e = skel t" "node_Name e = node_Name t" "\<not> node_IsDeleted e"
      using t by (simp_all add: e_def marked_target_def Let_def skel_def live_def)
    have "refreshed t names rows (db_nodes db1)"
      using update_target_refreshed [OF _ _ e u] r rows t by simp
    moreover have "only_target t rows (db_nodes db1)"
      using update_row_writes [OF u [unfolded node_Update_def]] rows skelD(1) [OF e(1)]
      by (force simp: only_target_def same_tables_fields)
    moreover have "snd (inDB (tryN (node_Update e) ret) (db, res)) = (db1, res)"
      using u by (cases u) (simp_all add: inDB_def if_err_def throw_def ret_def)
    ultimately show "refreshed t names rows (db_nodes (fst (snd (tryM (gets (\<lambda>(db, _). db_now db)) (\<lambda>now.
          inDB (tryN (node_Update (marked_target t st now)) ret)) (db, res))))) \<and>
        only_target t rows (db_nodes (fst (snd (tryM (gets (\<lambda>(db, _). db_now db)) (\<lambda>now.
          inDB (tryN (node_Update (marked_target t st now)) ret)) (db, res)))))"
      unfolding e_def by (simp add: gets_def)
  qed
qed

lemma apply_leads:
  assumes "tree_ok rows" "live rows t" "distinct (map remoteEntryName (valid_entries entries))"
    and "\<forall>entry \<in> set (valid_entries entries). tidy entry \<and> remoteEntryName entry \<in> names"
  shows "leads (\<lambda>x. x = rows) (refreshed t names rows) (applyRemoteEntries s t source req entries)"
proof -
  have "leads (\<lambda>x. x = rows) (refreshed t names rows) (apply_body s t source req entries now)" for now
    unfolding leads_def using apply_body_refreshed [OF _ _ assms(3,4)] assms(1,2) by (metis prod.collapse)
  then have "leads (\<lambda>x. x = rows) (refreshed t names rows) (withinSyncTx s (apply_body s t source req entries now))" for now
    by (rule leads_tx) (rule synced_refreshed [OF synced_refl [OF assms(1)] assms(1,2)])
  then show ?thesis unfolding applyRemoteEntries_def leads_def by (simp add: gets_def)
qed

lemma buildRemoteListRequest_keeps: "tree_nodes.keeps (buildRemoteListRequest s target source)"
proof -
  have f: "tree_nodes.keeps (findMountForSyncTarget s target)"
    unfolding findMountForSyncTarget_def mnt_FindByID_def mnt_FindByNodeID_def
    by (intro tree_nodes.keeps_if tree_nodes.keeps_option tree_nodes.keeps_basic tree_nodes.keeps_find_row) simp_all
  show ?thesis
    unfolding buildRemoteListRequest_def Let_def
    by (intro tree_nodes.keeps_if_err tree_nodes.keeps_if tree_nodes.keeps_prod tree_nodes.keeps_basic f)
qed

section \<open>Properties\<close>



subsection \<open>Instances\<close>

definition sample_go :: GoEnv where
  "sample_go = \<lparr>env_uni = (\<lambda>s. s), env_mimeByExt = (\<lambda>_. []), env_rfc3339 = (\<lambda>_. []), env_rfc3339nano = (\<lambda>_. []),
     env_md5hex = (\<lambda>s. s)\<rparr>"

definition sample_entry :: "string \<Rightarrow> RemoteEntry" where
  "sample_entry name = \<lparr>re_Name = name, re_Path = [], re_IsDir = False, re_Size = 5, re_ETag = [], re_Checksum = [],
     re_MimeType = ''text/plain'', re_ModifiedAt = 0, re_ProviderItemID = [], re_ProviderParentID = [],
     re_LocatorType = ''provider_path'', re_LocatorJSON = ''{}''\<rparr>"

definition sample_syncer :: "string list \<Rightarrow> MetadataVFSSyncService" where
  "sample_syncer names = \<lparr>sys_nodeRepo = True, sys_objectRepo = True, sys_sourceRepo = True, sys_mountRepo = False,
     sys_indexers = (\<lambda>_. Some (\<lambda>_ _. Inr (map sample_entry names))), sys_transactor = True, sys_env = sample_go,
     sys_json = mvs_json sample_service, sys_order = (\<lambda>ws. ws)\<rparr>"

definition sample_dir :: VFSNode where
  "sample_dir = (sample_node 2 (Some 1) ''m'' ''/m'' VFSNodeKindMount)\<lparr>node_SourceID := Some 1\<rparr>"

text \<open>A mounted directory with a virtual directory and a file the driver no longer has.\<close>

definition sample_sync_db :: DB where
  "sample_sync_db = emptyDB\<lparr>db_seq := (\<lambda>_. 4), db_sources := [sample_mount_source 1 ''/m''], db_nodes :=
     [sample_node 1 None [] ''/'' VFSNodeKindRoot, sample_dir,
      sample_node 3 (Some 2) ''v'' ''/m/v'' VFSNodeKindVirtualDir,
      sample_node 4 (Some 2) ''g'' ''/m/g'' VFSNodeKindFile]\<rparr>"


text \<open>
  When a name is listed twice, the child in conflict is written without looking at what stands
  there: a mount or virtual directory of that name is turned into a file of the driver.
\<close>

lemma duplicate_overwrites_control_node:
  "map (\<lambda>n. (node_Path n, node_Kind n)) (db_nodes (snd (upsertConflictChild (sample_syncer []) sample_dir (sample_entry ''v'') 1 sample_sync_db))) =
     [(''/'', VFSNodeKindRoot), (''/m'', VFSNodeKindMount), (''/m/v'', VFSNodeKindFile), (''/m/g'', VFSNodeKindFile)]"
proof -
  let ?row = "sample_node 3 (Some 2) ''v'' ''/m/v'' VFSNodeKindVirtualDir"
  let ?e = "keep_identity (Some ?row) (remote_child sample_go sample_dir (sample_entry ''v'') None VFSNodeSyncStateConflict 1)"
  have pure: "validateFileName (remoteEntryName (sample_entry ''v'')) = Inr ()"
    "joinVirtualPath (node_Path sample_dir) (remoteEntryName (sample_entry ''v'')) = ''/m/v''" "sys_env (sample_syncer []) = sample_go"
    by (code_simp, code_simp, simp add: sample_syncer_def)
  have "node_FindByPath ''/m/v'' sample_sync_db = (Inr ?row, sample_sync_db)"
    by (simp add: node_FindByPath_def find_row_def sample_sync_db_def emptyDB_def sample_node_def sample_dir_def)
  then have "snd (upsertConflictChild (sample_syncer []) sample_dir (sample_entry ''v'') 1 sample_sync_db) = snd (node_UpsertByPath ?e sample_sync_db)"
    using pure by (simp add: upsertConflictChild_def ret_def if_err_def throw_def split: prod.splits sum.splits)
  moreover have "map (\<lambda>n. (node_Path n, node_Kind n)) (db_nodes (snd (node_UpsertByPath ?e sample_sync_db))) =
     [(''/'', VFSNodeKindRoot), (''/m'', VFSNodeKindMount), (''/m/v'', VFSNodeKindFile), (''/m/g'', VFSNodeKindFile)]"
    by code_simp
  ultimately show ?thesis by simp
qed

end
