(* ===== verification/Sync_Frame.thy ===== *)
theory Sync_Frame
  imports Metadata_Sync
begin

text \<open>
  What the index leaves alone. A part of the tables that does not depend on nodes and objects
  is never changed by a refresh, whatever its outcome; the locale states it once for any such
  part, and it is interpreted on everything but these two tables.
\<close>

locale beside_part = kept_part q for q :: "DB \<Rightarrow> 'q" +
  assumes beside_nodes: "\<And>f db. q (db_nodes_update f db) = q db"
    and beside_objects: "\<And>f db. q (db_objects_update f db) = q db"
begin

lemma beside_seq [simp]: "q (db\<lparr>db_seq := s\<rparr>) = q db"
  by (rule table_queryD [OF stable]) simp

lemma beside_repo [intro]:
  "keeps (node_Update n)" "keeps (node_FindByPath p)" "keeps (node_FindByID i)" "keeps (node_ListChildren pid filt)"
  "keeps (node_UpsertByPath n)" "keeps (obj_UpsertByLocator ob)" "keeps (obj_FindByID i)" "keeps (obj_Update ob)"
  "keeps (src_FindByID i)" "keeps (node_Create n)"
proof -
  show "keeps (node_FindByPath p)" for p unfolding node_FindByPath_def by auto
  moreover have "keeps (node_upsert n)"
    unfolding node_upsert_def
    by (rule keeps_stmt) (auto simp: keeps_def Let_def beside_nodes split: option.splits if_splits)
  ultimately show "keeps (node_UpsertByPath n)" unfolding node_UpsertByPath_def by blast
  have "keeps (obj_upsert o2)" for o2
    unfolding obj_upsert_def
    by (rule keeps_stmt) (auto simp: keeps_def Let_def beside_objects split: option.splits if_splits)
  then show "keeps (obj_UpsertByLocator ob)"
    unfolding obj_UpsertByLocator_def obj_FindByLocator_def Let_def by blast
  show "keeps (obj_Update ob)"
    unfolding obj_Update_def by (intro keeps_with_jsonb keeps_update_row beside_objects)
  show "keeps (node_Update n)" unfolding node_Update_def by (intro keeps_update_row beside_nodes)
  show "keeps (node_Create n)"
    unfolding node_Create_def by (rule keeps_env) (intro keeps_insert_row beside_nodes)
qed (auto simp: node_FindByID_def node_ListChildren_def obj_FindByID_def src_FindByID_def)

lemma keeps_sum: "(\<And>e. keeps (f e)) \<Longrightarrow> (\<And>y. keeps (g y)) \<Longrightarrow> keeps (case x of Inl e \<Rightarrow> f e | Inr y \<Rightarrow> g y)"
  by (cases x) simp_all

lemma beside_steps [intro]:
  "keeps (markObjectMissing i now)" "keeps (markChildConflict c now)" "keeps (upsertRemoteObject s source entry p mime now)"
  "keeps (upsertRemoteChild s target source req entry existing now)" "keeps (upsertConflictChild s target entry now)"
  "keeps (buildRemoteListRequest s target source)"
proof -
  show "keeps (markObjectMissing i now)"
    unfolding markObjectMissing_def by (intro keeps_rules beside_repo)
  show "keeps (markChildConflict c now)"
    unfolding markChildConflict_def by (intro keeps_rules beside_repo)
  show up: "keeps (upsertRemoteObject s source entry p mime now)" for p mime
    unfolding upsertRemoteObject_def by (intro keeps_rules beside_repo)
  show "keeps (upsertRemoteChild s target source req entry existing now)"
    unfolding upsertRemoteChild_def Let_def by (intro keeps_rules beside_repo up)
  show "keeps (upsertConflictChild s target entry now)"
    unfolding upsertConflictChild_def Let_def by (intro keeps_rules keeps_sum beside_repo)
  have "keeps (findMountForSyncTarget s target)"
    unfolding findMountForSyncTarget_def mnt_FindByID_def mnt_FindByNodeID_def by (intro keeps_rules) auto
  then show "keeps (buildRemoteListRequest s target source)"
    unfolding buildRemoteListRequest_def Let_def by (intro keeps_rules)
qed

text \<open>Handlers on the database and the result of a refresh.\<close>

definition keeps_beside :: "(refresh_state, 'a) handler \<Rightarrow> bool" where
  "keeps_beside m \<longleftrightarrow> (\<forall>st. q (fst (snd (m st))) = q (fst st))"

lemma beside_basic:
  "keeps_beside (ret x)" "keeps_beside (count_up f)" "keeps_beside (failed e)" "keeps_beside (gets g)"
  "keeps_beside (throw e)"
  by (auto simp: keeps_beside_def throw_def ret_def count_up_def failed_def gets_def)

lemma beside_inDB: "keeps m \<Longrightarrow> keeps_beside (inDB m)"
  unfolding keeps_beside_def inDB_def by (auto dest: keepsD split: prod.splits)

lemma beside_if_err:
  assumes "keeps_beside m" "\<And>e. keeps_beside (h e)" "\<And>x. keeps_beside (f x)"
  shows "keeps_beside (if_err m h f)"
  using assms unfolding keeps_beside_def if_err_def by (metis (mono_tags, lifting) old.sum.exhaust prod.case_eq_if sum.case)

lemma beside_if: "keeps_beside m \<Longrightarrow> keeps_beside m' \<Longrightarrow> keeps_beside (if b then m else m')"
  by simp

lemma beside_option: "keeps_beside m \<Longrightarrow> (\<And>y. keeps_beside (f y)) \<Longrightarrow> keeps_beside (case x of None \<Rightarrow> m | Some y \<Rightarrow> f y)"
  by (cases x) simp_all

lemma beside_prod: "(\<And>a b. keeps_beside (f a b)) \<Longrightarrow> keeps_beside (case x of (a, b) \<Rightarrow> f a b)"
  by (cases x) simp

lemmas beside_rules = beside_basic beside_inDB beside_if_err beside_if beside_option beside_prod

lemma beside_tx: "keeps_beside m \<Longrightarrow> keeps_beside (withinSyncTx s m)"
  unfolding keeps_beside_def
proof (intro allI)
  fix st assume m: "\<forall>st. q (fst (snd (m st))) = q (fst st)"
  obtain db res r db' res' where st: "st = (db, res)" "withinSyncTx s m (db, res) = (r, (db', res'))"
    by (metis prod.collapse)
  from st(2) show "q (fst (snd (withinSyncTx s m st))) = q (fst st)"
  proof (cases rule: withinSyncTx_cases)
    case plain
    then show ?thesis using m [rule_format, of "(db, res)"] st by simp
  next
    case (commit x db0 db1 res1)
    then show ?thesis using m [rule_format, of "(db0, res)"] st table_queryD [OF stable] by simp
  next
    case (abort e)
    then show ?thesis using st table_queryD [OF stable] by simp
  qed
qed

lemma beside_loops:
  "keeps_beside (conflict_loop_names s target valid now names)"
  "keeps_beside (entry_loop s target source req now byName seen entries)"
  "keeps_beside (missing_loop now seen2 children)" "keeps_beside (settle_target target now)"
proof -
  have one: "keeps_beside (conflict_one s target now e)" for e
    by (cases e) (auto intro!: beside_rules)
  show "keeps_beside (conflict_loop_names s target valid now names)"
    by (induction names) (auto intro!: beside_rules one)
  have entry: "keeps_beside (sync_entry s target source req now bn e)" for s target source req now bn e
    unfolding sync_entry_def Let_def by (intro beside_rules beside_steps)
  show "keeps_beside (entry_loop s target source req now byName seen entries)"
    by (induction s target source req now byName seen entries rule: entry_loop.induct)
      (auto simp: Let_def intro!: beside_rules entry)
  have upd: "keeps (tryN (node_Update n) ret)" for n by (intro keeps_rules beside_repo)
  show "keeps_beside (missing_loop now seen2 children)"
    by (induction children) (auto intro!: beside_rules keeps_option upd)
  show "keeps_beside (settle_target target now)"
    unfolding settle_target_def by (intro beside_rules upd)
qed

lemma beside_apply: "keeps_beside (applyRemoteEntries s target source req entries)"
proof -
  have "keeps_beside (apply_body s target source req entries now)" for now
    unfolding apply_body_def Let_def by (intro beside_rules beside_loops beside_repo)
  then show ?thesis unfolding applyRemoteEntries_def by (intro beside_rules beside_tx)
qed

lemma beside_mark: "keeps_beside (markTargetSyncState s target state)"
  unfolding markTargetSyncState_def by (intro beside_tx beside_rules keeps_rules beside_repo)

lemma beside_RefreshNode:
  assumes "RefreshNode s n db = (x, db')"
  shows "q db' = q db"
proof -
  have marked: "stopped_marking s n e (d, res) = (y, d') \<Longrightarrow> q d' = q d" for e res y d d'
    using beside_mark [of s n VFSNodeSyncStateError, unfolded keeps_beside_def, rule_format, of "(d, res)"]
    by (auto simp: stopped_marking_def stopped_def split: prod.splits sum.splits)
  have applied: "applyRemoteEntries s n src req es (d, res) = (y, d', res') \<Longrightarrow> q d' = q d" for src req es d res y d' res'
    using beside_apply [of s n src req es, unfolded keeps_beside_def, rule_format, of "(d, res)"] by simp
  show ?thesis
    using assms unfolding RefreshNode_def Let_def stopped_def
    by (auto split: if_splits option.splits prod.splits sum.splits
        dest!: marked applied keepsD [OF beside_repo(9)] keepsD [OF beside_steps(6)])
qed

lemma beside_RefreshPath:
  assumes "RefreshPath s p db = (x, db')"
  shows "q db' = q db"
  using assms
  by (auto simp: RefreshPath_def split: if_splits prod.splits sum.splits
      dest!: keepsD [OF beside_repo(2)] beside_RefreshNode)

end

definition beside_index :: "DB \<Rightarrow> DB" where
  "beside_index db = (core db)\<lparr>db_nodes := [], db_objects := []\<rparr>"

interpretation unindexed: beside_part beside_index
  by unfold_locales (auto simp: table_query_def same_tables_def beside_index_def core_def)

lemma beside_index_fields:
  assumes "beside_index db' = beside_index db"
  shows "db_users db' = db_users db" "db_tokens db' = db_tokens db" "db_sources db' = db_sources db"
    "db_rules db' = db_rules db" "db_shares db' = db_shares db" "db_config db' = db_config db"
    "db_now db' = db_now db" "db_audits db' = db_audits db" "db_mounts db' = db_mounts db"
    "db_trash db' = db_trash db" "db_tasks db' = db_tasks db" "db_uploads db' = db_uploads db"
    "db_tags db' = db_tags db" "db_nodetags db' = db_nodetags db" "db_ops db' = db_ops db"
    "db_collate db' = db_collate db"
  using arg_cong [OF assms, of db_users] arg_cong [OF assms, of db_tokens] arg_cong [OF assms, of db_sources]
    arg_cong [OF assms, of db_rules] arg_cong [OF assms, of db_shares] arg_cong [OF assms, of db_config]
    arg_cong [OF assms, of db_now] arg_cong [OF assms, of db_audits] arg_cong [OF assms, of db_mounts]
    arg_cong [OF assms, of db_trash] arg_cong [OF assms, of db_tasks] arg_cong [OF assms, of db_uploads]
    arg_cong [OF assms, of db_tags] arg_cong [OF assms, of db_nodetags] arg_cong [OF assms, of db_ops]
    arg_cong [OF assms, of db_collate]
  by (simp_all add: beside_index_def core_def)

end
