(* ===== verification/File_Access.thy ===== *)
theory File_Access
  imports Sync_Frame Users
begin

text \<open>
  What the file-serving services share: the short-lived file access tokens of
  \<^verbatim>\<open>file_access_token_service.go\<close>, the reading half of the \<^verbatim>\<open>FileDriver\<close> interface, and the
  helpers that sort, hide and number the items of a listing. The signer, the decoder and the
  verifier of the JWT package are parameters, as in theory \<open>Sessions\<close>.
\<close>

section \<open>File access tokens\<close>

record FileAccessClaims =
  fc_SourceID :: nat
  fc_Path :: string
  fc_Purpose :: string
  fc_Disposition :: string
  fc_TokenType :: string
  fc_IssuedAt :: gotime
  fc_NotBefore :: gotime
  fc_ExpiresAt :: gotime
  fc_ID :: string

record FileAccessTokenService =
  fat_secret :: string
  fat_SignedString :: "string \<Rightarrow> FileAccessClaims \<Rightarrow> string result"
  fat_decode :: "string \<Rightarrow> (string \<times> FileAccessClaims) result"
  fat_verify :: "string \<Rightarrow> gotime \<Rightarrow> string \<Rightarrow> unit result"

definition file_claims :: "gotime \<Rightarrow> string \<Rightarrow> nat \<Rightarrow> string \<Rightarrow> string \<Rightarrow> string \<Rightarrow> int \<Rightarrow> FileAccessClaims" where
  "file_claims now uuid sourceID path purpose disposition ttl =
     \<lparr>fc_SourceID = sourceID, fc_Path = path, fc_Purpose = purpose, fc_Disposition = disposition,
      fc_TokenType = ''file_access'', fc_IssuedAt = now, fc_NotBefore = now, fc_ExpiresAt = now + ttl, fc_ID = uuid\<rparr>"

definition file_token_Issue ::
  "FileAccessTokenService \<Rightarrow> gotime \<Rightarrow> string \<Rightarrow> nat \<Rightarrow> string \<Rightarrow> string \<Rightarrow> string \<Rightarrow> int \<Rightarrow> (string \<times> gotime) result" where
  "file_token_Issue s now uuid sourceID path purpose disposition ttl =
     tryp (fat_SignedString s (fat_secret s) (file_claims now uuid sourceID path purpose disposition ttl)) (\<lambda>signed.
       Inr (signed, now + ttl))"

definition file_token_Validate :: "FileAccessTokenService \<Rightarrow> gotime \<Rightarrow> string \<Rightarrow> FileAccessClaims result" where
  "file_token_Validate s now raw =
     tryp (fat_decode s raw) (\<lambda>(alg, claims).
       if alg \<noteq> ''HS256'' then Inl (ErrOther ''unexpected signing method'')
       else tryp (fat_verify s (fat_secret s) now raw) (\<lambda>_.
         if fc_TokenType claims \<noteq> ''file_access'' then Inl (ErrOther ''invalid file access token'') else Inr claims))"

section \<open>Drivers\<close>

text \<open>
  The reading methods of a file driver. A driver is a function of the source and the path:
  its answers do not change while one request is served.
\<close>

record FileDriver =
  fd_Stat :: "StorageSource \<Rightarrow> string \<Rightarrow> StorageEntry result"
  fd_List :: "StorageSource \<Rightarrow> string \<Rightarrow> StorageEntry list result"

definition isHiddenStorageEntry :: "StorageEntry \<Rightarrow> bool" where
  "isHiddenStorageEntry entry =
     (if HasPrefix (se_Name entry) ''.trash'' \<or> HasPrefix (se_Name entry) ''.system'' then True
      else isHiddenVirtualPath (se_Path entry))"

section \<open>Sorting and paging\<close>

text \<open>
  \<^verbatim>\<open>sort.SliceStable\<close> inserts every element into the sorted part before it, from the right.
  (On more than 20 elements it merges blocks sorted so, which gives the same list whenever
  \<open>lt\<close> is a strict weak order.)
\<close>

fun ins_rev :: "('a \<Rightarrow> 'a \<Rightarrow> bool) \<Rightarrow> 'a \<Rightarrow> 'a list \<Rightarrow> 'a list" where
  "ins_rev lt x [] = [x]"
| "ins_rev lt x (y # ys) = (if lt x y then y # ins_rev lt x ys else x # y # ys)"

definition SliceStable :: "('a \<Rightarrow> 'a \<Rightarrow> bool) \<Rightarrow> 'a list \<Rightarrow> 'a list" where
  "SliceStable lt xs = rev (fold (ins_rev lt) xs [])"

text \<open>
  \<^verbatim>\<open>strings.EqualFold(s, "desc")\<close>: beside the ASCII letters only the long s (bytes C5 BF) folds
  to a letter of the word.
\<close>

definition EqualFold_desc :: "string \<Rightarrow> bool" where
  "EqualFold_desc s =
     (let t = map lower_byte s in t = ''desc'' \<or> t = ''de'' @ [CHR 0xC5, CHR 0xBF] @ ''c'')"

definition file_item_less :: "(string \<Rightarrow> string) \<Rightarrow> bool \<Rightarrow> string \<Rightarrow> FileItem \<Rightarrow> FileItem \<Rightarrow> bool" where
  "file_item_less uni desc sortBy a b =
     (if fi_IsDir a \<noteq> fi_IsDir b then fi_IsDir a
      else
        let lt = (if sortBy = ''size'' then fi_Size a < fi_Size b
                    else if sortBy = ''name'' then ToLower uni (fi_Name a) < ToLower uni (fi_Name b)
                    else fi_ModifiedAt a < fi_ModifiedAt b)
        in if desc then \<not> lt else lt)"

definition sortFileItems :: "(string \<Rightarrow> string) \<Rightarrow> FileItem list \<Rightarrow> string \<Rightarrow> string \<Rightarrow> FileItem list" where
  "sortFileItems uni items sortBy sortOrder =
     SliceStable (file_item_less uni (EqualFold_desc sortOrder) (if sortBy = [] then ''modified_at'' else sortBy)) items"

definition pageValue :: "int \<Rightarrow> int" where
  "pageValue page = (if page \<le> 0 then 1 else page)"

definition pageSizeValue :: "int \<Rightarrow> int" where
  "pageSizeValue pageSize = (if pageSize \<le> 0 then 200 else pageSize)"

text \<open>\<^verbatim>\<open>url.QueryEscape\<close>\<close>

definition hex_digit :: "nat \<Rightarrow> char" where
  "hex_digit n = ''0123456789ABCDEF'' ! n"

definition query_byte :: "char \<Rightarrow> string" where
  "query_byte c =
     (let n = of_char c :: nat
      in if (48 \<le> n \<and> n \<le> 57) \<or> (65 \<le> n \<and> n \<le> 90) \<or> (97 \<le> n \<and> n \<le> 122) \<or> c \<in> set ''-_.~'' then [c]
         else if c = CHR '' '' then ''+''
         else [CHR ''%'', hex_digit (n div 16), hex_digit (n mod 16)])"

definition QueryEscape :: "string \<Rightarrow> string" where
  "QueryEscape s = concat (map query_byte s)"

section \<open>Facts on sorting\<close>

lemma ins_rev_mset: "mset (ins_rev lt x ys) = add_mset x (mset ys)"
  by (induction ys) auto

lemma SliceStable_mset [simp]: "mset (SliceStable lt xs) = mset xs"
proof -
  have "mset (fold (ins_rev lt) xs acc) = mset xs + mset acc" for acc
    by (induction xs arbitrary: acc) (auto simp: ins_rev_mset)
  then show ?thesis by (simp add: SliceStable_def)
qed

lemma SliceStable_set [simp]: "set (SliceStable lt xs) = set xs"
  using SliceStable_mset [of lt xs] by (metis set_mset_mset)

text \<open>For a strict weak order the result is the stable sort of the list.\<close>

lemma ins_rev_set [simp]: "set (ins_rev lt x ys) = insert x (set ys)"
  by (induction ys) auto

lemma ins_rev_sorted:
  assumes asym: "\<And>a b. lt a b \<Longrightarrow> \<not> lt b a" and neg: "\<And>a b c. lt a c \<Longrightarrow> lt a b \<or> lt b c"
    and "sorted_wrt (\<lambda>a b. \<not> lt a b) ys"
  shows "sorted_wrt (\<lambda>a b. \<not> lt a b) (ins_rev lt x ys)"
  using assms(3)
proof (induction ys)
  case (Cons y ys)
  have "\<not> lt x z" if "z \<in> set ys" "\<not> lt x y" for z using neg [of x z y] Cons.prems that by auto
  then show ?case using Cons asym by auto
qed simp

lemma ins_rev_stable:
  assumes neg: "\<And>a b. lt a b \<Longrightarrow> \<not> (E a \<and> E b)"
  shows "filter E (ins_rev lt x ys) = (if E x then [x] else []) @ filter E ys"
  by (induction ys) (auto dest: neg)

lemma SliceStable_sorted:
  assumes asym: "\<And>a b. lt a b \<Longrightarrow> \<not> lt b a" and neg: "\<And>a b c. lt a c \<Longrightarrow> lt a b \<or> lt b c"
  shows "sorted_wrt (\<lambda>a b. \<not> lt b a) (SliceStable lt xs)"
proof -
  have "sorted_wrt (\<lambda>a b. \<not> lt a b) acc \<Longrightarrow> sorted_wrt (\<lambda>a b. \<not> lt a b) (fold (ins_rev lt) xs acc)" for acc
    by (induction xs arbitrary: acc) (auto intro!: ins_rev_sorted [of lt, OF asym neg])
  then show ?thesis by (simp add: SliceStable_def sorted_wrt_rev)
qed

lemma SliceStable_stable:
  assumes "\<And>a b. lt a b \<Longrightarrow> \<not> (E a \<and> E b)"
  shows "filter E (SliceStable lt xs) = filter E xs"
proof -
  have "filter E (fold (ins_rev lt) xs acc) = rev (filter E xs) @ filter E acc" for acc
    by (induction xs arbitrary: acc) (auto simp: ins_rev_stable [OF assms])
  then show ?thesis by (simp add: SliceStable_def rev_filter [symmetric])
qed

end
