(* ===== verification/Share.thy ===== *)
theory Share
  imports ACL_Service File_Access
begin

text \<open>
  Share links: \<^verbatim>\<open>share_service.go\<close> with \<^verbatim>\<open>share_repo_impl.go\<close>. The owner of a share creates,
  lists, changes and deletes it; anyone who holds its token opens it, which gives the page of
  a directory or the address of a download with a file access token.
\<close>

section \<open>Share repository\<close>

definition share_setID :: "nat \<Rightarrow> ShareLink \<Rightarrow> ShareLink" where
  "share_setID i r = r\<lparr>share_ID := i\<rparr>"

definition share_stamp :: "gotime \<Rightarrow> ShareLink \<Rightarrow> ShareLink" where
  "share_stamp now r =
     r\<lparr>share_CreatedAt := (if share_CreatedAt r = 0 then now else share_CreatedAt r),
       share_UpdatedAt := (if share_UpdatedAt r = 0 then now else share_UpdatedAt r)\<rparr>"

text \<open>The map of \<^verbatim>\<open>Update\<close> names all columns but the key and the creation time.\<close>

definition share_merge :: "gotime \<Rightarrow> ShareLink \<Rightarrow> ShareLink \<Rightarrow> ShareLink" where
  "share_merge now old new = new\<lparr>share_ID := share_ID old, share_CreatedAt := share_CreatedAt old\<rparr>"

definition share_clash :: "ShareLink \<Rightarrow> ShareLink \<Rightarrow> bool" where
  "share_clash x r \<longleftrightarrow> share_Token x = share_Token r"

definition share_Create :: "ShareLink \<Rightarrow> (DB, ShareLink) handler" where
  "share_Create share db =
     insert_row ''share_links'' db_shares db_shares_update share_ID share_setID share_clash
       (share_stamp (db_now db) share) db"

definition share_FindByID :: "nat \<Rightarrow> (DB, ShareLink) handler" where
  "share_FindByID i = find_row db_shares (\<lambda>r. share_ID r = i)"

definition share_FindByToken :: "string \<Rightarrow> (DB, ShareLink) handler" where
  "share_FindByToken token = find_row db_shares (\<lambda>r. share_Token r = token)"

definition share_order :: "ShareLink list \<Rightarrow> ShareLink list" where
  "share_order rows = sort_key (\<lambda>r. (- share_CreatedAt r, - int (share_ID r))) rows"

definition share_ListAll :: "(DB, ShareLink list) handler" where
  "share_ListAll = select_rows (\<lambda>db. share_order (db_shares db))"

definition share_ListByUser :: "nat \<Rightarrow> (DB, ShareLink list) handler" where
  "share_ListByUser userID = select_rows (\<lambda>db. share_order (filter (\<lambda>r. share_UserID r = userID) (db_shares db)))"

text \<open>\<^verbatim>\<open>Update\<close> reads the row back with \<^verbatim>\<open>findInto\<close>.\<close>

definition share_Update :: "ShareLink \<Rightarrow> (DB, ShareLink) handler" where
  "share_Update share =
     tryM (update_row db_shares db_shares_update share_ID share_merge share_clash share) (\<lambda>_.
       share_FindByID (share_ID share))"

definition share_Delete :: "nat \<Rightarrow> (DB, unit) handler" where
  "share_Delete i = delete_row db_shares db_shares_update share_ID i"

section \<open>Requests, views and service\<close>

record CreateShareRequest =
  sr_VFSNodeID :: nat
  sr_TargetVFSNodeID :: nat
  sr_SourceID :: nat
  sr_Path :: string
  sr_ExpiresIn :: int
  sr_Password :: string

record UpdateShareRequest =
  su_ExpiresIn :: "int option"
  su_Password :: "string option"

record ShareView =
  sv_ID :: nat
  sv_SourceID :: nat
  sv_Path :: string
  sv_TargetVFSNodeID :: nat
  sv_TargetVirtualPath :: string
  sv_ResolvedSourceID :: nat
  sv_ResolvedInnerPath :: string
  sv_Name :: string
  sv_IsDir :: bool
  sv_Link :: string
  sv_HasPassword :: bool
  sv_ExpiresAt :: "string option"
  sv_CreatedAt :: string

record PublicShareEntry =
  pe_Name :: string
  pe_Path :: string
  pe_ParentPath :: string
  pe_IsDir :: bool
  pe_PreviewType :: string
  pe_Size :: int
  pe_MimeType :: string
  pe_Extension :: string
  pe_ModifiedAt :: string
  pe_CreatedAt :: string
  pe_CanPreview :: bool
  pe_CanDownload :: bool
  pe_ThumbnailURL :: "string option"

record PublicShareCurrentDir =
  cd_Name :: string
  cd_Path :: string
  cd_ParentPath :: string
  cd_IsRoot :: bool

record PublicShareBreadcrumb =
  bc_Name :: string
  bc_Path :: string

record PublicSharePagination =
  pg_Page :: int
  pg_PageSize :: int
  pg_Total :: int
  pg_TotalPages :: int

record PublicShareOpenResponse =
  po_Share :: ShareView
  po_CurrentPath :: string
  po_CurrentDir :: PublicShareCurrentDir
  po_Breadcrumbs :: "PublicShareBreadcrumb list"
  po_Pagination :: PublicSharePagination
  po_Items :: "PublicShareEntry list"

text \<open>The two results of \<^verbatim>\<open>Open\<close>: a redirect or the data of a directory.\<close>

datatype ShareOpenResult = RedirectURL string | Data PublicShareOpenResponse

text \<open>
  Of the node of a target only its number is read. Its source is never nil: every branch that
  builds a target has read the source before.
\<close>

record shareTargetResolution =
  st_NodeID :: "nat option"
  st_Source :: StorageSource
  st_VirtualPath :: string
  st_InnerPath :: string
  st_Name :: string
  st_IsDir :: bool
  st_NodeFirst :: bool

text \<open>
  \<open>shs_Stat\<close> and \<open>shs_ReadDir\<close> read the files of the server; \<open>shs_unmarshal\<close> reads the
  configuration of a local source.
\<close>

record ShareService =
  shs_aclAuthorizer :: "(DB \<Rightarrow> ACLAuthorizer) option"
  shs_Hash :: "string \<Rightarrow> string result"
  shs_Compare :: "string \<Rightarrow> string \<Rightarrow> bool"
  shs_fileAccessTokens :: FileAccessTokenService
  shs_fileDrivers :: "string \<Rightarrow> FileDriver option"
  shs_metadataReader :: "MetadataVFSService option"
  shs_metadataRefresh :: "MetadataVFSSyncService option"
  shs_auditRecorder :: "Recorder option"
  shs_env :: GoEnv
  shs_unmarshal :: "string \<Rightarrow> string result"
  shs_Stat :: "string \<Rightarrow> fs_node result"
  shs_ReadDir :: "string \<Rightarrow> (string \<times> bool \<times> fs_node result) list result"

definition toShareView :: "GoEnv \<Rightarrow> ShareLink \<Rightarrow> ShareView" where
  "toShareView env share =
     \<lparr>sv_ID = share_ID share, sv_SourceID = share_SourceID share, sv_Path = share_Path share,
      sv_TargetVFSNodeID = share_TargetVFSNodeID share, sv_TargetVirtualPath = share_TargetVirtualPath share,
      sv_ResolvedSourceID = share_ResolvedSourceID share, sv_ResolvedInnerPath = share_ResolvedInnerPath share,
      sv_Name = share_Name share, sv_IsDir = share_IsDir share, sv_Link = path_Join [''/s'', share_Token share],
      sv_HasPassword = (share_PasswordHash share \<noteq> None),
      sv_ExpiresAt = map_option (env_rfc3339 env) (share_ExpiresAt share),
      sv_CreatedAt = env_rfc3339 env (share_CreatedAt share)\<rparr>"

definition toShareViewWithTarget :: "GoEnv \<Rightarrow> ShareLink \<Rightarrow> shareTargetResolution \<Rightarrow> ShareView" where
  "toShareViewWithTarget env share target =
     (let view = toShareView env share
      in view\<lparr>sv_SourceID := src_ID (st_Source target), sv_Path := st_InnerPath target,
           sv_TargetVFSNodeID := (case st_NodeID target of None \<Rightarrow> share_TargetVFSNodeID share | Some i \<Rightarrow> i),
           sv_TargetVirtualPath := st_VirtualPath target, sv_ResolvedSourceID := src_ID (st_Source target),
           sv_ResolvedInnerPath := st_InnerPath target,
           sv_Name := (if st_Name target \<noteq> [] then st_Name target else sv_Name view),
           sv_IsDir := st_IsDir target\<rparr>)"

definition shareAuditView :: "GoEnv \<Rightarrow> ShareLink \<Rightarrow> any_map" where
  "shareAuditView env share =
     [(''id'', PayloadNumber (FormatUint (share_ID share))), (''user_id'', PayloadNumber (FormatUint (share_UserID share))),
      (''source_id'', PayloadNumber (FormatUint (share_SourceID share))), (''path'', PayloadString (share_Path share)),
      (''target_vfs_node_id'', PayloadNumber (FormatUint (share_TargetVFSNodeID share))),
      (''target_virtual_path'', PayloadString (share_TargetVirtualPath share)),
      (''resolved_source_id'', PayloadNumber (FormatUint (share_ResolvedSourceID share))),
      (''resolved_inner_path'', PayloadString (share_ResolvedInnerPath share)),
      (''name'', PayloadString (share_Name share)), (''is_dir'', PayloadBool (share_IsDir share)),
      (''has_password'', PayloadBool (share_PasswordHash share \<noteq> None)),
      (''expires_at'', case share_ExpiresAt share of None \<Rightarrow> PayloadNil | Some t \<Rightarrow> PayloadString (env_rfc3339nano env t))]"

definition shareErrorCode :: "app_error \<Rightarrow> string" where
  "shareErrorCode err =
     (if errors_Is err ErrPermissionDenied then ''PERMISSION_DENIED''
      else if errors_Is err ErrFileNotFound then ''FILE_NOT_FOUND''
      else if errors_Is err ErrShareExpired then ''SHARE_EXPIRED''
      else if errors_Is err ErrSharePasswordRequired then ''SHARE_PASSWORD_REQUIRED''
      else if errors_Is err ErrSharePasswordInvalid then ''SHARE_PASSWORD_INVALID''
      else if errors_Is err ErrSourceDriverUnsupported then ''SOURCE_DRIVER_UNSUPPORTED''
      else if errors_Is err ErrSourceOperationUnsupported then ''SOURCE_OPERATION_UNSUPPORTED''
      else if errors_Is err ErrPathInvalid then ''PATH_INVALID''
      else ''INTERNAL_ERROR'')"

section \<open>Paths of a share\<close>

definition createShareRequestNodeID :: "CreateShareRequest \<Rightarrow> nat" where
  "createShareRequestNodeID req = (if sr_VFSNodeID req > 0 then sr_VFSNodeID req else sr_TargetVFSNodeID req)"

definition isWithinShareRoot :: "string \<Rightarrow> string \<Rightarrow> bool" where
  "isWithinShareRoot rootPath targetPath =
     (if rootPath = ''/'' then HasPrefix targetPath ''/''
      else if targetPath = rootPath then True
      else HasPrefix targetPath (TrimSuffix rootPath ''/'' @ ''/''))"

definition normalizeShareRelativePath :: "string \<Rightarrow> string result" where
  "normalizeShareRelativePath input =
     (if input = [] then Inr ''/''
      else if \<not> HasPrefix input ''/'' then Inl ErrPathInvalid
      else if ''..'' \<in> set (Split (TrimPrefix input ''/'') CHR ''/'') then Inl ErrPathInvalid
      else normalizeVirtualPath input)"

definition resolveShareTargetPath :: "string \<Rightarrow> string \<Rightarrow> (string \<times> string) result" where
  "resolveShareTargetPath shareRootPath requestedPath =
     tryp (normalizeVirtualPath shareRootPath) (\<lambda>rootPath.
     tryp (normalizeShareRelativePath requestedPath) (\<lambda>relativePath.
       if relativePath = ''/'' then Inr (rootPath, relativePath)
       else
         let actualPath = (if rootPath = ''/'' then relativePath else path_Join [rootPath, TrimPrefix relativePath ''/''])
         in if \<not> isWithinShareRoot rootPath actualPath then Inl ErrPathInvalid
            else Inr (actualPath, relativePath)))"

definition shareInnerPathForSource :: "StorageSource \<Rightarrow> string \<Rightarrow> string result" where
  "shareInnerPathForSource source virtualPath =
     tryp (normalizeVirtualPath virtualPath) (\<lambda>normalizedPath.
     tryp (normalizeMountPath (src_MountPath source)) (\<lambda>mountPath.
       if \<not> isSubPath mountPath normalizedPath then Inl ErrFileNotFound
       else if mountPath = ''/'' then Inr normalizedPath
       else
         let innerPath = TrimPrefix normalizedPath mountPath
         in if innerPath = [] then Inr ''/''
            else normalizeVirtualPath (if \<not> HasPrefix innerPath ''/'' then ''/'' @ innerPath else innerPath)))"

definition publicShareRelativePath :: "string \<Rightarrow> string \<Rightarrow> string" where
  "publicShareRelativePath shareRootPath actualPath =
     (let trimmedRoot = TrimSuffix shareRootPath ''/'';
          root = (if trimmedRoot = [] then ''/'' else trimmedRoot)
      in if root = ''/'' then actualPath
         else
           let relative = TrimPrefix actualPath root
           in if relative = [] then ''/''
              else if \<not> HasPrefix relative ''/'' then ''/'' @ relative
              else relative)"

definition publicShareParentPath :: "string \<Rightarrow> string" where
  "publicShareParentPath relativePath = (let parent = path_Dir relativePath in if parent = ''.'' then ''/'' else parent)"

definition buildPublicShareCurrentDir :: "string \<Rightarrow> string \<Rightarrow> PublicShareCurrentDir" where
  "buildPublicShareCurrentDir rootName currentPath =
     (if currentPath = ''/''
      then \<lparr>cd_Name = rootName, cd_Path = ''/'', cd_ParentPath = ''/'', cd_IsRoot = True\<rparr>
      else \<lparr>cd_Name = path_Base currentPath, cd_Path = currentPath,
             cd_ParentPath = publicShareParentPath currentPath, cd_IsRoot = False\<rparr>)"

fun breadcrumb_loop :: "string \<Rightarrow> string list \<Rightarrow> PublicShareBreadcrumb list" where
  "breadcrumb_loop current [] = []"
| "breadcrumb_loop current (segment # segments) =
     (if segment = [] then breadcrumb_loop current segments
      else
        let next = current @ ''/'' @ segment
        in \<lparr>bc_Name = segment, bc_Path = next\<rparr> # breadcrumb_loop next segments)"

definition buildPublicShareBreadcrumbs :: "string \<Rightarrow> string \<Rightarrow> PublicShareBreadcrumb list" where
  "buildPublicShareBreadcrumbs rootName currentPath =
     \<lparr>bc_Name = rootName, bc_Path = ''/''\<rparr> #
       (if currentPath = ''/'' then [] else breadcrumb_loop [] (Split (TrimPrefix currentPath ''/'') CHR ''/''))"

section \<open>Public entries\<close>

definition isHiddenPublicShareEntryName :: "string \<Rightarrow> bool" where
  "isHiddenPublicShareEntryName name \<longleftrightarrow> HasPrefix name ''.trash'' \<or> HasPrefix name ''.system''"

definition publicSharePreviewTypeFromParts :: "bool \<Rightarrow> string \<Rightarrow> string" where
  "publicSharePreviewTypeFromParts isDir mimeType =
     (if isDir then ''directory''
      else if HasPrefix mimeType ''image/'' then ''image''
      else if HasPrefix mimeType ''video/'' then ''video''
      else if HasPrefix mimeType ''audio/'' then ''audio''
      else if mimeType = ''application/pdf'' then ''pdf''
      else if HasSuffix mimeType ''json'' then ''json''
      else if HasPrefix mimeType ''text/'' then ''text''
      else ''binary'')"

definition publicSharePreviewType :: "FileItem \<Rightarrow> string" where
  "publicSharePreviewType item =
     (if fi_IsDir item then ''directory'' else publicSharePreviewTypeFromParts False (fi_MimeType item))"

definition public_entry_of_file :: "string \<Rightarrow> FileItem \<Rightarrow> PublicShareEntry" where
  "public_entry_of_file shareRootPath item =
     (let relativePath = publicShareRelativePath shareRootPath (fi_Path item)
      in \<lparr>pe_Name = fi_Name item, pe_Path = relativePath, pe_ParentPath = publicShareParentPath relativePath,
          pe_IsDir = fi_IsDir item, pe_PreviewType = publicSharePreviewType item, pe_Size = fi_Size item,
          pe_MimeType = fi_MimeType item, pe_Extension = fi_Extension item, pe_ModifiedAt = fi_ModifiedAt item,
          pe_CreatedAt = fi_CreatedAt item, pe_CanPreview = fi_CanPreview item, pe_CanDownload = fi_CanDownload item,
          pe_ThumbnailURL = fi_ThumbnailURL item\<rparr>)"

definition toPublicShareEntries :: "FileItem list \<Rightarrow> string \<Rightarrow> PublicShareEntry list" where
  "toPublicShareEntries items shareRootPath =
     map (public_entry_of_file shareRootPath) (filter (\<lambda>item. \<not> isHiddenPublicShareEntryName (fi_Name item)) items)"

definition isUnavailablePublicShareVFSItem :: "VFSItem \<Rightarrow> bool" where
  "isUnavailablePublicShareVFSItem item \<longleftrightarrow>
     vi_SyncState item \<in> set [VFSNodeSyncStateMissing, VFSNodeSyncStateError, VFSNodeSyncStatePending,
       VFSNodeSyncStateSyncing, VFSNodeSyncStateConflict]"

definition public_entry_of_vfs :: "string \<Rightarrow> VFSItem \<Rightarrow> PublicShareEntry" where
  "public_entry_of_vfs shareRootPath item =
     (let isDir = (vi_EntryKind item = ''directory'');
          relativePath = publicShareRelativePath shareRootPath (vi_Path item)
      in \<lparr>pe_Name = vi_Name item, pe_Path = relativePath, pe_ParentPath = publicShareParentPath relativePath,
          pe_IsDir = isDir, pe_PreviewType = publicSharePreviewTypeFromParts isDir (vi_MimeType item),
          pe_Size = vi_Size item, pe_MimeType = vi_MimeType item, pe_Extension = vi_Extension item,
          pe_ModifiedAt = vi_ModifiedAt item, pe_CreatedAt = vi_CreatedAt item, pe_CanPreview = vi_CanPreview item,
          pe_CanDownload = vi_CanDownload item, pe_ThumbnailURL = None\<rparr>)"

definition toPublicShareEntriesFromVFSItems :: "VFSItem list \<Rightarrow> string \<Rightarrow> PublicShareEntry list" where
  "toPublicShareEntriesFromVFSItems items shareRootPath =
     map (public_entry_of_vfs shareRootPath)
       (filter (\<lambda>item. \<not> (isHiddenPublicShareEntryName (vi_Name item) \<or> isUnavailablePublicShareVFSItem item)) items)"

text \<open>\<^verbatim>\<open>strings.Compare\<close> and \<^verbatim>\<open>compareInt64\<close>\<close>

definition compare3 :: "'a :: linorder \<Rightarrow> 'a \<Rightarrow> int" where
  "compare3 left right = (if left < right then - 1 else if left > right then 1 else 0)"

definition public_entry_less ::
  "(string \<Rightarrow> string) \<Rightarrow> bool \<Rightarrow> string \<Rightarrow> PublicShareEntry \<Rightarrow> PublicShareEntry \<Rightarrow> bool" where
  "public_entry_less uni desc sortBy a b =
     (if pe_IsDir a \<noteq> pe_IsDir b then pe_IsDir a
      else
        let byName = compare3 (ToLower uni (pe_Name a)) (ToLower uni (pe_Name b));
            cmp0 = (if sortBy = ''size'' then compare3 (pe_Size a) (pe_Size b)
                    else if sortBy = ''name'' then byName
                    else compare3 (pe_ModifiedAt a) (pe_ModifiedAt b));
            cmp1 = (if cmp0 = 0 then byName else cmp0);
            cmp = (if cmp1 = 0 then compare3 (pe_Path a) (pe_Path b) else cmp1)
        in if desc then cmp > 0 else cmp < 0)"

definition sortPublicShareEntries ::
  "(string \<Rightarrow> string) \<Rightarrow> PublicShareEntry list \<Rightarrow> string \<Rightarrow> string \<Rightarrow> PublicShareEntry list" where
  "sortPublicShareEntries uni entries sortBy sortOrder =
     SliceStable (public_entry_less uni (EqualFold_desc sortOrder) (if sortBy = [] then ''name'' else sortBy)) entries"

section \<open>Targets\<close>

definition share_getFileDriver :: "ShareService \<Rightarrow> string \<Rightarrow> FileDriver result" where
  "share_getFileDriver s driverType =
     (case shs_fileDrivers s driverType of None \<Rightarrow> Inl ErrSourceDriverUnsupported | Some d \<Rightarrow> Inr d)"

definition not_exist :: "app_error \<Rightarrow> app_error" where
  "not_exist err = (if errors_Is err ErrNotExist then ErrFileNotFound else err)"

definition inspectTarget :: "ShareService \<Rightarrow> StorageSource \<Rightarrow> string \<Rightarrow> (string \<times> string \<times> bool) result" where
  "inspectTarget s source pathValue =
     tryp (normalizeVirtualPath pathValue) (\<lambda>virtualPath.
       if src_DriverType source \<noteq> ''local'' then
         tryp (share_getFileDriver s (src_DriverType source)) (\<lambda>driver.
         if_errp (fd_Stat driver source virtualPath) (\<lambda>err. Inl (not_exist err)) (\<lambda>entry.
           Inr (virtualPath, se_Name entry, se_IsDir entry)))
       else
         tryp (resolvePhysicalPath (shs_unmarshal s) source virtualPath) (\<lambda>(_, physicalPath).
         if_errp (shs_Stat s physicalPath) (\<lambda>err. Inl (not_exist err)) (\<lambda>info.
           Inr (virtualPath, path_Base physicalPath, node_IsDir info))))"

definition shareTargetSourceByID :: "nat \<Rightarrow> (DB, StorageSource) handler" where
  "shareTargetSourceByID sourceID =
     if_err (src_FindByID sourceID)
       (\<lambda>err. if errors_Is err ErrNotFound then throw ErrFileNotFound else throw err) ret"

definition refresh_call :: "MetadataVFSSyncService \<Rightarrow> string \<Rightarrow> (DB, unit) handler" where
  "refresh_call rf p db =
     (case RefreshPath rf p db of
        ((_, None), db') \<Rightarrow> (Inr (), db')
      | ((_, Some err), db') \<Rightarrow> (if errors_Is err ErrVFSSyncConflict then Inr () else Inl err, db'))"

definition refreshShareMetadataPath :: "ShareService \<Rightarrow> string \<Rightarrow> (DB, unit) handler" where
  "refreshShareMetadataPath s virtualPath =
     (case shs_metadataReader s of
        None \<Rightarrow> ret ()
      | Some rd \<Rightarrow>
          (case shs_metadataRefresh s of
             None \<Rightarrow> ret ()
           | Some rf \<Rightarrow>
               if_err (ResolveNode rd virtualPath) (\<lambda>_. ret ()) (\<lambda>node.
                 case node_SourceID node of None \<Rightarrow> ret () | Some _ \<Rightarrow> refresh_call rf (node_Path node))))"

fun refresh_ancestors :: "ShareService \<Rightarrow> string \<Rightarrow> string list \<Rightarrow> (DB, unit) handler" where
  "refresh_ancestors s current [] = ret ()"
| "refresh_ancestors s current (segment # segments) =
     (let next = joinVirtualPath current segment
      in tryM (refreshShareMetadataPath s next) (\<lambda>_. refresh_ancestors s next segments))"

definition refreshShareTargetMetadata :: "ShareService \<Rightarrow> string \<Rightarrow> (DB, unit) handler" where
  "refreshShareTargetMetadata s targetVirtualPath =
     (case shs_metadataRefresh s of
        None \<Rightarrow> ret ()
      | Some _ \<Rightarrow>
          let segments = Split (Trim_slashes (TrimSpace targetVirtualPath)) CHR ''/''
          in if length segments \<le> 1 then refreshShareMetadataPath s ''/''
             else refresh_ancestors s ''/'' (butlast segments))"

definition resolveShareTargetVFSNodeID :: "ShareService \<Rightarrow> string \<Rightarrow> (DB, nat) handler" where
  "resolveShareTargetVFSNodeID s targetVirtualPath =
     (case shs_metadataReader s of
        None \<Rightarrow> ret 0
      | Some rd \<Rightarrow>
          tryM (lift (normalizeVirtualPath targetVirtualPath)) (\<lambda>normalizedPath.
          tryM (if_err (refreshShareTargetMetadata s normalizedPath) (\<lambda>e. ret (Some e)) (\<lambda>_. ret None)) (\<lambda>refreshErr.
          if_err (ResolveNode rd normalizedPath)
            (\<lambda>err. throw (ErrJoin ErrMetadataVFSCommitFailed (case refreshErr of None \<Rightarrow> err | Some e \<Rightarrow> e)))
            (\<lambda>node. ret (node_ID node)))))"

definition shareTargetFromNode :: "VFSNode \<Rightarrow> (DB, shareTargetResolution) handler" where
  "shareTargetFromNode node =
     (case node_SourceID node of
        None \<Rightarrow> throw ErrFileNotFound
      | Some sourceID \<Rightarrow>
          if metadataVFSNodeUnavailable node then throw ErrFileNotFound
          else
            tryM (shareTargetSourceByID sourceID) (\<lambda>source.
            tryM (lift (shareInnerPathForSource source (node_Path node))) (\<lambda>innerPath.
              ret \<lparr>st_NodeID = Some (node_ID node), st_Source = source, st_VirtualPath = node_Path node,
                   st_InnerPath = innerPath,
                   st_Name = (if node_Name node = [] \<and> node_Path node \<noteq> ''/'' then path_Base (node_Path node)
                              else node_Name node),
                   st_IsDir = metadataVFSNodeIsDirectory node, st_NodeFirst = True\<rparr>)))"


definition resolveCreateShareTarget :: "ShareService \<Rightarrow> CreateShareRequest \<Rightarrow> (DB, shareTargetResolution) handler" where
  "resolveCreateShareTarget s req =
     (let nodeID = createShareRequestNodeID req
      in if nodeID > 0 then
           (case shs_metadataReader s of
              None \<Rightarrow> throw ErrFileNotFound
            | Some rd \<Rightarrow>
                if_err (ResolveNodeByID rd nodeID) (\<lambda>_. throw ErrFileNotFound) (\<lambda>node.
                  if metadataVFSNodeUnavailable node then throw ErrFileNotFound else shareTargetFromNode node))
         else if sr_SourceID req = 0 \<or> TrimSpace (sr_Path req) = [] then throw ErrPathInvalid
         else
           tryM (src_FindByID (sr_SourceID req)) (\<lambda>source.
           tryM (lift (inspectTarget s source (sr_Path req))) (\<lambda>(innerPath, name, isDir).
             let merged = mergeMountAndInnerPath (src_MountPath source) innerPath;
                 targetVirtualPath = (if merged = [] then innerPath else merged)
             in tryM (resolveShareTargetVFSNodeID s targetVirtualPath) (\<lambda>targetVFSNodeID.
                  ret \<lparr>st_NodeID = (if targetVFSNodeID > 0 then Some targetVFSNodeID else None), st_Source = source,
                       st_VirtualPath = targetVirtualPath, st_InnerPath = innerPath, st_Name = name, st_IsDir = isDir,
                       st_NodeFirst = (targetVFSNodeID > 0)\<rparr>))))"

definition resolveShareTargetNode :: "ShareService \<Rightarrow> ShareLink \<Rightarrow> (DB, VFSNode option) handler" where
  "resolveShareTargetNode s share =
     (case shs_metadataReader s of
        None \<Rightarrow> ret None
      | Some rd \<Rightarrow>
          if share_TargetVFSNodeID share > 0 then
            if_err (ResolveNodeByID rd (share_TargetVFSNodeID share)) (\<lambda>_. throw ErrFileNotFound) (\<lambda>node.
              if metadataVFSNodeUnavailable node then throw ErrFileNotFound else ret (Some node))
          else
            tryM (if TrimSpace (share_TargetVirtualPath share) = [] then
                    tryM (shareTargetSourceByID (share_SourceID share)) (\<lambda>source.
                      ret (mergeMountAndInnerPath (src_MountPath source) (share_Path share)))
                  else ret (share_TargetVirtualPath share)) (\<lambda>targetVirtualPath.
            if TrimSpace targetVirtualPath = [] then throw ErrPathInvalid
            else
              tryM (lift (normalizeVirtualPath targetVirtualPath)) (\<lambda>normalizedPath.
              tryM (refreshShareTargetMetadata s normalizedPath) (\<lambda>_.
              if_err (ResolveNode rd normalizedPath) (\<lambda>_. ret None) (\<lambda>node.
                if metadataVFSNodeUnavailable node then throw ErrFileNotFound else ret (Some node))))))"

definition resolveLegacyShareTarget :: "ShareService \<Rightarrow> ShareLink \<Rightarrow> (DB, shareTargetResolution) handler" where
  "resolveLegacyShareTarget s share =
     (let sourceID = (if share_ResolvedSourceID share = 0 then share_SourceID share else share_ResolvedSourceID share)
      in tryM (shareTargetSourceByID sourceID) (\<lambda>source.
           let innerPath = (if TrimSpace (share_ResolvedInnerPath share) = [] then share_Path share
                            else share_ResolvedInnerPath share)
           in tryM (lift (inspectTarget s source innerPath)) (\<lambda>(virtualPath, name, isDir).
                let target0 = (if TrimSpace (share_TargetVirtualPath share) = []
                               then mergeMountAndInnerPath (src_MountPath source) virtualPath
                               else share_TargetVirtualPath share);
                    target = (if TrimSpace target0 = [] then virtualPath else target0)
                in ret \<lparr>st_NodeID = None, st_Source = source, st_VirtualPath = target, st_InnerPath = virtualPath,
                        st_Name = name, st_IsDir = isDir, st_NodeFirst = False\<rparr>)))"

definition resolveShareTarget :: "ShareService \<Rightarrow> ShareLink \<Rightarrow> (DB, shareTargetResolution) handler" where
  "resolveShareTarget s share =
     tryM (resolveShareTargetNode s share) (\<lambda>node.
       case node of Some n \<Rightarrow> shareTargetFromNode n | None \<Rightarrow> resolveLegacyShareTarget s share)"

definition resolveSharePathTarget ::
  "ShareService \<Rightarrow> shareTargetResolution \<Rightarrow> string \<Rightarrow> (DB, shareTargetResolution) handler" where
  "resolveSharePathTarget s root targetVirtualPath =
     tryM (lift (normalizeVirtualPath targetVirtualPath)) (\<lambda>normalizedPath.
       if \<not> isWithinShareRoot (st_VirtualPath root) normalizedPath then throw ErrPathInvalid
       else
         let direct =
               tryM (lift (shareInnerPathForSource (st_Source root) normalizedPath)) (\<lambda>innerPath.
               tryM (lift (inspectTarget s (st_Source root) innerPath)) (\<lambda>(virtualPath, name, isDir).
                 ret \<lparr>st_NodeID = None, st_Source = st_Source root, st_VirtualPath = normalizedPath,
                      st_InnerPath = virtualPath, st_Name = name, st_IsDir = isDir, st_NodeFirst = False\<rparr>))
         in if st_NodeFirst root then
              (case shs_metadataReader s of
                 None \<Rightarrow> direct
               | Some rd \<Rightarrow>
                   tryM (ignored (refreshShareMetadataPath s (parentVirtualPath normalizedPath))) (\<lambda>_.
                   if_err (ResolveNode rd normalizedPath) (\<lambda>_. throw ErrFileNotFound) (\<lambda>node.
                     if metadataVFSNodeUnavailable node then throw ErrFileNotFound else shareTargetFromNode node)))
            else direct)"

section \<open>Listing a directory\<close>

abbreviation "slice_panic \<equiv> ErrOther ''panic: slice bounds out of range''"

definition paged :: "'a list \<Rightarrow> int \<Rightarrow> int \<Rightarrow> (DB, 'a list \<times> int \<times> int) handler" where
  "paged items page pageSize =
     (case paginateItems items page pageSize of None \<Rightarrow> throw slice_panic | Some x \<Rightarrow> ret x)"

fun local_items ::
  "ShareService \<Rightarrow> StorageSource \<Rightarrow> string \<Rightarrow> (string \<times> bool \<times> fs_node result) list \<Rightarrow> FileItem list result" where
  "local_items s source actualPath [] = Inr []"
| "local_items s source actualPath ((name, _, attrs) # entries) =
     (if HasPrefix name ''.trash'' \<or> HasPrefix name ''.system'' then local_items s source actualPath entries
      else
        tryp attrs (\<lambda>info.
          let itemPath = (if actualPath = ''/'' then ''/'' @ name else path_Join [actualPath, name])
          in tryp (local_items s source actualPath entries) (\<lambda>items.
               Inr (buildFileItem (shs_env s) (src_ID source) itemPath name info # items))))"

definition share_source_items :: "ShareService \<Rightarrow> StorageSource \<Rightarrow> string \<Rightarrow> FileItem list result" where
  "share_source_items s source actualPath =
     (if src_DriverType source \<noteq> ''local'' then
        tryp (share_getFileDriver s (src_DriverType source)) (\<lambda>driver.
        if_errp (fd_List driver source actualPath) (\<lambda>err. Inl (not_exist err)) (\<lambda>entries.
          Inr (map (buildStorageEntryItem (shs_env s) (src_ID source)) (filter (\<lambda>e. \<not> isHiddenStorageEntry e) entries))))
      else
        tryp (resolvePhysicalPath (shs_unmarshal s) source actualPath) (\<lambda>(_, physicalPath).
        if_errp (shs_ReadDir s physicalPath) (\<lambda>err. Inl (not_exist err)) (\<lambda>entries.
          local_items s source actualPath entries)))"

definition listPublicDirectory ::
  "ShareService \<Rightarrow> shareTargetResolution \<Rightarrow> shareTargetResolution \<Rightarrow> string \<Rightarrow> string \<Rightarrow> int \<Rightarrow> int \<Rightarrow>
   (DB, PublicShareEntry list \<times> int \<times> int) handler" where
  "listPublicDirectory s root current sortBy sortOrder page pageSize =
     (let uni = env_uni (shs_env s);
          direct =
            tryM (lift (share_source_items s (st_Source current) (st_InnerPath current))) (\<lambda>items.
              paged (toPublicShareEntries (sortFileItems uni items sortBy sortOrder) (st_InnerPath root)) page pageSize)
      in if st_NodeFirst current then
           (case shs_metadataReader s of
              None \<Rightarrow> direct
            | Some rd \<Rightarrow>
                tryM (ignored (refreshShareMetadataPath s (st_VirtualPath current))) (\<lambda>_.
                tryM (ListChildren rd (st_VirtualPath current)) (\<lambda>resp.
                  paged (sortPublicShareEntries uni
                    (toPublicShareEntriesFromVFSItems (vl_Items resp) (st_VirtualPath root)) sortBy sortOrder)
                    page pageSize)))
         else direct)"

section \<open>Guards\<close>

definition share_currentUserID :: "Context \<Rightarrow> nat result" where
  "share_currentUserID ctx = (case ctx_auth ctx of None \<Rightarrow> Inl ErrPermissionDenied | Some auth \<Rightarrow> Inr (auth_UserID auth))"

definition authorizeShareTarget :: "ShareService \<Rightarrow> Context \<Rightarrow> shareTargetResolution \<Rightarrow> (DB, unit) handler" where
  "authorizeShareTarget s ctx target db =
     (case shs_aclAuthorizer s of
        None \<Rightarrow> (Inr (), db)
      | Some az \<Rightarrow>
          (case st_NodeID target of
             Some i \<Rightarrow>
               (AuthorizeVirtualPath (Some (az db)) (ctx_auth ctx) (src_ID (st_Source target)) (st_VirtualPath target)
                  i ACLActionShare, db)
           | None \<Rightarrow>
               (AuthorizePath (Some (az db)) (ctx_auth ctx) (src_ID (st_Source target)) (st_InnerPath target)
                  ACLActionShare, db)))"

definition authorizeShareOwnership :: "Context \<Rightarrow> ShareLink \<Rightarrow> bool \<Rightarrow> unit result" where
  "authorizeShareOwnership ctx share manage =
     (case ctx_auth ctx of
        None \<Rightarrow> Inl ErrPermissionDenied
      | Some auth \<Rightarrow>
          let allowed = (if manage then CanManageShare (auth_UserID auth) (share_UserID share) (auth_Capabilities auth)
                         else CanReadShare (auth_UserID auth) (share_UserID share) (auth_Capabilities auth))
          in if \<not> allowed then Inl ErrPermissionDenied else Inr ())"

definition ensureShareAccessible :: "ShareService \<Rightarrow> gotime \<Rightarrow> ShareLink \<Rightarrow> string \<Rightarrow> unit result" where
  "ensureShareAccessible s now share password =
     (if (case share_ExpiresAt share of None \<Rightarrow> False | Some t \<Rightarrow> now > t) then Inl ErrShareExpired
      else
        (case share_PasswordHash share of
           None \<Rightarrow> Inr ()
         | Some hash \<Rightarrow>
             if password = [] then Inl ErrSharePasswordRequired
             else if \<not> shs_Compare s hash password then Inl ErrSharePasswordInvalid
             else Inr ()))"

text \<open>
  \<^verbatim>\<open>expiresAt.Sub(now)\<close> saturates at the bounds of 64 bits, which neither comparison notices.
\<close>

definition share_token_ttl :: "gotime \<Rightarrow> gotime option \<Rightarrow> int result" where
  "share_token_ttl now expiresAt =
     (case expiresAt of
        None \<Rightarrow> Inr (5 * 60 * 10 ^ 9)
      | Some t \<Rightarrow>
          let remaining = t - now
          in if remaining \<le> 0 then Inl ErrShareExpired
             else Inr (if remaining < 5 * 60 * 10 ^ 9 then remaining else 5 * 60 * 10 ^ 9))"

definition share_download_url :: "string \<Rightarrow> string \<Rightarrow> string \<Rightarrow> string" where
  "share_download_url fileToken disposition virtualPath =
     ''/api/v2/fs/download?access_token='' @ QueryEscape fileToken @ ''&disposition='' @ QueryEscape disposition @
     ''&path='' @ QueryEscape virtualPath"

definition buildShareDownloadURL ::
  "ShareService \<Rightarrow> gotime \<Rightarrow> string \<Rightarrow> nat \<Rightarrow> string \<Rightarrow> string \<Rightarrow> string \<Rightarrow> gotime option \<Rightarrow> string result" where
  "buildShareDownloadURL s now uuid sourceID filePath virtualPath disposition0 expiresAt =
     (let disposition = (if disposition0 = [] then ''attachment'' else disposition0)
      in tryp (share_token_ttl now expiresAt) (\<lambda>tokenTTL.
         tryp (normalizeVirtualPath filePath) (\<lambda>normalizedFilePath.
         tryp (normalizeVirtualPath virtualPath) (\<lambda>normalizedVirtualPath.
         tryp (file_token_Issue (shs_fileAccessTokens s) now uuid sourceID normalizedFilePath ''share'' disposition tokenTTL)
           (\<lambda>(fileToken, _). Inr (share_download_url fileToken disposition normalizedVirtualPath))))))"


section \<open>Operations\<close>

definition ShareService_List :: "ShareService \<Rightarrow> Context \<Rightarrow> (DB, ShareView list) handler" where
  "ShareService_List s ctx =
     (case ctx_auth ctx of
        None \<Rightarrow> throw ErrPermissionDenied
      | Some auth \<Rightarrow>
          tryM (if HasCapability (auth_Capabilities auth) CapabilityShareReadAll then share_ListAll
                else share_ListByUser (auth_UserID auth)) (\<lambda>items.
            ret (map (toShareView (shs_env s)) items)))"

definition ShareService_Get :: "ShareService \<Rightarrow> Context \<Rightarrow> nat \<Rightarrow> (DB, ShareView) handler" where
  "ShareService_Get s ctx i =
     tryM (share_FindByID i) (\<lambda>share.
     tryM (lift (authorizeShareOwnership ctx share False)) (\<lambda>_.
       ret (toShareView (shs_env s) share)))"

text \<open>\<^verbatim>\<open>time.Duration(seconds) * time.Second\<close>; the product wraps.\<close>

definition expires_in :: "gotime \<Rightarrow> int \<Rightarrow> gotime option" where
  "expires_in now seconds = (if seconds > 0 then Some (now + wrap64 (seconds * 10 ^ 9)) else None)"

definition share_entity :: "nat \<Rightarrow> shareTargetResolution \<Rightarrow> string \<Rightarrow> string option \<Rightarrow> int \<Rightarrow> gotime \<Rightarrow> ShareLink" where
  "share_entity userID target token passwordHash expiresIn now =
     \<lparr>share_ID = 0, share_UserID = userID, share_SourceID = src_ID (st_Source target), share_Path = st_InnerPath target,
      share_TargetVFSNodeID = (case st_NodeID target of None \<Rightarrow> 0 | Some i \<Rightarrow> i),
      share_TargetVirtualPath = st_VirtualPath target, share_ResolvedSourceID = src_ID (st_Source target),
      share_ResolvedInnerPath = st_InnerPath target, share_Name = st_Name target, share_IsDir = st_IsDir target,
      share_Token = token, share_PasswordHash = passwordHash, share_ExpiresAt = expires_in now expiresIn,
      share_CreatedAt = now, share_UpdatedAt = now\<rparr>"

definition ShareService_Create ::
  "ShareService \<Rightarrow> Context \<Rightarrow> string \<Rightarrow> CreateShareRequest \<Rightarrow> (DB, ShareView) handler" where
  "ShareService_Create s ctx token req =
     (let audit = (\<lambda>ev k. audited (shs_auditRecorder s) ctx ev k)
      in if_err (resolveCreateShareTarget s req)
           (\<lambda>err. audit ((event ''share'' ''create'' ResultFailed (shareErrorCode err))
                     \<lparr>ev_SourceID := optionalUintPtr (sr_SourceID req)\<rparr>) (throw err)) (\<lambda>target.
         let about = (\<lambda>result code. (event ''share'' ''create'' result code)
               \<lparr>ev_SourceID := Some (src_ID (st_Source target)), ev_VirtualPath := st_VirtualPath target\<rparr>)
         in if_err (authorizeShareTarget s ctx target)
              (\<lambda>err. audit (about ResultDenied ''PERMISSION_DENIED'') (throw err)) (\<lambda>_.
            if_err (lift (share_currentUserID ctx))
              (\<lambda>err. audit (about ResultDenied ''PERMISSION_DENIED'') (throw err)) (\<lambda>userID.
            if_err (if sr_Password req \<noteq> [] then lift (map_sum id Some (shs_Hash s (sr_Password req))) else ret None)
              (\<lambda>err. audit (about ResultFailed ''INTERNAL_ERROR'') (throw err)) (\<lambda>passwordHash.
            tryM (gets db_now) (\<lambda>now.
            if_err (share_Create (share_entity userID target token passwordHash (sr_ExpiresIn req) now))
              (\<lambda>err. audit ((about ResultFailed ''INTERNAL_ERROR'')\<lparr>ev_ResourceID := encodeUintID 0\<rparr>) (throw err)) (\<lambda>share.
            audit ((about ResultSuccess [])\<lparr>ev_ResourceID := encodeUintID (share_ID share),
                     ev_After := shareAuditView (shs_env s) share\<rparr>)
              (ret (toShareView (shs_env s) share)))))))))"

definition ShareService_Update ::
  "ShareService \<Rightarrow> Context \<Rightarrow> nat \<Rightarrow> UpdateShareRequest \<Rightarrow> (DB, ShareView) handler" where
  "ShareService_Update s ctx i req =
     (let audit = (\<lambda>ev k. audited (shs_auditRecorder s) ctx (ev\<lparr>ev_ResourceID := encodeUintID i\<rparr>) k)
      in if_err (share_FindByID i)
           (\<lambda>err. audit (event ''share'' ''update'' ResultFailed ''SHARE_NOT_FOUND'') (throw err)) (\<lambda>share.
         let before = shareAuditView (shs_env s) share;
             about = (\<lambda>result code. (event ''share'' ''update'' result code)
               \<lparr>ev_SourceID := Some (share_SourceID share), ev_VirtualPath := share_TargetVirtualPath share,
                ev_Before := before\<rparr>)
         in if_err (lift (authorizeShareOwnership ctx share True))
              (\<lambda>err. audit (about ResultDenied ''PERMISSION_DENIED'') (throw err)) (\<lambda>_.
            if_err (case su_Password req of
                      None \<Rightarrow> ret share
                    | Some password \<Rightarrow>
                        if password = [] then ret (share\<lparr>share_PasswordHash := None\<rparr>)
                        else lift (map_sum id (\<lambda>hashed. share\<lparr>share_PasswordHash := Some hashed\<rparr>) (shs_Hash s password)))
              (\<lambda>err. audit (about ResultFailed ''INTERNAL_ERROR'') (throw err)) (\<lambda>share1.
            tryM (gets db_now) (\<lambda>now.
            let share2 = (case su_ExpiresIn req of
                            None \<Rightarrow> share1
                          | Some seconds \<Rightarrow> share1\<lparr>share_ExpiresAt := expires_in now seconds\<rparr>);
                changed = (su_Password req \<noteq> None \<or> su_ExpiresIn req \<noteq> None)
            in if_err (if changed then share_Update (share2\<lparr>share_UpdatedAt := now\<rparr>) else ret share2)
                 (\<lambda>err. audit (about ResultFailed ''INTERNAL_ERROR'') (throw err)) (\<lambda>stored.
               audit ((event ''share'' ''update'' ResultSuccess [])
                   \<lparr>ev_SourceID := Some (share_SourceID stored), ev_VirtualPath := share_TargetVirtualPath stored,
                    ev_Before := before, ev_After := shareAuditView (shs_env s) stored\<rparr>)
                 (ret (toShareView (shs_env s) stored))))))))"

definition ShareService_Delete :: "ShareService \<Rightarrow> Context \<Rightarrow> nat \<Rightarrow> (DB, nat \<times> bool) handler" where
  "ShareService_Delete s ctx i =
     (let audit = (\<lambda>ev k. audited (shs_auditRecorder s) ctx (ev\<lparr>ev_ResourceID := encodeUintID i\<rparr>) k)
      in if_err (share_FindByID i)
           (\<lambda>err. audit (event ''share'' ''delete'' ResultFailed ''SHARE_NOT_FOUND'') (throw err)) (\<lambda>share.
         let about = (\<lambda>result code. (event ''share'' ''delete'' result code)
               \<lparr>ev_SourceID := Some (share_SourceID share), ev_VirtualPath := share_TargetVirtualPath share,
                ev_Before := shareAuditView (shs_env s) share\<rparr>)
         in if_err (lift (authorizeShareOwnership ctx share True))
              (\<lambda>err. audit (about ResultDenied ''PERMISSION_DENIED'') (throw err)) (\<lambda>_.
            if_err (share_Delete i)
              (\<lambda>err. audit (about ResultFailed ''INTERNAL_ERROR'') (throw err)) (\<lambda>_.
            audit (about ResultSuccess []) (ret (i, True))))))"

text \<open>
  \<^verbatim>\<open>Open\<close>, with its answers for a file and for a directory as definitions of their own.
  \<open>uuid\<close> is the identifier the token service draws.
\<close>

definition open_file ::
  "ShareService \<Rightarrow> gotime \<Rightarrow> string \<Rightarrow> ShareLink \<Rightarrow> string \<Rightarrow> shareTargetResolution \<Rightarrow> (DB, ShareOpenResult) handler" where
  "open_file s now uuid share disposition target =
     tryM (lift (buildShareDownloadURL s now uuid (src_ID (st_Source target)) (st_InnerPath target)
        (st_VirtualPath target) disposition (share_ExpiresAt share))) (\<lambda>url. ret (RedirectURL url))"

definition open_directory ::
  "ShareService \<Rightarrow> ShareLink \<Rightarrow> shareTargetResolution \<Rightarrow> string \<Rightarrow> string \<Rightarrow> string \<Rightarrow> int \<Rightarrow> int \<Rightarrow>
   shareTargetResolution \<Rightarrow> (DB, ShareOpenResult) handler" where
  "open_directory s share rootTarget currentPath sortBy sortOrder page pageSize currentTarget =
     tryM (listPublicDirectory s rootTarget currentTarget sortBy sortOrder page pageSize) (\<lambda>(items, tot, totalPages).
       ret (Data
         \<lparr>po_Share = toShareViewWithTarget (shs_env s) share rootTarget, po_CurrentPath = currentPath,
          po_CurrentDir = buildPublicShareCurrentDir (st_Name rootTarget) currentPath,
          po_Breadcrumbs = buildPublicShareBreadcrumbs (st_Name rootTarget) currentPath,
          po_Pagination = \<lparr>pg_Page = pageValue page, pg_PageSize = pageSizeValue pageSize,
            pg_Total = tot, pg_TotalPages = totalPages\<rparr>,
          po_Items = items\<rparr>))"

definition ShareService_Open ::
  "ShareService \<Rightarrow> string \<Rightarrow> string \<Rightarrow> string \<Rightarrow> string \<Rightarrow> string \<Rightarrow> string \<Rightarrow> string \<Rightarrow> int \<Rightarrow> int \<Rightarrow>
   (DB, ShareOpenResult) handler" where
  "ShareService_Open s uuid token password relativePath disposition sortBy sortOrder page pageSize =
     tryM (share_FindByToken token) (\<lambda>share.
     tryM (gets db_now) (\<lambda>now.
     tryM (lift (ensureShareAccessible s now share password)) (\<lambda>_.
     tryM (resolveShareTarget s share) (\<lambda>rootTarget.
       if \<not> st_IsDir rootTarget then open_file s now uuid share disposition rootTarget
       else
         tryM (lift (resolveShareTargetPath (st_VirtualPath rootTarget) relativePath)) (\<lambda>(actualPath, currentPath).
         tryM (resolveSharePathTarget s rootTarget actualPath) (\<lambda>currentTarget.
           if \<not> st_IsDir currentTarget then open_file s now uuid share disposition currentTarget
           else open_directory s share rootTarget currentPath sortBy sortOrder page pageSize currentTarget))))))"

section \<open>Facts on the paths of a share\<close>

lemma path_trivia: "TrimPrefix p p = []" "render [] = ''/''"
  using TrimPrefix_append [of p "[]"] by (simp_all add: render_def)

lemma last_render: "nsegs ws \<Longrightarrow> ws \<noteq> [] \<Longrightarrow> last (render ws) \<noteq> CHR ''/''"
proof (induction ws rule: rev_induct)
  case (snoc w ws)
  then have "nseg w" by simp
  then have "w \<noteq> []" "CHR ''/'' \<notin> set w" by (simp_all add: nseg_def)
  moreover from this have "last w \<noteq> CHR ''/''" by (metis last_in_set)
  ultimately show ?case by (auto simp: render_snoc')
qed simp

lemma TrimSuffix_render_or_root: "nsegs ws \<Longrightarrow> TrimSuffix (render ws) ''/'' = (if ws = [] then [] else render ws)"
  using last_render [of ws] by (auto simp: go_string suffix_def render_def)

lemma within_render:
  assumes "nsegs xs" "nsegs ys"
  shows "isWithinShareRoot (render xs) (render ys) \<longleftrightarrow> prefix xs ys"
proof -
  have "isWithinShareRoot (render xs) (render ys) \<longleftrightarrow> isSubPath (render xs) (render ys)"
    using assms TrimSuffix_render_or_root [OF assms(1)]
    by (auto simp: isWithinShareRoot_def isSubPath_def normalize_render)
  then show ?thesis using assms by (simp add: isSubPath_render)
qed

lemma resolveShareTargetPath_ok:
  assumes "resolveShareTargetPath root requested = Inr (actual, rel)"
  obtains rp where "normalizeVirtualPath root = Inr rp" "normal rel"
    "normal actual" "segs_of actual = segs_of rp @ segs_of rel"
proof -
  obtain rp where rp: "normalizeVirtualPath root = Inr rp"
    and rel: "normalizeShareRelativePath requested = Inr rel"
    using assms by (auto simp: resolveShareTargetPath_def if_errp_def Let_def split: sum.splits if_splits)
  have n: "normal rp" "normal rel"
    using normalize_normal [OF rp] rel normalize_normal
    by (auto simp: normalizeShareRelativePath_def split: if_splits)
  then obtain rs ls where segs: "nsegs rs" "rp = render rs" "nsegs ls" "rel = render ls"
    by (auto simp: normal_iff)
  then have "kepts rs" by (simp add: nseg_kept)
  then have "actual = render (rs @ ls)"
    using assms rp rel join_kept [OF _ segs(3), of rs] segs
    by (auto simp: resolveShareTargetPath_def if_errp_def Let_def render_append split: if_splits)
  moreover have "nsegs (rs @ ls)" using segs by auto
  ultimately show thesis using that [OF rp n(2)] segs by (simp add: segs_of_render normal_render)
qed

lemma shareInner_ok:
  assumes "shareInnerPathForSource source vp = Inr inner"
  obtains np where "normalizeVirtualPath vp = Inr np" "normal inner" "mergeMountAndInnerPath (src_MountPath source) inner = np"
proof -
  obtain np mp where np: "normalizeVirtualPath vp = Inr np" and mp: "normalizeVirtualPath (src_MountPath source) = Inr mp"
    and sub: "isSubPath mp np"
    using assms by (auto simp: shareInnerPathForSource_def normalizeMountPath_def if_errp_def split: sum.splits if_splits)
  obtain ns ms where segs: "nsegs ns" "np = render ns" "nsegs ms" "mp = render ms"
    using normalize_normal [OF np] normalize_normal [OF mp] by (auto simp: normal_iff)
  then obtain ls where ls: "ns = ms @ ls" using sub by (auto simp: isSubPath_render prefix_def)
  have "nsegs ls" using segs ls by simp
  moreover have "inner = render ls"
    using assms np mp sub segs ls
    by (auto simp: shareInnerPathForSource_def normalizeMountPath_def if_errp_def Let_def render_append normalize_render
        path_trivia split: if_splits)
  moreover have "mergeMountAndInnerPath (src_MountPath source) inner = mergeMountAndInnerPath mp inner"
    using mp segs by (simp add: mergeMountAndInnerPath_def normalizeMountPath_def normalize_render)
  ultimately show thesis using that [OF np] segs ls by (simp add: merge_render)
qed

lemma relative_render:
  assumes "nsegs rs" "nsegs ls"
  shows "publicShareRelativePath (render rs) (render (rs @ ls)) = render ls"
proof (cases "rs = [] \<or> ls = []")
  case True
  then show ?thesis
    using assms by (auto simp: publicShareRelativePath_def TrimSuffix_render_or_root Let_def path_trivia)
next
  case False
  then show ?thesis using assms by (simp add: publicShareRelativePath_def TrimSuffix_render_or_root Let_def render_append)
qed

lemma breadcrumbs_render:
  assumes "nsegs ws"
  shows "map bc_Path (buildPublicShareBreadcrumbs name (render ws)) = map render (prefixes ws)"
proof -
  have loop: "nsegs (vs @ ws) \<Longrightarrow>
    map bc_Path (breadcrumb_loop (body vs) ws) = map (\<lambda>p. render (vs @ p)) (tl (prefixes ws))" for vs ws
  proof (induction ws arbitrary: vs)
    case (Cons w ws)
    have "map bc_Path (breadcrumb_loop (body (vs @ [w])) ws) = map (\<lambda>p. render ((vs @ [w]) @ p)) (tl (prefixes ws))"
      by (rule Cons.IH) (use Cons.prems in simp)
    then show ?case using Cons.prems by (cases ws) (simp_all add: Let_def nseg_def render_def map_tl comp_def)
  qed simp
  have "Split (TrimPrefix (render ws) ''/'') CHR ''/'' = ws" if "ws \<noteq> []"
  proof -
    have "Split (render ws) CHR ''/'' = [] # ws" using Split_render [OF assms] that by simp
    moreover obtain t where "render ws = CHR ''/'' # t" using that by (cases ws) (auto simp: render_def)
    ultimately show ?thesis by (simp add: go_string)
  qed
  then show ?thesis
    using loop [of "[]" ws] assms by (cases ws) (simp_all add: buildPublicShareBreadcrumbs_def render_def nseg_def)
qed


section \<open>Order of public entries\<close>

definition directed :: "('a \<Rightarrow> bool) \<Rightarrow> bool \<Rightarrow> ('a \<Rightarrow> 'k :: linorder) \<Rightarrow> 'a \<Rightarrow> 'a \<Rightarrow> bool" where
  "directed dir desc key a b =
     (if dir a \<noteq> dir b then dir a else if desc then key b < key a else key a < key b)"

lemma directed_weak_order:
  "directed dir desc key a b \<Longrightarrow> \<not> directed dir desc key b a"
  "directed dir desc key a c \<Longrightarrow> directed dir desc key a b \<or> directed dir desc key b c"
  by (auto simp: directed_def split: if_splits)

lemma public_entry_less_directed:
  fixes uni by_desc defines "nm \<equiv> \<lambda>e. ToLower uni (pe_Name e)"
  shows "public_entry_less uni by_desc ''size'' = directed pe_IsDir by_desc (\<lambda>e. ((pe_Size e, nm e), pe_Path e))"
    "public_entry_less uni by_desc ''name'' = directed pe_IsDir by_desc (\<lambda>e. ((nm e, nm e), pe_Path e))"
    "sortBy \<noteq> ''size'' \<Longrightarrow> sortBy \<noteq> ''name'' \<Longrightarrow>
       public_entry_less uni by_desc sortBy = directed pe_IsDir by_desc (\<lambda>e. ((pe_ModifiedAt e, nm e), pe_Path e))"
  unfolding nm_def
  by (intro ext; auto simp: public_entry_less_def directed_def Let_def compare3_def)+

lemma public_entry_weak_order:
  "public_entry_less uni desc sortBy a b \<Longrightarrow> \<not> public_entry_less uni desc sortBy b a"
  "public_entry_less uni desc sortBy a c \<Longrightarrow>
     public_entry_less uni desc sortBy a b \<or> public_entry_less uni desc sortBy b c"
  by (cases "sortBy = ''size''"; cases "sortBy = ''name''"; simp add: public_entry_less_directed;
      meson directed_weak_order)+


text \<open>The public listing of a share, however its parameters are chosen, is a permutation of its
entries in which directories come before files and no entry comes after one it should precede; entries
that the comparison does not tell apart keep their order.\<close>

lemma public_entries_sorted:
  "let sorted_entries = sortPublicShareEntries uni entries sortBy sortOrder;
       less_entry = public_entry_less uni (EqualFold_desc sortOrder) (if sortBy = [] then ''name'' else sortBy)
   in mset sorted_entries = mset entries \<and>
      sorted_wrt (\<lambda>a b. \<not> less_entry b a) sorted_entries \<and>
      sorted_entries = filter pe_IsDir sorted_entries @ filter (\<lambda>e. \<not> pe_IsDir e) sorted_entries \<and>
      (\<forall>a. filter (\<lambda>b. \<not> less_entry a b \<and> \<not> less_entry b a) sorted_entries =
            filter (\<lambda>b. \<not> less_entry a b \<and> \<not> less_entry b a) entries)"
proof -
  define lt where "lt = public_entry_less uni (EqualFold_desc sortOrder) (if sortBy = [] then ''name'' else sortBy)"
  define es where "es = sortPublicShareEntries uni entries sortBy sortOrder"
  have es: "es = SliceStable lt entries" by (simp add: es_def lt_def sortPublicShareEntries_def)
  note order = public_entry_weak_order [of uni "EqualFold_desc sortOrder" "if sortBy = [] then ''name'' else sortBy",
      folded lt_def]
  have sorted: "sorted_wrt (\<lambda>a b. \<not> lt b a) es"
    unfolding es using order by (rule SliceStable_sorted)
  then have dirs: "es = filter pe_IsDir es @ filter (\<lambda>e. \<not> pe_IsDir e) es"
  proof (induction es)
    case (Cons e es)
    have "filter pe_IsDir es = []" if "\<not> pe_IsDir e"
      using Cons.prems that by (auto simp: filter_empty_conv lt_def public_entry_less_def)
    moreover from this have "es = filter (\<lambda>e. \<not> pe_IsDir e) es" if "\<not> pe_IsDir e"
      using that by (metis (mono_tags, lifting) filter_True filter_empty_conv)
    ultimately show ?case using Cons by auto
  qed simp
  have "filter (\<lambda>b. \<not> lt a b \<and> \<not> lt b a) es = filter (\<lambda>b. \<not> lt a b \<and> \<not> lt b a) entries" for a
    unfolding es by (rule SliceStable_stable) (use order in blast)
  then show ?thesis using sorted dirs by (simp add: Let_def es_def [symmetric] lt_def [symmetric]) (simp add: es)
qed

text \<open>C30: The paths a share shows lead back to where they came from: for a normalised share root and a
normalised path at or below it, the relative path shown to the visitor is normalised, resolves against
the root to exactly that path, and its breadcrumbs are the relative path's ancestors in order, the last
one being the relative path itself.\<close>

theorem share_paths_roundtrip:
  assumes "normalizeVirtualPath root = Inr root" and "normalizeVirtualPath p = Inr p" and "isSubPath root p"
  shows "let rel = publicShareRelativePath root p
     in resolveShareTargetPath root rel = Inr (p, rel) \<and> normalizeVirtualPath rel = Inr rel \<and>
        map bc_Path (buildPublicShareBreadcrumbs name rel) = map render (prefixes (segs_of rel)) \<and>
        bc_Path (last (buildPublicShareBreadcrumbs name rel)) = rel"
proof -
  obtain rs ps where n: "nsegs rs" "root = render rs" "nsegs ps" "p = render ps"
    using assms(1,2) by (auto simp: normal_def [symmetric] normal_iff)
  then obtain ls where ls: "ps = rs @ ls" using assms(3) by (auto simp: isSubPath_render prefix_def)
  then have nl: "nsegs ls" using n by simp
  have rel: "publicShareRelativePath root p = render ls" using relative_render [OF n(1) nl] n ls by simp
  have crumbs: "map bc_Path (buildPublicShareBreadcrumbs name (render ls)) = map render (prefixes ls)"
    by (rule breadcrumbs_render [OF nl])
  have last: "bc_Path (last (buildPublicShareBreadcrumbs name (render ls))) = render ls"
    using arg_cong [OF crumbs, of last] last_map [of "buildPublicShareBreadcrumbs name (render ls)" bc_Path]
    by (simp add: last_map) (simp add: buildPublicShareBreadcrumbs_def)
  have "''..'' \<notin> set (Split (TrimPrefix (render ls) ''/'') CHR ''/'')"
  proof (cases ls)
    case (Cons w ws)
    then have "Split (TrimPrefix (render ls) ''/'') CHR ''/'' = ls"
      using Split_render [OF nl] by (simp add: render_def go_string)
    then show ?thesis using nl by (auto simp: nseg_def Contains_def)
  qed (simp add: render_def go_string)
  then have "normalizeShareRelativePath (render ls) = Inr (render ls)"
    by (simp add: normalizeShareRelativePath_def normalize_render [OF nl])
  moreover have "path_Join [render rs, TrimPrefix (render ls) ''/''] = render (rs @ ls)"
    using n(1) nl by (intro join_kept) (auto intro: nseg_kept)
  ultimately have "resolveShareTargetPath root (render ls) = Inr (p, render ls)"
    using n ls nl within_render [of rs "rs @ ls"]
    by (auto simp: resolveShareTargetPath_def normalize_render path_trivia Let_def)
  then show ?thesis using rel crumbs last nl by (simp add: Let_def normalize_render segs_of_render)
qed


theorem share_paths_roundtrip_witness:
  "normalizeVirtualPath ''/a'' = Inr ''/a'' \<and> isSubPath ''/a'' ''/a/b'' \<and>
   resolveShareTargetPath ''/a'' ''/b'' = Inr (''/a/b'', ''/b'')"
proof -
  have h: "normalizeVirtualPath ''/a'' = Inr ''/a''" "normalizeVirtualPath ''/a/b'' = Inr ''/a/b''" "isSubPath ''/a'' ''/a/b''"
    by code_simp+
  have "publicShareRelativePath ''/a'' ''/a/b'' = ''/b''" by code_simp
  then show ?thesis using share_paths_roundtrip [OF h] h by (simp add: Let_def)
qed


section \<open>Opening a share\<close>

lemma ResolveNode_beside [intro]:
  "unindexed.keeps (ResolveNode rd p)" "unindexed.keeps (ResolveNodeByID rd i)" "unindexed.keeps (ListChildren rd p)"
proof -
  show r: "unindexed.keeps (ResolveNode rd p)" for p
    unfolding ResolveNode_def by (intro unindexed.keeps_rules unindexed.beside_repo)
  show "unindexed.keeps (ResolveNodeByID rd i)"
    unfolding ResolveNodeByID_def by (intro unindexed.keeps_rules unindexed.beside_repo)
  show "unindexed.keeps (ListChildren rd p)"
    unfolding ListChildren_def by (intro unindexed.keeps_rules r unindexed.beside_repo)
qed

lemma share_source_beside [intro]: "unindexed.keeps (shareTargetSourceByID i)"
  unfolding shareTargetSourceByID_def by (intro unindexed.keeps_rules unindexed.beside_repo)

lemma shareTargetFromNode_beside [intro]: "unindexed.keeps (shareTargetFromNode n)"
  unfolding shareTargetFromNode_def by (intro unindexed.keeps_rules share_source_beside)

lemma share_refresh_beside [intro]:
  "unindexed.keeps (refreshShareMetadataPath s p)" "unindexed.keeps (refreshShareTargetMetadata s p)"
proof -
  have "unindexed.keeps (refresh_call rf p)" for rf p
    unfolding unindexed.keeps_def refresh_call_def
    by (auto dest!: unindexed.beside_RefreshPath split: prod.splits option.splits)
  then show r: "unindexed.keeps (refreshShareMetadataPath s p)" for p
    unfolding refreshShareMetadataPath_def by (intro unindexed.keeps_rules ResolveNode_beside)
  have "unindexed.keeps (refresh_ancestors s c segments)" for c segments
    by (induction segments arbitrary: c) (auto simp: Let_def intro!: unindexed.keeps_rules r)
  then show "unindexed.keeps (refreshShareTargetMetadata s p)"
    unfolding refreshShareTargetMetadata_def Let_def by (intro unindexed.keeps_rules r)
qed

lemma ignored_beside [intro]: "unindexed.keeps m \<Longrightarrow> unindexed.keeps (ignored m)"
  unfolding ignored_def by (intro unindexed.keeps_rules)

lemma resolveShareTarget_beside [intro]: "unindexed.keeps (resolveShareTarget s share)"
  unfolding resolveShareTarget_def resolveShareTargetNode_def resolveLegacyShareTarget_def Let_def
  by (intro unindexed.keeps_rules ResolveNode_beside share_source_beside share_refresh_beside shareTargetFromNode_beside)

lemma resolveSharePathTarget_beside [intro]: "unindexed.keeps (resolveSharePathTarget s root p)"
  unfolding resolveSharePathTarget_def Let_def
  by (intro unindexed.keeps_rules ResolveNode_beside ignored_beside share_refresh_beside shareTargetFromNode_beside)

lemma listPublicDirectory_beside [intro]: "unindexed.keeps (listPublicDirectory s root current sb so page ps)"
proof -
  have "unindexed.keeps (paged xs page ps)" for xs :: "'x list"
    unfolding paged_def by (intro unindexed.keeps_rules)
  then show ?thesis
    unfolding listPublicDirectory_def Let_def
    by (intro unindexed.keeps_rules ResolveNode_beside ignored_beside share_refresh_beside)
qed

lemma share_find_beside [intro]: "unindexed.keeps (share_FindByID i)" "unindexed.keeps (share_FindByToken token)"
  unfolding share_FindByID_def share_FindByToken_def by (intro unindexed.keeps_find_row table_query_tables)+


definition share_guarded :: "ShareService \<Rightarrow> gotime \<Rightarrow> string \<Rightarrow> ShareLink \<Rightarrow> bool" where
  "share_guarded s now password share \<longleftrightarrow>
     (\<forall>t. share_ExpiresAt share = Some t \<longrightarrow> now \<le> t) \<and>
     (\<forall>h. share_PasswordHash share = Some h \<longrightarrow> password \<noteq> [] \<and> shs_Compare s h password)"

lemma ensureShareAccessible_iff: "ensureShareAccessible s now share password = Inr () \<longleftrightarrow> share_guarded s now password share"
  by (cases "share_PasswordHash share"; cases "share_ExpiresAt share")
    (auto simp: ensureShareAccessible_def share_guarded_def)

text \<open>A target whose place in its source is where the tree shows it.\<close>

definition in_place :: "shareTargetResolution \<Rightarrow> bool" where
  "in_place t \<longleftrightarrow>
     normalizeVirtualPath (st_VirtualPath t) = Inr (mergeMountAndInnerPath (src_MountPath (st_Source t)) (st_InnerPath t))"

text \<open>The address of a download that does not outlive the share.\<close>

definition lasting_url :: "ShareService \<Rightarrow> gotime \<Rightarrow> string \<Rightarrow> gotime option \<Rightarrow> shareTargetResolution \<Rightarrow> string \<Rightarrow> bool" where
  "lasting_url s now uuid expiresAt t url \<longleftrightarrow>
     (\<exists>inner vp d ttl raw. normalizeVirtualPath (st_InnerPath t) = Inr inner \<and>
        normalizeVirtualPath (st_VirtualPath t) = Inr vp \<and> 0 < ttl \<and> ttl \<le> 300 * 10 ^ 9 \<and>
        (\<forall>e. expiresAt = Some e \<longrightarrow> now + ttl \<le> e) \<and>
        file_token_Issue (shs_fileAccessTokens s) now uuid (src_ID (st_Source t)) inner ''share'' d ttl = Inr (raw, now + ttl) \<and>
        url = share_download_url raw d vp)"

lemma download_lasting:
  assumes "buildShareDownloadURL s now uuid (src_ID (st_Source t)) (st_InnerPath t) (st_VirtualPath t) d expiresAt = Inr url"
  shows "lasting_url s now uuid expiresAt t url"
proof -
  define d' where "d' = (if d = [] then ''attachment'' else d)"
  obtain ttl inner vp raw e where parts: "share_token_ttl now expiresAt = Inr ttl"
    "normalizeVirtualPath (st_InnerPath t) = Inr inner" "normalizeVirtualPath (st_VirtualPath t) = Inr vp"
    "file_token_Issue (shs_fileAccessTokens s) now uuid (src_ID (st_Source t)) inner ''share'' d' ttl = Inr (raw, e)"
    "url = share_download_url raw d' vp"
    using assms by (auto simp: buildShareDownloadURL_def Let_def if_errp_def d'_def [symmetric] split: sum.splits)
  have "e = now + ttl" using parts(4) by (auto simp: file_token_Issue_def if_errp_def split: sum.splits)
  moreover have "0 < ttl \<and> ttl \<le> 300 * 10 ^ 9 \<and> (\<forall>e. expiresAt = Some e \<longrightarrow> now + ttl \<le> e)"
    using parts(1) by (auto simp: share_token_ttl_def Let_def split: option.splits if_splits)
  ultimately show ?thesis using parts unfolding lasting_url_def by blast
qed

lemma share_source_ok:
  assumes "shareTargetSourceByID i db = (Inr src, db')"
  shows "src \<in> set (db_sources db) \<and> src_ID src = i"
proof -
  obtain db2 where "src_FindByID i db = (Inr src, db2)"
    using assms unfolding shareTargetSourceByID_def
    by (cases "src_FindByID i db"; cases "fst (src_FindByID i db)") (auto simp: throw_def ret_def split: if_splits)
  then have "find (\<lambda>x. src_ID x = i) (db_sources db) = Some src"
    unfolding src_FindByID_def using table_query_tables(3) by (cases rule: find_row_cases) auto
  then show ?thesis by (auto simp: find_Some_iff)
qed

lemma shareTargetFromNode_ok:
  assumes "shareTargetFromNode n db = (Inr t, db')"
  shows "in_place t" "st_VirtualPath t = node_Path n" "st_Source t \<in> set (db_sources db)" "st_NodeFirst t"
    "node_SourceID n = Some (src_ID (st_Source t))"
proof -
  obtain i src inner db1 where t: "node_SourceID n = Some i" "shareTargetSourceByID i db = (Inr src, db1)"
    "shareInnerPathForSource src (node_Path n) = Inr inner" "st_Source t = src" "st_VirtualPath t = node_Path n"
    "st_InnerPath t = inner" "st_NodeFirst t"
    using assms by (auto simp: shareTargetFromNode_def throw_def ret_def split: option.splits if_splits elim!: tryE tryM_liftE)
  then show "st_Source t \<in> set (db_sources db)" "node_SourceID n = Some (src_ID (st_Source t))"
    using share_source_ok by auto
  show "st_VirtualPath t = node_Path n" "st_NodeFirst t" using t by auto
  show "in_place t" using t(3-6) by (auto simp: in_place_def elim!: shareInner_ok)
qed

lemma inspectTarget_path: "inspectTarget s src p = Inr (vp, name, dir) \<Longrightarrow> normalizeVirtualPath p = Inr vp"
  by (auto simp: inspectTarget_def if_errp_def Let_def split: sum.splits if_splits)

lemma resolveLegacy_ok:
  assumes "resolveLegacyShareTarget s share db = (Inr t, db')"
  shows "\<not> st_NodeFirst t \<and> st_Source t \<in> set (db_sources db) \<and>
    src_ID (st_Source t) \<in> {share_ResolvedSourceID share, share_SourceID share}"
proof -
  obtain src db1 where "shareTargetSourceByID
      (if share_ResolvedSourceID share = 0 then share_SourceID share else share_ResolvedSourceID share) db = (Inr src, db1)"
    "st_Source t = src" "\<not> st_NodeFirst t"
    using assms by (auto simp: resolveLegacyShareTarget_def Let_def ret_def elim!: tryE tryM_liftE split: prod.splits)
  then show ?thesis using share_source_ok by (auto split: if_splits)
qed

lemma resolveShareTarget_ok:
  assumes "resolveShareTarget s share db = (Inr t, db')"
  shows "st_Source t \<in> set (db_sources db) \<and> (if st_NodeFirst t then in_place t
    else src_ID (st_Source t) \<in> {share_ResolvedSourceID share, share_SourceID share})"
proof -
  obtain n db1 where n: "resolveShareTargetNode s share db = (Inr n, db1)"
    and rest: "(case n of Some n \<Rightarrow> shareTargetFromNode n | None \<Rightarrow> resolveLegacyShareTarget s share) db1 = (Inr t, db')"
    using assms unfolding resolveShareTarget_def by (elim tryE)
  have "unindexed.keeps (resolveShareTargetNode s share)"
    unfolding resolveShareTargetNode_def
    by (intro unindexed.keeps_rules ResolveNode_beside share_source_beside share_refresh_beside)
  from unindexed.keepsD [OF this n] have "db_sources db1 = db_sources db" by (rule beside_index_fields)
  then show ?thesis
    using rest shareTargetFromNode_ok [of _ db1 t db'] resolveLegacy_ok [of s share db1 t db'] by (cases n) auto
qed

text \<open>The target of a path below the root.\<close>

lemma resolveSharePathTarget_ok:
  assumes "resolveSharePathTarget s root p db = (Inr t, db')"
  shows "normalizeVirtualPath p = Inr (st_VirtualPath t) \<and> in_place t \<and> st_Source t \<in> insert (st_Source root) (set (db_sources db))"
proof -
  obtain np where np: "normalizeVirtualPath p = Inr np"
    using assms unfolding resolveSharePathTarget_def by (auto elim!: tryM_liftE)
  have normal_np: "normalizeVirtualPath np = Inr np" using normalize_normal [OF np] by (simp add: normal_def)
  have direct: ?thesis
    if run: "tryM (lift (shareInnerPathForSource (st_Source root) np)) (\<lambda>innerPath.
        tryM (lift (inspectTarget s (st_Source root) innerPath)) (\<lambda>(virtualPath, name, isDir).
          ret \<lparr>st_NodeID = None, st_Source = st_Source root, st_VirtualPath = np,
               st_InnerPath = virtualPath, st_Name = name, st_IsDir = isDir, st_NodeFirst = False\<rparr>)) db = (Inr t, db')"
  proof -
    obtain inner vp name dir where t: "shareInnerPathForSource (st_Source root) np = Inr inner"
      "inspectTarget s (st_Source root) inner = Inr (vp, name, dir)"
      "t = \<lparr>st_NodeID = None, st_Source = st_Source root, st_VirtualPath = np, st_InnerPath = vp, st_Name = name,
            st_IsDir = dir, st_NodeFirst = False\<rparr>"
      using run by (auto simp: ret_def elim!: tryM_liftE split: prod.splits)
    from t(1) obtain np' where "normalizeVirtualPath np = Inr np'" "normal inner"
      "mergeMountAndInnerPath (src_MountPath (st_Source root)) inner = np'" by (rule shareInner_ok)
    moreover from this have "vp = inner" using inspectTarget_path [OF t(2)] by (simp add: normal_def)
    ultimately show ?thesis using np normal_np t(3) by (simp add: in_place_def)
  qed
  have node: ?thesis
    if rd: "shs_metadataReader s = Some rd"
      and run: "tryM (ignored (refreshShareMetadataPath s q)) (\<lambda>_.
        if_err (ResolveNode rd np) (\<lambda>_. throw ErrFileNotFound) (\<lambda>node.
          if metadataVFSNodeUnavailable node then throw ErrFileNotFound else shareTargetFromNode node)) db = (Inr t, db')" for rd q
  proof -
    obtain n x db1 db2 where 1: "ignored (refreshShareMetadataPath s q) db = (Inr x, db1)"
      and 2: "ResolveNode rd np db1 = (Inr n, db2)" and 3: "shareTargetFromNode n db2 = (Inr t, db')"
      using run by (elim tryE) (auto simp: throw_def split: if_splits)
    have "db_sources db1 = db_sources db" "db_sources db2 = db_sources db"
      using unindexed.keepsD [OF ignored_beside [OF share_refresh_beside(1)] 1] unindexed.keepsD [OF ResolveNode_beside(1) 2]
      by (auto dest: beside_index_fields)
    then show ?thesis
      using ResolveNode_reads(2) [OF 2] shareTargetFromNode_ok [OF 3] np normal_np by auto
  qed
  show ?thesis
    using assms np direct node [of _ "parentVirtualPath np"]
    by (auto simp: resolveSharePathTarget_def throw_def Let_def lift_def if_err_def [of "\<lambda>s. (_, s)"] split: if_splits option.splits)
qed

lemma paged_sub: "paged xs page ps db = (Inr (ys, t, tp), db') \<Longrightarrow> set ys \<subseteq> set xs"
  by (auto simp: paged_def paginateItems_def Let_def throw_def ret_def dest!: in_set_takeD in_set_dropD
      split: option.splits if_splits)

lemma listing_visible:
  assumes "listPublicDirectory s root current sb so page ps db = (Inr (items, tot, pages), db')"
  shows "\<forall>e \<in> set items. \<not> isHiddenPublicShareEntryName (pe_Name e)"
proof -
  have files: "\<forall>e \<in> set (toPublicShareEntries xs p). \<not> isHiddenPublicShareEntryName (pe_Name e)" for xs p
    by (auto simp: toPublicShareEntries_def public_entry_of_file_def Let_def)
  have vfs: "\<forall>e \<in> set (sortPublicShareEntries u (toPublicShareEntriesFromVFSItems xs p) sb so).
      \<not> isHiddenPublicShareEntryName (pe_Name e)" for u xs p
    by (auto simp: sortPublicShareEntries_def toPublicShareEntriesFromVFSItems_def public_entry_of_vfs_def Let_def)
  have direct: ?thesis
    if "tryM (lift (share_source_items s (st_Source current) (st_InnerPath current))) (\<lambda>xs.
        paged (toPublicShareEntries (sortFileItems (env_uni (shs_env s)) xs sb so) (st_InnerPath root)) page ps) db =
      (Inr (items, tot, pages), db')"
    using that by (rule tryM_liftE) (use files paged_sub in blast)
  show ?thesis
  proof (cases "st_NodeFirst current \<and> shs_metadataReader s \<noteq> None")
    case True
    then obtain rd where "shs_metadataReader s = Some rd" by blast
    with True show ?thesis
      using assms unfolding listPublicDirectory_def Let_def
      by (auto elim!: tryE dest!: paged_sub) (use vfs in blast)
  next
    case False
    then show ?thesis using assms direct by (auto simp: listPublicDirectory_def Let_def split: if_splits)
  qed
qed

text \<open>What the answer to an opened share may be, given the target it resolved to.\<close>

definition confined_answer ::
  "ShareService \<Rightarrow> DB \<Rightarrow> string \<Rightarrow> string \<Rightarrow> ShareLink \<Rightarrow> shareTargetResolution \<Rightarrow> ShareOpenResult \<Rightarrow> bool" where
  "confined_answer s db uuid requested share root res =
     (case res of
        RedirectURL url \<Rightarrow>
          \<exists>target. lasting_url s (db_now db) uuid (share_ExpiresAt share) target url \<and>
            st_Source target \<in> set (db_sources db) \<and> \<not> st_IsDir target \<and>
            (target = root \<or> st_IsDir root \<and> in_place target \<and> isSubPath (st_VirtualPath root) (st_VirtualPath target))
      | Data answer \<Rightarrow>
          st_IsDir root \<and>
          (\<exists>dir. resolveShareTargetPath (st_VirtualPath root) requested = Inr (dir, po_CurrentPath answer) \<and>
             isSubPath (st_VirtualPath root) dir) \<and>
          (\<forall>e \<in> set (po_Items answer). \<not> isHiddenPublicShareEntryName (pe_Name e)))"

lemma open_file_ok:
  assumes "open_file s now uuid share disposition target db = (Inr res, db')"
  shows "db' = db \<and> (\<exists>url. res = RedirectURL url \<and> lasting_url s now uuid (share_ExpiresAt share) target url)"
  using assms unfolding open_file_def by (rule tryM_liftE) (auto simp: ret_def intro: download_lasting)

lemma open_directory_ok:
  assumes "open_directory s share root current sb so page ps target db = (Inr res, db')"
  shows "beside_index db' = beside_index db \<and> (\<exists>answer. res = Data answer \<and> po_CurrentPath answer = current \<and>
     (\<forall>e \<in> set (po_Items answer). \<not> isHiddenPublicShareEntryName (pe_Name e)))"
proof -
  obtain items tot pages db1 where 1: "listPublicDirectory s root target sb so page ps db = (Inr (items, tot, pages), db1)"
    and "db' = db1 \<and> (\<exists>answer. res = Data answer \<and> po_CurrentPath answer = current \<and> po_Items answer = items)"
    using assms unfolding open_directory_def by (rule tryE) (auto simp: ret_def)
  then show ?thesis using unindexed.keepsD [OF listPublicDirectory_beside 1] listing_visible [OF 1] by auto
qed

lemma open_below:
  assumes path: "resolveShareTargetPath (st_VirtualPath root) requested = Inr (actual, current)"
    and run: "tryM (resolveSharePathTarget s root actual) (\<lambda>target.
        if \<not> st_IsDir target then open_file s now uuid share disposition target
        else open_directory s share root current sb so page ps target) db = (Inr res, db')"
  shows "beside_index db' = beside_index db \<and> isSubPath (st_VirtualPath root) actual \<and>
    (case res of
       RedirectURL url \<Rightarrow> \<exists>target. lasting_url s now uuid (share_ExpiresAt share) target url \<and> \<not> st_IsDir target \<and>
         in_place target \<and> st_VirtualPath target = actual \<and> st_Source target \<in> insert (st_Source root) (set (db_sources db))
     | Data answer \<Rightarrow> po_CurrentPath answer = current \<and>
         (\<forall>e \<in> set (po_Items answer). \<not> isHiddenPublicShareEntryName (pe_Name e)))"
proof -
  obtain target db1 where 1: "resolveSharePathTarget s root actual db = (Inr target, db1)"
    and rest: "(if \<not> st_IsDir target then open_file s now uuid share disposition target
        else open_directory s share root current sb so page ps target) db1 = (Inr res, db')"
    using run by (rule tryE)
  have b1: "beside_index db1 = beside_index db" using resolveSharePathTarget_beside 1 by (rule unindexed.keepsD)
  obtain rp where rp: "normalizeVirtualPath (st_VirtualPath root) = Inr rp" "normal actual"
    "segs_of actual = segs_of rp @ segs_of current"
    using path by (rule resolveShareTargetPath_ok)
  have t: "st_VirtualPath target = actual" "in_place target" "st_Source target \<in> insert (st_Source root) (set (db_sources db))"
    using resolveSharePathTarget_ok [OF 1] rp(2) by (auto simp: normal_def)
  have sub: "isSubPath (st_VirtualPath root) actual"
    using rp normalize_normal [OF rp(1)] isSubPath_iff_prefix [of "st_VirtualPath root" actual] by (auto simp: normal_def)
  show ?thesis
    using rest b1 t sub by (cases "st_IsDir target") (auto dest!: open_file_ok open_directory_ok)
qed



definition sample_file_tokens :: FileAccessTokenService where
  "sample_file_tokens = \<lparr>fat_secret = ''k'', fat_SignedString = (\<lambda>_ c. Inr (fc_Path c)), fat_decode = (\<lambda>_. Inl ErrInvalid),
     fat_verify = (\<lambda>_ _ _. Inr ())\<rparr>"

definition sample_sharer :: ShareService where
  "sample_sharer = \<lparr>shs_aclAuthorizer = None, shs_Hash = Inr, shs_Compare = (=), shs_fileAccessTokens = sample_file_tokens,
     shs_fileDrivers = (\<lambda>_. None), shs_metadataReader = Some sample_service, shs_metadataRefresh = None,
     shs_auditRecorder = None, shs_env = sample_go, shs_unmarshal = Inr, shs_Stat = (\<lambda>_. Inl ErrNotExist),
     shs_ReadDir = (\<lambda>_. Inl ErrNotExist)\<rparr>"

definition sample_share :: ShareLink where
  "sample_share = \<lparr>share_ID = 1, share_UserID = 7, share_SourceID = 1, share_Path = ''/'', share_TargetVFSNodeID = 2,
     share_TargetVirtualPath = ''/m'', share_ResolvedSourceID = 1, share_ResolvedInnerPath = ''/'', share_Name = ''m'',
     share_IsDir = True, share_Token = ''t'', share_PasswordHash = Some ''p'', share_ExpiresAt = Some 11,
     share_CreatedAt = 1, share_UpdatedAt = 1\<rparr>"

definition sample_share_db :: DB where
  "sample_share_db = emptyDB\<lparr>db_sources := [sample_mount_source 1 ''/m''], db_shares := [sample_share], db_nodes :=
     [sample_node 1 None [] ''/'' VFSNodeKindRoot, sample_dir,
      (sample_node 4 (Some 2) ''g'' ''/m/g'' VFSNodeKindFile)\<lparr>node_SourceID := Some 1\<rparr>]\<rparr>"

lemma sample_open:
  "fst (ShareService_Open sample_sharer ''u'' ''t'' ''p'' ''/g'' [] [] [] 1 10 sample_share_db) =
     Inr (RedirectURL (share_download_url ''/g'' ''attachment'' ''/m/g''))"
  by code_simp



section \<open>Who may change a share\<close>

definition may_share :: "Context \<Rightarrow> string \<Rightarrow> ShareLink \<Rightarrow> bool" where
  "may_share ctx capability share \<longleftrightarrow>
     (\<exists>auth. ctx_auth ctx = Some auth \<and> (auth_UserID auth = share_UserID share \<or> capability \<in> set (auth_Capabilities auth)))"

lemma authorizeShareOwnership_cases:
  "authorizeShareOwnership ctx share manage =
     (if may_share ctx (if manage then CapabilityShareManageAll else CapabilityShareReadAll) share then Inr () else Inl ErrPermissionDenied)"
  by (cases "ctx_auth ctx")
    (auto simp: authorizeShareOwnership_def may_share_def CanManageShare_def CanReadShare_def Let_def)

lemma audited_throw_ok:
  assumes "audited r ctx ev (throw e) db = (x, db')"
  shows "x = Inl e \<and> audit_only db db'"
proof -
  obtain y db1 where 1: "recordServiceAudit r ctx ev db = (y, db1)" by force
  then show ?thesis using assms recordServiceAudit_only [OF 1] by (simp add: throw_def)
qed

lemma audited_ret_ok:
  assumes "audited r ctx ev (ret v) db = (x, db')"
  shows "x = Inr v \<and> audit_only db db'"
proof -
  obtain y db1 where 1: "recordServiceAudit r ctx ev db = (y, db1)" by force
  then show ?thesis using assms recordServiceAudit_only [OF 1] by (simp add: ret_def)
qed

lemma share_FindByID_cases:
  assumes "share_FindByID i db = (r, db')"
  obtains (found) share where "r = Inr share" "find (\<lambda>x. share_ID x = i) (db_shares db) = Some share" "same_tables db db'"
    | (lost) e where "r = Inl e" "same_tables db db'" "e = ErrNotFound \<and> (\<forall>x \<in> set (db_shares db). share_ID x \<noteq> i) \<or> db_faults db \<noteq> []"
proof -
  have "stmt f db = f db" if "db_faults db = []" for f :: "(DB, ShareLink) handler" using that by (simp add: stmt_def)
  then have quiet: "db_faults db = [] \<Longrightarrow> (\<exists>x. r = Inr x) \<or> r = Inl ErrNotFound"
    using assms by (auto simp: share_FindByID_def find_row_def split: option.splits)
  from assms [unfolded share_FindByID_def] table_query_tables(9) show thesis
    by (cases rule: find_row_cases) (use found lost quiet in auto)
qed

text \<open>The two guards every change goes through.\<close>

lemma guarded_change:
  assumes run: "if_err (share_FindByID i) (\<lambda>e. audited rc ctx ev (throw e)) (\<lambda>x.
        if_err (lift (authorizeShareOwnership ctx x True)) (\<lambda>e. audited rc ctx (ev' x) (throw e)) (\<lambda>_. k x)) db = (r, db')"
  obtains (refused) e where "r = Inl e" "audit_only db db'"
      "db_faults db = [] \<longrightarrow> (case find (\<lambda>x. share_ID x = i) (db_shares db) of None \<Rightarrow> e = ErrNotFound
         | Some share \<Rightarrow> e = ErrPermissionDenied \<and> \<not> may_share ctx CapabilityShareManageAll share)"
    | (allowed) share db1 where "find (\<lambda>x. share_ID x = i) (db_shares db) = Some share" "same_tables db db1"
      "may_share ctx CapabilityShareManageAll share" "k share db1 = (r, db')"
proof -
  obtain r1 db1 where 1: "share_FindByID i db = (r1, db1)" by force
  have to_db: "same_tables db db1 \<Longrightarrow> audit_only db1 db' \<Longrightarrow> audit_only db db'"
    using same_tables_audit_only audit_only_trans by blast
  from 1 show thesis
  proof (cases rule: share_FindByID_cases)
    case (found share)
    show thesis
    proof (cases "may_share ctx CapabilityShareManageAll share")
      case True
      then show thesis
        using run 1 found allowed by (simp add: authorizeShareOwnership_cases lift_def if_err_def)
    next
      case False
      then have "audited rc ctx (ev' share) (throw ErrPermissionDenied) db1 = (r, db')"
        using run 1 found by (simp add: authorizeShareOwnership_cases lift_def if_err_def [of "\<lambda>s. (_, s)"])
      then have "r = Inl ErrPermissionDenied" "audit_only db db'"
        using to_db [OF found(3)] by (auto dest: audited_throw_ok)
      then show thesis using refused found(2) False by simp
    qed
  next
    case (lost e)
    then have "audited rc ctx ev (throw e) db1 = (r, db')" using run 1 by simp
    then have "r = Inl e" "audit_only db db'" using to_db [OF lost(2)] by (auto dest: audited_throw_ok)
    moreover have "db_faults db = [] \<Longrightarrow> e = ErrNotFound \<and> find (\<lambda>x. share_ID x = i) (db_shares db) = None"
      using lost(3) by (auto simp: find_None_iff)
    ultimately show thesis using refused by simp
  qed
qed

text \<open>\<open>restamped share x\<close>: the row \<open>x\<close> is \<open>share\<close> up to password, expiry and time of change.\<close>

definition restamped :: "ShareLink \<Rightarrow> ShareLink \<Rightarrow> bool" where
  "restamped share x \<longleftrightarrow>
     x\<lparr>share_PasswordHash := share_PasswordHash share, share_ExpiresAt := share_ExpiresAt share,
       share_UpdatedAt := share_UpdatedAt share\<rparr> = share"

lemma restamped_same: "restamped share share"
  by (simp add: restamped_def)

lemma restamped_field:
  "restamped share x \<Longrightarrow> restamped share (x\<lparr>share_PasswordHash := h\<rparr>)"
  "restamped share x \<Longrightarrow> restamped share (x\<lparr>share_ExpiresAt := e\<rparr>)"
  "restamped share x \<Longrightarrow> restamped share (x\<lparr>share_UpdatedAt := u\<rparr>)"
  unfolding restamped_def by simp_all

lemma restamped_keeps:
  assumes "restamped share x"
  shows "share_ID x = share_ID share" "share_Token x = share_Token share" "share_UserID x = share_UserID share"
    "share_CreatedAt x = share_CreatedAt share"
  using arg_cong [OF assms [unfolded restamped_def], of share_ID] arg_cong [OF assms [unfolded restamped_def], of share_Token]
    arg_cong [OF assms [unfolded restamped_def], of share_UserID] arg_cong [OF assms [unfolded restamped_def], of share_CreatedAt]
  by simp_all

lemma share_Update_rows:
  assumes "share_Update x db = (r, db')"
  shows "(\<exists>e. r = Inl e) \<and> db_shares db' = db_shares db \<or>
    db_shares db' = map (\<lambda>y. if share_ID y = share_ID x then share_merge (db_now db) y x else y) (db_shares db) \<and>
    (\<forall>y. r = Inr y \<longrightarrow> find (\<lambda>y. share_ID y = share_ID x) (db_shares db') = Some y)"
proof -
  obtain r1 db1 where 1: "update_row db_shares db_shares_update share_ID share_merge share_clash x db = (r1, db1)" by force
  then show ?thesis using table_query_tables(9)
  proof (cases rule: update_row_cases)
    case (updated db0)
    then have 2: "share_FindByID (share_ID x) db1 = (r, db')" using assms 1 by (simp add: share_Update_def)
    have "db_shares db1 = map (\<lambda>y. if share_ID y = share_ID x then share_merge (db_now db) y x else y) (db_shares db)"
      using updated same_tables_fields(9) [OF updated(2)] by simp
    moreover have "db_shares db' = db_shares db1 \<and> (\<forall>y. r = Inr y \<longrightarrow> find (\<lambda>y. share_ID y = share_ID x) (db_shares db1) = Some y)"
      using 2
    proof (cases rule: share_FindByID_cases)
      case (found y)
      then show ?thesis using same_tables_fields(9) [OF found(3)] by simp
    next
      case (lost e)
      then show ?thesis using same_tables_fields(9) [OF lost(2)] by simp
    qed
    ultimately show ?thesis by simp
  next
    case missing
    then show ?thesis using assms 1 same_tables_fields(9) [OF missing(3)] by (auto simp: share_Update_def throw_def)
  next
    case conflict
    then show ?thesis using assms 1 same_tables_fields(9) [OF conflict(3)] by (auto simp: share_Update_def throw_def)
  next
    case (fault msg)
    then show ?thesis using assms 1 same_tables_fields(9) [OF fault(2)] by (auto simp: share_Update_def throw_def)
  qed
qed

lemma share_Delete_rows:
  assumes "share_Delete i db = (r, db')"
  shows "(\<exists>e. r = Inl e) \<and> db_shares db' = db_shares db \<or>
    r = Inr () \<and> db_shares db' = filter (\<lambda>y. share_ID y \<noteq> i) (db_shares db)"
proof -
  have "stmt (\<lambda>db. if \<forall>x \<in> set (db_shares db). share_ID x \<noteq> i then (Inl ErrNotFound, db)
      else (Inr (), db_shares_update (filter (\<lambda>x. share_ID x \<noteq> i)) db)) db = (r, db')"
    using assms by (simp add: share_Delete_def delete_row_def)
  then show ?thesis
  proof (cases rule: stmt_cases)
    case (run db0)
    then show ?thesis using same_tables_fields(9) [of db db0] by (auto split: if_splits)
  next
    case (fault msg)
    then show ?thesis using same_tables_fields(9) [of db db'] by auto
  qed
qed

text \<open>A statement whose outcome is audited either way.\<close>

lemma audited_outcome:
  assumes "if_err m (\<lambda>e. audited rc ctx ev (throw e)) (\<lambda>x. audited rc ctx (ev' x) (ret (v x))) db = (r, db')"
  obtains r1 db1 where "m db = (r1, db1)" "audit_only db1 db'" "r = map_sum id v r1"
proof -
  obtain r1 db1 where 1: "m db = (r1, db1)" by force
  then show thesis
    using assms that by (cases r1) (auto dest: audited_throw_ok audited_ret_ok)
qed

lemma Update_rows:
  assumes "ShareService_Update s ctx i req db = (r, db')"
  obtains (refused) e where "r = Inl e" "audit_only db db'"
    | (changed) share x where "find (\<lambda>x. share_ID x = i) (db_shares db) = Some share" "restamped share x"
      "may_share ctx CapabilityShareManageAll share"
      "db_shares db' \<in> {db_shares db, map (\<lambda>y. if share_ID y = i then share_merge (db_now db) y x else y) (db_shares db)}"
  using assms unfolding ShareService_Update_def Let_def
proof (cases rule: guarded_change)
  case (refused e)
  then show thesis using that(1) by blast
next
  case (allowed share db1)
  have id: "share_ID share = i" using allowed(1) by (auto simp: find_Some_iff)
  have same: "audit_only a b \<Longrightarrow> db_shares b = db_shares a" for a b by (rule audit_only_fields)
  have db1: "db_shares db1 = db_shares db" "db_now db1 = db_now db" using same_tables_fields(9,11) [OF allowed(2)] by auto
  define pw where "pw = (case su_Password req of None \<Rightarrow> Inr share
      | Some password \<Rightarrow> if password = [] then Inr (share\<lparr>share_PasswordHash := None\<rparr>)
                       else map_sum id (\<lambda>hashed. share\<lparr>share_PasswordHash := Some hashed\<rparr>) (shs_Hash s password))"
  have pw: "(case su_Password req of None \<Rightarrow> ret share
      | Some password \<Rightarrow> if password = [] then ret (share\<lparr>share_PasswordHash := None\<rparr>)
                       else lift (map_sum id (\<lambda>hashed. share\<lparr>share_PasswordHash := Some hashed\<rparr>) (shs_Hash s password))) db1 = (pw, db1)"
    by (simp add: pw_def ret_def lift_def split: option.split)
  have "\<exists>x. restamped share x \<and>
     db_shares db' \<in> {db_shares db1, map (\<lambda>y. if share_ID y = i then share_merge (db_now db1) y x else y) (db_shares db1)}"
  proof (cases pw)
    case (Inl e)
    then show ?thesis using allowed(4) pw restamped_same by (auto dest!: audited_throw_ok same)
  next
    case (Inr share1)
    define x where "x = (case su_ExpiresIn req of None \<Rightarrow> share1
        | Some seconds \<Rightarrow> share1\<lparr>share_ExpiresAt := expires_in (db_now db1) seconds\<rparr>)"
    have "restamped share share1"
      using Inr unfolding pw_def
      by (cases "su_Password req"; cases "shs_Hash s (the (su_Password req))") (auto split: if_splits intro: restamped_same restamped_field)
    then have x: "restamped share (x\<lparr>share_UpdatedAt := db_now db1\<rparr>)" "share_ID x = i"
      using id restamped_keeps(1) [of share share1] unfolding x_def by (auto split: option.splits intro: restamped_field)
    obtain r2 db2 where 2: "(if su_Password req \<noteq> None \<or> su_ExpiresIn req \<noteq> None
        then share_Update (x\<lparr>share_UpdatedAt := db_now db1\<rparr>) else ret x) db1 = (r2, db2)" "audit_only db2 db'"
      using allowed(4) pw Inr unfolding x_def by (auto simp: gets_def elim!: audited_outcome)
    have "db_shares db2 \<in> {db_shares db1, map (\<lambda>y. if share_ID y = i then share_merge (db_now db1) y (x\<lparr>share_UpdatedAt := db_now db1\<rparr>) else y) (db_shares db1)}"
      using 2(1) share_Update_rows [of "x\<lparr>share_UpdatedAt := db_now db1\<rparr>" db1 r2 db2] x(2)
      by (auto simp: ret_def split: if_splits)
    then show ?thesis using x(1) same [OF 2(2)] by auto
  qed
  then show thesis using that(2) allowed db1 by auto
qed

lemma Delete_rows:
  assumes "ShareService_Delete s ctx i db = (r, db')"
  obtains (refused) e where "r = Inl e" "audit_only db db'"
    | (changed) share where "find (\<lambda>x. share_ID x = i) (db_shares db) = Some share"
      "may_share ctx CapabilityShareManageAll share"
      "if isl r then db_shares db' = db_shares db else db_shares db' = filter (\<lambda>x. share_ID x \<noteq> i) (db_shares db)"
  using assms unfolding ShareService_Delete_def Let_def
proof (cases rule: guarded_change)
  case (refused e)
  then show thesis using that(1) by blast
next
  case (allowed share db1)
  obtain r2 db2 where 2: "share_Delete i db1 = (r2, db2)" "audit_only db2 db'" "isl r = isl r2"
    using allowed(4) by (auto elim!: audited_outcome simp: isl_map_sum)
  show thesis
    using that(2) [OF allowed(1,3)] share_Delete_rows [OF 2(1)] audit_only_fields(9) [OF 2(2)] 2(3)
      same_tables_fields(9) [OF allowed(2)] by auto
qed

text \<open>C29: Only its owner, or who may manage all shares, changes a share, and changing one leaves the others
alone: for anybody else both the update and the deletion fail and write nothing but the audit trail;
no call touches another row; an update never gives a share to another user and never changes its token;
and a successful deletion removes the row.\<close>

theorem shares_owned:
  "let (ru, dbu) = ShareService_Update s ctx i req db;
       (rd, dbd) = ShareService_Delete s ctx i db;
       others = filter (\<lambda>x. share_ID x \<noteq> i);
       owned = (\<exists>share. find (\<lambda>x. share_ID x = i) (db_shares db) = Some share \<and> may_share ctx CapabilityShareManageAll share)
   in others (db_shares dbu) = others (db_shares db) \<and> others (db_shares dbd) = others (db_shares db) \<and>
      (\<not> owned \<longrightarrow> isl ru \<and> isl rd \<and> audit_only db dbu \<and> audit_only db dbd) \<and>
      (\<forall>x \<in> set (db_shares dbu). \<exists>y \<in> set (db_shares db).
         share_ID x = share_ID y \<and> share_UserID x = share_UserID y \<and> share_Token x = share_Token y) \<and>
      (\<not> isl rd \<longrightarrow> db_shares dbd = others (db_shares db))"
proof -
  let ?others = "filter (\<lambda>x. share_ID x \<noteq> i)"
  let ?owned = "\<exists>share. find (\<lambda>x. share_ID x = i) (db_shares db) = Some share \<and> may_share ctx CapabilityShareManageAll share"
  obtain ru dbu where u: "ShareService_Update s ctx i req db = (ru, dbu)" by force
  obtain rd dbd where d: "ShareService_Delete s ctx i db = (rd, dbd)" by force
  have up: "?others (db_shares dbu) = ?others (db_shares db) \<and> (\<not> ?owned \<longrightarrow> isl ru \<and> audit_only db dbu) \<and>
      (\<forall>x \<in> set (db_shares dbu). \<exists>y \<in> set (db_shares db).
         share_ID x = share_ID y \<and> share_UserID x = share_UserID y \<and> share_Token x = share_Token y)"
    using u
  proof (cases rule: Update_rows)
    case (refused e)
    then show ?thesis using audit_only_fields(9) [OF refused(2)] by auto
  next
    case (changed share x)
    define m where "m y = (if share_ID y = i then share_merge (db_now db) y x else y)" for y
    have rows: "?others (map m rows) = ?others rows" for rows by (induction rows) (auto simp: share_merge_def m_def)
    have image: "\<exists>y \<in> set (db_shares db). share_ID (m z) = share_ID y \<and> share_UserID (m z) = share_UserID y \<and>
        share_Token (m z) = share_Token y" if "z \<in> set (db_shares db)" for z
    proof (cases "share_ID z = i")
      case True
      have "share \<in> set (db_shares db)" "share_ID share = i" using changed(1) by (auto simp: find_Some_iff)
      then show ?thesis
        using True restamped_keeps [OF changed(2)] by (intro bexI [of _ share]) (simp_all add: share_merge_def m_def)
    qed (use that in \<open>auto simp: m_def\<close>)
    have "db_shares dbu = db_shares db \<or> db_shares dbu = map m (db_shares db)"
      using changed(4) by (simp add: m_def [abs_def])
    then show ?thesis using changed(1,3) rows image by auto
  qed
  have down: "?others (db_shares dbd) = ?others (db_shares db) \<and> (\<not> ?owned \<longrightarrow> isl rd \<and> audit_only db dbd) \<and>
      (\<not> isl rd \<longrightarrow> db_shares dbd = ?others (db_shares db))"
    using d
  proof (cases rule: Delete_rows)
    case (refused e)
    then show ?thesis using audit_only_fields(9) [OF refused(2)] by auto
  next
    case (changed share)
    then show ?thesis by (auto split: if_splits)
  qed
  show ?thesis using up down u d by (simp add: Let_def)
qed

theorem shares_owned_witness:
  "let stranger = \<lparr>ctx_request = None, ctx_auth = Some \<lparr>auth_UserID = 8, auth_Username = [], auth_RoleKey = [], auth_Status = [],
         auth_Capabilities = []\<rparr>\<rparr>;
       (ru, dbu) = ShareService_Update sample_sharer stranger 1 \<lparr>su_ExpiresIn = None, su_Password = Some []\<rparr> sample_share_db
   in isl ru \<and> audit_only sample_share_db dbu \<and> db_shares dbu = [sample_share]"
proof -
  let ?stranger = "\<lparr>ctx_request = None, ctx_auth = Some \<lparr>auth_UserID = 8, auth_Username = [], auth_RoleKey = [], auth_Status = [],
         auth_Capabilities = []\<rparr>\<rparr>"
  let ?req = "\<lparr>su_ExpiresIn = None, su_Password = Some []\<rparr>"
  obtain ru dbu where u: "ShareService_Update sample_sharer ?stranger 1 ?req sample_share_db = (ru, dbu)" by force
  have "isl ru \<and> audit_only sample_share_db dbu"
    using shares_owned [of sample_sharer ?stranger 1 ?req sample_share_db] u
    by (auto simp: Let_def may_share_def sample_share_db_def sample_share_def split: prod.splits)
  then show ?thesis using u audit_only_fields(9) [of sample_share_db dbu] by (simp add: sample_share_db_def)
qed

text \<open>
  \<^verbatim>\<open>expires_in\<close> is not bounded: a number of seconds whose nanoseconds leave 64 bits gives a
  share that has already expired.
\<close>

lemma expires_in_overflow: "expires_in now 9223372037 = Some (now - 9223372036709551616)"
  by (simp add: expires_in_def wrap64_def)

end
