(* ===== verification/Source_Config.thy ===== *)
theory Source_Config
  imports Metadata_Sync Setup
begin

text \<open>
  Configuration of storage sources: the codecs of \<^verbatim>\<open>source_config_codec.go\<close> for local, S3 and
  PikPak sources, and the configurations they read and write (\<^verbatim>\<open>s3_config.go\<close>,
  \<^verbatim>\<open>pikpak_config.go\<close>). A request carries public fields and a patch of the secrets; a stored
  configuration is one JSON text with both. The JSON decoder and encoder of the two structures,
  \<^verbatim>\<open>url.Parse\<close>, MD5, the numbers of a decoded JSON value and \<^verbatim>\<open>os.Stat\<close> are parameters.
\<close>

section \<open>Fields of a request\<close>

text \<open>The code points of a string, each as the bytes Go writes for it; bytes that are no code point become U+FFFD.\<close>

function runes :: "string \<Rightarrow> string list" where
  "runes [] = []"
| "runes (c # s) =
     (let w = rune_width (map of_char (take 4 (c # s)))
      in if w = 0 then [CHR 0xEF, CHR 0xBF, CHR 0xBD] # runes s
         else take w (c # s) # runes (drop (w - 1) s))"
  by pat_completeness auto
termination by (relation "measure length") auto

text \<open>\<^verbatim>\<open>strings.ReplaceAll(value, "\\", "/")\<close>\<close>

definition slashes :: "string \<Rightarrow> string" where
  "slashes s = map (\<lambda>c. if c = CHR 0x5C then CHR ''/'' else c) s"

definition normalizeKeyPrefix :: "string \<Rightarrow> string" where
  "normalizeKeyPrefix value =
     (let trimmed = TrimCut (TrimSpace (slashes value)) CHR ''/''
      in if trimmed = [] then [] else TrimPrefix (path_Clean (''/'' @ trimmed)) ''/'')"

definition readOptionalString :: "any_map \<Rightarrow> string \<Rightarrow> string result" where
  "readOptionalString data key =
     (case map_of data key of
        None \<Rightarrow> Inr []
      | Some PayloadNil \<Rightarrow> Inr []
      | Some (PayloadString typed) \<Rightarrow> Inr typed
      | Some _ \<Rightarrow> Inl (ErrOther (key @ '' must be string'')))"

definition readRequiredString :: "any_map \<Rightarrow> string \<Rightarrow> string result" where
  "readRequiredString data key =
     tryp (readOptionalString data key) (\<lambda>value.
       if TrimSpace value = [] then Inl (ErrOther (key @ '' is required'')) else Inr value)"

definition readOptionalBoolDefault :: "any_map \<Rightarrow> string \<Rightarrow> bool \<Rightarrow> bool result" where
  "readOptionalBoolDefault data key fallback =
     (case map_of data key of
        None \<Rightarrow> Inr fallback
      | Some PayloadNil \<Rightarrow> Inr fallback
      | Some (PayloadBool typed) \<Rightarrow> Inr typed
      | Some _ \<Rightarrow> Inl (ErrOther (key @ '' must be boolean'')))"

definition readOptionalBool :: "any_map \<Rightarrow> string \<Rightarrow> bool result" where
  "readOptionalBool data key = readOptionalBoolDefault data key False"

definition readOptionalStringDefault :: "any_map \<Rightarrow> string \<Rightarrow> string \<Rightarrow> string result" where
  "readOptionalStringDefault data key fallback =
     tryp (readOptionalString data key) (\<lambda>value. if TrimSpace value = [] then Inr fallback else Inr value)"

text \<open>\<open>int_of\<close>: the integer a JSON number stands for, if it has no fraction.\<close>

definition readOptionalIntDefault :: "(string \<Rightarrow> int option) \<Rightarrow> any_map \<Rightarrow> string \<Rightarrow> int \<Rightarrow> int result" where
  "readOptionalIntDefault int_of data key fallback =
     (case map_of data key of
        None \<Rightarrow> Inr fallback
      | Some PayloadNil \<Rightarrow> Inr fallback
      | Some (PayloadNumber typed) \<Rightarrow>
          (case int_of typed of None \<Rightarrow> Inl (ErrOther (key @ '' must be integer'')) | Some i \<Rightarrow> Inr i)
      | Some _ \<Rightarrow> Inl (ErrOther (key @ '' must be integer'')))"

text \<open>One field of a secret patch: absent keeps the value, \<^verbatim>\<open>null\<close> clears it.\<close>

definition patched_secret :: "any_map \<Rightarrow> string \<Rightarrow> string \<Rightarrow> string result" where
  "patched_secret secretPatch field current =
     (case map_of secretPatch field of
        None \<Rightarrow> Inr current
      | Some PayloadNil \<Rightarrow> Inr []
      | Some (PayloadString typed) \<Rightarrow> Inr typed
      | Some _ \<Rightarrow> Inl (ErrOther (field @ '' must be string or null'')))"

section \<open>S3\<close>

record S3Config =
  s3_Endpoint :: string
  s3_Region :: string
  s3_Bucket :: string
  s3_BasePrefix :: string
  s3_ForcePathStyle :: bool
  s3_AccessKey :: string
  s3_SecretKey :: string

definition s3_normalize :: "S3Config \<Rightarrow> S3Config" where
  "s3_normalize c =
     c\<lparr>s3_Endpoint := TrimSpace (s3_Endpoint c), s3_Region := TrimSpace (s3_Region c),
       s3_Bucket := TrimSpace (s3_Bucket c), s3_AccessKey := TrimSpace (s3_AccessKey c),
       s3_SecretKey := TrimSpace (s3_SecretKey c), s3_BasePrefix := normalizeKeyPrefix (s3_BasePrefix c)\<rparr>"

definition s3_Validate :: "S3Config \<Rightarrow> unit result" where
  "s3_Validate c =
     (if TrimSpace (s3_Endpoint c) = [] then Inl (ErrOther ''endpoint is required'')
      else if TrimSpace (s3_Region c) = [] then Inl (ErrOther ''region is required'')
      else if TrimSpace (s3_Bucket c) = [] then Inl (ErrOther ''bucket is required'')
      else if TrimSpace (s3_AccessKey c) = [] then Inl (ErrOther ''access_key is required'')
      else if TrimSpace (s3_SecretKey c) = [] then Inl (ErrOther ''secret_key is required'')
      else Inr ())"

definition ParseS3ConfigJSON :: "(string \<Rightarrow> S3Config result) \<Rightarrow> string \<Rightarrow> S3Config result" where
  "ParseS3ConfigJSON unmarshal raw =
     tryp (unmarshal raw) (\<lambda>cfg.
       let cfg' = s3_normalize cfg in tryp (s3_Validate cfg') (\<lambda>_. Inr cfg'))"

definition s3_applySecretPatch :: "S3Config \<Rightarrow> any_map \<Rightarrow> S3Config result" where
  "s3_applySecretPatch cfg secretPatch =
     tryp (patched_secret secretPatch ''access_key'' (s3_AccessKey cfg)) (\<lambda>ak.
     tryp (patched_secret secretPatch ''secret_key'' (s3_SecretKey cfg)) (\<lambda>sk.
       Inr (cfg\<lparr>s3_AccessKey := ak, s3_SecretKey := sk\<rparr>)))"

definition BuildS3Config :: "any_map \<Rightarrow> any_map \<Rightarrow> S3Config option \<Rightarrow> S3Config result" where
  "BuildS3Config config secretPatch existing =
     tryp (readRequiredString config ''endpoint'') (\<lambda>endpoint.
     tryp (readRequiredString config ''region'') (\<lambda>region.
     tryp (readRequiredString config ''bucket'') (\<lambda>bucket.
     tryp (readOptionalString config ''base_prefix'') (\<lambda>basePrefix.
     tryp (readOptionalBool config ''force_path_style'') (\<lambda>forcePathStyle.
       let cfg = \<lparr>s3_Endpoint = endpoint, s3_Region = region, s3_Bucket = bucket, s3_BasePrefix = basePrefix,
             s3_ForcePathStyle = forcePathStyle,
             s3_AccessKey = (case existing of None \<Rightarrow> [] | Some e \<Rightarrow> s3_AccessKey e),
             s3_SecretKey = (case existing of None \<Rightarrow> [] | Some e \<Rightarrow> s3_SecretKey e)\<rparr>
       in tryp (s3_applySecretPatch cfg secretPatch) (\<lambda>patched.
          let cfg' = s3_normalize patched in tryp (s3_Validate cfg') (\<lambda>_. Inr cfg')))))))"

definition s3_PublicMap :: "S3Config \<Rightarrow> any_map" where
  "s3_PublicMap c0 =
     (let c = s3_normalize c0
      in [(''endpoint'', PayloadString (s3_Endpoint c)), (''region'', PayloadString (s3_Region c)),
          (''bucket'', PayloadString (s3_Bucket c)), (''base_prefix'', PayloadString (s3_BasePrefix c)),
          (''force_path_style'', PayloadBool (s3_ForcePathStyle c))])"

section \<open>PikPak\<close>

record PikPakConfig =
  pk_RootFolderID :: string
  pk_Platform :: string
  pk_DisableMediaLink :: bool
  pk_CacheTTLSeconds :: int
  pk_DownloadStrategy :: string
  pk_ProxyURL :: string
  pk_Username :: string
  pk_Password :: string
  pk_RefreshToken :: string
  pk_CaptchaToken :: string
  pk_DeviceID :: string

record ParsedURL =
  url_Scheme :: string
  url_Host :: string
  url_hasUser :: bool
  url_RawQuery :: string
  url_Fragment :: string

text \<open>What the codecs take from the libraries and the operating system.\<close>

record ConfigEnv =
  ce_unmarshalS3 :: "string \<Rightarrow> S3Config result"
  ce_marshalS3 :: "S3Config \<Rightarrow> string result"
  ce_unmarshalPikPak :: "string \<Rightarrow> PikPakConfig result"
  ce_marshalPikPak :: "PikPakConfig \<Rightarrow> string result"
  ce_unmarshalLocal :: "string \<Rightarrow> string result"
  ce_setup :: SetupEnv
  ce_Stat :: "string \<Rightarrow> bool result"
  ce_ParseURL :: "string \<Rightarrow> ParsedURL result"
  ce_md5hex :: "string \<Rightarrow> string"
  ce_int_of :: "string \<Rightarrow> int option"
  ce_uni :: "string \<Rightarrow> string"

definition invalid_config :: "app_error \<Rightarrow> app_error" where
  "invalid_config err = ErrJoin ErrConfigInvalid (ErrOther (error_text err))"

abbreviation config_invalid :: "string \<Rightarrow> app_error" where
  "config_invalid msg \<equiv> ErrJoin ErrConfigInvalid (ErrOther msg)"

definition pk_normalize :: "(string \<Rightarrow> string) \<Rightarrow> PikPakConfig \<Rightarrow> PikPakConfig" where
  "pk_normalize uni c =
     (let platform = ToLower uni (TrimSpace (pk_Platform c));
          strategy = ToLower uni (TrimSpace (pk_DownloadStrategy c))
      in c\<lparr>pk_RootFolderID := TrimSpace (pk_RootFolderID c),
           pk_Platform := (if platform = [] then ''web'' else platform),
           pk_DownloadStrategy := (if strategy = [] then ''redirect'' else strategy),
           pk_CacheTTLSeconds := (if pk_CacheTTLSeconds c \<le> 0 then 300 else pk_CacheTTLSeconds c),
           pk_Username := TrimSpace (pk_Username c), pk_RefreshToken := TrimSpace (pk_RefreshToken c),
           pk_CaptchaToken := TrimSpace (pk_CaptchaToken c), pk_DeviceID := TrimSpace (pk_DeviceID c),
           pk_ProxyURL := TrimSpace (pk_ProxyURL c)\<rparr>)"

definition validatePikPakProxyURL :: "ConfigEnv \<Rightarrow> string \<Rightarrow> unit result" where
  "validatePikPakProxyURL env value0 =
     (let value = TrimSpace value0
      in if value = [] then Inr ()
         else
           case ce_ParseURL env value of
             Inl _ \<Rightarrow> Inl (config_invalid ''proxy_url must be a valid URL'')
           | Inr parsed \<Rightarrow>
               if url_Scheme parsed = [] \<or> url_Host parsed = [] then Inl (config_invalid ''proxy_url must be a valid URL'')
               else if ToLower (ce_uni env) (url_Scheme parsed) \<notin> {''http'', ''https''}
               then Inl (config_invalid ''proxy_url scheme must be http or https'')
               else if url_hasUser parsed then Inl (config_invalid ''proxy_url must not include credentials'')
               else if url_RawQuery parsed \<noteq> [] \<or> url_Fragment parsed \<noteq> []
               then Inl (config_invalid ''proxy_url must not include query or fragment'')
               else Inr ())"

definition pk_Validate :: "ConfigEnv \<Rightarrow> PikPakConfig \<Rightarrow> unit result" where
  "pk_Validate env c =
     (if pk_Platform c \<notin> {''web'', ''android'', ''pc''} then Inl (config_invalid ''platform must be web, android or pc'')
      else if pk_CacheTTLSeconds c \<le> 0 \<or> pk_CacheTTLSeconds c > 86400
      then Inl (config_invalid ''cache_ttl_seconds must be between 1 and 86400'')
      else if pk_DownloadStrategy c \<noteq> ''redirect'' then Inl (config_invalid ''download_strategy must be redirect'')
      else
        tryp (validatePikPakProxyURL env (pk_ProxyURL c)) (\<lambda>_.
          if TrimSpace (pk_RefreshToken c) = [] \<and> (TrimSpace (pk_Username c) = [] \<or> TrimSpace (pk_Password c) = [])
          then Inl (config_invalid ''username/password or refresh_token is required'')
          else Inr ()))"

definition ParsePikPakConfigJSON :: "ConfigEnv \<Rightarrow> string \<Rightarrow> PikPakConfig result" where
  "ParsePikPakConfigJSON env raw =
     if_errp (ce_unmarshalPikPak env raw) (\<lambda>err. Inl (invalid_config err)) (\<lambda>cfg.
       let cfg' = pk_normalize (ce_uni env) cfg in tryp (pk_Validate env cfg') (\<lambda>_. Inr cfg'))"

definition pk_applySecretPatch :: "PikPakConfig \<Rightarrow> any_map \<Rightarrow> PikPakConfig result" where
  "pk_applySecretPatch cfg secretPatch =
     tryp (patched_secret secretPatch ''username'' (pk_Username cfg)) (\<lambda>username.
     tryp (patched_secret secretPatch ''password'' (pk_Password cfg)) (\<lambda>password.
     tryp (patched_secret secretPatch ''refresh_token'' (pk_RefreshToken cfg)) (\<lambda>refreshToken.
     tryp (patched_secret secretPatch ''captcha_token'' (pk_CaptchaToken cfg)) (\<lambda>captchaToken.
     tryp (patched_secret secretPatch ''device_id'' (pk_DeviceID cfg)) (\<lambda>deviceID.
       Inr (cfg\<lparr>pk_Username := username, pk_Password := password, pk_RefreshToken := refreshToken,
                pk_CaptchaToken := captchaToken, pk_DeviceID := deviceID\<rparr>))))))"

definition GeneratePikPakDeviceID :: "ConfigEnv \<Rightarrow> string \<Rightarrow> string \<Rightarrow> string" where
  "GeneratePikPakDeviceID env username password = ce_md5hex env (TrimSpace username @ password)"

abbreviation try_config :: "'a result \<Rightarrow> ('a \<Rightarrow> 'b result) \<Rightarrow> 'b result" where
  "try_config r f \<equiv> if_errp r (\<lambda>err. Inl (invalid_config err)) f"

definition BuildPikPakConfig :: "ConfigEnv \<Rightarrow> any_map \<Rightarrow> any_map \<Rightarrow> PikPakConfig option \<Rightarrow> PikPakConfig result" where
  "BuildPikPakConfig env config secretPatch existing =
     (let kept = (\<lambda>f. case existing of None \<Rightarrow> [] | Some e \<Rightarrow> f e)
      in try_config (readOptionalString config ''root_folder_id'') (\<lambda>rootFolderID.
         try_config (readOptionalStringDefault config ''platform'' ''web'') (\<lambda>platform.
         try_config (readOptionalBoolDefault config ''disable_media_link'' True) (\<lambda>disableMediaLink.
         try_config (readOptionalIntDefault (ce_int_of env) config ''cache_ttl_seconds'' 300) (\<lambda>cacheTTLSeconds.
         try_config (readOptionalStringDefault config ''download_strategy'' ''redirect'') (\<lambda>downloadStrategy.
         try_config (if map_of config ''proxy_url'' \<noteq> None then readOptionalString config ''proxy_url''
                     else Inr (kept pk_ProxyURL)) (\<lambda>proxyURL.
         try_config (pk_applySecretPatch
             \<lparr>pk_RootFolderID = rootFolderID, pk_Platform = platform, pk_DisableMediaLink = disableMediaLink,
              pk_CacheTTLSeconds = cacheTTLSeconds, pk_DownloadStrategy = downloadStrategy, pk_ProxyURL = proxyURL,
              pk_Username = kept pk_Username, pk_Password = kept pk_Password, pk_RefreshToken = kept pk_RefreshToken,
              pk_CaptchaToken = kept pk_CaptchaToken, pk_DeviceID = kept pk_DeviceID\<rparr> secretPatch) (\<lambda>patched.
           let cfg = pk_normalize (ce_uni env) patched;
               cfg' = (if pk_DeviceID cfg = []
                       then cfg\<lparr>pk_DeviceID := GeneratePikPakDeviceID env (pk_Username cfg) (pk_Password cfg)\<rparr> else cfg)
           in tryp (pk_Validate env cfg') (\<lambda>_. Inr cfg')))))))))"

definition pk_PublicMap :: "(string \<Rightarrow> string) \<Rightarrow> PikPakConfig \<Rightarrow> any_map" where
  "pk_PublicMap uni c0 =
     (let c = pk_normalize uni c0
      in [(''root_folder_id'', PayloadString (pk_RootFolderID c)), (''platform'', PayloadString (pk_Platform c)),
          (''disable_media_link'', PayloadBool (pk_DisableMediaLink c)),
          (''cache_ttl_seconds'', payload_int (pk_CacheTTLSeconds c)),
          (''download_strategy'', PayloadString (pk_DownloadStrategy c)), (''proxy_url'', PayloadString (pk_ProxyURL c))])"

section \<open>Masks\<close>

record SecretFieldMask =
  sfm_Configured :: bool
  sfm_Masked :: string

definition maskAccessKey :: "string \<Rightarrow> string" where
  "maskAccessKey value = (if value = [] then [] else concat (take 4 (runes value)) @ ''****'')"

definition maskSecretValue :: "string \<Rightarrow> string" where
  "maskSecretValue value = (if value = [] then [] else ''******'')"

definition maskFixedSecret :: "string \<Rightarrow> string" where
  "maskFixedSecret value = (if value = [] then [] else ''******'')"

definition maskPikPakUsername :: "string \<Rightarrow> string" where
  "maskPikPakUsername value =
     (if value = [] then []
      else let rs = runes value
           in if length rs \<le> 4 then concat (take 1 rs) @ ''****'' else concat (take 4 rs) @ ''****'')"

definition mask :: "(string \<Rightarrow> string) \<Rightarrow> string \<Rightarrow> SecretFieldMask" where
  "mask f value = \<lparr>sfm_Configured = (value \<noteq> []), sfm_Masked = f value\<rparr>"

definition pk_SecretMasks :: "(string \<Rightarrow> string) \<Rightarrow> PikPakConfig \<Rightarrow> (string \<times> SecretFieldMask) list" where
  "pk_SecretMasks uni c0 =
     (let c = pk_normalize uni c0
      in [(''username'', mask maskPikPakUsername (pk_Username c)), (''password'', mask maskFixedSecret (pk_Password c)),
          (''refresh_token'', mask maskFixedSecret (pk_RefreshToken c)),
          (''captcha_token'', mask maskFixedSecret (pk_CaptchaToken c)),
          (''device_id'', mask maskFixedSecret (pk_DeviceID c))])"

text \<open>The service copies the masks of the configuration field by field.\<close>

definition buildPikPakSecretMasks :: "(string \<Rightarrow> string) \<Rightarrow> PikPakConfig \<Rightarrow> (string \<times> SecretFieldMask) list" where
  "buildPikPakSecretMasks uni cfg =
     map (\<lambda>(key, m). (key, \<lparr>sfm_Configured = sfm_Configured m, sfm_Masked = sfm_Masked m\<rparr>)) (pk_SecretMasks uni cfg)"

definition buildS3SecretMasks :: "S3Config \<Rightarrow> (string \<times> SecretFieldMask) list" where
  "buildS3SecretMasks cfg =
     [(''access_key'', mask maskAccessKey (s3_AccessKey cfg)), (''secret_key'', mask maskSecretValue (s3_SecretKey cfg))]"

section \<open>Codecs\<close>

record SourceConfigCodec =
  cc_DriverType :: string
  cc_DefaultMountSlug :: string
  cc_Build :: "any_map \<Rightarrow> any_map \<Rightarrow> string \<Rightarrow> string result"
  cc_Public :: "string \<Rightarrow> bool \<Rightarrow> (any_map \<times> (string \<times> SecretFieldMask) list) result"
  cc_AuditView :: "string \<Rightarrow> any_map"

definition parseLocalConfigMap :: "any_map \<Rightarrow> string result" where
  "parseLocalConfigMap config =
     (let basePath = (case map_of config ''base_path'' of Some (PayloadString p) \<Rightarrow> p | _ \<Rightarrow> [])
      in if basePath = [] then Inl ErrPathInvalid else Inr (path_Clean basePath))"

definition validateLocalBasePath :: "ConfigEnv \<Rightarrow> string \<Rightarrow> unit result" where
  "validateLocalBasePath env basePath =
     if_errp (ce_Stat env basePath) (\<lambda>_. Inl ErrPathInvalid) (\<lambda>isDir.
       if \<not> isDir then Inl ErrPathInvalid else Inr ())"

definition local_Build :: "ConfigEnv \<Rightarrow> any_map \<Rightarrow> any_map \<Rightarrow> string \<Rightarrow> string result" where
  "local_Build env config secretPatch existingRaw =
     tryp (parseLocalConfigMap config) (\<lambda>basePath.
     tryp (validateLocalBasePath env basePath) (\<lambda>_.
       marshalLocalSourceConfig (ce_setup env) basePath))"

definition local_Public :: "ConfigEnv \<Rightarrow> string \<Rightarrow> bool \<Rightarrow> (any_map \<times> (string \<times> SecretFieldMask) list) result" where
  "local_Public env rawConfigJSON canReadSecret =
     tryp (json_Unmarshal (env_json (ce_setup env)) rawConfigJSON) (\<lambda>config. Inr (config, []))"

definition local_AuditView :: "ConfigEnv \<Rightarrow> string \<Rightarrow> any_map" where
  "local_AuditView env rawConfigJSON =
     (case ce_unmarshalLocal env rawConfigJSON of
        Inl _ \<Rightarrow> [] | Inr basePath \<Rightarrow> [(''base_path'', PayloadString basePath)])"

definition localSourceConfigCodec :: "ConfigEnv \<Rightarrow> SourceConfigCodec" where
  "localSourceConfigCodec env =
     \<lparr>cc_DriverType = ''local'', cc_DefaultMountSlug = ''source-local'', cc_Build = local_Build env,
      cc_Public = local_Public env, cc_AuditView = local_AuditView env\<rparr>"

definition s3_Build :: "ConfigEnv \<Rightarrow> any_map \<Rightarrow> any_map \<Rightarrow> string \<Rightarrow> string result" where
  "s3_Build env config secretPatch existingRaw =
     try_config (if existingRaw \<noteq> [] then tryp (ParseS3ConfigJSON (ce_unmarshalS3 env) existingRaw) (\<lambda>parsed. Inr (Some parsed))
                 else Inr None) (\<lambda>existingCfg.
     try_config (BuildS3Config config secretPatch existingCfg) (\<lambda>cfg.
       ce_marshalS3 env (s3_normalize cfg)))"

definition s3_Public :: "ConfigEnv \<Rightarrow> string \<Rightarrow> bool \<Rightarrow> (any_map \<times> (string \<times> SecretFieldMask) list) result" where
  "s3_Public env rawConfigJSON canReadSecret =
     tryp (ParseS3ConfigJSON (ce_unmarshalS3 env) rawConfigJSON) (\<lambda>cfg.
       Inr (s3_PublicMap cfg @
              (if canReadSecret
               then [(''access_key'', PayloadString (s3_AccessKey cfg)), (''secret_key'', PayloadString (s3_SecretKey cfg))]
               else []),
            buildS3SecretMasks cfg))"

definition s3_AuditView :: "ConfigEnv \<Rightarrow> string \<Rightarrow> any_map" where
  "s3_AuditView env rawConfigJSON =
     (case ParseS3ConfigJSON (ce_unmarshalS3 env) rawConfigJSON of Inl _ \<Rightarrow> [] | Inr cfg \<Rightarrow> s3_PublicMap cfg)"

definition s3SourceConfigCodec :: "ConfigEnv \<Rightarrow> SourceConfigCodec" where
  "s3SourceConfigCodec env =
     \<lparr>cc_DriverType = ''s3'', cc_DefaultMountSlug = ''source-s3'', cc_Build = s3_Build env,
      cc_Public = s3_Public env, cc_AuditView = s3_AuditView env\<rparr>"

definition pikpak_Build :: "ConfigEnv \<Rightarrow> any_map \<Rightarrow> any_map \<Rightarrow> string \<Rightarrow> string result" where
  "pikpak_Build env config secretPatch existingRaw =
     try_config (if existingRaw \<noteq> [] then tryp (ParsePikPakConfigJSON env existingRaw) (\<lambda>parsed. Inr (Some parsed))
                 else Inr None) (\<lambda>existingCfg.
     try_config (BuildPikPakConfig env config secretPatch existingCfg) (\<lambda>cfg.
       ce_marshalPikPak env (pk_normalize (ce_uni env) cfg)))"

definition pikpak_Public :: "ConfigEnv \<Rightarrow> string \<Rightarrow> bool \<Rightarrow> (any_map \<times> (string \<times> SecretFieldMask) list) result" where
  "pikpak_Public env rawConfigJSON canReadSecret =
     tryp (ParsePikPakConfigJSON env rawConfigJSON) (\<lambda>cfg.
       Inr (pk_PublicMap (ce_uni env) cfg @
              (if canReadSecret
               then [(''username'', PayloadString (pk_Username cfg)), (''password'', PayloadString (pk_Password cfg)),
                     (''refresh_token'', PayloadString (pk_RefreshToken cfg)),
                     (''captcha_token'', PayloadString (pk_CaptchaToken cfg)), (''device_id'', PayloadString (pk_DeviceID cfg))]
               else []),
            buildPikPakSecretMasks (ce_uni env) cfg))"

definition pikpak_AuditView :: "ConfigEnv \<Rightarrow> string \<Rightarrow> any_map" where
  "pikpak_AuditView env rawConfigJSON =
     (case ParsePikPakConfigJSON env rawConfigJSON of
        Inl _ \<Rightarrow> []
      | Inr cfg \<Rightarrow> pk_PublicMap (ce_uni env) cfg @
          map (\<lambda>(key, m). (key @ ''_configured'', PayloadBool (sfm_Configured m))) (pk_SecretMasks (ce_uni env) cfg))"

definition pikPakSourceConfigCodec :: "ConfigEnv \<Rightarrow> SourceConfigCodec" where
  "pikPakSourceConfigCodec env =
     \<lparr>cc_DriverType = ''pikpak'', cc_DefaultMountSlug = ''source-pikpak'', cc_Build = pikpak_Build env,
      cc_Public = pikpak_Public env, cc_AuditView = pikpak_AuditView env\<rparr>"

definition registerDefaultConfigCodecs :: "ConfigEnv \<Rightarrow> (string \<times> SourceConfigCodec) list" where
  "registerDefaultConfigCodecs env =
     map (\<lambda>codec. (cc_DriverType codec, codec))
       [localSourceConfigCodec env, s3SourceConfigCodec env, pikPakSourceConfigCodec env]"


section \<open>Secrets stay hidden\<close>

text \<open>
  Two stored configurations that look alike to a reader without the right to see secrets: the
  public fields are equal, of each secret only whether it is set is the same, and of the access
  key and the user name the first four code points (and whether there are more of the name).
\<close>

definition alike :: "string \<Rightarrow> string \<Rightarrow> bool" where
  "alike v w \<longleftrightarrow> (v = []) = (w = [])"

definition s3_alike :: "S3Config \<Rightarrow> S3Config \<Rightarrow> bool" where
  "s3_alike c c' \<longleftrightarrow>
     c' = c\<lparr>s3_AccessKey := s3_AccessKey c', s3_SecretKey := s3_SecretKey c'\<rparr> \<and>
     alike (s3_SecretKey c) (s3_SecretKey c') \<and> alike (s3_AccessKey c) (s3_AccessKey c') \<and>
     take 4 (runes (s3_AccessKey c)) = take 4 (runes (s3_AccessKey c'))"

definition pk_alike :: "PikPakConfig \<Rightarrow> PikPakConfig \<Rightarrow> bool" where
  "pk_alike c c' \<longleftrightarrow>
     c' = c\<lparr>pk_Username := pk_Username c', pk_Password := pk_Password c', pk_RefreshToken := pk_RefreshToken c',
            pk_CaptchaToken := pk_CaptchaToken c', pk_DeviceID := pk_DeviceID c'\<rparr> \<and>
     alike (pk_Username c) (pk_Username c') \<and> alike (pk_Password c) (pk_Password c') \<and>
     alike (pk_RefreshToken c) (pk_RefreshToken c') \<and> alike (pk_CaptchaToken c) (pk_CaptchaToken c') \<and>
     alike (pk_DeviceID c) (pk_DeviceID c') \<and>
     take 4 (runes (pk_Username c)) = take 4 (runes (pk_Username c')) \<and>
     (length (runes (pk_Username c)) \<le> 4) = (length (runes (pk_Username c')) \<le> 4)"

lemma TrimSpace_idem [simp]: "TrimSpace (TrimSpace s) = TrimSpace s"
proof (rule TrimSpace_eq_self)
  let ?l = "trim_seqs space_seqs s"
  have pre: "prefix (TrimSpace s) ?l"
    using trim_seqs_suffix [of "map rev space_seqs" "rev ?l"] by (simp add: TrimSpace_def suffix_to_prefix)
  have ne: "w \<noteq> []" if "w \<in> set space_seqs" for w using that by (auto simp: space_seqs_def)
  show "\<forall>w \<in> set space_seqs. \<not> prefix w (TrimSpace s)"
    using pre trim_seqs_stop ne by (meson prefix_order.trans)
  show "\<forall>w \<in> set space_seqs. \<not> suffix w (TrimSpace s)"
  proof
    fix w assume w: "w \<in> set space_seqs"
    then have "\<not> prefix (rev w) (trim_seqs (map rev space_seqs) (rev ?l))"
      using ne by (intro trim_seqs_stop) auto
    then show "\<not> suffix w (TrimSpace s)" by (simp add: TrimSpace_def suffix_to_prefix)
  qed
qed

lemma mask_alike:
  assumes "alike v w"
  shows "mask maskSecretValue v = mask maskSecretValue w" "mask maskFixedSecret v = mask maskFixedSecret w"
    "take 4 (runes v) = take 4 (runes w) \<Longrightarrow> mask maskAccessKey v = mask maskAccessKey w"
  using assms by (auto simp: mask_def alike_def maskSecretValue_def maskFixedSecret_def maskAccessKey_def)

lemma mask_username:
  assumes "alike v w" "take 4 (runes v) = take 4 (runes w)" "(length (runes v) \<le> 4) = (length (runes w) \<le> 4)"
  shows "mask maskPikPakUsername v = mask maskPikPakUsername w"
proof -
  have "take 1 (runes v) = take 1 (runes w)" using arg_cong [OF assms(2), of "take 1"] by simp
  then show ?thesis using assms by (auto simp: mask_def alike_def maskPikPakUsername_def Let_def)
qed

lemma s3_hidden:
  assumes "ParseS3ConfigJSON (ce_unmarshalS3 env) raw = Inr c" "ParseS3ConfigJSON (ce_unmarshalS3 env) raw' = Inr c'"
    and "s3_alike c c'"
  shows "s3_Public env raw False = s3_Public env raw' False" "s3_AuditView env raw = s3_AuditView env raw'"
proof -
  have "s3_PublicMap c' = s3_PublicMap c"
    using assms(3) unfolding s3_alike_def
    by (elim conjE) (erule ssubst [where P = "\<lambda>d. s3_PublicMap d = s3_PublicMap c"], simp add: s3_PublicMap_def s3_normalize_def)
  then show "s3_Public env raw False = s3_Public env raw' False" "s3_AuditView env raw = s3_AuditView env raw'"
    using assms mask_alike by (auto simp: s3_Public_def s3_AuditView_def buildS3SecretMasks_def s3_alike_def)
qed

lemma parsed_normal:
  assumes "ParsePikPakConfigJSON env raw = Inr c"
  shows "TrimSpace (pk_Username c) = pk_Username c" "TrimSpace (pk_RefreshToken c) = pk_RefreshToken c"
    "TrimSpace (pk_CaptchaToken c) = pk_CaptchaToken c" "TrimSpace (pk_DeviceID c) = pk_DeviceID c"
  using assms by (auto simp: ParsePikPakConfigJSON_def if_errp_def Let_def pk_normalize_def split: sum.splits)

lemma pikpak_hidden:
  assumes p: "ParsePikPakConfigJSON env raw = Inr c" "ParsePikPakConfigJSON env raw' = Inr c'" and a: "pk_alike c c'"
  shows "pikpak_Public env raw False = pikpak_Public env raw' False"
    "pikpak_AuditView env raw = pikpak_AuditView env raw'"
proof -
  have "pk_PublicMap (ce_uni env) c' = pk_PublicMap (ce_uni env) c"
    using a unfolding pk_alike_def
    by (elim conjE) (erule ssubst [where P = "\<lambda>d. pk_PublicMap (ce_uni env) d = pk_PublicMap (ce_uni env) c"],
      simp add: pk_PublicMap_def pk_normalize_def Let_def)
  moreover have "pk_SecretMasks (ce_uni env) c = pk_SecretMasks (ce_uni env) c'"
    using a mask_alike(2) mask_username parsed_normal [OF p(1)] parsed_normal [OF p(2)]
    by (simp add: pk_SecretMasks_def Let_def pk_normalize_def pk_alike_def)
  ultimately show "pikpak_Public env raw False = pikpak_Public env raw' False"
    "pikpak_AuditView env raw = pikpak_AuditView env raw'"
    using p by (simp_all add: pikpak_Public_def pikpak_AuditView_def buildPikPakSecretMasks_def)
qed

text \<open>
  The mask of an access key shows its first four characters, so it shows all of a key that has
  no more; the mask of a user name shows one character of such a name.
\<close>

lemma short_access_key_shown: "maskAccessKey ''AKIA'' = ''AKIA****''" "maskPikPakUsername ''abcd'' = ''a****''"
  by code_simp+

end
