(* ===== verification/Source_Service.thy ===== *)
theory Source_Service
  imports Source_Config Share
begin

text \<open>
  Administration of storage sources (\<^verbatim>\<open>source_service.go\<close> and the source repository): a source is
  built from a request, given a free mount path and a free WebDAV slug, probed, and written
  together with its metadata mount in one transaction. Codecs and probes are tables of the
  service, the walk over a local directory is a parameter.
\<close>

section \<open>Repository\<close>

definition src_merge :: "gotime \<Rightarrow> StorageSource \<Rightarrow> StorageSource \<Rightarrow> StorageSource" where
  "src_merge now old new = new\<lparr>src_CreatedAt := src_CreatedAt old, src_UpdatedAt := now\<rparr>"

definition src_Update :: "StorageSource \<Rightarrow> (DB, unit) handler" where
  "src_Update source =
     with_jsonb (jsonObject (src_ConfigJSON source)) (\<lambda>canon.
       update_row db_sources db_sources_update src_ID src_merge src_clash (source\<lparr>src_ConfigJSON := canon\<rparr>))"

definition src_Delete :: "nat \<Rightarrow> (DB, unit) handler" where
  "src_Delete = delete_row db_sources db_sources_update src_ID"

definition src_FindByName :: "string \<Rightarrow> (DB, StorageSource) handler" where
  "src_FindByName name = find_row db_sources (\<lambda>s. src_Name s = name)"

definition src_ListAll :: "(DB, StorageSource list) handler" where
  "src_ListAll = select_rows (\<lambda>db. ListAll (db_sources db))"

definition src_Count :: "(DB, int) handler" where
  "src_Count = stmt (gets (\<lambda>db. int (length (db_sources db))))"

section \<open>Requests and responses\<close>

record SourceUpsertRequest =
  su_Name :: string
  su_DriverType :: string
  su_IsEnabled :: bool
  su_IsWebDAVExposed :: bool
  su_WebDAVReadOnly :: bool
  su_MountPath :: string
  su_RootPath :: string
  su_SortOrder :: int
  su_Config :: any_map
  su_SecretPatch :: any_map

record StorageSourceView =
  sv_ID :: nat
  sv_Name :: string
  sv_DriverType :: string
  sv_Status :: string
  sv_IsEnabled :: bool
  sv_IsWebDAVExposed :: bool
  sv_WebDAVReadOnly :: bool
  sv_WebDAVSlug :: string
  sv_MountPath :: string
  sv_RootPath :: string
  sv_UsedBytes :: "int option"
  sv_TotalBytes :: "int option"
  sv_CreatedAt :: string
  sv_UpdatedAt :: string

record SourceDetailResponse =
  sd_Source :: StorageSourceView
  sd_Config :: any_map
  sd_SecretFields :: "(string \<times> SecretFieldMask) list"
  sd_LastCheckedAt :: "string option"

record SourceTestResponse =
  str_Reachable :: bool
  str_Status :: string
  str_LatencyMS :: int
  str_CheckedAt :: string
  str_Warnings :: "string list"

text \<open>
  \<open>sos_walk root\<close>: what \<^verbatim>\<open>filepath.WalkDir\<close> visits, as whether the entry is reported with an
  error, whether it is a directory, and the size \<^verbatim>\<open>Info\<close> reports. \<open>sos_elapsed\<close> is the time
  a probe takes, in milliseconds.
\<close>

record SourceService =
  sos_codecs :: "(string \<times> SourceConfigCodec) list"
  sos_probes :: "(string \<times> (StorageSource \<Rightarrow> unit result)) list"
  sos_mountSyncer :: "MetadataVFSMountService option"
  sos_aclAuthorizer :: "(DB \<Rightarrow> ACLAuthorizer) option"
  sos_transactor :: bool
  sos_auditRecorder :: "Recorder option"
  sos_env :: ConfigEnv
  sos_walk :: "string \<Rightarrow> (bool \<times> bool \<times> int result) list"
  sos_rfc3339 :: "gotime \<Rightarrow> string"
  sos_elapsed :: int

text \<open>A later registration of a driver replaces an earlier one.\<close>

definition NewSourceService ::
  "ConfigEnv \<Rightarrow> (string \<times> SourceConfigCodec) list \<Rightarrow> (string \<times> (StorageSource \<Rightarrow> unit result)) list \<Rightarrow>
   SourceService \<Rightarrow> SourceService" where
  "NewSourceService env codecs probes options =
     options\<lparr>sos_codecs := rev (filter (\<lambda>(t, _). t \<noteq> []) codecs) @ registerDefaultConfigCodecs env,
             sos_probes := rev (filter (\<lambda>(t, _). t \<noteq> []) probes), sos_env := env\<rparr>"

definition sourceConfigCodec :: "SourceService \<Rightarrow> string \<Rightarrow> SourceConfigCodec result" where
  "sourceConfigCodec s driverType =
     (case map_of (sos_codecs s) driverType of None \<Rightarrow> Inl ErrSourceDriverUnsupported | Some codec \<Rightarrow> Inr codec)"

section \<open>Audit\<close>

definition source_audit_map :: "StorageSource \<Rightarrow> any_map \<Rightarrow> any_map" where
  "source_audit_map source config =
     [(''id'', PayloadNumber (FormatUint (src_ID source))), (''name'', PayloadString (src_Name source)),
      (''driver_type'', PayloadString (src_DriverType source)), (''is_enabled'', PayloadBool (src_IsEnabled source)),
      (''is_webdav_exposed'', PayloadBool (src_IsWebDAVExposed source)),
      (''webdav_read_only'', PayloadBool (src_WebDAVReadOnly source)),
      (''mount_path'', PayloadString (src_MountPath source)), (''root_path'', PayloadString (src_RootPath source)),
      (''sort_order'', payload_int (src_SortOrder source)), (''config'', PayloadMap config)]"

definition sourceAuditView :: "SourceService \<Rightarrow> StorageSource \<Rightarrow> any_map" where
  "sourceAuditView s source =
     (case sourceConfigCodec s (src_DriverType source) of
        Inl _ \<Rightarrow> source_audit_map source []
      | Inr codec \<Rightarrow> source_audit_map source (cc_AuditView codec (src_ConfigJSON source)))"

definition sourceTestDetail :: "StorageSource \<Rightarrow> int \<Rightarrow> bool \<Rightarrow> any_map" where
  "sourceTestDetail source latencyMS reachable =
     [(''name'', PayloadString (src_Name source)), (''driver_type'', PayloadString (src_DriverType source)),
      (''reachable'', PayloadBool reachable), (''latency_ms'', payload_int latencyMS)]"

definition sourceErrorCode :: "app_error \<Rightarrow> string" where
  "sourceErrorCode err =
     (if errors_Is err ErrSourceDriverUnsupported then ''SOURCE_DRIVER_UNSUPPORTED''
      else if errors_Is err ErrSourceOperationUnsupported then ''SOURCE_OPERATION_UNSUPPORTED''
      else if errors_Is err ErrConfigInvalid then ''CONFIG_INVALID''
      else if errors_Is err ErrCloudAuthFailed then ''CLOUD_AUTH_FAILED''
      else if errors_Is err ErrCloudTokenInvalid then ''CLOUD_TOKEN_INVALID''
      else if errors_Is err ErrCloudCaptchaRequired \<or> errors_Is err ErrCloudCaptchaExpired then ''CLOUD_CAPTCHA_REQUIRED''
      else if errors_Is err ErrCloudRateLimited then ''CLOUD_RATE_LIMITED''
      else if errors_Is err ErrCloudRegionBlocked then ''CLOUD_REGION_BLOCKED''
      else if errors_Is err ErrCloudProviderUnavailable then ''CLOUD_PROVIDER_UNAVAILABLE''
      else if errors_Is err ErrSourceConnectionFailed then ''SOURCE_CONNECTION_FAILED''
      else if errors_Is err ErrSourceNameConflict then ''SOURCE_NAME_CONFLICT''
      else if errors_Is err ErrSourceMountPathConflict then ''MOUNT_PATH_CONFLICT''
      else if errors_Is err ErrSourceInUse then ''SOURCE_IN_USE''
      else if errors_Is err ErrMetadataVFSMountSyncFailed then ''METADATA_VFS_MOUNT_SYNC_FAILED''
      else if errors_Is err ErrPathInvalid then ''PATH_INVALID''
      else if errors_Is err ErrFileNotFound then ''VFS_NODE_NOT_FOUND''
      else ''INTERNAL_ERROR'')"

abbreviation source_event :: "string \<Rightarrow> string \<Rightarrow> string \<Rightarrow> Event" where
  "source_event \<equiv> event ''storage_source''"

text \<open>
  The failure branch of the handlers: the error is audited with its code in the given event,
  then returned.
\<close>

definition try_audited ::
  "SourceService \<Rightarrow> Context \<Rightarrow> (app_error \<Rightarrow> Event) \<Rightarrow> (DB, 'a) handler \<Rightarrow> ('a \<Rightarrow> (DB, 'b) handler) \<Rightarrow> (DB, 'b) handler" where
  "try_audited s ctx ev m k = if_err m (\<lambda>err. audited (sos_auditRecorder s) ctx (ev err) (throw err)) k"

section \<open>Views\<close>

fun used_loop :: "(bool \<times> bool \<times> int result) list \<Rightarrow> int \<Rightarrow> int" where
  "used_loop [] acc = acc"
| "used_loop ((err, isDir, info) # entries) acc =
     (if err \<or> isDir then used_loop entries acc
      else case info of Inl _ \<Rightarrow> used_loop entries acc | Inr n \<Rightarrow> used_loop entries (wrap64 (acc + n)))"

definition computeUsedBytes :: "SourceService \<Rightarrow> string \<Rightarrow> int option" where
  "computeUsedBytes s root = Some (used_loop (sos_walk s root) 0)"

definition toSourceView :: "SourceService \<Rightarrow> StorageSource \<Rightarrow> StorageSourceView" where
  "toSourceView s source =
     \<lparr>sv_ID = src_ID source, sv_Name = src_Name source, sv_DriverType = src_DriverType source,
      sv_Status = src_Status source, sv_IsEnabled = src_IsEnabled source,
      sv_IsWebDAVExposed = src_IsWebDAVExposed source, sv_WebDAVReadOnly = src_WebDAVReadOnly source,
      sv_WebDAVSlug = src_WebDAVSlug source, sv_MountPath = src_MountPath source, sv_RootPath = src_RootPath source,
      sv_UsedBytes =
        (if src_DriverType source = ''local''
         then (case parseLocalSourceConfig (ce_unmarshalLocal (sos_env s)) source of
                 Inl _ \<Rightarrow> None | Inr basePath \<Rightarrow> computeUsedBytes s basePath)
         else None),
      sv_TotalBytes = None, sv_CreatedAt = sos_rfc3339 s (src_CreatedAt source),
      sv_UpdatedAt = sos_rfc3339 s (src_UpdatedAt source)\<rparr>"

definition sourceDetailConfig ::
  "SourceService \<Rightarrow> Context \<Rightarrow> StorageSource \<Rightarrow> (any_map \<times> (string \<times> SecretFieldMask) list) result" where
  "sourceDetailConfig s ctx source =
     (case sourceConfigCodec s (src_DriverType source) of
        Inl _ \<Rightarrow> Inl ErrSourceDriverUnsupported
      | Inr codec \<Rightarrow>
          cc_Public codec (src_ConfigJSON source)
            (case ctx_auth ctx of None \<Rightarrow> False | Some auth \<Rightarrow> HasCapability (auth_Capabilities auth) CapabilitySourceSecretRead))"

section \<open>Building a source\<close>

fun slug_chars :: "bool \<Rightarrow> string \<Rightarrow> string" where
  "slug_chars lastDash [] = []"
| "slug_chars lastDash (c # s) =
     (if (CHR ''a'' \<le> c \<and> c \<le> CHR ''z'') \<or> (CHR ''0'' \<le> c \<and> c \<le> CHR ''9'') then c # slug_chars False s
      else if \<not> lastDash then CHR ''-'' # slug_chars True s
      else slug_chars lastDash s)"

definition generateSlug :: "(string \<Rightarrow> string) \<Rightarrow> string \<Rightarrow> string \<Rightarrow> string" where
  "generateSlug uni name fallback =
     (let value = TrimSpace (ToLower uni name)
      in if value = [] then fallback
         else let slug = TrimCut (slug_chars False value) CHR ''-''
              in if slug = [] then fallback else slug)"

definition defaultSourceMountSlug :: "SourceService \<Rightarrow> string \<Rightarrow> string" where
  "defaultSourceMountSlug s driverType =
     (case sourceConfigCodec s driverType of Inl _ \<Rightarrow> ''source-local'' | Inr codec \<Rightarrow> cc_DefaultMountSlug codec)"

definition resolveSourceMountPath :: "SourceService \<Rightarrow> SourceUpsertRequest \<Rightarrow> StorageSource option \<Rightarrow> string result" where
  "resolveSourceMountPath s req existing =
     normalizeVirtualPath
       (if su_MountPath req \<noteq> [] then su_MountPath req
        else
          let fallback = ''/'' @ generateSlug (ce_uni (sos_env s)) (su_Name req) (defaultSourceMountSlug s (su_DriverType req))
          in case existing of
               None \<Rightarrow> fallback
             | Some e \<Rightarrow>
                 if src_MountPath e \<noteq> [] then src_MountPath e
                 else if src_WebDAVSlug e \<noteq> [] then ''/'' @ src_WebDAVSlug e
                 else fallback)"

definition buildSourceEntity ::
  "SourceService \<Rightarrow> gotime \<Rightarrow> SourceUpsertRequest \<Rightarrow> StorageSource option \<Rightarrow> StorageSource result" where
  "buildSourceEntity s now req existing =
     tryp (normalizeVirtualPath (su_RootPath req)) (\<lambda>rootPath.
     tryp (sourceConfigCodec s (su_DriverType req)) (\<lambda>codec.
     tryp (resolveSourceMountPath s req existing) (\<lambda>mountPath.
     tryp (cc_Build codec (su_Config req) (su_SecretPatch req)
             (case existing of None \<Rightarrow> [] | Some e \<Rightarrow> src_ConfigJSON e)) (\<lambda>configJSON.
       Inr \<lparr>src_ID = 0, src_Name = su_Name req, src_DriverType = su_DriverType req, src_Status = ''online'',
            src_IsEnabled = su_IsEnabled req, src_IsWebDAVExposed = su_IsWebDAVExposed req,
            src_WebDAVReadOnly = su_WebDAVReadOnly req,
            src_WebDAVSlug = (case existing of
                Some e \<Rightarrow> src_WebDAVSlug e
              | None \<Rightarrow> generateSlug (ce_uni (sos_env s)) (su_Name req) (cc_DefaultMountSlug codec)),
            src_MountPath = mountPath, src_RootPath = rootPath, src_SortOrder = su_SortOrder req,
            src_ConfigJSON = configJSON, src_LastCheckedAt = Some now,
            src_CreatedAt = (case existing of Some e \<Rightarrow> src_CreatedAt e | None \<Rightarrow> now), src_UpdatedAt = now\<rparr>))))"

definition ensureMountPathAvailable :: "string \<Rightarrow> nat \<Rightarrow> (DB, unit) handler" where
  "ensureMountPathAvailable mountPath excludeID =
     tryM (lift (normalizeMountPath mountPath)) (\<lambda>_.
     tryM (select_rows db_sources) (\<lambda>rows.
     tryM (lift (HasMountPathConflict rows mountPath excludeID)) (\<lambda>conflict.
       if conflict then throw ErrSourceMountPathConflict else ret ())))"

text \<open>
  The search for a free slug. The loop has no bound in the code, so a search that would not end
  is the value \<^const>\<open>None\<close>; in the handler it is an error of its own.
\<close>

definition slug_candidate :: "string \<Rightarrow> int \<Rightarrow> string" where
  "slug_candidate base k =
     base @ ''-'' @ (if k < 0 then ''-'' @ FormatUint (nat (- k)) else FormatUint (nat k))"

partial_function (option) free_slug :: "string list \<Rightarrow> string \<Rightarrow> int \<Rightarrow> string option" where
  "free_slug used base k =
     (if slug_candidate base k \<notin> set used then Some (slug_candidate base k)
      else free_slug used base (wrap64 (k + 1)))"

abbreviation "ErrDiverges \<equiv> ErrOther ''the loop does not end''"

definition used_slugs :: "nat \<Rightarrow> StorageSource list \<Rightarrow> string list" where
  "used_slugs excludeID sources =
     map src_WebDAVSlug (filter (\<lambda>e. \<not> (src_ID e = excludeID \<or> src_WebDAVSlug e = [])) sources)"

definition slug_base :: "SourceService \<Rightarrow> StorageSource \<Rightarrow> string" where
  "slug_base s source =
     (if src_WebDAVSlug source = [] then defaultSourceMountSlug s (src_DriverType source) else src_WebDAVSlug source)"

definition assignUniqueWebDAVSlug :: "SourceService \<Rightarrow> StorageSource \<Rightarrow> nat \<Rightarrow> (DB, StorageSource) handler" where
  "assignUniqueWebDAVSlug s source excludeID =
     tryM src_ListAll (\<lambda>sources.
       let used = used_slugs excludeID sources; base = slug_base s source
       in if base \<notin> set used then ret (source\<lparr>src_WebDAVSlug := base\<rparr>)
          else case free_slug used base 2 of
                 None \<Rightarrow> throw ErrDiverges
               | Some candidate \<Rightarrow> ret (source\<lparr>src_WebDAVSlug := candidate\<rparr>))"

definition isCloudProviderError :: "app_error \<Rightarrow> bool" where
  "isCloudProviderError err \<longleftrightarrow>
     errors_Is err ErrCloudAuthFailed \<or> errors_Is err ErrCloudTokenInvalid \<or> errors_Is err ErrCloudCaptchaRequired \<or>
     errors_Is err ErrCloudCaptchaExpired \<or> errors_Is err ErrCloudRateLimited \<or> errors_Is err ErrCloudRegionBlocked \<or>
     errors_Is err ErrCloudProviderUnavailable"

definition validateSource :: "SourceService \<Rightarrow> StorageSource \<Rightarrow> unit result" where
  "validateSource s source =
     (if src_DriverType source = ''local'' then Inr ()
      else
        case map_of (sos_probes s) (src_DriverType source) of
          None \<Rightarrow> Inl ErrSourceDriverUnsupported
        | Some probe \<Rightarrow>
            if_errp (probe source)
              (\<lambda>err. if isCloudProviderError err then Inl err else Inl (ErrJoin ErrSourceConnectionFailed err)) Inr)"

definition syncSourceMountAfterMutation :: "SourceService \<Rightarrow> StorageSource \<Rightarrow> (DB, unit) handler" where
  "syncSourceMountAfterMutation s source =
     (case sos_mountSyncer s of
        None \<Rightarrow> ret ()
      | Some syncer \<Rightarrow>
          if_err (SyncSourceMount syncer source) (\<lambda>err. throw (ErrJoin ErrMetadataVFSMountSyncFailed err)) (\<lambda>_. ret ()))"

definition withinSourceTx :: "SourceService \<Rightarrow> (DB, 'a) handler \<Rightarrow> (DB, 'a) handler" where
  "withinSourceTx s fn = (if \<not> sos_transactor s then fn else WithinTx fn)"

section \<open>Operations\<close>

fun visible_sources :: "SourceService \<Rightarrow> Context \<Rightarrow> bool \<Rightarrow> StorageSource list \<Rightarrow> (DB, StorageSourceView list) handler" where
  "visible_sources s ctx admin [] = ret []"
| "visible_sources s ctx admin (source # sources) =
     tryM (case sos_aclAuthorizer s of
             None \<Rightarrow> ret True
           | Some az \<Rightarrow> if admin then ret True
               else tryM (gets az) (\<lambda>a. lift (CanSeeSource (Some a) (ctx_auth ctx) (src_ID source)))) (\<lambda>visible.
     tryM (visible_sources s ctx admin sources) (\<lambda>items.
       ret (if visible then toSourceView s source # items else items)))"

definition SourceService_List :: "SourceService \<Rightarrow> Context \<Rightarrow> string \<Rightarrow> (DB, StorageSourceView list \<times> string) handler" where
  "SourceService_List s ctx view0 =
     (let view = (if view0 = [] then ''navigation'' else view0)
      in tryM (if view = ''admin'' then src_ListAll else src_ListEnabled) (\<lambda>sources.
         tryM (visible_sources s ctx (view = ''admin'') sources) (\<lambda>items. ret (items, view))))"

definition SourceService_Get :: "SourceService \<Rightarrow> Context \<Rightarrow> nat \<Rightarrow> (DB, SourceDetailResponse) handler" where
  "SourceService_Get s ctx i =
     tryM (src_FindByID i) (\<lambda>source.
     tryM (lift (sourceDetailConfig s ctx source)) (\<lambda>(config, secretFields).
       ret \<lparr>sd_Source = toSourceView s source, sd_Config = config, sd_SecretFields = secretFields,
            sd_LastCheckedAt = map_option (sos_rfc3339 s) (src_LastCheckedAt source)\<rparr>))"

definition test_response :: "SourceService \<Rightarrow> int \<Rightarrow> gotime \<Rightarrow> SourceTestResponse" where
  "test_response s latency now =
     \<lparr>str_Reachable = True, str_Status = ''online'', str_LatencyMS = latency, str_CheckedAt = sos_rfc3339 s now,
      str_Warnings = []\<rparr>"

definition SourceService_Test :: "SourceService \<Rightarrow> Context \<Rightarrow> SourceUpsertRequest \<Rightarrow> (DB, SourceTestResponse) handler" where
  "SourceService_Test s ctx req =
     tryM (gets db_now) (\<lambda>now.
     try_audited s ctx (\<lambda>err. source_event ''test'' ResultFailed (sourceErrorCode err))
       (lift (buildSourceEntity s now req None)) (\<lambda>source.
     try_audited s ctx (\<lambda>err. (source_event ''test'' ResultFailed (sourceErrorCode err))
         \<lparr>ev_Detail := sourceTestDetail source (sos_elapsed s) False\<rparr>)
       (lift (validateSource s source)) (\<lambda>_.
     audited (sos_auditRecorder s) ctx
       ((source_event ''test'' ResultSuccess [])\<lparr>ev_Detail := sourceTestDetail source (sos_elapsed s) True\<rparr>)
       (ret (test_response s (sos_elapsed s) now)))))"

definition SourceService_Retest :: "SourceService \<Rightarrow> Context \<Rightarrow> nat \<Rightarrow> (DB, SourceTestResponse) handler" where
  "SourceService_Retest s ctx i =
     try_audited s ctx (\<lambda>_. (source_event ''test'' ResultFailed ''SOURCE_NOT_FOUND'')\<lparr>ev_ResourceID := encodeUintID i\<rparr>)
       (src_FindByID i) (\<lambda>source.
     try_audited s ctx (\<lambda>err. (source_event ''test'' ResultFailed (sourceErrorCode err))
         \<lparr>ev_ResourceID := encodeUintID i, ev_Detail := sourceTestDetail source 0 False\<rparr>)
       (lift (validateSource s source)) (\<lambda>_.
     tryM (gets db_now) (\<lambda>now.
     audited (sos_auditRecorder s) ctx
       ((source_event ''test'' ResultSuccess [])\<lparr>ev_ResourceID := encodeUintID i, ev_Detail := sourceTestDetail source 0 True\<rparr>)
       (ret (test_response s 0 now)))))"

definition SourceService_Create :: "SourceService \<Rightarrow> Context \<Rightarrow> SourceUpsertRequest \<Rightarrow> (DB, StorageSourceView) handler" where
  "SourceService_Create s ctx req =
     (let failed = (\<lambda>code. source_event ''create'' ResultFailed code)
      in if_err (src_FindByName (su_Name req))
           (\<lambda>err. if \<not> errors_Is err ErrNotFound
                  then audited (sos_auditRecorder s) ctx (failed ''INTERNAL_ERROR'') (throw err)
                  else
                    tryM (gets db_now) (\<lambda>now.
                    try_audited s ctx (\<lambda>err. failed (sourceErrorCode err))
                      (lift (buildSourceEntity s now req None)) (\<lambda>source.
                    try_audited s ctx (\<lambda>err. failed (sourceErrorCode err))
                      (ensureMountPathAvailable (src_MountPath source) 0) (\<lambda>_.
                    try_audited s ctx (\<lambda>_. failed ''INTERNAL_ERROR'')
                      (assignUniqueWebDAVSlug s source 0) (\<lambda>slugged.
                    try_audited s ctx (\<lambda>err. failed (sourceErrorCode err))
                      (lift (validateSource s slugged)) (\<lambda>_.
                    try_audited s ctx (\<lambda>err. failed (sourceErrorCode err))
                      (withinSourceTx s
                         (tryM (src_Create slugged) (\<lambda>created.
                          tryM (syncSourceMountAfterMutation s created) (\<lambda>_. ret created)))) (\<lambda>created.
                    audited (sos_auditRecorder s) ctx
                      ((source_event ''create'' ResultSuccess [])
                        \<lparr>ev_ResourceID := encodeUintID (src_ID created), ev_SourceID := Some (src_ID created),
                         ev_VirtualPath := src_MountPath created, ev_After := sourceAuditView s created\<rparr>)
                      (ret (toSourceView s created)))))))))
           (\<lambda>_. audited (sos_auditRecorder s) ctx (failed ''SOURCE_NAME_CONFLICT'') (throw ErrSourceNameConflict)))"

definition SourceService_Update ::
  "SourceService \<Rightarrow> Context \<Rightarrow> nat \<Rightarrow> SourceUpsertRequest \<Rightarrow> (DB, StorageSourceView) handler" where
  "SourceService_Update s ctx i req0 =
     try_audited s ctx (\<lambda>_. (source_event ''update'' ResultFailed ''SOURCE_NOT_FOUND'')\<lparr>ev_ResourceID := encodeUintID i\<rparr>)
       (src_FindByID i) (\<lambda>existing.
       let before = sourceAuditView s existing;
           req = req0\<lparr>su_DriverType := src_DriverType existing\<rparr>;
           failed = (\<lambda>err. (source_event ''update'' ResultFailed (sourceErrorCode err))
             \<lparr>ev_ResourceID := encodeUintID i, ev_Before := before\<rparr>)
       in tryM (gets db_now) (\<lambda>now.
          try_audited s ctx failed (lift (buildSourceEntity s now req (Some existing))) (\<lambda>source.
          try_audited s ctx failed (ensureMountPathAvailable (src_MountPath source) (src_ID existing)) (\<lambda>_.
          try_audited s ctx failed (lift (validateSource s source)) (\<lambda>_.
            let source' = source\<lparr>src_ID := src_ID existing, src_CreatedAt := src_CreatedAt existing,
                  src_WebDAVSlug := src_WebDAVSlug existing\<rparr>
            in try_audited s ctx failed
                 (withinSourceTx s (tryM (src_Update source') (\<lambda>_. syncSourceMountAfterMutation s source'))) (\<lambda>_.
               audited (sos_auditRecorder s) ctx
                 ((source_event ''update'' ResultSuccess [])
                   \<lparr>ev_ResourceID := encodeUintID i, ev_SourceID := Some (src_ID source'),
                    ev_VirtualPath := src_MountPath source', ev_Before := before,
                    ev_After := sourceAuditView s source'\<rparr>)
                 (ret (toSourceView s source'))))))))"

definition SourceService_Delete :: "SourceService \<Rightarrow> Context \<Rightarrow> nat \<Rightarrow> (DB, unit) handler" where
  "SourceService_Delete s ctx i =
     try_audited s ctx (\<lambda>_. (source_event ''delete'' ResultFailed ''SOURCE_NOT_FOUND'')\<lparr>ev_ResourceID := encodeUintID i\<rparr>)
       (src_FindByID i) (\<lambda>source.
       let before = sourceAuditView s source;
           failed = (\<lambda>code. (source_event ''delete'' ResultFailed code)\<lparr>ev_ResourceID := encodeUintID i, ev_Before := before\<rparr>);
           remove =
             try_audited s ctx (\<lambda>err. failed (sourceErrorCode err))
               (withinSourceTx s
                  (tryM (case sos_mountSyncer s of
                           None \<Rightarrow> ret ()
                         | Some syncer \<Rightarrow>
                             if_err (DisableSourceMount syncer i)
                               (\<lambda>err. throw (ErrJoin ErrMetadataVFSMountSyncFailed err)) ret) (\<lambda>_.
                   src_Delete i))) (\<lambda>_.
             audited (sos_auditRecorder s) ctx
               ((source_event ''delete'' ResultSuccess [])
                 \<lparr>ev_ResourceID := encodeUintID i, ev_SourceID := Some (src_ID source),
                  ev_VirtualPath := src_MountPath source, ev_Before := before\<rparr>)
               (ret ()))
       in if_err config_Get
            (\<lambda>err. if \<not> errors_Is err ErrNotFound
                   then audited (sos_auditRecorder s) ctx (failed ''INTERNAL_ERROR'') (throw err)
                   else remove)
            (\<lambda>cfg. if cfg_DefaultSourceID cfg = Some i
                   then audited (sos_auditRecorder s) ctx (failed ''SOURCE_IN_USE'') (throw ErrSourceInUse)
                   else remove))"


section \<open>The search for a slug ends\<close>

lemma FormatUint_value: "foldl (\<lambda>v c. 10 * v + (of_char c - 48)) 0 (FormatUint n) = n"
proof (induction n rule: FormatUint.induct)
  case (1 n)
  show ?case
  proof (cases "n < 10")
    case True
    then show ?thesis by (simp add: FormatUint.simps of_char_of)
  next
    case False
    then show ?thesis using 1 by (simp add: FormatUint.simps [of n] of_char_of)
  qed
qed

lemma FormatUint_inj: "FormatUint a = FormatUint b \<Longrightarrow> a = b"
  by (metis FormatUint_value)

lemma slug_candidate_inj: "0 \<le> a \<Longrightarrow> 0 \<le> b \<Longrightarrow> slug_candidate base a = slug_candidate base b \<Longrightarrow> a = b"
  by (auto simp: slug_candidate_def dest: FormatUint_inj)

lemma free_candidate:
  "\<exists>j \<le> length used. slug_candidate base (2 + int j) \<notin> set used"
proof (rule ccontr)
  let ?c = "\<lambda>j. slug_candidate base (2 + int j)"
  assume "\<not> ?thesis"
  then have "?c ` {..length used} \<subseteq> set used" by auto
  then have "card (?c ` {..length used}) \<le> length used" by (meson List.finite_set card_length card_mono le_trans)
  moreover have "inj_on ?c {..length used}" by (rule inj_onI) (auto dest!: slug_candidate_inj [rotated 2])
  ultimately show False by (simp add: card_image)
qed

lemma free_slug_finds:
  assumes "slug_candidate base (a + int j) \<notin> set used" "\<forall>i < j. slug_candidate base (a + int i) \<in> set used"
    "0 \<le> a" "a + int j < 2 ^ 63"
  shows "free_slug used base a = Some (slug_candidate base (a + int j))"
  using assms
proof (induction j arbitrary: a)
  case 0
  then show ?case by (simp add: free_slug.simps [of used base a])
next
  case (Suc j)
  have "slug_candidate base a \<in> set used" using Suc.prems(2) [rule_format, of 0] by simp
  moreover have "wrap64 (a + 1) = a + 1" using Suc.prems by (intro wrap64_id) auto
  moreover have "\<forall>i < j. slug_candidate base ((a + 1) + int i) \<in> set used"
    using Suc.prems(2) by (metis Suc_less_eq add.assoc add.commute of_nat_Suc)
  moreover have "slug_candidate base ((a + 1) + int j) \<notin> set used" using Suc.prems(1) by (simp add: ac_simps)
  ultimately show ?case
    using Suc.IH [of "a + 1"] Suc.prems(3,4) by (simp add: free_slug.simps [of used base a] ac_simps)
qed

text \<open>The slug the search ends with, by its number; \<open>0\<close> for the base itself.\<close>

definition slug_numbered :: "string list \<Rightarrow> string \<Rightarrow> nat \<Rightarrow> string \<Rightarrow> bool" where
  "slug_numbered used base n slug \<longleftrightarrow>
     slug \<notin> set used \<and>
     (slug = base \<or> base \<in> set used \<and>
       list_ex (\<lambda>k. slug = slug_candidate base (int k) \<and> (\<forall>i \<in> {2..<k}. slug_candidate base (int i) \<in> set used)) [2..<n + 3])"

lemma free_slug_ends:
  assumes "length used < 2 ^ 62" "base \<in> set used"
  obtains slug where "free_slug used base 2 = Some slug" "slug_numbered used base (length used) slug"
proof -
  let ?P = "\<lambda>j. slug_candidate base (2 + int j) \<notin> set used"
  let ?j = "LEAST j. ?P j"
  obtain j0 where j0: "j0 \<le> length used" "?P j0" using free_candidate by blast
  then have j: "?P ?j" "?j \<le> length used" "\<forall>i < ?j. slug_candidate base (2 + int i) \<in> set used"
    using LeastI [of ?P] Least_le [of ?P] not_less_Least [of _ ?P] by (blast, fastforce, blast)
  have "free_slug used base 2 = Some (slug_candidate base (2 + int ?j))"
    using j assms(1) by (intro free_slug_finds) auto
  moreover have "slug_numbered used base (length used) (slug_candidate base (2 + int ?j))"
  proof -
    have "slug_candidate base (int i) \<in> set used" if "2 \<le> i" "i < 2 + ?j" for i
      using j(3) [rule_format, of "i - 2"] that by simp
    then show ?thesis
      unfolding slug_numbered_def list_ex_iff
      using j(1,2) assms(2) by (intro conjI disjI2 bexI [of _ "2 + ?j"]) auto
  qed
  ultimately show ?thesis by (rule that)
qed

lemma used_slugs_ListAll: "set (used_slugs e (ListAll rows)) = set (used_slugs e rows)"
  "length (used_slugs e (ListAll rows)) = length (used_slugs e rows)"
  by (auto simp: used_slugs_def ListAll_def filter_sort)

lemma slug_numbered_cong: "set u = set v \<Longrightarrow> slug_numbered u base n slug = slug_numbered v base n slug"
  by (simp add: slug_numbered_def)

text \<open>C26: the loop of \<^verbatim>\<open>assignUniqueWebDAVSlug\<close> has no exit condition of its own and yet always ends: with
  fewer than 2^62 sources the call returns the source with a slug no other source has, which is
  the wanted slug or, when that is taken, the wanted slug with the least free number from 2 on,
  and that number is at most the number of slugs in use plus 2.\<close>

theorem slug_search_ends:
  fixes db :: DB
  assumes "db_faults db = []" "length (db_sources db) < 2 ^ 62"
  shows "let used = used_slugs excludeID (db_sources db)
    in \<exists>slug. assignUniqueWebDAVSlug s source excludeID db = (Inr (source\<lparr>src_WebDAVSlug := slug\<rparr>), db) \<and>
         slug_numbered used (slug_base s source) (length used) slug"
proof -
  let ?used = "used_slugs excludeID (ListAll (db_sources db))" and ?base = "slug_base s source"
  have "length ?used \<le> length (db_sources db)"
    using length_filter_le [of _ "ListAll (db_sources db)"] by (simp add: used_slugs_def ListAll_def)
  then have small: "length ?used < 2 ^ 62" using assms(2) by linarith
  have run: "assignUniqueWebDAVSlug s source excludeID db =
      (if ?base \<notin> set ?used then ret (source\<lparr>src_WebDAVSlug := ?base\<rparr>)
       else case free_slug ?used ?base 2 of None \<Rightarrow> throw ErrDiverges
         | Some candidate \<Rightarrow> ret (source\<lparr>src_WebDAVSlug := candidate\<rparr>)) db"
    by (simp add: assignUniqueWebDAVSlug_def src_ListAll_def select_rows_def stmt_def gets_def if_err_def assms(1) Let_def)
  have "\<exists>slug. assignUniqueWebDAVSlug s source excludeID db = (Inr (source\<lparr>src_WebDAVSlug := slug\<rparr>), db) \<and>
      slug_numbered ?used ?base (length ?used) slug"
  proof (cases "?base \<in> set ?used")
    case True
    obtain slug where "free_slug ?used ?base 2 = Some slug" "slug_numbered ?used ?base (length ?used) slug"
      by (rule free_slug_ends [OF small True])
    then show ?thesis using True unfolding run by (auto simp: ret_def)
  next
    case False
    then show ?thesis unfolding run by (auto simp: ret_def slug_numbered_def)
  qed
  then show ?thesis
    by (simp add: Let_def used_slugs_ListAll slug_numbered_cong [OF used_slugs_ListAll(1)])
qed


section \<open>Invariants of the tables\<close>

text \<open>
  A condition on the tables every step keeps, with what the value of a step satisfies: the
  sequential composition of such steps is one.
\<close>

locale kept_invariant =
  fixes I :: "DB \<Rightarrow> bool"
  assumes stable: "table_query I"
begin

definition steps :: "('a \<Rightarrow> bool) \<Rightarrow> (DB, 'a) handler \<Rightarrow> bool" where
  "steps P m \<longleftrightarrow> triple I m (\<lambda>x db. I db \<and> P x) (\<lambda>_. I)"

lemma stepsI:
  assumes "\<And>db r db'. m db = (r, db') \<Longrightarrow> I db \<Longrightarrow> I db' \<and> (\<forall>x. r = Inr x \<longrightarrow> P x)"
  shows "steps P m"
  unfolding steps_def using assms by (intro tripleI) blast+

lemma stepsD: "steps P m \<Longrightarrow> m db = (r, db') \<Longrightarrow> I db \<Longrightarrow> I db' \<and> (\<forall>x. r = Inr x \<longrightarrow> P x)"
  unfolding steps_def by (cases r) (auto dest: tripleD_ok tripleD_err)

lemma same_inv: "same_tables db db' \<Longrightarrow> I db \<Longrightarrow> I db'"
  using table_queryD [OF stable] by blast

lemma steps_basic: "P x \<Longrightarrow> steps P (ret x)" "steps P (throw e)" "steps (\<lambda>_. True) (gets g)"
  by (rule stepsI; auto simp: handler_defs)+

lemma steps_lift: "steps (\<lambda>x. r = Inr x) (lift r)"
  by (rule stepsI) (auto simp: lift_def)

lemma steps_reads: "(\<And>db r db'. m db = (r, db') \<Longrightarrow> same_tables db db') \<Longrightarrow> steps (\<lambda>_. True) m"
  by (rule stepsI) (auto intro: same_inv)

lemma steps_if_err:
  assumes "steps Q m" "\<And>e. steps P (h e)" "\<And>x. Q x \<Longrightarrow> steps P (f x)"
  shows "steps P (if_err m h f)"
proof (rule stepsI)
  fix db r db' assume a: "if_err m h f db = (r, db')" "I db"
  obtain r1 db1 where 1: "m db = (r1, db1)" by force
  show "I db' \<and> (\<forall>x. r = Inr x \<longrightarrow> P x)"
  proof (cases r1)
    case (Inl e)
    then show ?thesis using a(1) 1 stepsD [OF assms(2), of e db1 r db'] stepsD [OF assms(1) 1 a(2)] by simp
  next
    case (Inr x)
    then show ?thesis using a(1) 1 stepsD [OF assms(3), of x db1 r db'] stepsD [OF assms(1) 1 a(2)] by simp
  qed
qed

lemma steps_if: "steps P m \<Longrightarrow> steps P m' \<Longrightarrow> steps P (if b then m else m')"
  by simp

lemma steps_option: "steps P m \<Longrightarrow> (\<And>y. steps P (f y)) \<Longrightarrow> steps P (case x of None \<Rightarrow> m | Some y \<Rightarrow> f y)"
  by (cases x) simp_all

lemma steps_tx: "steps P m \<Longrightarrow> steps P (WithinTx m)"
proof (rule stepsI)
  fix db r db' assume m: "steps P m" and a: "WithinTx m db = (r, db')" "I db"
  from a(1) show "I db' \<and> (\<forall>x. r = Inr x \<longrightarrow> P x)"
    by (cases rule: WithinTx_cases) (use stepsD [OF m] a(2) same_inv in blast)+
qed

lemma steps_mono: "steps P m \<Longrightarrow> (\<And>x. P x \<Longrightarrow> Q x) \<Longrightarrow> steps Q m"
  by (rule stepsI) (auto dest: stepsD)

end

section \<open>Sources are well formed\<close>

text \<open>
  The invariant of the source table: rows have an identifier, canonical mount and root paths,
  and no two rows share identifier, name, slug or mount path.
\<close>

definition source_ok :: "StorageSource \<Rightarrow> bool" where
  "source_ok x \<longleftrightarrow> normal (src_MountPath x) \<and> normal (src_RootPath x)"

definition sources_ok :: "StorageSource list \<Rightarrow> bool" where
  "sources_ok rows \<longleftrightarrow>
     list_all (\<lambda>x. src_ID x \<noteq> 0 \<and> source_ok x) rows \<and> distinct (map src_ID rows) \<and> distinct (map src_Name rows) \<and>
     distinct (map src_WebDAVSlug rows) \<and> distinct (map src_MountPath rows)"

lemma sources_ok_append:
  assumes "sources_ok rows" "src_ID x \<noteq> 0" "source_ok x" "\<forall>y \<in> set rows. src_ID y \<noteq> src_ID x \<and> \<not> src_clash y x"
  shows "sources_ok (rows @ [x])"
  using assms by (auto simp: sources_ok_def src_clash_def)

lemma distinct_map_replace:
  assumes "distinct (map k rows)" "distinct (map f rows)" "\<forall>x \<in> set rows. k x \<noteq> i \<longrightarrow> f x \<noteq> v"
  shows "distinct (map (\<lambda>x. if k x = i then v else f x) rows)"
  using assms by (induction rows) (auto simp: image_iff)

lemma sources_ok_replace:
  assumes ok: "sources_ok rows" and x: "source_ok x" "\<forall>y \<in> set rows. src_ID y \<noteq> src_ID x \<longrightarrow> \<not> src_clash y x"
  shows "sources_ok (map (\<lambda>y. if src_ID y = src_ID x then src_merge now y x else y) rows)"
proof -
  let ?new = "map (\<lambda>y. if src_ID y = src_ID x then src_merge now y x else y) rows"
  have f: "map f ?new = map (\<lambda>y. if src_ID y = src_ID x then f x else f y) rows"
    if "\<And>now y. f (src_merge now y x) = f x" for f :: "StorageSource \<Rightarrow> 'b"
    using that by simp
  have ids: "map src_ID ?new = map src_ID rows" by (auto simp: src_merge_def)
  have "distinct (map src_Name ?new)" "distinct (map src_WebDAVSlug ?new)" "distinct (map src_MountPath ?new)"
    using ok x(2) by (subst f, simp add: src_merge_def, intro distinct_map_replace; force simp: sources_ok_def src_clash_def)+
  moreover have "list_all (\<lambda>x. src_ID x \<noteq> 0 \<and> source_ok x) ?new"
    using ok x(1) by (auto simp: sources_ok_def list_all_iff source_ok_def src_merge_def)
  ultimately show ?thesis using ok unfolding sources_ok_def ids by blast
qed

interpretation sources_inv: kept_invariant "\<lambda>db. sources_ok (db_sources db)"
  by unfold_locales (simp add: table_query_def same_tables_fields)

lemma with_jsonb_cases:
  assumes "with_jsonb raw k db = (r, db')"
  obtains (invalid) e where "r = Inl e" "same_tables db db'"
    | (valid) canon where "db_jsonb db raw = Inr canon" "k canon db = (r, db')"
proof (cases "db_jsonb db raw")
  case (Inl e)
  then have s: "stmt (throw e) db = (r, db')" using assms by (simp add: with_jsonb_def)
  then have "\<exists>e. r = Inl e" using stmt_throw_Inr by (metis sum.exhaust)
  then show thesis using invalid tables_keepsD [OF tables.keeps_stmt [OF tables.keeps_basic(2)] s] by blast
next
  case (Inr c)
  then show thesis using assms valid by (simp add: with_jsonb_def)
qed

text \<open>What the statements on the table do.\<close>

lemma same_tables_sources:
  assumes "same_tables db db0"
  shows "same_tables (db\<lparr>db_sources := f (db_sources db)\<rparr>) (db_sources_update f db0)"
proof -
  have c: "core (db_sources_update f d) = db_sources_update f (core d)" for d by (simp add: core_def)
  have "db\<lparr>db_sources := f (db_sources db)\<rparr> = db_sources_update f db" by simp
  then show ?thesis using assms unfolding same_tables_def by (simp only: c)
qed

lemma src_Create_rows:
  assumes "src_Create source db = (r, db')"
  obtains (failed) e where "r = Inl e" "same_tables db db'"
    | (added) x where "r = Inr (x\<lparr>src_ConfigJSON := jsonObject (src_ConfigJSON source)\<rparr>)"
        "same_tables (db\<lparr>db_sources := db_sources db @ [x]\<rparr>) db'"
        "\<forall>y \<in> set (db_sources db). src_ID y \<noteq> src_ID x \<and> \<not> src_clash y x" "src_ID x \<noteq> 0"
        "\<exists>canon. x = src_stamp (db_now db) (source\<lparr>src_ID := src_ID x, src_ConfigJSON := canon\<rparr>)"
proof -
  let ?ins = "\<lambda>canon. insert_row ''storage_sources'' db_sources db_sources_update src_ID src_setID src_clash
         (src_stamp (db_now db) (source\<lparr>src_ConfigJSON := canon\<rparr>))"
  obtain r1 db1 where 1: "with_jsonb (jsonObject (src_ConfigJSON source)) ?ins db = (r1, db1)" by force
  have "tryM (with_jsonb (jsonObject (src_ConfigJSON source)) ?ins) (\<lambda>x. ret (x\<lparr>src_ConfigJSON := jsonObject (src_ConfigJSON source)\<rparr>)) db =
      (map_sum id (\<lambda>x. x\<lparr>src_ConfigJSON := jsonObject (src_ConfigJSON source)\<rparr>) r1, db1)"
    by (cases r1) (simp_all only: if_err_def 1 prod.case sum.case ret_def throw_def map_sum.simps id_apply)
  then have r: "r = map_sum id (\<lambda>x. x\<lparr>src_ConfigJSON := jsonObject (src_ConfigJSON source)\<rparr>) r1" "db' = db1"
    using assms unfolding src_Create_def by (metis Pair_inject)+
  from 1 show thesis
  proof (cases rule: with_jsonb_cases)
    case (invalid e)
    then show thesis using failed r by simp
  next
    case (valid canon)
    from valid(2) table_query_tables(3) show thesis
    proof (cases rule: insert_row_cases)
      case (inserted i db0)
      let ?x = "src_setID i (src_stamp (db_now db) (source\<lparr>src_ConfigJSON := canon\<rparr>))"
      have x: "src_ID ?x = i" "?x = src_stamp (db_now db) (source\<lparr>src_ID := i, src_ConfigJSON := canon\<rparr>)"
        by (simp_all add: src_setID_def src_stamp_def)
      have "same_tables (db\<lparr>db_sources := db_sources db @ [?x]\<rparr>) db'"
        using same_tables_sources [OF inserted(2), of "\<lambda>rows. rows @ [?x]"] unfolding r(2) inserted(5) .
      then show thesis using added [of ?x] inserted(1,3,4) r x by (auto split: if_splits)
    qed (use failed r in auto)
  qed
qed

lemma src_Update_rows:
  assumes "src_Update source db = (r, db')"
  obtains (failed) e where "r = Inl e" "same_tables db db'"
    | (changed) x where "r = Inr ()" "\<forall>y \<in> set (db_sources db). src_ID y \<noteq> src_ID x \<longrightarrow> \<not> src_clash y x"
        "same_tables (db\<lparr>db_sources := map (\<lambda>y. if src_ID y = src_ID x then src_merge (db_now db) y x else y) (db_sources db)\<rparr>) db'"
        "\<exists>canon. x = source\<lparr>src_ConfigJSON := canon\<rparr>"
  using assms unfolding src_Update_def
proof (cases rule: with_jsonb_cases)
  case (valid canon)
  let ?x = "source\<lparr>src_ConfigJSON := canon\<rparr>"
  from valid(2) table_query_tables(3) show thesis
  proof (cases rule: update_row_cases)
    case (updated db0)
    have "same_tables (db\<lparr>db_sources := map (\<lambda>y. if src_ID y = src_ID ?x then src_merge (db_now db) y ?x else y) (db_sources db)\<rparr>) db'"
      using same_tables_sources [OF updated(2), of "map (\<lambda>y. if src_ID y = src_ID ?x then src_merge (db_now db) y ?x else y)"]
      unfolding updated(5) .
    then show thesis by (rule changed [OF updated(1,4)]) blast
  qed (use failed in auto)
qed (use failed in auto)


lemma src_Create_inv:
  assumes "source_ok source"
  shows "sources_inv.steps (\<lambda>_. True) (src_Create source)"
proof (rule sources_inv.stepsI)
  fix db r db' assume "src_Create source db = (r, db')" "sources_ok (db_sources db)"
  then show "sources_ok (db_sources db') \<and> (\<forall>x. r = Inr x \<longrightarrow> True)"
  proof (cases rule: src_Create_rows)
    case (added x)
    obtain canon where x: "x = src_stamp (db_now db) (source\<lparr>src_ID := src_ID x, src_ConfigJSON := canon\<rparr>)"
      using added(5) by blast
    have "source_ok x" using assms by (subst x) (simp add: source_ok_def src_stamp_def)
    then show ?thesis
      using sources_ok_append [of "db_sources db" x] added(3,4) \<open>sources_ok (db_sources db)\<close>
        same_tables_fields(3) [OF added(2)] by simp
  qed (simp add: same_tables_fields)
qed

lemma src_Update_inv:
  assumes "source_ok source"
  shows "sources_inv.steps (\<lambda>_. True) (src_Update source)"
proof (rule sources_inv.stepsI)
  fix db r db' assume "src_Update source db = (r, db')" "sources_ok (db_sources db)"
  then show "sources_ok (db_sources db') \<and> (\<forall>x. r = Inr x \<longrightarrow> True)"
  proof (cases rule: src_Update_rows)
    case (changed x)
    then have "source_ok x" using assms by (auto simp: source_ok_def)
    then show ?thesis
      using sources_ok_replace [of "db_sources db" x "db_now db"] changed(2) \<open>sources_ok (db_sources db)\<close>
        same_tables_fields(3) [OF changed(3)] by simp
  qed (simp add: same_tables_fields)
qed

lemma sources_ok_filter: "sources_ok rows \<Longrightarrow> sources_ok (filter p rows)"
  by (auto simp: sources_ok_def list_all_iff distinct_map_filter)

lemma src_Delete_inv: "sources_inv.steps (\<lambda>_. True) (src_Delete i)"
proof (rule sources_inv.stepsI)
  fix db r db' assume a: "src_Delete i db = (r, db')" "sources_ok (db_sources db)"
  from a(1) [unfolded src_Delete_def delete_row_def]
  show "sources_ok (db_sources db') \<and> (\<forall>x. r = Inr x \<longrightarrow> True)"
    by (cases rule: stmt_cases) (use a(2) in \<open>auto simp: same_tables_fields sources_ok_filter split: if_splits\<close>)
qed

text \<open>The mount of a source lives in the tree and in the mount table only.\<close>

locale beside_mounts = beside_part q for q :: "DB \<Rightarrow> 'q" +
  assumes beside_mount_rows: "\<And>f db. q (db_mounts_update f db) = q db"
begin

lemma beside_mount_repo [intro]:
  "keeps (mnt_FindByMountPath p)" "keeps (mnt_FindByNodeID i)" "keeps (mnt_List filt)" "keeps (mnt_Update m)"
  "keeps (mnt_UpsertByMountPath m)"
proof -
  show f: "keeps (mnt_FindByMountPath p)" for p unfolding mnt_FindByMountPath_def by auto
  show "keeps (mnt_FindByNodeID i)" unfolding mnt_FindByNodeID_def by auto
  show "keeps (mnt_List filt)" unfolding mnt_List_def by auto
  show "keeps (mnt_Update m)" unfolding mnt_Update_def by (intro keeps_with_jsonb keeps_update_row beside_mount_rows)
  have "keeps (mnt_upsert m)" for m
    unfolding mnt_upsert_def
    by (rule keeps_stmt) (auto simp: keeps_def Let_def beside_mount_rows split: option.splits if_splits)
  then show "keeps (mnt_UpsertByMountPath m)" unfolding mnt_UpsertByMountPath_def using f by blast
qed

lemma beside_commit_root: "keeps (ensureCommitRoot now)"
  unfolding ensureCommitRoot_def Let_def by (intro keeps_rules beside_repo)

lemma beside_disable: "keeps (disableOtherSourceMounts s i p now)"
proof -
  have stale: "keeps (markMountNodeStale i now)" for i
    unfolding markMountNodeStale_def by (intro keeps_rules beside_repo)
  have "keeps (disable_loop s p now ms)" for ms
    by (induction ms) (auto intro!: keeps_rules beside_mount_repo stale)
  then show ?thesis unfolding disableOtherSourceMounts_def by (intro keeps_rules beside_mount_repo)
qed

lemma beside_mount_node: "keeps (ensureSourceMountNode source p now)"
proof -
  have root: "keeps (ensureMountRoot now)"
    unfolding ensureMountRoot_def by (intro keeps_rules beside_repo beside_commit_root)
  have "keeps (mount_dir source now b n seg)" for b n seg
    unfolding mount_dir_def mountNodeReusableForSource_def Let_def by (intro keeps_rules beside_repo beside_mount_repo)
  then have "keeps (mount_dirs source now n ws)" for n ws
    by (induction source now n ws rule: mount_dirs.induct) (auto intro!: keeps_rules)
  then show ?thesis unfolding ensureSourceMountNode_def Let_def by (intro keeps_rules root beside_repo)
qed

lemma beside_sync: "keeps (SyncSourceMount s source)" "keeps (DisableSourceMount s i)"
proof -
  have tx: "keeps m \<Longrightarrow> keeps (withinMountTx s m)" for m :: "(DB, 'a) handler"
    unfolding withinMountTx_def by (intro keeps_rules)
  have "keeps (mount_body s source p rp)" for p rp
    unfolding mount_body_def ensureMountPathReusable_def Let_def
    by (intro keeps_rules beside_mount_node beside_mount_repo beside_disable beside_repo)
  then show "keeps (SyncSourceMount s source)"
    unfolding SyncSourceMount_def by (intro keeps_rules tx)
  show "keeps (DisableSourceMount s i)"
    unfolding DisableSourceMount_def by (intro keeps_rules tx beside_disable)
qed

end

interpretation unmounted: beside_mounts "\<lambda>db. (db_sources db, db_config db, db_audits db, db_now db, db_shares db, db_rules db)"
  by unfold_locales (auto simp: table_query_def same_tables_fields)


lemma sources_unmounted: "unmounted.keeps m \<Longrightarrow> sources_inv.steps (\<lambda>_. True) m"
  by (rule sources_inv.stepsI) (auto dest: unmounted.keepsD)

lemma sources_audit: "sources_inv.steps (\<lambda>_. True) (recordServiceAudit rc ctx ev)"
  by (rule sources_inv.stepsI) (auto dest!: recordServiceAudit_only simp: audit_only_fields)

lemma sources_audited: "sources_inv.steps P k \<Longrightarrow> sources_inv.steps P (audited rc ctx ev k)"
  by (rule sources_inv.steps_if_err [OF sources_audit]) (auto intro: sources_inv.steps_basic)

lemma sources_try:
  assumes "sources_inv.steps Q m" "\<And>x. Q x \<Longrightarrow> sources_inv.steps P (k x)"
  shows "sources_inv.steps P (try_audited s ctx ev m k)"
  unfolding try_audited_def
  by (intro sources_inv.steps_if_err [OF assms(1)] sources_audited sources_inv.steps_basic assms(2))

lemma sources_reads:
  "sources_inv.steps (\<lambda>_. True) (src_FindByName n)" "sources_inv.steps (\<lambda>_. True) (src_FindByID i)"
  "sources_inv.steps (\<lambda>_. True) (ensureMountPathAvailable p i)" "sources_inv.steps (\<lambda>_. True) config_Get"
  "sources_inv.steps (\<lambda>y. \<exists>slug. y = x\<lparr>src_WebDAVSlug := slug\<rparr>) (assignUniqueWebDAVSlug s x i)"
proof -
  show "sources_inv.steps (\<lambda>_. True) (src_FindByName n)" "sources_inv.steps (\<lambda>_. True) (src_FindByID i)"
    unfolding src_FindByName_def src_FindByID_def by (rule sources_unmounted; auto)+
  show "sources_inv.steps (\<lambda>_. True) (ensureMountPathAvailable p i)"
    unfolding ensureMountPathAvailable_def by (rule sources_unmounted) (intro unmounted.keeps_rules)
  have "unmounted.keeps (\<lambda>db. case sort_key cfg_ID (db_config db) of [] \<Rightarrow> (Inl ErrNotFound, db) | c # _ \<Rightarrow> (Inr c, db))"
    by (auto simp: unmounted.keeps_def split: list.splits)
  then show "sources_inv.steps (\<lambda>_. True) config_Get"
    unfolding config_Get_def by (intro sources_unmounted unmounted.keeps_stmt)
  show "sources_inv.steps (\<lambda>y. \<exists>slug. y = x\<lparr>src_WebDAVSlug := slug\<rparr>) (assignUniqueWebDAVSlug s x i)"
    unfolding assignUniqueWebDAVSlug_def src_ListAll_def Let_def
    by (intro sources_inv.steps_if_err [OF sources_unmounted [OF unmounted.keeps_select_rows]] sources_inv.steps_basic
        sources_inv.steps_if sources_inv.steps_option) blast+
qed

lemma sources_mounting:
  "sources_inv.steps (\<lambda>_. True) (syncSourceMountAfterMutation s x)"
  "sources_inv.steps (\<lambda>_. True) (case sos_mountSyncer s of None \<Rightarrow> ret ()
     | Some syncer \<Rightarrow> if_err (DisableSourceMount syncer i) (\<lambda>err. throw (ErrJoin ErrMetadataVFSMountSyncFailed err)) ret)"
  unfolding syncSourceMountAfterMutation_def
  by (intro sources_unmounted unmounted.keeps_rules unmounted.beside_sync)+

lemma sources_tx: "sources_inv.steps P m \<Longrightarrow> sources_inv.steps P (withinSourceTx s m)"
  by (simp add: withinSourceTx_def sources_inv.steps_tx)

lemma sources_try_tx:
  assumes "sources_inv.steps (\<lambda>_. True) m" "\<And>x. sources_inv.steps P (k x)"
  shows "sources_inv.steps P (try_audited s ctx ev (withinSourceTx s m) k)"
  by (rule sources_try [OF sources_tx [OF assms(1)] assms(2)])

lemma built_source_ok:
  assumes "buildSourceEntity s now req existing = Inr x"
  shows "source_ok x"
  using assms normalize_normal
  by (auto simp: buildSourceEntity_def resolveSourceMountPath_def source_ok_def tryp_Inr)

lemma source_ok_slug [simp]: "source_ok (x\<lparr>src_WebDAVSlug := w\<rparr>) = source_ok x"
  by (simp add: source_ok_def)

text \<open>One call of the service, and any sequence of calls of services on the same tables.\<close>

inductive source_call :: "DB \<Rightarrow> DB \<Rightarrow> bool" where
  create: "SourceService_Create s ctx req db = (r, db') \<Longrightarrow> source_call db db'"
| update: "SourceService_Update s ctx i req db = (r', db') \<Longrightarrow> source_call db db'"
| delete: "SourceService_Delete s ctx i db = (u, db') \<Longrightarrow> source_call db db'"
| test: "SourceService_Test s ctx req db = (t, db') \<Longrightarrow> source_call db db'"
| retest: "SourceService_Retest s ctx i db = (t, db') \<Longrightarrow> source_call db db'"

inductive source_calls :: "DB \<Rightarrow> DB \<Rightarrow> bool" where
  none: "source_calls db db"
| more: "source_calls db db1 \<Longrightarrow> source_call db1 db2 \<Longrightarrow> source_calls db db2"

lemma source_call_inv:
  assumes "source_call db db'" "sources_ok (db_sources db)"
  shows "sources_ok (db_sources db')"
proof -
  note tries = sources_inv.steps_lift sources_reads(1-5)
  note rules = tries [THEN sources_try] sources_try_tx sources_audited sources_inv.steps_basic
    sources_inv.steps_if sources_mounting sources_inv.steps_if_err [OF sources_inv.steps_basic(3)]
    sources_inv.steps_if_err [OF src_Create_inv] sources_inv.steps_if_err [OF src_Update_inv]
    sources_inv.steps_if_err [OF sources_mounting(1)] sources_inv.steps_if_err [OF sources_mounting(2)] src_Delete_inv
    sources_inv.steps_if_err [OF sources_reads(1)] sources_inv.steps_if_err [OF sources_reads(4)] TrueI
  have c: "sources_inv.steps (\<lambda>_. True) (SourceService_Create s ctx req)" for s ctx req
    unfolding SourceService_Create_def Let_def
    by (intro rules) (auto dest!: built_source_ok)
  have u: "sources_inv.steps (\<lambda>_. True) (SourceService_Update s ctx i req)" for s ctx i req
    unfolding SourceService_Update_def Let_def
    by (intro rules) (auto dest!: built_source_ok simp: source_ok_def)
  have d: "sources_inv.steps (\<lambda>_. True) (SourceService_Delete s ctx i)" for s ctx i
    unfolding SourceService_Delete_def Let_def by (intro rules)
  have t: "sources_inv.steps (\<lambda>_. True) (SourceService_Test s ctx req)" for s ctx req
    unfolding SourceService_Test_def by (intro rules)
  have rt: "sources_inv.steps (\<lambda>_. True) (SourceService_Retest s ctx i)" for s ctx i
    unfolding SourceService_Retest_def by (intro rules)
  from assms(1) show ?thesis
    by (cases rule: source_call.cases) (use assms(2) [THEN sources_inv.stepsD [rotated 2, THEN conjunct1]] c u d t rt in blast)+
qed

text \<open>C27: the source table stays well formed. Whatever sequence of Create, Update, Delete, Test and Retest
  requests is served, with whatever outcome and whatever statement fails, every source has an
  identifier and canonical mount and root paths, and no two sources share an identifier, a
  name, a WebDAV slug or a mount path.\<close>

theorem sources_well_formed:
  assumes "source_calls db db'" "sources_ok (db_sources db)"
  shows "sources_ok (db_sources db')"
  using assms by (induction rule: source_calls.induct) (auto dest: source_call_inv)


section \<open>Creating a source is all or nothing\<close>

lemma try_audited_cases:
  assumes "try_audited s ctx ev m k db = (r, db')"
  obtains (failed) e db1 where "m db = (Inl e, db1)" "r = Inl e" "audit_only db1 db'"
    | (passed) x db1 where "m db = (Inr x, db1)" "k x db1 = (r, db')"
proof -
  obtain r1 db1 where 1: "m db = (r1, db1)" by force
  show thesis
  proof (cases r1)
    case (Inl e)
    then have "audited (sos_auditRecorder s) ctx (ev e) (throw e) db1 = (r, db')"
      using assms 1 by (simp add: try_audited_def)
    then show thesis using failed 1 Inl audited_throw_ok by blast
  next
    case (Inr x)
    then show thesis using passed assms 1 by (simp add: try_audited_def)
  qed
qed

lemma source_reads_keep:
  "tables.keeps (src_FindByName n)" "tables.keeps (ensureMountPathAvailable p i)" "tables.keeps (assignUniqueWebDAVSlug s x i)"
  unfolding src_FindByName_def ensureMountPathAvailable_def assignUniqueWebDAVSlug_def src_ListAll_def Let_def
  by (intro tables.keeps_rules tables.keeps_find_row table_query_tables)+

lemma assign_slug_only: "assignUniqueWebDAVSlug s x i db = (Inr y, db') \<Longrightarrow> \<exists>slug. y = x\<lparr>src_WebDAVSlug := slug\<rparr>"
  unfolding assignUniqueWebDAVSlug_def
  by (elim tryE) (auto simp: Let_def ret_def throw_def split: if_splits option.splits)

lemma same_then_audit: "same_tables db db1 \<Longrightarrow> audit_only db1 db2 \<Longrightarrow> audit_only db db2"
  by (blast intro: audit_only_trans same_tables_audit_only)

text \<open>The transaction of Create.\<close>

lemma create_tx:
  assumes call: "withinSourceTx s (tryM (src_Create x) (\<lambda>created.
      tryM (syncSourceMountAfterMutation s created) (\<lambda>_. ret created))) db = (r, db')"
    and tx: "sos_transactor s"
  obtains (failed) e where "r = Inl e" "same_tables db db'"
    | (created) y dba dbb where "r = Inr (y\<lparr>src_ConfigJSON := jsonObject (src_ConfigJSON x)\<rparr>)"
        "same_tables (db\<lparr>db_sources := db_sources db @ [y]\<rparr>) dba"
        "\<forall>z \<in> set (db_sources db). src_ID z \<noteq> src_ID y \<and> \<not> src_clash z y" "src_ID y \<noteq> 0"
        "\<exists>canon. y = src_stamp (db_now db) (x\<lparr>src_ID := src_ID y, src_ConfigJSON := canon\<rparr>)"
        "syncSourceMountAfterMutation s (y\<lparr>src_ConfigJSON := jsonObject (src_ConfigJSON x)\<rparr>) dba = (Inr (), dbb)"
        "same_tables dbb db'"
proof -
  from call tx have "WithinTx (tryM (src_Create x) (\<lambda>created.
      tryM (syncSourceMountAfterMutation s created) (\<lambda>_. ret created))) db = (r, db')"
    by (simp add: withinSourceTx_def)
  then show thesis
  proof (cases rule: WithinTx_cases)
    case (commit v db0 dbb)
    from commit(3) obtain c dba where 1: "src_Create x db0 = (Inr c, dba)"
      and 2: "tryM (syncSourceMountAfterMutation s c) (\<lambda>_. ret c) dba = (Inr v, dbb)"
      by (rule tryE) (rule that)
    from 2 have 3: "syncSourceMountAfterMutation s c dba = (Inr (), dbb)" "v = c"
      by (elim tryE; simp add: ret_def)+
    note t0 = same_tables_fields(3,11) [OF commit(2)]
    from 1 show thesis
    proof (cases rule: src_Create_rows)
      case (added y)
      have "same_tables (db\<lparr>db_sources := db_sources db @ [y]\<rparr>) (db0\<lparr>db_sources := db_sources db @ [y]\<rparr>)"
        using same_tables_sources [OF commit(2), of "\<lambda>_. db_sources db @ [y]"] by simp
      then have "same_tables (db\<lparr>db_sources := db_sources db @ [y]\<rparr>) dba"
        using added(2) unfolding t0 by (rule same_tables_trans)
      moreover have c: "c = y\<lparr>src_ConfigJSON := jsonObject (src_ConfigJSON x)\<rparr>" using added(1) by simp
      moreover have "r = Inr c" using commit(1) 3(2) by simp
      ultimately show thesis
        using created [OF _ _ added(3) [unfolded t0] added(4) added(5) [unfolded t0] _ commit(4)] 3(1) by simp
    qed simp
  next
    case (abort e)
    then show thesis by (rule failed)
  qed
qed

text \<open>What a successful Create leaves behind, for the metadata service \<open>m\<close>.\<close>

definition source_created :: "SourceUpsertRequest \<Rightarrow> DB \<Rightarrow> StorageSourceView \<Rightarrow> DB \<Rightarrow> bool" where
  "source_created req db view db' \<longleftrightarrow>
     (\<exists>y. db_sources db' = db_sources db @ [y] \<and> src_ID y \<noteq> 0 \<and> src_ID y = sv_ID view \<and> src_Name y = su_Name req \<and>
        src_MountPath y = sv_MountPath view \<and> src_WebDAVSlug y = sv_WebDAVSlug view \<and>
        src_IsEnabled y = su_IsEnabled req \<and> source_ok y \<and>
        (\<forall>z \<in> set (db_sources db). src_ID z \<noteq> src_ID y \<and> \<not> src_clash z y) \<and>
        (list_all no_trail (segs_of (src_MountPath y)) \<longrightarrow> (\<exists>res. mounted y (src_MountPath y) db res db')))"

lemma mounted_cong:
  "db_nodes db1 = db_nodes db2 \<Longrightarrow> db_nodes db1' = db_nodes db2' \<Longrightarrow> db_mounts db1' = db_mounts db2' \<Longrightarrow>
   src_ID x = src_ID y \<Longrightarrow> src_IsEnabled x = src_IsEnabled y \<Longrightarrow>
   mounted x mp db1 res db1' = mounted y mp db2 res db2'"
  by (simp add: mounted_def)

lemma created_mount:
  assumes sync: "syncSourceMountAfterMutation s x db = (Inr (), db')" and m: "sos_mountSyncer s = Some m" "mms_transactor m"
    and ok: "tree_ok (db_nodes db)" "mounts_ok (db_mounts db)" and x: "source_ok x"
    and seg: "list_all no_trail (segs_of (src_MountPath x))"
  shows "\<exists>res. mounted x (src_MountPath x) db res db'"
proof -
  obtain res where res: "SyncSourceMount m x db = (Inr res, db')"
    using sync unfolding syncSourceMountAfterMutation_def m(1) option.case
    by (elim tryE) (auto simp: ret_def)
  have "normalizeMountPath (src_MountPath x) = Inr (src_MountPath x)"
    using x by (simp add: source_ok_def normal_def normalizeMountPath_def)
  from SyncSourceMount_outcome [OF res m(2) ok this] seg show ?thesis by (auto simp: list_all_iff)
qed

text \<open>A read-only step that does not refuse the request passes.\<close>

lemma try_audited_go:
  assumes "try_audited s ctx ev m k db1 = (r, db')" "tables.keeps m" "same_tables db db1"
    "\<not> (\<exists>e. r = Inl e \<and> audit_only db db')"
  obtains x db2 where "m db1 = (Inr x, db2)" "same_tables db db2" "k x db2 = (r, db')"
  using assms(1)
proof (cases rule: try_audited_cases)
  case (failed e db2)
  then show thesis
    using assms(4) same_then_audit [OF same_tables_trans [OF assms(3) tables_keepsD [OF assms(2) failed(1)]] failed(3)] by blast
next
  case (passed x db2)
  then show thesis using that same_tables_trans [OF assms(3) tables_keepsD [OF assms(2) passed(1)]] by blast
qed

abbreviation create_body :: "SourceService \<Rightarrow> StorageSource \<Rightarrow> (DB, StorageSource) handler" where
  "create_body s x \<equiv> withinSourceTx s (tryM (src_Create x) (\<lambda>created.
      tryM (syncSourceMountAfterMutation s created) (\<lambda>_. ret created)))"

lemma create_cases:
  assumes call: "SourceService_Create s ctx req db = (r, db')"
  obtains (refused) e where "r = Inl e" "audit_only db db'"
    | (written) x now slug dba r1 dbb where "buildSourceEntity s now req None = Inr x" "same_tables db dba"
        "create_body s (x\<lparr>src_WebDAVSlug := slug\<rparr>) dba = (r1, dbb)" "r = map_sum id (toSourceView s) r1" "audit_only dbb db'"
proof (cases "\<exists>e. r = Inl e \<and> audit_only db db'")
  case False
  let ?failed = "\<lambda>err. source_event ''create'' ResultFailed (sourceErrorCode err)"
  let ?done = "\<lambda>created. audited (sos_auditRecorder s) ctx
      ((source_event ''create'' ResultSuccess [])
        \<lparr>ev_ResourceID := encodeUintID (src_ID created), ev_SourceID := Some (src_ID created),
         ev_VirtualPath := src_MountPath created, ev_After := sourceAuditView s created\<rparr>)
      (ret (toSourceView s created))"
  let ?store = "\<lambda>slugged. try_audited s ctx ?failed (create_body s slugged) ?done"
  let ?probe = "\<lambda>slugged. try_audited s ctx ?failed (lift (validateSource s slugged)) (\<lambda>_. ?store slugged)"
  let ?slug = "\<lambda>source. try_audited s ctx (\<lambda>_. source_event ''create'' ResultFailed ''INTERNAL_ERROR'')
      (assignUniqueWebDAVSlug s source 0) ?probe"
  let ?place = "\<lambda>source. try_audited s ctx ?failed (ensureMountPathAvailable (src_MountPath source) 0) (\<lambda>_. ?slug source)"
  let ?build = "\<lambda>now. lift (buildSourceEntity s now req None)"
  obtain n db0 where 0: "src_FindByName (su_Name req) db = (n, db0)" by force
  have t0: "same_tables db db0" by (rule tables_keepsD [OF source_reads_keep(1) 0])
  have "\<exists>e. n = Inl e \<and> errors_Is e ErrNotFound"
  proof (rule ccontr)
    assume "\<not> ?thesis"
    then obtain ev e where "audited (sos_auditRecorder s) ctx ev (throw e) db0 = (r, db')"
      using call 0 by (cases n) (auto simp: SourceService_Create_def Let_def)
    then show False using same_then_audit [OF t0] False by (auto dest: audited_throw_ok)
  qed
  then have go: "try_audited s ctx ?failed (?build (db_now db0)) ?place db0 = (r, db')"
    using call 0 by (auto simp: SourceService_Create_def Let_def gets_def)
  obtain x db1 where 1: "?build (db_now db0) db0 = (Inr x, db1)" "same_tables db db1" "?place x db1 = (r, db')"
    by (rule try_audited_go [OF go tables.keeps_basic(3) t0 False])
  obtain db2 where 2: "same_tables db db2" "?slug x db2 = (r, db')"
    by (rule try_audited_go [OF 1(3) source_reads_keep(2) 1(2) False])
  obtain y db3 where 3: "assignUniqueWebDAVSlug s x 0 db2 = (Inr y, db3)" "same_tables db db3" "?probe y db3 = (r, db')"
    by (rule try_audited_go [OF 2(2) source_reads_keep(3) 2(1) False])
  obtain dba where 4: "same_tables db dba" "?store y dba = (r, db')"
    by (rule try_audited_go [OF 3(3) tables.keeps_basic(3) 3(2) False])
  obtain r1 dbb where 5: "create_body s y dba = (r1, dbb)" by force
  have "r = map_sum id (toSourceView s) r1 \<and> audit_only dbb db'"
    using 4(2) 5 by (cases rule: try_audited_cases) (auto dest: audited_ret_ok)
  moreover obtain slug where "y = x\<lparr>src_WebDAVSlug := slug\<rparr>" using assign_slug_only [OF 3(1)] by blast
  moreover have "buildSourceEntity s (db_now db0) req None = Inr x" using arg_cong [OF 1(1), of fst] by (simp add: lift_def)
  ultimately show thesis using written [OF _ 4(1)] 5 by blast
qed (use refused in blast)

text \<open>C24: Create is all or nothing. When it returns an error, whatever step failed, nothing but audit rows
  has changed. When it returns a view, exactly one source was added, the one of the view, with
  the requested name, a canonical mount path and no identifier, name, slug or mount path of
  another source; and the metadata tree shows it: a live mount node at its mount path with a
  mount row that is the only enabled one of the source.\<close>

theorem create_all_or_nothing:
  assumes call: "SourceService_Create s ctx req db = (r, db')" and tx: "sos_transactor s"
    and m: "sos_mountSyncer s = Some m" "mms_transactor m"
    and ok: "tree_ok (db_nodes db)" "mounts_ok (db_mounts db)"
  shows "case r of Inl e \<Rightarrow> audit_only db db' | Inr view \<Rightarrow> source_created req db view db'"
  using call
proof (cases rule: create_cases)
  case (written x now slug dba r1 dbb)
  note ta = same_tables_fields [OF written(2)]
  from written(3) tx show ?thesis
  proof (cases rule: create_tx)
    case (failed e)
    then show ?thesis
      using written(4,5) same_then_audit [OF same_tables_trans [OF written(2) failed(2)]] by auto
  next
    case (created y db1 db2)
    let ?y = "y\<lparr>src_ConfigJSON := jsonObject (src_ConfigJSON (x\<lparr>src_WebDAVSlug := slug\<rparr>))\<rparr>"
    obtain canon where y: "y = src_stamp (db_now dba) (x\<lparr>src_WebDAVSlug := slug, src_ID := src_ID y, src_ConfigJSON := canon\<rparr>)"
      using created(5) by blast
    have fields: "src_Name y = src_Name x" "src_MountPath y = src_MountPath x" "src_RootPath y = src_RootPath x"
      "src_IsEnabled y = src_IsEnabled x"
      by (subst y, simp add: src_stamp_def)+
    have built: "src_Name x = su_Name req" "src_IsEnabled x = su_IsEnabled req"
      using written(1) by (auto simp: buildSourceEntity_def tryp_Inr)
    have sok: "source_ok y" using built_source_ok [OF written(1)] fields by (simp add: source_ok_def)
    note t1 = same_tables_fields [OF created(2)] and t2 = same_tables_fields [OF created(7)] and
      t3 = audit_only_fields [OF written(5)]
    have "unmounted.keeps (syncSourceMountAfterMutation s ?y)"
      unfolding syncSourceMountAfterMutation_def by (intro unmounted.keeps_rules unmounted.beside_sync)
    from unmounted.keepsD [OF this created(6)] have "db_sources db2 = db_sources db1" by simp
    then have src: "db_sources db' = db_sources db @ [y]" by (simp add: t3(3) t2(3) t1(3) ta(3))
    have "\<exists>res. mounted y (src_MountPath y) db res db'" if "list_all no_trail (segs_of (src_MountPath y))"
    proof -
      have "\<exists>res. mounted ?y (src_MountPath ?y) db1 res db2"
        using created_mount [OF created(6) m] ok sok that t1(4,15) ta(4,15) by (simp add: source_ok_def)
      then show ?thesis
        using mounted_cong [of db1 db db2 db' ?y y] t1(4) ta(4) t2(4,15) t3(4,12) by auto
    qed
    then have "source_created req db (toSourceView s ?y) db'"
      unfolding source_created_def
      using src created(3,4) fields built sok ta(3) by (intro exI [of _ y]) (simp add: toSourceView_def)
    then show ?thesis using written(4) created(1) by simp
  qed
qed simp


section \<open>Secrets stay hidden\<close>

text \<open>Two rows that differ only in stored secrets that look alike.\<close>

definition secrets_alike :: "ConfigEnv \<Rightarrow> StorageSource \<Rightarrow> StorageSource \<Rightarrow> bool" where
  "secrets_alike env x y \<longleftrightarrow>
     y = x\<lparr>src_ConfigJSON := src_ConfigJSON y\<rparr> \<and>
     (src_DriverType x = ''s3'' \<and>
        (case (ParseS3ConfigJSON (ce_unmarshalS3 env) (src_ConfigJSON x), ParseS3ConfigJSON (ce_unmarshalS3 env) (src_ConfigJSON y)) of
           (Inr c, Inr c') \<Rightarrow> s3_alike c c' | _ \<Rightarrow> False) \<or>
      src_DriverType x = ''pikpak'' \<and>
        (case (ParsePikPakConfigJSON env (src_ConfigJSON x), ParsePikPakConfigJSON env (src_ConfigJSON y)) of
           (Inr c, Inr c') \<Rightarrow> pk_alike c c' | _ \<Rightarrow> False))"

lemma default_codecs:
  assumes "sos_codecs s = registerDefaultConfigCodecs env"
  shows "sourceConfigCodec s ''s3'' = Inr (s3SourceConfigCodec env)"
    "sourceConfigCodec s ''pikpak'' = Inr (pikPakSourceConfigCodec env)"
  using assms
  by (simp_all add: sourceConfigCodec_def registerDefaultConfigCodecs_def localSourceConfigCodec_def s3SourceConfigCodec_def
      pikPakSourceConfigCodec_def)

lemma secrets_alike_views:
  assumes a: "secrets_alike env x y" and codecs: "sos_codecs s = registerDefaultConfigCodecs env"
    and ctx: "\<forall>auth. ctx_auth ctx = Some auth \<longrightarrow> \<not> HasCapability (auth_Capabilities auth) CapabilitySourceSecretRead"
  shows "sourceDetailConfig s ctx x = sourceDetailConfig s ctx y" "sourceAuditView s x = sourceAuditView s y"
    "toSourceView s x = toSourceView s y" "src_LastCheckedAt x = src_LastCheckedAt y" "src_ID x = src_ID y"
proof -
  obtain raw where y: "y = x\<lparr>src_ConfigJSON := raw\<rparr>" using a unfolding secrets_alike_def by blast
  note cd = default_codecs [OF codecs]
  have d: "src_DriverType x = ''s3'' \<or> src_DriverType x = ''pikpak''" using a by (auto simp: secrets_alike_def)
  then show "toSourceView s x = toSourceView s y" "src_LastCheckedAt x = src_LastCheckedAt y" "src_ID x = src_ID y"
    by (auto simp: y toSourceView_def)
  have nocap: "(case ctx_auth ctx of None \<Rightarrow> False | Some auth \<Rightarrow> HasCapability (auth_Capabilities auth) CapabilitySourceSecretRead) = False"
    using ctx by (simp split: option.split)
  have "cc_Public codec (src_ConfigJSON x) False = cc_Public codec raw False \<and>
      cc_AuditView codec (src_ConfigJSON x) = cc_AuditView codec raw"
    if codec: "sourceConfigCodec s (src_DriverType x) = Inr codec" for codec
  proof (cases "src_DriverType x = ''s3''")
    case True
    then show ?thesis
      using a codec cd s3_hidden [of env "src_ConfigJSON x" _ raw]
      by (auto simp: secrets_alike_def y s3SourceConfigCodec_def split: sum.splits)
  next
    case False
    then show ?thesis
      using a d codec cd pikpak_hidden [of env "src_ConfigJSON x" _ raw]
      by (auto simp: secrets_alike_def y pikPakSourceConfigCodec_def split: sum.splits)
  qed
  then show "sourceDetailConfig s ctx x = sourceDetailConfig s ctx y" "sourceAuditView s x = sourceAuditView s y"
    by (auto simp: sourceDetailConfig_def sourceAuditView_def y nocap source_audit_map_def split: sum.split)
qed

lemma find_source_replaced:
  assumes "src_ID x = src_ID y"
  shows "find (\<lambda>z. src_ID z = i) (pre @ y # post) =
    (case find (\<lambda>z. src_ID z = i) pre of Some z \<Rightarrow> Some z
     | None \<Rightarrow> if src_ID x = i then Some y else find (\<lambda>z. src_ID z = i) post)"
  using assms by (induction pre) auto



section \<open>Instances\<close>

definition sample_config_env :: ConfigEnv where
  "sample_config_env =
     \<lparr>ce_unmarshalS3 = (\<lambda>raw. Inr \<lparr>s3_Endpoint = ''e'', s3_Region = ''r'', s3_Bucket = ''b'', s3_BasePrefix = [],
        s3_ForcePathStyle = False, s3_AccessKey = ''AKIA'' @ raw, s3_SecretKey = raw\<rparr>),
      ce_marshalS3 = (\<lambda>_. Inr ''{}''), ce_unmarshalPikPak = (\<lambda>_. Inl ErrInvalid), ce_marshalPikPak = (\<lambda>_. Inr ''{}''),
      ce_unmarshalLocal = (\<lambda>_. Inl ErrInvalid),
      ce_setup = \<lparr>env_MkdirAll = (\<lambda>_. Inr ()), env_json = mvs_json sample_service\<rparr>,
      ce_Stat = (\<lambda>_. Inr True), ce_ParseURL = (\<lambda>_. Inl ErrInvalid), ce_md5hex = (\<lambda>s. s), ce_int_of = (\<lambda>_. None),
      ce_uni = (\<lambda>s. s)\<rparr>"

definition sample_sources :: SourceService where
  "sample_sources =
     \<lparr>sos_codecs = registerDefaultConfigCodecs sample_config_env, sos_probes = [], sos_mountSyncer = Some sample_mounter,
      sos_aclAuthorizer = None, sos_transactor = True, sos_auditRecorder = None, sos_env = sample_config_env,
      sos_walk = (\<lambda>_. []), sos_rfc3339 = (\<lambda>_. []), sos_elapsed = 0\<rparr>"

definition sample_upsert :: SourceUpsertRequest where
  "sample_upsert =
     \<lparr>su_Name = ''d'', su_DriverType = ''local'', su_IsEnabled = True, su_IsWebDAVExposed = False,
      su_WebDAVReadOnly = False, su_MountPath = ''/m'', su_RootPath = ''/'', su_SortOrder = 0,
      su_Config = [(''base_path'', PayloadString ''/srv'')], su_SecretPatch = []\<rparr>"

definition nobody :: Context where
  "nobody = \<lparr>ctx_request = None, ctx_auth = None\<rparr>"

definition slugged_source :: "nat \<Rightarrow> string \<Rightarrow> StorageSource" where
  "slugged_source i slug = (sample_mount_source i ''/m'')\<lparr>src_WebDAVSlug := slug\<rparr>"

theorem slug_search_ends_witness:
  "let db = emptyDB\<lparr>db_sources := [slugged_source 1 ''a'', slugged_source 2 ''a-2'']\<rparr>
   in assignUniqueWebDAVSlug sample_sources (slugged_source 0 ''a'') 0 db = (Inr (slugged_source 0 ''a-3''), db)"
proof -
  let ?db = "emptyDB\<lparr>db_sources := [slugged_source 1 ''a'', slugged_source 2 ''a-2'']\<rparr>"
  let ?used = "used_slugs 0 (db_sources ?db)"
  have h: "db_faults ?db = []" "length (db_sources ?db) < 2 ^ 62" by (simp_all add: emptyDB_def)
  obtain slug where slug: "assignUniqueWebDAVSlug sample_sources (slugged_source 0 ''a'') 0 ?db =
      (Inr ((slugged_source 0 ''a'')\<lparr>src_WebDAVSlug := slug\<rparr>), ?db)" "slug_numbered ?used ''a'' (length ?used) slug"
    using slug_search_ends [OF h, of 0 sample_sources "slugged_source 0 ''a''"] by (auto simp: slugged_source_def slug_base_def Let_def)
  have u: "?used = [''a'', ''a-2'']" by code_simp
  have c: "slug_candidate ''a'' (int 2) = ''a-2''" "slug_candidate ''a'' (int 3) = ''a-3''" "[2..<length [''a'', ''a-2''] + 3] = [2, 3, 4::nat]"
    by code_simp+
  note n = slug(2) [unfolded u]
  have "slug = ''a-3''"
  proof -
    have "slug \<notin> set [''a'', ''a-2'']" "slug \<noteq> ''a''" using n by (auto simp: slug_numbered_def)
    then obtain k where k: "k \<in> set [2, 3, 4::nat]" "slug = slug_candidate ''a'' (int k)" "\<forall>i \<in> {2..<k}. slug_candidate ''a'' (int i) \<in> set [''a'', ''a-2'']"
      using n unfolding slug_numbered_def list_ex_iff c(3) by blast
    moreover have "k \<noteq> 2" using k(2) c(1) \<open>slug \<notin> set [''a'', ''a-2'']\<close> by auto
    moreover have "k \<noteq> 4" using k(3) [rule_format, of 3] c(2) by auto
    ultimately show ?thesis using c(2) by auto
  qed
  then show ?thesis using slug(1) by (simp add: slugged_source_def)
qed


theorem sources_well_formed_witness:
  "let (r, db) = SourceService_Create sample_sources nobody sample_upsert (sample_tree\<lparr>db_seq := (\<lambda>_. 4)\<rparr>)
   in map (\<lambda>x. (src_ID x, src_MountPath x, src_WebDAVSlug x)) (db_sources db) = [(5, ''/m'', ''d'')] \<and> sources_ok (db_sources db)"
proof -
  let ?db = "sample_tree\<lparr>db_seq := (\<lambda>_. 4)\<rparr>"
  let ?c = "SourceService_Create sample_sources nobody sample_upsert ?db"
  have "source_calls ?db (snd ?c)"
    by (rule source_calls.more [OF source_calls.none source_call.create [OF prod.collapse [symmetric]]])
  moreover have "sources_ok (db_sources ?db)" by code_simp
  ultimately have "sources_ok (db_sources (snd ?c))" by (rule sources_well_formed)
  moreover have "map (\<lambda>x. (src_ID x, src_MountPath x, src_WebDAVSlug x)) (db_sources (snd ?c)) = [(5, ''/m'', ''d'')]"
    by code_simp
  ultimately show ?thesis by (simp add: case_prod_unfold)
qed

theorem create_all_or_nothing_witness:
  "let db = sample_tree\<lparr>db_seq := (\<lambda>_. 4)\<rparr>; (r, db') = SourceService_Create sample_sources nobody sample_upsert db
   in \<exists>view. r = Inr view \<and> source_created sample_upsert db view db' \<and> sv_MountPath view = ''/m''"
proof -
  let ?db = "sample_tree\<lparr>db_seq := (\<lambda>_. 4)\<rparr>"
  let ?c = "SourceService_Create sample_sources nobody sample_upsert ?db"
  have h: "sos_transactor sample_sources" "sos_mountSyncer sample_sources = Some sample_mounter" "mms_transactor sample_mounter"
    "tree_ok (db_nodes ?db)" "mounts_ok (db_mounts ?db)"
    by (simp add: sample_sources_def, simp add: sample_sources_def, code_simp+)
  have "(case fst ?c of Inl _ \<Rightarrow> [] | Inr view \<Rightarrow> sv_MountPath view) = ''/m''" by code_simp
  then show ?thesis
    using create_all_or_nothing [OF prod.collapse [symmetric] h(1,2,3,4,5), of nobody sample_upsert] by (auto simp: Let_def split: sum.splits prod.splits)
qed

text \<open>Two S3 rows with different secret keys and different access keys that start alike.\<close>

definition s3_row :: "string \<Rightarrow> StorageSource" where
  "s3_row raw = (sample_mount_source 1 ''/m'')\<lparr>src_DriverType := ''s3'', src_ConfigJSON := raw\<rparr>"

lemma sample_s3_parse:
  "ParseS3ConfigJSON (ce_unmarshalS3 sample_config_env) ''x'' = Inr \<lparr>s3_Endpoint = ''e'', s3_Region = ''r'', s3_Bucket = ''b'',
     s3_BasePrefix = [], s3_ForcePathStyle = False, s3_AccessKey = ''AKIAx'', s3_SecretKey = ''x''\<rparr>"
  "ParseS3ConfigJSON (ce_unmarshalS3 sample_config_env) ''yz'' = Inr \<lparr>s3_Endpoint = ''e'', s3_Region = ''r'', s3_Bucket = ''b'',
     s3_BasePrefix = [], s3_ForcePathStyle = False, s3_AccessKey = ''AKIAyz'', s3_SecretKey = ''yz''\<rparr>"
proof -
  have "TrimSpace ''e'' = ''e''" "TrimSpace ''r'' = ''r''" "TrimSpace ''b'' = ''b''" "TrimSpace ''AKIAx'' = ''AKIAx''"
    "TrimSpace ''x'' = ''x''" "TrimSpace ''AKIAyz'' = ''AKIAyz''" "TrimSpace ''yz'' = ''yz''" "normalizeKeyPrefix [] = []"
    by code_simp+
  then show "ParseS3ConfigJSON (ce_unmarshalS3 sample_config_env) ''x'' = Inr \<lparr>s3_Endpoint = ''e'', s3_Region = ''r'', s3_Bucket = ''b'',
       s3_BasePrefix = [], s3_ForcePathStyle = False, s3_AccessKey = ''AKIAx'', s3_SecretKey = ''x''\<rparr>"
    "ParseS3ConfigJSON (ce_unmarshalS3 sample_config_env) ''yz'' = Inr \<lparr>s3_Endpoint = ''e'', s3_Region = ''r'', s3_Bucket = ''b'',
       s3_BasePrefix = [], s3_ForcePathStyle = False, s3_AccessKey = ''AKIAyz'', s3_SecretKey = ''yz''\<rparr>"
    by (simp_all add: ParseS3ConfigJSON_def sample_config_env_def s3_normalize_def s3_Validate_def)
qed


end
