(* ===== verification/File_Service.thy ===== *)
theory File_Service
  imports Upload File_Access
begin

text \<open>
  File operations on a source (\<^verbatim>\<open>file_service.go\<close>, \<^verbatim>\<open>trash_item_repo_impl.go\<close>): listing, status
  and search, and making, renaming, moving, copying and deleting files, on the directories of a
  local source or through the driver of another. Deleting moves the file into the trash
  directory of its source and records a row for it. Drivers are parameters, called through
  \<^const>\<open>driver_call\<close>; the names in a directory are read by the parameter \<open>fsv_names\<close>, the
  sorted names that \<^verbatim>\<open>os.ReadDir\<close> returns.
\<close>

section \<open>More operations of the file system\<close>

abbreviation "ErrNotDir \<equiv> ErrOther ''not a directory''"
abbreviation "ErrNameTooLong \<equiv> ErrOther ''file name too long''"
abbreviation "ErrNilPointer \<equiv> ErrOther ''nil pointer dereference''"

definition os_Mkdir :: "string \<Rightarrow> (Host, unit) handler" where
  "os_Mkdir p = fs_query (\<lambda>h.
     if is_dir_at (host_fs h) p \<or> host_fs h p \<noteq> None then (Inl ErrExist, h)
     else if \<not> is_dir_at (host_fs h) (path_Dir p)
     then (Inl (if host_fs h (path_Dir p) = None then ErrNotExist else ErrNotDir), h)
     else (Inr (), set_node p (Some (Directory (host_now h))) h))"

text \<open>
  \<^verbatim>\<open>os.Rename\<close>: a file replaces a file, a directory is never replaced, and nothing is moved
  below itself; the root and the working directory are busy. The whole subtree moves.
\<close>

definition moved_tree :: "string \<Rightarrow> string \<Rightarrow> files \<Rightarrow> files" where
  "moved_tree a b fs q = (if below b q then fs (a @ drop (length b) q) else if below a q then None else fs q)"

definition os_Rename :: "string \<Rightarrow> string \<Rightarrow> (Host, unit) handler" where
  "os_Rename a b = fs_query (\<lambda>h.
     case host_fs h a of
       None \<Rightarrow> (Inl ErrNotExist, h)
     | Some x \<Rightarrow>
         if a = ''/'' \<or> a = ''.'' then (Inl (ErrOther ''device or resource busy''), h)
         else if is_dir_at (host_fs h) b then (Inl ErrExist, h)
         else if a = b then (Inr (), h)
         else if \<not> is_dir_at (host_fs h) (path_Dir b)
         then (Inl (if host_fs h (path_Dir b) = None then ErrNotExist else ErrNotDir), h)
         else if below a b then (Inl (ErrOther ''invalid argument''), h)
         else if is_dir_at (host_fs h) a \<and> host_fs h b \<noteq> None then (Inl ErrNotDir, h)
         else (Inr (), h\<lparr>host_fs := moved_tree a b (host_fs h)\<rparr>))"

definition os_ReadDir :: "(files \<Rightarrow> string \<Rightarrow> string list) \<Rightarrow> string \<Rightarrow> (Host, (string \<times> fs_node) list) handler" where
  "os_ReadDir names p = fs_query (\<lambda>h.
     if is_dir_at (host_fs h) p
     then (Inr (concat (map (\<lambda>n. case host_fs h (path_Join [p, n]) of None \<Rightarrow> [] | Some x \<Rightarrow> [(n, x)]) (names (host_fs h) p))), h)
     else (Inl (if host_fs h p = None then ErrNotExist else ErrNotDir), h))"

text \<open>
  \<^verbatim>\<open>filepath.WalkDir\<close>: the callback gets the path and the entry and says whether to skip the
  directory; the values of all calls are collected. An error of a callback, and an error of
  \<^verbatim>\<open>os.ReadDir\<close>, which every callback of this file hands back, ends the walk. The first
  argument bounds the depth: the operating system refuses a path beyond its length limit.
\<close>

function (sequential) walk ::
    "(files \<Rightarrow> string \<Rightarrow> string list) \<Rightarrow> (string \<Rightarrow> fs_node \<Rightarrow> (Host, bool \<times> 'b list) handler) \<Rightarrow>
     nat \<Rightarrow> string \<Rightarrow> fs_node \<Rightarrow> (Host, 'b list) handler"
  and walk_entries ::
    "(files \<Rightarrow> string \<Rightarrow> string list) \<Rightarrow> (string \<Rightarrow> fs_node \<Rightarrow> (Host, bool \<times> 'b list) handler) \<Rightarrow>
     nat \<Rightarrow> string \<Rightarrow> (string \<times> fs_node) list \<Rightarrow> (Host, 'b list) handler" where
  "walk names fn 0 p d = throw ErrNameTooLong"
| "walk names fn (Suc k) p d =
     tryM (fn p d) (\<lambda>(skip, xs).
       if skip \<or> \<not> node_IsDir d then ret xs
       else tryM (os_ReadDir names p) (\<lambda>entries. tryM (walk_entries names fn k p entries) (\<lambda>ys. ret (xs @ ys))))"
| "walk_entries names fn k p [] = ret []"
| "walk_entries names fn k p ((n, d) # entries) =
     tryM (walk names fn k (path_Join [p, n]) d) (\<lambda>xs.
     tryM (walk_entries names fn k p entries) (\<lambda>ys. ret (xs @ ys)))"
  by pat_completeness auto
termination
  by (relation "measures [case_sum (\<lambda>(_, _, k, _, _). 2 * k) (\<lambda>(_, _, k, _, _). 2 * k + 1),
        case_sum (\<lambda>_. 0) (\<lambda>(_, _, _, _, es). length es)]") auto

definition WalkDir ::
  "(files \<Rightarrow> string \<Rightarrow> string list) \<Rightarrow> (string \<Rightarrow> fs_node \<Rightarrow> (Host, bool \<times> 'b list) handler) \<Rightarrow>
   nat \<Rightarrow> string \<Rightarrow> (Host, 'b list) handler" where
  "WalkDir names fn depth root = tryM (os_Stat root) (\<lambda>d. walk names fn depth root d)"

section \<open>Requests, drivers and the service\<close>

record MkdirRequest =
  mk_SourceID :: nat
  mk_ParentPath :: string
  mk_Name :: string

record RenameRequest =
  rn_SourceID :: nat
  rn_Path :: string
  rn_NewName :: string

record MoveCopyRequest =
  mvc_SourceID :: nat
  mvc_Path :: string
  mvc_TargetPath :: string

record DeleteFileRequest =
  del_SourceID :: nat
  del_Path :: string
  del_DeleteMode :: string

record FileListQuery =
  flq_SourceID :: nat
  flq_Path :: string
  flq_Page :: int
  flq_PageSize :: int
  flq_SortBy :: string
  flq_SortOrder :: string

record FileSearchQuery =
  fsq_SourceID :: nat
  fsq_Keyword :: string
  fsq_PathPrefix :: string
  fsq_Page :: int
  fsq_PageSize :: int

text \<open>The capabilities this service looks at.\<close>

record StorageCapabilities =
  cap_CanDownload :: bool
  cap_CanDelete :: bool
  cap_CanProviderTrash :: bool

text \<open>A driver as this service calls it; the number counts the calls of drivers on the host.\<close>

record FileOpsDriver =
  fo_List :: "nat \<Rightarrow> StorageSource \<Rightarrow> string \<Rightarrow> StorageEntry list result"
  fo_SearchByName :: "nat \<Rightarrow> StorageSource \<Rightarrow> string \<Rightarrow> string \<Rightarrow> StorageEntry list result"
  fo_Stat :: "nat \<Rightarrow> StorageSource \<Rightarrow> string \<Rightarrow> StorageEntry result"
  fo_Mkdir :: "nat \<Rightarrow> StorageSource \<Rightarrow> string \<Rightarrow> string \<Rightarrow> StorageEntry result"
  fo_Rename :: "nat \<Rightarrow> StorageSource \<Rightarrow> string \<Rightarrow> string \<Rightarrow> StorageEntry result"
  fo_Move :: "nat \<Rightarrow> StorageSource \<Rightarrow> string \<Rightarrow> string \<Rightarrow> unit result"
  fo_Copy :: "nat \<Rightarrow> StorageSource \<Rightarrow> string \<Rightarrow> string \<Rightarrow> unit result"
  fo_Delete :: "nat \<Rightarrow> StorageSource \<Rightarrow> string \<Rightarrow> unit result"

text \<open>
  \<open>fsv_probe\<close> is the random part of the name of the file that probes whether a directory can be
  written, if directories are probed; \<open>fsv_stamp\<close> formats the time of a deletion.
\<close>

record FileService =
  fsv_aclAuthorizer :: "(DB \<Rightarrow> ACLAuthorizer) option"
  fsv_fileDrivers :: "string \<Rightarrow> FileOpsDriver option"
  fsv_capabilities :: "string \<Rightarrow> (StorageSource \<Rightarrow> StorageCapabilities result) option"
  fsv_trashItemRepo :: bool
  fsv_probe :: "string option"
  fsv_auditRecorder :: "Recorder option"
  fsv_env :: GoEnv
  fsv_unmarshal :: "string \<Rightarrow> string result"
  fsv_names :: "files \<Rightarrow> string \<Rightarrow> string list"
  fsv_depth :: nat
  fsv_stamp :: "gotime \<Rightarrow> string"

section \<open>Trash rows\<close>

definition trash_setID :: "nat \<Rightarrow> TrashItem \<Rightarrow> TrashItem" where
  "trash_setID i x = x\<lparr>trash_ID := i\<rparr>"

definition trash_stamp :: "gotime \<Rightarrow> TrashItem \<Rightarrow> TrashItem" where
  "trash_stamp now x =
     x\<lparr>trash_CreatedAt := (if trash_CreatedAt x = 0 then now else trash_CreatedAt x),
       trash_UpdatedAt := (if trash_UpdatedAt x = 0 then now else trash_UpdatedAt x)\<rparr>"

definition trash_Create :: "TrashItem \<Rightarrow> (DB, TrashItem) handler" where
  "trash_Create x db =
     insert_row ''trash_items'' db_trash db_trash_update trash_ID trash_setID (\<lambda>_ _. False) (trash_stamp (db_now db) x) db"

definition trash_FindByID :: "nat \<Rightarrow> (DB, TrashItem) handler" where
  "trash_FindByID i = find_row db_trash (\<lambda>x. trash_ID x = i)"

definition trash_ListBySourceID :: "nat \<Rightarrow> (DB, TrashItem list) handler" where
  "trash_ListBySourceID sourceID =
     select_rows (\<lambda>db. rev (sort_key (\<lambda>x. (trash_DeletedAt x, trash_ID x)) (filter (\<lambda>x. trash_SourceID x = sourceID) (db_trash db))))"

definition trash_Delete :: "nat \<Rightarrow> (DB, unit) handler" where
  "trash_Delete = delete_row db_trash db_trash_update trash_ID"

section \<open>Helpers\<close>

definition fsv_getFileDriver :: "FileService \<Rightarrow> string \<Rightarrow> FileOpsDriver result" where
  "fsv_getFileDriver s driverType =
     (case fsv_fileDrivers s driverType of None \<Rightarrow> Inl ErrSourceDriverUnsupported | Some d \<Rightarrow> Inr d)"

definition driverCapabilities :: "FileService \<Rightarrow> StorageSource \<Rightarrow> StorageCapabilities option result" where
  "driverCapabilities s source =
     (case fsv_capabilities s (src_DriverType source) of
        None \<Rightarrow> Inr None
      | Some provider \<Rightarrow> tryp (provider source) (\<lambda>c. Inr (Some c)))"

definition applyFileItemCapabilities :: "StorageCapabilities option \<Rightarrow> FileItem \<Rightarrow> FileItem" where
  "applyFileItemCapabilities capabilities item =
     (case capabilities of
        None \<Rightarrow> item
      | Some c \<Rightarrow> item\<lparr>fi_CanDownload := fi_CanDownload item \<and> cap_CanDownload c,
                       fi_CanDelete := fi_CanDelete item \<and> cap_CanDelete c\<rparr>)"

definition fsv_authorizePath :: "FileService \<Rightarrow> Context \<Rightarrow> nat \<Rightarrow> string \<Rightarrow> ACLAction \<Rightarrow> (Host, unit) handler" where
  "fsv_authorizePath s ctx sourceID pathValue action h =
     (case fsv_aclAuthorizer s of
        None \<Rightarrow> (Inr (), h)
      | Some az \<Rightarrow> (AuthorizePath (Some (az (host_db h))) (ctx_auth ctx) sourceID pathValue action, h))"

definition filterReadableFileItems :: "FileService \<Rightarrow> Context \<Rightarrow> nat \<Rightarrow> FileItem list \<Rightarrow> (Host, FileItem list) handler" where
  "filterReadableFileItems s ctx sourceID items h =
     (case fsv_aclAuthorizer s of
        None \<Rightarrow> (Inr items, h)
      | Some az \<Rightarrow> (FilterFileItems (Some (az (host_db h))) (ctx_auth ctx) sourceID items, h))"

definition canWriteLocalDir :: "FileService \<Rightarrow> string \<Rightarrow> (Host, bool) handler" where
  "canWriteLocalDir s dir =
     (case fsv_probe s of None \<Rightarrow> ret True | Some tempName \<Rightarrow> probeLocalDirectoryWritable tempName dir)"

definition physical :: "FileService \<Rightarrow> StorageSource \<Rightarrow> string \<Rightarrow> string result" where
  "physical s source virtualPath = map_sum id snd (resolvePhysicalPath (fsv_unmarshal s) source virtualPath)"

text \<open>The path of a child, and the parent of a path.\<close>

definition child_path :: "string \<Rightarrow> string \<Rightarrow> string" where
  "child_path parent name = (if parent = ''/'' then ''/'' @ name else path_Join [parent, name])"

definition parent_dir :: "string \<Rightarrow> string" where
  "parent_dir p = (let parent = path_Dir p in if parent = ''.'' then ''/'' else parent)"

text \<open>The errors of a driver, with the one for an existing target.\<close>

definition driver_error :: "app_error \<Rightarrow> app_error \<Rightarrow> app_error" where
  "driver_error conflict err =
     (if errors_Is err ErrNotExist then ErrFileNotFound
      else if errors_Is err ErrExist then conflict
      else if errors_Is err ErrInvalid then ErrPathInvalid
      else err)"

definition read_error :: "app_error \<Rightarrow> app_error" where
  "read_error err =
     (if errors_Is err ErrNotExist then ErrFileNotFound
      else if errors_Is err ErrInvalid then ErrFileIsDirectory
      else err)"

definition local_error :: "FileService \<Rightarrow> app_error \<Rightarrow> app_error" where
  "local_error s err = normalizeLocalWriteError (fsv_env s) err"

text \<open>The item of a path that has just been written; without its status the code dereferences \<^verbatim>\<open>nil\<close>.\<close>

definition written_item :: "FileService \<Rightarrow> StorageSource \<Rightarrow> string \<Rightarrow> string \<Rightarrow> (Host, FileItem option) handler" where
  "written_item s source virtualPath physicalPath =
     if_err (os_Stat physicalPath) (\<lambda>_. ret None)
       (\<lambda>info. ret (Some (buildFileItem (fsv_env s) (src_ID source) virtualPath (path_Base physicalPath) info)))"

section \<open>Listing, status and search\<close>

definition time_Now :: "(Host, gotime) handler" where
  "time_Now h = (Inr (host_now h), h)"

definition file_paged :: "'a list \<Rightarrow> int \<Rightarrow> int \<Rightarrow> (Host, 'a list \<times> int \<times> int) handler" where
  "file_paged items page pageSize =
     (case paginateItems items page pageSize of
        None \<Rightarrow> throw (ErrOther ''panic: slice bounds out of range'') | Some x \<Rightarrow> ret x)"

text \<open>\<^verbatim>\<open>filepath.Rel\<close> of a path that \<^verbatim>\<open>WalkDir\<close> made from the base.\<close>

definition rel_path :: "string \<Rightarrow> string \<Rightarrow> string" where
  "rel_path base current =
     (if current = base then ''.''
      else if base = ''.'' then current
      else if base = ''/'' then drop 1 current
      else drop (Suc (length base)) current)"

definition hidden_name :: "string \<Rightarrow> bool" where
  "hidden_name name \<longleftrightarrow> HasPrefix name ''.trash'' \<or> HasPrefix name ''.system''"

fun list_entries :: "FileService \<Rightarrow> StorageSource \<Rightarrow> string \<Rightarrow> string \<Rightarrow> bool \<Rightarrow> (string \<times> fs_node) list \<Rightarrow> (Host, FileItem list) handler" where
  "list_entries s source virtualPath physicalPath parentWritable [] = ret []"
| "list_entries s source virtualPath physicalPath parentWritable ((name, d) # entries) =
     (if hidden_name name then list_entries s source virtualPath physicalPath parentWritable entries
      else
        tryM (os_Stat (path_Join [physicalPath, name])) (\<lambda>info.
          let item = buildFileItem (fsv_env s) (src_ID source) (child_path virtualPath name) name info
          in tryM (list_entries s source virtualPath physicalPath parentWritable entries) (\<lambda>items.
               ret (item\<lparr>fi_CanDelete := fi_CanDelete item \<and> parentWritable\<rparr> # items))))"

record FileListing =
  fl_Items :: "FileItem list"
  fl_CurrentPath :: string
  fl_CurrentSourceID :: nat
  fl_Page :: int
  fl_PageSize :: int
  fl_Total :: int
  fl_TotalPages :: int

definition finish_listing ::
  "FileService \<Rightarrow> Context \<Rightarrow> nat \<Rightarrow> FileItem list \<Rightarrow> string \<Rightarrow> string \<Rightarrow> string \<Rightarrow> int \<Rightarrow> int \<Rightarrow> (Host, FileListing) handler" where
  "finish_listing s ctx sourceID items sortBy sortOrder currentPath page pageSize =
     tryM (filterReadableFileItems s ctx sourceID (sortFileItems (env_uni (fsv_env s)) items sortBy sortOrder)) (\<lambda>items.
     tryM (file_paged items page pageSize) (\<lambda>(pageItems, tot, totalPages).
       ret \<lparr>fl_Items = pageItems, fl_CurrentPath = currentPath, fl_CurrentSourceID = sourceID,
            fl_Page = pageValue page, fl_PageSize = pageSizeValue pageSize, fl_Total = tot, fl_TotalPages = totalPages\<rparr>))"

definition driver_items :: "FileService \<Rightarrow> StorageSource \<Rightarrow> StorageEntry list \<Rightarrow> FileItem list result" where
  "driver_items s source entries =
     tryp (driverCapabilities s source) (\<lambda>capabilities.
       Inr (map (\<lambda>e. applyFileItemCapabilities capabilities (buildStorageEntryItem (fsv_env s) (src_ID source) e))
              (filter (\<lambda>e. \<not> isHiddenStorageEntry e) entries)))"

definition listWithDriver :: "FileService \<Rightarrow> Context \<Rightarrow> StorageSource \<Rightarrow> FileListQuery \<Rightarrow> (Host, FileListing) handler" where
  "listWithDriver s ctx source query =
     tryM (lift (fsv_getFileDriver s (src_DriverType source))) (\<lambda>driver.
     tryM (lift (normalizeVirtualPath (flq_Path query))) (\<lambda>virtualPath.
     if_err (driver_call (\<lambda>n. fo_List driver n source virtualPath)) (\<lambda>err. throw (read_error err)) (\<lambda>entries.
     tryM (lift (driver_items s source entries)) (\<lambda>items.
       finish_listing s ctx (src_ID source) items (flq_SortBy query) (flq_SortOrder query) virtualPath
         (flq_Page query) (flq_PageSize query)))))"

definition List_files :: "FileService \<Rightarrow> Context \<Rightarrow> FileListQuery \<Rightarrow> (Host, FileListing) handler" where
  "List_files s ctx query =
     tryM (onDB (src_FindByID (flq_SourceID query))) (\<lambda>source.
       if src_DriverType source \<noteq> ''local'' then listWithDriver s ctx source query
       else
         tryM (lift (normalizeVirtualPath (flq_Path query))) (\<lambda>virtualPath.
         tryM (lift (physical s source virtualPath)) (\<lambda>physicalPath.
         if_err (os_ReadDir (fsv_names s) physicalPath)
           (\<lambda>err. throw (if errors_Is err ErrNotExist then ErrFileNotFound else err)) (\<lambda>entries.
         tryM (canWriteLocalDir s physicalPath) (\<lambda>parentWritable.
         tryM (list_entries s source virtualPath physicalPath parentWritable entries) (\<lambda>items.
           finish_listing s ctx (src_ID source) items (flq_SortBy query) (flq_SortOrder query) virtualPath
             (flq_Page query) (flq_PageSize query)))))))"

definition statWithDriver :: "FileService \<Rightarrow> StorageSource \<Rightarrow> string \<Rightarrow> (Host, FileItem) handler" where
  "statWithDriver s source filePath =
     tryM (lift (fsv_getFileDriver s (src_DriverType source))) (\<lambda>driver.
     tryM (lift (normalizeVirtualPath filePath)) (\<lambda>virtualPath.
     if_err (driver_call (\<lambda>n. fo_Stat driver n source virtualPath)) (\<lambda>err. throw (read_error err)) (\<lambda>entry.
     tryM (lift (driverCapabilities s source)) (\<lambda>capabilities.
       ret (applyFileItemCapabilities capabilities (buildStorageEntryItem (fsv_env s) (src_ID source) entry))))))"

definition Stat_file :: "FileService \<Rightarrow> Context \<Rightarrow> nat \<Rightarrow> string \<Rightarrow> (Host, FileItem) handler" where
  "Stat_file s ctx sourceID filePath =
     tryM (onDB (src_FindByID sourceID)) (\<lambda>source.
     tryM (fsv_authorizePath s ctx (src_ID source) filePath ACLActionRead) (\<lambda>_.
       if src_DriverType source \<noteq> ''local'' then statWithDriver s source filePath
       else
         tryM (lift (normalizeVirtualPath filePath)) (\<lambda>virtualPath.
         tryM (lift (physical s source virtualPath)) (\<lambda>physicalPath.
         if_err (os_Stat physicalPath) (\<lambda>err. throw (if errors_Is err ErrNotExist then ErrFileNotFound else err)) (\<lambda>info.
           ret (buildFileItem (fsv_env s) (src_ID source) virtualPath (path_Base physicalPath) info))))))"

text \<open>The callback of the search: the entry it adds, if any.\<close>

definition search_entry ::
  "FileService \<Rightarrow> StorageSource \<Rightarrow> string \<Rightarrow> string \<Rightarrow> string \<Rightarrow> string \<Rightarrow> fs_node \<Rightarrow> (Host, bool \<times> FileItem list) handler" where
  "search_entry s source pathPrefix basePath lowerKeyword current d =
     (if current = basePath then ret (False, [])
      else
        let name = path_Base current
        in if hidden_name name then ret (node_IsDir d, [])
           else if \<not> Contains (ToLower (env_uni (fsv_env s)) name) lowerKeyword then ret (False, [])
           else
             tryM (os_Stat current) (\<lambda>info.
               let relative = rel_path basePath current;
                   virtualPath = child_path pathPrefix relative
               in ret (False, [buildFileItem (fsv_env s) (src_ID source) virtualPath name info])))"

definition search_prefix :: "FileSearchQuery \<Rightarrow> string result" where
  "search_prefix query = (if fsq_PathPrefix query \<noteq> [] then normalizeVirtualPath (fsq_PathPrefix query) else Inr ''/'')"

definition finish_search ::
  "FileService \<Rightarrow> Context \<Rightarrow> nat \<Rightarrow> FileItem list \<Rightarrow> string \<Rightarrow> FileSearchQuery \<Rightarrow> (Host, FileListing) handler" where
  "finish_search s ctx sourceID items pathPrefix query =
     finish_listing s ctx sourceID items ''name'' ''asc'' (if fsq_PathPrefix query \<noteq> [] then pathPrefix else [])
       (fsq_Page query) (fsq_PageSize query)"

definition searchWithDriver :: "FileService \<Rightarrow> Context \<Rightarrow> StorageSource \<Rightarrow> FileSearchQuery \<Rightarrow> (Host, FileListing) handler" where
  "searchWithDriver s ctx source query =
     tryM (lift (fsv_getFileDriver s (src_DriverType source))) (\<lambda>driver.
     tryM (lift (search_prefix query)) (\<lambda>pathPrefix.
     if_err (driver_call (\<lambda>n. fo_SearchByName driver n source pathPrefix (fsq_Keyword query)))
       (\<lambda>err. throw (read_error err)) (\<lambda>entries.
     tryM (lift (driver_items s source entries)) (\<lambda>items. finish_search s ctx (src_ID source) items pathPrefix query))))"

definition Search_files :: "FileService \<Rightarrow> Context \<Rightarrow> FileSearchQuery \<Rightarrow> (Host, FileListing) handler" where
  "Search_files s ctx query =
     tryM (onDB (src_FindByID (fsq_SourceID query))) (\<lambda>source.
       if src_DriverType source \<noteq> ''local'' then searchWithDriver s ctx source query
       else
         tryM (lift (search_prefix query)) (\<lambda>pathPrefix.
         tryM (lift (physical s source pathPrefix)) (\<lambda>basePath.
         tryM (WalkDir (fsv_names s)
                (search_entry s source pathPrefix basePath (ToLower (env_uni (fsv_env s)) (fsq_Keyword query)))
                (fsv_depth s) basePath) (\<lambda>items.
           finish_search s ctx (src_ID source) items pathPrefix query))))"


section \<open>Making directories\<close>

definition mkdirLocal :: "FileService \<Rightarrow> StorageSource \<Rightarrow> MkdirRequest \<Rightarrow> (Host, FileItem option) handler" where
  "mkdirLocal s source req =
     tryM (lift (validateFileName (mk_Name req))) (\<lambda>_.
     tryM (lift (normalizeVirtualPath (mk_ParentPath req))) (\<lambda>parentPath.
     tryM (lift (physical s source parentPath)) (\<lambda>parentPhysical.
     if_err (os_Stat parentPhysical) (\<lambda>_. throw ErrFileNotFound) (\<lambda>info.
       if \<not> node_IsDir info then throw ErrPathInvalid
       else
         tryM (canWriteLocalDir s parentPhysical) (\<lambda>writable.
           if \<not> writable then throw ErrSourceReadOnly
           else
             let targetVirtual = child_path parentPath (mk_Name req)
             in tryM (lift (physical s source targetVirtual)) (\<lambda>targetPhysical.
                if_err (os_Stat targetPhysical)
                  (\<lambda>_. if_err (os_Mkdir targetPhysical) (\<lambda>err. throw (local_error s err)) (\<lambda>_.
                         written_item s source targetVirtual targetPhysical))
                  (\<lambda>_. throw ErrFileAlreadyExists)))))))"

definition mkdirWithDriver :: "FileService \<Rightarrow> StorageSource \<Rightarrow> MkdirRequest \<Rightarrow> (Host, FileItem option) handler" where
  "mkdirWithDriver s source req =
     tryM (lift (fsv_getFileDriver s (src_DriverType source))) (\<lambda>driver.
     tryM (lift (validateFileName (mk_Name req))) (\<lambda>_.
     tryM (lift (normalizeVirtualPath (mk_ParentPath req))) (\<lambda>parentPath.
     if_err (driver_call (\<lambda>n. fo_Mkdir driver n source parentPath (mk_Name req)))
       (\<lambda>err. throw (driver_error ErrFileAlreadyExists err)) (\<lambda>entry.
       ret (Some (buildStorageEntryItem (fsv_env s) (src_ID source) entry))))))"

section \<open>Renaming, moving and copying\<close>

definition renameLocal :: "FileService \<Rightarrow> StorageSource \<Rightarrow> RenameRequest \<Rightarrow> (Host, string \<times> string \<times> FileItem option) handler" where
  "renameLocal s source req =
     tryM (lift (validateFileName (rn_NewName req))) (\<lambda>_.
     tryM (lift (normalizeVirtualPath (rn_Path req))) (\<lambda>virtualPath.
     tryM (lift (physical s source virtualPath)) (\<lambda>physicalPath.
     if_err (os_Stat physicalPath) (\<lambda>_. throw ErrFileNotFound) (\<lambda>_.
       let parentVirtual = parent_dir virtualPath
       in tryM (lift (physical s source parentVirtual)) (\<lambda>parentPhysical.
          tryM (canWriteLocalDir s parentPhysical) (\<lambda>writable.
            if \<not> writable then throw ErrSourceReadOnly
            else
              let newVirtual = child_path parentVirtual (rn_NewName req)
              in tryM (lift (physical s source newVirtual)) (\<lambda>newPhysical.
                 if_err (os_Stat newPhysical)
                   (\<lambda>_. if_err (os_Rename physicalPath newPhysical) (\<lambda>err. throw (local_error s err)) (\<lambda>_.
                          tryM (written_item s source newVirtual newPhysical) (\<lambda>item.
                            ret (virtualPath, newVirtual, item))))
                   (\<lambda>_. throw ErrFileAlreadyExists))))))))"

definition renameWithDriver :: "FileService \<Rightarrow> StorageSource \<Rightarrow> RenameRequest \<Rightarrow> (Host, string \<times> string \<times> FileItem option) handler" where
  "renameWithDriver s source req =
     tryM (lift (fsv_getFileDriver s (src_DriverType source))) (\<lambda>driver.
     tryM (lift (validateFileName (rn_NewName req))) (\<lambda>_.
     tryM (lift (normalizeVirtualPath (rn_Path req))) (\<lambda>virtualPath.
     if_err (driver_call (\<lambda>n. fo_Rename driver n source virtualPath (rn_NewName req)))
       (\<lambda>err. throw (driver_error ErrFileAlreadyExists err)) (\<lambda>entry.
       ret (virtualPath, child_path (parent_dir virtualPath) (rn_NewName req),
            Some (buildStorageEntryItem (fsv_env s) (src_ID source) entry))))))"

text \<open>
  The end of a move or a copy into a local directory: the target directory is examined, and
  \<open>transfer\<close> gets the new path unless it is taken.
\<close>

definition into_directory ::
  "FileService \<Rightarrow> StorageSource \<Rightarrow> string \<Rightarrow> string \<Rightarrow> string \<Rightarrow> app_error \<Rightarrow> (string \<Rightarrow> (Host, unit) handler) \<Rightarrow>
   (Host, string \<times> string) handler" where
  "into_directory s source virtualPath targetPath name conflict transfer =
     tryM (lift (physical s source targetPath)) (\<lambda>targetPhysicalDir.
     if_err (os_Stat targetPhysicalDir) (\<lambda>_. throw ErrPathInvalid) (\<lambda>targetInfo.
       if \<not> node_IsDir targetInfo then throw ErrPathInvalid
       else
         tryM (canWriteLocalDir s targetPhysicalDir) (\<lambda>writable.
           if \<not> writable then throw ErrSourceReadOnly
           else
             let newVirtual = child_path targetPath name
             in tryM (lift (physical s source newVirtual)) (\<lambda>newPhysical.
                if_err (os_Stat newPhysical)
                  (\<lambda>_. if_err (transfer newPhysical) (\<lambda>err. throw (local_error s err)) (\<lambda>_. ret (virtualPath, newVirtual)))
                  (\<lambda>_. throw conflict)))))"

definition moveLocal :: "FileService \<Rightarrow> StorageSource \<Rightarrow> MoveCopyRequest \<Rightarrow> (Host, string \<times> string) handler" where
  "moveLocal s source req =
     tryM (lift (normalizeVirtualPath (mvc_Path req))) (\<lambda>virtualPath.
     tryM (lift (normalizeVirtualPath (mvc_TargetPath req))) (\<lambda>targetPath.
     tryM (lift (physical s source virtualPath)) (\<lambda>physicalPath.
     if_err (os_Stat physicalPath) (\<lambda>_. throw ErrFileNotFound) (\<lambda>_.
     tryM (lift (physical s source (parent_dir virtualPath))) (\<lambda>sourceParentPhysical.
     tryM (canWriteLocalDir s sourceParentPhysical) (\<lambda>writable.
       if \<not> writable then throw ErrSourceReadOnly
       else into_directory s source virtualPath targetPath (path_Base physicalPath) ErrFileMoveConflict
              (os_Rename physicalPath)))))))"

definition copyDirectory :: "FileService \<Rightarrow> string \<Rightarrow> string \<Rightarrow> (Host, unit) handler" where
  "copyDirectory s srcDir dstDir =
     tryM (WalkDir (fsv_names s)
       (\<lambda>current d.
          let dest = path_Join [dstDir, rel_path srcDir current]
          in tryM (if node_IsDir d then os_MkdirAll dest else copyFile current dest) (\<lambda>_. ret (False, [()])))
       (fsv_depth s) srcDir) (\<lambda>_. ret ())"

definition copyLocal :: "FileService \<Rightarrow> StorageSource \<Rightarrow> MoveCopyRequest \<Rightarrow> (Host, string \<times> string) handler" where
  "copyLocal s source req =
     tryM (lift (normalizeVirtualPath (mvc_Path req))) (\<lambda>virtualPath.
     tryM (lift (normalizeVirtualPath (mvc_TargetPath req))) (\<lambda>targetPath.
     tryM (lift (physical s source virtualPath)) (\<lambda>physicalPath.
     if_err (os_Stat physicalPath) (\<lambda>_. throw ErrFileNotFound) (\<lambda>info.
       into_directory s source virtualPath targetPath (path_Base physicalPath) ErrFileCopyConflict
         (\<lambda>newPhysical. if node_IsDir info then copyDirectory s physicalPath newPhysical
                         else copyFile physicalPath newPhysical)))))"

definition driver_transfer ::
  "FileService \<Rightarrow> StorageSource \<Rightarrow> MoveCopyRequest \<Rightarrow> app_error \<Rightarrow>
   (FileOpsDriver \<Rightarrow> nat \<Rightarrow> StorageSource \<Rightarrow> string \<Rightarrow> string \<Rightarrow> unit result) \<Rightarrow> (Host, string \<times> string) handler" where
  "driver_transfer s source req conflict method =
     tryM (lift (fsv_getFileDriver s (src_DriverType source))) (\<lambda>driver.
     tryM (lift (normalizeVirtualPath (mvc_Path req))) (\<lambda>virtualPath.
     tryM (lift (normalizeVirtualPath (mvc_TargetPath req))) (\<lambda>targetPath.
     if_err (driver_call (\<lambda>n. method driver n source virtualPath targetPath))
       (\<lambda>err. throw (driver_error conflict err)) (\<lambda>_.
       ret (virtualPath, child_path targetPath (path_Base virtualPath))))))"

definition moveWithDriver :: "FileService \<Rightarrow> StorageSource \<Rightarrow> MoveCopyRequest \<Rightarrow> (Host, string \<times> string) handler" where
  "moveWithDriver s source req = driver_transfer s source req ErrFileMoveConflict fo_Move"

definition copyWithDriver :: "FileService \<Rightarrow> StorageSource \<Rightarrow> MoveCopyRequest \<Rightarrow> (Host, string \<times> string) handler" where
  "copyWithDriver s source req = driver_transfer s source req ErrFileCopyConflict fo_Copy"


section \<open>Deleting\<close>

definition localEntrySize :: "FileService \<Rightarrow> string \<Rightarrow> fs_node \<Rightarrow> (Host, int) handler" where
  "localEntrySize s physicalPath info =
     (if \<not> node_IsDir info then ret (file_Size info)
      else
        tryM (WalkDir (fsv_names s)
          (\<lambda>current d. if node_IsDir d then ret (False, [])
                       else tryM (os_Stat current) (\<lambda>fileInfo. ret (False, [file_Size fileInfo])))
          (fsv_depth s) physicalPath) (\<lambda>sizes. ret (fold (\<lambda>n t. wrap64 (t + n)) sizes 0)))"

definition buildTrashPaths :: "FileService \<Rightarrow> string \<Rightarrow> gotime \<Rightarrow> string \<times> string" where
  "buildTrashPaths s virtualPath deletedAt =
     (let trimmed = TrimPrefix virtualPath ''/'';
          parentRelative = path_Dir trimmed;
          stamped = path_Join [''/.trash'', fsv_stamp s deletedAt];
          trashParent = (if parentRelative \<noteq> ''.'' \<and> parentRelative \<noteq> ''/'' then path_Join [stamped, parentRelative] else stamped);
          trashVirtual = child_path trashParent (path_Base virtualPath)
      in (trashParent, trashVirtual))"

definition new_trash_item ::
  "StorageSource \<Rightarrow> string \<Rightarrow> string \<Rightarrow> string \<Rightarrow> bool \<Rightarrow> int \<Rightarrow> gotime \<Rightarrow> TrashItem" where
  "new_trash_item source originalPath trashPath name isDir bytes deletedAt =
     (let merged = mergeMountAndInnerPath (src_MountPath source) originalPath
      in \<lparr>trash_ID = 0, trash_SourceID = src_ID source, trash_OriginalPath = originalPath,
          trash_OriginalVirtualPath = (if merged = [] then originalPath else merged),
          trash_TrashPath = trashPath, trash_Name = name, trash_IsDir = isDir, trash_Size = bytes,
          trash_DeletedAt = deletedAt, trash_ExpiresAt = deletedAt + 30 * 24 * 60 * minute,
          trash_CreatedAt = 0, trash_UpdatedAt = 0\<rparr>)"

definition recordTrashItem ::
  "FileService \<Rightarrow> StorageSource \<Rightarrow> string \<Rightarrow> string \<Rightarrow> string \<Rightarrow> bool \<Rightarrow> int \<Rightarrow> gotime \<Rightarrow> (Host, unit) handler" where
  "recordTrashItem s source originalPath trashPath name isDir bytes deletedAt =
     (if \<not> fsv_trashItemRepo s then ret ()
      else tryM (onDB (trash_Create (new_trash_item source originalPath trashPath name isDir bytes deletedAt))) (\<lambda>_. ret ()))"

text \<open>The second half of \<^verbatim>\<open>deleteLocal\<close>: a failed record moves the file back.\<close>

definition move_to_trash :: "FileService \<Rightarrow> StorageSource \<Rightarrow> string \<Rightarrow> string \<Rightarrow> fs_node \<Rightarrow> (Host, gotime) handler" where
  "move_to_trash s source virtualPath physicalPath info =
     tryM time_Now (\<lambda>deletedAt.
     tryM (localEntrySize s physicalPath info) (\<lambda>bytes.
       let (_, trashVirtual) = buildTrashPaths s virtualPath deletedAt
       in tryM (lift (physical s source trashVirtual)) (\<lambda>trashPhysical.
          if_err (os_MkdirAll (path_Dir trashPhysical)) (\<lambda>err. throw (local_error s err)) (\<lambda>_.
          if_err (os_Rename physicalPath trashPhysical) (\<lambda>err. throw (local_error s err)) (\<lambda>_.
          if_err (recordTrashItem s source virtualPath trashVirtual (path_Base physicalPath) (node_IsDir info) bytes deletedAt)
            (\<lambda>err. tryM (ignored (os_MkdirAll (path_Dir physicalPath))) (\<lambda>_.
                   tryM (ignored (os_Rename trashPhysical physicalPath)) (\<lambda>_. throw err)))
            (\<lambda>_. ret deletedAt))))))"

definition deleteLocal :: "FileService \<Rightarrow> StorageSource \<Rightarrow> DeleteFileRequest \<Rightarrow> (Host, gotime) handler" where
  "deleteLocal s source req =
     tryM (lift (normalizeVirtualPath (del_Path req))) (\<lambda>virtualPath.
     tryM (lift (physical s source virtualPath)) (\<lambda>physicalPath.
     if_err (os_Stat physicalPath) (\<lambda>_. throw ErrFileNotFound) (\<lambda>info.
     tryM (lift (physical s source (parent_dir virtualPath))) (\<lambda>parentPhysical.
     tryM (canWriteLocalDir s parentPhysical) (\<lambda>writable.
       if \<not> writable then throw ErrSourceReadOnly
       else if del_DeleteMode req = ''permanent'' then
         if_err (os_RemoveAll physicalPath) (\<lambda>err. throw (local_error s err)) (\<lambda>_. time_Now)
       else move_to_trash s source virtualPath physicalPath info)))))"

definition ensureDriverDirectory :: "FileOpsDriver \<Rightarrow> StorageSource \<Rightarrow> string \<Rightarrow> string \<Rightarrow> (Host, unit) handler" where
  "ensureDriverDirectory driver source parentPath name =
     if_err (driver_call (\<lambda>n. fo_Mkdir driver n source parentPath name))
       (\<lambda>err. if errors_Is err ErrExist then ret ()
              else if errors_Is err ErrInvalid \<and> name = ''.trash'' \<and> parentPath = ''/'' then ret ()
              else throw err)
       (\<lambda>_. ret ())"

fun ensure_segments :: "FileOpsDriver \<Rightarrow> StorageSource \<Rightarrow> string \<Rightarrow> string list \<Rightarrow> (Host, unit) handler" where
  "ensure_segments driver source parentPath [] = ret ()"
| "ensure_segments driver source parentPath (segment # segments) =
     (if segment = [] then ensure_segments driver source parentPath segments
      else tryM (ensureDriverDirectory driver source parentPath segment) (\<lambda>_.
             let joined = path_Join [parentPath, segment]
             in ensure_segments driver source (if joined = ''.'' then ''/'' else joined) segments))"

definition ensureDriverPath :: "FileOpsDriver \<Rightarrow> StorageSource \<Rightarrow> string \<Rightarrow> (Host, unit) handler" where
  "ensureDriverPath driver source targetPath =
     tryM (lift (normalizeVirtualPath targetPath)) (\<lambda>p.
       if p = ''/'' then ret () else ensure_segments driver source ''/'' (Split (TrimPrefix p ''/'') CHR ''/''))"

definition deleteWithDriver :: "FileService \<Rightarrow> StorageSource \<Rightarrow> DeleteFileRequest \<Rightarrow> (Host, gotime) handler" where
  "deleteWithDriver s source req =
     tryM (lift (fsv_getFileDriver s (src_DriverType source))) (\<lambda>driver.
     tryM (lift (normalizeVirtualPath (del_Path req))) (\<lambda>virtualPath.
     tryM (lift (driverCapabilities s source)) (\<lambda>capabilities.
       let mode = (if del_DeleteMode req = [] then ''trash'' else del_DeleteMode req);
           providerTrash = (case capabilities of None \<Rightarrow> False | Some c \<Rightarrow> cap_CanProviderTrash c);
           missing = (\<lambda>err. if errors_Is err ErrNotExist then ErrFileNotFound else err)
       in if mode = ''trash'' \<and> providerTrash then
            if_err (driver_call (\<lambda>n. fo_Delete driver n source virtualPath))
              (\<lambda>err. throw (if errors_Is err ErrNotExist then ErrFileNotFound
                            else if errors_Is err ErrInvalid then ErrPathInvalid else err))
              (\<lambda>_. time_Now)
          else if mode = ''permanent'' then
            if providerTrash then throw ErrSourceOperationUnsupported
            else if_err (driver_call (\<lambda>n. fo_Delete driver n source virtualPath)) (\<lambda>err. throw (missing err)) (\<lambda>_. time_Now)
          else if mode \<noteq> ''trash'' then throw ErrSourceDriverUnsupported
          else
            if_err (driver_call (\<lambda>n. fo_Stat driver n source virtualPath)) (\<lambda>err. throw (missing err)) (\<lambda>entry.
            tryM time_Now (\<lambda>deletedAt.
              let (trashParent, trashVirtual) = buildTrashPaths s virtualPath deletedAt
              in tryM (ensureDriverPath driver source trashParent) (\<lambda>_.
                 if_err (driver_call (\<lambda>n. fo_Move driver n source virtualPath trashParent))
                   (\<lambda>err. throw (driver_error ErrFileAlreadyExists err)) (\<lambda>_.
                 if_err (recordTrashItem s source virtualPath trashVirtual (se_Name entry) (se_IsDir entry) (se_Size entry) deletedAt)
                   (\<lambda>err. tryM (ignored (ensureDriverPath driver source (parent_dir virtualPath))) (\<lambda>_.
                          tryM (ignored (driver_call (\<lambda>n. fo_Move driver n source trashVirtual (parent_dir virtualPath)))) (\<lambda>_.
                            throw err)))
                   (\<lambda>_. ret deletedAt))))))))"

section \<open>The audited operations\<close>

text \<open>
  The frame of every mutation: a source that cannot be read is a failure, a path the ACL refuses
  a denial, an error of the operation a failure with its code; a panic is not audited.
\<close>

definition fsv_audit :: "FileService \<Rightarrow> Context \<Rightarrow> Event \<Rightarrow> (Host, 'a) handler \<Rightarrow> (Host, 'a) handler" where
  "fsv_audit s ctx ev k = hostAudited (fsv_auditRecorder s) ctx ev k"

definition file_event :: "string \<Rightarrow> string \<Rightarrow> string \<Rightarrow> StorageSource \<Rightarrow> string \<Rightarrow> Event" where
  "file_event action res code source p =
     (event ''file'' action res code)\<lparr>ev_SourceID := Some (src_ID source),
        ev_VirtualPath := mergeMountAndInnerPath (src_MountPath source) p\<rparr>"

definition at_source ::
  "FileService \<Rightarrow> Context \<Rightarrow> string \<Rightarrow> nat \<Rightarrow> (StorageSource \<Rightarrow> (Host, 'a) handler) \<Rightarrow> (Host, 'a) handler" where
  "at_source s ctx action sourceID k =
     if_err (onDB (src_FindByID sourceID))
       (\<lambda>err. fsv_audit s ctx ((event ''file'' action ResultFailed ''SOURCE_NOT_FOUND'')\<lparr>ev_SourceID := Some sourceID\<rparr>) (throw err)) k"

definition allowed ::
  "FileService \<Rightarrow> Context \<Rightarrow> string \<Rightarrow> StorageSource \<Rightarrow> string \<Rightarrow> ACLAction \<Rightarrow> (Host, 'a) handler \<Rightarrow> (Host, 'a) handler" where
  "allowed s ctx action source p act k =
     if_err (fsv_authorizePath s ctx (src_ID source) p act)
       (\<lambda>err. fsv_audit s ctx (file_event action ResultDenied ''ACL_DENIED'' source p) (throw err)) (\<lambda>_. k)"

definition file_outcome ::
  "FileService \<Rightarrow> Context \<Rightarrow> string \<Rightarrow> StorageSource \<Rightarrow> string \<Rightarrow> (Host, 'a) handler \<Rightarrow>
   ('a \<Rightarrow> (Host, 'b) handler) \<Rightarrow> (Host, 'b) handler" where
  "file_outcome s ctx action source p run k =
     if_err run (\<lambda>err. fsv_audit s ctx (file_event action ResultFailed (mapFileErrorCode err) source p) (throw err)) k"

definition virtual_at :: "StorageSource \<Rightarrow> string \<Rightarrow> any_map" where
  "virtual_at source p = [(''virtual_path'', PayloadString (mergeMountAndInnerPath (src_MountPath source) p))]"

definition item_at :: "StorageSource \<Rightarrow> string \<Rightarrow> FileItem \<Rightarrow> any_map" where
  "item_at source p item =
     virtual_at source p @ [(''name'', PayloadString (fi_Name item)), (''is_dir'', PayloadBool (fi_IsDir item))]"

definition Mkdir_file :: "FileService \<Rightarrow> Context \<Rightarrow> MkdirRequest \<Rightarrow> (Host, FileItem) handler" where
  "Mkdir_file s ctx req =
     at_source s ctx ''mkdir'' (mk_SourceID req) (\<lambda>source.
     allowed s ctx ''mkdir'' source (mk_ParentPath req) ACLActionWrite
       (file_outcome s ctx ''mkdir'' source (mk_ParentPath req)
         (if src_DriverType source \<noteq> ''local'' then mkdirWithDriver s source req else mkdirLocal s source req)
         (\<lambda>written. case written of
            None \<Rightarrow> throw ErrNilPointer
          | Some item \<Rightarrow>
              fsv_audit s ctx ((file_event ''mkdir'' ResultSuccess [] source (fi_Path item))
                \<lparr>ev_After := item_at source (fi_Path item) item\<rparr>) (ret item))))"

definition Rename_file :: "FileService \<Rightarrow> Context \<Rightarrow> RenameRequest \<Rightarrow> (Host, string \<times> string \<times> FileItem) handler" where
  "Rename_file s ctx req =
     at_source s ctx ''rename'' (rn_SourceID req) (\<lambda>source.
     allowed s ctx ''rename'' source (rn_Path req) ACLActionWrite
       (file_outcome s ctx ''rename'' source (rn_Path req)
         (if src_DriverType source \<noteq> ''local'' then renameWithDriver s source req else renameLocal s source req)
         (\<lambda>(oldPath, newPath, written). case written of
            None \<Rightarrow> throw ErrNilPointer
          | Some item \<Rightarrow>
              fsv_audit s ctx ((file_event ''rename'' ResultSuccess [] source newPath)
                \<lparr>ev_Before := virtual_at source oldPath, ev_After := item_at source newPath item\<rparr>)
                (ret (oldPath, newPath, item)))))"

definition transferred ::
  "FileService \<Rightarrow> Context \<Rightarrow> string \<Rightarrow> StorageSource \<Rightarrow> string \<times> string \<Rightarrow> (Host, string \<times> string) handler" where
  "transferred s ctx action source = (\<lambda>(oldPath, newPath).
     fsv_audit s ctx ((file_event action ResultSuccess [] source newPath)
       \<lparr>ev_Before := virtual_at source oldPath, ev_After := virtual_at source newPath\<rparr>) (ret (oldPath, newPath)))"

definition Move_file :: "FileService \<Rightarrow> Context \<Rightarrow> MoveCopyRequest \<Rightarrow> (Host, string \<times> string) handler" where
  "Move_file s ctx req =
     at_source s ctx ''move'' (mvc_SourceID req) (\<lambda>source.
     allowed s ctx ''move'' source (mvc_Path req) ACLActionWrite
       (allowed s ctx ''move'' source (mvc_TargetPath req) ACLActionWrite
         (file_outcome s ctx ''move'' source (mvc_Path req)
           (if src_DriverType source \<noteq> ''local'' then moveWithDriver s source req else moveLocal s source req)
           (transferred s ctx ''move'' source))))"

definition Copy_file :: "FileService \<Rightarrow> Context \<Rightarrow> MoveCopyRequest \<Rightarrow> (Host, string \<times> string) handler" where
  "Copy_file s ctx req =
     at_source s ctx ''copy'' (mvc_SourceID req) (\<lambda>source.
     allowed s ctx ''copy'' source (mvc_Path req) ACLActionRead
       (allowed s ctx ''copy'' source (mvc_TargetPath req) ACLActionWrite
         (file_outcome s ctx ''copy'' source (mvc_Path req)
           (if src_DriverType source \<noteq> ''local'' then copyWithDriver s source req else copyLocal s source req)
           (transferred s ctx ''copy'' source))))"

definition Delete_file :: "FileService \<Rightarrow> Context \<Rightarrow> DeleteFileRequest \<Rightarrow> (Host, gotime) handler" where
  "Delete_file s ctx req =
     at_source s ctx ''delete'' (del_SourceID req) (\<lambda>source.
     allowed s ctx ''delete'' source (del_Path req) ACLActionDelete
       (file_outcome s ctx ''delete'' source (del_Path req)
         (if src_DriverType source \<noteq> ''local'' then deleteWithDriver s source req else deleteLocal s source req)
         (\<lambda>deletedAt.
            fsv_audit s ctx ((file_event ''delete'' ResultSuccess [] source (del_Path req))
              \<lparr>ev_Before := virtual_at source (del_Path req),
               ev_Detail := [(''delete_mode'', PayloadString (del_DeleteMode req)),
                 (''deleted_at'', PayloadString (env_rfc3339 (fsv_env s) deletedAt))]\<rparr>) (ret deletedAt))))"


end
