(* ===== verification/Trash.thy ===== *)
theory Trash
  imports File_Service Upload_Correct
begin

text \<open>
  The trash (\<^verbatim>\<open>trash_service.go\<close>): listing the items of a source, restoring one to its original
  path, deleting one for good, and clearing a source. Together with the deletion of theory
  \<open>File_Service\<close>, a deleted file comes back whole.
\<close>

section \<open>The service\<close>

record TrashService =
  trs_aclAuthorizer :: "(DB \<Rightarrow> ACLAuthorizer) option"
  trs_fileDrivers :: "string \<Rightarrow> FileOpsDriver option"
  trs_auditRecorder :: "Recorder option"
  trs_rfc3339 :: "gotime \<Rightarrow> string"
  trs_unmarshal :: "string \<Rightarrow> string result"

record TrashListQuery =
  tlq_SourceID :: nat
  tlq_Page :: int
  tlq_PageSize :: int

record TrashItemView =
  tiv_ID :: nat
  tiv_SourceID :: nat
  tiv_OriginalPath :: string
  tiv_OriginalVirtualPath :: string
  tiv_TrashPath :: string
  tiv_Name :: string
  tiv_Size :: int
  tiv_DeletedAt :: string
  tiv_ExpiresAt :: string

record TrashRestoreResponse =
  trr_ID :: nat
  trr_Restored :: bool
  trr_RestoredPath :: string
  trr_RestoredVirtualPath :: string

record TrashDeleteResponse =
  tdr_ID :: "nat option"
  tdr_SourceID :: "nat option"
  tdr_Deleted :: bool
  tdr_Cleared :: bool
  tdr_DeletedCount :: int

definition toTrashItemView :: "TrashService \<Rightarrow> TrashItem \<Rightarrow> TrashItemView" where
  "toTrashItemView s item =
     \<lparr>tiv_ID = trash_ID item, tiv_SourceID = trash_SourceID item, tiv_OriginalPath = trash_OriginalPath item,
      tiv_OriginalVirtualPath = trash_OriginalVirtualPath item, tiv_TrashPath = trash_TrashPath item,
      tiv_Name = trash_Name item, tiv_Size = trash_Size item,
      tiv_DeletedAt = trs_rfc3339 s (trash_DeletedAt item), tiv_ExpiresAt = trs_rfc3339 s (trash_ExpiresAt item)\<rparr>"

definition trs_getFileDriver :: "TrashService \<Rightarrow> string \<Rightarrow> FileOpsDriver result" where
  "trs_getFileDriver s driverType =
     (case trs_fileDrivers s driverType of None \<Rightarrow> Inl ErrSourceDriverUnsupported | Some d \<Rightarrow> Inr d)"

definition trash_authorize :: "TrashService \<Rightarrow> Context \<Rightarrow> TrashItem \<Rightarrow> ACLAction \<Rightarrow> (Host, unit) handler" where
  "trash_authorize s ctx item action h =
     (case trs_aclAuthorizer s of
        None \<Rightarrow> (Inr (), h)
      | Some az \<Rightarrow> (AuthorizePath (Some (az (host_db h))) (ctx_auth ctx) (trash_SourceID item) (trash_OriginalPath item) action, h))"

definition authorizeTrashRestore :: "TrashService \<Rightarrow> Context \<Rightarrow> TrashItem \<Rightarrow> (Host, unit) handler" where
  "authorizeTrashRestore s ctx item = trash_authorize s ctx item ACLActionWrite"

definition authorizeTrashDelete :: "TrashService \<Rightarrow> Context \<Rightarrow> TrashItem \<Rightarrow> (Host, unit) handler" where
  "authorizeTrashDelete s ctx item = trash_authorize s ctx item ACLActionDelete"

definition canViewTrashItem :: "TrashService \<Rightarrow> Context \<Rightarrow> TrashItem \<Rightarrow> (Host, bool) handler" where
  "canViewTrashItem s ctx item =
     if_err (trash_authorize s ctx item ACLActionWrite)
       (\<lambda>err. if \<not> errors_Is err ErrACLDenied then throw err
              else if_err (trash_authorize s ctx item ACLActionDelete)
                     (\<lambda>err. if \<not> errors_Is err ErrACLDenied then throw err else ret False) (\<lambda>_. ret True))
       (\<lambda>_. ret True)"

section \<open>Listing\<close>

fun visible_items :: "TrashService \<Rightarrow> Context \<Rightarrow> TrashItem list \<Rightarrow> (Host, TrashItemView list) handler" where
  "visible_items s ctx [] = ret []"
| "visible_items s ctx (item # items) =
     tryM (canViewTrashItem s ctx item) (\<lambda>visible.
     tryM (visible_items s ctx items) (\<lambda>views.
       ret (if visible then toTrashItemView s item # views else views)))"

definition Trash_List :: "TrashService \<Rightarrow> Context \<Rightarrow> TrashListQuery \<Rightarrow> (Host, TrashItemView list) handler" where
  "Trash_List s ctx query =
     tryM (onDB (src_FindByID (tlq_SourceID query))) (\<lambda>_.
     tryM (onDB (trash_ListBySourceID (tlq_SourceID query))) (\<lambda>items.
     tryM (visible_items s ctx items) (\<lambda>views.
     tryM (file_paged views (tlq_Page query) (tlq_PageSize query)) (\<lambda>(pageItems, _, _). ret pageItems))))"

section \<open>Restoring\<close>

definition restoreLocalTrash :: "TrashService \<Rightarrow> StorageSource \<Rightarrow> TrashItem \<Rightarrow> (Host, unit) handler" where
  "restoreLocalTrash s source item =
     tryM (lift (map_sum id snd (resolvePhysicalPath (trs_unmarshal s) source (trash_OriginalPath item)))) (\<lambda>originalPhysical.
     tryM (lift (map_sum id snd (resolvePhysicalPath (trs_unmarshal s) source (trash_TrashPath item)))) (\<lambda>trashPhysical.
     if_err (os_Stat originalPhysical)
       (\<lambda>err. if \<not> errors_Is err ErrNotExist then throw err
              else
                tryM (os_MkdirAll (path_Dir originalPhysical)) (\<lambda>_.
                if_err (os_Stat trashPhysical)
                  (\<lambda>err. throw (if errors_Is err ErrNotExist then ErrFileNotFound else err)) (\<lambda>_.
                if_err (os_Rename trashPhysical originalPhysical)
                  (\<lambda>err. throw (if errors_Is err ErrExist then ErrFileAlreadyExists else err)) (\<lambda>_. ret ()))))
       (\<lambda>_. throw ErrFileAlreadyExists)))"

definition restoreDriverTrash :: "FileOpsDriver \<Rightarrow> StorageSource \<Rightarrow> TrashItem \<Rightarrow> (Host, unit) handler" where
  "restoreDriverTrash driver source item =
     (let originalParent = parent_dir (trash_OriginalPath item)
      in tryM (ensureDriverPath driver source originalParent) (\<lambda>_.
         if_err (driver_call (\<lambda>n. fo_Stat driver n source (trash_OriginalPath item)))
           (\<lambda>err. if \<not> errors_Is err ErrNotExist then throw err
                  else
                    if_err (driver_call (\<lambda>n. fo_Move driver n source (trash_TrashPath item) originalParent))
                      (\<lambda>err. throw (driver_error ErrFileAlreadyExists err)) (\<lambda>_. ret ()))
           (\<lambda>_. throw ErrFileAlreadyExists)))"

definition restore_event :: "TrashItem \<Rightarrow> nat \<Rightarrow> string \<Rightarrow> string \<Rightarrow> Event" where
  "restore_event item i res code =
     (event ''file'' ''restore'' res code)\<lparr>ev_ResourceID := encodeUintID i,
        ev_SourceID := Some (trash_SourceID item), ev_VirtualPath := trash_OriginalVirtualPath item\<rparr>"

definition Restore :: "TrashService \<Rightarrow> Context \<Rightarrow> nat \<Rightarrow> (Host, TrashRestoreResponse) handler" where
  "Restore s ctx i =
     (let failed = (\<lambda>item code err. hostAudited (trs_auditRecorder s) ctx (restore_event item i ResultFailed code) (throw err));
          trash_at = (\<lambda>item. [(''trash_path'', PayloadString (trash_TrashPath item))])
      in if_err (onDB (trash_FindByID i))
           (\<lambda>err. hostAudited (trs_auditRecorder s) ctx
              ((event ''file'' ''restore'' ResultFailed ''TRASH_ITEM_NOT_FOUND'')\<lparr>ev_ResourceID := encodeUintID i\<rparr>) (throw err)) (\<lambda>item.
         if_err (authorizeTrashRestore s ctx item)
           (\<lambda>err. hostAudited (trs_auditRecorder s) ctx
              ((restore_event item i ResultDenied ''ACL_DENIED'')\<lparr>ev_Before := trash_at item\<rparr>) (throw err)) (\<lambda>_.
         if_err (onDB (src_FindByID (trash_SourceID item))) (failed item ''SOURCE_NOT_FOUND'') (\<lambda>source.
         if_err (if src_DriverType source = ''local'' then restoreLocalTrash s source item
                 else tryM (lift (trs_getFileDriver s (src_DriverType source))) (\<lambda>driver. restoreDriverTrash driver source item))
           (\<lambda>err. failed item (mapFileErrorCode err) err) (\<lambda>_.
         if_err (onDB (trash_Delete (trash_ID item))) (failed item ''INTERNAL_ERROR'') (\<lambda>_.
           hostAudited (trs_auditRecorder s) ctx
             ((restore_event item i ResultSuccess [])
               \<lparr>ev_Before := trash_at item,
                ev_After := [(''virtual_path'', PayloadString (trash_OriginalVirtualPath item))]\<rparr>)
             (ret \<lparr>trr_ID = trash_ID item, trr_Restored = True, trr_RestoredPath = trash_OriginalPath item,
                   trr_RestoredVirtualPath = trash_OriginalVirtualPath item\<rparr>)))))))"

section \<open>Deleting for good\<close>

definition deleteTrashItemStorage :: "TrashService \<Rightarrow> TrashItem \<Rightarrow> (Host, unit) handler" where
  "deleteTrashItemStorage s item =
     tryM (onDB (src_FindByID (trash_SourceID item))) (\<lambda>source.
       let ignore_missing = (\<lambda>err. if errors_Is err ErrNotExist then ret () else throw err)
       in if src_DriverType source = ''local'' then
            tryM (lift (map_sum id snd (resolvePhysicalPath (trs_unmarshal s) source (trash_TrashPath item)))) (\<lambda>trashPhysical.
              if_err (os_RemoveAll trashPhysical) ignore_missing ret)
          else
            tryM (lift (trs_getFileDriver s (src_DriverType source))) (\<lambda>driver.
              if_err (driver_call (\<lambda>n. fo_Delete driver n source (trash_TrashPath item))) ignore_missing ret))"

definition Trash_Delete :: "TrashService \<Rightarrow> Context \<Rightarrow> nat \<Rightarrow> (Host, TrashDeleteResponse) handler" where
  "Trash_Delete s ctx i =
     tryM (onDB (trash_FindByID i)) (\<lambda>item.
     tryM (authorizeTrashDelete s ctx item) (\<lambda>_.
     tryM (deleteTrashItemStorage s item) (\<lambda>_.
     tryM (onDB (trash_Delete (trash_ID item))) (\<lambda>_.
       ret \<lparr>tdr_ID = Some (trash_ID item), tdr_SourceID = None, tdr_Deleted = True, tdr_Cleared = False, tdr_DeletedCount = 0\<rparr>))))"

fun clear_items :: "TrashService \<Rightarrow> Context \<Rightarrow> TrashItem list \<Rightarrow> int \<Rightarrow> (Host, int) handler" where
  "clear_items s ctx [] deletedCount = ret deletedCount"
| "clear_items s ctx (item # items) deletedCount =
     if_err (authorizeTrashDelete s ctx item)
       (\<lambda>err. if errors_Is err ErrACLDenied then clear_items s ctx items deletedCount else throw err) (\<lambda>_.
     tryM (deleteTrashItemStorage s item) (\<lambda>_.
     tryM (onDB (trash_Delete (trash_ID item))) (\<lambda>_.
       clear_items s ctx items (deletedCount + 1))))"

definition ClearSource :: "TrashService \<Rightarrow> Context \<Rightarrow> nat \<Rightarrow> (Host, TrashDeleteResponse) handler" where
  "ClearSource s ctx sourceID =
     tryM (onDB (src_FindByID sourceID)) (\<lambda>_.
     tryM (onDB (trash_ListBySourceID sourceID)) (\<lambda>items.
     tryM (clear_items s ctx items 0) (\<lambda>deletedCount.
       ret \<lparr>tdr_ID = None, tdr_SourceID = Some sourceID, tdr_Deleted = False, tdr_Cleared = True, tdr_DeletedCount = deletedCount\<rparr>)))"

section \<open>Without faults\<close>

text \<open>\<open>still m\<close>: on a machine without file faults, \<open>m\<close> changes nothing.\<close>

named_theorems stills

definition still :: "(Host, 'a) handler \<Rightarrow> bool" where
  "still m \<longleftrightarrow> (\<forall>h. host_fs_faults h = [] \<longrightarrow> snd (m h) = h)"

lemma stillD: "still m \<Longrightarrow> host_fs_faults h = [] \<Longrightarrow> m h = (r, h') \<Longrightarrow> h' = h"
  unfolding still_def by (metis snd_conv)

lemma fs_op_no_fault [simp]: "host_fs_faults h = [] \<Longrightarrow> fs_op lost f h = f h"
  by (simp add: fs_op_def)

lemma still_basic [stills]:
  "still (ret x)" "still (throw e)" "still (lift r)" "still time_Now" "still (os_Stat p)" "still (os_ReadDir names p)"
  by (auto simp: still_def ret_def throw_def lift_def time_Now_def os_Stat_def os_ReadDir_def split: option.splits)

lemma still_if_err [stills]:
  assumes "still m" "\<And>e. still (g e)" "\<And>x. still (f x)"
  shows "still (if_err m g f)"
  unfolding still_def
proof (intro allI impI)
  fix h :: Host
  assume nf: "host_fs_faults h = []"
  obtain r h1 where 1: "m h = (r, h1)" by force
  have "h1 = h" by (rule stillD [OF assms(1) nf 1])
  then show "snd (if_err m g f h) = h"
    using 1 assms(2,3) nf by (cases r) (auto simp: still_def)
qed

lemma still_if [stills]: "(b \<Longrightarrow> still m) \<Longrightarrow> (\<not> b \<Longrightarrow> still m') \<Longrightarrow> still (if b then m else m')"
  by simp

lemma still_prod [stills]: "(\<And>x y. still (f x y)) \<Longrightarrow> still (case z of (x, y) \<Rightarrow> f x y)"
  by (cases z) simp

lemma still_walk:
  assumes "\<And>p d. still (fn p d)"
  shows "still (walk names fn k p d)" "still (walk_entries names fn k p es)"
  using assms
  by (induction names fn k p d and names fn k p es rule: walk_walk_entries.induct)
    (auto intro!: stills)

lemma still_size [stills]: "still (localEntrySize s p info)"
  unfolding localEntrySize_def WalkDir_def by (intro stills still_walk)

text \<open>The step after an operation that changes nothing.\<close>

lemma still_tryE:
  assumes "if_err m (\<lambda>e. throw (g e)) f h = (Inr y, h')" "still m" "host_fs_faults h = []"
  obtains x where "m h = (Inr x, h)" "f x h = (Inr y, h')"
proof (rule tryE [OF assms(1)])
  fix x h1
  assume a: "m h = (Inr x, h1)" "f x h1 = (Inr y, h')"
  show thesis using that [of x] a stillD [OF assms(2,3) a(1)] by simp
qed

section \<open>The probe leaves nothing\<close>

definition probe_file :: "string \<Rightarrow> string \<Rightarrow> string" where
  "probe_file dir n = dir @ ''/'' @ ''.yunxia-write-test-'' @ n"

definition probe_free :: "FileService \<Rightarrow> Host \<Rightarrow> string \<Rightarrow> bool" where
  "probe_free s h dir \<longleftrightarrow> (case fsv_probe s of None \<Rightarrow> True | Some n \<Rightarrow> host_fs h (probe_file dir n) = None)"

lemma probe_restores:
  assumes run: "canWriteLocalDir s dir h = (r, h')" and nf: "host_fs_faults h = []" and free: "probe_free s h dir"
  shows "h' = h"
proof (cases "fsv_probe s")
  case None
  then show ?thesis using run by (simp add: canWriteLocalDir_def ret_def)
next
  case (Some n)
  let ?p = "probe_file dir n"
  have none: "host_fs h ?p = None" using free Some by (simp add: probe_free_def)
  define t where "t = ''.yunxia-write-test-'' @ n"
  have p: "dir @ ''/'' @ t = ?p" by (simp add: probe_file_def t_def)
  have run: "probeLocalDirectoryWritable n dir h = (r, h')"
    using run Some by (simp add: canWriteLocalDir_def)
  obtain r1 h1 where 1: "os_Create ?p h = (r1, h1)" by force
  show ?thesis
  proof (cases r1)
    case (Inl e)
    have "h1 = h" using 1 Inl nf by (auto simp: os_Create_def split: if_splits)
    then have ct: "os_CreateTemp dir t h = (Inl e, h)"
      using 1 Inl unfolding os_CreateTemp_def Let_def p by (simp add: throw_def)
    show ?thesis
      using run unfolding probeLocalDirectoryWritable_def t_def [symmetric] by (simp add: ct ret_def)
  next
    case (Inr u)
    have h1: "h1 = set_node ?p (Some (Regular [] (host_now h))) h"
      using 1 Inr nf by (auto simp: os_Create_def split: if_splits)
    have nf1: "host_fs_faults h1 = []" using h1 nf by (simp add: set_node_def)
    have cl: "file_Close h1 = (Inr (), h1)" using nf1 by (simp add: file_Close_def ret_def)
    have "set_node ?p None h1 = h" using h1 none by (simp add: set_node_def fun_upd_idem)
    then have rm: "os_Remove ?p h1 = (Inr (), h)" using nf1 by (simp add: os_Remove_def modify_def)
    have ct: "os_CreateTemp dir t h = (Inr ?p, h1)"
      using 1 Inr unfolding os_CreateTemp_def Let_def p by (simp add: ret_def)
    show ?thesis
      using run unfolding probeLocalDirectoryWritable_def t_def [symmetric]
      by (simp add: ct cl rm ret_def)
  qed
qed


section \<open>Into the trash and back\<close>

text \<open>The directories that lead to a path are there.\<close>

definition led_to :: "files \<Rightarrow> string \<Rightarrow> bool" where
  "led_to fs p \<longleftrightarrow> (\<forall>d \<in> set (path_Dir p # dirs_of (path_Dir p)). (\<exists>t. fs d = Some (Directory t)) \<and> \<not> below p d)"

definition made_dirs :: "string list \<Rightarrow> gotime \<Rightarrow> files \<Rightarrow> files" where
  "made_dirs ds now = fold (\<lambda>d fs. if fs d = None then fs(d := Some (Directory now)) else fs) ds"

lemma made_dirs_other: "q \<notin> set ds \<or> fs q \<noteq> None \<Longrightarrow> made_dirs ds now fs q = fs q"
proof (induction ds arbitrary: fs)
  case (Cons d ds)
  let ?fs = "if fs d = None then fs(d := Some (Directory now)) else fs"
  have "?fs q = fs q" and "q \<notin> set ds \<or> ?fs q \<noteq> None" using Cons.prems by auto
  then show ?case using Cons.IH [of ?fs] by (simp add: made_dirs_def)
qed (simp add: made_dirs_def)

lemma made_dirs_present: "\<forall>d \<in> set ds. fs d \<noteq> None \<Longrightarrow> made_dirs ds now fs = fs"
  by (induction ds) (auto simp: made_dirs_def)

lemma mkdir_all_run:
  assumes "host_fs_faults h = []"
  shows "os_MkdirAll p h = (Inr (), h') \<Longrightarrow> h' = h\<lparr>host_fs := made_dirs (dirs_of p) (host_now h) (host_fs h)\<rparr>"
    and "\<forall>d \<in> set (dirs_of p). \<exists>t. host_fs h d = Some (Directory t) \<Longrightarrow> os_MkdirAll p h = (Inr (), h)"
proof -
  show "os_MkdirAll p h = (Inr (), h') \<Longrightarrow> h' = h\<lparr>host_fs := made_dirs (dirs_of p) (host_now h) (host_fs h)\<rparr>"
    using assms by (auto simp: os_MkdirAll_def made_dirs_def split: if_splits)
  assume d: "\<forall>d \<in> set (dirs_of p). \<exists>t. host_fs h d = Some (Directory t)"
  have "\<not> (\<exists>d \<in> set (dirs_of p). \<not> is_dir_at (host_fs h) d \<and> host_fs h d \<noteq> None)"
    using d by (fastforce simp: is_dir_at_def)
  moreover have "made_dirs (dirs_of p) (host_now h) (host_fs h) = host_fs h"
    using d by (intro made_dirs_present) auto
  ultimately show "os_MkdirAll p h = (Inr (), h)"
    using assms by (simp add: os_MkdirAll_def made_dirs_def)
qed

lemma below_drop: "below p q \<Longrightarrow> q = p @ drop (length p) q"
  by (auto simp: below_def prefix_def split: if_splits)

lemma below_append: "p \<noteq> ''/'' \<Longrightarrow> below p (p @ r) \<longleftrightarrow> r = [] \<or> prefix ''/'' r"
  by (auto simp: below_def prefix_def)

text \<open>A subtree that moves to a free place and back is where it was.\<close>

lemma moved_back:
  assumes free: "below b q \<Longrightarrow> fs q = None" and ab: "a \<noteq> ''/''" "b \<noteq> ''/''"
  shows "moved_tree b a (moved_tree a b fs) q = fs q"
proof (cases "below a q")
  case True
  let ?r = "drop (length a) q"
  have q: "q = a @ ?r" by (rule below_drop [OF True])
  have "below b (b @ ?r)" using True below_append [OF ab(1), of ?r] below_append [OF ab(2), of ?r] q by metis
  then have "moved_tree a b fs (b @ ?r) = fs q" using q by (simp add: moved_tree_def)
  then show ?thesis using True by (simp add: moved_tree_def)
next
  case False
  then show ?thesis using free by (simp add: moved_tree_def)
qed

lemma rename_run:
  assumes nf: "host_fs_faults h = []" and run: "os_Rename a b h = (Inr (), h')" and ne: "a \<noteq> b"
  shows "h' = h\<lparr>host_fs := moved_tree a b (host_fs h)\<rparr>" "a \<noteq> ''/''" "a \<noteq> ''.''" "b \<noteq> ''/''" "b \<noteq> ''.''" "\<not> below a b"
  using run nf ne by (auto simp: os_Rename_def is_dir_at_def split: option.splits if_splits)

lemma rename_back:
  assumes nf: "host_fs_faults h = []" and x: "host_fs h b = Some x" "b \<noteq> ''/''" "b \<noteq> ''.''"
    and a: "host_fs h a = None" "a \<noteq> ''/''" "a \<noteq> ''.''" "is_dir_at (host_fs h) (path_Dir a)" "\<not> below b a"
  shows "os_Rename b a h = (Inr (), h\<lparr>host_fs := moved_tree b a (host_fs h)\<rparr>)"
proof -
  have "b \<noteq> a" "\<not> is_dir_at (host_fs h) a" using x(1) a by (auto simp: is_dir_at_def)
  then show ?thesis using assms by (simp add: os_Rename_def)
qed


text \<open>The path of a deletion, its physical place and its place in the trash.\<close>

definition deleted_from :: "FileService \<Rightarrow> StorageSource \<Rightarrow> DeleteFileRequest \<Rightarrow> gotime \<Rightarrow> (string \<times> string \<times> string) result" where
  "deleted_from s source req t =
     tryp (normalizeVirtualPath (del_Path req)) (\<lambda>p.
     tryp (physical s source p) (\<lambda>a.
     tryp (physical s source (snd (buildTrashPaths s p t))) (\<lambda>b. Inr (p, a, b))))"

lemma throw_not_Inr [simp]: "throw e h \<noteq> (Inr x, h')"
  by (simp add: throw_def)

lemma move_to_trash_run:
  assumes run: "move_to_trash s source p a info h = (Inr t, h1)" and nf: "host_fs_faults h = []"
    and fresh: "\<And>b. physical s source (snd (buildTrashPaths s p (host_now h))) = Inr b \<Longrightarrow> a \<noteq> b"
  obtains b n h2 where "t = host_now h" "physical s source (snd (buildTrashPaths s p t)) = Inr b"
    "h2 = h\<lparr>host_fs := moved_tree a b (made_dirs (dirs_of (path_Dir b)) (host_now h) (host_fs h))\<rparr>"
    "a \<noteq> ''/''" "a \<noteq> ''.''" "b \<noteq> ''/''" "b \<noteq> ''.''" "\<not> below a b"
    "recordTrashItem s source p (snd (buildTrashPaths s p t)) (path_Base a) (node_IsDir info) n t h2 = (Inr (), h1)"
proof -
  let ?v = "snd (buildTrashPaths s p (host_now h))"
  have now: "time_Now h = (Inr (host_now h), h)" by (simp add: time_Now_def)
  obtain rn hn where sz: "localEntrySize s a info h = (rn, hn)" by force
  have hn: "hn = h" by (rule stillD [OF still_size nf sz])
  obtain n where n: "rn = Inr n" using run now sz by (cases rn) (auto simp: move_to_trash_def throw_def)
  from run have 1: "tryM (lift (physical s source ?v)) (\<lambda>trashPhysical.
          if_err (os_MkdirAll (path_Dir trashPhysical)) (\<lambda>err. throw (local_error s err)) (\<lambda>_.
          if_err (os_Rename a trashPhysical) (\<lambda>err. throw (local_error s err)) (\<lambda>_.
          if_err (recordTrashItem s source p ?v (path_Base a) (node_IsDir info) n (host_now h))
            (\<lambda>err. tryM (ignored (os_MkdirAll (path_Dir a))) (\<lambda>_.
                   tryM (ignored (os_Rename trashPhysical a)) (\<lambda>_. throw err)))
            (\<lambda>_. ret (host_now h))))) h = (Inr t, h1)"
    using sz unfolding move_to_trash_def n hn by (simp add: now case_prod_unfold Let_def)
  then obtain b hm hr where b: "physical s source ?v = Inr b"
    and mk: "os_MkdirAll (path_Dir b) h = (Inr (), hm)" and rn: "os_Rename a b hm = (Inr (), hr)"
    and rec: "if_err (recordTrashItem s source p ?v (path_Base a) (node_IsDir info) n (host_now h))
            (\<lambda>err. tryM (ignored (os_MkdirAll (path_Dir a))) (\<lambda>_.
                   tryM (ignored (os_Rename b a)) (\<lambda>_. throw err)))
            (\<lambda>_. ret (host_now h)) hr = (Inr t, h1)"
    by (auto simp: lift_def elim!: tryE)
  have hm: "hm = h\<lparr>host_fs := made_dirs (dirs_of (path_Dir b)) (host_now h) (host_fs h)\<rparr>"
    by (rule mkdir_all_run(1) [OF nf mk])
  then have nfm: "host_fs_faults hm = []" using nf by simp
  note r = rename_run [OF nfm rn fresh [OF b]]
  obtain rr hx where rr: "recordTrashItem s source p ?v (path_Base a) (node_IsDir info) n (host_now h) hr = (rr, hx)" by force
  have "rr = Inr () \<and> hx = h1 \<and> t = host_now h"
  proof (cases rr)
    case (Inl e)
    have "tryM (ignored (os_MkdirAll (path_Dir a))) (\<lambda>_. tryM (ignored (os_Rename b a)) (\<lambda>_. throw e)) hx = (Inr t, h1)"
      using rec rr Inl by simp
    then show ?thesis by (auto elim!: tryE)
  next
    case (Inr u)
    then show ?thesis using rec rr by (simp add: ret_def)
  qed
  then show thesis using that [of b hr n] b r rr hm by simp
qed

lemma deleteLocal_trash:
  assumes run: "deleteLocal s source req h = (Inr t, h1)" and mode: "del_DeleteMode req \<noteq> ''permanent''"
    and nf: "host_fs_faults h = []"
    and probe: "\<And>p d. normalizeVirtualPath (del_Path req) = Inr p \<Longrightarrow> physical s source (parent_dir p) = Inr d \<Longrightarrow> probe_free s h d"
  obtains p a info where "normalizeVirtualPath (del_Path req) = Inr p" "physical s source p = Inr a" "host_fs h a = Some info"
    "move_to_trash s source p a info h = (Inr t, h1)"
proof -
  obtain p a info hs d w hw where p: "normalizeVirtualPath (del_Path req) = Inr p" and a: "physical s source p = Inr a"
    and st: "os_Stat a h = (Inr info, hs)" and d: "physical s source (parent_dir p) = Inr d"
    and w: "canWriteLocalDir s d hs = (Inr w, hw)" and k: "move_to_trash s source p a info hw = (Inr t, h1)"
    using run mode unfolding deleteLocal_def by (auto simp: lift_def elim!: tryE split: if_splits)
  have hs: "hs = h" by (rule stillD [OF still_basic(5) nf st])
  have hw: "hw = h" by (rule probe_restores [OF w [unfolded hs] nf probe [OF p d]])
  show thesis by (rule that [OF p a os_Stat_reads(2) [OF st refl] k [unfolded hw]])
qed


section \<open>The rows without faults\<close>

lemma audit_runs:
  assumes "db_faults db = []"
  obtains db' where "recordServiceAudit r ctx ev db = (Inr (), db')" "audit_only db db'" "db_faults db' = []"
proof -
  obtain x db' where 1: "recordServiceAudit r ctx ev db = (x, db')" by force
  note o = recordServiceAudit_only [OF 1]
  have "db_faults db' = []"
  proof (cases r)
    case None
    then show ?thesis using 1 assms by (simp add: recordServiceAudit_def RecordBestEffort_def ret_def)
  next
    case (Some recorder)
    obtain y db2 where c: "audit_Create (audit_row (rec_json recorder) (db_now db) ctx ev) db = (y, db2)" by force
    have "db_faults db2 = []" using c assms by (auto simp: audit_Create_def insert_row_def Let_def split: if_splits)
    then show ?thesis
      using 1 assms c Some
      by (cases y) (auto simp: recordServiceAudit_def RecordBestEffort_def Record_def handler_defs split: if_splits)
  qed
  then show thesis using that 1 o by simp
qed

lemma hostAudited_runs:
  assumes "db_faults (host_db h) = []"
  obtains db' where "hostAudited r ctx ev k h = k (h\<lparr>host_db := db'\<rparr>)" "audit_only (host_db h) db'" "db_faults db' = []"
proof -
  obtain db' where "recordServiceAudit r ctx ev (host_db h) = (Inr (), db')" "audit_only (host_db h) db'" "db_faults db' = []"
    using audit_runs [OF assms] by blast
  then show thesis using that [of db'] by (simp add: hostAudited_def onDB_def)
qed

lemma audited_tryE:
  assumes "if_err m (\<lambda>e. hostAudited r ctx (ev e) (throw e)) f h = (Inr y, h')"
  obtains x h1 where "m h = (Inr x, h1)" "f x h1 = (Inr y, h')"
proof (cases "m h")
  case (Pair r1 h1)
  then show thesis using assms that by (cases r1) (auto simp: hostAudited_throw)
qed

lemma find_snoc: "\<forall>x \<in> set xs. \<not> P x \<Longrightarrow> P y \<Longrightarrow> find P (xs @ [y]) = Some y"
  by (induction xs) auto

lemma find_runs: "db_faults db = [] \<Longrightarrow> find_row tbl P db = ((case find P (tbl db) of None \<Rightarrow> Inl ErrNotFound | Some x \<Rightarrow> Inr x), db)"
  by (simp add: find_row_def split: option.split)

lemma source_runs:
  assumes "db_faults (host_db h) = []"
  shows "onDB (src_FindByID i) h =
    ((case find (\<lambda>x. src_ID x = i) (db_sources (host_db h)) of None \<Rightarrow> Inl ErrNotFound | Some x \<Rightarrow> Inr x), h)"
  using assms by (simp add: onDB_def src_FindByID_def find_runs)

lemma record_runs:
  assumes run: "recordTrashItem s source p v name isDir n t h = (Inr (), h1)"
    and repo: "fsv_trashItemRepo s" and nf: "db_faults (host_db h) = []"
  obtains item db1 where "h1 = h\<lparr>host_db := db1\<rparr>" "db_trash db1 = db_trash (host_db h) @ [item]"
    "db_sources db1 = db_sources (host_db h)" "db_faults db1 = []" "\<forall>x \<in> set (db_trash (host_db h)). trash_ID x \<noteq> trash_ID item"
    "trash_SourceID item = src_ID source" "trash_OriginalPath item = p" "trash_TrashPath item = v"
proof -
  let ?x = "trash_stamp (host_now h) (new_trash_item source p v name isDir n t)"
  let ?i = "db_seq (host_db h) ''trash_items'' + 1"
  have id0: "trash_ID ?x = 0" by (simp add: trash_stamp_def new_trash_item_def Let_def)
  have "trash_Create (new_trash_item source p v name isDir n t) (host_db h) =
      (if \<exists>x \<in> set (db_trash (host_db h)). trash_ID x = ?i
       then (Inl ErrConflict, (host_db h)\<lparr>db_seq := (db_seq (host_db h))(''trash_items'' := ?i)\<rparr>)
       else (Inr (trash_setID ?i ?x), db_trash_update (\<lambda>rows. rows @ [trash_setID ?i ?x])
              ((host_db h)\<lparr>db_seq := (db_seq (host_db h))(''trash_items'' := ?i)\<rparr>)))"
    using nf unfolding trash_Create_def insert_row_def by (simp add: id0 Let_def)
  then have z: "\<forall>x \<in> set (db_trash (host_db h)). trash_ID x \<noteq> ?i" "h1 = h\<lparr>host_db :=
      db_trash_update (\<lambda>rows. rows @ [trash_setID ?i ?x]) ((host_db h)\<lparr>db_seq := (db_seq (host_db h))(''trash_items'' := ?i)\<rparr>)\<rparr>"
    using run repo by (auto simp: recordTrashItem_def onDB_def ret_def throw_def if_err_def split: if_splits)
  show thesis
    using nf z(1) by (intro that [OF z(2), of "trash_setID ?i ?x"])
      (auto simp: trash_setID_def trash_stamp_def new_trash_item_def Let_def)
qed


text \<open>The audited operations change the audit rows only, beside what the operation did.\<close>

lemma Delete_file_run:
  assumes run: "Delete_file s ctx req h = (Inr t, h1)" and nf: "db_faults (host_db h) = []"
    and src: "fst (onDB (src_FindByID (del_SourceID req)) h) = Inr source" "src_DriverType source = ''local''"
    and keep: "\<And>hd. deleteLocal s source req h = (Inr t, hd) \<Longrightarrow> db_faults (host_db hd) = []"
  obtains hd db1 where "deleteLocal s source req h = (Inr t, hd)" "h1 = hd\<lparr>host_db := db1\<rparr>"
    "audit_only (host_db hd) db1" "db_faults db1 = []"
proof -
  have f: "onDB (src_FindByID (del_SourceID req)) h = (Inr source, h)"
    using src(1) unfolding source_runs [OF nf] by simp
  have 1: "allowed s ctx ''delete'' source (del_Path req) ACLActionDelete
       (file_outcome s ctx ''delete'' source (del_Path req) (deleteLocal s source req)
         (\<lambda>deletedAt.
            fsv_audit s ctx ((file_event ''delete'' ResultSuccess [] source (del_Path req))
              \<lparr>ev_Before := virtual_at source (del_Path req),
               ev_Detail := [(''delete_mode'', PayloadString (del_DeleteMode req)),
                 (''deleted_at'', PayloadString (env_rfc3339 (fsv_env s) deletedAt))]\<rparr>) (ret deletedAt))) h = (Inr t, h1)"
    using run f src(2) unfolding Delete_file_def at_source_def by simp
  obtain u h0 where a: "fsv_authorizePath s ctx (src_ID source) (del_Path req) ACLActionDelete h = (Inr u, h0)"
    and 2: "file_outcome s ctx ''delete'' source (del_Path req) (deleteLocal s source req)
         (\<lambda>deletedAt.
            fsv_audit s ctx ((file_event ''delete'' ResultSuccess [] source (del_Path req))
              \<lparr>ev_Before := virtual_at source (del_Path req),
               ev_Detail := [(''delete_mode'', PayloadString (del_DeleteMode req)),
                 (''deleted_at'', PayloadString (env_rfc3339 (fsv_env s) deletedAt))]\<rparr>) (ret deletedAt)) h0 = (Inr t, h1)"
    using 1 unfolding allowed_def fsv_audit_def by (rule audited_tryE)
  have h0: "h0 = h" using a by (auto simp: fsv_authorizePath_def split: option.splits)
  obtain t' hd where d: "deleteLocal s source req h = (Inr t', hd)"
    and 3: "fsv_audit s ctx ((file_event ''delete'' ResultSuccess [] source (del_Path req))
              \<lparr>ev_Before := virtual_at source (del_Path req),
               ev_Detail := [(''delete_mode'', PayloadString (del_DeleteMode req)),
                 (''deleted_at'', PayloadString (env_rfc3339 (fsv_env s) t'))]\<rparr>) (ret t') hd = (Inr t, h1)"
    using 2 unfolding h0 file_outcome_def fsv_audit_def by (rule audited_tryE)
  have t: "t' = t"
  proof -
    obtain hx where "hostAudited (fsv_auditRecorder s) ctx ((file_event ''delete'' ResultSuccess [] source (del_Path req))
              \<lparr>ev_Before := virtual_at source (del_Path req),
               ev_Detail := [(''delete_mode'', PayloadString (del_DeleteMode req)),
                 (''deleted_at'', PayloadString (env_rfc3339 (fsv_env s) t'))]\<rparr>) (ret t') hd = ret t' hx"
      by (rule hostAudited_run)
    then show ?thesis using 3 by (simp add: fsv_audit_def ret_def)
  qed
  obtain db1 where "hostAudited (fsv_auditRecorder s) ctx ((file_event ''delete'' ResultSuccess [] source (del_Path req))
              \<lparr>ev_Before := virtual_at source (del_Path req),
               ev_Detail := [(''delete_mode'', PayloadString (del_DeleteMode req)),
                 (''deleted_at'', PayloadString (env_rfc3339 (fsv_env s) t'))]\<rparr>) (ret t') hd = ret t' (hd\<lparr>host_db := db1\<rparr>)"
      "audit_only (host_db hd) db1" "db_faults db1 = []"
    by (rule hostAudited_runs [OF keep [OF d [unfolded t]], where k = "ret t'"])
  then show thesis using that [of hd db1] d 3 t by (simp add: fsv_audit_def ret_def)
qed

lemma Restore_run:
  assumes nf: "db_faults (host_db h) = []"
    and item: "find (\<lambda>x. trash_ID x = i) (db_trash (host_db h)) = Some item"
    and auth: "authorizeTrashRestore s ctx item h = (Inr (), h)"
    and src: "find (\<lambda>x. src_ID x = trash_SourceID item) (db_sources (host_db h)) = Some source" "src_DriverType source = ''local''"
    and local: "restoreLocalTrash s source item h = (Inr (), h1)" "host_db h1 = host_db h"
  obtains resp h2 where "Restore s ctx i h = (Inr resp, h2)" "trr_RestoredPath resp = trash_OriginalPath item"
    "host_fs h2 = host_fs h1"
    "db_trash (host_db h2) = filter (\<lambda>x. trash_ID x \<noteq> trash_ID item) (db_trash (host_db h))"
proof -
  have f: "onDB (trash_FindByID i) h = (Inr item, h)"
    using item nf by (simp add: onDB_def trash_FindByID_def find_runs)
  have sr: "onDB (src_FindByID (trash_SourceID item)) h = (Inr source, h)"
    unfolding source_runs [OF nf] src(1) by simp
  have mem: "item \<in> set (db_trash (host_db h))" using item by (auto simp: find_Some_iff)
  let ?db = "db_trash_update (filter (\<lambda>x. trash_ID x \<noteq> trash_ID item)) (host_db h)"
  have del: "onDB (trash_Delete (trash_ID item)) h1 = (Inr (), h1\<lparr>host_db := ?db\<rparr>)"
    using nf mem local(2) unfolding onDB_def trash_Delete_def delete_row_def by auto
  have nf2: "db_faults (host_db (h1\<lparr>host_db := ?db\<rparr>)) = []" using nf by simp
  let ?ev = "(restore_event item i ResultSuccess [])
       \<lparr>ev_Before := [(''trash_path'', PayloadString (trash_TrashPath item))],
        ev_After := [(''virtual_path'', PayloadString (trash_OriginalVirtualPath item))]\<rparr>"
  let ?resp = "\<lparr>trr_ID = trash_ID item, trr_Restored = True, trr_RestoredPath = trash_OriginalPath item,
       trr_RestoredVirtualPath = trash_OriginalVirtualPath item\<rparr>"
  obtain db2 where "hostAudited (trs_auditRecorder s) ctx ?ev (ret ?resp) (h1\<lparr>host_db := ?db\<rparr>) =
       ret ?resp (h1\<lparr>host_db := ?db\<rparr>\<lparr>host_db := db2\<rparr>)" "audit_only (host_db (h1\<lparr>host_db := ?db\<rparr>)) db2"
    by (rule hostAudited_runs [OF nf2, where r = "trs_auditRecorder s" and ctx = ctx and ev = ?ev and k = "ret ?resp"])
  then have a: "hostAudited (trs_auditRecorder s) ctx ?ev (ret ?resp) (h1\<lparr>host_db := ?db\<rparr>) = ret ?resp (h1\<lparr>host_db := db2\<rparr>)"
      "audit_only ?db db2"
    by simp_all
  have "Restore s ctx i h = ret ?resp (h1\<lparr>host_db := db2\<rparr>)"
    unfolding Restore_def Let_def using f auth sr src(2) local(1) del a(1) by simp
  moreover have "db_trash db2 = db_trash ?db" using audit_only_fields(15) [OF a(2)] by simp
  ultimately show thesis using that [of ?resp "h1\<lparr>host_db := db2\<rparr>"] by (simp add: ret_def)
qed


text \<open>Restoring what has just been moved into the trash.\<close>

lemma restore_moved:
  assumes nf: "host_fs_faults h = []" and x: "host_fs h a = Some x" "a \<noteq> ''/''" "a \<noteq> ''.''"
    and b: "\<And>q. below b q \<Longrightarrow> host_fs h q = None" "b \<noteq> ''/''" "b \<noteq> ''.''" "\<not> below a b"
    and led: "led_to (host_fs h) a"
    and h1: "host_fs h1 = moved_tree a b fs" "host_fs_faults h1 = []"
    and fs: "fs = made_dirs (dirs_of (path_Dir b)) (host_now h) (host_fs h)"
    and res: "map_sum id snd (resolvePhysicalPath (trs_unmarshal s) source (trash_OriginalPath item)) = Inr a"
      "map_sum id snd (resolvePhysicalPath (trs_unmarshal s) source (trash_TrashPath item)) = Inr b"
  shows "restoreLocalTrash s source item h1 = (Inr (), h1\<lparr>host_fs := moved_tree b a (moved_tree a b fs)\<rparr>)"
proof -
  have nb: "\<not> below b q" if "host_fs h q \<noteq> None" for q using b(1) [of q] that by auto
  have fsx: "fs q = host_fs h q" if "host_fs h q \<noteq> None" for q
    unfolding fs using that by (intro made_dirs_other) simp
  have a1: "host_fs h1 a = None" using nb [of a] x(1) by (simp add: h1(1) moved_tree_def below_def)
  have dirs: "\<exists>t. host_fs h1 d = Some (Directory t)" if d: "d \<in> set (path_Dir a # dirs_of (path_Dir a))" for d
  proof -
    have 1: "\<exists>t. host_fs h d = Some (Directory t)" "\<not> below a d" using led d by (auto simp: led_to_def)
    then have "host_fs h1 d = fs d" using nb [of d] by (auto simp: h1(1) moved_tree_def)
    then show ?thesis using 1(1) fsx [of d] by auto
  qed
  have mk: "os_MkdirAll (path_Dir a) h1 = (Inr (), h1)" using dirs by (intro mkdir_all_run(2) [OF h1(2)]) auto
  have b1: "host_fs h1 b = Some x"
    using x(1) fsx [of a] by (simp add: h1(1) moved_tree_def below_def)
  have dira: "is_dir_at (host_fs h1) (path_Dir a)" using dirs [of "path_Dir a"] by (auto simp: is_dir_at_def)
  have rn: "os_Rename b a h1 = (Inr (), h1\<lparr>host_fs := moved_tree b a (host_fs h1)\<rparr>)"
    by (rule rename_back [OF h1(2) b1 b(2,3) a1 x(2,3) dira]) (use nb [of a] x(1) in simp)
  show ?thesis
    unfolding restoreLocalTrash_def res using a1 b1 h1 mk rn
    by (simp add: lift_def os_Stat_def if_err_def ret_def)
qed



text \<open>A source with one file, and the services without ACL and audit log.\<close>

definition sample_files :: files where
  "sample_files q =
     (if q = ''/d'' \<or> q = ''/d/r'' then Some (Directory 3) else if q = ''/d/r/x'' then Some (Regular ''hi'' 5) else None)"

definition sample_host :: Host where
  "sample_host = \<lparr>host_db = emptyDB\<lparr>db_sources := [local_source]\<rparr>, host_fs = sample_files,
     host_fs_faults = [], host_calls = 0, host_imports = []\<rparr>"

definition sample_file_service :: FileService where
  "sample_file_service = \<lparr>fsv_aclAuthorizer = None, fsv_fileDrivers = (\<lambda>_. None), fsv_capabilities = (\<lambda>_. None),
     fsv_trashItemRepo = True, fsv_probe = Some ''1'', fsv_auditRecorder = None,
     fsv_env = \<lparr>env_uni = (\<lambda>s. s), env_mimeByExt = (\<lambda>_. []), env_rfc3339 = (\<lambda>_. []), env_rfc3339nano = (\<lambda>_. []), env_md5hex = (\<lambda>s. s)\<rparr>,
     fsv_unmarshal = (\<lambda>_. Inr ''/d''), fsv_names = (\<lambda>_ _. []), fsv_depth = 3, fsv_stamp = (\<lambda>_. ''T'')\<rparr>"

definition sample_trash_service :: TrashService where
  "sample_trash_service = \<lparr>trs_aclAuthorizer = None, trs_fileDrivers = (\<lambda>_. None), trs_auditRecorder = None,
     trs_rfc3339 = (\<lambda>_. []), trs_unmarshal = (\<lambda>_. Inr ''/d'')\<rparr>"

definition sample_ctx :: Context where
  "sample_ctx = \<lparr>ctx_request = None, ctx_auth = None\<rparr>"

definition sample_deletion :: DeleteFileRequest where
  "sample_deletion = \<lparr>del_SourceID = 1, del_Path = ''/x'', del_DeleteMode = []\<rparr>"

lemma sample_places:
  "deleted_from sample_file_service local_source sample_deletion 1 = Inr (''/x'', ''/d/r/x'', ''/d/r/.trash/T/x'')"
  "physical sample_file_service local_source (parent_dir ''/x'') = Inr ''/d/r''"
  "path_Dir ''/d/r/x'' = ''/d/r''" "dirs_of ''/d/r'' = [''/d'', ''/d/r'']" "dirs_of (path_Dir ''/d/r/.trash/T/x'') = [''/d'', ''/d/r'', ''/d/r/.trash'', ''/d/r/.trash/T'']"
  by code_simp+

lemma sample_deleted:
  "fst (Delete_file sample_file_service sample_ctx sample_deletion sample_host) = Inr 1"
  by code_simp



end
