(* ===== verification/File_Confined.thy ===== *)
theory File_Confined
  imports Trash
begin

text \<open>
  The file services never leave the directory of a source: whatever a request makes, renames,
  moves, copies, deletes, restores or clears, every file and directory outside the directory of
  the source stays as it is. The facts are framing facts of the kind theory \<open>Upload_Correct\<close>
  uses; a step may use what the step before it returned.
\<close>

section \<open>Paths at and below a directory\<close>

lemma below_refl [simp]: "below p p"
  by (simp add: below_def)

lemma below_trans: "below a p \<Longrightarrow> below d a \<Longrightarrow> below d p"
  by (cases d) (auto simp: below_def prefix_def split: if_splits)

lemma below_render: "below (render ws) (render (ws @ vs))"
proof (cases vs)
  case (Cons v vs')
  then show ?thesis by (auto simp: below_def render_def prefix_def)
qed simp

lemma join_under:
  assumes "kepts (ts @ ws)" "ws \<noteq> []"
  shows "path_Join [render ts, Join ws ''/''] = render (ts @ ws)"
proof -
  let ?s = "render ts @ CHR ''/'' # Join ws ''/''"
  have "segs_of (Join ws ''/'') = ws"
    using segs_of_rel [of "Join ws ''/''"] assms(1) by (simp add: Join_slash segs_of_render_kept)
  then have "segs_of ?s = ts @ ws" using assms(1) by (simp add: segs_of_append segs_of_render_kept)
  moreover have "HasPrefix ?s ''/''"
    using render_HasPrefix [of ts] by (simp add: HasPrefix_def prefix_append del: render_HasPrefix)
  ultimately have c: "path_Clean ?s = render (ts @ ws)" using Clean_segs [of ?s] assms(1) by metis
  obtain w ws' where ws: "ws = w # ws'" using assms(2) by (cases ws) auto
  have "Join ws ''/'' \<noteq> []" using assms(1) unfolding ws by (cases ws') (auto simp: kept_def)
  moreover have "render ts \<noteq> []" using render_HasPrefix [of ts] by (auto simp: HasPrefix_def)
  ultimately show ?thesis using c by (simp add: path_Join_def)
qed

lemma join_dot: "kepts ts \<Longrightarrow> path_Join [render ts, ''.''] = render ts"
proof -
  assume k: "kepts ts"
  let ?s = "render ts @ CHR ''/'' # ''.''"
  have "HasPrefix ?s ''/''" using render_HasPrefix [of ts] by (simp add: HasPrefix_def prefix_append del: render_HasPrefix)
  then obtain ws where ws: "path_Clean ?s = render ws" "ws = rev (fold (clean_step True) (Split ?s CHR ''/'') [])"
    using Clean_rooted by metis
  have s: "Split ?s CHR ''/'' = Split (render ts) CHR ''/'' @ [''.'']"
    by (simp add: Split_append_sep Split_plain)
  have "\<forall>w \<in> set (Split (render ts) CHR ''/''). w = [] \<or> kept w"
  proof
    fix w assume w: "w \<in> set (Split (render ts) CHR ''/'')"
    have "w = [] \<or> w \<in> set (segs_of (render ts))" using w by (auto simp: segs_of_def)
    then show "w = [] \<or> kept w" using k by (auto simp: segs_of_render_kept)
  qed
  then have "fold (clean_step True) (Split (render ts) CHR ''/'') [] = rev (segs_of (render ts))"
    by (simp add: fold_clean_segs segs_of_def)
  then have "ws = ts" using ws(2) s k by (simp add: segs_of_render_kept)
  moreover have "render ts \<noteq> []" using render_HasPrefix [of ts] by (auto simp: HasPrefix_def)
  ultimately show ?thesis using ws(1) by (simp add: path_Join_def)
qed

text \<open>The relative path of a walked entry, joined to another directory.\<close>

lemma join_rel:
  assumes "kepts (ss @ ws)" "kepts ts"
  shows "path_Join [render ts, rel_path (render ss) (render (ss @ ws))] = render (ts @ ws)"
proof (cases "ws = []")
  case True
  then show ?thesis using join_dot [OF assms(2)] by (simp add: rel_path_def)
next
  case False
  have "render (ss @ ws) \<noteq> render ss"
    using assms(1) False segs_of_render_kept [of "ss @ ws"] segs_of_render_kept [of ss] by auto
  moreover have "render ss \<noteq> ''.''" using render_HasPrefix [of ss] by (auto simp: HasPrefix_def)
  moreover have "render ss = ''/'' \<longleftrightarrow> ss = []"
    using segs_of_render_kept [of ss] assms(1) by (auto simp: render_def segs_of_def)
  moreover have "drop (if ss = [] then 1 else Suc (length (render ss))) (render (ss @ ws)) = Join ws ''/''"
    using Join_slash [of ws] False by (auto simp: render_append dest: sym)
  ultimately have "rel_path (render ss) (render (ss @ ws)) = Join ws ''/''"
    by (auto simp: rel_path_def)
  then show ?thesis using join_under [OF _ False, of ts] assms by auto
qed

section \<open>The directory of a source\<close>

definition source_root :: "(string \<Rightarrow> string result) \<Rightarrow> StorageSource \<Rightarrow> string \<Rightarrow> bool" where
  "source_root unmarshal source dir \<longleftrightarrow>
     (\<exists>base t. parseLocalSourceConfig unmarshal source = Inr base \<and> HasPrefix base ''/'' \<and>
        resolvePhysicalPath unmarshal source ''/'' = Inr (dir, t))"

lemma resolved_below:
  assumes r: "source_root unmarshal source dir"
    and p: "map_sum id snd (resolvePhysicalPath unmarshal source vp) = Inr a"
  obtains ds ps where "dir = render ds" "a = render (ds @ ps)" "kepts (ds @ ps)"
proof -
  obtain base t where b: "parseLocalSourceConfig unmarshal source = Inr base" "HasPrefix base ''/''"
    and t: "resolvePhysicalPath unmarshal source ''/'' = Inr (dir, t)"
    using r by (auto simp: source_root_def)
  obtain d where d: "resolvePhysicalPath unmarshal source vp = Inr (d, a)"
    using p by (cases "resolvePhysicalPath unmarshal source vp") auto
  have "d = dir" using d t by (auto simp: resolvePhysicalPath_def tryp_Inr Let_def split: if_splits)
  then show thesis
    using resolvePhysicalPath_shape [OF b, of vp] d that by auto
qed

lemma resolved_in:
  "source_root unmarshal source dir \<Longrightarrow> map_sum id snd (resolvePhysicalPath unmarshal source vp) = Inr a \<Longrightarrow> below dir a"
  by (metis resolved_below below_render)

section \<open>Framing\<close>

text \<open>
  Started with the sources \<open>S\<close> in the database, the handler keeps them and everything outside
  the directory.
\<close>

abbreviation outside :: "string \<Rightarrow> string \<Rightarrow> bool" where
  "outside dir p \<equiv> \<not> below dir p"

definition confines :: "string \<Rightarrow> StorageSource list \<Rightarrow> (Host, 'a) handler \<Rightarrow> bool" where
  "confines dir S m \<longleftrightarrow>
     (\<forall>h r h'. db_sources (host_db h) = S \<longrightarrow> m h = (r, h') \<longrightarrow>
        (\<forall>p x. outside dir p \<longrightarrow> host_fs h p = Some x \<longrightarrow> host_fs h' p = Some x) \<and> db_sources (host_db h') = S)"

named_theorems confined

lemma confinesD:
  assumes "confines dir S m" "db_sources (host_db h) = S" "m h = (r, h')"
  shows "outside dir p \<Longrightarrow> host_fs h p = Some x \<Longrightarrow> host_fs h' p = Some x" "db_sources (host_db h') = S"
  using assms unfolding confines_def by blast+

lemma same_rel: "reflp (\<lambda>a b. b = a)" "transp (\<lambda>a b. b = a)"
  by (simp_all add: reflp_def transp_def)

lemma confines_frames: "frames (outside dir) (\<lambda>a b. b = a) m \<Longrightarrow> confines dir S m"
  by (auto simp: confines_def frames_def)

text \<open>A step with what the step before it returned.\<close>

lemma confines_if_err [confined]:
  assumes m: "confines dir S m" and e: "\<And>e. confines dir S (g e)"
    and f: "\<And>x h h'. m h = (Inr x, h') \<Longrightarrow> db_sources (host_db h) = S \<Longrightarrow> confines dir S (f x)"
  shows "confines dir S (if_err m g f)"
  unfolding confines_def
proof (intro allI impI)
  fix s r s'
  assume src: "db_sources (host_db s) = S" and a: "if_err m g f s = (r, s')"
  obtain r1 s1 where 1: "m s = (r1, s1)" by force
  note k = confinesD [OF m src 1]
  have "confines dir S (case r1 of Inl e \<Rightarrow> g e | Inr x \<Rightarrow> f x)" using e f [of s _ s1] 1 src by (cases r1) auto
  moreover have "(case r1 of Inl e \<Rightarrow> g e | Inr x \<Rightarrow> f x) s1 = (r, s')" using a 1 by (cases r1) auto
  ultimately have "(\<forall>p x. outside dir p \<longrightarrow> host_fs s1 p = Some x \<longrightarrow> host_fs s' p = Some x) \<and> db_sources (host_db s') = S"
    using k(2) unfolding confines_def by blast
  then show "(\<forall>p x. outside dir p \<longrightarrow> host_fs s p = Some x \<longrightarrow> host_fs s' p = Some x) \<and> db_sources (host_db s') = S"
    using k(1) by blast
qed

lemma confines_if [confined]:
  "(b \<Longrightarrow> confines dir S m) \<Longrightarrow> (\<not> b \<Longrightarrow> confines dir S m') \<Longrightarrow> confines dir S (if b then m else m')"
  by simp

lemma confines_option [confined]:
  "confines dir S m \<Longrightarrow> (\<And>x. y = Some x \<Longrightarrow> confines dir S (f x)) \<Longrightarrow> confines dir S (case y of None \<Rightarrow> m | Some x \<Rightarrow> f x)"
  by (cases y) auto

lemma confines_prod [confined]: "(\<And>x y. z = (x, y) \<Longrightarrow> confines dir S (f x y)) \<Longrightarrow> confines dir S (case z of (x, y) \<Rightarrow> f x y)"
  by (cases z) simp

lemma confines_basic [confined]:
  "confines dir S (ret x)" "confines dir S (throw e)" "confines dir S (lift y)" "confines dir S time_Now"
  "confines dir S (os_Stat p)" "confines dir S (os_ReadFile p)" "confines dir S file_Close"
  "confines dir S (os_MkdirAll p)" "confines dir S (driver_call c)"
proof -
  show "confines dir S time_Now" by (simp add: time_Now_def confines_def)
qed (rule confines_frames, rule frames_basic frames_files frames_driver_call, rule same_rel)+

lemma confines_rows [confined]:
  assumes "\<And>db r db'. m db = (r, db') \<Longrightarrow> db_sources db' = db_sources db"
  shows "confines dir S (onDB m)"
  using assms by (auto simp: confines_def onDB_def split: prod.splits)

lemma confines_ignored [confined]: "confines dir S m \<Longrightarrow> confines dir S (ignored m)"
  unfolding ignored_def by (intro confined)

lemma confines_ReadDir [confined]: "confines dir S (os_ReadDir names p)"
  unfolding os_ReadDir_def by (rule confines_frames, rule frames_fs_op [OF same_rel(1)]) (auto split: if_splits)

lemma confines_inside:
  assumes "below dir p"
  shows "confines dir S (os_Create p)" "confines dir S (file_Write p data)" "confines dir S (os_RemoveAll p)"
    "confines dir S (os_Mkdir p)" "confines dir S (os_Remove p)" "confines dir S (os_Chtimes p t)"
proof -
  have p: "\<And>p'. outside dir p' \<Longrightarrow> \<not> below p p'" "\<not> outside dir p" using assms below_trans by blast+
  show "confines dir S (os_Create p)" "confines dir S (file_Write p data)" "confines dir S (os_RemoveAll p)"
    using frames_files(6,7,8) [OF same_rel(1), of "outside dir"] p by (auto intro: confines_frames)
  show "confines dir S (os_Mkdir p)" "confines dir S (os_Remove p)" "confines dir S (os_Chtimes p t)"
    unfolding os_Mkdir_def os_Remove_def os_Chtimes_def
    by (rule confines_frames, rule frames_fs_op [OF same_rel(1)];
        use assms in \<open>auto simp: set_node_def modify_def split: if_splits option.splits fs_node.splits\<close>)+
qed

lemma confines_Rename:
  assumes "below dir a" "below dir b"
  shows "confines dir S (os_Rename a b)"
  unfolding os_Rename_def
proof (rule confines_frames, rule frames_fs_op [OF same_rel(1)])
  have q: "\<not> below a q" "\<not> below b q" if "outside dir q" for q using that assms below_trans by blast+
  then have m: "moved_tree a b fs q = fs q" if "outside dir q" for fs q using that by (simp add: moved_tree_def)
  fix h r h'
  assume "(case host_fs h a of None \<Rightarrow> (Inl ErrNotExist, h)
      | Some x \<Rightarrow> if a = ''/'' \<or> a = ''.'' then (Inl (ErrOther ''device or resource busy''), h)
         else if is_dir_at (host_fs h) b then (Inl ErrExist, h)
         else if a = b then (Inr (), h)
         else if \<not> is_dir_at (host_fs h) (path_Dir b)
         then (Inl (if host_fs h (path_Dir b) = None then ErrNotExist else ErrNotDir), h)
         else if below a b then (Inl (ErrOther ''invalid argument''), h)
         else if is_dir_at (host_fs h) a \<and> host_fs h b \<noteq> None then (Inl ErrNotDir, h)
         else (Inr (), h\<lparr>host_fs := moved_tree a b (host_fs h)\<rparr>)) = (r, h')"
  then show "(\<forall>p x. outside dir p \<longrightarrow> host_fs h p = Some x \<longrightarrow> host_fs h' p = Some x) \<and> host_db h' = host_db h"
    using m by (auto split: option.splits if_splits)
qed auto

lemma confines_copyFile: "below dir b \<Longrightarrow> confines dir S (copyFile a b)"
  unfolding copyFile_def
  by (intro confined confines_inside) (auto intro: confined confines_inside split: fs_node.split)

text \<open>The probe of a directory.\<close>

lemma below_child: "below dir p \<Longrightarrow> p \<noteq> ''/'' \<Longrightarrow> below dir (p @ ''/'' @ n)"
  by (rule below_trans) (auto simp: below_def)

lemma CreateTemp_name: "os_CreateTemp p n h = (Inr name, h') \<Longrightarrow> name = p @ ''/'' @ n"
  unfolding os_CreateTemp_def Let_def by (auto simp: ret_def elim!: tryE)

lemma confines_probe:
  assumes "below dir p"
  shows "confines dir S (canWriteLocalDir s p)"
proof -
  have b: "below dir (p @ ''/'' @ n)" for n
    using assms below_child [OF assms] by (cases "p = ''/''"; cases dir) (auto simp: below_def prefix_def split: if_splits)
  have t: "confines dir S (os_CreateTemp p n)" for n
    unfolding os_CreateTemp_def Let_def by (intro confined confines_inside b)
  have r: "confines dir S (os_Remove name)" if "os_CreateTemp p n h = (Inr name, h')" for n name h h'
    unfolding CreateTemp_name [OF that] by (rule confines_inside(5) [OF b])
  show ?thesis
    unfolding canWriteLocalDir_def probeLocalDirectoryWritable_def
    by (intro confined t) (erule r)+
qed

section \<open>Walking\<close>

lemma confines_walk:
  assumes "\<And>p d. R p \<Longrightarrow> confines dir S (fn p d)"
    and "\<And>fs p n. R p \<Longrightarrow> n \<in> set (names fs p) \<Longrightarrow> R (path_Join [p, n])"
  shows "R p \<Longrightarrow> confines dir S (walk names fn k p d)"
    and "R p \<Longrightarrow> \<forall>(n, d) \<in> set es. R (path_Join [p, n]) \<Longrightarrow> confines dir S (walk_entries names fn k p es)"
  using assms
proof (induction names fn k p d and names fn k p es rule: walk_walk_entries.induct)
  case (2 names fn k p d)
  have es: "\<forall>(n, d) \<in> set entries. R (path_Join [p, n])" if "os_ReadDir names p h = (Inr entries, h')" for entries h h'
  proof -
    have "\<exists>h0. (if is_dir_at (host_fs h0) p
       then (Inr (concat (map (\<lambda>n. case host_fs h0 (path_Join [p, n]) of None \<Rightarrow> [] | Some x \<Rightarrow> [(n, x)]) (names (host_fs h0) p))), h0)
       else (Inl (if host_fs h0 p = None then ErrNotExist else ErrNotDir), h0)) = (Inr entries, h')"
      using that unfolding os_ReadDir_def by (cases rule: fs_op_cases) (simp, blast)
    then obtain fs where "entries = concat (map (\<lambda>n. case fs (path_Join [p, n]) of None \<Rightarrow> [] | Some x \<Rightarrow> [(n, x)]) (names fs p))"
      by (auto split: if_splits)
    then show ?thesis using 2(2) 2(4) by (auto split: option.splits)
  qed
  show ?case
    unfolding walk.simps
    by (intro confined 2(3) [OF 2(2)] 2(1)) (use es 2 in auto)
qed (auto intro!: confined)

text \<open>Entries of a directory, as \<^verbatim>\<open>os.ReadDir\<close> names them.\<close>

definition names_ok :: "FileService \<Rightarrow> bool" where
  "names_ok s \<longleftrightarrow> (\<forall>fs p. \<forall>n \<in> set (fsv_names s fs p). kept n)"

lemma confines_copyDirectory:
  assumes n: "names_ok s" and a: "kepts ss" and b: "kepts ts" "below dir (render ts)"
  shows "confines dir S (copyDirectory s (render ss) (render ts))"
proof -
  let ?R = "\<lambda>p. \<exists>ws. kepts (ss @ ws) \<and> p = render (ss @ ws)"
  have fn: "confines dir S ((\<lambda>current d.
          let dest = path_Join [render ts, rel_path (render ss) current]
          in tryM (if node_IsDir d then os_MkdirAll dest else copyFile current dest) (\<lambda>_. ret (False, [()]))) p d)"
    if R: "?R p" for p d
  proof -
    obtain ws where ws: "kepts (ss @ ws)" "p = render (ss @ ws)" using R by blast
    have "below dir (path_Join [render ts, rel_path (render ss) p])"
      unfolding ws(2) join_rel [OF ws(1) b(1)] by (rule below_trans [OF below_render b(2)])
    then show ?thesis unfolding Let_def by (intro confined confines_copyFile)
  qed
  have step: "?R (path_Join [p, w])" if R: "?R p" and w: "w \<in> set (fsv_names s fs p)" for fs p w
  proof -
    obtain ws where ws: "kepts (ss @ ws)" "p = render (ss @ ws)" using R by blast
    have "kept w" using n w by (auto simp: names_ok_def)
    then have "path_Join [p, w] = render (ss @ ws @ [w])" "kepts (ss @ ws @ [w])"
      using ws join_under [of "ss @ ws" "[w]"] by auto
    then show ?thesis by blast
  qed
  have root: "?R (render ss)" using a by (intro exI [of _ "[]"]) simp
  show ?thesis
    unfolding copyDirectory_def WalkDir_def
    by (intro confined, rule confines_walk(1) [where R = ?R]) (use fn step root in auto)
qed

section \<open>The services\<close>

lemma in_dir: "source_root (fsv_unmarshal s) source dir \<Longrightarrow> lift (physical s source vp) h = (Inr a, h') \<Longrightarrow> below dir a"
  by (auto simp: lift_def physical_def intro: resolved_in)

lemma physical_render:
  assumes "source_root (fsv_unmarshal s) source dir" "lift (physical s source vp) h = (Inr a, h')"
  obtains ws where "kepts ws" "a = render ws" "below dir a"
proof -
  have p: "map_sum id snd (resolvePhysicalPath (fsv_unmarshal s) source vp) = Inr a"
    using assms(2) by (simp add: lift_def physical_def)
  obtain ds ps where "dir = render ds" "a = render (ds @ ps)" "kepts (ds @ ps)" by (rule resolved_below [OF assms(1) p])
  then show thesis using that [of "ds @ ps"] below_render by simp
qed

lemma confines_written [confined]: "confines dir S (written_item s source v p)"
  unfolding written_item_def by (intro confined)

lemma confines_mkdirLocal:
  assumes root: "source_root (fsv_unmarshal s) source dir"
  shows "confines dir S (mkdirLocal s source req)"
  unfolding mkdirLocal_def Let_def
  by (intro confined confines_probe confines_inside; (rule in_dir [OF root], assumption))

lemma confines_renameLocal:
  assumes root: "source_root (fsv_unmarshal s) source dir"
  shows "confines dir S (renameLocal s source req)"
  unfolding renameLocal_def Let_def
  by (intro confined confines_probe confines_Rename; (rule in_dir [OF root], assumption))

lemma confines_into:
  assumes root: "source_root (fsv_unmarshal s) source dir"
    and tr: "\<And>v (h :: Host) a h'. lift (physical s source v) h = (Inr a, h') \<Longrightarrow> confines dir S (transfer a)"
  shows "confines dir S (into_directory s source v t n e transfer)"
  unfolding into_directory_def Let_def
  by (intro confined confines_probe; ((rule in_dir [OF root], assumption) | (rule tr, assumption)))

lemma confines_moveLocal:
  assumes root: "source_root (fsv_unmarshal s) source dir"
  shows "confines dir S (moveLocal s source req)"
  unfolding moveLocal_def
  by (intro confined confines_probe confines_into [OF root] confines_Rename; (rule in_dir [OF root], assumption))

lemma confines_copyLocal:
  assumes root: "source_root (fsv_unmarshal s) source dir" and n: "names_ok s"
  shows "confines dir S (copyLocal s source req)"
proof -
  have cp: "confines dir S (copyDirectory s p q)" "confines dir S (copyFile p q)"
    if p: "lift (physical s source v) h = (Inr p, h')" and q: "lift (physical s source w) k = (Inr q, k')"
    for p q v w and h h' k k' :: Host
  proof -
    obtain ss where s: "kepts ss" "p = render ss" by (rule physical_render [OF root p])
    obtain ts where t: "kepts ts" "q = render ts" "below dir q" by (rule physical_render [OF root q])
    show "confines dir S (copyDirectory s p q)" "confines dir S (copyFile p q)"
      using confines_copyDirectory [OF n s(1) t(1)] confines_copyFile [OF t(3)] s(2) t(2,3) by simp_all
  qed
  show ?thesis
    unfolding copyLocal_def by (intro confined confines_into [OF root]; ((rule cp(1), assumption+) | (rule cp(2), assumption+)))
qed

lemma confines_record [confined]: "confines dir S (recordTrashItem s source p v n d b t)"
  unfolding recordTrashItem_def trash_Create_def
  by (intro confined) (auto elim!: insert_row_cases simp: same_tables_fields)

lemma confines_deleteLocal:
  assumes root: "source_root (fsv_unmarshal s) source dir"
  shows "confines dir S (deleteLocal s source req)"
proof -
  have w: "confines dir S (localEntrySize s p info)" for p info
  proof -
    have "confines dir S (walk names (\<lambda>current d. if node_IsDir d then ret (False, [])
        else tryM (os_Stat current) (\<lambda>fileInfo. ret (False, [file_Size fileInfo]))) k q d)" for names k q d
      by (rule confines_walk(1) [where R = "\<lambda>_. True"]) (auto intro!: confined)
    then show ?thesis unfolding localEntrySize_def WalkDir_def by (intro confined)
  qed
  have m: "confines dir S (move_to_trash s source p a info)" if a: "below dir a" for p a info
    unfolding move_to_trash_def Let_def
    by (intro confined w confines_Rename a; (rule in_dir [OF root], assumption))
  show ?thesis
    unfolding deleteLocal_def
    by (intro confined confines_probe m confines_inside; (rule in_dir [OF root], assumption))
qed

lemma confines_restoreLocal:
  assumes root: "source_root (trs_unmarshal s) source dir"
  shows "confines dir S (restoreLocalTrash s source item)"
proof -
  have i: "below dir a" if "lift (map_sum id snd (resolvePhysicalPath (trs_unmarshal s) source v)) h = (Inr a, h')" for v a and h h' :: Host
    using that by (auto simp: lift_def intro: resolved_in [OF root])
  show ?thesis
    unfolding restoreLocalTrash_def by (intro confined confines_Rename; (rule i, assumption))
qed

lemma confines_audit [confined]: "confines dir S k \<Longrightarrow> confines dir S (hostAudited r ctx ev k)"
  unfolding hostAudited_def
  by (intro confined) (auto dest: recordServiceAudit_only simp: audit_only_fields(3))

lemma confines_authorize [confined]:
  "confines dir S (fsv_authorizePath s ctx i p a)" "confines dir S (trash_authorize ts ctx item a)"
  by (auto simp: confines_def fsv_authorizePath_def trash_authorize_def split: option.splits)

lemma confines_source [confined]: "confines dir S (onDB (src_FindByID i))"
  by (rule confines_rows) (auto simp: src_FindByID_def table_query_tables elim!: find_row_cases dest: same_tables_fields(3))

lemma found_source:
  assumes "onDB (src_FindByID i) h = (Inr source, h')" "db_sources (host_db h) = S"
  shows "source \<in> set S" "src_ID source = i"
proof -
  have f: "find_row db_sources (\<lambda>x. src_ID x = i) (host_db h) = (Inr source, host_db h')"
    using onDB_run(1) [OF assms(1)] by (simp add: src_FindByID_def)
  have "find (\<lambda>x. src_ID x = i) S = Some source"
    by (rule find_row_cases [OF f]) (use assms(2) in \<open>auto simp: table_query_tables\<close>)
  then show "source \<in> set S" "src_ID source = i" by (auto simp: find_Some_iff)
qed

lemma confines_trash_rows [confined]:
  "confines dir S (onDB (trash_FindByID i))" "confines dir S (onDB (trash_ListBySourceID j))" "confines dir S (onDB (trash_Delete k))"
proof -
  show "confines dir S (onDB (trash_FindByID i))"
    by (rule confines_rows) (auto simp: trash_FindByID_def table_query_tables elim!: find_row_cases dest: same_tables_fields(3))
  show "confines dir S (onDB (trash_ListBySourceID j))"
    by (rule confines_rows) (auto simp: trash_ListBySourceID_def select_rows_def gets_def elim!: stmt_cases dest: same_tables_fields(3))
  show "confines dir S (onDB (trash_Delete k))"
    by (rule confines_rows)
      (auto simp: trash_Delete_def delete_row_def elim!: stmt_cases dest: same_tables_fields(3) split: if_splits)
qed

text \<open>Drivers do not touch the machine.\<close>

lemma confines_ensure [confined]: "confines dir S (ensureDriverPath d source p)"
proof -
  have "confines dir S (ensure_segments d source q ws)" for q ws
    by (induction d source q ws rule: ensure_segments.induct)
      (auto intro!: confined simp: ensureDriverDirectory_def Let_def)
  then show ?thesis unfolding ensureDriverPath_def by (intro confined)
qed

lemma confines_drivers [confined]:
  "confines dir S (mkdirWithDriver s source mk)" "confines dir S (renameWithDriver s source rn)"
  "confines dir S (moveWithDriver s source mv)" "confines dir S (copyWithDriver s source cp)"
  "confines dir S (deleteWithDriver s source dl)" "confines dir S (restoreDriverTrash d source item)"
  unfolding mkdirWithDriver_def renameWithDriver_def moveWithDriver_def copyWithDriver_def driver_transfer_def
    deleteWithDriver_def restoreDriverTrash_def Let_def
  by (intro confined)+

section \<open>Requests\<close>

datatype file_request =
    MakeDirectory MkdirRequest
  | RenameFile RenameRequest
  | MoveFile MoveCopyRequest
  | CopyFile MoveCopyRequest
  | DeleteFile DeleteFileRequest
  | RestoreItem nat
  | PurgeItem nat
  | ClearTrash nat

definition done_with :: "('s, 'a) handler \<Rightarrow> ('s, unit) handler" where
  "done_with m = tryM m (\<lambda>_. ret ())"

fun serve :: "FileService \<Rightarrow> TrashService \<Rightarrow> Context \<Rightarrow> file_request \<Rightarrow> (Host, unit) handler" where
  "serve s ts ctx (MakeDirectory r) = done_with (Mkdir_file s ctx r)"
| "serve s ts ctx (RenameFile r) = done_with (Rename_file s ctx r)"
| "serve s ts ctx (MoveFile r) = done_with (Move_file s ctx r)"
| "serve s ts ctx (CopyFile r) = done_with (Copy_file s ctx r)"
| "serve s ts ctx (DeleteFile r) = done_with (Delete_file s ctx r)"
| "serve s ts ctx (RestoreItem i) = done_with (Restore ts ctx i)"
| "serve s ts ctx (PurgeItem i) = done_with (Trash_Delete ts ctx i)"
| "serve s ts ctx (ClearTrash i) = done_with (ClearSource ts ctx i)"

text \<open>The sources a request is about.\<close>

fun request_sources :: "Host \<Rightarrow> file_request \<Rightarrow> nat list" where
  "request_sources h (MakeDirectory r) = [mk_SourceID r]"
| "request_sources h (RenameFile r) = [rn_SourceID r]"
| "request_sources h (MoveFile r) = [mvc_SourceID r]"
| "request_sources h (CopyFile r) = [mvc_SourceID r]"
| "request_sources h (DeleteFile r) = [del_SourceID r]"
| "request_sources h (RestoreItem i) = map trash_SourceID (filter (\<lambda>x. trash_ID x = i) (db_trash (host_db h)))"
| "request_sources h (PurgeItem i) = map trash_SourceID (filter (\<lambda>x. trash_ID x = i) (db_trash (host_db h)))"
| "request_sources h (ClearTrash i) = [i]"

section \<open>Confinement\<close>

lemma confines_at_source:
  assumes "\<And>source. source \<in> set S \<Longrightarrow> src_ID source = i \<Longrightarrow> confines dir S (k source)"
  shows "confines dir S (at_source s ctx action i k)"
  unfolding at_source_def fsv_audit_def by (intro confined) (use found_source assms in auto)

lemma confines_guards [confined]:
  "confines dir S k \<Longrightarrow> confines dir S (allowed s ctx action source p act k)"
  "confines dir S run \<Longrightarrow> (\<And>x. confines dir S (f x)) \<Longrightarrow> confines dir S (file_outcome s ctx action source p run f)"
  "confines dir S k \<Longrightarrow> confines dir S (fsv_audit s ctx ev k)"
  "confines dir S (transferred s ctx action source z)"
  "confines dir S m \<Longrightarrow> confines dir S (done_with m)"
  unfolding allowed_def file_outcome_def fsv_audit_def transferred_def done_with_def by (intro confined; assumption?)+

text \<open>\<open>dir\<close> holds the files of every local source a request is about.\<close>

definition rooted :: "(string \<Rightarrow> string result) \<Rightarrow> StorageSource list \<Rightarrow> nat \<Rightarrow> string \<Rightarrow> bool" where
  "rooted unmarshal S i dir \<longleftrightarrow>
     (\<forall>source \<in> set S. src_ID source = i \<longrightarrow> src_DriverType source = ''local'' \<longrightarrow> source_root unmarshal source dir)"

lemma rootedD: "rooted u S i dir \<Longrightarrow> source \<in> set S \<Longrightarrow> src_ID source = i \<Longrightarrow> \<not> src_DriverType source \<noteq> ''local'' \<Longrightarrow>
    source_root u source dir"
  by (auto simp: rooted_def)

lemma confines_handlers:
  assumes n: "names_ok s"
  shows "rooted (fsv_unmarshal s) S (mk_SourceID mk) dir \<Longrightarrow> confines dir S (Mkdir_file s ctx mk)"
    "rooted (fsv_unmarshal s) S (rn_SourceID rn) dir \<Longrightarrow> confines dir S (Rename_file s ctx rn)"
    "rooted (fsv_unmarshal s) S (mvc_SourceID mv) dir \<Longrightarrow> confines dir S (Move_file s ctx mv)"
    "rooted (fsv_unmarshal s) S (mvc_SourceID mv) dir \<Longrightarrow> confines dir S (Copy_file s ctx mv)"
    "rooted (fsv_unmarshal s) S (del_SourceID dl) dir \<Longrightarrow> confines dir S (Delete_file s ctx dl)"
  unfolding Mkdir_file_def Rename_file_def Move_file_def Copy_file_def Delete_file_def
  by (intro confines_at_source confined confines_mkdirLocal confines_renameLocal confines_moveLocal confines_copyLocal [OF _ n]
      confines_deleteLocal; (rule rootedD; assumption))+

lemma confines_trash_storage:
  assumes "rooted (trs_unmarshal ts) S (trash_SourceID item) dir"
  shows "confines dir S (deleteTrashItemStorage ts item)"
proof -
  have k: "confines dir S (tryM (lift (map_sum id snd (resolvePhysicalPath (trs_unmarshal ts) source (trash_TrashPath item))))
      (\<lambda>p. if_err (os_RemoveAll p) (\<lambda>err. if errors_Is err ErrNotExist then ret () else throw err) ret))"
    if "source \<in> set S" "src_ID source = trash_SourceID item" "src_DriverType source = ''local''" for source
  proof -
    have root: "source_root (trs_unmarshal ts) source dir" using assms that by (auto simp: rooted_def)
    have i: "below dir a" if "lift (map_sum id snd (resolvePhysicalPath (trs_unmarshal ts) source v)) h = (Inr a, h')"
      for v a and h h' :: Host using that by (auto simp: lift_def intro: resolved_in [OF root])
    show ?thesis by (intro confined confines_inside; (rule i, assumption))
  qed
  show ?thesis
    unfolding deleteTrashItemStorage_def Let_def
    by (intro confines_if_err confines_if k) (auto intro!: confined dest: found_source)
qed

lemma confines_clear:
  assumes "\<forall>item \<in> set items. rooted (trs_unmarshal ts) S (trash_SourceID item) dir"
  shows "confines dir S (clear_items ts ctx items n)"
  using assms
  by (induction ts ctx items n rule: clear_items.induct)
    (auto intro!: confined confines_trash_storage simp: authorizeTrashDelete_def)

lemma listed_trash:
  assumes "onDB (trash_ListBySourceID i) h = (Inr items, h')"
  shows "\<forall>item \<in> set items. trash_SourceID item = i"
proof -
  have "stmt (gets (\<lambda>db. rev (sort_key (\<lambda>x. (trash_DeletedAt x, trash_ID x))
      (filter (\<lambda>x. trash_SourceID x = i) (db_trash db))))) (host_db h) = (Inr items, host_db h')"
    using onDB_run(1) [OF assms] by (simp add: trash_ListBySourceID_def select_rows_def)
  then show ?thesis by (cases rule: stmt_cases) (auto simp: gets_def)
qed

lemma confines_ClearSource:
  assumes "rooted (trs_unmarshal ts) S i dir"
  shows "confines dir S (ClearSource ts ctx i)"
  unfolding ClearSource_def
  by (intro confined confines_clear) (use listed_trash assms in force)

text \<open>An item that the first step of a handler finds.\<close>

lemma found_item:
  assumes "onDB (trash_FindByID i) h = (Inr item, h')"
  shows "item \<in> set (db_trash (host_db h))" "trash_ID item = i"
proof -
  have f: "find_row db_trash (\<lambda>x. trash_ID x = i) (host_db h) = (Inr item, host_db h')"
    using onDB_run(1) [OF assms] by (simp add: trash_FindByID_def)
  have "find (\<lambda>x. trash_ID x = i) (db_trash (host_db h)) = Some item"
    by (rule find_row_cases [OF f]) (auto simp: table_query_tables)
  then show "item \<in> set (db_trash (host_db h))" "trash_ID item = i" by (auto simp: find_Some_iff)
qed

lemma first_step:
  assumes run: "if_err m g f h = (r, h')" and src: "db_sources (host_db h) = S" and m: "confines dir S m"
    and e: "\<And>e. confines dir S (g e)" and f: "\<And>x h1. m h = (Inr x, h1) \<Longrightarrow> confines dir S (f x)"
    and p: "outside dir p" "host_fs h p = Some x"
  shows "host_fs h' p = Some x"
proof -
  obtain r1 h1 where 1: "m h = (r1, h1)" by force
  note k = confinesD [OF m src 1]
  have "confines dir S (case r1 of Inl e \<Rightarrow> g e | Inr x \<Rightarrow> f x)" using e f [of _ h1] 1 by (cases r1) auto
  moreover have "(case r1 of Inl e \<Rightarrow> g e | Inr x \<Rightarrow> f x) h1 = (r, h')" using run 1 by (cases r1) auto
  ultimately show ?thesis using confinesD(1) k p by metis
qed

lemma done_with_run: "done_with m h = (r, h') \<Longrightarrow> \<exists>r0. m h = (r0, h')"
  by (cases "m h"; cases "fst (m h)") (auto simp: done_with_def ret_def throw_def if_err_def)

lemma confined_Restore:
  assumes run: "Restore ts ctx i h = (r, h')"
    and root: "\<And>item. item \<in> set (db_trash (host_db h)) \<Longrightarrow> trash_ID item = i \<Longrightarrow>
      rooted (trs_unmarshal ts) (db_sources (host_db h)) (trash_SourceID item) dir"
    and p: "outside dir p" "host_fs h p = Some x"
  shows "host_fs h' p = Some x"
proof (rule first_step [OF run [unfolded Restore_def Let_def] refl confines_trash_rows(1) _ _ p])
  show "confines dir (db_sources (host_db h)) (hostAudited (trs_auditRecorder ts) ctx
      ((event ''file'' ''restore'' ResultFailed ''TRASH_ITEM_NOT_FOUND'')\<lparr>ev_ResourceID := encodeUintID i\<rparr>) (throw e))" for e
    by (intro confined)
  fix item h1
  assume "onDB (trash_FindByID i) h = (Inr item, h1)"
  then have rt: "rooted (trs_unmarshal ts) (db_sources (host_db h)) (trash_SourceID item) dir"
    using found_item root by blast
  have l: "confines dir (db_sources (host_db h)) (restoreLocalTrash ts source item)"
    if "onDB (src_FindByID (trash_SourceID item)) k = (Inr source, k')" "db_sources (host_db k) = db_sources (host_db h)"
      "src_DriverType source = ''local''" for source k k'
    using confines_restoreLocal found_source [OF that(1,2)] rt that(3) by (auto simp: rooted_def)
  show "confines dir (db_sources (host_db h)) (if_err (authorizeTrashRestore ts ctx item)
           (\<lambda>err. hostAudited (trs_auditRecorder ts) ctx
              ((restore_event item i ResultDenied ''ACL_DENIED'')
               \<lparr>ev_Before := [(''trash_path'', PayloadString (trash_TrashPath item))]\<rparr>) (throw err)) (\<lambda>_.
         if_err (onDB (src_FindByID (trash_SourceID item)))
           (\<lambda>err. hostAudited (trs_auditRecorder ts) ctx (restore_event item i ResultFailed ''SOURCE_NOT_FOUND'') (throw err)) (\<lambda>source.
         if_err (if src_DriverType source = ''local'' then restoreLocalTrash ts source item
                 else tryM (lift (trs_getFileDriver ts (src_DriverType source))) (\<lambda>driver. restoreDriverTrash driver source item))
           (\<lambda>err. hostAudited (trs_auditRecorder ts) ctx (restore_event item i ResultFailed (mapFileErrorCode err)) (throw err)) (\<lambda>_.
         if_err (onDB (trash_Delete (trash_ID item)))
           (\<lambda>err. hostAudited (trs_auditRecorder ts) ctx (restore_event item i ResultFailed ''INTERNAL_ERROR'') (throw err)) (\<lambda>_.
           hostAudited (trs_auditRecorder ts) ctx
             ((restore_event item i ResultSuccess [])
               \<lparr>ev_Before := [(''trash_path'', PayloadString (trash_TrashPath item))],
                ev_After := [(''virtual_path'', PayloadString (trash_OriginalVirtualPath item))]\<rparr>)
             (ret \<lparr>trr_ID = trash_ID item, trr_Restored = True, trr_RestoredPath = trash_OriginalPath item,
                   trr_RestoredVirtualPath = trash_OriginalVirtualPath item\<rparr>))))))"
    unfolding authorizeTrashRestore_def by (intro confined; (rule l; assumption))
qed

lemma confined_Purge:
  assumes run: "Trash_Delete ts ctx i h = (r, h')"
    and root: "\<And>item. item \<in> set (db_trash (host_db h)) \<Longrightarrow> trash_ID item = i \<Longrightarrow>
      rooted (trs_unmarshal ts) (db_sources (host_db h)) (trash_SourceID item) dir"
    and p: "outside dir p" "host_fs h p = Some x"
  shows "host_fs h' p = Some x"
  by (rule first_step [OF run [unfolded Trash_Delete_def] refl confines_trash_rows(1) _ _ p])
    (use found_item root in \<open>auto intro!: confined confines_trash_storage simp: authorizeTrashDelete_def\<close>)

text \<open>C23: No request reaches outside the directory of its source. Whatever a request to make, rename,
move, copy or delete a file, to restore or purge an item of the trash or to clear the trash of a source
does, and whether it succeeds or fails half-way, every file and directory outside the directory of the
local source it is about is still there with the same contents and modification time. Source directories
are absolute; the names in a directory are names of files, as \<^verbatim>\<open>os.ReadDir\<close> returns them.\<close>

theorem file_requests_confined:
  assumes run: "serve s ts ctx req h = (r, h')"
    and names: "names_ok s" and same: "trs_unmarshal ts = fsv_unmarshal s"
    and root: "\<forall>i \<in> set (request_sources h req). rooted (fsv_unmarshal s) (db_sources (host_db h)) i dir"
    and p: "\<not> below dir p" "host_fs h p = Some x"
  shows "host_fs h' p = Some x"
proof -
  have k: ?thesis if "confines dir (db_sources (host_db h)) (serve s ts ctx req)"
    by (rule confinesD(1) [OF that refl run p])
  show ?thesis
  proof (cases req)
    case (RestoreItem i)
    then obtain r0 where "Restore ts ctx i h = (r0, h')"
      using run done_with_run [of "Restore ts ctx i" h r h'] by auto
    then show ?thesis by (rule confined_Restore [OF _ _ p]) (use root same RestoreItem in auto)
  next
    case (PurgeItem i)
    then obtain r0 where "Trash_Delete ts ctx i h = (r0, h')"
      using run done_with_run [of "Trash_Delete ts ctx i" h r h'] by auto
    then show ?thesis by (rule confined_Purge [OF _ _ p]) (use root same PurgeItem in auto)
  next
    case (ClearTrash i)
    then show ?thesis using root same by (intro k) (auto intro!: confined confines_ClearSource)
  qed (rule k, use root in \<open>auto intro!: confines_guards(5) confines_handlers [OF names]\<close>)+
qed

text \<open>Deleting the file of the sample source keeps a file beside the directory of the source.\<close>

theorem file_requests_confined_witness:
  "host_fs (snd (serve sample_file_service sample_trash_service sample_ctx (DeleteFile sample_deletion)
     (sample_host\<lparr>host_fs := sample_files(''/d/rx'' \<mapsto> Regular ''keep'' 1)\<rparr>))) ''/d/rx'' = Some (Regular ''keep'' 1)"
proof -
  let ?h = "sample_host\<lparr>host_fs := sample_files(''/d/rx'' \<mapsto> Regular ''keep'' 1)\<rparr>"
  have root: "source_root (fsv_unmarshal sample_file_service) local_source ''/d/r''"
  proof -
    have "parseLocalSourceConfig (fsv_unmarshal sample_file_service) local_source = Inr ''/d''" "HasPrefix ''/d'' ''/''"
      "resolvePhysicalPath (fsv_unmarshal sample_file_service) local_source ''/'' = Inr (''/d/r'', ''/d/r'')"
      by code_simp+
    then show ?thesis unfolding source_root_def by blast
  qed
  have r: "\<forall>i \<in> set (request_sources ?h (DeleteFile sample_deletion)).
      rooted (fsv_unmarshal sample_file_service) (db_sources (host_db ?h)) i ''/d/r''"
    using root by (simp add: rooted_def sample_host_def emptyDB_def)
  have n: "names_ok sample_file_service" by (simp add: names_ok_def sample_file_service_def)
  have u: "trs_unmarshal sample_trash_service = fsv_unmarshal sample_file_service"
    by (simp add: sample_file_service_def sample_trash_service_def)
  have o: "\<not> below ''/d/r'' ''/d/rx''" by (simp add: below_def)
  have x: "host_fs ?h ''/d/rx'' = Some (Regular ''keep'' 1)" by simp
  show ?thesis
    by (rule file_requests_confined [OF prod.collapse [symmetric] n u r o x])
qed

end
