(* ===== verification/Tasks.thy ===== *)
theory Tasks
  imports File_Service
begin

text \<open>
  Offline downloads (\<^verbatim>\<open>task_service.go\<close>, \<^verbatim>\<open>download_router.go\<close>, \<^verbatim>\<open>task_repo_impl.go\<close>). A task is
  created with a downloader chosen by its link, or natively by the driver of its source; it is
  paused, resumed, canceled and synchronised with what the downloader tells; a completed
  download is imported from its staging directory into the source and committed to the metadata
  tree. Downloaders and native drivers are parameters, called through \<^const>\<open>driver_call\<close>;
  \<open>tks_parse\<close> is \<^verbatim>\<open>url.Parse\<close>, the scheme and the path of a URL; \<open>tks_percent\<close> is the quotient of
  the bytes as a percentage, in hundredths.
\<close>

section \<open>Links\<close>


abbreviation "DownloaderTypeAria2 \<equiv> ''aria2''"
abbreviation "DownloaderTypeQBittorrent \<equiv> ''qbittorrent''"
abbreviation "DownloaderTypePikPakNative \<equiv> ''pikpak_native''"

abbreviation "RSSLinkTypeMagnet \<equiv> ''magnet''"
abbreviation "RSSLinkTypeTorrent \<equiv> ''torrent''"
abbreviation "RSSLinkTypeHTTP \<equiv> ''http''"
abbreviation "RSSLinkTypeUnsupported \<equiv> ''unsupported''"

type_synonym url_parser = "string \<Rightarrow> (string \<times> string) result"

definition ClassifyDownloadLink :: "(string \<Rightarrow> string) \<Rightarrow> url_parser \<Rightarrow> string \<Rightarrow> string" where
  "ClassifyDownloadLink uni parse rawLink =
     (let trimmed = TrimSpace rawLink
      in if trimmed = [] then RSSLinkTypeUnsupported
         else if HasPrefix (ToLower uni trimmed) ''magnet:?'' then RSSLinkTypeMagnet
         else
           if_errp (parse trimmed) (\<lambda>_. RSSLinkTypeUnsupported) (\<lambda>(scheme0, path).
             if scheme0 = [] then RSSLinkTypeUnsupported
             else
               let scheme = ToLower uni scheme0
               in if scheme \<noteq> ''http'' \<and> scheme \<noteq> ''https'' then RSSLinkTypeUnsupported
                  else if map lower_byte (filepath_Ext path) = ''.torrent'' \<or> HasSuffix (ToLower uni path) ''.torrent''
                  then RSSLinkTypeTorrent
                  else RSSLinkTypeHTTP))"

definition guessTaskDisplayName :: "url_parser \<Rightarrow> string \<Rightarrow> string" where
  "guessTaskDisplayName parse rawURL =
     if_errp (parse rawURL) (\<lambda>_. rawURL) (\<lambda>(_, path).
       let name = path_Base path
       in if name = ''.'' \<or> name = ''/'' \<or> name = [] then rawURL else name)"

section \<open>File names\<close>

definition hasRSSWindowsDrivePrefix :: "string \<Rightarrow> bool" where
  "hasRSSWindowsDrivePrefix value =
     (case TrimSpace value of
        ch # colon # _ \<Rightarrow> colon = CHR '':'' \<and> ((CHR ''A'' \<le> ch \<and> ch \<le> CHR ''Z'') \<or> (CHR ''a'' \<le> ch \<and> ch \<le> CHR ''z''))
      | _ \<Rightarrow> False)"

text \<open>\<^verbatim>\<open>unicode.IsControl\<close>: the code points up to 1F and from 7F to 9F.\<close>

definition rune_IsControl :: "string \<Rightarrow> bool" where
  "rune_IsControl r =
     (case r of
        [c] \<Rightarrow> (let n = of_char c :: nat in n < 0x20 \<or> n = 0x7F)
      | [a, c] \<Rightarrow> (of_char a :: nat) = 0xC2 \<and> (of_char c :: nat) < 0xA0
      | _ \<Rightarrow> False)"

text \<open>\<^verbatim>\<open>strings.Fields\<close> on the runes of a string, with the word read so far.\<close>

fun rune_fields :: "string list \<Rightarrow> string \<Rightarrow> string list" where
  "rune_fields [] w = (if w = [] then [] else [w])"
| "rune_fields (r # rs) w =
     (if r \<in> set space_seqs then (if w = [] then rune_fields rs [] else w # rune_fields rs [])
      else rune_fields rs (w @ r))"

text \<open>\<^verbatim>\<open>strings.Trim(s, " .")\<close>\<close>

definition trim_dots :: "string \<Rightarrow> string" where
  "trim_dots s = (let cut = dropWhile (\<lambda>c. c = CHR '' '' \<or> c = CHR ''.'') in rev (cut (rev (cut s))))"

text \<open>\<^verbatim>\<open>strings.ReplaceAll(s, "..", ".")\<close>, and the loop that repeats it.\<close>

fun replace_dots :: "string \<Rightarrow> string" where
  "replace_dots (a # b # s) =
     (if a = CHR ''.'' \<and> b = CHR ''.'' then CHR ''.'' # replace_dots s else a # replace_dots (b # s))"
| "replace_dots s = s"

lemma replace_dots_length: "length (replace_dots s) \<le> length s"
  by (induction s rule: replace_dots.induct) auto

lemma replace_dots_less: "Contains s ''..'' \<Longrightarrow> length (replace_dots s) < length s"
proof (induction s rule: replace_dots.induct)
  case (1 a b s)
  show ?case
  proof (cases "a = CHR ''.'' \<and> b = CHR ''.''")
    case True
    then show ?thesis using replace_dots_length [of s] by simp
  next
    case False
    then have "Contains (b # s) ''..''"
      using 1(3) by (auto simp: Contains_def sublist_Cons_right)
    then show ?thesis using 1(2) False by auto
  qed
qed (auto simp: Contains_def dest: sublist_length_le)

function collapse_dots :: "string \<Rightarrow> string" where
  "collapse_dots s = (if Contains s ''..'' then collapse_dots (replace_dots s) else s)"
  by pat_completeness auto
termination by (relation "measure length") (auto simp: replace_dots_less)

declare collapse_dots.simps [simp del]

definition sanitize_rune :: "string \<Rightarrow> string" where
  "sanitize_rune r =
     (if r = ''/'' \<or> r = [CHR 0x5C] \<or> rune_IsControl r then '' ''
      else if r \<in> set (map (\<lambda>c. [c]) ''<>:\"|?*'') then '' '' else r)"

definition sanitizeRSSPathSegment :: "string \<Rightarrow> string" where
  "sanitizeRSSPathSegment value =
     (let built = concat (map sanitize_rune (runes (TrimSpace value)));
          collapsed = Join (rune_fields (runes built) []) '' '';
          trimmed = trim_dots (collapse_dots (trim_dots collapsed))
      in if trimmed = ''.'' \<or> trimmed = ''..'' then [] else trimmed)"

definition maxTaskTargetFilenameRunes :: nat where
  "maxTaskTargetFilenameRunes = 240"

definition truncateTaskFilename :: "string \<Rightarrow> nat \<Rightarrow> string" where
  "truncateTaskFilename filename maxRunes =
     (if maxRunes = 0 then []
      else
        let rs = runes (TrimSpace filename)
        in if length rs \<le> maxRunes then concat rs else TrimSpace (concat (take maxRunes rs)))"

definition normalizeTaskTargetFilename :: "string \<Rightarrow> string result" where
  "normalizeTaskTargetFilename inp =
     (let trimmed = TrimSpace inp
      in if trimmed = [] then Inr []
         else if Contains trimmed ''/'' \<or> Contains trimmed [CHR 0x5C] \<or> Contains trimmed ''..'' \<or> hasRSSWindowsDrivePrefix trimmed
         then Inl ErrFileNameInvalid
         else
           let cleaned = sanitizeRSSPathSegment trimmed
           in if cleaned = [] \<or> Contains cleaned ''..'' \<or> validateFileName cleaned \<noteq> Inr () then Inl ErrFileNameInvalid
              else Inr (truncateTaskFilename cleaned maxTaskTargetFilenameRunes))"

definition isSafeTaskFilenameExtension :: "string \<Rightarrow> bool" where
  "isSafeTaskFilenameExtension extension =
     (let letter = (\<lambda>c. (CHR ''a'' \<le> c \<and> c \<le> CHR ''z'') \<or> (CHR ''A'' \<le> c \<and> c \<le> CHR ''Z''));
          digit = (\<lambda>c. CHR ''0'' \<le> c \<and> c \<le> CHR ''9'');
          rest = drop 1 extension
      in 2 \<le> length extension \<and> length extension \<le> 16 \<and> list_all (\<lambda>c. letter c \<or> digit c) rest \<and> list_ex letter rest)"

definition taskFilenameHasExplicitExtension :: "string \<Rightarrow> bool" where
  "taskFilenameHasExplicitExtension filename = isSafeTaskFilenameExtension (filepath_Ext filename)"

definition taskTargetFilenameWithOriginalExtension :: "string \<Rightarrow> string \<Rightarrow> string" where
  "taskTargetFilenameWithOriginalExtension targetFilename originalRelativePath =
     (let filename = truncateTaskFilename (TrimSpace targetFilename) maxTaskTargetFilenameRunes
      in if filename = [] \<or> taskFilenameHasExplicitExtension filename then filename
         else
           let extension = filepath_Ext (path_Base originalRelativePath)
           in if \<not> isSafeTaskFilenameExtension extension then filename
              else
                let limit = maxTaskTargetFilenameRunes - length (runes extension);
                    baseLimit = (if limit < 1 then maxTaskTargetFilenameRunes else limit)
                in truncateTaskFilename filename baseLimit @ extension)"

section \<open>Task rows\<close>

definition normalizeDownloaderType :: "string \<Rightarrow> string" where
  "normalizeDownloaderType value = (if value = [] then ''aria2'' else value)"

definition task_setID :: "nat \<Rightarrow> DownloadTask \<Rightarrow> DownloadTask" where
  "task_setID i x = x\<lparr>task_ID := i\<rparr>"

definition task_stored :: "gotime \<Rightarrow> DownloadTask \<Rightarrow> DownloadTask" where
  "task_stored now x =
     x\<lparr>task_DownloaderType := normalizeDownloaderType (task_DownloaderType x),
       task_CreatedAt := (if task_CreatedAt x = 0 then now else task_CreatedAt x),
       task_UpdatedAt := (if task_UpdatedAt x = 0 then now else task_UpdatedAt x)\<rparr>"

definition task_Create :: "DownloadTask \<Rightarrow> (DB, DownloadTask) handler" where
  "task_Create x db =
     insert_row ''download_tasks'' db_tasks db_tasks_update task_ID task_setID (\<lambda>_ _. False) (task_stored (db_now db) x) db"

text \<open>All columns but the identifier and the time of creation.\<close>

definition task_merge :: "gotime \<Rightarrow> DownloadTask \<Rightarrow> DownloadTask \<Rightarrow> DownloadTask" where
  "task_merge now old new =
     new\<lparr>task_ID := task_ID old, task_DownloaderType := normalizeDownloaderType (task_DownloaderType new),
         task_CreatedAt := task_CreatedAt old, task_UpdatedAt := now\<rparr>"

definition task_Update :: "DownloadTask \<Rightarrow> (DB, unit) handler" where
  "task_Update = update_row db_tasks db_tasks_update task_ID task_merge (\<lambda>_ _. False)"

definition task_FindByID :: "nat \<Rightarrow> (DB, DownloadTask) handler" where
  "task_FindByID i = find_row db_tasks (\<lambda>x. task_ID x = i)"

definition task_List :: "(DB, DownloadTask list) handler" where
  "task_List = select_rows (\<lambda>db. sort_key (\<lambda>x. - task_UpdatedAt x) (db_tasks db))"

section \<open>Downloaders\<close>

record DownloadStatus =
  ds_Status :: string
  ds_CompletedBytes :: int
  ds_TotalBytes :: "int option"
  ds_DownloadSpeed :: int
  ds_ETASeconds :: "int option"
  ds_ProgressPercent :: "int option"
  ds_DisplayName :: string
  ds_ErrorMessage :: "string option"

text \<open>A downloader; the number counts the calls of drivers and downloaders on the host.\<close>

record Downloader =
  dl_AddURI :: "nat \<Rightarrow> string \<Rightarrow> string \<Rightarrow> string result"
  dl_TellStatus :: "nat \<Rightarrow> string \<Rightarrow> DownloadStatus result"
  dl_Pause :: "nat \<Rightarrow> string \<Rightarrow> unit result"
  dl_Resume :: "nat \<Rightarrow> string \<Rightarrow> unit result"
  dl_Remove :: "nat \<Rightarrow> string \<Rightarrow> unit result"

record NativeDownloadRequest =
  nq_URL :: string
  nq_TargetDirPath :: string
  nq_TargetFilename :: string

record NativeDownloadTask =
  nt_ExternalID :: string
  nt_DisplayName :: string
  nt_ProgressPercent :: "int option"

record NativeDownloadDriver =
  nd_Create :: "nat \<Rightarrow> StorageSource \<Rightarrow> NativeDownloadRequest \<Rightarrow> NativeDownloadTask option result"
  nd_Status :: "nat \<Rightarrow> StorageSource \<Rightarrow> string \<Rightarrow> DownloadStatus option result"
  nd_Cancel :: "nat \<Rightarrow> StorageSource \<Rightarrow> string \<Rightarrow> bool \<Rightarrow> unit result"
  nd_Pause :: "nat \<Rightarrow> StorageSource \<Rightarrow> string \<Rightarrow> unit result"
  nd_Resume :: "nat \<Rightarrow> StorageSource \<Rightarrow> string \<Rightarrow> unit result"

text \<open>Percentages are in hundredths.\<close>

definition clampTaskProgressPercent :: "int \<Rightarrow> int" where
  "clampTaskProgressPercent progress = (if progress < 0 then 0 else if progress > 10000 then 10000 else progress)"

definition downloadStatusFromNative :: "DownloadStatus option \<Rightarrow> DownloadStatus" where
  "downloadStatusFromNative status =
     (case status of
        None \<Rightarrow> \<lparr>ds_Status = ''pending'', ds_CompletedBytes = 0, ds_TotalBytes = None, ds_DownloadSpeed = 0,
                 ds_ETASeconds = None, ds_ProgressPercent = None, ds_DisplayName = [], ds_ErrorMessage = None\<rparr>
      | Some st \<Rightarrow>
          let progress = map_option clampTaskProgressPercent (ds_ProgressPercent st)
          in st\<lparr>ds_ProgressPercent := (if ds_Status st = ''completed'' \<and> progress = None then Some 10000 else progress)\<rparr>)"

text \<open>
  \<open>tks_downloaders\<close> are the registered downloaders of the router. The observer is told of tasks
  that have ended; its error is logged and dropped. \<open>tks_names\<close> and \<open>tks_depth\<close> are the names in a
  directory and the bound of a walk, as in \<open>File_Service\<close>.
\<close>

record TaskService =
  tks_aclAuthorizer :: "(DB \<Rightarrow> ACLAuthorizer) option"
  tks_downloaders :: "string \<Rightarrow> Downloader option"
  tks_stagingRoot :: string
  tks_stagingRoots :: "string \<Rightarrow> string"
  tks_importDrivers :: "string \<Rightarrow> ImportDriver option"
  tks_nativeDrivers :: "string \<Rightarrow> NativeDownloadDriver option"
  tks_observer :: "(DownloadTask \<Rightarrow> (DB, unit) handler) option"
  tks_vfsResolver :: "(StorageSource \<Rightarrow> string \<Rightarrow> bool result) option"
  tks_metadataReader :: "MetadataVFSService option"
  tks_metadataCommitter :: "MetadataVFSCommitService option"
  tks_operationJournal :: "VFSOperationJournalService option"
  tks_auditRecorder :: "Recorder option"
  tks_env :: GoEnv
  tks_unmarshal :: "string \<Rightarrow> string result"
  tks_parse :: url_parser
  tks_percent :: "int \<Rightarrow> int \<Rightarrow> int"
  tks_names :: "files \<Rightarrow> string \<Rightarrow> string list"
  tks_depth :: nat

definition Router_Get :: "TaskService \<Rightarrow> string \<Rightarrow> Downloader result" where
  "Router_Get s downloaderType =
     (case tks_downloaders s downloaderType of None \<Rightarrow> Inl ErrSourceDriverUnsupported | Some d \<Rightarrow> Inr d)"

definition Router_Select :: "TaskService \<Rightarrow> string \<Rightarrow> (string \<times> Downloader) result" where
  "Router_Select s rawURI =
     (let kind = ClassifyDownloadLink (env_uni (tks_env s)) (tks_parse s) rawURI
      in if kind = RSSLinkTypeHTTP
         then tryp (Router_Get s DownloaderTypeAria2) (\<lambda>d. Inr (DownloaderTypeAria2, d))
         else if kind = RSSLinkTypeMagnet \<or> kind = RSSLinkTypeTorrent
         then tryp (Router_Get s DownloaderTypeQBittorrent) (\<lambda>d. Inr (DownloaderTypeQBittorrent, d))
         else Inl ErrDownloadLinkUnsupported)"

definition taskResolvedSourceID :: "DownloadTask \<Rightarrow> nat" where
  "taskResolvedSourceID task = (if task_ResolvedSourceID task \<noteq> 0 then task_ResolvedSourceID task else task_SourceID task)"

text \<open>The source and the driver of a native task.\<close>

definition native_resolve :: "TaskService \<Rightarrow> nat \<Rightarrow> (Host, StorageSource \<times> NativeDownloadDriver) handler" where
  "native_resolve s sourceID =
     (if sourceID = 0 then throw ErrSourceDriverUnsupported
      else
        tryM (onDB (src_FindByID sourceID)) (\<lambda>source.
          case tks_nativeDrivers s (src_DriverType source) of
            None \<Rightarrow> throw ErrSourceDriverUnsupported
          | Some driver \<Rightarrow> ret (source, driver)))"

text \<open>The downloader of a task: a registered one, or the native driver of its source.\<close>

datatype task_downloader = Registered Downloader | Native nat

definition downloaderForTask :: "TaskService \<Rightarrow> DownloadTask \<Rightarrow> task_downloader result" where
  "downloaderForTask s task =
     (let downloaderType = normalizeDownloaderType (task_DownloaderType task)
      in if downloaderType = DownloaderTypePikPakNative then Inr (Native (taskResolvedSourceID task))
         else tryp (Router_Get s downloaderType) (\<lambda>d. Inr (Registered d)))"

fun TellStatus :: "TaskService \<Rightarrow> task_downloader \<Rightarrow> string \<Rightarrow> (Host, DownloadStatus) handler" where
  "TellStatus s (Registered d) externalID = driver_call (\<lambda>n. dl_TellStatus d n externalID)"
| "TellStatus s (Native i) externalID =
     tryM (native_resolve s i) (\<lambda>(source, driver).
     tryM (driver_call (\<lambda>n. nd_Status driver n source externalID)) (\<lambda>status. ret (downloadStatusFromNative status)))"

fun Downloader_Pause :: "TaskService \<Rightarrow> task_downloader \<Rightarrow> string \<Rightarrow> (Host, unit) handler" where
  "Downloader_Pause s (Registered d) externalID = driver_call (\<lambda>n. dl_Pause d n externalID)"
| "Downloader_Pause s (Native i) externalID =
     tryM (native_resolve s i) (\<lambda>(source, driver). driver_call (\<lambda>n. nd_Pause driver n source externalID))"

fun Downloader_Resume :: "TaskService \<Rightarrow> task_downloader \<Rightarrow> string \<Rightarrow> (Host, unit) handler" where
  "Downloader_Resume s (Registered d) externalID = driver_call (\<lambda>n. dl_Resume d n externalID)"
| "Downloader_Resume s (Native i) externalID =
     tryM (native_resolve s i) (\<lambda>(source, driver). driver_call (\<lambda>n. nd_Resume driver n source externalID))"

fun Downloader_Remove :: "TaskService \<Rightarrow> task_downloader \<Rightarrow> string \<Rightarrow> (Host, unit) handler" where
  "Downloader_Remove s (Registered d) externalID = driver_call (\<lambda>n. dl_Remove d n externalID)"
| "Downloader_Remove s (Native i) externalID =
     tryM (native_resolve s i) (\<lambda>(source, driver). driver_call (\<lambda>n. nd_Cancel driver n source externalID False))"


end
