(* ===== verification/Task_Service.thy ===== *)
theory Task_Service
  imports Tasks
begin

text \<open>
  The service of offline downloads (\<^verbatim>\<open>task_service.go\<close>): creating tasks, natively or through a
  staging directory, listing and synchronising them, pausing, resuming and canceling them, and
  the import of a completed download into its source with the commit to the metadata tree. The
  code changes the task in memory also on the paths that fail, so the functions that get the
  task as a pointer run on a pair of the host and the task.
\<close>

section \<open>Requests, answers and codes\<close>

record CreateTaskRequest =
  ctr_Type :: string
  ctr_URL :: string
  ctr_SourceID :: nat
  ctr_SavePath :: string
  ctr_TargetVirtualParentPath :: string
  ctr_TargetFilename :: string

record DownloadTaskView =
  tv_ID :: nat
  tv_Type :: string
  tv_DownloaderType :: string
  tv_Status :: string
  tv_SourceID :: nat
  tv_SavePath :: string
  tv_TargetVFSParentNodeID :: nat
  tv_TargetVirtualParentPath :: string
  tv_TargetFilename :: string
  tv_SaveVirtualPath :: string
  tv_ResolvedSourceID :: nat
  tv_ResolvedInnerSavePath :: string
  tv_ResultVFSNodeID :: nat
  tv_DisplayName :: string
  tv_SourceURL :: string
  tv_Progress :: int
  tv_DownloadedBytes :: int
  tv_TotalBytes :: "int option"
  tv_SpeedBytes :: int
  tv_ETASeconds :: "int option"
  tv_ErrorMessage :: "string option"
  tv_CreatedAt :: string
  tv_UpdatedAt :: string
  tv_FinishedAt :: "string option"

record CancelTaskResponse =
  cnr_ID :: nat
  cnr_Canceled :: bool
  cnr_DeleteFile :: bool

record TaskActionResponse =
  tar_ID :: nat
  tar_Status :: string

record resolvedTaskTarget =
  rtt_source :: StorageSource
  rtt_savePath :: string
  rtt_targetVFSParentNodeID :: nat
  rtt_targetVirtualParentPath :: string
  rtt_saveVirtualPath :: string
  rtt_resolvedSourceID :: nat
  rtt_resolvedInnerSavePath :: string

record stagedTaskFile =
  stf_localPath :: string
  stf_relativePath :: string

text \<open>The first matching case of the switch in \<^verbatim>\<open>taskErrorCode\<close>.\<close>

definition task_error_codes :: "(app_error \<times> string) list" where
  "task_error_codes =
     [(ErrPermissionDenied, ''PERMISSION_DENIED''),
      (ErrSourceDriverUnsupported, ''SOURCE_DRIVER_UNSUPPORTED''),
      (ErrSourceOperationUnsupported, ''SOURCE_OPERATION_UNSUPPORTED''),
      (ErrDownloaderAuthFailed, ''DOWNLOADER_AUTH_FAILED''),
      (ErrDownloaderUnavailable, ''DOWNLOADER_UNAVAILABLE''),
      (ErrDownloadLinkUnsupported, ''DOWNLOAD_LINK_UNSUPPORTED''),
      (ErrCloudAuthFailed, ''CLOUD_AUTH_FAILED''),
      (ErrCloudTokenInvalid, ''CLOUD_TOKEN_INVALID''),
      (ErrCloudCaptchaRequired, ''CLOUD_CAPTCHA_REQUIRED''),
      (ErrCloudCaptchaExpired, ''CLOUD_CAPTCHA_REQUIRED''),
      (ErrCloudRateLimited, ''CLOUD_RATE_LIMITED''),
      (ErrCloudRegionBlocked, ''CLOUD_REGION_BLOCKED''),
      (ErrCloudProviderUnavailable, ''CLOUD_PROVIDER_UNAVAILABLE''),
      (ErrTaskInvalidState, ''TASK_INVALID_STATE''),
      (ErrNoBackingStorage, ''NO_BACKING_STORAGE''),
      (ErrMetadataVFSCommitFailed, ''METADATA_VFS_COMMIT_FAILED''),
      (ErrPathInvalid, ''PATH_INVALID'')]"

definition taskErrorCode :: "app_error \<Rightarrow> string" where
  "taskErrorCode err =
     (case find (\<lambda>(e, _). errors_Is err e) task_error_codes of None \<Rightarrow> ''INTERNAL_ERROR'' | Some (_, code) \<Rightarrow> code)"

definition taskCreateErrorCode :: "app_error \<Rightarrow> string" where
  "taskCreateErrorCode err = (if errors_Is err ErrNotFound then ''SOURCE_NOT_FOUND'' else taskErrorCode err)"

definition taskAuditView :: "DownloadTask \<Rightarrow> any_map" where
  "taskAuditView task =
     [(''id'', PayloadNumber (FormatUint (task_ID task))), (''user_id'', PayloadNumber (FormatUint (task_UserID task))),
      (''type'', PayloadString (task_Type task)), (''downloader_type'', PayloadString (task_DownloaderType task)),
      (''status'', PayloadString (task_Status task)), (''source_id'', PayloadNumber (FormatUint (task_SourceID task))),
      (''save_path'', PayloadString (task_SavePath task)),
      (''target_vfs_parent_node_id'', PayloadNumber (FormatUint (task_TargetVFSParentNodeID task))),
      (''target_virtual_parent_path'', PayloadString (task_TargetVirtualParentPath task)),
      (''target_filename'', PayloadString (task_TargetFilename task)),
      (''save_virtual_path'', PayloadString (task_SaveVirtualPath task)),
      (''resolved_source_id'', PayloadNumber (FormatUint (task_ResolvedSourceID task))),
      (''resolved_inner_save_path'', PayloadString (task_ResolvedInnerSavePath task)),
      (''result_vfs_node_id'', PayloadNumber (FormatUint (task_ResultVFSNodeID task))),
      (''display_name'', PayloadString (task_DisplayName task)), (''source_url'', PayloadString (task_SourceURL task))]"

definition isTerminalTaskStatus :: "string \<Rightarrow> bool" where
  "isTerminalTaskStatus status \<longleftrightarrow> status = ''completed'' \<or> status = ''failed'' \<or> status = ''canceled''"

definition blank_message :: "string option \<Rightarrow> bool" where
  "blank_message m = (case m of None \<Rightarrow> True | Some t \<Rightarrow> TrimSpace t = [])"

definition toTaskView :: "TaskService \<Rightarrow> DownloadTask \<Rightarrow> DownloadTaskView" where
  "toTaskView s task =
     (let time = env_rfc3339 (tks_env s);
          terminal = isTerminalTaskStatus (task_Status task);
          message = task_ErrorMessage task;
          errorMessage =
            (if task_Status task = ''completed'' then None
             else if task_Status task = ''failed'' \<and> blank_message message then Some ''download failed''
             else if task_Status task = ''canceled'' \<and> blank_message message then Some ''download canceled''
             else message)
      in \<lparr>tv_ID = task_ID task, tv_Type = task_Type task, tv_DownloaderType = task_DownloaderType task,
          tv_Status = task_Status task, tv_SourceID = task_SourceID task, tv_SavePath = task_SavePath task,
          tv_TargetVFSParentNodeID = task_TargetVFSParentNodeID task,
          tv_TargetVirtualParentPath = task_TargetVirtualParentPath task,
          tv_TargetFilename = task_TargetFilename task, tv_SaveVirtualPath = task_SaveVirtualPath task,
          tv_ResolvedSourceID = task_ResolvedSourceID task,
          tv_ResolvedInnerSavePath = task_ResolvedInnerSavePath task,
          tv_ResultVFSNodeID = task_ResultVFSNodeID task, tv_DisplayName = task_DisplayName task,
          tv_SourceURL = task_SourceURL task, tv_Progress = task_Progress task,
          tv_DownloadedBytes = task_DownloadedBytes task, tv_TotalBytes = task_TotalBytes task,
          tv_SpeedBytes = (if terminal then 0 else task_SpeedBytes task),
          tv_ETASeconds = (if terminal then None else task_ETASeconds task),
          tv_ErrorMessage = errorMessage, tv_CreatedAt = time (task_CreatedAt task),
          tv_UpdatedAt = time (task_UpdatedAt task), tv_FinishedAt = map_option time (task_FinishedAt task)\<rparr>)"

section \<open>Authorization and targets\<close>

definition authorizeTaskPath :: "TaskService \<Rightarrow> Context \<Rightarrow> nat \<Rightarrow> string \<Rightarrow> ACLAction \<Rightarrow> (Host, unit) handler" where
  "authorizeTaskPath s ctx sourceID savePath action h =
     (case tks_aclAuthorizer s of
        None \<Rightarrow> (Inr (), h)
      | Some az \<Rightarrow> (AuthorizePath (Some (az (host_db h))) (ctx_auth ctx) sourceID savePath action, h))"

definition currentTaskUserID :: "Context \<Rightarrow> nat" where
  "currentTaskUserID ctx = (case ctx_auth ctx of None \<Rightarrow> 0 | Some auth \<Rightarrow> auth_UserID auth)"

definition authorizeTaskOwnership :: "Context \<Rightarrow> DownloadTask \<Rightarrow> bool \<Rightarrow> unit result" where
  "authorizeTaskOwnership ctx task manage =
     (case ctx_auth ctx of
        None \<Rightarrow> Inl ErrPermissionDenied
      | Some auth \<Rightarrow>
          let allowed = (if manage then CanManageTask (auth_UserID auth) (task_UserID task) (auth_Capabilities auth)
                         else CanReadTask (auth_UserID auth) (task_UserID task) (auth_Capabilities auth))
          in if \<not> allowed then Inl ErrPermissionDenied else Inr ())"

definition taskTargetProbeName :: "TaskService \<Rightarrow> CreateTaskRequest \<Rightarrow> string" where
  "taskTargetProbeName s req =
     (if TrimSpace (ctr_TargetFilename req) \<noteq> [] then ctr_TargetFilename req
      else
        let probeName = guessTaskDisplayName (tks_parse s) (ctr_URL req)
        in if validateFileName probeName \<noteq> Inr () then ''download'' else probeName)"

definition resolveCreateTarget :: "TaskService \<Rightarrow> CreateTaskRequest \<Rightarrow> (DB, resolvedTaskTarget) handler" where
  "resolveCreateTarget s req =
     (if TrimSpace (ctr_TargetVirtualParentPath req) \<noteq> [] then
        tryM (lift (normalizeVirtualPath (ctr_TargetVirtualParentPath req))) (\<lambda>virtualParentPath.
          case tks_vfsResolver s of
            None \<Rightarrow> throw ErrSourceDriverUnsupported
          | Some sourcePathExists \<Rightarrow>
              tryM (select_rows db_sources) (\<lambda>rows.
              tryM (lift (ResolveWritableTarget sourcePathExists rows
                      (joinVirtualPath virtualParentPath (taskTargetProbeName s req)))) (\<lambda>resolved.
                case rp_Source resolved of
                  None \<Rightarrow> throw ErrNoBackingStorage
                | Some source \<Rightarrow>
                    tryM (lift (splitParentName (rp_InnerPath resolved))) (\<lambda>(innerParentPath, _).
                    tryM (resolveMetadataVFSNodeID (tks_metadataReader s) virtualParentPath) (\<lambda>nodeID.
                      ret \<lparr>rtt_source = source, rtt_savePath = innerParentPath, rtt_targetVFSParentNodeID = nodeID,
                           rtt_targetVirtualParentPath = virtualParentPath, rtt_saveVirtualPath = virtualParentPath,
                           rtt_resolvedSourceID = src_ID source, rtt_resolvedInnerSavePath = innerParentPath\<rparr>)))))
      else if ctr_SourceID req = 0 \<or> TrimSpace (ctr_SavePath req) = [] then throw ErrPathInvalid
      else
        tryM (src_FindByID (ctr_SourceID req)) (\<lambda>source.
        tryM (lift (normalizeVirtualPath (ctr_SavePath req))) (\<lambda>savePath.
          let vp0 = mergeMountAndInnerPath (src_MountPath source) savePath;
              saveVirtualPath = (if vp0 = [] then savePath else vp0)
          in tryM (resolveMetadataVFSNodeID (tks_metadataReader s) saveVirtualPath) (\<lambda>nodeID.
               ret \<lparr>rtt_source = source, rtt_savePath = savePath, rtt_targetVFSParentNodeID = nodeID,
                    rtt_targetVirtualParentPath = [], rtt_saveVirtualPath = saveVirtualPath,
                    rtt_resolvedSourceID = src_ID source, rtt_resolvedInnerSavePath = savePath\<rparr>))))"

definition newTaskStagingDir :: "TaskService \<Rightarrow> string \<Rightarrow> string \<Rightarrow> string" where
  "newTaskStagingDir s uuid downloaderType =
     (let typedRoot = TrimSpace (tks_stagingRoots s downloaderType);
          stagingRoot = (if typedRoot \<noteq> [] then typedRoot else tks_stagingRoot s)
      in path_Join [stagingRoot, ''task_'' @ stringsNoDash uuid])"

definition getTaskImportDriver :: "TaskService \<Rightarrow> string \<Rightarrow> ImportDriver result" where
  "getTaskImportDriver s driverType =
     (case tks_importDrivers s driverType of None \<Rightarrow> Inl ErrSourceDriverUnsupported | Some d \<Rightarrow> Inr d)"

section \<open>Creating\<close>

definition new_task ::
  "Context \<Rightarrow> CreateTaskRequest \<Rightarrow> resolvedTaskTarget \<Rightarrow> string \<Rightarrow> string \<Rightarrow> string \<Rightarrow> string \<Rightarrow> int \<Rightarrow> gotime \<Rightarrow> DownloadTask" where
  "new_task ctx req target downloaderType stagingDir displayName externalID progress now =
     \<lparr>task_ID = 0, task_UserID = currentTaskUserID ctx, task_Type = ctr_Type req,
      task_DownloaderType = downloaderType, task_Status = ''pending'',
      task_SourceID = src_ID (rtt_source target), task_SavePath = rtt_savePath target,
      task_TargetVFSParentNodeID = rtt_targetVFSParentNodeID target,
      task_TargetVirtualParentPath = rtt_targetVirtualParentPath target,
      task_TargetFilename = ctr_TargetFilename req, task_SaveVirtualPath = rtt_saveVirtualPath target,
      task_ResolvedSourceID = rtt_resolvedSourceID target,
      task_ResolvedInnerSavePath = rtt_resolvedInnerSavePath target, task_ResultVFSNodeID = 0,
      task_StagingDir = stagingDir, task_DisplayName = displayName, task_SourceURL = ctr_URL req,
      task_ExternalID = externalID, task_Progress = progress, task_DownloadedBytes = 0,
      task_TotalBytes = None, task_SpeedBytes = 0, task_ETASeconds = None, task_ErrorMessage = None,
      task_FinishedAt = None, task_CreatedAt = now, task_UpdatedAt = now\<rparr>"

definition create_event :: "string \<Rightarrow> string \<Rightarrow> nat \<Rightarrow> string \<Rightarrow> Event" where
  "create_event res code sourceID virtualPath =
     (event ''task'' ''create'' res code)\<lparr>ev_SourceID := Some sourceID, ev_VirtualPath := virtualPath\<rparr>"

definition create_failed :: "TaskService \<Rightarrow> Context \<Rightarrow> string \<Rightarrow> nat \<Rightarrow> string \<Rightarrow> app_error \<Rightarrow> (Host, 'a) handler" where
  "create_failed s ctx code sourceID virtualPath err =
     hostAudited (tks_auditRecorder s) ctx (create_event ResultFailed code sourceID virtualPath) (throw err)"

definition created_view :: "TaskService \<Rightarrow> Context \<Rightarrow> resolvedTaskTarget \<Rightarrow> DownloadTask \<Rightarrow> (Host, DownloadTaskView) handler" where
  "created_view s ctx target task =
     hostAudited (tks_auditRecorder s) ctx
       ((create_event ResultSuccess [] (src_ID (rtt_source target)) (rtt_saveVirtualPath target))
         \<lparr>ev_ResourceID := encodeUintID (task_ID task), ev_After := taskAuditView task\<rparr>)
       (ret (toTaskView s task))"

text \<open>\<open>None\<close>: the link or the source is left to the registered downloaders.\<close>

definition tryCreateNativeDownloadTask ::
  "TaskService \<Rightarrow> Context \<Rightarrow> CreateTaskRequest \<Rightarrow> resolvedTaskTarget \<Rightarrow> (Host, DownloadTaskView option) handler" where
  "tryCreateNativeDownloadTask s ctx req target =
     (let source = rtt_source target;
          failing = (\<lambda>code err. create_failed s ctx code (src_ID source) (rtt_saveVirtualPath target) err)
      in if ClassifyDownloadLink (env_uni (tks_env s)) (tks_parse s) (ctr_URL req) = RSSLinkTypeUnsupported then ret None
         else
           case tks_nativeDrivers s (src_DriverType source) of
             None \<Rightarrow> ret None
           | Some driver \<Rightarrow>
               if_err (driver_call (\<lambda>n. nd_Create driver n source
                   \<lparr>nq_URL = ctr_URL req, nq_TargetDirPath = rtt_savePath target, nq_TargetFilename = ctr_TargetFilename req\<rparr>))
                 (\<lambda>err. if errors_Is err ErrSourceOperationUnsupported \<or> errors_Is err ErrDownloadLinkUnsupported then ret None
                        else failing (taskCreateErrorCode err) err)
                 (\<lambda>created.
                    case created of
                      None \<Rightarrow> failing (taskCreateErrorCode ErrCloudProviderUnavailable) ErrCloudProviderUnavailable
                    | Some nativeTask \<Rightarrow>
                        let externalID = TrimSpace (nt_ExternalID nativeTask)
                        in if externalID = [] then failing (taskCreateErrorCode ErrCloudProviderUnavailable) ErrCloudProviderUnavailable
                           else
                             tryM time_Now (\<lambda>now.
                               let progress = (case nt_ProgressPercent nativeTask of None \<Rightarrow> 0 | Some p \<Rightarrow> clampTaskProgressPercent p);
                                   task = new_task ctx req target DownloaderTypePikPakNative []
                                     (TrimSpace (nt_DisplayName nativeTask)) externalID progress now
                               in if_err (onDB (task_Create task))
                                    (\<lambda>err. tryM (ignored (driver_call (\<lambda>n. nd_Cancel driver n source externalID False)))
                                       (\<lambda>_. failing ''INTERNAL_ERROR'' err))
                                    (\<lambda>stored. tryM (created_view s ctx target stored) (\<lambda>view. ret (Some view))))))"

definition createStagedTask ::
  "TaskService \<Rightarrow> Context \<Rightarrow> string \<Rightarrow> CreateTaskRequest \<Rightarrow> resolvedTaskTarget \<Rightarrow> (Host, DownloadTaskView) handler" where
  "createStagedTask s ctx uuid req target =
     (let source = rtt_source target;
          failing = (\<lambda>code err. create_failed s ctx code (src_ID source) (rtt_saveVirtualPath target) err)
      in if_err (if src_DriverType source = ''local'' then ret ()
                 else if_err (lift (getTaskImportDriver s (src_DriverType source)))
                   (\<lambda>err. throw (if errors_Is err ErrSourceDriverUnsupported then ErrSourceOperationUnsupported else err))
                   (\<lambda>_. ret ()))
           (\<lambda>err. failing (taskCreateErrorCode err) err) (\<lambda>_.
         if_err (lift (Router_Select s (ctr_URL req))) (\<lambda>err. failing (taskCreateErrorCode err) err) (\<lambda>(downloaderType, downloader).
           let stagingDir = newTaskStagingDir s uuid downloaderType
           in if_err (os_MkdirAll stagingDir) (\<lambda>err. failing (taskCreateErrorCode err) err) (\<lambda>_.
              if_err (driver_call (\<lambda>n. dl_AddURI downloader n (ctr_URL req) stagingDir))
                (\<lambda>err. tryM (ignored (os_RemoveAll stagingDir)) (\<lambda>_. failing ''INTERNAL_ERROR'' err)) (\<lambda>externalID.
              tryM time_Now (\<lambda>now.
              if_err (onDB (task_Create (new_task ctx req target downloaderType stagingDir
                        (guessTaskDisplayName (tks_parse s) (ctr_URL req)) externalID 0 now)))
                (\<lambda>err. tryM (ignored (os_RemoveAll stagingDir)) (\<lambda>_. failing ''INTERNAL_ERROR'' err))
                (created_view s ctx target)))))))"

definition Create_task :: "TaskService \<Rightarrow> Context \<Rightarrow> string \<Rightarrow> CreateTaskRequest \<Rightarrow> (Host, DownloadTaskView) handler" where
  "Create_task s ctx uuid req0 =
     if_err (lift (normalizeTaskTargetFilename (ctr_TargetFilename req0)))
       (\<lambda>err. create_failed s ctx ''FILE_NAME_INVALID'' (ctr_SourceID req0) [] err) (\<lambda>targetFilename.
       let req = req0\<lparr>ctr_TargetFilename := targetFilename\<rparr>
       in if_err (onDB (resolveCreateTarget s req))
            (\<lambda>err. create_failed s ctx (taskCreateErrorCode err) (ctr_SourceID req) [] err) (\<lambda>target.
          if_err (authorizeTaskPath s ctx (src_ID (rtt_source target)) (rtt_savePath target) ACLActionWrite)
            (\<lambda>err. hostAudited (tks_auditRecorder s) ctx
               (create_event ResultDenied ''ACL_DENIED'' (src_ID (rtt_source target)) (rtt_saveVirtualPath target)) (throw err)) (\<lambda>_.
          tryM (tryCreateNativeDownloadTask s ctx req target) (\<lambda>view.
            case view of Some v \<Rightarrow> ret v | None \<Rightarrow> createStagedTask s ctx uuid req target))))"

section \<open>Committing an imported file\<close>

definition taskImportedMetadataVirtualParentPath :: "DownloadTask \<Rightarrow> StorageSource \<Rightarrow> string \<Rightarrow> string" where
  "taskImportedMetadataVirtualParentPath task source innerParentPath =
     (let vb0 = TrimSpace (task_TargetVirtualParentPath task);
          virtualBase = (if vb0 = [] then TrimSpace (task_SaveVirtualPath task) else vb0);
          bi0 = TrimSpace (task_ResolvedInnerSavePath task);
          baseInner = (if bi0 = [] then task_SavePath task else bi0);
          fallback = mergeMountAndInnerPath (src_MountPath source) innerParentPath
      in if virtualBase = [] then fallback
         else
           if_errp (normalizeVirtualPath virtualBase) (\<lambda>_. fallback) (\<lambda>vbase.
           if_errp (normalizeVirtualPath innerParentPath) (\<lambda>_. fallback) (\<lambda>inner.
           if_errp (normalizeVirtualPath baseInner) (\<lambda>_. fallback) (\<lambda>binner.
             if \<not> isSubPath binner inner then fallback
             else if inner = binner then vbase
             else joinVirtualPath vbase (TrimPrefix (TrimPrefix inner binner) ''/'')))))"

definition taskCommitTargetPathSnapshot :: "DownloadTask \<Rightarrow> string \<Rightarrow> string \<Rightarrow> string" where
  "taskCommitTargetPathSnapshot task virtualParentPath objectPath =
     (let p0 = TrimSpace virtualParentPath;
          parent = (if p0 = [] then TrimSpace (task_SaveVirtualPath task) else p0)
      in if parent = [] then objectPath
         else if TrimSpace objectPath = [] then parent
         else if_errp (splitParentName objectPath) (\<lambda>_. parent) (\<lambda>(_, filename).
           if filename = [] then parent else joinVirtualPath parent filename))"

definition recordTaskMetadataCommitFailure ::
  "TaskService \<Rightarrow> DownloadTask \<Rightarrow> StorageSource \<Rightarrow> string \<Rightarrow> string \<Rightarrow> app_error \<Rightarrow> (DB, unit) handler" where
  "recordTaskMetadataCommitFailure s task source objectPath virtualParentPath err =
     (case tks_operationJournal s of
        None \<Rightarrow> ret ()
      | Some journal \<Rightarrow>
          ignored (RecordFailure journal
            \<lparr>in_OperationType = VFSOperationTypeTaskCommit, in_SourceNodeID = None,
             in_TargetParentNodeID = optionalUintPtr (task_TargetVFSParentNodeID task), in_ResultNodeID = None,
             in_SourcePathSnapshot = objectPath,
             in_TargetPathSnapshot = taskCommitTargetPathSnapshot task virtualParentPath objectPath,
             in_SourceIDSnapshot = Some (src_ID source), in_DriverTypeSnapshot = src_DriverType source,
             in_Payload = Some [(''phase'', PayloadString ''metadata_commit''),
               (''task_id'', PayloadNumber (FormatUint (task_ID task))),
               (''downloader_type'', PayloadString (task_DownloaderType task)),
               (''status'', PayloadString (task_Status task))],
             in_PayloadJSON = [], in_ErrorCode = ''METADATA_VFS_COMMIT_FAILED'', in_Error = Some err,
             in_CreatedBy = optionalUintPtr (task_UserID task), in_NextRetryAt = None\<rparr>))"

definition commitTaskMetadataFileObject ::
  "TaskService \<Rightarrow> DownloadTask \<Rightarrow> StorageSource \<Rightarrow> string \<Rightarrow> int \<Rightarrow> string \<Rightarrow> (DB, nat) handler" where
  "commitTaskMetadataFileObject s task source targetPath filesize mimeType =
     (case tks_metadataCommitter s of
        None \<Rightarrow> ret 0
      | Some committer \<Rightarrow>
          tryM (lift (splitParentName targetPath)) (\<lambda>(innerParentPath, filename).
            let virtualParentPath = taskImportedMetadataVirtualParentPath task source innerParentPath
            in if_err (CommitFileObject committer
                 \<lparr>cq_Source = Some source, cq_SourceID = 0, cq_DriverType = [],
                  cq_VirtualParentPath = virtualParentPath, cq_ResolvedInnerParentPath = innerParentPath,
                  cq_Filename = filename, cq_ObjectPath = targetPath, cq_LocatorType = [], cq_LocatorJSON = [],
                  cq_Size = filesize, cq_MimeType = mimeType, cq_ETag = [], cq_Checksum = [],
                  cq_ActorID = Some (task_UserID task)\<rparr>)
                 (\<lambda>err. tryM (recordTaskMetadataCommitFailure s task source targetPath virtualParentPath err)
                    (\<lambda>_. throw (maskMetadataVFSCommitError err)))
                 (\<lambda>res. ret (node_ID (cr_Node res)))))"

definition commitTaskImportedMetadataFile ::
  "TaskService \<Rightarrow> DownloadTask \<Rightarrow> StorageSource \<Rightarrow> string \<Rightarrow> fs_node \<Rightarrow> (Host, nat) handler" where
  "commitTaskImportedMetadataFile s task source targetPath info =
     onDB (commitTaskMetadataFileObject s task source targetPath (file_Size info)
             (detectContentType (tks_env s) (path_Base targetPath)))"

text \<open>The node of an earlier import of the same file, if the tree already has it.\<close>

definition resolveExistingTaskResultNode ::
  "TaskService \<Rightarrow> DownloadTask \<Rightarrow> StorageSource \<Rightarrow> string \<Rightarrow> (DB, nat option) handler" where
  "resolveExistingTaskResultNode s task source targetPath =
     (case tks_metadataReader s of
        None \<Rightarrow> ret None
      | Some rd \<Rightarrow>
          if_err (lift (splitParentName targetPath)) (\<lambda>_. ret None) (\<lambda>(innerParentPath, filename).
            if filename = [] then ret None
            else
              let virtualParentPath = taskImportedMetadataVirtualParentPath task source innerParentPath
              in if TrimSpace virtualParentPath = [] then ret None
                 else
                   if_err (ResolveNode rd (joinVirtualPath virtualParentPath filename)) (\<lambda>_. ret None) (\<lambda>node.
                     if metadataVFSNodeUnavailable node \<or> node_Kind node \<noteq> VFSNodeKindFile then ret None
                     else if node_SourceID node \<noteq> Some (src_ID source) then ret None
                     else ret (Some (node_ID node)))))"

definition task_physical :: "TaskService \<Rightarrow> StorageSource \<Rightarrow> string \<Rightarrow> string result" where
  "task_physical s source targetPath = map_sum id snd (resolvePhysicalPath (tks_unmarshal s) source targetPath)"

definition recoverCompletedTaskResult ::
  "TaskService \<Rightarrow> DownloadTask \<Rightarrow> StorageSource \<Rightarrow> string \<Rightarrow> (Host, nat option) handler" where
  "recoverCompletedTaskResult s task source targetPath =
     (if TrimSpace targetPath = [] \<or> src_DriverType source \<noteq> ''local'' then ret None
      else
        tryM (lift (task_physical s source targetPath)) (\<lambda>physicalPath.
        if_err (os_Stat physicalPath)
          (\<lambda>err. if errors_Is err ErrNotExist then ret None else throw err) (\<lambda>info.
          if node_IsDir info then ret None
          else
            tryM (onDB (resolveExistingTaskResultNode s task source targetPath)) (\<lambda>existing.
              case existing of
                Some nodeID \<Rightarrow> ret (Some nodeID)
              | None \<Rightarrow>
                  if_err (commitTaskImportedMetadataFile s task source targetPath info)
                    (\<lambda>err. tryM (onDB (resolveExistingTaskResultNode s task source targetPath)) (\<lambda>existing.
                       case existing of Some existingID \<Rightarrow> ret (Some existingID) | None \<Rightarrow> throw err))
                    (\<lambda>nodeID. ret (Some nodeID))))))"

section \<open>Importing a completed download\<close>

definition add_candidate :: "string \<Rightarrow> string list \<Rightarrow> string list" where
  "add_candidate value candidates =
     (let v = TrimSpace value
      in if v = [] \<or> v = ''.'' \<or> Contains v ''/'' \<or> Contains v [CHR 0x5C] \<or> v \<in> set candidates then candidates
         else candidates @ [v])"

definition completedTaskSingleFileCandidateRelativePaths :: "TaskService \<Rightarrow> DownloadTask \<Rightarrow> string list" where
  "completedTaskSingleFileCandidateRelativePaths s task =
     (let displayName = TrimSpace (task_DisplayName task);
          cs1 = (if TrimSpace (task_TargetFilename task) \<noteq> []
                 then add_candidate (task_TargetFilename task)
                        (add_candidate (taskTargetFilenameWithOriginalExtension (task_TargetFilename task) displayName) [])
                 else []);
          cs2 = add_candidate displayName cs1
      in if task_DownloaderType task \<noteq> DownloaderTypePikPakNative
         then add_candidate (guessTaskDisplayName (tks_parse s) (task_SourceURL task)) cs2
         else cs2)"

definition completedTaskResultFilename :: "TaskService \<Rightarrow> DownloadTask \<Rightarrow> string result" where
  "completedTaskResultFilename s task =
     (case find (\<lambda>c. validateFileName c = Inr ()) (completedTaskSingleFileCandidateRelativePaths s task) of
        None \<Rightarrow> Inl ErrMetadataVFSCommitFailed | Some candidate \<Rightarrow> Inr candidate)"

definition completedTaskResultSize :: "DownloadTask \<Rightarrow> int" where
  "completedTaskResultSize task =
     (case task_TotalBytes task of
        Some n \<Rightarrow> if n > 0 then n else if task_DownloadedBytes task > 0 then task_DownloadedBytes task else 0
      | None \<Rightarrow> if task_DownloadedBytes task > 0 then task_DownloadedBytes task else 0)"

definition task_base_path :: "DownloadTask \<Rightarrow> string result" where
  "task_base_path task =
     normalizeVirtualPath (if TrimSpace (task_ResolvedInnerSavePath task) = [] then task_SavePath task
                           else task_ResolvedInnerSavePath task)"

text \<open>The first candidate that is a file of the source, with the node it was committed to.\<close>

fun find_completed ::
  "TaskService \<Rightarrow> DownloadTask \<Rightarrow> StorageSource \<Rightarrow> string \<Rightarrow> string list \<Rightarrow> (Host, nat option) handler" where
  "find_completed s task source base [] = ret None"
| "find_completed s task source base (relativePath # rest) =
     (let targetPath = joinVirtualPath base relativePath
      in tryM (lift (task_physical s source targetPath)) (\<lambda>physicalPath.
         if_err (os_Stat physicalPath)
           (\<lambda>err. if errors_Is err ErrNotExist then find_completed s task source base rest else throw err) (\<lambda>info.
           if node_IsDir info then find_completed s task source base rest
           else tryM (commitTaskImportedMetadataFile s task source targetPath info) (\<lambda>nodeID. ret (Some nodeID)))))"

definition completedLocalTaskTargetExists :: "TaskService \<Rightarrow> DownloadTask \<Rightarrow> (Host, nat option) handler" where
  "completedLocalTaskTargetExists s task =
     tryM (onDB (src_FindByID (taskResolvedSourceID task))) (\<lambda>source.
       if src_DriverType source \<noteq> ''local'' then ret None
       else
         tryM (lift (task_base_path task)) (\<lambda>base.
           find_completed s task source base (completedTaskSingleFileCandidateRelativePaths s task)))"

definition importLocalStagedFile :: "TaskService \<Rightarrow> StorageSource \<Rightarrow> string \<Rightarrow> string \<Rightarrow> (Host, unit) handler" where
  "importLocalStagedFile s source targetPath localPath =
     tryM (lift (task_physical s source targetPath)) (\<lambda>physicalPath.
     if_err (os_Stat physicalPath)
       (\<lambda>err. if \<not> errors_Is err ErrNotExist then throw err
              else
                tryM (os_MkdirAll (path_Dir physicalPath)) (\<lambda>_.
                if_err (os_Rename localPath physicalPath)
                  (\<lambda>_. tryM (copyFile localPath physicalPath) (\<lambda>_. os_Remove localPath)) ret))
       (\<lambda>_. throw ErrFileAlreadyExists))"

definition importStagedFile :: "TaskService \<Rightarrow> StorageSource \<Rightarrow> string \<Rightarrow> string \<Rightarrow> (Host, unit) handler" where
  "importStagedFile s source targetPath localPath =
     (if src_DriverType source = ''local'' then importLocalStagedFile s source targetPath localPath
      else
        if_err (lift (getTaskImportDriver s (src_DriverType source)))
          (\<lambda>err. throw (if errors_Is err ErrSourceDriverUnsupported then ErrSourceOperationUnsupported else err)) (\<lambda>driver.
        if_err (import_call driver source targetPath localPath) (\<lambda>err. throw (normalizeImportDriverError err)) ret))"

definition listStagedTaskFiles :: "TaskService \<Rightarrow> string \<Rightarrow> (Host, stagedTaskFile list) handler" where
  "listStagedTaskFiles s stagingDir =
     WalkDir (tks_names s)
       (\<lambda>current entry.
          let relativePath = rel_path stagingDir current
          in ret (False,
               if node_IsDir entry \<or> HasSuffix (path_Base current) ''.aria2'' \<or> relativePath = ''.'' \<or> relativePath = [] then []
               else [\<lparr>stf_localPath = current, stf_relativePath = relativePath\<rparr>]))
       (tks_depth s) stagingDir"

definition taskImportRelativePath :: "DownloadTask \<Rightarrow> stagedTaskFile \<Rightarrow> nat \<Rightarrow> string" where
  "taskImportRelativePath task staged fileCount =
     (if fileCount \<noteq> 1 \<or> TrimSpace (task_TargetFilename task) = [] then stf_relativePath staged
      else taskTargetFilenameWithOriginalExtension (task_TargetFilename task) (stf_relativePath staged))"

text \<open>The host and the task in memory.\<close>

type_synonym task_state = "Host \<times> DownloadTask"

definition onHost :: "(Host, 'a) handler \<Rightarrow> (task_state, 'a) handler" where
  "onHost m st = (case m (fst st) of (r, h') \<Rightarrow> (r, (h', snd st)))"

definition change_task :: "(DownloadTask \<Rightarrow> DownloadTask) \<Rightarrow> (task_state, unit) handler" where
  "change_task f = modify (\<lambda>(h, t). (h, f t))"

definition note_result :: "nat \<Rightarrow> (task_state, unit) handler" where
  "note_result nodeID =
     change_task (\<lambda>t. if nodeID > 0 \<and> task_ResultVFSNodeID t = 0 then t\<lparr>task_ResultVFSNodeID := nodeID\<rparr> else t)"

definition import_one :: "TaskService \<Rightarrow> StorageSource \<Rightarrow> string \<Rightarrow> string \<Rightarrow> (task_state, unit) handler" where
  "import_one s source targetPath localPath =
     tryM (gets snd) (\<lambda>task.
     tryM (onHost (os_Stat localPath)) (\<lambda>info.
       let recover = (\<lambda>err found. tryM (onHost (recoverCompletedTaskResult s task source targetPath)) (\<lambda>recovered.
             case recovered of None \<Rightarrow> throw err | Some nodeID \<Rightarrow> tryM found (\<lambda>_. note_result nodeID)))
       in if_err (onHost (importStagedFile s source targetPath localPath))
            (\<lambda>err. if errors_Is err ErrFileAlreadyExists then recover err (onHost (ignored (os_Remove localPath))) else throw err)
            (\<lambda>_. if_err (onHost (commitTaskImportedMetadataFile s task source targetPath info))
               (\<lambda>err. recover err (ret ())) note_result)))"

fun import_files :: "TaskService \<Rightarrow> StorageSource \<Rightarrow> string \<Rightarrow> nat \<Rightarrow> stagedTaskFile list \<Rightarrow> (task_state, unit) handler" where
  "import_files s source base fileCount [] = ret ()"
| "import_files s source base fileCount (staged # rest) =
     tryM (gets snd) (\<lambda>task.
     tryM (import_one s source (joinVirtualPath base (taskImportRelativePath task staged fileCount)) (stf_localPath staged)) (\<lambda>_.
       import_files s source base fileCount rest))"

definition commitCompletedTaskWithoutStaging :: "TaskService \<Rightarrow> (task_state, unit) handler" where
  "commitCompletedTaskWithoutStaging s =
     tryM (gets snd) (\<lambda>task.
       if task_ResultVFSNodeID task > 0 \<or> tks_metadataCommitter s = None then ret ()
       else
         tryM (onHost (onDB (src_FindByID (taskResolvedSourceID task)))) (\<lambda>source.
           let failing = (\<lambda>objectPath virtualParentPath err.
                 tryM (onHost (onDB (recordTaskMetadataCommitFailure s task source objectPath virtualParentPath err)))
                   (\<lambda>_. throw err))
           in if src_DriverType source = ''local'' then
                tryM (onHost (completedLocalTaskTargetExists s task)) (\<lambda>imported.
                  case imported of
                    None \<Rightarrow> throw ErrFileNotFound
                  | Some nodeID \<Rightarrow> change_task (\<lambda>t. t\<lparr>task_ResultVFSNodeID := nodeID\<rparr>))
              else if task_DownloaderType task \<noteq> DownloaderTypePikPakNative
              then failing [] (task_SaveVirtualPath task) ErrMetadataVFSCommitFailed
              else
                tryM (lift (task_base_path task)) (\<lambda>base.
                if_err (lift (completedTaskResultFilename s task)) (failing [] (task_SaveVirtualPath task)) (\<lambda>filename.
                  let targetPath = joinVirtualPath base filename
                  in tryM (onHost (onDB (commitTaskMetadataFileObject s task source targetPath
                             (completedTaskResultSize task) (detectContentType (tks_env s) filename)))) (\<lambda>nodeID.
                       if nodeID = 0
                       then failing targetPath (taskImportedMetadataVirtualParentPath task source base) ErrMetadataVFSCommitFailed
                       else change_task (\<lambda>t. t\<lparr>task_ResultVFSNodeID := nodeID\<rparr>))))))"

text \<open>A staging directory without files: the file may be in its source already.\<close>

definition found_before :: "nat \<Rightarrow> DownloadTask \<Rightarrow> DownloadTask" where
  "found_before nodeID t =
     t\<lparr>task_StagingDir := [], task_ResultVFSNodeID := (if nodeID > 0 then nodeID else task_ResultVFSNodeID t)\<rparr>"

definition importCompletedTask :: "TaskService \<Rightarrow> (task_state, unit) handler" where
  "importCompletedTask s =
     tryM (gets snd) (\<lambda>task.
       let stagingDir = task_StagingDir task
       in if TrimSpace stagingDir = [] then commitCompletedTaskWithoutStaging s
          else
            if_err (onHost (listStagedTaskFiles s stagingDir))
              (\<lambda>err. if errors_Is err ErrNotExist then
                       tryM (onHost (completedLocalTaskTargetExists s task)) (\<lambda>imported.
                         case imported of None \<Rightarrow> throw err | Some nodeID \<Rightarrow> change_task (found_before nodeID))
                     else throw err) (\<lambda>files.
              if files = [] then
                tryM (onHost (completedLocalTaskTargetExists s task)) (\<lambda>imported.
                  case imported of
                    None \<Rightarrow> throw ErrFileNotFound
                  | Some nodeID \<Rightarrow>
                      tryM (onHost (ignored (os_RemoveAll stagingDir))) (\<lambda>_. change_task (found_before nodeID)))
              else
                tryM (onHost (onDB (src_FindByID (taskResolvedSourceID task)))) (\<lambda>source.
                tryM (lift (task_base_path task)) (\<lambda>base.
                tryM (import_files s source base (length files) files) (\<lambda>_.
                tryM (gets snd) (\<lambda>task.
                  if tks_metadataCommitter s \<noteq> None \<and> task_ResultVFSNodeID task = 0 then
                    tryM (onHost (onDB (recordTaskMetadataCommitFailure s task source [] (task_SaveVirtualPath task)
                            ErrMetadataVFSCommitFailed))) (\<lambda>_. throw ErrMetadataVFSCommitFailed)
                  else
                    tryM (onHost (os_RemoveAll stagingDir)) (\<lambda>_. change_task (\<lambda>t. t\<lparr>task_StagingDir := []\<rparr>))))))))"

section \<open>Synchronising\<close>

definition notifyTaskTerminalStatus :: "TaskService \<Rightarrow> DownloadTask \<Rightarrow> (DB, unit) handler" where
  "notifyTaskTerminalStatus s task =
     (case tks_observer s of
        None \<Rightarrow> ret ()
      | Some observer \<Rightarrow> if isTerminalTaskStatus (task_Status task) then ignored (observer task) else ret ())"

text \<open>What the task takes from its downloader, before a completed download is imported.\<close>

definition told :: "TaskService \<Rightarrow> gotime \<Rightarrow> DownloadStatus \<Rightarrow> DownloadTask \<Rightarrow> DownloadTask" where
  "told s now status task0 =
     (let task = task0\<lparr>task_Status := ds_Status status, task_DownloadedBytes := ds_CompletedBytes status,
            task_TotalBytes := ds_TotalBytes status, task_SpeedBytes := ds_DownloadSpeed status,
            task_ETASeconds := ds_ETASeconds status, task_ErrorMessage := ds_ErrorMessage status,
            task_DisplayName := (if ds_DisplayName status \<noteq> [] then ds_DisplayName status else task_DisplayName task0),
            task_Progress :=
              (case ds_ProgressPercent status of
                 Some p \<Rightarrow> clampTaskProgressPercent p
               | None \<Rightarrow> (case ds_TotalBytes status of
                   Some n \<Rightarrow> if n > 0 then tks_percent s (ds_CompletedBytes status) n else task_Progress task0
                 | None \<Rightarrow> task_Progress task0))\<rparr>;
          ended = (\<lambda>message. task\<lparr>task_ErrorMessage := (if blank_message (task_ErrorMessage task) then Some message
                                                       else task_ErrorMessage task),
                     task_SpeedBytes := 0, task_ETASeconds := None, task_FinishedAt := Some now\<rparr>)
      in if ds_Status status = ''failed'' then ended ''download failed''
         else if ds_Status status = ''canceled'' then ended ''download canceled by downloader''
         else if ds_Status status = ''completed''
         then task\<lparr>task_SpeedBytes := 0, task_ETASeconds := None,
                   task_Progress := (if task_Progress task < 10000 then 10000 else task_Progress task)\<rparr>
         else task)"

definition completed_import :: "TaskService \<Rightarrow> gotime \<Rightarrow> (task_state, unit) handler" where
  "completed_import s now =
     if_err (importCompletedTask s)
       (\<lambda>err. change_task (\<lambda>t. t\<lparr>task_Status := ''failed'', task_ErrorMessage := Some (error_text err), task_FinishedAt := Some now\<rparr>))
       (\<lambda>_. change_task (\<lambda>t. t\<lparr>task_ErrorMessage := None, task_FinishedAt := Some now\<rparr>))"

definition refreshTask :: "TaskService \<Rightarrow> (task_state, unit) handler" where
  "refreshTask s =
     tryM (gets snd) (\<lambda>task.
       if task_ExternalID task = [] then ret ()
       else if isTerminalTaskStatus (task_Status task) then ret ()
       else
         tryM (lift (downloaderForTask s task)) (\<lambda>downloader.
         tryM (onHost (TellStatus s downloader (task_ExternalID task))) (\<lambda>status.
         tryM (onHost time_Now) (\<lambda>now.
         tryM (change_task (told s now status)) (\<lambda>_.
         tryM (if ds_Status status = ''completed'' then completed_import s now else ret ()) (\<lambda>_.
         tryM (change_task (\<lambda>t. t\<lparr>task_UpdatedAt := now\<rparr>)) (\<lambda>_.
         tryM (gets snd) (\<lambda>updated.
         tryM (onHost (onDB (task_Update updated))) (\<lambda>_.
           onHost (onDB (notifyTaskTerminalStatus s updated)))))))))))"

text \<open>\<^verbatim>\<open>_ = s.refreshTask(ctx, item)\<close>, with the task as it is afterwards.\<close>

definition refreshed_task :: "TaskService \<Rightarrow> DownloadTask \<Rightarrow> (Host, DownloadTask) handler" where
  "refreshed_task s task h = (case refreshTask s (h, task) of (_, (h', task')) \<Rightarrow> (Inr task', h'))"

text \<open>A request without an identity reads as the user 0 without capabilities.\<close>

definition canReadTask_in :: "Context \<Rightarrow> DownloadTask \<Rightarrow> bool" where
  "canReadTask_in ctx task =
     (case ctx_auth ctx of
        None \<Rightarrow> CanReadTask 0 (task_UserID task) []
      | Some auth \<Rightarrow> CanReadTask (auth_UserID auth) (task_UserID task) (auth_Capabilities auth))"

fun list_tasks :: "TaskService \<Rightarrow> Context \<Rightarrow> DownloadTask list \<Rightarrow> (Host, DownloadTaskView list) handler" where
  "list_tasks s ctx [] = ret []"
| "list_tasks s ctx (item # items) =
     (if \<not> canReadTask_in ctx item then list_tasks s ctx items
      else
        tryM (refreshed_task s item) (\<lambda>task.
        tryM (list_tasks s ctx items) (\<lambda>views. ret (toTaskView s task # views))))"

definition List_tasks :: "TaskService \<Rightarrow> Context \<Rightarrow> (Host, DownloadTaskView list) handler" where
  "List_tasks s ctx = tryM (onDB task_List) (list_tasks s ctx)"

definition Get_task :: "TaskService \<Rightarrow> Context \<Rightarrow> nat \<Rightarrow> (Host, DownloadTaskView) handler" where
  "Get_task s ctx i =
     tryM (onDB (task_FindByID i)) (\<lambda>task.
     tryM (lift (authorizeTaskOwnership ctx task False)) (\<lambda>_.
     tryM (refreshed_task s task) (\<lambda>task'. ret (toTaskView s task'))))"

fun sync_tasks :: "TaskService \<Rightarrow> DownloadTask list \<Rightarrow> app_error option \<Rightarrow> (Host, unit) handler" where
  "sync_tasks s [] syncErr = (case syncErr of None \<Rightarrow> ret () | Some err \<Rightarrow> throw err)"
| "sync_tasks s (item # items) syncErr =
     (if isTerminalTaskStatus (task_Status item) then sync_tasks s items syncErr
      else
        (\<lambda>h. case refreshTask s (h, item) of
           (Inr _, (h', _)) \<Rightarrow> sync_tasks s items syncErr h'
         | (Inl err, (h', _)) \<Rightarrow>
             sync_tasks s items (Some (case syncErr of None \<Rightarrow> err | Some e \<Rightarrow> ErrJoin e err)) h'))"

definition SyncAll :: "TaskService \<Rightarrow> (Host, unit) handler" where
  "SyncAll s = tryM (onDB task_List) (\<lambda>items. sync_tasks s items None)"

section \<open>Controlling\<close>

definition task_event :: "string \<Rightarrow> nat \<Rightarrow> string \<Rightarrow> string \<Rightarrow> any_map \<Rightarrow> Event" where
  "task_event action i res code before =
     (event ''task'' action res code)\<lparr>ev_ResourceID := encodeUintID i, ev_Before := before\<rparr>"

text \<open>The beginning that canceling, pausing and resuming share.\<close>

definition controlled_task ::
  "TaskService \<Rightarrow> Context \<Rightarrow> string \<Rightarrow> nat \<Rightarrow> (DownloadTask \<Rightarrow> (Host, 'a) handler) \<Rightarrow> (Host, 'a) handler" where
  "controlled_task s ctx action i k =
     (let audit = hostAudited (tks_auditRecorder s) ctx
      in if_err (onDB (task_FindByID i))
           (\<lambda>err. audit (task_event action i ResultFailed ''TASK_NOT_FOUND'' []) (throw err)) (\<lambda>task.
         if_err (lift (authorizeTaskOwnership ctx task True))
           (\<lambda>err. audit (task_event action i ResultDenied ''PERMISSION_DENIED'' (taskAuditView task)) (throw err)) (\<lambda>_.
           k task)))"

definition cancelNativeDownloadTask :: "TaskService \<Rightarrow> DownloadTask \<Rightarrow> bool \<Rightarrow> (Host, unit) handler" where
  "cancelNativeDownloadTask s task deleteFile =
     tryM (onDB (src_FindByID (taskResolvedSourceID task))) (\<lambda>source.
       case tks_nativeDrivers s (src_DriverType source) of
         None \<Rightarrow> throw ErrSourceDriverUnsupported
       | Some driver \<Rightarrow> driver_call (\<lambda>n. nd_Cancel driver n source (task_ExternalID task) deleteFile))"

definition canceled_task :: "gotime \<Rightarrow> DownloadTask \<Rightarrow> DownloadTask" where
  "canceled_task now task =
     task\<lparr>task_Status := ''canceled'', task_ErrorMessage := Some ''download canceled by user'', task_SpeedBytes := 0,
          task_ETASeconds := None, task_FinishedAt := Some now, task_UpdatedAt := now\<rparr>"

definition Cancel_task :: "TaskService \<Rightarrow> Context \<Rightarrow> nat \<Rightarrow> bool \<Rightarrow> (Host, CancelTaskResponse) handler" where
  "Cancel_task s ctx i deleteFile =
     controlled_task s ctx ''cancel'' i (\<lambda>task.
       let audit = hostAudited (tks_auditRecorder s) ctx;
           before = taskAuditView task
       in if isTerminalTaskStatus (task_Status task) then
            audit ((task_event ''cancel'' i ResultSuccess [] before)
                \<lparr>ev_After := before, ev_Detail := [(''delete_file'', PayloadBool deleteFile), (''idempotent'', PayloadBool True)]\<rparr>)
              (ret \<lparr>cnr_ID = i, cnr_Canceled = (task_Status task = ''canceled''), cnr_DeleteFile = deleteFile\<rparr>)
          else
            tryM time_Now (\<lambda>now.
              let canceled = canceled_task now task
              in if_err (onDB (task_Update canceled))
                   (\<lambda>err. audit (task_event ''cancel'' i ResultFailed ''INTERNAL_ERROR'' before) (throw err)) (\<lambda>_.
                 tryM (if task_ExternalID task = [] then ret ()
                       else if task_DownloaderType task = DownloaderTypePikPakNative
                       then ignored (cancelNativeDownloadTask s canceled deleteFile)
                       else ignored (tryM (lift (downloaderForTask s canceled))
                              (\<lambda>downloader. Downloader_Remove s downloader (task_ExternalID task)))) (\<lambda>_.
                 tryM (onDB (notifyTaskTerminalStatus s canceled)) (\<lambda>_.
                   audit ((task_event ''cancel'' i ResultSuccess [] before)
                       \<lparr>ev_After := taskAuditView canceled, ev_Detail := [(''delete_file'', PayloadBool deleteFile)]\<rparr>)
                     (ret \<lparr>cnr_ID = i, cnr_Canceled = True, cnr_DeleteFile = deleteFile\<rparr>))))))"

text \<open>
  Pausing and resuming: the downloader is looked up, the status is checked, the downloader is
  called and the new status is stored.
\<close>

definition task_action ::
  "TaskService \<Rightarrow> Context \<Rightarrow> string \<Rightarrow> string list \<Rightarrow> (task_downloader \<Rightarrow> string \<Rightarrow> (Host, unit) handler) \<Rightarrow>
   string \<Rightarrow> nat \<Rightarrow> (Host, TaskActionResponse) handler" where
  "task_action s ctx action accepted call newStatus i =
     controlled_task s ctx action i (\<lambda>task.
       let audit = hostAudited (tks_auditRecorder s) ctx;
           before = taskAuditView task;
           failing = (\<lambda>code err. audit (task_event action i ResultFailed code before) (throw err))
       in if_err (lift (downloaderForTask s task)) (failing ''SOURCE_DRIVER_UNSUPPORTED'') (\<lambda>downloader.
          if task_Status task \<notin> set accepted then failing ''TASK_INVALID_STATE'' ErrTaskInvalidState
          else
            if_err (call downloader (task_ExternalID task)) (\<lambda>err. failing (taskErrorCode err) err) (\<lambda>_.
            tryM time_Now (\<lambda>now.
              let changed = task\<lparr>task_Status := newStatus, task_UpdatedAt := now\<rparr>
              in if_err (onDB (task_Update changed)) (failing ''INTERNAL_ERROR'') (\<lambda>_.
                   audit ((task_event action i ResultSuccess [] before)\<lparr>ev_After := taskAuditView changed\<rparr>)
                     (ret \<lparr>tar_ID = task_ID changed, tar_Status = task_Status changed\<rparr>))))))"

definition Pause_task :: "TaskService \<Rightarrow> Context \<Rightarrow> nat \<Rightarrow> (Host, TaskActionResponse) handler" where
  "Pause_task s ctx = task_action s ctx ''pause'' [''pending'', ''running''] (Downloader_Pause s) ''paused''"

definition Resume_task :: "TaskService \<Rightarrow> Context \<Rightarrow> nat \<Rightarrow> (Host, TaskActionResponse) handler" where
  "Resume_task s ctx = task_action s ctx ''resume'' [''paused''] (Downloader_Resume s) ''running''"

end
