(* ===== verification/Tasks_Correct.thy ===== *)
theory Tasks_Correct
  imports Task_Service Sync_Frame File_Confined
begin

text \<open>
  Correctness of offline downloads: the rows of tasks only move forward, and a task that has
  ended never changes again; nobody but the owner or a manager controls a task; a completed
  download lies at its target.
\<close>

section \<open>What leaves the rows of tasks alone\<close>

context beside_part begin

lemma beside_commit [intro]:
  "keeps (ResolveNode rd p)" "keeps (CommitFileObject c req)"
proof -
  show "keeps (ResolveNode rd p)" by (rule keeps_reads) (rule ResolveNode_reads(1))
  have root: "keeps (ensureCommitRoot now)" for now
    unfolding ensureCommitRoot_def by (intro keeps_rules beside_repo)
  have dir: "keeps (commit_dir source sid now actor cur seg)" for source sid now actor cur seg
    unfolding commit_dir_def Let_def by (intro keeps_rules beside_repo)
  have dirs: "keeps (commit_dirs source sid now actor cur segs)" for source sid now actor cur segs
    by (induction segs arbitrary: cur) (auto intro!: dir)
  have parent: "keeps (ensureCommitParentPath source sid vp now actor)" for source sid vp now actor
    unfolding ensureCommitParentPath_def using root dirs by auto
  have store: "keeps (commit_store ob mk)" for ob mk
    unfolding commit_store_def by (intro keeps_rules beside_repo)
  have body: "keeps (commit_body c req sid dt vp lt lj)" for sid dt vp lt lj
    unfolding commit_body_def Let_def using parent store by (intro keeps_rules beside_repo) auto
  then have "keeps (withinCommitTx c (commit_body c req sid dt vp lt lj))" for sid dt vp lt lj
    unfolding withinCommitTx_def by auto
  then show "keeps (CommitFileObject c req)"
    unfolding CommitFileObject_def by (intro keeps_rules)
qed

end

interpretation task_rows: beside_part db_tasks
  by unfold_locales simp_all

lemma task_rows_RecordFailure: "task_rows.keeps (RecordFailure j input)"
proof -
  have c: "task_rows.keeps (op_Create x)" for x
    unfolding op_Create_def Let_def
    by (rule task_rows.keeps_env, intro task_rows.keeps_rules) auto
  have r: "task_rows.keeps (record_op j input st)" for input st
    unfolding record_op_def Let_def
    by (intro task_rows.keeps_if_app task_rows.keeps_basic, rule task_rows.keeps_env, intro task_rows.keeps_rules c)
  show ?thesis unfolding RecordFailure_def by (rule task_rows.keeps_env) (rule r)
qed

lemma task_rows_commits:
  "task_rows.keeps (recordTaskMetadataCommitFailure s task source op vp err)"
  "task_rows.keeps (commitTaskMetadataFileObject s task source tp n mime)"
  "task_rows.keeps (resolveExistingTaskResultNode s task source tp)"
  "task_rows.keeps (task_FindByID i)" "task_rows.keeps task_List"
proof -
  show r: "task_rows.keeps (recordTaskMetadataCommitFailure s task source op vp err)" for op vp err
    unfolding recordTaskMetadataCommitFailure_def ignored_def
    by (intro task_rows.keeps_rules task_rows_RecordFailure)
  show "task_rows.keeps (commitTaskMetadataFileObject s task source tp n mime)"
    unfolding commitTaskMetadataFileObject_def Let_def by (intro task_rows.keeps_rules task_rows.beside_commit r)
  show "task_rows.keeps (resolveExistingTaskResultNode s task source tp)"
    unfolding resolveExistingTaskResultNode_def Let_def by (intro task_rows.keeps_rules task_rows.beside_commit)
  show "task_rows.keeps (task_FindByID i)" "task_rows.keeps task_List"
    unfolding task_FindByID_def task_List_def by auto
qed

text \<open>Handlers of the host.\<close>

definition rows_kept :: "(Host, 'a) handler \<Rightarrow> bool" where
  "rows_kept m \<longleftrightarrow> frames (\<lambda>_. False) (\<lambda>a b. db_tasks b = db_tasks a) m"

named_theorems row_keeping

lemma same_rows: "reflp (\<lambda>a b. db_tasks b = db_tasks a)" "transp (\<lambda>a b. db_tasks b = db_tasks a)"
  by (simp_all add: reflp_def transp_def)

lemma rows_keptD: "rows_kept m \<Longrightarrow> m h = (r, h') \<Longrightarrow> db_tasks (host_db h') = db_tasks (host_db h)"
  unfolding rows_kept_def by (drule framesD(2)) auto

lemma rows_kept_rules [row_keeping]:
  "rows_kept (ret x)" "rows_kept (throw e)" "rows_kept (lift y)" "rows_kept (os_Stat p)" "rows_kept (os_MkdirAll p)"
  "rows_kept (os_RemoveAll p)" "rows_kept (driver_call c)" "rows_kept (import_call d source tp lp)" "rows_kept time_Now"
proof -
  show "rows_kept (time_Now)" by (simp add: rows_kept_def frames_def time_Now_def)
qed (unfold rows_kept_def, (rule frames_basic frames_files frames_driver_call frames_import_call, (rule same_rows | simp)+)+)

lemma rows_kept_if_err [row_keeping]:
  "rows_kept m \<Longrightarrow> (\<And>e. rows_kept (g e)) \<Longrightarrow> (\<And>x. rows_kept (f x)) \<Longrightarrow> rows_kept (if_err m g f)"
  unfolding rows_kept_def by (rule frames_if_err [OF same_rows(2)])

lemma rows_kept_cases [row_keeping]:
  "(b \<Longrightarrow> rows_kept m) \<Longrightarrow> (\<not> b \<Longrightarrow> rows_kept m') \<Longrightarrow> rows_kept (if b then m else m')"
  "rows_kept m \<Longrightarrow> (\<And>x. rows_kept (f x)) \<Longrightarrow> rows_kept (case y of None \<Rightarrow> m | Some x \<Rightarrow> f x)"
  "(\<And>a b. rows_kept (g a b)) \<Longrightarrow> rows_kept (case z of (a, b) \<Rightarrow> g a b)"
  "rows_kept m \<Longrightarrow> rows_kept (ignored m)"
  unfolding ignored_def by (auto split: option.split prod.split intro: row_keeping)

lemma rows_kept_onDB [row_keeping]: "task_rows.keeps m \<Longrightarrow> rows_kept (onDB m)"
  unfolding rows_kept_def by (rule frames_onDB) (rule task_rows.keepsD)

lemma rows_kept_fs [row_keeping]:
  "rows_kept (os_Remove p)" "rows_kept (os_Rename a b)" "rows_kept (copyFile a b)" "rows_kept (os_ReadDir names p)"
proof -
  have fs: "frames (\<lambda>_. False) (\<lambda>a b. db_tasks b = db_tasks a) (fs_op failed f)"
    if "\<And>h r h'. f h = (r, h') \<Longrightarrow> host_db h' = host_db h" "\<And>k h. host_db (failed k h) = host_db h"
    for failed and f :: "(Host, 'a) handler"
    using that by (intro frames_fs_op [OF same_rows(1)]) auto
  show rm: "rows_kept (os_Remove p)"
    unfolding rows_kept_def os_Remove_def by (rule fs) (auto simp: modify_def set_node_def)
  show "rows_kept (os_Rename a b)"
    unfolding rows_kept_def os_Rename_def by (rule fs) (auto split: option.splits if_splits)
  show "rows_kept (os_ReadDir names p)"
    unfolding rows_kept_def os_ReadDir_def by (rule fs) (auto split: if_splits)
  have "rows_kept (os_Create b)" "rows_kept (os_ReadFile a)" "rows_kept (file_Write b bs)" for bs
    by (unfold rows_kept_def, (rule frames_files, (rule same_rows | simp)+)+)
  moreover have "rows_kept (os_Chtimes b t)" for t
    unfolding rows_kept_def os_Chtimes_def by (rule fs) (auto simp: modify_def set_node_def split: option.splits fs_node.splits)
  ultimately show "rows_kept (copyFile a b)"
    unfolding copyFile_def by (intro row_keeping) (auto split: fs_node.split intro: row_keeping)
qed

lemma rows_kept_audit [row_keeping]: "rows_kept k \<Longrightarrow> rows_kept (hostAudited r ctx ev k)"
proof -
  assume k: "rows_kept k"
  have "task_rows.keeps (recordServiceAudit r ctx ev)"
    unfolding task_rows.keeps_def using recordServiceAudit_only audit_only_fields(16) by blast
  then show ?thesis unfolding hostAudited_def by (intro row_keeping k)
qed

lemma rows_kept_walk:
  assumes "\<And>p d. rows_kept (fn p d)"
  shows "rows_kept (walk names fn k p d)" and "rows_kept (walk_entries names fn k p es)"
  using assms
  by (induction names fn k p d and names fn k p es rule: walk_walk_entries.induct) (auto intro!: row_keeping)

lemma rows_kept_sources [row_keeping]:
  "rows_kept (onDB (src_FindByID i))" "rows_kept (onDB (task_FindByID i))" "rows_kept (onDB task_List)"
  "rows_kept (onDB (resolveExistingTaskResultNode s task source tp))"
  "rows_kept (onDB (commitTaskMetadataFileObject s task source tp n mime))"
  "rows_kept (onDB (recordTaskMetadataCommitFailure s task source op vp err))"
  by (intro row_keeping task_rows_commits task_rows.beside_repo)+

lemma rows_kept_downloaders [row_keeping]:
  "rows_kept (TellStatus s d e)" "rows_kept (Downloader_Pause s d e)" "rows_kept (Downloader_Resume s d e)"
  "rows_kept (Downloader_Remove s d e)" "rows_kept (cancelNativeDownloadTask s task del)"
proof -
  have "rows_kept (native_resolve s i)" for i unfolding native_resolve_def by (intro row_keeping)
  then show "rows_kept (TellStatus s d e)" "rows_kept (Downloader_Pause s d e)" "rows_kept (Downloader_Resume s d e)"
    "rows_kept (Downloader_Remove s d e)"
    by (cases d; simp; intro row_keeping)+
  show "rows_kept (cancelNativeDownloadTask s task del)"
    unfolding cancelNativeDownloadTask_def by (intro row_keeping)
qed

lemma rows_kept_imports [row_keeping]:
  "rows_kept (commitTaskImportedMetadataFile s task source tp info)"
  "rows_kept (recoverCompletedTaskResult s task source tp)"
  "rows_kept (completedLocalTaskTargetExists s task)"
  "rows_kept (importStagedFile s source tp lp)" "rows_kept (listStagedTaskFiles s dir)"
proof -
  show c: "rows_kept (commitTaskImportedMetadataFile s task source tp info)" for source tp info
    unfolding commitTaskImportedMetadataFile_def by (intro row_keeping)
  show "rows_kept (recoverCompletedTaskResult s task source tp)"
    unfolding recoverCompletedTaskResult_def by (intro row_keeping c)
  have "rows_kept (find_completed s task source base cs)" for source base cs
    by (induction cs) (auto simp: Let_def intro!: row_keeping c)
  then show "rows_kept (completedLocalTaskTargetExists s task)"
    unfolding completedLocalTaskTargetExists_def by (intro row_keeping)
  show "rows_kept (importStagedFile s source tp lp)"
    unfolding importStagedFile_def importLocalStagedFile_def by (intro row_keeping)
  show "rows_kept (listStagedTaskFiles s dir)"
    unfolding listStagedTaskFiles_def WalkDir_def by (intro row_keeping rows_kept_walk) (simp add: Let_def row_keeping)
qed

section \<open>The request of a task\<close>

definition request_of :: "DownloadTask \<Rightarrow>
   (nat \<times> nat \<times> string \<times> string \<times> nat \<times> string \<times> nat) \<times>
   (string \<times> string \<times> string \<times> nat \<times> string \<times> string \<times> string \<times> gotime)" where
  "request_of t =
     ((task_ID t, task_UserID t, task_Type t, normalizeDownloaderType (task_DownloaderType t), task_SourceID t,
       task_SavePath t, task_TargetVFSParentNodeID t),
      (task_TargetVirtualParentPath t, task_TargetFilename t, task_SaveVirtualPath t, task_ResolvedSourceID t,
       task_ResolvedInnerSavePath t, task_SourceURL t, task_ExternalID t, task_CreatedAt t))"

definition same_request :: "DownloadTask \<Rightarrow> DownloadTask \<Rightarrow> bool" where
  "same_request t t' \<longleftrightarrow> request_of t' = request_of t"

lemma same_request_refl [simp]: "same_request t t"
  by (simp add: same_request_def)

lemma same_request_trans [trans]: "same_request a b \<Longrightarrow> same_request b c \<Longrightarrow> same_request a c"
  by (simp add: same_request_def)

lemma same_request_ID: "same_request t t' \<Longrightarrow> task_ID t' = task_ID t"
  by (simp add: same_request_def request_of_def)

text \<open>Handlers on the host and the task: the rows are left alone, the task keeps its request.\<close>

definition calm :: "(task_state, 'a) handler \<Rightarrow> bool" where
  "calm m \<longleftrightarrow> (\<forall>h t r h' t'. m (h, t) = (r, (h', t')) \<longrightarrow>
     db_tasks (host_db h') = db_tasks (host_db h) \<and> same_request t t')"

named_theorems calming

lemma calmD:
  "calm m \<Longrightarrow> m (h, t) = (r, (h', t')) \<Longrightarrow> db_tasks (host_db h') = db_tasks (host_db h)"
  "calm m \<Longrightarrow> m (h, t) = (r, (h', t')) \<Longrightarrow> same_request t t'"
  by (simp_all add: calm_def)

lemma calm_basic [calming]: "calm (ret x)" "calm (throw e)" "calm (lift y)" "calm (gets g)"
  by (auto simp: calm_def handler_defs)

lemma calm_if_err [calming]:
  assumes "calm m" "\<And>e. calm (g e)" "\<And>x. calm (f x)"
  shows "calm (if_err m g f)"
  unfolding calm_def
proof (intro allI impI)
  fix h t r h' t'
  assume a: "if_err m g f (h, t) = (r, (h', t'))"
  obtain r1 h1 t1 where 1: "m (h, t) = (r1, (h1, t1))" by (metis prod.collapse)
  have "db_tasks (host_db h') = db_tasks (host_db h1) \<and> same_request t1 t'"
    using a 1 assms(2,3) by (cases r1) (auto simp: calm_def)
  then show "db_tasks (host_db h') = db_tasks (host_db h) \<and> same_request t t'"
    using calmD [OF assms(1) 1] same_request_trans by simp
qed

lemma calm_cases [calming]:
  "(b \<Longrightarrow> calm m) \<Longrightarrow> (\<not> b \<Longrightarrow> calm m') \<Longrightarrow> calm (if b then m else m')"
  "calm m \<Longrightarrow> (\<And>x. calm (f x)) \<Longrightarrow> calm (case y of None \<Rightarrow> m | Some x \<Rightarrow> f x)"
  by (auto split: option.split)

lemma calm_onHost [calming]: "rows_kept m \<Longrightarrow> calm (onHost m)"
  by (auto simp: calm_def onHost_def dest: rows_keptD split: prod.splits)

lemma calm_change [calming]: "(\<And>t. same_request t (f t)) \<Longrightarrow> calm (change_task f)"
  by (auto simp: calm_def change_task_def modify_def)

lemma same_request_changes:
  "same_request t (t\<lparr>task_ResultVFSNodeID := i\<rparr>)" "same_request t (t\<lparr>task_StagingDir := d\<rparr>)"
  "same_request t (found_before i t)" "same_request t (told s now status t)"
  "same_request t (t\<lparr>task_UpdatedAt := now\<rparr>)" "same_request t (canceled_task now t)"
  "same_request t (t\<lparr>task_Status := st, task_ErrorMessage := m, task_FinishedAt := fin\<rparr>)"
  "same_request t (t\<lparr>task_ErrorMessage := m, task_FinishedAt := fin\<rparr>)"
  "same_request t (t\<lparr>task_Status := st, task_UpdatedAt := now\<rparr>)"
  by (simp_all add: same_request_def request_of_def found_before_def told_def canceled_task_def Let_def)

lemma calm_import_one [calming]: "calm (import_one s source tp lp)"
proof -
  have noted: "calm (note_result i)" for i
    unfolding note_result_def by (intro calming) (simp add: same_request_changes)
  show ?thesis unfolding import_one_def Let_def by (intro calming row_keeping noted)
qed

lemma calm_import [calming]: "calm (importCompletedTask s)"
proof -
  have files: "calm (import_files s source base n files)" for source base n files
    by (induction files) (auto intro!: calming)
  have "calm (commitCompletedTaskWithoutStaging s)"
    unfolding commitCompletedTaskWithoutStaging_def Let_def by (intro calming row_keeping same_request_changes)
  then show ?thesis
    unfolding importCompletedTask_def Let_def by (intro calming row_keeping same_request_changes files)
qed

lemma calm_completed: "calm (completed_import s now)"
  unfolding completed_import_def by (intro calming same_request_changes)

section \<open>Tasks only move forward\<close>

abbreviation ended :: "DownloadTask \<Rightarrow> bool" where
  "ended t \<equiv> isTerminalTaskStatus (task_Status t)"

abbreviation rows :: "Host \<Rightarrow> DownloadTask list" where
  "rows h \<equiv> db_tasks (host_db h)"

definition forward :: "DownloadTask list \<Rightarrow> DownloadTask list \<Rightarrow> bool" where
  "forward xs ys \<longleftrightarrow> (distinct (map task_ID xs) \<longrightarrow>
     distinct (map task_ID ys) \<and> (\<forall>t \<in> set xs. \<exists>t' \<in> set ys. same_request t t' \<and> (ended t \<longrightarrow> t' = t)))"

lemma forward_refl [simp]: "forward xs xs"
  unfolding forward_def by (metis same_request_refl)

lemma forward_trans [trans]: "forward xs ys \<Longrightarrow> forward ys zs \<Longrightarrow> forward xs zs"
  unfolding forward_def by (metis same_request_trans)

text \<open>The row of a task that has not ended is replaced by one with the same request.\<close>

definition advance :: "DownloadTask \<Rightarrow> DownloadTask list \<Rightarrow> DownloadTask list \<Rightarrow> bool" where
  "advance t xs ys \<longleftrightarrow> ys = xs \<or> (\<not> ended t \<and> (\<exists>now t'. same_request t t' \<and>
     ys = map (\<lambda>x. if task_ID x = task_ID t' then task_merge now x t' else x) xs))"

lemma merge_same_request: "same_request t t' \<Longrightarrow> same_request t (task_merge now t t')"
  by (auto simp: same_request_def request_of_def task_merge_def normalizeDownloaderType_def)

lemma advance_others: "advance t xs ys \<Longrightarrow> x \<in> set xs \<Longrightarrow> task_ID x \<noteq> task_ID t \<Longrightarrow> x \<in> set ys"
  by (auto simp: advance_def same_request_ID image_iff intro!: bexI [of _ x])

lemma advance_forward:
  assumes "advance t xs ys" "t \<in> set xs"
  shows "forward xs ys"
  unfolding forward_def
proof (intro impI conjI ballI)
  assume d: "distinct (map task_ID xs)"
  have "map task_ID ys = map task_ID xs" using assms(1) by (auto simp: advance_def task_merge_def)
  then show "distinct (map task_ID ys)" using d by simp
  fix x assume x: "x \<in> set xs"
  show "\<exists>x' \<in> set ys. same_request x x' \<and> (ended x \<longrightarrow> x' = x)"
  proof (cases "ys = xs \<or> task_ID x \<noteq> task_ID t")
    case True
    then have "x \<in> set ys" using x advance_others [OF assms(1)] by blast
    then show ?thesis using same_request_refl by blast
  next
    case False
    then have "x = t" using key_unique [OF d assms(2) x] by simp
    obtain now t' where t': "\<not> ended t" "same_request t t'"
        "ys = map (\<lambda>x. if task_ID x = task_ID t' then task_merge now x t' else x) xs"
      using assms(1) False by (auto simp: advance_def)
    have "task_merge now t t' \<in> set ys"
      using t' assms(2) by (auto simp: same_request_ID image_iff intro!: bexI [of _ t])
    then show ?thesis using t' \<open>x = t\<close> merge_same_request by blast
  qed
qed

lemma task_Update_rows:
  assumes "task_Update e db = (r, db')"
  shows "db_tasks db' = db_tasks db \<or>
    db_tasks db' = map (\<lambda>x. if task_ID x = task_ID e then task_merge (db_now db) x e else x) (db_tasks db)"
proof -
  have q: "table_query db_tasks" by simp
  from assms [unfolded task_Update_def] q show ?thesis
    by (cases rule: update_row_cases) (auto dest: same_tables_fields)
qed

text \<open>Handlers that find a task in its row.\<close>

definition advances :: "DownloadTask \<Rightarrow> (Host, 'a) handler \<Rightarrow> bool" where
  "advances t m \<longleftrightarrow> (\<forall>h r h'. m h = (r, h') \<longrightarrow> advance t (rows h) (rows h'))"

named_theorems advancing

lemma advances_kept [advancing]: "rows_kept m \<Longrightarrow> advances t m"
  by (auto simp: advances_def advance_def dest: rows_keptD)

lemma advances_Update [advancing]: "\<not> ended t \<Longrightarrow> same_request t t' \<Longrightarrow> advances t (onDB (task_Update t'))"
  unfolding advances_def advance_def onDB_def
  by (auto split: prod.splits dest!: task_Update_rows)

lemma advances_before [advancing]:
  assumes "rows_kept m" "\<And>e. advances t (g e)" "\<And>x. advances t (f x)"
  shows "advances t (if_err m g f)"
  unfolding advances_def
proof (intro allI impI)
  fix h r h'
  assume a: "if_err m g f h = (r, h')"
  obtain r1 h1 where 1: "m h = (r1, h1)" by force
  have k: "rows h1 = rows h" by (rule rows_keptD [OF assms(1) 1])
  have "advance t (rows h1) (rows h')"
    using a 1 assms(2,3) by (cases r1) (fastforce simp: advances_def)+
  then show "advance t (rows h) (rows h')" unfolding k .
qed

lemma advances_after [advancing]:
  assumes "advances t m" "\<And>e. rows_kept (g e)" "\<And>x. rows_kept (f x)"
  shows "advances t (if_err m g f)"
  unfolding advances_def
proof (intro allI impI)
  fix h r h'
  assume a: "if_err m g f h = (r, h')"
  obtain r1 h1 where 1: "m h = (r1, h1)" by force
  have "rows h' = rows h1"
    using a 1 rows_keptD [OF assms(2)] rows_keptD [OF assms(3)] by (cases r1) auto
  then show "advance t (rows h) (rows h')" using 1 assms(1) by (simp add: advances_def)
qed

lemma advances_if [advancing]:
  "(b \<Longrightarrow> advances t m) \<Longrightarrow> (\<not> b \<Longrightarrow> advances t m') \<Longrightarrow> advances t (if b then m else m')"
  by simp

text \<open>What is told of an ended task does not touch the rows.\<close>

definition observer_reads :: "TaskService \<Rightarrow> bool" where
  "observer_reads s \<longleftrightarrow> (\<forall>observer task db r db'. tks_observer s = Some observer \<longrightarrow>
     observer task db = (r, db') \<longrightarrow> db_tasks db' = db_tasks db)"

lemma rows_kept_notify:
  assumes "observer_reads s"
  shows "rows_kept (onDB (notifyTaskTerminalStatus s t))"
proof (cases "tks_observer s")
  case (Some observer)
  then have "task_rows.keeps (observer t)"
    using assms unfolding observer_reads_def task_rows.keeps_def by blast
  then show ?thesis
    unfolding notifyTaskTerminalStatus_def Some ignored_def by (auto intro!: row_keeping task_rows.keeps_rules)
qed (simp add: notifyTaskTerminalStatus_def row_keeping)

lemma try_assoc: "tryM (tryM m f) g = tryM m (\<lambda>x. tryM (f x) g)"
  by (auto simp: fun_eq_iff if_err_def throw_def split: prod.splits sum.splits)

lemma try_onHost: "tryM (onHost m) (\<lambda>x. onHost (f x)) = onHost (tryM m f)"
  by (auto simp: fun_eq_iff if_err_def throw_def onHost_def split: prod.splits sum.splits)

text \<open>A refresh: everything up to the new task, and the two steps that follow.\<close>

definition before_update :: "TaskService \<Rightarrow> DownloadTask \<Rightarrow> (task_state, unit) handler" where
  "before_update s task =
     tryM (lift (downloaderForTask s task)) (\<lambda>downloader.
     tryM (onHost (TellStatus s downloader (task_ExternalID task))) (\<lambda>status.
     tryM (onHost time_Now) (\<lambda>now.
     tryM (change_task (told s now status)) (\<lambda>_.
     tryM (if ds_Status status = ''completed'' then completed_import s now else ret ()) (\<lambda>_.
       change_task (\<lambda>t. t\<lparr>task_UpdatedAt := now\<rparr>))))))"

definition after_update :: "TaskService \<Rightarrow> DownloadTask \<Rightarrow> (Host, unit) handler" where
  "after_update s updated = tryM (onDB (task_Update updated)) (\<lambda>_. onDB (notifyTaskTerminalStatus s updated))"

lemma refresh_split:
  "refreshTask s (h, t) =
     (if task_ExternalID t = [] \<or> ended t then (Inr (), (h, t))
      else tryM (before_update s t) (\<lambda>_. tryM (gets snd) (\<lambda>updated. onHost (after_update s updated))) (h, t))"
proof -
  have g: "tryM (gets snd) f (h, t) = f t (h, t)" for f :: "DownloadTask \<Rightarrow> (task_state, unit) handler"
    by (simp add: if_err_def gets_def)
  show ?thesis
    unfolding refreshTask_def g
    by (auto simp: before_update_def after_update_def try_assoc try_onHost ret_def)
qed

lemma calm_before: "calm (before_update s t)"
  unfolding before_update_def by (intro calming row_keeping same_request_changes calm_completed)

lemma refresh_advances:
  assumes ob: "observer_reads s" and run: "refreshTask s (h, t) = (r, (h', t'))"
  shows "advance t (rows h) (rows h')"
proof (cases "task_ExternalID t = [] \<or> ended t")
  case True
  then show ?thesis using run by (simp add: refresh_split advance_def)
next
  case False
  obtain r1 h1 t1 where 1: "before_update s t (h, t) = (r1, (h1, t1))" by (metis prod.collapse)
  note c = calmD [OF calm_before 1]
  have r: "tryM (before_update s t) (\<lambda>_. tryM (gets snd) (\<lambda>updated. onHost (after_update s updated))) (h, t) = (r, (h', t'))"
    using run False by (simp add: refresh_split)
  show ?thesis
  proof (cases r1)
    case (Inl e)
    then show ?thesis using r 1 c(1) by (auto simp: throw_def advance_def)
  next
    case (Inr u)
    obtain r2 where 2: "after_update s t1 h1 = (r2, h')"
      using r 1 Inr by (auto simp: if_err_def gets_def onHost_def split: prod.splits)
    have "advances t (after_update s t1)"
      unfolding after_update_def using False c(2)
      by (intro advances_after advances_Update rows_kept_notify [OF ob] row_keeping) auto
    then show ?thesis using 2 unfolding advances_def c(1) [symmetric] by blast
  qed
qed

text \<open>The handlers of the service, and time passing between them.\<close>

inductive task_step :: "TaskService \<Rightarrow> Host \<Rightarrow> Host \<Rightarrow> bool" for s where
  create: "Create_task s ctx uuid req h = (r, h') \<Longrightarrow> task_step s h h'"
| list: "List_tasks s ctx h = (r', h') \<Longrightarrow> task_step s h h'"
| get: "Get_task s ctx i h = (r, h') \<Longrightarrow> task_step s h h'"
| sync: "SyncAll s h = (u, h') \<Longrightarrow> task_step s h h'"
| cancel: "Cancel_task s ctx i deleteFile h = (rc, h') \<Longrightarrow> task_step s h h'"
| pause: "Pause_task s ctx i h = (ra, h') \<Longrightarrow> task_step s h h'"
| resume: "Resume_task s ctx i h = (ra, h') \<Longrightarrow> task_step s h h'"
| tick: "task_step s h (h\<lparr>host_db := (host_db h)\<lparr>db_now := now\<rparr>\<rparr>)"

definition forwards :: "(Host, 'a) handler \<Rightarrow> bool" where
  "forwards m \<longleftrightarrow> (\<forall>h r h'. m h = (r, h') \<longrightarrow> forward (rows h) (rows h'))"

lemma forwardsD: "forwards m \<Longrightarrow> m h = (r, h') \<Longrightarrow> forward (rows h) (rows h')"
  by (simp add: forwards_def)

lemma forwards_kept: "rows_kept m \<Longrightarrow> forwards m"
  by (auto simp: forwards_def dest: rows_keptD)

lemma forwards_if_err:
  assumes "forwards m" "\<And>e. forwards (g e)" "\<And>x. forwards (f x)"
  shows "forwards (if_err m g f)"
  unfolding forwards_def
proof (intro allI impI)
  fix h r h'
  assume a: "if_err m g f h = (r, h')"
  obtain r1 h1 where 1: "m h = (r1, h1)" by force
  have "forward (rows h1) (rows h')"
    using a 1 assms(2,3) by (cases r1) (fastforce simp: forwards_def)+
  then show "forward (rows h) (rows h')" using assms(1) 1 forward_trans unfolding forwards_def by blast
qed

text \<open>A new row leaves the others as they are.\<close>

lemma forwards_Create: "forwards (onDB (task_Create x))"
  unfolding forwards_def
proof (intro allI impI)
  fix h r h'
  assume "onDB (task_Create x) h = (r, h')"
  then obtain db' where c: "insert_row ''download_tasks'' db_tasks db_tasks_update task_ID task_setID (\<lambda>_ _. False)
      (task_stored (db_now (host_db h)) x) (host_db h) = (r, db')" and h': "rows h' = db_tasks db'"
    by (auto simp: onDB_def task_Create_def split: prod.splits)
  have q: "table_query db_tasks" by simp
  from c q show "forward (rows h) (rows h')"
  proof (cases rule: insert_row_cases)
    case (inserted i db0)
    then have "rows h' = rows h @ [task_setID i (task_stored (db_now (host_db h)) x)]"
      using h' same_tables_fields(19) by simp
    then show ?thesis using inserted(4) unfolding forward_def by (auto simp: task_setID_def intro!: bexI [of _ t for t])
  qed (use h' same_tables_fields(19) in auto)
qed

text \<open>Handlers from which every path leads forward.\<close>

lemma forwards_cases:
  "(b \<Longrightarrow> forwards m) \<Longrightarrow> (\<not> b \<Longrightarrow> forwards m') \<Longrightarrow> forwards (if b then m else m')"
  "forwards m \<Longrightarrow> (\<And>x. forwards (f x)) \<Longrightarrow> forwards (case y of None \<Rightarrow> m | Some x \<Rightarrow> f x)"
  "(\<And>a b. forwards (g a b)) \<Longrightarrow> forwards (case z of (a, b) \<Rightarrow> g a b)"
  by (auto split: option.split prod.split)

lemmas forwards_leaves = row_keeping(1-9) [THEN forwards_kept]

lemma forwards_creating:
  "forwards (create_failed s ctx code i vp err)" "forwards (created_view s ctx target t)"
  unfolding create_failed_def created_view_def by (rule forwards_kept, intro row_keeping)+

lemma forwards_task_create: "forwards (Create_task s ctx uuid req)"
proof -
  have ign: "forwards (ignored (driver_call c))" "forwards (ignored (os_RemoveAll p))" for c :: "nat \<Rightarrow> unit result" and p
    by (rule forwards_kept, intro row_keeping)+
  note rules = forwards_if_err forwards_cases forwards_creating forwards_Create ign
  have native: "forwards (tryCreateNativeDownloadTask s ctx req target)" for req target
    unfolding tryCreateNativeDownloadTask_def Let_def by (intro rules forwards_leaves)
  have staged: "forwards (createStagedTask s ctx uuid req target)" for req target
    unfolding createStagedTask_def Let_def by (intro rules forwards_leaves)
  have target: "forwards (onDB (resolveCreateTarget s req))" for req
  proof (rule forwards_kept, rule rows_kept_onDB)
    have n: "task_rows.keeps (resolveMetadataVFSNodeID rd p)" for rd p
      unfolding resolveMetadataVFSNodeID_def
      by (cases "normalizeVirtualPath p") (auto intro!: task_rows.keeps_rules task_rows.beside_repo split: option.split)
    show "task_rows.keeps (resolveCreateTarget s req)"
      unfolding resolveCreateTarget_def Let_def by (intro task_rows.keeps_rules task_rows.beside_repo n)
  qed
  have auth: "forwards (authorizeTaskPath s ctx i p a)" for i p a
    by (auto simp: forwards_def authorizeTaskPath_def split: option.splits)
  have denied: "forwards (hostAudited r ctx ev (throw e))" for r ev and e
    by (rule forwards_kept, intro row_keeping)
  show ?thesis
    unfolding Create_task_def Let_def by (intro rules native staged target auth denied forwards_leaves)
qed

text \<open>The tasks of a listing are rows; after each refresh the ones that are left still are.\<close>

definition listed :: "DownloadTask list \<Rightarrow> Host \<Rightarrow> bool" where
  "listed items h \<longleftrightarrow> distinct (map task_ID items) \<and> distinct (map task_ID (rows h)) \<and> set items \<subseteq> set (rows h)"

lemma listed_tail: "listed (item # items) h \<Longrightarrow> listed items h"
  by (auto simp: listed_def)

lemma refresh_listed:
  assumes "observer_reads s" "listed (item # items) h" "refreshTask s (h, item) = (r, (h', t'))"
  shows "forward (rows h) (rows h')" "listed items h'"
proof -
  have a: "advance item (rows h) (rows h')" by (rule refresh_advances [OF assms(1,3)])
  show f: "forward (rows h) (rows h')" by (rule advance_forward [OF a]) (use assms(2) in \<open>simp add: listed_def\<close>)
  have "x \<in> set (rows h')" if "x \<in> set items" for x
    by (rule advance_others [OF a]) (use that assms(2) in \<open>auto simp: listed_def image_iff\<close>)
  then show "listed items h'" using f assms(2) by (auto simp: listed_def forward_def)
qed

lemma sync_forward:
  assumes "observer_reads s"
  shows "listed items h \<Longrightarrow> sync_tasks s items err h = (r, h') \<Longrightarrow> forward (rows h) (rows h')"
proof (induction items arbitrary: err h)
  case (Cons item items)
  show ?case
  proof (cases "ended item")
    case True
    then show ?thesis using Cons.IH [OF listed_tail [OF Cons.prems(1)]] Cons.prems(2) by simp
  next
    case False
    obtain r1 h1 t1 where 1: "refreshTask s (h, item) = (r1, (h1, t1))" by (metis prod.collapse)
    then obtain err' where "sync_tasks s items err' h1 = (r, h')"
      using False Cons.prems(2) by (cases r1) auto
    then show ?thesis
      using Cons.IH refresh_listed [OF assms Cons.prems(1) 1] forward_trans by blast
  qed
qed (auto simp: handler_defs split: option.splits)

lemma list_forward:
  assumes "observer_reads s"
  shows "listed items h \<Longrightarrow> list_tasks s ctx items h = (r, h') \<Longrightarrow> forward (rows h) (rows h')"
proof (induction items arbitrary: h r)
  case (Cons item items)
  show ?case
  proof (cases "canReadTask_in ctx item")
    case False
    then show ?thesis using Cons.IH [OF listed_tail [OF Cons.prems(1)]] Cons.prems(2) by simp
  next
    case True
    obtain r1 h1 t1 where 1: "refreshTask s (h, item) = (r1, (h1, t1))" by (metis prod.collapse)
    obtain r2 h2 where 2: "list_tasks s ctx items h1 = (r2, h2)" by force
    have "h2 = h'"
      using True Cons.prems(2) 1 2 by (cases r2) (auto simp: refreshed_task_def if_err_def ret_def throw_def)
    then show ?thesis
      using Cons.IH 2 refresh_listed [OF assms Cons.prems(1) 1] forward_trans by blast
  qed
qed (auto simp: handler_defs)

lemma task_List_listed:
  assumes "onDB task_List h = (Inr items, h1)" "distinct (map task_ID (rows h))"
  shows "listed items h1" "rows h1 = rows h"
proof -
  show r: "rows h1 = rows h" by (rule rows_keptD [OF rows_kept_sources(3) assms(1)])
  obtain db where "select_rows (\<lambda>db. sort_key (\<lambda>x. - task_UpdatedAt x) (db_tasks db)) (host_db h) = (Inr items, db)"
    using assms(1) by (auto simp: onDB_def task_List_def split: prod.splits)
  moreover have "table_query (\<lambda>db. sort_key (\<lambda>x. - task_UpdatedAt x) (db_tasks db))"
    by (auto simp: table_query_def same_tables_fields)
  ultimately have items: "items = sort_key (\<lambda>x. - task_UpdatedAt x) (rows h)"
    using select_rows_cases by blast
  have "distinct (map task_ID (sort_key k xs)) = distinct (map task_ID xs)" for xs and k :: "DownloadTask \<Rightarrow> gotime"
    by (simp add: distinct_map)
  then show "listed items h1" using r assms(2) by (simp add: listed_def items)
qed

lemma forwards_lists:
  assumes "observer_reads s"
  shows "forwards (List_tasks s ctx)" "forwards (SyncAll s)"
proof -
  have *: "forwards (tryM (onDB task_List) k)"
    if "\<And>items h r h'. listed items h \<Longrightarrow> k items h = (r, h') \<Longrightarrow> forward (rows h) (rows h')" for k :: "DownloadTask list \<Rightarrow> (Host, 'x) handler"
    unfolding forwards_def
  proof (intro allI impI)
    fix h r h'
    assume a: "tryM (onDB task_List) k h = (r, h')"
    obtain r1 h1 where 1: "onDB task_List h = (r1, h1)" by force
    have k: "rows h1 = rows h" by (rule rows_keptD [OF rows_kept_sources(3) 1])
    show "forward (rows h) (rows h')"
    proof (cases r1)
      case (Inl e)
      then show ?thesis using a 1 k by (simp add: throw_def)
    next
      case (Inr items)
      then have "k items h1 = (r, h')" using a 1 by simp
      then show ?thesis
        using that [OF task_List_listed(1)] 1 Inr k by (cases "distinct (map task_ID (rows h))") (auto simp: forward_def)
    qed
  qed
  show "forwards (List_tasks s ctx)" unfolding List_tasks_def by (rule *) (rule list_forward [OF assms])
  show "forwards (SyncAll s)" unfolding SyncAll_def by (rule *) (rule sync_forward [OF assms])
qed

text \<open>A handler that starts by reading its task.\<close>

lemma found_task:
  assumes "onDB (task_FindByID i) h = (Inr t, h1)"
  shows "t \<in> set (rows h)" "task_ID t = i" "rows h1 = rows h"
proof -
  show "rows h1 = rows h" by (rule rows_keptD [OF rows_kept_sources(2) assms])
  obtain db where f: "find_row db_tasks (\<lambda>x. task_ID x = i) (host_db h) = (Inr t, db)"
    using assms by (auto simp: onDB_def task_FindByID_def split: prod.splits)
  have q: "table_query db_tasks" by simp
  have "find (\<lambda>x. task_ID x = i) (rows h) = Some t"
    using f q by (cases rule: find_row_cases) auto
  then show "t \<in> set (rows h)" "task_ID t = i" by (auto simp: find_Some_iff)
qed

lemma forwards_found:
  assumes "\<And>e. rows_kept (g e)" "\<And>t. advances t (f t)"
  shows "forwards (if_err (onDB (task_FindByID i)) g f)"
  unfolding forwards_def
proof (intro allI impI)
  fix h r h'
  assume a: "if_err (onDB (task_FindByID i)) g f h = (r, h')"
  obtain r1 h1 where 1: "onDB (task_FindByID i) h = (r1, h1)" by force
  show "forward (rows h) (rows h')"
  proof (cases r1)
    case (Inl e)
    then show ?thesis using a 1 rows_keptD [OF rows_kept_sources(2) 1] rows_keptD [OF assms(1)] by auto
  next
    case (Inr t)
    note t = found_task [OF 1 [unfolded Inr]]
    have "advance t (rows h1) (rows h')" using a 1 Inr assms(2) unfolding advances_def by simp
    then show ?thesis using t advance_forward by simp
  qed
qed

lemma forwards_controlled:
  assumes "\<And>t. advances t (k t)"
  shows "forwards (controlled_task s ctx action i k)"
  unfolding controlled_task_def Let_def
proof (rule forwards_found)
  fix t
  show "advances t (if_err (lift (authorizeTaskOwnership ctx t True))
      (\<lambda>err. hostAudited (tks_auditRecorder s) ctx
         (task_event action i ResultDenied ''PERMISSION_DENIED'' (taskAuditView t)) (throw err)) (\<lambda>_. k t))"
    by (rule advances_before) (intro row_keeping advances_kept, intro advances_kept row_keeping, rule assms)
qed (intro row_keeping)

text \<open>Storing a changed task: what follows does not touch the rows.\<close>

lemma advances_store:
  assumes "\<not> ended t" "same_request t t'" "\<And>e. rows_kept (g e)" "\<And>x. rows_kept (f x)"
  shows "advances t (if_err (onDB (task_Update t')) g f)"
  by (rule advances_after) (rule advances_Update assms)+

lemma forwards_action:
  assumes "\<And>d e. rows_kept (call d e)" "\<forall>st \<in> set accepted. \<not> isTerminalTaskStatus st"
  shows "forwards (task_action s ctx action accepted call st i)"
  unfolding task_action_def Let_def
  by (rule forwards_controlled, rule advances_before, intro row_keeping, intro advances_kept row_keeping,
      rule advances_if, intro advances_kept row_keeping, rule advances_before, rule assms(1),
      intro advances_kept row_keeping, rule advances_before, intro row_keeping, intro advances_kept row_keeping,
      rule advances_store) (use assms(2) in \<open>simp_all add: same_request_changes row_keeping\<close>)

lemma forwards_controls:
  assumes "observer_reads s"
  shows "forwards (Cancel_task s ctx i del)" "forwards (Pause_task s ctx i)" "forwards (Resume_task s ctx i)"
    "forwards (Get_task s ctx i)"
proof -
  show "forwards (Pause_task s ctx i)" "forwards (Resume_task s ctx i)"
    unfolding Pause_task_def Resume_task_def
    by (rule forwards_action; simp add: isTerminalTaskStatus_def row_keeping)+
  show "forwards (Cancel_task s ctx i del)"
    unfolding Cancel_task_def Let_def
    by (rule forwards_controlled, rule advances_if, intro advances_kept row_keeping, rule advances_before, intro row_keeping,
        intro advances_kept row_keeping, rule advances_store)
      (assumption | intro row_keeping same_request_changes rows_kept_notify assms)+
  show "forwards (Get_task s ctx i)"
    unfolding Get_task_def
  proof (rule forwards_found)
    fix t
    have "advances t (refreshed_task s t)"
      using refresh_advances [OF assms] unfolding advances_def refreshed_task_def by (auto split: prod.splits)
    note a = this
    show "advances t (tryM (lift (authorizeTaskOwnership ctx t False))
        (\<lambda>_. tryM (refreshed_task s t) (\<lambda>task'. ret (toTaskView s task'))))"
      by (rule advances_before [OF row_keeping(3)], intro advances_kept row_keeping, rule advances_after, rule a)
        (intro row_keeping)+
  qed (rule row_keeping)
qed

lemma task_step_forward:
  assumes "observer_reads s" "task_step s h h'"
  shows "forward (rows h) (rows h')"
  using assms(2)
  by cases (auto dest: forwardsD [OF forwards_task_create] forwardsD [OF forwards_lists(1) [OF assms(1)]]
      forwardsD [OF forwards_lists(2) [OF assms(1)]] forwardsD [OF forwards_controls(1) [OF assms(1)]]
      forwardsD [OF forwards_controls(2) [OF assms(1)]] forwardsD [OF forwards_controls(3) [OF assms(1)]]
      forwardsD [OF forwards_controls(4) [OF assms(1)]])

text \<open>C16: Whatever requests and synchronisations run, in any order and with any failing
  statement, downloader or file operation, a task in the database keeps its request (owner,
  link, target, identity at the downloader), and a task that has completed, failed or been
  canceled is never changed again. The observer of ended tasks is only assumed not to write
  tasks itself.\<close>

theorem tasks_only_move_forward:
  assumes "(task_step s)\<^sup>*\<^sup>* h h'" and "observer_reads s"
    and "distinct (map task_ID (db_tasks (host_db h)))" and "t \<in> set (db_tasks (host_db h))"
  shows "\<exists>t' \<in> set (db_tasks (host_db h')). same_request t t' \<and>
    (isTerminalTaskStatus (task_Status t) \<longrightarrow> t' = t)"
proof -
  have "forward (rows h) (rows h')"
    using assms(1)
  proof (induction rule: rtranclp_induct)
    case (step h1 h2)
    then show ?case using task_step_forward [OF assms(2)] forward_trans by blast
  qed simp
  then show ?thesis using assms(3,4) unfolding forward_def by blast
qed

section \<open>Control is the owner's\<close>

definition may_control :: "Context \<Rightarrow> DownloadTask \<Rightarrow> bool" where
  "may_control ctx t \<longleftrightarrow>
     (\<exists>auth. ctx_auth ctx = Some auth \<and>
        (auth_UserID auth = task_UserID t \<or> CapabilityTaskManageAll \<in> set (auth_Capabilities auth)))"

text \<open>An error, and nothing but an entry in the audit log.\<close>

definition refused :: "nat \<Rightarrow> Host \<Rightarrow> 'a result \<times> Host \<Rightarrow> bool" where
  "refused i h res \<longleftrightarrow> (case res of (r, h') \<Rightarrow>
     (\<exists>err. r = Inl err \<and>
        (db_faults (host_db h) = [] \<and> (\<exists>t \<in> set (db_tasks (host_db h)). task_ID t = i) \<longrightarrow> err = ErrPermissionDenied)) \<and>
     host_fs h' = host_fs h \<and> host_calls h' = host_calls h \<and> audit_only (host_db h) (host_db h'))"

lemma ownership_iff: "authorizeTaskOwnership ctx t True = (if may_control ctx t then Inr () else Inl ErrPermissionDenied)"
  by (auto simp: authorizeTaskOwnership_def may_control_def CanManageTask_def HasCapability_iff split: option.split)

lemma onDB_calls: "onDB m h = (r, h') \<Longrightarrow> host_calls h' = host_calls h"
  by (auto simp: onDB_def split: prod.splits)

lemma audited_refusal:
  obtains h' where "hostAudited r ctx ev (throw err) h = (Inl err, h')" "host_fs h' = host_fs h"
    "host_calls h' = host_calls h" "audit_only (host_db h) (host_db h')"
proof -
  obtain x h1 where 1: "onDB (recordServiceAudit r ctx ev) h = (x, h1)" by force
  note d = onDB_run [OF 1]
  have "x = Inr () \<and> audit_only (host_db h) (host_db h1)" using recordServiceAudit_only [OF d(1)] .
  then show thesis using that [of h1] 1 d(2) onDB_calls [OF 1] by (simp add: hostAudited_def throw_def)
qed

lemma controlled_refused:
  assumes "\<forall>t \<in> set (db_tasks (host_db h)). task_ID t = i \<longrightarrow> \<not> may_control ctx t"
  shows "refused i h (controlled_task s ctx action i k h)"
proof -
  let ?c = "controlled_task s ctx action i k h"
  obtain r1 h1 where 1: "onDB (task_FindByID i) h = (r1, h1)" by force
  obtain db1 where f: "find_row db_tasks (\<lambda>x. task_ID x = i) (host_db h) = (r1, db1)" and h1: "h1 = h\<lparr>host_db := db1\<rparr>"
    using 1 by (auto simp: onDB_def task_FindByID_def split: prod.splits)
  have q: "table_query db_tasks" by simp
  have tab: "same_tables (host_db h) db1" using f q by (cases rule: find_row_cases) auto
  have nf: "r1 = (case find (\<lambda>x. task_ID x = i) (rows h) of None \<Rightarrow> Inl ErrNotFound | Some x \<Rightarrow> Inr x)"
    if "db_faults (host_db h) = []"
    using f that by (auto simp: find_row_def stmt_def split: option.splits)
  obtain ev err h' where c: "?c = (Inl err, h')" "host_fs h' = host_fs h1" "host_calls h' = host_calls h1"
      "audit_only (host_db h1) (host_db h')"
    and err: "err = (case r1 of Inl e \<Rightarrow> e | Inr _ \<Rightarrow> ErrPermissionDenied)"
  proof (cases r1)
    case (Inl e)
    then have "?c = hostAudited (tks_auditRecorder s) ctx (task_event action i ResultFailed ''TASK_NOT_FOUND'' []) (throw e) h1"
      using 1 by (simp add: controlled_task_def Let_def)
    then show thesis using that Inl audited_refusal by (metis sum.simps(5))
  next
    case (Inr t)
    then have "\<not> may_control ctx t" using assms found_task(1,2) [OF 1 [unfolded Inr]] by blast
    then have "?c = hostAudited (tks_auditRecorder s) ctx
        (task_event action i ResultDenied ''PERMISSION_DENIED'' (taskAuditView t)) (throw ErrPermissionDenied) h1"
      using 1 Inr by (simp add: controlled_task_def Let_def ownership_iff lift_def)
    then show thesis using that Inr audited_refusal by (metis sum.simps(6))
  qed
  have "audit_only (host_db h) (host_db h')"
    using audit_only_trans [OF same_tables_audit_only [OF tab]] c(4) h1 by simp
  moreover have "err = ErrPermissionDenied" if "db_faults (host_db h) = []" "\<exists>t \<in> set (rows h). task_ID t = i"
    using err nf [OF that(1)] that(2) by (auto simp: find_None_iff split: option.splits)
  ultimately show ?thesis using c h1 by (auto simp: refused_def)
qed

text \<open>C18: Canceling, pausing and resuming are refused to everybody but the owner of the task
  and holders of the capability to manage all tasks: the answer is the permission error (unless
  the database fails), the task, the files and the downloader are not touched, and the refusal
  is all that is recorded.\<close>

theorem task_control_needs_owner:
  assumes "\<forall>t \<in> set (db_tasks (host_db h)). task_ID t = i \<longrightarrow> \<not> may_control ctx t"
  shows "refused i h (Cancel_task s ctx i deleteFile h) \<and> refused i h (Pause_task s ctx i h) \<and>
    refused i h (Resume_task s ctx i h)"
  unfolding Cancel_task_def Pause_task_def Resume_task_def task_action_def
  by (intro conjI controlled_refused assms)

section \<open>A completed download lies at its target\<close>

text \<open>The file at a path, if there is one; \<open>leaves Q m\<close>: \<open>m\<close> keeps the files at the paths with \<open>Q\<close>.\<close>

definition file_at :: "files \<Rightarrow> string \<Rightarrow> (string \<times> gotime) option" where
  "file_at fs q = (case fs q of Some (Regular bs t) \<Rightarrow> Some (bs, t) | _ \<Rightarrow> None)"

lemma file_at_Some: "file_at fs q = Some (bs, t) \<longleftrightarrow> fs q = Some (Regular bs t)"
  by (auto simp: file_at_def split: option.splits fs_node.splits)

definition leaves :: "(string \<Rightarrow> bool) \<Rightarrow> (Host, 'a) handler \<Rightarrow> bool" where
  "leaves Q m \<longleftrightarrow> (\<forall>h r h'. m h = (r, h') \<longrightarrow> (\<forall>q. Q q \<longrightarrow> file_at (host_fs h') q = file_at (host_fs h) q))"

named_theorems leaving

lemma leavesD: "leaves Q m \<Longrightarrow> m h = (r, h') \<Longrightarrow> Q q \<Longrightarrow> file_at (host_fs h') q = file_at (host_fs h) q"
  by (simp add: leaves_def)

lemma leaves_if_err [leaving]:
  assumes "leaves Q m" "\<And>e. leaves Q (g e)" "\<And>x. leaves Q (f x)"
  shows "leaves Q (if_err m g f)"
  unfolding leaves_def
proof (intro allI impI)
  fix h r h' q
  assume a: "if_err m g f h = (r, h')" and q: "Q q"
  obtain r1 h1 where 1: "m h = (r1, h1)" by force
  have "file_at (host_fs h') q = file_at (host_fs h1) q"
    using a 1 q leavesD [OF assms(2)] leavesD [OF assms(3)] by (cases r1) auto
  then show "file_at (host_fs h') q = file_at (host_fs h) q" using leavesD [OF assms(1) 1 q] by simp
qed

lemma leaves_cases [leaving]:
  "(b \<Longrightarrow> leaves Q m) \<Longrightarrow> (\<not> b \<Longrightarrow> leaves Q m') \<Longrightarrow> leaves Q (if b then m else m')"
  "leaves Q m \<Longrightarrow> (\<And>x. leaves Q (f x)) \<Longrightarrow> leaves Q (case y of None \<Rightarrow> m | Some x \<Rightarrow> f x)"
  "(\<And>a b. leaves Q (g a b)) \<Longrightarrow> leaves Q (case z of (a, b) \<Rightarrow> g a b)"
  "leaves Q m \<Longrightarrow> leaves Q (ignored m)"
proof -
  show "leaves Q m \<Longrightarrow> leaves Q (ignored m)"
    unfolding ignored_def by (rule leaves_if_err) (simp_all add: leaves_def ret_def)
qed (auto split: option.split prod.split)

lemma leaves_fs_op:
  assumes "\<And>h r h' q. f h = (r, h') \<Longrightarrow> Q q \<Longrightarrow> file_at (host_fs h') q = file_at (host_fs h) q"
    and "\<And>k h q. Q q \<Longrightarrow> file_at (host_fs (lost k h)) q = file_at (host_fs h) q"
  shows "leaves Q (fs_op lost f)"
  unfolding leaves_def
proof (intro allI impI)
  fix h r h' q
  assume "fs_op lost f h = (r, h')" "Q q"
  then show "file_at (host_fs h') q = file_at (host_fs h) q"
    by (cases rule: fs_op_cases) (use assms quietD(1) in \<open>metis+\<close>)
qed

lemma leaves_quiet: "(\<And>h r h'. m h = (r, h') \<Longrightarrow> host_fs h' = host_fs h) \<Longrightarrow> leaves Q m"
  unfolding leaves_def by metis

lemma leaves_basic [leaving]:
  "leaves Q (ret x)" "leaves Q (throw e)" "leaves Q (lift y)" "leaves Q time_Now" "leaves Q (onDB m)"
  "leaves Q (driver_call c)" "leaves Q (os_Stat p)" "leaves Q (os_ReadFile p)" "leaves Q (os_MkdirAll p)"
proof -
  show "leaves Q (os_Stat p)" "leaves Q (os_ReadFile p)"
    using quietD(1) [OF os_Stat_reads(1)] quietD(1) [OF os_ReadFile_reads(1)] by (intro leaves_quiet; blast)+
  show "leaves Q (os_MkdirAll p)"
    unfolding leaves_def
  proof (intro allI impI)
    fix h r h' q
    assume "os_MkdirAll p h = (r, h')"
    from os_MkdirAll_files(1) [OF this, of q] show "file_at (host_fs h') q = file_at (host_fs h) q"
      by (cases "file_at (host_fs h) q"; cases "file_at (host_fs h') q") (auto simp flip: file_at_Some)
  qed
qed (rule leaves_quiet; auto simp: handler_defs time_Now_def onDB_def driver_call_def split: prod.splits)+

lemma leaves_files [leaving]:
  "(\<And>q. Q q \<Longrightarrow> \<not> below b q) \<Longrightarrow> (\<And>q. Q q \<Longrightarrow> \<not> below a q) \<Longrightarrow> leaves Q (os_Rename a b)"
  "(\<And>q. Q q \<Longrightarrow> \<not> below b q) \<Longrightarrow> leaves Q (copyFile a b)"
  "(\<And>q. Q q \<Longrightarrow> \<not> below b q) \<Longrightarrow> leaves Q (os_Remove b)"
proof -
  show "leaves Q (os_Rename a b)" if "\<And>q. Q q \<Longrightarrow> \<not> below b q" "\<And>q. Q q \<Longrightarrow> \<not> below a q"
    unfolding os_Rename_def
    by (rule leaves_fs_op) (use that in \<open>auto simp: moved_tree_def file_at_def split: option.splits if_splits\<close>)
  assume b: "\<And>q. Q q \<Longrightarrow> \<not> below b q"
  then have nb: "q \<noteq> b" if "Q q" for q using that by (auto simp: below_def)
  show "leaves Q (os_Remove b)"
    unfolding os_Remove_def by (rule leaves_fs_op) (auto simp: modify_def set_node_def file_at_def nb)
  have c: "leaves Q (os_Create b)"
    unfolding os_Create_def by (rule leaves_fs_op) (auto simp: set_node_def file_at_def nb split: if_splits)
  have ap: "Q q \<Longrightarrow> file_at (host_fs (append_bytes b d h)) q = file_at (host_fs h) q" for d h q
    by (auto simp: append_bytes_def set_node_def file_at_def nb split: option.split fs_node.split)
  have w: "leaves Q (file_Write b d)" for d
    unfolding file_Write_def by (rule leaves_fs_op) (auto simp: modify_def ap)
  have t: "leaves Q (os_Chtimes b t)" for t
    unfolding os_Chtimes_def
    by (rule leaves_fs_op) (auto simp: modify_def set_node_def file_at_def nb split: option.splits fs_node.splits)
  show "leaves Q (copyFile a b)"
    unfolding copyFile_def by (intro leaving c w) (auto split: fs_node.split intro: leaving t)
qed

text \<open>The same on the host and the task.\<close>

definition task_leaves :: "(string \<Rightarrow> bool) \<Rightarrow> (task_state, 'a) handler \<Rightarrow> bool" where
  "task_leaves Q m \<longleftrightarrow> (\<forall>h t r h' t'. m (h, t) = (r, (h', t')) \<longrightarrow>
     (\<forall>q. Q q \<longrightarrow> file_at (host_fs h') q = file_at (host_fs h) q))"

lemma task_leavesD:
  "task_leaves Q m \<Longrightarrow> m (h, t) = (r, (h', t')) \<Longrightarrow> Q q \<Longrightarrow> file_at (host_fs h') q = file_at (host_fs h) q"
  unfolding task_leaves_def by blast

lemma task_leaves_rules:
  "task_leaves Q (ret x)" "task_leaves Q (throw e)" "task_leaves Q (gets g)" "task_leaves Q (change_task f)"
  "leaves Q k \<Longrightarrow> task_leaves Q (onHost k)"
  "(b \<Longrightarrow> task_leaves Q m) \<Longrightarrow> (\<not> b \<Longrightarrow> task_leaves Q m') \<Longrightarrow> task_leaves Q (if b then m else m')"
  "task_leaves Q m \<Longrightarrow> (\<And>x. task_leaves Q (f2 x)) \<Longrightarrow> task_leaves Q (case y of None \<Rightarrow> m | Some x \<Rightarrow> f2 x)"
  by (auto simp: task_leaves_def leaves_def handler_defs change_task_def onHost_def split: prod.splits option.split)

lemma task_leaves_if_err:
  assumes "task_leaves Q m" "\<And>e. task_leaves Q (g e)" "\<And>x. task_leaves Q (f x)"
  shows "task_leaves Q (if_err m g f)"
  unfolding task_leaves_def
proof (intro allI impI)
  fix h t r h' t' q
  assume a: "if_err m g f (h, t) = (r, (h', t'))" and q: "Q q"
  obtain r1 h1 t1 where 1: "m (h, t) = (r1, (h1, t1))" by (metis prod.collapse)
  have "file_at (host_fs h') q = file_at (host_fs h1) q"
    using a 1 q task_leavesD [OF assms(2)] task_leavesD [OF assms(3)] by (cases r1) auto
  then show "file_at (host_fs h') q = file_at (host_fs h) q" using task_leavesD [OF assms(1) 1 q] by simp
qed

text \<open>Importing one file.\<close>

lemma if_err_lift_Inr [simp]: "if_err (lift (Inr x)) g f = f x"
  by (simp add: fun_eq_iff if_err_def lift_def)

lemma leaves_recover: "leaves Q (commitTaskImportedMetadataFile s t source tp info)" "leaves Q (recoverCompletedTaskResult s t source tp)"
proof -
  show co: "leaves Q (commitTaskImportedMetadataFile s t source tp info)" for info
    unfolding commitTaskImportedMetadataFile_def by (intro leaving)
  show "leaves Q (recoverCompletedTaskResult s t source tp)"
    unfolding recoverCompletedTaskResult_def by (intro leaving co)
qed

lemma leaves_import_one:
  assumes "src_DriverType source = ''local''" "task_physical s source tp = Inr p"
    and "\<And>q. Q q \<Longrightarrow> \<not> below p q" "\<And>q. Q q \<Longrightarrow> \<not> below lp q"
  shows "task_leaves Q (import_one s source tp lp)"
proof -
  have st: "leaves Q (importStagedFile s source tp lp)"
    unfolding importStagedFile_def importLocalStagedFile_def assms(2) if_err_lift_Inr using assms(1)
    by (auto intro!: leaves_cases(1) leaves_if_err leaves_basic leaves_files assms(3,4))
  have rm: "leaves Q (ignored (os_Remove lp))" using assms(4) by (intro leaving)
  show ?thesis
    unfolding import_one_def note_result_def Let_def
    by (intro task_leaves_if_err task_leaves_rules leaves_recover st rm leaves_basic)
qed

lemma rename_lands:
  assumes "os_Rename a b h = (Inr u, h')" "file_at (host_fs h) a = Some x" "a \<noteq> b"
  shows "file_at (host_fs h') b = Some x"
  using assms unfolding os_Rename_def
  by (cases rule: fs_op_cases)
    (auto simp: moved_tree_def file_at_def below_def dest!: quietD(1) split: option.splits if_splits fs_node.splits)

lemma copyFile_lands:
  assumes "copyFile a b h = (Inr u, h')" "file_at (host_fs h) a = Some (bs, t)" "a \<noteq> b"
  shows "\<exists>t'. file_at (host_fs h') b = Some (bs, t')"
proof -
  obtain src h1 u2 h2 u3 h3 ds h4 u5 h5 where 1: "os_Stat a h = (Inr src, h1)" and 2: "os_MkdirAll (path_Dir b) h1 = (Inr u2, h2)"
    and 3: "os_Create b h2 = (Inr u3, h3)" and 4: "os_ReadFile a h3 = (Inr ds, h4)" and 5: "file_Write b ds h4 = (Inr u5, h5)"
    and 6: "(case src of Directory _ \<Rightarrow> ret () | Regular _ t \<Rightarrow> ignored (os_Chtimes b t)) h5 = (Inr u, h')"
    using assms(1) unfolding copyFile_def by (elim tryE) blast
  have "host_fs h2 a = Some (Regular bs t)"
    using assms(2) os_MkdirAll_files(1) [OF 2] quietD(1) [OF os_Stat_reads(1) [OF 1]] by (simp add: file_at_Some)
  moreover obtain t3 where t3: "host_fs h3 = (host_fs h2)(b \<mapsto> Regular [] t3)" by (rule os_Create_ok [OF 3])
  ultimately have "ds = bs" using os_ReadFile_reads(2) [OF 4] assms(3) by (simp add: read_node_def)
  have "host_fs h4 b = Some (Regular [] t3)" using t3 quietD(1) [OF os_ReadFile_reads(1) [OF 4]] by simp
  then obtain t5 where "host_fs h5 b = Some (Regular bs t5)" using file_Write_ok [OF 5] \<open>ds = bs\<close> by fastforce
  then have w: "file_at (host_fs h5) b = Some (bs, t5)" by (simp add: file_at_Some)
  have touched: "\<exists>t'. file_at (host_fs k') b = Some (bs, t')" if "os_Chtimes b tm k = (ru, k')" "file_at (host_fs k) b = Some (bs, t0)"
    for tm k ru k' t0
    using that unfolding os_Chtimes_def
    by (cases rule: fs_op_cases) (auto simp: modify_def set_node_def file_at_def dest!: quietD(1) split: option.splits fs_node.splits)
  show ?thesis
  proof (cases src)
    case (Directory d)
    then show ?thesis using 6 w by (auto simp: ret_def)
  next
    case (Regular d tm)
    then have "ignored (os_Chtimes b tm) h5 = (Inr u, h')" using 6 by simp
    then obtain ru where "os_Chtimes b tm h5 = (ru, h')" by (rule ignored_ok)
    then show ?thesis using touched w by blast
  qed
qed

lemma importLocal_lands:
  assumes "importLocalStagedFile s source tp lp h = (Inr u, h')" "task_physical s source tp = Inr p"
    and "file_at (host_fs h) lp = Some (bs, t)" "\<not> below lp p" "\<not> below p lp"
  shows "\<exists>t'. file_at (host_fs h') p = Some (bs, t')"
proof -
  have ne: "lp \<noteq> p" using assms(4) by (auto simp: below_def)
  obtain r0 h0 where 0: "os_Stat p h = (r0, h0)" by force
  obtain e where e: "r0 = Inl e" "errors_Is e ErrNotExist"
    using assms(1,2) 0 by (cases r0) (auto simp: importLocalStagedFile_def throw_def split: if_splits)
  obtain u1 h1 where 1: "os_MkdirAll (path_Dir p) h0 = (Inr u1, h1)"
    and 2: "if_err (os_Rename lp p) (\<lambda>_. tryM (copyFile lp p) (\<lambda>_. os_Remove lp)) ret h1 = (Inr u, h')"
    using assms(1,2) 0 e by (auto simp: importLocalStagedFile_def elim: tryE)
  have l1: "file_at (host_fs h1) lp = Some (bs, t)"
    using assms(3) os_MkdirAll_files(1) [OF 1] quietD(1) [OF os_Stat_reads(1) [OF 0]] by (simp add: file_at_Some)
  obtain r2 h2 where r2: "os_Rename lp p h1 = (r2, h2)" by force
  show ?thesis
  proof (cases r2)
    case (Inr v)
    then show ?thesis using 2 r2 rename_lands [OF _ l1 ne] by (auto simp: ret_def)
  next
    case (Inl e2)
    have "h2 = h1 \<or> host_fs h2 = host_fs h1"
      using r2 [unfolded Inl] unfolding os_Rename_def
      by (cases rule: fs_op_cases) (auto dest: quietD(1) split: option.splits if_splits)
    then have l2: "file_at (host_fs h2) lp = Some (bs, t)" using l1 by auto
    obtain u3 h3 where 3: "copyFile lp p h2 = (Inr u3, h3)" "os_Remove lp h3 = (Inr u, h')"
      using 2 r2 Inl by (auto elim: tryE)
    have "leaves (\<lambda>q. q = p) (os_Remove lp)" using assms(4) by (intro leaves_files) auto
    note kept = leavesD [OF this 3(2) refl]
    show ?thesis using copyFile_lands [OF 3(1) l2 ne] unfolding kept .
  qed
qed

text \<open>An import that fails because the target exists: it existed before.\<close>

definition new_errors :: "(Host, 'a) handler \<Rightarrow> bool" where
  "new_errors m \<longleftrightarrow> (\<forall>h e h'. m h = (Inl e, h') \<longrightarrow> \<not> errors_Is e ErrFileAlreadyExists)"

lemma new_errors_try: "new_errors m \<Longrightarrow> (\<And>x. new_errors (f x)) \<Longrightarrow> new_errors (tryM m f)"
  unfolding new_errors_def
proof (intro allI impI)
  fix h e h'
  assume m: "\<forall>h e h'. m h = (Inl e, h') \<longrightarrow> \<not> errors_Is e ErrFileAlreadyExists"
    and f: "\<And>x. \<forall>h e h'. f x h = (Inl e, h') \<longrightarrow> \<not> errors_Is e ErrFileAlreadyExists" and a: "tryM m f h = (Inl e, h')"
  obtain r1 h1 where 1: "m h = (r1, h1)" by force
  show "\<not> errors_Is e ErrFileAlreadyExists"
  proof (cases r1)
    case (Inl e1)
    then show ?thesis using a 1 m by (auto simp: throw_def)
  next
    case (Inr x)
    then have "f x h1 = (Inl e, h')" using a 1 by simp
    then show ?thesis using f by blast
  qed
qed

lemma new_errors_fs_op:
  "(\<And>h e h'. f h = (Inl e, h') \<Longrightarrow> \<not> errors_Is e ErrFileAlreadyExists) \<Longrightarrow> new_errors (fs_op lost f)"
  unfolding new_errors_def
proof (intro allI impI)
  fix h e h'
  assume f: "\<And>h e h'. f h = (Inl e, h') \<Longrightarrow> \<not> errors_Is e ErrFileAlreadyExists" and "fs_op lost f h = (Inl e, h')"
  from this(2) show "\<not> errors_Is e ErrFileAlreadyExists"
    by (cases rule: fs_op_cases) (use f in auto)
qed

lemma new_errors_files:
  "new_errors (os_Stat p)" "new_errors (os_MkdirAll p)" "new_errors (os_Remove p)" "new_errors (copyFile a p)"
proof -
  note ops = os_Stat_def os_MkdirAll_def os_Remove_def os_Create_def os_ReadFile_def file_Write_def
  show st: "new_errors (os_Stat p)" for p
    unfolding ops by (rule new_errors_fs_op) (auto split: option.splits)
  show mk: "new_errors (os_MkdirAll p)" for p
    unfolding ops by (rule new_errors_fs_op) (auto split: if_splits)
  show "new_errors (os_Remove p)"
    unfolding ops by (rule new_errors_fs_op) (auto simp: modify_def)
  have cr: "new_errors (os_Create p)" for p
    unfolding ops by (rule new_errors_fs_op) (auto split: if_splits)
  have rd: "new_errors (os_ReadFile p)" for p
    unfolding ops by (rule new_errors_fs_op) (auto simp: read_node_def split: option.splits fs_node.splits)
  have wr: "new_errors (file_Write p d)" for d
    unfolding ops by (rule new_errors_fs_op) (auto simp: modify_def)
  have end_copy: "new_errors (case src of Directory _ \<Rightarrow> ret () | Regular _ t \<Rightarrow> ignored (os_Chtimes p t))" for src
    by (auto simp: new_errors_def ret_def ignored_never split: fs_node.split)
  show "new_errors (copyFile a p)"
    unfolding copyFile_def by (intro new_errors_try st mk cr rd wr end_copy)
qed

lemma importLocal_exists:
  assumes "importLocalStagedFile s source tp lp h = (Inl e, h')" "errors_Is e ErrFileAlreadyExists"
    and "task_physical s source tp = Inr p"
  shows "host_fs h p \<noteq> None \<and> host_fs h' = host_fs h"
proof -
  obtain r0 h0 where 0: "os_Stat p h = (r0, h0)" by force
  note q0 = quietD(1) [OF os_Stat_reads(1) [OF 0]]
  show ?thesis
  proof (cases r0)
    case (Inr x)
    then show ?thesis
      using assms(1,3) 0 q0 os_Stat_reads(2) [OF 0] by (auto simp: importLocalStagedFile_def throw_def)
  next
    case (Inl e0)
    have "new_errors (if_err (os_Rename lp p) (\<lambda>_. tryM (copyFile lp p) (\<lambda>_. os_Remove lp)) ret)"
      using new_errors_try [OF new_errors_files(4) new_errors_files(3)]
      unfolding new_errors_def if_err_def [of "os_Rename lp p"] by (auto simp: ret_def split: prod.splits sum.splits)
    then have "new_errors (tryM (os_MkdirAll (path_Dir p))
        (\<lambda>_. if_err (os_Rename lp p) (\<lambda>_. tryM (copyFile lp p) (\<lambda>_. os_Remove lp)) ret))"
      by (intro new_errors_try new_errors_files)
    moreover have "\<not> errors_Is e0 ErrFileAlreadyExists"
      using new_errors_files(1) 0 Inl unfolding new_errors_def by blast
    ultimately show ?thesis
      using assms 0 Inl by (auto simp: importLocalStagedFile_def new_errors_def throw_def split: if_splits)
  qed
qed

lemma onHost_run: "m h = (r, h1) \<Longrightarrow> onHost m (h, t) = (r, (h1, t))"
  by (simp add: onHost_def)

lemma gets_task: "if_err (gets snd) g f (h, t) = f t (h, t)"
  by (simp add: if_err_def gets_def)

lemma import_one_lands:
  assumes local: "src_DriverType source = ''local''" "task_physical s source tp = Inr p"
    and apart: "\<not> below lp p" "\<not> below p lp"
    and h: "file_at (host_fs h) lp = Some (bs, tm)" "file_at (host_fs h) p = None"
    and run: "import_one s source tp lp (h, t) = (Inr u, (h', t'))"
  shows "\<exists>tm'. file_at (host_fs h') p = Some (bs, tm')"
proof -
  obtain r0 h0 where 0: "os_Stat lp h = (r0, h0)" by force
  note q0 = quietD(1) [OF os_Stat_reads(1) [OF 0]]
  let ?rec = "\<lambda>err found. tryM (onHost (recoverCompletedTaskResult s t source tp)) (\<lambda>recovered.
     case recovered of None \<Rightarrow> throw err | Some nodeID \<Rightarrow> tryM found (\<lambda>_. note_result nodeID))"
  obtain info where run0: "if_err (onHost (importStagedFile s source tp lp))
      (\<lambda>err. if errors_Is err ErrFileAlreadyExists then ?rec err (onHost (ignored (os_Remove lp))) else throw err)
      (\<lambda>_. if_err (onHost (commitTaskImportedMetadataFile s t source tp info)) (\<lambda>err. ?rec err (ret ())) note_result)
      (h0, t) = (Inr u, (h', t'))"
  proof (cases r0)
    case (Inl e)
    then have False
      using run onHost_run [of "os_Stat lp", OF 0, of t] unfolding import_one_def Let_def gets_task by (simp add: throw_def)
    then show ?thesis ..
  next
    case (Inr info)
    then show ?thesis
      using that [of info] run onHost_run [of "os_Stat lp", OF 0, of t] unfolding import_one_def Let_def gets_task by simp
  qed
  obtain r1 h1 where 1: "importLocalStagedFile s source tp lp h0 = (r1, h1)" by force
  then have i: "onHost (importStagedFile s source tp lp) (h0, t) = (r1, (h1, t))"
    using local(1) by (simp add: importStagedFile_def onHost_def)
  have rest: "task_leaves (\<lambda>q. True) (if_err (onHost (commitTaskImportedMetadataFile s t source tp info)) (\<lambda>err. ?rec err (ret ())) note_result)"
    unfolding note_result_def by (intro task_leaves_if_err task_leaves_rules leaves_recover)
  show ?thesis
  proof (cases r1)
    case (Inr v)
    obtain tm' where "file_at (host_fs h1) p = Some (bs, tm')"
      using importLocal_lands [OF 1 [unfolded Inr] local(2) _ apart] h(1) q0 by auto
    moreover have "if_err (onHost (commitTaskImportedMetadataFile s t source tp info)) (\<lambda>err. ?rec err (ret ())) note_result (h1, t)
        = (Inr u, (h', t'))"
      using run0 i Inr by simp
    ultimately show ?thesis using task_leavesD [OF rest] by fastforce
  next
    case (Inl e)
    have ex: "errors_Is e ErrFileAlreadyExists" using run0 i Inl by (auto simp: throw_def split: if_splits)
    then have "host_fs h p \<noteq> None" "host_fs h1 = host_fs h"
      using importLocal_exists [OF 1 [unfolded Inl] ex local(2)] q0 by auto
    then obtain d where d: "host_fs h1 p = Some (Directory d)"
      using h(2) by (auto simp: file_at_def split: fs_node.splits)
    have "?rec e (onHost (ignored (os_Remove lp))) (h1, t) = (Inr u, (h', t'))" using run0 i Inl ex by simp
    moreover have "recoverCompletedTaskResult s t source tp h1 = (x, h2) \<Longrightarrow> x = Inr None \<or> (\<exists>err. x = Inl err)" for x h2
      using d local os_Stat_reads(2) unfolding recoverCompletedTaskResult_def
      by (cases "os_Stat p h1"; cases "fst (os_Stat p h1)") (fastforce simp: ret_def throw_def node_IsDir_def split: if_splits)+
    ultimately show ?thesis
      by (cases "recoverCompletedTaskResult s t source tp h1"; cases "fst (recoverCompletedTaskResult s t source tp h1)")
        (fastforce simp: if_err_def onHost_def throw_def)+
  qed
qed

text \<open>Importing all files: paths that are not below one another.\<close>

definition apart_paths :: "string list \<Rightarrow> bool" where
  "apart_paths = sorted_wrt (\<lambda>a b. \<not> below a b \<and> \<not> below b a)"

lemma import_files_land:
  assumes local: "src_DriverType source = ''local''"
  shows "import_files s source base n files (h, t) = (Inr u, (h', t')) \<Longrightarrow>
    (\<forall>f \<in> set files. task_physical s source (joinVirtualPath base (taskImportRelativePath t f n)) = Inr (p f)) \<Longrightarrow>
    (\<forall>f \<in> set files. \<exists>tm. file_at (host_fs h) (stf_localPath f) = Some (bs f, tm)) \<Longrightarrow>
    (\<forall>f \<in> set files. file_at (host_fs h) (p f) = None) \<Longrightarrow>
    apart_paths (map stf_localPath files @ map p files) \<Longrightarrow>
    (\<forall>f \<in> set files. \<exists>tm. file_at (host_fs h') (p f) = Some (bs f, tm)) \<and>
    (\<forall>q. (\<forall>f \<in> set files. \<not> below (p f) q \<and> \<not> below (stf_localPath f) q) \<longrightarrow>
      file_at (host_fs h') q = file_at (host_fs h) q)"
proof (induction files arbitrary: h t)
  case (Cons f files)
  let ?tp = "joinVirtualPath base (taskImportRelativePath t f n)" and ?lp = "stf_localPath f"
  obtain u1 h1 t1 where 1: "import_one s source ?tp ?lp (h, t) = (Inr u1, (h1, t1))"
    and 2: "import_files s source base n files (h1, t1) = (Inr u, (h', t'))"
    using Cons.prems(1) unfolding import_files.simps gets_task by (elim tryE) (metis prod.collapse)
  have phys: "task_physical s source ?tp = Inr (p f)" using Cons.prems(2) by simp
  obtain tm where tm: "file_at (host_fs h) ?lp = Some (bs f, tm)" using Cons.prems(3) by auto
  have none: "file_at (host_fs h) (p f) = None" using Cons.prems(4) by simp
  have ap: "\<not> below ?lp (p f)" "\<not> below (p f) ?lp"
    and ap1: "\<And>g. g \<in> set files \<Longrightarrow> \<not> below ?lp (stf_localPath g) \<and> \<not> below ?lp (p g) \<and>
        \<not> below (p f) (stf_localPath g) \<and> \<not> below (p f) (p g) \<and> \<not> below (stf_localPath g) (p f) \<and> \<not> below (p g) (p f)"
    and ap2: "apart_paths (map stf_localPath files @ map p files)"
    using Cons.prems(5) by (auto simp: apart_paths_def sorted_wrt_append)
  let ?Q = "\<lambda>q. \<not> below (p f) q \<and> \<not> below ?lp q"
  have "task_leaves ?Q (import_one s source ?tp ?lp)" by (rule leaves_import_one [OF local phys]) auto
  note keep = task_leavesD [OF this 1]
  have name: "task_TargetFilename t1 = task_TargetFilename t"
    using calmD(2) [OF calm_import_one 1] by (simp add: same_request_def request_of_def)
  then have rel: "taskImportRelativePath t1 = taskImportRelativePath t"
    by (simp add: fun_eq_iff taskImportRelativePath_def)
  obtain tm1 where tm1: "file_at (host_fs h1) (p f) = Some (bs f, tm1)"
    using import_one_lands [OF local phys ap tm none 1] by blast
  have IH: "(\<forall>f \<in> set files. \<exists>tm. file_at (host_fs h') (p f) = Some (bs f, tm)) \<and>
    (\<forall>q. (\<forall>f \<in> set files. \<not> below (p f) q \<and> \<not> below (stf_localPath f) q) \<longrightarrow>
      file_at (host_fs h') q = file_at (host_fs h1) q)"
  proof (rule Cons.IH [OF 2 _ _ _ ap2])
    show "\<forall>f \<in> set files. task_physical s source (joinVirtualPath base (taskImportRelativePath t1 f n)) = Inr (p f)"
      using Cons.prems(2) unfolding rel by simp
    show "\<forall>f \<in> set files. \<exists>tm. file_at (host_fs h1) (stf_localPath f) = Some (bs f, tm)"
      "\<forall>f \<in> set files. file_at (host_fs h1) (p f) = None"
      using Cons.prems(3,4) ap1 keep by auto
  qed
  then have "file_at (host_fs h') (p f) = Some (bs f, tm1)" using tm1 ap1 by auto
  then show ?case using IH keep by auto
qed (auto simp: ret_def)

text \<open>Listing the staging directory depends on the files only, unless an operation fails.\<close>

definition host_of :: "files \<Rightarrow> Host" where
  "host_of fs = \<lparr>host_db = emptyDB, host_fs = fs, host_fs_faults = [], host_calls = 0, host_imports = []\<rparr>"

definition looks :: "(Host, 'a) handler \<Rightarrow> bool" where
  "looks m \<longleftrightarrow> (\<forall>h r h'. m h = (r, h') \<longrightarrow> quiet h h' \<and>
     (case r of Inr y \<Rightarrow> m (host_of (host_fs h)) = (Inr y, host_of (host_fs h))
      | Inl e \<Rightarrow> (\<exists>msg. e = ErrOther msg) \<or> m (host_of (host_fs h)) = (Inl e, host_of (host_fs h))))"

lemma looks_basic: "looks (ret x)" "looks (throw e)"
  by (auto simp: looks_def ret_def throw_def)

lemma looks_try:
  assumes "looks m" "\<And>x. looks (f x)"
  shows "looks (tryM m f)"
  unfolding looks_def
proof (intro allI impI)
  fix h r h'
  assume a: "tryM m f h = (r, h')"
  obtain r1 h1 where 1: "m h = (r1, h1)" by force
  note m = assms(1) [unfolded looks_def, rule_format, OF 1]
  show "quiet h h' \<and>
     (case r of Inr y \<Rightarrow> tryM m f (host_of (host_fs h)) = (Inr y, host_of (host_fs h))
      | Inl e \<Rightarrow> (\<exists>msg. e = ErrOther msg) \<or> tryM m f (host_of (host_fs h)) = (Inl e, host_of (host_fs h)))"
  proof (cases r1)
    case (Inl e)
    then show ?thesis using a 1 m by (auto simp: throw_def)
  next
    case (Inr x)
    then have 2: "f x h1 = (r, h')" using a 1 by simp
    have m0: "m (host_of (host_fs h)) = (Inr x, host_of (host_fs h))" "quiet h h1" using m Inr by auto
    note k = assms(2) [unfolded looks_def, rule_format, OF 2]
    then show ?thesis using m0 quietD(1) [OF m0(2)] quiet_trans [OF m0(2)] by (auto split: sum.splits)
  qed
qed

lemma looks_fs_query:
  assumes "\<And>h. f h = (v (host_fs h), h)"
  shows "looks (fs_query f)"
  unfolding looks_def
proof (intro allI impI)
  fix h r h'
  assume "fs_query f h = (r, h')"
  then show "quiet h h' \<and>
     (case r of Inr y \<Rightarrow> fs_query f (host_of (host_fs h)) = (Inr y, host_of (host_fs h))
      | Inl e \<Rightarrow> (\<exists>msg. e = ErrOther msg) \<or> fs_query f (host_of (host_fs h)) = (Inl e, host_of (host_fs h)))"
    by (cases rule: fs_op_cases)
      (auto simp: assms host_of_def dest: quietD(1) split: sum.splits)
qed

lemma looks_walk:
  assumes "\<And>p d. looks (fn p d)"
  shows "looks (walk names fn k p d)" and "looks (walk_entries names fn k p es)"
  using assms
proof (induction names fn k p d and names fn k p es rule: walk_walk_entries.induct)
  case (2 names fn k p d)
  have "looks (os_ReadDir names p)"
    unfolding os_ReadDir_def
    by (rule looks_fs_query [where v = "\<lambda>fs. if is_dir_at fs p
          then Inr (concat (map (\<lambda>n. case fs (path_Join [p, n]) of None \<Rightarrow> [] | Some x \<Rightarrow> [(n, x)]) (names fs p)))
          else Inl (if fs p = None then ErrNotExist else ErrNotDir)"]) auto
  then show ?case using 2 by (auto intro!: looks_try looks_basic split: prod.split)
qed (auto intro!: looks_try looks_basic)

lemma looks_listing: "looks (listStagedTaskFiles s dir)"
proof -
  have "looks (os_Stat p)" for p
    unfolding os_Stat_def
    by (rule looks_fs_query [where v = "\<lambda>fs. case fs p of None \<Rightarrow> Inl ErrNotExist | Some x \<Rightarrow> Inr x"])
      (auto split: option.split)
  then show ?thesis
    unfolding listStagedTaskFiles_def WalkDir_def Let_def by (intro looks_try looks_walk looks_basic)
qed

text \<open>The path of the source a staged file goes to, on the disk.\<close>

definition task_target :: "TaskService \<Rightarrow> StorageSource \<Rightarrow> DownloadTask \<Rightarrow> nat \<Rightarrow> stagedTaskFile \<Rightarrow> string result" where
  "task_target s source t n staged =
     tryp (task_base_path t) (\<lambda>base. task_physical s source (joinVirtualPath base (taskImportRelativePath t staged n)))"

text \<open>What the import needs of its surroundings.\<close>

definition import_setting ::
  "TaskService \<Rightarrow> files \<Rightarrow> StorageSource list \<Rightarrow> DownloadTask \<Rightarrow> StorageSource \<Rightarrow> stagedTaskFile list \<Rightarrow>
   (stagedTaskFile \<Rightarrow> string) \<Rightarrow> (stagedTaskFile \<Rightarrow> string) \<Rightarrow> bool" where
  "import_setting s fs sources t source files p bs \<longleftrightarrow>
     TrimSpace (task_StagingDir t) \<noteq> [] \<and> files \<noteq> [] \<and>
     fst (listStagedTaskFiles s (task_StagingDir t) (host_of fs)) = Inr files \<and>
     find (\<lambda>x. src_ID x = taskResolvedSourceID t) sources = Some source \<and> src_DriverType source = ''local'' \<and>
     (\<forall>f \<in> set files. task_target s source t (length files) f = Inr (p f) \<and>
        read_node (fs (stf_localPath f)) = Inr (bs f) \<and> fs (p f) = None \<and> \<not> below (task_StagingDir t) (p f)) \<and>
     apart_paths (map stf_localPath files @ map p files)"

lemma file_at_read: "(\<exists>tm. file_at fs q = Some (bs, tm)) \<longleftrightarrow> read_node (fs q) = Inr bs"
  by (auto simp: file_at_def read_node_def split: option.splits fs_node.splits)

lemma find_source_found:
  assumes "onDB (src_FindByID i) h = (Inr source, h')"
  shows "find (\<lambda>x. src_ID x = i) (db_sources (host_db h)) = Some source"
proof -
  have f: "find_row db_sources (\<lambda>x. src_ID x = i) (host_db h) = (Inr source, host_db h')"
    using onDB_run(1) [OF assms] by (simp add: src_FindByID_def)
  have q: "table_query db_sources" by simp
  show ?thesis using f q by (cases rule: find_row_cases) auto
qed

lemma importCompletedTask_lands:
  assumes set: "import_setting s (host_fs h) (db_sources (host_db h)) t source files p bs"
    and run: "importCompletedTask s (h, t) = (Inr u, (h', t'))"
  shows "(\<forall>f \<in> set files. read_node (host_fs h' (p f)) = Inr (bs f)) \<and> task_StagingDir t' = []"
proof -
  note S = set [unfolded import_setting_def]
  let ?dir = "task_StagingDir t" and ?n = "length files"
  obtain r1 h1 where 1: "listStagedTaskFiles s ?dir h = (r1, h1)" by force
  have r1: "quiet h h1" "r1 = Inr files \<or> (\<exists>msg. r1 = Inl (ErrOther msg))"
    using looks_listing [unfolded looks_def, rule_format, OF 1] S by (cases r1; auto)+
  have q1: "host_fs h1 = host_fs h" "host_db h1 = host_db h" using quietD [OF r1(1)] by auto
  note l = onHost_run [of "listStagedTaskFiles s ?dir", OF 1, of t]
  have "r1 = Inr files"
    using run r1(2) l S unfolding importCompletedTask_def Let_def gets_task by (auto simp: throw_def)
  then have run1: "tryM (onHost (onDB (src_FindByID (taskResolvedSourceID t)))) (\<lambda>source.
                tryM (lift (task_base_path t)) (\<lambda>base.
                tryM (import_files s source base ?n files) (\<lambda>_.
                tryM (gets snd) (\<lambda>task.
                  if tks_metadataCommitter s \<noteq> None \<and> task_ResultVFSNodeID task = 0 then
                    tryM (onHost (onDB (recordTaskMetadataCommitFailure s task source [] (task_SaveVirtualPath task)
                            ErrMetadataVFSCommitFailed))) (\<lambda>_. throw ErrMetadataVFSCommitFailed)
                  else
                    tryM (onHost (os_RemoveAll ?dir)) (\<lambda>_. change_task (\<lambda>t. t\<lparr>task_StagingDir := []\<rparr>)))))) (h1, t)
      = (Inr u, (h', t'))"
    using run l S unfolding importCompletedTask_def Let_def gets_task by simp
  obtain src h2 base h3 t3 u3 where 2: "onDB (src_FindByID (taskResolvedSourceID t)) h1 = (Inr src, h2)"
    and base: "task_base_path t = Inr base"
    and 3: "import_files s src base ?n files (h2, t) = (Inr u3, (h3, t3))"
    and 4: "(if tks_metadataCommitter s \<noteq> None \<and> task_ResultVFSNodeID t3 = 0 then
                    tryM (onHost (onDB (recordTaskMetadataCommitFailure s t3 src [] (task_SaveVirtualPath t3)
                            ErrMetadataVFSCommitFailed))) (\<lambda>_. throw ErrMetadataVFSCommitFailed)
                  else
                    tryM (onHost (os_RemoveAll ?dir)) (\<lambda>_. change_task (\<lambda>t. t\<lparr>task_StagingDir := []\<rparr>))) (h3, t3)
      = (Inr u, (h', t'))"
  proof -
    obtain r2 h2 where a: "onDB (src_FindByID (taskResolvedSourceID t)) h1 = (r2, h2)" by force
    note o = onHost_run [of "onDB (src_FindByID (taskResolvedSourceID t))", OF a, of t]
    obtain src where r2: "r2 = Inr src" using run1 o by (cases r2) (auto simp: throw_def)
    obtain base where b: "task_base_path t = Inr base"
      using run1 o r2 by (cases "task_base_path t") (auto simp: throw_def lift_def if_err_def)
    obtain r3 h3 t3 where c: "import_files s src base ?n files (h2, t) = (r3, (h3, t3))" by (metis prod.collapse)
    obtain u3 where "r3 = Inr u3" using run1 o r2 b c by (cases r3) (auto simp: throw_def)
    then show thesis using that [of src h2 base u3 h3 t3] run1 o a r2 b c by (simp add: gets_task)
  qed
  have h2: "host_fs h2 = host_fs h" using onDB_run(2) [OF 2] q1 by simp
  have "src = source" using find_source_found [OF 2] S q1 by simp
  have phys: "task_physical s source (joinVirtualPath base (taskImportRelativePath t f ?n)) = Inr (p f)" if "f \<in> set files" for f
    using S that base by (auto simp: task_target_def)
  have "(\<forall>f \<in> set files. \<exists>tm. file_at (host_fs h3) (p f) = Some (bs f, tm)) \<and>
    (\<forall>q. (\<forall>f \<in> set files. \<not> below (p f) q \<and> \<not> below (stf_localPath f) q) \<longrightarrow>
      file_at (host_fs h3) q = file_at (host_fs h2) q)"
  proof (rule import_files_land [OF _ 3 [unfolded \<open>src = source\<close>]])
    show "\<forall>f \<in> set files. file_at (host_fs h2) (p f) = None" using S h2 by (simp add: file_at_def)
    show "\<forall>f \<in> set files. \<exists>tm. file_at (host_fs h2) (stf_localPath f) = Some (bs f, tm)"
      using S h2 by (simp add: file_at_read)
  qed (use S phys in auto)
  then have landed: "read_node (host_fs h3 (p f)) = Inr (bs f)" if "f \<in> set files" for f
    using that by (simp add: file_at_read)
  obtain u5 h5 where 5: "os_RemoveAll ?dir h3 = (Inr u5, h5)" and t': "h' = h5" "t' = t3\<lparr>task_StagingDir := []\<rparr>"
  proof -
    obtain r5 h5 where a: "os_RemoveAll ?dir h3 = (r5, h5)" by force
    note o = onHost_run [of "os_RemoveAll ?dir", OF a, of t3]
    have "tryM (onHost (os_RemoveAll ?dir)) (\<lambda>_. change_task (\<lambda>t. t\<lparr>task_StagingDir := []\<rparr>)) (h3, t3) = (Inr u, (h', t'))"
      using 4 by (auto simp: throw_def elim: tryE split: if_splits)
    then show thesis using that a o by (cases r5) (auto simp: throw_def change_task_def modify_def)
  qed
  have "host_fs h' (p f) = host_fs h3 (p f)" if "f \<in> set files" for f
    using os_RemoveAll_files(1) [OF 5] S that t'(1) by auto
  then show ?thesis using landed t'(2) by simp
qed

text \<open>The downloader that is asked touches neither the files nor the tables.\<close>

lemma TellStatus_reads:
  assumes "TellStatus s d e h = (r, h')"
  shows "host_fs h' = host_fs h" "db_sources (host_db h') = db_sources (host_db h)"
proof -
  have res: "host_fs h1 = host_fs h \<and> db_sources (host_db h1) = db_sources (host_db h)"
    if "native_resolve s i h = (r1, h1)" for i r1 h1
  proof -
    obtain r0 h0 where 0: "onDB (src_FindByID i) h = (r0, h0)" by force
    have q: "table_query db_sources" by simp
    have "same_tables (host_db h) (host_db h0)"
      using onDB_run(1) [OF 0, unfolded src_FindByID_def] q by (cases rule: find_row_cases) auto
    then have h0: "host_fs h0 = host_fs h" "db_sources (host_db h0) = db_sources (host_db h)"
      using onDB_run(2) [OF 0] same_tables_fields(3) by auto
    then show ?thesis
      using that 0 by (cases r0) (auto simp: native_resolve_def throw_def ret_def split: if_splits option.splits)
  qed
  show "host_fs h' = host_fs h" "db_sources (host_db h') = db_sources (host_db h)"
  proof -
    have "host_fs h' = host_fs h \<and> db_sources (host_db h') = db_sources (host_db h)"
    proof (cases d)
      case (Registered x)
      then show ?thesis using assms by (auto simp: driver_call_def)
    next
      case (Native i)
      obtain r1 h1 where 1: "native_resolve s i h = (r1, h1)" by force
      note k = res [OF 1]
      show ?thesis
      proof (cases r1)
        case (Inl e1)
        then show ?thesis using assms Native 1 k by (simp add: throw_def)
      next
        case (Inr x)
        then show ?thesis
          using assms Native 1 k by (auto simp: if_err_def driver_call_def throw_def ret_def split: prod.splits sum.splits)
      qed
    qed
    then show "host_fs h' = host_fs h" "db_sources (host_db h') = db_sources (host_db h)" by auto
  qed
qed

lemma import_setting_told:
  "import_setting s fs sources (told s now status t) source files p bs = import_setting s fs sources t source files p bs"
proof -
  have "task_StagingDir (told s now status t) = task_StagingDir t"
    "taskResolvedSourceID (told s now status t) = taskResolvedSourceID t"
    "task_target s source (told s now status t) = task_target s source t"
    by (simp_all add: fun_eq_iff told_def Let_def taskResolvedSourceID_def task_target_def task_base_path_def taskImportRelativePath_def)
  then show ?thesis by (simp add: import_setting_def)
qed

lemma change_run: "change_task f (h, t) = (Inr (), (h, f t))"
  by (simp add: change_task_def modify_def)

lemma told_status: "task_Status (told s now status t) = ds_Status status"
  by (simp add: told_def Let_def)

lemma completed_import_lands:
  assumes set: "import_setting s (host_fs h) (db_sources (host_db h)) t source files p bs"
    and run: "completed_import s now (h, t) = (r, (h', t'))" and st: "task_Status t' = ''completed''"
  shows "(\<forall>f \<in> set files. read_node (host_fs h' (p f)) = Inr (bs f)) \<and> task_StagingDir t' = []"
proof -
  obtain r1 h1 t1 where 1: "importCompletedTask s (h, t) = (r1, (h1, t1))" by (metis prod.collapse)
  obtain u where "r1 = Inr u"
    using run 1 st by (cases r1) (auto simp: completed_import_def change_task_def modify_def)
  then have "h' = h1" "task_StagingDir t' = task_StagingDir t1"
    using run 1 by (auto simp: completed_import_def change_task_def modify_def)
  then show ?thesis using importCompletedTask_lands [OF set 1 [unfolded \<open>r1 = Inr u\<close>]] by simp
qed


section \<open>Witnesses\<close>

text \<open>One task that has ended, one whose download is ready in its staging directory.\<close>

definition sample_task :: "nat \<Rightarrow> string \<Rightarrow> DownloadTask" where
  "sample_task i st =
     \<lparr>task_ID = i, task_UserID = 7, task_Type = ''url'', task_DownloaderType = ''aria2'', task_Status = st,
      task_SourceID = 1, task_SavePath = ''/'', task_TargetVFSParentNodeID = 0, task_TargetVirtualParentPath = [],
      task_TargetFilename = [], task_SaveVirtualPath = ''/'', task_ResolvedSourceID = 1,
      task_ResolvedInnerSavePath = ''/'', task_ResultVFSNodeID = 0, task_StagingDir = ''/s'', task_DisplayName = ''a'',
      task_SourceURL = ''u'', task_ExternalID = ''g'', task_Progress = 0, task_DownloadedBytes = 0,
      task_TotalBytes = None, task_SpeedBytes = 0, task_ETASeconds = None, task_ErrorMessage = None,
      task_FinishedAt = None, task_CreatedAt = 1, task_UpdatedAt = 1\<rparr>"

definition sample_downloader :: Downloader where
  "sample_downloader =
     \<lparr>dl_AddURI = (\<lambda>_ _ _. Inr ''g''),
      dl_TellStatus = (\<lambda>_ _. Inr \<lparr>ds_Status = ''completed'', ds_CompletedBytes = 2, ds_TotalBytes = Some 2,
        ds_DownloadSpeed = 0, ds_ETASeconds = None, ds_ProgressPercent = None, ds_DisplayName = [], ds_ErrorMessage = None\<rparr>),
      dl_Pause = (\<lambda>_ _. Inr ()), dl_Resume = (\<lambda>_ _. Inr ()), dl_Remove = (\<lambda>_ _. Inr ())\<rparr>"

definition sample_tasks :: TaskService where
  "sample_tasks =
     \<lparr>tks_aclAuthorizer = None, tks_downloaders = (\<lambda>_. Some sample_downloader), tks_stagingRoot = ''/'',
      tks_stagingRoots = (\<lambda>_. []), tks_importDrivers = (\<lambda>_. None), tks_nativeDrivers = (\<lambda>_. None),
      tks_observer = None, tks_vfsResolver = None, tks_metadataReader = None, tks_metadataCommitter = None,
      tks_operationJournal = None, tks_auditRecorder = None,
      tks_env = \<lparr>env_uni = (\<lambda>s. s), env_mimeByExt = (\<lambda>_. []), env_rfc3339 = (\<lambda>_. []), env_rfc3339nano = (\<lambda>_. []), env_md5hex = (\<lambda>s. s)\<rparr>,
      tks_unmarshal = (\<lambda>_. Inr ''/d''), tks_parse = (\<lambda>_. Inr ([], [])), tks_percent = (\<lambda>_ _. 10000),
      tks_names = (\<lambda>_ p. if p = ''/s'' then [''a''] else []), tks_depth = 2\<rparr>"

definition sample_task_files :: "bool \<Rightarrow> files" where
  "sample_task_files taken q =
     (if q = ''/s'' \<or> q = ''/d'' \<or> q = ''/d/r'' then Some (Directory 3)
      else if q = ''/s/a'' then Some (Regular ''hi'' 5)
      else if taken \<and> q = ''/d/r/a'' then Some (Regular ''old'' 4)
      else None)"

definition sample_task_host :: "bool \<Rightarrow> Host" where
  "sample_task_host taken =
     \<lparr>host_db = emptyDB\<lparr>db_sources := [local_source], db_tasks := [sample_task 1 ''failed'', sample_task 2 ''running'']\<rparr>,
      host_fs = sample_task_files taken, host_fs_faults = [], host_calls = 0, host_imports = []\<rparr>"

theorem tasks_only_move_forward_witness:
  "sample_task 1 ''failed'' \<in> set (db_tasks (host_db (snd (SyncAll sample_tasks (sample_task_host False)))))"
proof -
  have "(task_step sample_tasks)\<^sup>*\<^sup>* (sample_task_host False) (snd (SyncAll sample_tasks (sample_task_host False)))"
    by (intro r_into_rtranclp task_step.sync) (rule prod.collapse [symmetric])
  moreover have "observer_reads sample_tasks" by (simp add: observer_reads_def sample_tasks_def)
  moreover have "distinct (map task_ID (db_tasks (host_db (sample_task_host False))))"
    "sample_task 1 ''failed'' \<in> set (db_tasks (host_db (sample_task_host False)))"
    "isTerminalTaskStatus (task_Status (sample_task 1 ''failed''))" by code_simp+
  ultimately show ?thesis using tasks_only_move_forward by blast
qed

theorem task_control_needs_owner_witness:
  "refused 2 (sample_task_host False)
     (Pause_task sample_tasks \<lparr>ctx_request = None, ctx_auth = None\<rparr> 2 (sample_task_host False))"
  using task_control_needs_owner [of "sample_task_host False" 2 "\<lparr>ctx_request = None, ctx_auth = None\<rparr>" sample_tasks False]
  by (simp add: may_control_def)

text \<open>The refresh of the second task, step by step.\<close>

abbreviation sample_status :: DownloadStatus where
  "sample_status \<equiv>
     \<lparr>ds_Status = ''completed'', ds_CompletedBytes = 2, ds_TotalBytes = Some 2, ds_DownloadSpeed = 0,
      ds_ETASeconds = None, ds_ProgressPercent = None, ds_DisplayName = [], ds_ErrorMessage = None\<rparr>"

abbreviation sample_staged :: stagedTaskFile where
  "sample_staged \<equiv> \<lparr>stf_localPath = ''/s/a'', stf_relativePath = ''a''\<rparr>"

definition sample_asked :: task_state where
  "sample_asked = ((sample_task_host False)\<lparr>host_calls := 1\<rparr>, told sample_tasks 1 sample_status (sample_task 2 ''running''))"

lemma sample_steps:
  "fst (listStagedTaskFiles sample_tasks ''/s'' (fst sample_asked)) = Inr [sample_staged]"
  "case import_one sample_tasks local_source ''/a'' ''/s/a'' sample_asked of (r, (h, t)) \<Rightarrow>
     r = Inr () \<and> host_fs_faults h = [] \<and> task_Status t = ''completed''"
  "fst (onDB (src_FindByID 1) (fst sample_asked)) = Inr local_source"
  "task_base_path (snd sample_asked) = Inr ''/''" "taskResolvedSourceID (snd sample_asked) = 1"
  "joinVirtualPath ''/'' (taskImportRelativePath (snd sample_asked) sample_staged (Suc 0)) = ''/a''"
  "TrimSpace (task_StagingDir (snd sample_asked)) \<noteq> []" "task_StagingDir (snd sample_asked) = ''/s''"
  by code_simp+

lemma sample_imported: "\<exists>h t. importCompletedTask sample_tasks sample_asked = (Inr (), (h, t)) \<and> task_Status t = ''completed''"
proof -
  obtain h0 t0 where a: "sample_asked = (h0, t0)" by force
  have nf: "host_fs_faults h0 = []" "db_faults (host_db h0) = []"
    using a by (auto simp: sample_asked_def sample_task_host_def emptyDB_def)
  note st = sample_steps [unfolded a, simplified]
  have "still (listStagedTaskFiles sample_tasks ''/s'')"
    unfolding listStagedTaskFiles_def WalkDir_def Let_def by (intro stills still_walk)
  then have list: "onHost (listStagedTaskFiles sample_tasks ''/s'') (h0, t) = (Inr [sample_staged], (h0, t))" for t
    using st(1) nf(1) by (auto simp: onHost_def still_def split: prod.splits)
  have src: "onHost (onDB (src_FindByID 1)) (h0, t) = (Inr local_source, (h0, t))" for t
    using st(3) nf(2) by (auto simp: onHost_def onDB_def src_FindByID_def find_row_def stmt_def split: option.splits)
  obtain h1 t1 where one: "import_one sample_tasks local_source ''/a'' ''/s/a'' (h0, t0) = (Inr (), (h1, t1))"
      "host_fs_faults h1 = []" "task_Status t1 = ''completed''"
    using st(2) by (auto split: prod.splits)
  have rm: "onHost (os_RemoveAll ''/s'') (h1, t) = (Inr (), (h1\<lparr>host_fs := \<lambda>q. if below ''/s'' q then None else host_fs h1 q\<rparr>, t))" for t
    using one(2) by (simp add: onHost_def os_RemoveAll_def modify_def)
  have none: "tks_metadataCommitter sample_tasks = None" by (simp add: sample_tasks_def)
  have "importCompletedTask sample_tasks (h0, t0) = (Inr (), (h1\<lparr>host_fs := \<lambda>q. if below ''/s'' q then None else host_fs h1 q\<rparr>, t1\<lparr>task_StagingDir := []\<rparr>))"
    unfolding importCompletedTask_def Let_def gets_task
    using st(4-8) list src one rm none by (simp add: gets_task ret_def change_run)
  then show ?thesis using one(3) a by simp
qed

lemma sample_refreshed: "task_Status (snd (snd (refreshTask sample_tasks (sample_task_host False, sample_task 2 ''running'')))) = ''completed''"
proof -
  obtain h t where 1: "importCompletedTask sample_tasks sample_asked = (Inr (), (h, t))" "task_Status t = ''completed''"
    using sample_imported by blast
  have d: "downloaderForTask sample_tasks (sample_task 2 ''running'') = Inr (Registered sample_downloader)"
    by (simp add: downloaderForTask_def Router_Get_def sample_tasks_def sample_task_def normalizeDownloaderType_def)
  have tell: "onHost (TellStatus sample_tasks (Registered sample_downloader) e) (sample_task_host False, t0) =
      (Inr sample_status, ((sample_task_host False)\<lparr>host_calls := 1\<rparr>, t0))" for e t0
    by (simp add: onHost_def driver_call_def sample_downloader_def sample_task_host_def)
  have now: "onHost time_Now (h1, t0) = (Inr (host_now h1), (h1, t0))" for h1 t0 by (simp add: onHost_def time_Now_def)
  have one: "host_now ((sample_task_host False)\<lparr>host_calls := 1\<rparr>) = 1" by (simp add: sample_task_host_def emptyDB_def)
  have "before_update sample_tasks (sample_task 2 ''running'') (sample_task_host False, sample_task 2 ''running'') =
      (Inr (), (h, t\<lparr>task_ErrorMessage := None, task_FinishedAt := Some 1, task_UpdatedAt := 1\<rparr>))"
    unfolding before_update_def d if_err_lift_Inr completed_import_def
    using 1(1) [unfolded sample_asked_def] one by (simp add: tell now change_run del: TellStatus.simps)
  moreover have "task_ExternalID (sample_task 2 ''running'') \<noteq> []" "\<not> isTerminalTaskStatus (task_Status (sample_task 2 ''running''))"
    by (simp_all add: sample_task_def isTerminalTaskStatus_def)
  ultimately show ?thesis using 1(2) by (simp add: refresh_split gets_task onHost_def split: prod.split)
qed


text \<open>
  When another file already has the name of the target, importing the download succeeds without
  it: the file that was there stays, and the download is removed.
\<close>

lemma existing_target_swallows_download:
  "case import_one sample_tasks local_source ''/a'' ''/s/a'' (sample_task_host True, sample_task 2 ''completed'') of
     (r, (h, _)) \<Rightarrow> r = Inr () \<and> read_node (host_fs h ''/d/r/a'') = Inr ''old'' \<and> host_fs h ''/s/a'' = None"
  by code_simp

end
