(* ===== verification/Spec2Isabelle.thy ===== *)
theory Spec2Isabelle
  imports Mounts Local_Paths ACL Journal Metadata_Mutations Setup Upload_Correct Share Source_Service File_Confined Tasks_Correct
begin

text \<open>
  Verification of the core of the Yunxia backend (Go, \<^verbatim>\<open>src/backend/internal\<close>), a server that
  presents storage sources (local directories, S3, PikPak) as one tree of files.

  \<^bold>\<open>The program.\<close> An administrator sets the server up (\<^verbatim>\<open>setup_service.go\<close>), users sign in and get
  token pairs, and every request runs as a user with a role and capabilities. A source is mounted
  at a virtual path; the resolver takes the longest mount path that contains a requested path.
  Beside the files there is a tree of metadata rows, which requests change directly, which a
  commit after an upload or a download extends, and which a refresh fills from a driver's listing;
  failed commits go into an operation journal that workers retry. Access rules decide which paths
  a user sees. Files are listed, moved, deleted into a trash, uploaded in chunks, shared by links
  and downloaded from elsewhere by tasks. The services share one database and the disk of the
  server; every service keeps an audit log.

  \<^bold>\<open>The theories\<close>, each with the lemmas about its operations (files under
  \<^verbatim>\<open>application/service\<close> unless a directory is given, repositories under
  \<^verbatim>\<open>infrastructure/persistence/gorm\<close>):
  \<^item> \<open>Prelude\<close>: error values (\<^verbatim>\<open>storage_errors.go\<close>), Go's string functions, 64-bit arithmetic with
    its wrap-around, and the handlers: functions from a state to a result (\<open>Inl\<close> an error) and
    the next state, with the rules for their sequences, loops and invariants.
  \<^item> \<open>Paths\<close>, \<open>Local_Paths\<close>: \<^verbatim>\<open>vfs_path.go\<close> and \<^verbatim>\<open>local_storage_helpers.go\<close>: path normalisation, the
    prefix order on paths, the file of the server a virtual path stands for.
  \<^item> \<open>Entities\<close>: the structs of \<^verbatim>\<open>domain/entity\<close> as records, field by field.
  \<^item> \<open>Database\<close>: the tables as lists of rows with identifiers and unique columns; every statement
    takes an entry of a list of faults that may make it fail; transactions (\<^verbatim>\<open>tx.go\<close>).
    Its locales \<open>row_store\<close> (a lookup after an update) and \<open>kept_part\<close> (handlers that leave a part of
    the database alone) are interpreted on the journal, the mounts, the nodes, the uploads.
  \<^item> \<open>Host_Files\<close>: the machine, that is the database and a file system, where every operation
    may fail as well, a write after some of its bytes.
  \<^item> \<open>Permission\<close>: \<^verbatim>\<open>domain/permission\<close>. \<open>Audit_Log\<close>: \<^verbatim>\<open>application/audit\<close>.
  \<^item> \<open>Users\<close>, \<open>Sessions\<close>, \<open>Setup\<close>: \<^verbatim>\<open>user_service.go\<close>, the three services of
    \<^verbatim>\<open>setup_service.go\<close>, \<^verbatim>\<open>jwt_token_service.go\<close> and the middlewares that admit a request. The
    interleavings of requests are the step relations \<open>account_step\<close> and \<open>session_step\<close>.
  \<^item> \<open>ACL\<close>, \<open>ACL_Service\<close>: \<^verbatim>\<open>acl_authorizer.go\<close> and \<^verbatim>\<open>acl_service.go\<close>; the locale
    \<open>rule_repository\<close> is what the authorizer needs of the rules' repository.
  \<^item> \<open>Mounts\<close>: \<^verbatim>\<open>vfs_registry.go\<close>, \<^verbatim>\<open>vfs_types.go\<close>, the resolution of paths and the projection of mounts.
  \<^item> \<open>Metadata_Repo\<close>, \<open>Metadata_VFS\<close>, \<open>Metadata_Tree\<close>, \<open>Metadata_Mutations\<close>: the node repository, the
    operations of \<^verbatim>\<open>metadata_vfs_service.go\<close>, the well-formed tree, and that every operation keeps
    it (\<open>metadata_step\<close>).
  \<^item> \<open>Metadata_Commit\<close>, \<open>Metadata_Mounts\<close>, \<open>Metadata_Sync\<close>, \<open>Sync_Frame\<close>: the services of the same
    names, and what a refresh leaves alone (locale \<open>beside_part\<close>).
  \<^item> \<open>Journal\<close>: \<^verbatim>\<open>vfs_operation_journal_service.go\<close>: leases, retries and the redaction of payloads;
    its workers are \<open>journal_step\<close>.
  \<^item> \<open>Upload\<close>, \<open>Upload_Correct\<close>: \<^verbatim>\<open>upload_service.go\<close>; framing lemmas on the host (\<open>frames\<close>), which the
    theories on files and tasks use as well.
  \<^item> \<open>File_Access\<close>, \<open>File_Service\<close>, \<open>Trash\<close>, \<open>File_Confined\<close>: access tokens and drivers,
    \<^verbatim>\<open>file_service.go\<close>, \<^verbatim>\<open>trash_service.go\<close>, and that no request leaves the directory of its source.
  \<^item> \<open>Share\<close>: \<^verbatim>\<open>share_service.go\<close>. \<open>Source_Config\<close>, \<open>Source_Service\<close>: the configuration codecs and
    \<^verbatim>\<open>source_service.go\<close> (locales \<open>kept_invariant\<close> and \<open>beside_mounts\<close>).
  \<^item> \<open>Tasks\<close>, \<open>Task_Service\<close>, \<open>Tasks_Correct\<close>: \<^verbatim>\<open>task_service.go\<close> and \<^verbatim>\<open>download_router.go\<close>; requests
    and synchronisations are \<open>task_step\<close>.

  \<^bold>\<open>What the properties say.\<close> Invariants over every sequence of requests: the metadata rows stay a
  tree, an active super administrator stays, the source table stays well formed, a succeeded
  operation and an ended task never change again. All or nothing under failing statements:
  renaming, moving, committing, mounting, creating a source. Round trips: chunks arrive as the
  file, trash and restore, share paths. Confinement: files outside the directory of a source are
  not touched, an open share shows nothing outside its target, a refresh changes nothing but
  children. Authority: capabilities, ownership of sessions, shares and tasks, the exact
  decision of access rules, tokens that die with a change of role. Secrets: redacted payloads,
  masked configurations. The search for a free slug ends.

  \<^bold>\<open>Parameters.\<close> What the code gets from outside is an argument: drivers and downloaders (numbered
  by the calls made so far, so that answers may vary; pure functions in \<open>Share\<close>), the names the
  operating system lists, JSON decoding, MD5, SHA-256, bcrypt, the JWT package, URL parsing, random
  identifiers, MIME types and time formats, and the order in which Go visits a map.

  \<^bold>\<open>Bounds.\<close> Machine integers wrap at 64 bits where the code computes with them. The walk over a
  directory (\<open>fsv_depth\<close>, \<open>tks_depth\<close>) has a bound on the depth: the length limit of
  paths, at which the system call fails; no property depends on it being large. The slug search is a
  partial function that is proved to return.

  \<^bold>\<open>Idealisations.\<close> A handler call sees one instant of the clock. Steps of the relations are whole
  requests. A failed statement inside a transaction does not make the later ones fail. A removal
  of a directory that fails removes nothing. There are no symbolic links, and a path
  below a file is reported as missing. A dereference of nil is an error value.
  Joined errors are separated by a colon. \<^verbatim>\<open>sort.SliceStable\<close> is exact for strict weak orders, and for
  other orders up to twenty elements. The progress of a task is kept in hundredths of a percent.

  \<^bold>\<open>Not modelled.\<close> HTTP (requests, routes, WebDAV), the drivers and download clients, feeds and
  notifications, tags, the virtual file facade beyond its resolution, the serving of file contents
  and access URLs, audit queries and statistics, the mapping of structs to tables, configuration
  and start-up, and the frontend: they are I/O, clients of other services or read-only reports.
\<close>

end
